(* ===== verification/Prelude.thy ===== *)
theory Prelude
  imports Complex_Main "HOL-Library.AList" "HOL-Library.Char_ord" "HOL-Library.List_Lexorder"
begin

text \<open>
  What the components share: Python strings, dictionaries and clocks, the fact collections of
  the development, and the interface of the stores whose entries expire.

  Strings are Isabelle \<open>string\<close>s holding the UTF-8 bytes of the Python string. Searching,
  comparing, splitting at an ASCII character and slicing at ASCII positions agree with the
  code-point operations; \<open>py_len\<close> counts code points. \<open>lower\<close> and \<open>strip\<close> act on
  the ASCII letters and on the ASCII white space of \<open>str.isspace\<close>.

  A Python \<open>dict\<close> is an association list in insertion order with distinct keys:
  \<open>AList.update\<close> is \<open>d[k] = v\<close> (an existing key keeps its place), \<open>AList.delete\<close> is
  \<open>d.pop(k, None)\<close> and \<open>map_of\<close> is \<open>d.get\<close>.

  A clock reading is a rational number of seconds; every finite float is one. The rounding of
  a float sum is not modelled.
\<close>

named_theorems gate_simps \<open>unfolding rules of the command gates\<close>
named_theorems store_simps \<open>unfolding rules of the in-memory stores\<close>

type_synonym time = rat

subsection \<open>Strings\<close>

definition py_space :: "char \<Rightarrow> bool" where
  "py_space c \<longleftrightarrow> (let n = (of_char c :: nat) in 9 \<le> n \<and> n \<le> 13 \<or> 28 \<le> n \<and> n \<le> 32)"

definition lstrip :: "string \<Rightarrow> string" where
  "lstrip s = dropWhile py_space s"

definition rstrip :: "string \<Rightarrow> string" where
  "rstrip s = rev (dropWhile py_space (rev s))"

definition strip :: "string \<Rightarrow> string" where
  "strip s = rstrip (lstrip s)"

definition char_lower :: "char \<Rightarrow> char" where
  "char_lower c = (let n = (of_char c :: nat) in
     if 65 \<le> n \<and> n \<le> 90 then char_of (n + 32) else c)"

definition lower :: "string \<Rightarrow> string" where
  "lower s = map char_lower s"

definition startswith :: "string \<Rightarrow> string \<Rightarrow> bool" where
  "startswith s p \<longleftrightarrow> take (length p) s = p"

definition endswith :: "string \<Rightarrow> string \<Rightarrow> bool" where
  "endswith s p \<longleftrightarrow> length p \<le> length s \<and> drop (length s - length p) s = p"

fun str_in :: "string \<Rightarrow> string \<Rightarrow> bool" where
  "str_in p [] \<longleftrightarrow> p = []"
| "str_in p (c # cs) \<longleftrightarrow> startswith (c # cs) p \<or> str_in p cs"

fun py_join :: "string \<Rightarrow> string list \<Rightarrow> string" where
  "py_join sep [] = []"
| "py_join sep [x] = x"
| "py_join sep (x # y # zs) = x @ sep @ py_join sep (y # zs)"

definition before_char :: "char \<Rightarrow> string \<Rightarrow> string" where
  "before_char c s = takeWhile (\<lambda>d. d \<noteq> c) s"

definition after_char :: "char \<Rightarrow> string \<Rightarrow> string" where
  "after_char c s = tl (dropWhile (\<lambda>d. d \<noteq> c) s)"

text \<open>\<open>s.split(c)\<close>\<close>

fun split_char :: "char \<Rightarrow> string \<Rightarrow> string list" where
  "split_char c [] = [[]]"
| "split_char c (d # ds) =
     (if d = c then [] # split_char c ds
      else case split_char c ds of [] \<Rightarrow> [[d]] | w # ws \<Rightarrow> (d # w) # ws)"

text \<open>\<open>s.rsplit(".", 1)\<close> when it gives two parts.\<close>

definition rsplit_char :: "char \<Rightarrow> string \<Rightarrow> (string \<times> string) option" where
  "rsplit_char c s =
     (if c \<in> set s then Some (rev (after_char c (rev s)), rev (before_char c (rev s))) else None)"

text \<open>\<open>s.split()\<close>; \<open>acc\<close> is the word read so far.\<close>

fun split_words :: "string \<Rightarrow> string \<Rightarrow> string list" where
  "split_words acc [] = (if acc = [] then [] else [acc])"
| "split_words acc (c # s) =
     (if py_space c then (if acc = [] then split_words [] s else acc # split_words [] s)
      else split_words (acc @ [c]) s)"

definition py_len :: "string \<Rightarrow> nat" where
  "py_len s = length (filter (\<lambda>c. let n = (of_char c :: nat) in n < 128 \<or> 192 \<le> n) s)"

definition digit_char :: "nat \<Rightarrow> char" where
  "digit_char d = char_of (48 + d)"

fun nat_str :: "nat \<Rightarrow> string" where
  "nat_str n = (if n < 10 then [digit_char n] else nat_str (n div 10) @ [digit_char (n mod 10)])"

declare nat_str.simps [simp del]

definition is_ascii_lower :: "char \<Rightarrow> bool" where
  "is_ascii_lower c \<longleftrightarrow> (let n = (of_char c :: nat) in 97 \<le> n \<and> n \<le> 122)"

definition is_ascii_upper :: "char \<Rightarrow> bool" where
  "is_ascii_upper c \<longleftrightarrow> (let n = (of_char c :: nat) in 65 \<le> n \<and> n \<le> 90)"

definition is_ascii_digit :: "char \<Rightarrow> bool" where
  "is_ascii_digit c \<longleftrightarrow> (let n = (of_char c :: nat) in 48 \<le> n \<and> n \<le> 57)"

definition is_ascii_alnum :: "char \<Rightarrow> bool" where
  "is_ascii_alnum c \<longleftrightarrow> is_ascii_lower c \<or> is_ascii_upper c \<or> is_ascii_digit c"

text \<open>The characters the literals of the code need by name.\<close>

definition dquote :: char where
  "dquote = CHR 0x22"

definition squote :: char where
  "squote = CHR 0x27"

definition bslash :: char where
  "bslash = CHR 0x5C"

definition newline :: char where
  "newline = CHR 0x0A"

text \<open>\<open>str.splitlines\<close> on its ASCII line boundaries; \<open>cur\<close> is the line read so far, reversed.\<close>

definition line_break :: "char \<Rightarrow> bool" where
  "line_break c \<longleftrightarrow> (let n = (of_char c :: nat) in 10 \<le> n \<and> n \<le> 13 \<or> 28 \<le> n \<and> n \<le> 30)"

fun splitlines_from :: "string \<Rightarrow> string \<Rightarrow> string list" where
  "splitlines_from cur [] = (if cur = [] then [] else [rev cur])"
| "splitlines_from cur [c] = (if line_break c then [rev cur] else [rev (c # cur)])"
| "splitlines_from cur (c # d # cs) =
     (if c = CHR 0x0D \<and> d = newline then rev cur # splitlines_from [] cs
      else if line_break c then rev cur # splitlines_from [] (d # cs)
      else splitlines_from (c # cur) (d # cs))"

definition splitlines :: "string \<Rightarrow> string list" where
  "splitlines s = splitlines_from [] s"

definition em_dash :: string where
  "em_dash = [CHR 0xE2, CHR 0x80, CHR 0x94]"

definition quoted :: "string \<Rightarrow> string" where
  "quoted s = [squote] @ s @ [squote]"

lemmas char_names = dquote_def squote_def bslash_def newline_def

lemma startswith_append [simp]: "startswith (p @ s) p"
  by (simp add: startswith_def)

lemma startswith_iff: "startswith s p \<longleftrightarrow> (\<exists>r. s = p @ r)"
  unfolding startswith_def by (metis append_eq_conv_conj append_take_drop_id)

lemma startswith_Nil [simp]: "startswith s []"
  by (simp add: startswith_def)

lemma startswith_Cons [simp]:
  "startswith (c # s) (d # p) \<longleftrightarrow> c = d \<and> startswith s p"
  by (simp add: startswith_def)

lemma startswith_Nil_Cons [simp]: "\<not> startswith [] (d # p)"
  by (simp add: startswith_def)

lemma str_in_iff: "str_in p s \<longleftrightarrow> (\<exists>a b. s = a @ p @ b)"
proof (induction s)
  case Nil
  then show ?case by simp
next
  case (Cons c cs)
  have "(\<exists>a b. c # cs = a @ p @ b) \<longleftrightarrow> startswith (c # cs) p \<or> (\<exists>a b. cs = a @ p @ b)"
  proof
    assume "\<exists>a b. c # cs = a @ p @ b"
    then obtain a b where "c # cs = a @ p @ b" by blast
    then show "startswith (c # cs) p \<or> (\<exists>a b. cs = a @ p @ b)"
      by (cases a) (auto simp: startswith_iff)
  next
    assume "startswith (c # cs) p \<or> (\<exists>a b. cs = a @ p @ b)"
    then show "\<exists>a b. c # cs = a @ p @ b"
      by (metis append_Cons append_Nil startswith_iff)
  qed
  with Cons.IH show ?case by simp
qed

lemma str_in_Nil [simp]: "str_in [] s"
  by (cases s) auto

lemma lower_simps [simp]:
  "lower [] = []" "lower (c # s) = char_lower c # lower s" "lower (s @ t) = lower s @ lower t"
  by (simp_all add: lower_def)

lemma length_lower [simp]: "length (lower s) = length s"
  by (simp add: lower_def)

lemma char_lower_not_upper: "\<not> is_ascii_upper (char_lower c)"
proof (cases "65 \<le> (of_char c :: nat) \<and> (of_char c :: nat) \<le> 90")
  case True
  then show ?thesis
    by (simp add: is_ascii_upper_def char_lower_def Let_def of_char_of take_bit_eq_mod)
next
  case False
  then show ?thesis
    by (auto simp: is_ascii_upper_def char_lower_def Let_def)
qed

lemma lower_no_upper: "c \<in> set (lower s) \<Longrightarrow> \<not> is_ascii_upper c"
  by (auto simp: lower_def char_lower_not_upper)

lemma length_after_char: "length (after_char c s) \<le> length s"
  using length_dropWhile_le [of "\<lambda>d. d \<noteq> c" s] by (simp add: after_char_def del: length_dropWhile_le)

lemma split_at_char:
  assumes "c \<in> set s"
  shows "s = before_char c s @ c # after_char c s"
proof -
  have "dropWhile (\<lambda>d. d \<noteq> c) s = c # tl (dropWhile (\<lambda>d. d \<noteq> c) s)"
    using assms by (induction s) auto
  then show ?thesis
    unfolding before_char_def after_char_def by (metis takeWhile_dropWhile_id)
qed

lemma lstrip_in: "\<exists>a. s = a @ lstrip s"
  unfolding lstrip_def by (metis takeWhile_dropWhile_id)

lemma rstrip_in: "\<exists>b. s = rstrip s @ b"
proof -
  have "rev s = takeWhile py_space (rev s) @ dropWhile py_space (rev s)" by simp
  then have "s = rstrip s @ rev (takeWhile py_space (rev s))"
    unfolding rstrip_def by (metis rev_append rev_rev_ident)
  then show ?thesis by blast
qed

lemma strip_in: "\<exists>a b. s = a @ strip s @ b"
  unfolding strip_def by (metis lstrip_in rstrip_in)

lemma str_in_trans: "str_in p s \<Longrightarrow> str_in s t \<Longrightarrow> str_in p t"
  unfolding str_in_iff by (metis append.assoc)

lemma str_in_strip: "str_in (strip s) s"
  using strip_in by (auto simp: str_in_iff)

lemma str_in_refl [simp]: "str_in s s"
  by (metis append_Nil append_Nil2 str_in_iff)

lemma str_in_take: "str_in (take n s) s"
  unfolding str_in_iff by (metis append_Nil append_take_drop_id)

lemma str_in_drop: "str_in (drop n s) s"
  unfolding str_in_iff by (metis append_Nil2 append_take_drop_id)

lemma str_in_append: "str_in s (a @ s)" "str_in s (s @ a)"
  unfolding str_in_iff by (metis append_Nil2, metis append_Nil)

subsection \<open>First occurrences\<close>

text \<open>
  The deduplicating loops of the code: keep an element when its key was not seen before.
\<close>

fun dedup_by :: "('a \<Rightarrow> 'k) \<Rightarrow> 'k list \<Rightarrow> 'a list \<Rightarrow> 'a list" where
  "dedup_by f seen [] = []"
| "dedup_by f seen (x # xs) =
     (if f x \<in> set seen then dedup_by f seen xs else x # dedup_by f (f x # seen) xs)"

lemma dedup_by_subset: "set (dedup_by f seen xs) \<subseteq> set xs"
  by (induction f seen xs rule: dedup_by.induct) auto

lemma dedup_by_fresh: "x \<in> set (dedup_by f seen xs) \<Longrightarrow> f x \<notin> set seen"
  by (induction f seen xs rule: dedup_by.induct) (auto split: if_splits)

lemma dedup_by_distinct: "distinct (map f (dedup_by f seen xs))"
  by (induction f seen xs rule: dedup_by.induct) (auto dest: dedup_by_fresh)

lemma dedup_by_keys: "set (map f (dedup_by f seen xs)) \<union> set seen = set (map f xs) \<union> set seen"
  by (induction f seen xs rule: dedup_by.induct) auto

lemma find_append: "find P (xs @ ys) = (case find P xs of Some x \<Rightarrow> Some x | None \<Rightarrow> find P ys)"
  by (induction xs) auto

subsection \<open>Dictionaries\<close>

definition dict_ok :: "('k \<times> 'v) list \<Rightarrow> bool" where
  "dict_ok d \<longleftrightarrow> distinct (map fst d)"

lemma dict_ok_Nil [simp, intro]: "dict_ok []"
  by (simp add: dict_ok_def)

lemma dict_ok_update [simp, intro]: "dict_ok d \<Longrightarrow> dict_ok (AList.update k v d)"
  by (simp add: dict_ok_def distinct_update)

lemma distinct_keys_filter: "distinct (map fst d) \<Longrightarrow> distinct (map fst (filter P d))"
  by (induction d) auto

lemma dict_ok_filter [simp, intro]: "dict_ok d \<Longrightarrow> dict_ok (filter P d)"
  by (simp add: dict_ok_def distinct_keys_filter)

lemma dict_ok_delete [simp, intro]: "dict_ok d \<Longrightarrow> dict_ok (AList.delete k d)"
  by (simp add: dict_ok_def AList.distinct_delete)

lemma dict_get_update [simp]:
  "map_of (AList.update k v d) k' = (if k' = k then Some v else map_of d k')"
  by (simp add: update_conv')

lemma dict_get_delete [simp]:
  "map_of (AList.delete k d) k' = (if k' = k then None else map_of d k')"
  by (simp add: delete_conv')

lemma dict_get_filter:
  assumes "dict_ok d"
  shows "map_of (filter (\<lambda>(k, v). P k v) d) k =
    (case map_of d k of None \<Rightarrow> None | Some v \<Rightarrow> if P k v then Some v else None)"
  using assms
proof (induction d)
  case Nil
  then show ?case by simp
next
  case (Cons p d)
  obtain k' v' where p: "p = (k', v')" by (cases p)
  from Cons.prems p have notin: "k' \<notin> fst ` set d" and ok: "dict_ok d"
    by (auto simp: dict_ok_def)
  have "k' = k \<Longrightarrow> map_of (filter (\<lambda>(k, v). P k v) d) k = None"
    using notin by (auto simp: map_of_eq_None_iff)
  then show ?case using Cons.IH [OF ok] p by auto
qed

lemma dict_get_Some_iff: "dict_ok d \<Longrightarrow> map_of d k = Some v \<longleftrightarrow> (k, v) \<in> set d"
  by (simp add: dict_ok_def)

subsection \<open>Stores whose entries expire\<close>

text \<open>
  Several stores of the program (operator approvals, access decisions, Docker confirmations, the
  layered allowlist) keep entries with a deadline and purge the stale ones before or after their
  operations. The interface: what the store holds, its well-formedness, when an entry is stale
  at a clock reading, and the purge. The provider promises that the purge of a well-formed store
  keeps exactly the entries that are not stale, in order, and that an entry that went stale
  stays stale.
\<close>

locale expiring_store =
  fixes ok :: "'s \<Rightarrow> bool"
    and entries :: "'s \<Rightarrow> 'e list"
    and stale :: "time \<Rightarrow> 'e \<Rightarrow> bool"
    and purge :: "time \<Rightarrow> 's \<Rightarrow> 's"
  assumes ok_purge: "ok s \<Longrightarrow> ok (purge t s)"
    and entries_purge: "ok s \<Longrightarrow> entries (purge t s) = filter (\<lambda>e. \<not> stale t e) (entries s)"
    and stale_mono: "t \<le> t' \<Longrightarrow> stale t e \<Longrightarrow> stale t' e"
begin

lemma purge_iff: "ok s \<Longrightarrow> e \<in> set (entries (purge t s)) \<longleftrightarrow> e \<in> set (entries s) \<and> \<not> stale t e"
  by (simp add: entries_purge)

lemma purge_purge:
  assumes "ok s" "t \<le> t'"
  shows "entries (purge t' (purge t s)) = entries (purge t' s)"
  using assms by (auto simp: entries_purge ok_purge intro: filter_cong dest: stale_mono)

lemma purge_idem: "ok s \<Longrightarrow> entries (purge t (purge t s)) = entries (purge t s)"
  by (rule purge_purge) simp_all

lemma purge_fixpoint:
  "ok s \<Longrightarrow> (\<And>e. e \<in> set (entries s) \<Longrightarrow> \<not> stale t e) \<Longrightarrow> entries (purge t s) = entries s"
  by (simp add: entries_purge)

lemma purge_length_le: "ok s \<Longrightarrow> length (entries (purge t s)) \<le> length (entries s)"
  by (simp add: entries_purge)

lemma purged_count:
  "ok s \<Longrightarrow>
   length (entries s) - length (entries (purge t s)) = length (filter (stale t) (entries s))"
  using sum_length_filter_compl [of "stale t" "entries s"] by (simp add: entries_purge)

end

text \<open>\<open>for k in keys: store.pop(k, None)\<close>, where the keys are those of the entries with a property.\<close>

lemma fold_delete_filter: "fold AList.delete ks d = filter (\<lambda>e. fst e \<notin> set ks) d"
proof (induction ks arbitrary: d)
  case Nil
  then show ?case by simp
next
  case (Cons k ks)
  have "AList.delete k d = filter (\<lambda>e. fst e \<noteq> k) d"
    by (induction d) (auto simp: AList.delete_eq)
  then show ?case using Cons by (simp add: conj_commute)
qed

lemma delete_keys_filter:
  assumes "dict_ok d"
  shows "fold AList.delete (map fst (filter P d)) d = filter (\<lambda>e. \<not> P e) d"
proof -
  have "fst e \<in> set (map fst (filter P d)) \<longleftrightarrow> P e" if "e \<in> set d" for e
  proof -
    have "e' = e" if "e' \<in> set d" "fst e' = fst e" for e'
      using that \<open>e \<in> set d\<close> assms unfolding dict_ok_def
      by (metis eq_key_imp_eq_value prod.collapse)
    with that show ?thesis by auto
  qed
  then show ?thesis unfolding fold_delete_filter by (intro filter_cong) auto
qed

lemma split_char_nonempty [simp]: "split_char c s \<noteq> []"
  by (cases s) (auto split: list.split)

lemma split_char_join: "py_join [c] (split_char c s) = s"
proof (induction s)
  case (Cons d ds)
  show ?case
  proof (cases "split_char c ds")
    case Nil
    then show ?thesis by simp
  next
    case (Cons w ws)
    with Cons.IH show ?thesis by (cases ws) auto
  qed
qed simp

lemma rsplit_char_parts:
  "rsplit_char c s = Some (a, b) \<longleftrightarrow> s = a @ c # b \<and> c \<notin> set b"
proof
  assume "rsplit_char c s = Some (a, b)"
  then have c: "c \<in> set (rev s)" and ab: "a = rev (after_char c (rev s))" "b = rev (before_char c (rev s))"
    by (auto simp: rsplit_char_def split: if_splits)
  have "rev (rev s) = rev (before_char c (rev s) @ c # after_char c (rev s))"
    using split_at_char [OF c] by simp
  then have "s = a @ c # b" by (simp add: ab)
  moreover have "c \<notin> set b" by (auto simp: ab(2) before_char_def dest: set_takeWhileD)
  ultimately show "s = a @ c # b \<and> c \<notin> set b" by blast
next
  assume s: "s = a @ c # b \<and> c \<notin> set b"
  then have "\<And>d. d \<in> set (rev b) \<Longrightarrow> d \<noteq> c" by auto
  with s show "rsplit_char c s = Some (a, b)"
    by (simp add: rsplit_char_def after_char_def before_char_def dropWhile_append takeWhile_append)
qed

end
