(* ===== verification/PolicyTypes.thy ===== *)
theory PolicyTypes
  imports Prelude
begin

text \<open>
  The enumerations and data classes of \<open>app/command_policy.py\<close> that the pattern packs, the
  scanners and the policy engine share. A \<open>StrEnum\<close> is a datatype with its \<open>.value\<close>
  function.
\<close>

datatype command_policy_mode = MODE_OFF | MODE_AUDIT | MODE_ENFORCE | MODE_ASK

fun mode_value :: "command_policy_mode \<Rightarrow> string" where
  "mode_value MODE_OFF = ''off''"
| "mode_value MODE_AUDIT = ''audit''"
| "mode_value MODE_ENFORCE = ''enforce''"
| "mode_value MODE_ASK = ''ask''"

datatype command_policy_profile =
  PROFILE_DEFAULT | PROFILE_READONLY | PROFILE_TESTLINT | PROFILE_PROJECT_AUTOMATION
  | PROFILE_OPS | PROFILE_DOCKER_ADMIN

fun profile_value :: "command_policy_profile \<Rightarrow> string" where
  "profile_value PROFILE_DEFAULT = ''default''"
| "profile_value PROFILE_READONLY = ''readonly''"
| "profile_value PROFILE_TESTLINT = ''testlint''"
| "profile_value PROFILE_PROJECT_AUTOMATION = ''project-automation''"
| "profile_value PROFILE_OPS = ''ops''"
| "profile_value PROFILE_DOCKER_ADMIN = ''docker-admin''"

datatype severity = SEV_CRITICAL | SEV_HIGH | SEV_MEDIUM | SEV_LOW

fun severity_value :: "severity \<Rightarrow> string" where
  "severity_value SEV_CRITICAL = ''critical''"
| "severity_value SEV_HIGH = ''high''"
| "severity_value SEV_MEDIUM = ''medium''"
| "severity_value SEV_LOW = ''low''"

datatype suggestion_kind =
  PREVIEW_FIRST | SAFER_ALTERNATIVE | WORKFLOW_FIX | DOCUMENTATION | ALLOW_SAFELY

record pattern_suggestion =
  sg_command :: string
  sg_description :: string
  sg_kind :: suggestion_kind

record destructive_pattern =
  dp_name :: string
  dp_regex :: string
  dp_reason :: string
  dp_severity :: severity
  dp_description :: string
  dp_suggestions :: "pattern_suggestion list"

record destructive_match =
  dm_pattern_name :: string
  dm_reason :: string
  dm_severity :: severity
  dm_suggestion :: "string option"
  dm_suggestions :: "pattern_suggestion list"
  dm_confidence :: rat

record command_policy_decision =
  dec_allowed :: bool
  dec_reason :: string
  dec_profile :: string
  dec_mode :: string
  dec_command_root :: "string option"
  dec_requires_approval :: bool
  dec_approval_id :: "string option"
  dec_suggestion :: "string option"
  dec_suggestions :: "string list"

text \<open>The constructor \<open>CommandPolicyDecision(...)\<close> with the defaults of its optional fields.\<close>

definition make_decision ::
    "bool \<Rightarrow> string \<Rightarrow> string \<Rightarrow> string \<Rightarrow> string option \<Rightarrow> command_policy_decision" where
  "make_decision allowed reason profile mode rt =
     \<lparr>dec_allowed = allowed, dec_reason = reason, dec_profile = profile, dec_mode = mode,
      dec_command_root = rt, dec_requires_approval = False, dec_approval_id = None,
      dec_suggestion = None, dec_suggestions = []\<rparr>"

lemma make_decision_simps [simp]:
  "dec_allowed (make_decision a r p m t) = a"
  "dec_reason (make_decision a r p m t) = r"
  "dec_profile (make_decision a r p m t) = p"
  "dec_mode (make_decision a r p m t) = m"
  "dec_command_root (make_decision a r p m t) = t"
  "dec_requires_approval (make_decision a r p m t) = False"
  "dec_approval_id (make_decision a r p m t) = None"
  "dec_suggestion (make_decision a r p m t) = None"
  "dec_suggestions (make_decision a r p m t) = []"
  by (simp_all add: make_decision_def)

end
