(* ===== verification/PyShlex.thy ===== *)
theory PyShlex
  imports Prelude
begin

text \<open>
  \<open>shlex\<close> of the Python standard library, as \<open>app/command_policy.py\<close> uses it:
  \<open>split\<close> in POSIX mode without comments, \<open>quote\<close> and \<open>join\<close>. The tokenizer is the
  library's character automaton with its states: between tokens, in a word, inside quotes, after
  an escape. \<open>None\<close> is the \<open>ValueError\<close> of an unclosed quotation or of a trailing escape.
  The main fact is the round trip \<open>shlex_split (shlex_join ps) = Some ps\<close>.
\<close>

datatype lex_state = LexSpace | LexWord | LexQuote char | LexEscape char lex_state

definition shlex_white :: "char \<Rightarrow> bool" where
  "shlex_white c \<longleftrightarrow> c \<in> {CHR '' '', CHR 0x09, CHR 0x0D, CHR 0x0A}"

definition shlex_quote_char :: "char \<Rightarrow> bool" where
  "shlex_quote_char c \<longleftrightarrow> c = squote \<or> c = dquote"

text \<open>
  One run of the automaton: the state, the token read so far, whether part of it was quoted, and
  the rest of the input. \<open>LexEscape e st\<close> is the state after the escape character \<open>e\<close>, to
  return to \<open>st\<close>; inside double quotes the escape character is kept unless it escapes the quote
  or itself.
\<close>

fun lex_run :: "lex_state \<Rightarrow> string \<Rightarrow> bool \<Rightarrow> string \<Rightarrow> string list option" where
  "lex_run LexSpace tok q [] = Some (if tok \<noteq> [] \<or> q then [tok] else [])"
| "lex_run LexSpace tok q (c # cs) =
     (if shlex_white c then
        (if tok \<noteq> [] \<or> q then map_option ((#) tok) (lex_run LexSpace [] False cs)
         else lex_run LexSpace tok q cs)
      else if c = bslash then lex_run (LexEscape c LexWord) tok q cs
      else if shlex_quote_char c then lex_run (LexQuote c) tok q cs
      else lex_run LexWord [c] q cs)"
| "lex_run (LexQuote d) tok q [] = None"
| "lex_run (LexQuote d) tok q (c # cs) =
     (if c = d then lex_run LexWord tok True cs
      else if c = bslash \<and> d = dquote then lex_run (LexEscape c (LexQuote d)) tok True cs
      else lex_run (LexQuote d) (tok @ [c]) True cs)"
| "lex_run (LexEscape e st) tok q [] = None"
| "lex_run (LexEscape e st) tok q (c # cs) =
     (case st of
        LexQuote d \<Rightarrow>
          (if c \<noteq> e \<and> c \<noteq> d then lex_run st (tok @ [e, c]) q cs
           else lex_run st (tok @ [c]) q cs)
      | _ \<Rightarrow> lex_run st (tok @ [c]) q cs)"
| "lex_run LexWord tok q [] = Some (if tok \<noteq> [] \<or> q then [tok] else [])"
| "lex_run LexWord tok q (c # cs) =
     (if shlex_white c then
        (if tok \<noteq> [] \<or> q then map_option ((#) tok) (lex_run LexSpace [] False cs)
         else lex_run LexSpace tok q cs)
      else if shlex_quote_char c then lex_run (LexQuote c) tok q cs
      else if c = bslash then lex_run (LexEscape c LexWord) tok q cs
      else lex_run LexWord (tok @ [c]) q cs)"

definition shlex_split :: "string \<Rightarrow> string list option" where
  "shlex_split s = lex_run LexSpace [] False s"

text \<open>\<open>_find_unsafe = re.compile(r'[^\w@%+=:,./-]', re.ASCII).search\<close>\<close>

definition shlex_safe :: "char \<Rightarrow> bool" where
  "shlex_safe c \<longleftrightarrow> is_ascii_alnum c \<or> c \<in> set ''_@%+=:,./-''"

definition shlex_quote :: "string \<Rightarrow> string" where
  "shlex_quote s =
     (if s = [] then [squote, squote]
      else if list_all shlex_safe s then s
      else squote # concat (map (\<lambda>c. if c = squote then [squote, dquote, squote, dquote, squote]
                                       else [c]) s) @ [squote])"

definition shlex_join :: "string list \<Rightarrow> string" where
  "shlex_join ps = py_join '' '' (map shlex_quote ps)"

subsection \<open>The round trip\<close>

lemma lex_class_simps [simp]:
  "shlex_white CHR '' ''" "\<not> shlex_white squote" "\<not> shlex_white dquote" "\<not> shlex_white bslash"
  "shlex_quote_char squote" "shlex_quote_char dquote" "\<not> shlex_quote_char bslash"
  "\<not> shlex_quote_char CHR '' ''" "squote \<noteq> bslash" "dquote \<noteq> bslash" "squote \<noteq> dquote"
  "bslash \<noteq> squote" "bslash \<noteq> dquote" "dquote \<noteq> squote"
  by (simp_all add: shlex_white_def shlex_quote_char_def char_names)

lemma safe_not_special:
  assumes "shlex_safe c"
  shows "\<not> shlex_white c" "\<not> shlex_quote_char c" "c \<noteq> bslash"
  using assms
  by (auto simp: shlex_safe_def shlex_white_def shlex_quote_char_def char_names is_ascii_alnum_def
      is_ascii_lower_def is_ascii_upper_def is_ascii_digit_def)

lemma lex_word_safe:
  "list_all shlex_safe s \<Longrightarrow> lex_run LexWord tok q (s @ rest) = lex_run LexWord (tok @ s) q rest"
proof (induction s arbitrary: tok)
  case Nil
  then show ?case by simp
next
  case (Cons c s)
  then show ?case by (simp add: safe_not_special)
qed

lemma lex_space_safe:
  assumes "list_all shlex_safe s" "s \<noteq> []"
  shows "lex_run LexSpace [] q (s @ rest) = lex_run LexWord s q rest"
  using assms by (cases s) (auto simp: safe_not_special lex_word_safe)

lemma lex_in_single:
  "lex_run (LexQuote squote) tok True
     (concat (map (\<lambda>c. if c = squote then [squote, dquote, squote, dquote, squote] else [c]) s)
       @ squote # rest)
   = lex_run LexWord (tok @ s) True rest"
proof (induction s arbitrary: tok)
  case Nil
  then show ?case by simp
next
  case (Cons c s)
  then show ?case
    by (cases "c = squote") simp_all
qed

lemma lex_in_single_start:
  "lex_run (LexQuote squote) tok False
     (concat (map (\<lambda>c. if c = squote then [squote, dquote, squote, dquote, squote] else [c]) s)
       @ squote # rest)
   = lex_run LexWord (tok @ s) True rest"
proof (cases s)
  case Nil
  then show ?thesis by simp
next
  case (Cons c s')
  then show ?thesis by (cases "c = squote") (simp_all add: lex_in_single)
qed

text \<open>A quoted argument is read back as one word, and that word ends where the quoting ends.\<close>

lemma lex_space_quote:
  "\<exists>q. (s \<noteq> [] \<or> q) \<and> lex_run LexSpace [] False (shlex_quote s @ rest) = lex_run LexWord s q rest"
proof (cases "s \<noteq> [] \<and> list_all shlex_safe s")
  case True
  then have "lex_run LexSpace [] False (shlex_quote s @ rest) = lex_run LexWord s False rest"
    by (simp only: shlex_quote_def if_False if_True lex_space_safe simp_thms)
  with True show ?thesis by (intro exI [of _ False]) (simp only: simp_thms)
next
  case False
  have "lex_run LexSpace [] False (shlex_quote s @ rest) = lex_run LexWord s True rest"
  proof (cases "s = []")
    case True
    then show ?thesis
      by (simp add: shlex_quote_def)
  next
    case nonempty: False
    have "lex_run LexSpace [] False (shlex_quote s @ rest)
        = lex_run (LexQuote squote) [] False
            (concat (map (\<lambda>c. if c = squote then [squote, dquote, squote, dquote, squote] else [c]) s)
               @ squote # rest)"
      using nonempty False
      by (simp add: shlex_quote_def)
    also have "\<dots> = lex_run LexWord s True rest"
      using lex_in_single_start [of "[]" s rest] by (simp only: append_Nil)
    finally show ?thesis .
  qed
  then have "(s \<noteq> [] \<or> True)
      \<and> lex_run LexSpace [] False (shlex_quote s @ rest) = lex_run LexWord s True rest"
    by (simp only: simp_thms)
  then show ?thesis by (rule exI [of _ True])
qed

lemma lex_word_end: "tok \<noteq> [] \<or> q \<Longrightarrow> lex_run LexWord tok q [] = Some [tok]"
  by simp

lemma lex_word_space:
  "tok \<noteq> [] \<or> q \<Longrightarrow>
   lex_run LexWord tok q (CHR '' '' # cs) = map_option ((#) tok) (lex_run LexSpace [] False cs)"
  by simp

theorem shlex_split_join: "shlex_split (shlex_join ps) = Some ps"
proof -
  have "lex_run LexSpace [] False (py_join '' '' (map shlex_quote ps)) = Some ps"
  proof (induction ps rule: induct_list012)
    case 1
    then show ?case by simp
  next
    case (2 s)
    obtain q where "s \<noteq> [] \<or> q" "lex_run LexSpace [] False (shlex_quote s @ []) = lex_run LexWord s q []"
      using lex_space_quote [of s "[]"] by blast
    then show ?case by simp
  next
    case (3 s t ps)
    let ?rest = "py_join '' '' (map shlex_quote (t # ps))"
    obtain q where q: "s \<noteq> [] \<or> q"
      and eq: "lex_run LexSpace [] False (shlex_quote s @ CHR '' '' # ?rest)
                = lex_run LexWord s q (CHR '' '' # ?rest)"
      using lex_space_quote [of s "CHR '' '' # ?rest"] by blast
    have "lex_run LexSpace [] False ?rest = Some (t # ps)"
      using "3.IH"(2) by simp
    then show ?case
      using eq lex_word_space [OF q, of ?rest] by (simp del: lex_run.simps)
  qed
  then show ?thesis by (simp add: shlex_split_def shlex_join_def)
qed

subsection \<open>What a split returns\<close>

lemma shlex_split_Nil [simp]: "shlex_split [] = Some []"
  by (simp add: shlex_split_def)

text \<open>Safe words separated by blanks are split at the blanks: no quoting is involved.\<close>

lemma shlex_quote_safe: "s \<noteq> [] \<Longrightarrow> list_all shlex_safe s \<Longrightarrow> shlex_quote s = s"
  by (simp add: shlex_quote_def)

lemma shlex_split_safe_words:
  assumes "\<And>w. w \<in> set ws \<Longrightarrow> w \<noteq> [] \<and> list_all shlex_safe w"
  shows "shlex_split (py_join '' '' ws) = Some ws"
proof -
  have "map shlex_quote ws = ws"
    using assms by (simp add: map_idI shlex_quote_safe)
  then have "shlex_join ws = py_join '' '' ws" by (simp add: shlex_join_def)
  with shlex_split_join [of ws] show ?thesis by simp
qed

end
