(* ===== verification/ShellScan.thy ===== *)
theory ShellScan
  imports PolicyTypes PyShlex
begin

text \<open>
  The lexical gates of \<open>app/command_policy.py\<close>: the metacharacter scan (Gate 1), the
  redirection scan, the command root and parts, the dangerous-token denylist and the
  argument-shape check (Gate 2).

  \<open>contains_metachar\<close> and \<open>contains_shell_redirection\<close> are the same loop over the quoting
  state with another list of operators; \<open>scan_ops\<close> is that loop, \<open>quote_mode\<close> its two flags
  \<open>in_single\<close> and \<open>in_double\<close>. The index step \<open>i += 2\<close> after a backslash drops the next
  character as well, and runs off the end when there is none.
\<close>

subsection \<open>The quote-aware scan\<close>

datatype quote_mode = Plain | InSingle | InDouble

definition first_op :: "string list \<Rightarrow> string \<Rightarrow> string option" where
  "first_op ops s = find (\<lambda>op. startswith s op) ops"

fun scan_ops :: "string list \<Rightarrow> quote_mode \<Rightarrow> string \<Rightarrow> string option" where
  "scan_ops ops m [] = None"
| "scan_ops ops InSingle (c # cs) =
     (if c = squote then scan_ops ops Plain cs else scan_ops ops InSingle cs)"
| "scan_ops ops InDouble (c # cs) =
     (if c = bslash then scan_ops ops InDouble (tl cs)
      else if c = dquote then scan_ops ops Plain cs
      else scan_ops ops InDouble cs)"
| "scan_ops ops Plain (c # cs) =
     (if c = squote then scan_ops ops InSingle cs
      else if c = dquote then scan_ops ops InDouble cs
      else if c = bslash then scan_ops ops Plain (tl cs)
      else case first_op ops (c # cs) of
             Some op \<Rightarrow> Some op
           | None \<Rightarrow> scan_ops ops Plain cs)"

definition METACHAR_DENYLIST :: "string list" where
  "METACHAR_DENYLIST = [''|'', '';'', ''&&'', ''||'', [CHR 0x60], ''$('']"

definition contains_metachar :: "string \<Rightarrow> string option" where
  "contains_metachar command = scan_ops METACHAR_DENYLIST Plain command"

definition REDIRECT_OPS :: "string list" where
  "REDIRECT_OPS = [''1>>'', ''2>>'', ''1>'', ''2>'', ''&>'', ''>|'', ''>>'', ''<<'', ''>'', ''<'']"

definition contains_shell_redirection :: "string \<Rightarrow> string option" where
  "contains_shell_redirection command = scan_ops REDIRECT_OPS Plain command"

subsection \<open>Command parts\<close>

definition get_command_parts :: "string \<Rightarrow> string list" where
  "get_command_parts command = (case shlex_split command of None \<Rightarrow> [] | Some parts \<Rightarrow> parts)"

definition get_command_root :: "string \<Rightarrow> string option" where
  "get_command_root command =
     (case shlex_split command of
        None \<Rightarrow> None
      | Some [] \<Rightarrow> None
      | Some (p # ps) \<Rightarrow>
          (let rt = strip p in
           if rt = ''sudo'' \<and> ps \<noteq> [] then Some (strip (hd ps)) else Some rt))"

definition normalize_command :: "string \<Rightarrow> string" where
  "normalize_command command = '' '' @ strip command @ '' ''"

definition normalize_root :: "string \<Rightarrow> string" where
  "normalize_root rt =
     (let lowered = lower rt in
      if endswith lowered ''.exe'' then take (length lowered - length ''.exe'') lowered else lowered)"

definition DENYLIST_TOKENS :: "string list" where
  "DENYLIST_TOKENS =
     ['' rm -rf '', '' mkfs '', '' dd if='', '' :(){'', ''chmod 777'', ''chown -R'', ''curl '',
      ''wget '', '' nc '', '' netcat '']"

definition contains_dangerous_token :: "string \<Rightarrow> string option" where
  "contains_dangerous_token command =
     (let tokens = get_command_parts command;
          normalized = (if tokens \<noteq> [] then '' '' @ lower (py_join '' '' tokens) @ '' ''
                        else lower (normalize_command command))
      in case find (\<lambda>token. str_in token normalized) DENYLIST_TOKENS of
           Some token \<Rightarrow> Some (strip token)
         | None \<Rightarrow> contains_shell_redirection command)"

subsection \<open>Argument shape (Gate 2)\<close>

definition BLOCKED_INTERPRETERS :: "string set" where
  "BLOCKED_INTERPRETERS =
     {''python'', ''python2'', ''python3'', ''perl'', ''perl5'', ''ruby'', ''ruby3'',
      ''bash'', ''sh'', ''ash'', ''zsh'', ''ksh'', ''node'', ''deno'', ''bun''}"

definition EXEC_FLAGS :: "string set" where
  "EXEC_FLAGS = {''-c'', ''-e'', ''-E'', ''-es'', ''-ex'', ''-0'', ''-n'', ''-w''}"

definition FIND_DENYLIST :: "string set" where
  "FIND_DENYLIST =
     {''-exec'', ''-execdir'', ''-ok'', ''-okdir'', ''-delete'', ''-fprintf'', ''-fls''}"

definition SED_INPLACE_DENYLIST :: "string set" where
  "SED_INPLACE_DENYLIST = {''-i'', ''--in-place''}"

definition COMMAND_ALLOWED_FLAGS :: "string set" where
  "COMMAND_ALLOWED_FLAGS = {''-v''}"

definition extract_single_flags :: "string \<Rightarrow> string list" where
  "extract_single_flags arg =
     (if \<not> startswith arg ''-'' \<or> startswith arg ''--'' \<or> length arg < 2 then []
      else map (\<lambda>ch. ''-'' @ [ch]) (tl arg))"

definition is_safe_bash_syntax_check :: "string list \<Rightarrow> bool" where
  "is_safe_bash_syntax_check effective =
     (case effective of
        [] \<Rightarrow> False
      | cmd # args \<Rightarrow>
          if cmd \<noteq> ''bash'' then False
          else case args of
                 [flag, script] \<Rightarrow>
                   flag = ''-n'' \<and> script \<noteq> ''-'' \<and> \<not> startswith script ''-''
               | [flag, separator, script] \<Rightarrow>
                   flag = ''-n'' \<and> separator = ''--'' \<and> script \<noteq> ''-''
               | _ \<Rightarrow> False)"

text \<open>
  The loops over the arguments return at the first argument that is refused; each is the search
  for it, with the message of the check that fired.
\<close>

fun interpreter_loop :: "string \<Rightarrow> string list \<Rightarrow> string option" where
  "interpreter_loop cmd [] = None"
| "interpreter_loop cmd (arg # args) =
     (if \<exists>flag \<in> set (extract_single_flags arg). flag \<in> EXEC_FLAGS then
        Some (''Language interpreter '' @ [squote] @ cmd @ [squote] @ '' with exec flag in ''
              @ [squote] @ arg @ [squote] @ '' blocked'')
      else if arg \<in> EXEC_FLAGS then
        Some (''Language interpreter '' @ [squote] @ cmd @ [squote] @ '' with exec flag ''
              @ [squote] @ arg @ [squote] @ '' blocked'')
      else interpreter_loop cmd args)"

fun find_loop :: "string list \<Rightarrow> string option" where
  "find_loop [] = None"
| "find_loop (arg # args) =
     (if arg \<in> FIND_DENYLIST then
        Some (''find argument '' @ [squote] @ arg @ [squote] @ '' blocked (arbitrary execution)'')
      else find_loop args)"

fun sed_loop :: "string list \<Rightarrow> string option" where
  "sed_loop [] = None"
| "sed_loop (arg # args) =
     (if arg \<in> SED_INPLACE_DENYLIST then
        Some (''sed argument '' @ [squote] @ arg @ [squote]
              @ '' blocked (in-place mutation not allowed)'')
      else if \<exists>flag \<in> set (extract_single_flags arg). flag \<in> SED_INPLACE_DENYLIST then
        Some (''sed argument '' @ [squote] @ arg @ [squote]
              @ '' contains in-place flag (not allowed)'')
      else sed_loop args)"

definition command_check :: "string list \<Rightarrow> string option" where
  "command_check args =
     (let flags = filter (\<lambda>a. startswith a ''-'') args in
      if flags = [] \<or> (\<exists>f \<in> set flags. f \<notin> COMMAND_ALLOWED_FLAGS)
      then Some ''command without -v flag blocked (only command -v <tool> allowed)''
      else None)"

text \<open>
  \<open>(is_dangerous, reason)\<close> is \<open>Some reason\<close> or \<open>None\<close>. The four checks run in the code's
  order and the first that fires returns.
\<close>

definition shape_checks :: "string \<Rightarrow> string list \<Rightarrow> string option" where
  "shape_checks cmd args =
     (case (if cmd \<in> BLOCKED_INTERPRETERS \<and> \<not> is_safe_bash_syntax_check (cmd # args)
            then interpreter_loop cmd args else None) of
        Some r \<Rightarrow> Some r
      | None \<Rightarrow>
        (case (if cmd = ''find'' then find_loop args else None) of
           Some r \<Rightarrow> Some r
         | None \<Rightarrow>
           (case (if cmd = ''sed'' then sed_loop args else None) of
              Some r \<Rightarrow> Some r
            | None \<Rightarrow> if cmd = ''command'' then command_check args else None)))"

definition strip_sudo :: "string list \<Rightarrow> string list" where
  "strip_sudo parts = (case parts of [] \<Rightarrow> [] | rt # rest \<Rightarrow> if rt = ''sudo'' then rest else parts)"

definition check_argument_shape :: "string \<Rightarrow> string option" where
  "check_argument_shape command =
     (case strip_sudo (get_command_parts command) of
        [] \<Rightarrow> None
      | cmd # args \<Rightarrow> shape_checks cmd args)"

subsection \<open>Lemmas on the scan\<close>

lemma first_op_Some: "first_op ops s = Some op \<Longrightarrow> op \<in> set ops \<and> startswith s op"
  by (auto simp: first_op_def find_Some_iff)

lemma first_op_None: "first_op ops s = None \<longleftrightarrow> (\<forall>op \<in> set ops. \<not> startswith s op)"
  by (auto simp: first_op_def find_None_iff)

lemma str_in_tl: "str_in p (tl s) \<Longrightarrow> str_in p (c # s)"
  by (cases s) auto

text \<open>What the scan reports is one of the operators and occurs in the command.\<close>

lemma scan_ops_sound: "scan_ops ops m s = Some op \<Longrightarrow> op \<in> set ops \<and> str_in op s"
proof (induction ops m s rule: scan_ops.induct)
  case (3 ops c cs)
  then show ?case by (auto split: if_splits dest: str_in_tl)
next
  case (4 ops c cs)
  then show ?case
    by (auto split: if_splits option.splits dest: first_op_Some str_in_tl)
qed (auto split: if_splits)

definition unquoted :: "string \<Rightarrow> bool" where
  "unquoted s \<longleftrightarrow> squote \<notin> set s \<and> dquote \<notin> set s \<and> bslash \<notin> set s"

lemma unquoted_simps [simp]:
  "unquoted []"
  "unquoted (c # s) \<longleftrightarrow> c \<noteq> squote \<and> c \<noteq> dquote \<and> c \<noteq> bslash \<and> unquoted s"
  by (auto simp: unquoted_def)

text \<open>On a command without quotes and backslashes the scan misses no operator.\<close>

lemma scan_ops_complete:
  assumes "unquoted s" "\<And>op. op \<in> set ops \<Longrightarrow> op \<noteq> []"
  shows "scan_ops ops Plain s = None \<longleftrightarrow> (\<forall>op \<in> set ops. \<not> str_in op s)"
  using assms
proof (induction s)
  case Nil
  then show ?case by auto
next
  case (Cons c s)
  then have ih: "scan_ops ops Plain s = None \<longleftrightarrow> (\<forall>op \<in> set ops. \<not> str_in op s)"
    and plain: "c \<noteq> squote" "c \<noteq> dquote" "c \<noteq> bslash" by auto
  show ?case
  proof (cases "first_op ops (c # s)")
    case None
    from first_op_None [THEN iffD1, OF None]
    show ?thesis using ih plain None by auto
  next
    case (Some op)
    with plain show ?thesis by (auto dest!: first_op_Some)
  qed
qed

subsection \<open>Quoted argument vectors\<close>

text \<open>
  An operator has the shape the next lemmas need when it has a character outside the safe set
  of \<open>shlex.quote\<close> and the first such character is not a blank.
\<close>

definition op_shape :: "string \<Rightarrow> bool" where
  "op_shape op \<longleftrightarrow>
     (case dropWhile shlex_safe op of [] \<Rightarrow> False | b # _ \<Rightarrow> b \<noteq> CHR '' '')"

lemma safe_blank [simp]: "\<not> shlex_safe CHR '' ''"
  by (simp add: shlex_safe_def is_ascii_alnum_def is_ascii_lower_def is_ascii_upper_def
      is_ascii_digit_def)

lemma op_not_at_safe:
  assumes "list_all shlex_safe s" "rest = [] \<or> hd rest = CHR '' ''" "op_shape op"
  shows "\<not> startswith (s @ rest) op"
  using assms
proof (induction s arbitrary: op)
  case Nil
  then show ?case
    by (cases op; cases rest) (auto simp: op_shape_def split: if_splits)
next
  case (Cons c s)
  then show ?case by (cases op) (auto simp: op_shape_def)
qed

lemma scan_safe_word:
  assumes "list_all shlex_safe s" "rest = [] \<or> hd rest = CHR '' ''" "\<forall>op \<in> set ops. op_shape op"
  shows "scan_ops ops Plain (s @ rest) = scan_ops ops Plain rest"
  using assms(1)
proof (induction s)
  case Nil
  then show ?case by simp
next
  case (Cons c s)
  have "first_op ops (c # s @ rest) = None"
    using op_not_at_safe [of "c # s" rest] Cons.prems assms(2,3) by (auto simp: first_op_None)
  moreover have "c \<noteq> squote" "c \<noteq> dquote" "c \<noteq> bslash"
    using Cons.prems safe_not_special [of c] by (auto simp: shlex_quote_char_def)
  ultimately show ?case using Cons by simp
qed

lemma scan_single_quoted:
  "scan_ops ops InSingle
     (concat (map (\<lambda>c. if c = squote then [squote, dquote, squote, dquote, squote] else [c]) s)
       @ squote # rest) = scan_ops ops Plain rest"
proof (induction s)
  case Nil
  then show ?case by simp
next
  case (Cons c s)
  then show ?case by (cases "c = squote") simp_all
qed

lemma scan_quoted_word:
  assumes "rest = [] \<or> hd rest = CHR '' ''" "\<forall>op \<in> set ops. op_shape op"
  shows "scan_ops ops Plain (shlex_quote s @ rest) = scan_ops ops Plain rest"
proof -
  consider "s = []" | "s \<noteq> []" "list_all shlex_safe s" | "s \<noteq> []" "\<not> list_all shlex_safe s" by blast
  then show ?thesis
  proof cases
    case 1
    then show ?thesis by (simp add: shlex_quote_def)
  next
    case 2
    then show ?thesis using assms by (simp add: shlex_quote_def scan_safe_word)
  next
    case 3
    then show ?thesis by (simp add: shlex_quote_def scan_single_quoted)
  qed
qed

lemma scan_join:
  assumes "\<forall>op \<in> set ops. op_shape op"
  shows "scan_ops ops Plain (shlex_join ps) = None"
proof -
  have blank: "scan_ops ops Plain (CHR '' '' # s) = scan_ops ops Plain s" for s
  proof -
    have "first_op ops (CHR '' '' # s) = None"
      using op_not_at_safe [of "[]" "CHR '' '' # s"] assms by (auto simp: first_op_None)
    then show ?thesis by (simp add: char_names)
  qed
  have "scan_ops ops Plain (py_join '' '' (map shlex_quote ps)) = None"
  proof (induction ps rule: induct_list012)
    case 1
    then show ?case by simp
  next
    case (2 s)
    then show ?case using scan_quoted_word [of "[]" ops s] assms by simp
  next
    case (3 s t ps)
    then show ?case
      using scan_quoted_word [of "CHR '' '' # py_join '' '' (map shlex_quote (t # ps))" ops s] assms
      by (simp add: blank del: scan_ops.simps)
  qed
  then show ?thesis by (simp add: shlex_join_def)
qed

lemma safe_op_chars:
  "\<not> shlex_safe CHR ''|''" "\<not> shlex_safe CHR '';''" "\<not> shlex_safe CHR ''&''" "\<not> shlex_safe (CHR 0x60)"
  "\<not> shlex_safe CHR ''$''" "\<not> shlex_safe CHR ''>''" "\<not> shlex_safe CHR ''<''"
  "shlex_safe CHR ''1''" "shlex_safe CHR ''2''"
  by (simp_all add: shlex_safe_def is_ascii_alnum_def is_ascii_lower_def is_ascii_upper_def
      is_ascii_digit_def)

lemma metachar_shape: "\<forall>op \<in> set METACHAR_DENYLIST. op_shape op"
  by (simp add: METACHAR_DENYLIST_def op_shape_def safe_op_chars)

lemma redirect_shape: "\<forall>op \<in> set REDIRECT_OPS. op_shape op"
  by (simp add: REDIRECT_OPS_def op_shape_def safe_op_chars)

lemma metachar_join: "contains_metachar (shlex_join ps) = None"
  unfolding contains_metachar_def by (rule scan_join) (rule metachar_shape)

lemma redirect_join: "contains_shell_redirection (shlex_join ps) = None"
  unfolding contains_shell_redirection_def by (rule scan_join) (rule redirect_shape)

lemma parts_join [simp]: "get_command_parts (shlex_join ps) = ps"
  by (simp add: get_command_parts_def shlex_split_join)

text \<open>C10: Quoting an argument vector with \<open>shlex.join\<close> is transparent to the lexical gates: splitting
  gives the vector back, and neither the metacharacter scan nor the redirection scan finds an
  operator, whatever the arguments contain.\<close>

theorem quoted_argv_transparent:
  "get_command_parts (shlex_join ps) = ps \<and> contains_metachar (shlex_join ps) = None
   \<and> contains_shell_redirection (shlex_join ps) = None"
  by (simp add: metachar_join redirect_join)

text \<open>On a command without quotes and backslashes Gate 1 is exact: it lets the command through iff
  none of the denied operators occurs anywhere in it; and whatever it reports, quoted or not, is
  one of the operators and occurs in the command.\<close>

theorem metachar_gate_exact:
  "(unquoted command \<longrightarrow>
      (contains_metachar command = None) = (\<forall>op \<in> set METACHAR_DENYLIST. \<not> str_in op command))
   \<and> (\<forall>op. contains_metachar command = Some op \<longrightarrow> op \<in> set METACHAR_DENYLIST \<and> str_in op command)"
  using scan_ops_complete [of command METACHAR_DENYLIST] scan_ops_sound [of METACHAR_DENYLIST Plain command]
  by (auto simp: contains_metachar_def METACHAR_DENYLIST_def)

lemma metachar_gate_exact_witness:
  "contains_metachar ''ls -la /tmp'' = None \<and> contains_metachar ''ls; id'' = Some '';''"
  using metachar_gate_exact [of "''ls -la /tmp''"]
  by (simp add: METACHAR_DENYLIST_def char_names contains_metachar_def first_op_def)

text \<open>Gate 1 does not deny a single ampersand or a newline, which also separate commands.\<close>

lemma separators_not_denied:
  "contains_metachar ''ls & reboot'' = None" "contains_metachar (''ls'' @ [newline] @ ''reboot'') = None"
  by code_simp+

text \<open>A substitution inside double quotes is not seen; a shell performs it.\<close>

lemma double_quotes_hide_substitution:
  "contains_metachar (''echo '' @ [dquote] @ ''$(reboot)'' @ [dquote]) = None"
  by code_simp

text \<open>The entry \<open>chown -R\<close> of the denylist never fires: the text it is searched in is in lower case.\<close>

lemma chown_token_dead: "\<not> str_in ''chown -R'' (lower s)"
proof
  assume "str_in ''chown -R'' (lower s)"
  then have "CHR ''R'' \<in> set (lower s)" by (auto simp: str_in_iff)
  then show False using lower_no_upper by (force simp: is_ascii_upper_def)
qed

end
