(* ===== verification/SpanContext.thy ===== *)
theory SpanContext
  imports Prelude
begin

text \<open>
  \<open>app/context.py\<close>: the lightweight shell tokenizer and the classifier that marks the spans of
  a command as executed code, inline code, data, argument, comment or heredoc body.

  The tokenizer keeps the code's index \<open>i\<close> into the command. \<open>token_step\<close> is one turn of its
  main loop: the tokens it appends, and the index of the next turn (\<open>None\<close> for \<open>break\<close>). Inside
  a double-quoted or backtick token a backslash at the very end moves the index one past the
  end, as the two \<open>i += 1\<close> of the code do. The classifier is a fold over the tokens with its six
  local variables as the state record.
\<close>

datatype span_kind = PENDING | EXECUTED | DATA | COMMENT | ARGUMENT | INLINE_CODE | HEREDOC_BODY | UNKNOWN

definition should_check :: "span_kind \<Rightarrow> bool" where
  "should_check k \<longleftrightarrow> k \<in> {EXECUTED, INLINE_CODE, HEREDOC_BODY, UNKNOWN}"

record span =
  sp_kind :: span_kind
  sp_text :: string
  sp_start :: nat

definition sp_end :: "span \<Rightarrow> nat" where
  "sp_end s = sp_start s + length (sp_text s)"

type_synonym token = "string \<times> nat \<times> span_kind"

definition SAFE_WRAPPER_FLAGS :: "(string \<times> string list) list" where
  "SAFE_WRAPPER_FLAGS =
     [(''echo'', []), (''printf'', []), (''grep'', [''-e'']), (''rg'', []), (''ag'', []),
      (''ack'', []), (''cat'', []), (''head'', []), (''tail'', []), (''less'', []), (''more'', []),
      (''jq'', []), (''yq'', []), (''sed'', []), (''awk'', [])]"

definition SAFE_GIT_SUBCOMMANDS :: "(string \<times> string list) list" where
  "SAFE_GIT_SUBCOMMANDS =
     [(''commit'', [''-m'']), (''log'', []), (''diff'', []), (''show'', []), (''status'', []),
      (''blame'', []), (''branch'', []), (''describe'', []), (''shortlog'', [])]"

definition INLINE_CODE_FLAGS :: "(string \<times> string list) list" where
  "INLINE_CODE_FLAGS =
     [(''bash'', [''-c'']), (''sh'', [''-c'']), (''python'', [''-c'']), (''python3'', [''-c'']),
      (''node'', [''-e'', ''-p'']), (''ruby'', [''-e'']), (''perl'', [''-e''])]"

subsection \<open>The tokenizer\<close>

definition slice :: "string \<Rightarrow> nat \<Rightarrow> nat \<Rightarrow> string" where
  "slice s a b = take (b - a) (drop a s)"

text \<open>\<open>while i < n and P(command[i]): i += 1\<close>\<close>

definition skip_while :: "(char \<Rightarrow> bool) \<Rightarrow> string \<Rightarrow> nat \<Rightarrow> nat" where
  "skip_while P s i = i + length (takeWhile P (drop i s))"

text \<open>The loop up to a closing quote \<open>q\<close>, where a backslash skips one more character.\<close>

function skip_escaped :: "char \<Rightarrow> string \<Rightarrow> nat \<Rightarrow> nat" where
  "skip_escaped q s i =
     (if i < length s \<and> s ! i \<noteq> q
      then skip_escaped q s (if s ! i = bslash then i + 2 else i + 1)
      else i)"
  by pat_completeness auto
termination
  by (relation "measure (\<lambda>(q, s, i). length s - i)") auto

declare skip_escaped.simps [simp del]

definition step_over :: "string \<Rightarrow> nat \<Rightarrow> nat" where
  "step_over s i = (if i < length s then i + 1 else i)"

definition blank :: "char \<Rightarrow> bool" where
  "blank c \<longleftrightarrow> c = CHR '' '' \<or> c = CHR 0x09 \<or> c = CHR 0x0A"

definition tab_or_space :: "char \<Rightarrow> bool" where
  "tab_or_space c \<longleftrightarrow> c = CHR '' '' \<or> c = CHR 0x09"

definition delim_end :: "char \<Rightarrow> bool" where
  "delim_end c \<longleftrightarrow> blank c \<or> c = CHR '';'' \<or> c = CHR ''|'' \<or> c = CHR ''&''"

definition word_end :: "char \<Rightarrow> bool" where
  "word_end c \<longleftrightarrow> blank c \<or> c = squote \<or> c = dquote \<or> c = CHR 0x60 \<or> c = CHR ''#'' \<or> c = CHR ''<''
     \<or> c = CHR ''|'' \<or> c = CHR '';'' \<or> c = CHR ''&''"

text \<open>
  The search for the line that starts with the heredoc delimiter. The result is the tokens of the
  body and of the delimiter line, and the index after them; without such a line, no token and
  the end of the command.
\<close>

function heredoc_body :: "string \<Rightarrow> string \<Rightarrow> bool \<Rightarrow> nat \<Rightarrow> nat \<Rightarrow> token list \<times> nat" where
  "heredoc_body s delim strip_tabs body_start i =
     (if i < length s then
        (let line_end = skip_while (\<lambda>c. c \<noteq> newline) s i;
             check_pos = (if strip_tabs \<and> s ! i = CHR 0x09 then i + 1 else i);
             next_i = (if line_end < length s then line_end + 1 else line_end)
         in if startswith (drop check_pos s) delim \<and> check_pos < length s then
              ((if body_start < i then [(slice s body_start i, body_start, HEREDOC_BODY)] else [])
                 @ [(slice s i line_end, i, UNKNOWN)], next_i)
            else heredoc_body s delim strip_tabs body_start next_i)
      else ([], i))"
  by pat_completeness auto
termination
proof (relation "measure (\<lambda>(s, delim, st, b, i). length s - i)", goal_cases)
  case 1
  then show ?case by simp
next
  case (2 s delim st b i le cp ni)
  have "i < ni"
  proof (cases "le < length s")
    case True
    then show ?thesis using 2 by (simp add: skip_while_def)
  next
    case False
    then show ?thesis using 2 by simp
  qed
  then show ?case using 2 by simp
qed

declare heredoc_body.simps [simp del]

definition heredoc_step :: "string \<Rightarrow> nat \<Rightarrow> token list \<times> nat option" where
  "heredoc_step s start =
     (let n = length s;
          strip_tabs = (start + 2 < n \<and> s ! (start + 2) = CHR ''-'');
          i1 = (if strip_tabs then start + 3 else start + 2);
          i2 = skip_while tab_or_space s i1;
          quoted = (i2 < n \<and> (s ! i2 = squote \<or> s ! i2 = dquote));
          delim_start = (if quoted then i2 + 1 else i2);
          i3 = skip_while (\<lambda>c. if quoted then c \<noteq> s ! i2 else \<not> delim_end c) s delim_start;
          delim = slice s delim_start i3;
          i4 = (if quoted \<and> i3 < n \<and> s ! i3 = s ! i2 then i3 + 1 else i3);
          op = (slice s start i4, start, UNKNOWN)
      in if delim = [] \<or> n \<le> i4 then ([op], Some i4)
         else if delim = ''<'' \<and> slice s (delim_start - 1) (delim_start + 1) = ''<<''
              then ([op, (drop i4 s, i4, DATA)], None)
         else (case heredoc_body s delim strip_tabs i4 i4 of (ts, j) \<Rightarrow> (op # ts, Some j)))"

definition token_step :: "string \<Rightarrow> nat \<Rightarrow> token list \<times> nat option" where
  "token_step s i =
     (let ch = s ! i in
      if blank ch then ([], Some (i + 1))
      else if ch = CHR ''#'' \<and> (i = 0 \<or> blank (s ! (i - 1))) then ([(drop i s, i, COMMENT)], None)
      else if ch = squote then
        (let j = step_over s (skip_while (\<lambda>c. c \<noteq> squote) s (i + 1))
         in ([(slice s i j, i, DATA)], Some j))
      else if ch = dquote then
        (let j = step_over s (skip_escaped dquote s (i + 1)) in ([(slice s i j, i, ARGUMENT)], Some j))
      else if ch = CHR 0x60 then
        (let j = step_over s (skip_escaped (CHR 0x60) s (i + 1)) in ([(slice s i j, i, EXECUTED)], Some j))
      else if ch = CHR ''<'' \<and> i + 1 < length s \<and> s ! (i + 1) = CHR ''<'' then heredoc_step s i
      else
        (let j = skip_while (\<lambda>c. \<not> word_end c) s i in
         if i < j then ([(slice s i j, i, PENDING)], Some j)
         else ([([s ! i], i, PENDING)], Some (i + 1))))"

subsection \<open>Progress and termination of the tokenizer\<close>

lemma skip_while_ge: "i \<le> skip_while P s i"
  by (simp add: skip_while_def)

lemma skip_while_le: "i \<le> length s \<Longrightarrow> skip_while P s i \<le> length s"
  using length_takeWhile_le [of P "drop i s"] by (simp add: skip_while_def)

lemma skip_escaped_ge: "i \<le> skip_escaped q s i"
proof (induction q s i rule: skip_escaped.induct)
  case (1 q s i)
  show ?case
  proof (cases "i < length s \<and> s ! i \<noteq> q")
    case True
    with 1 have "(if s ! i = bslash then i + 2 else i + 1)
        \<le> skip_escaped q s (if s ! i = bslash then i + 2 else i + 1)" by blast
    then have "i \<le> skip_escaped q s (if s ! i = bslash then i + 2 else i + 1)"
      by (auto split: if_splits)
    with True show ?thesis by (simp add: skip_escaped.simps [of q s i])
  next
    case False
    then show ?thesis by (subst skip_escaped.simps) (simp only: if_False order_refl)
  qed
qed

lemma step_over_ge: "i \<le> step_over s i"
  by (simp add: step_over_def)

text \<open>
  The tokens of a scan between two indices: each token's text is the slice of the command at its
  start, and it starts where the one before it ended or later.
\<close>

fun chained :: "string \<Rightarrow> nat \<Rightarrow> (string \<times> nat \<times> 'k) list \<Rightarrow> nat \<Rightarrow> bool" where
  "chained s lo [] hi \<longleftrightarrow> lo \<le> hi"
| "chained s lo ((t, st, k) # ts) hi \<longleftrightarrow>
     lo \<le> st \<and> t = take (length t) (drop st s) \<and> chained s (st + length t) ts hi"

lemma chained_le: "chained s lo ts hi \<Longrightarrow> lo \<le> hi"
  by (induction s lo ts hi rule: chained.induct) auto

lemma chained_weaken: "chained s lo ts hi \<Longrightarrow> lo' \<le> lo \<Longrightarrow> hi \<le> hi' \<Longrightarrow> chained s lo' ts hi'"
  by (induction s lo ts hi arbitrary: lo' rule: chained.induct) auto

lemma chained_append: "chained s lo ts mid \<Longrightarrow> chained s mid ts' hi \<Longrightarrow> chained s lo (ts @ ts') hi"
proof (induction s lo ts mid rule: chained.induct)
  case (1 s lo hi')
  then show ?case by (auto intro: chained_weaken)
qed auto

lemma slice_prefix: "slice s a b = take (length (slice s a b)) (drop a s)"
  by (simp add: slice_def min_def)

lemma slice_end: "a \<le> b \<Longrightarrow> a + length (slice s a b) \<le> b"
  by (simp add: slice_def)

lemma chained_slice: "i \<le> j \<Longrightarrow> chained s i [(slice s i j, i, k)] j"
  using slice_prefix [of s i j] slice_end [of i j s] by simp

lemma chained_rest: "i \<le> length s \<Longrightarrow> chained s i [(drop i s, i, k)] (length s)"
  by simp

lemma heredoc_body_chained:
  assumes "heredoc_body s delim st b i = (ts, j)" "b \<le> i"
  shows "i \<le> j \<and> chained s b ts j"
  using assms
proof (induction s delim st b i rule: heredoc_body.induct)
  case (1 s delim st b i)
  let ?le = "skip_while (\<lambda>c. c \<noteq> newline) s i"
  let ?cp = "if st \<and> s ! i = CHR 0x09 then i + 1 else i"
  let ?ni = "if ?le < length s then ?le + 1 else ?le"
  have le: "i \<le> ?le" by (rule skip_while_ge)
  then have ni: "i \<le> ?ni" "?le \<le> ?ni" by auto
  consider "\<not> i < length s" | "i < length s" "startswith (drop ?cp s) delim \<and> ?cp < length s"
    | "i < length s" "\<not> (startswith (drop ?cp s) delim \<and> ?cp < length s)" by blast
  then show ?case
  proof cases
    case 1
    with "1.prems" show ?thesis by (auto simp: heredoc_body.simps [of s delim st b i])
  next
    case 2
    have line: "chained s i [(slice s i ?le, i, UNKNOWN)] ?ni"
      using chained_slice [OF le, of s UNKNOWN] ni(2) by (rule chained_weaken [OF _ order_refl])
    have body: "chained s b (if b < i then [(slice s b i, b, HEREDOC_BODY)] else []) i"
      using chained_slice [of b i s HEREDOC_BODY] "1.prems"(2) by simp
    have "ts = (if b < i then [(slice s b i, b, HEREDOC_BODY)] else []) @ [(slice s i ?le, i, UNKNOWN)]"
      and "j = ?ni"
      using "1.prems"(1) heredoc_body.simps [of s delim st b i]
      by (simp_all only: Let_def 2(1) 2(2) if_True if_False simp_thms prod.inject)
    with chained_append [OF body line] ni(1) show ?thesis by simp
  next
    case 3
    then have "heredoc_body s delim st b ?ni = (ts, j)"
      using "1.prems"(1) heredoc_body.simps [of s delim st b i]
      by (simp only: Let_def 3(1) 3(2) if_True if_False simp_thms)
    then have "?ni \<le> j \<and> chained s b ts j"
      using "1.IH" [OF 3(1) refl refl refl 3(2)] "1.prems"(2) ni(1) by simp
    with ni(1) show ?thesis by simp
  qed
qed

lemma heredoc_step_chained:
  assumes "heredoc_step s i = (ts, oj)" "i + 1 < length s"
  shows "case oj of None \<Rightarrow> chained s i ts (length s) | Some j \<Rightarrow> i < j \<and> chained s i ts j"
proof -
  define strip_tabs where "strip_tabs = (i + 2 < length s \<and> s ! (i + 2) = CHR ''-'')"
  define i1 where "i1 = (if strip_tabs then i + 3 else i + 2)"
  define i2 where "i2 = skip_while tab_or_space s i1"
  define quoted where "quoted = (i2 < length s \<and> (s ! i2 = squote \<or> s ! i2 = dquote))"
  define ds where "ds = (if quoted then i2 + 1 else i2)"
  define i3 where "i3 = skip_while (\<lambda>c. if quoted then c \<noteq> s ! i2 else \<not> delim_end c) s ds"
  define delim where "delim = slice s ds i3"
  define i4 where "i4 = (if quoted \<and> i3 < length s \<and> s ! i3 = s ! i2 then i3 + 1 else i3)"
  note locals = strip_tabs_def i1_def i2_def quoted_def ds_def i3_def delim_def i4_def
  have eq: "heredoc_step s i =
    (if delim = [] \<or> length s \<le> i4 then ([(slice s i i4, i, UNKNOWN)], Some i4)
     else if delim = ''<'' \<and> slice s (ds - 1) (ds + 1) = ''<<''
          then ([(slice s i i4, i, UNKNOWN), (drop i4 s, i4, DATA)], None)
     else (case heredoc_body s delim strip_tabs i4 i4 of (ts, j) \<Rightarrow> ((slice s i i4, i, UNKNOWN) # ts, Some j)))"
    unfolding heredoc_step_def Let_def locals by simp
  have "i < i1" "i1 \<le> i2" "i2 \<le> ds" "ds \<le> i3" "i3 \<le> i4"
    by (auto simp: i1_def i2_def ds_def i3_def i4_def skip_while_ge)
  then have lt: "i < i4" by simp
  have op: "chained s i [(slice s i i4, i, UNKNOWN)] i4"
    using lt by (intro chained_slice) simp
  show ?thesis
  proof (cases "delim = [] \<or> length s \<le> i4")
    case True
    with assms(1) eq op lt show ?thesis by auto
  next
    case False
    show ?thesis
    proof (cases "delim = ''<'' \<and> slice s (ds - 1) (ds + 1) = ''<<''")
      case True
      with assms(1) eq False have "ts = [(slice s i i4, i, UNKNOWN)] @ [(drop i4 s, i4, DATA)]" "oj = None"
        by auto
      with chained_append [OF op chained_rest [of i4 s DATA]] False show ?thesis by simp
    next
      case notstr: False
      obtain bs j where b: "heredoc_body s delim strip_tabs i4 i4 = (bs, j)" by fastforce
      with assms(1) eq False notstr
      have ts: "ts = [(slice s i i4, i, UNKNOWN)] @ bs" and oj: "oj = Some j" by auto
      have h: "i4 \<le> j" "chained s i4 bs j" using heredoc_body_chained [OF b] by auto
      have "chained s i ts j" unfolding ts using op h(2) by (rule chained_append)
      with oj h(1) lt show ?thesis by simp
    qed
  qed
qed

lemma quoted_token_chained:
  assumes "i < k"
  shows "i < step_over s k \<and> chained s i [(slice s i (step_over s k), i, x)] (step_over s k)"
proof -
  have "i < step_over s k" using assms step_over_ge [of k s] by simp
  then show ?thesis by (simp add: chained_slice del: chained.simps)
qed

lemma token_step_chained:
  assumes "token_step s i = (ts, oj)" "i < length s"
  shows "case oj of None \<Rightarrow> chained s i ts (length s) | Some j \<Rightarrow> i < j \<and> chained s i ts j"
proof -
  have sq: "i < skip_while (\<lambda>c. c \<noteq> squote) s (i + 1)"
    using skip_while_ge [of "i + 1"] by (simp add: Suc_le_lessD)
  have esc: "i < skip_escaped q s (i + 1)" for q
    using skip_escaped_ge [of "i + 1" q s] by simp
  have word: "chained s i [(slice s i (skip_while (\<lambda>c. \<not> word_end c) s i), i, PENDING)]
      (skip_while (\<lambda>c. \<not> word_end c) s i)"
    by (rule chained_slice) (rule skip_while_ge)
  have single: "chained s i [([s ! i], i, PENDING)] (i + 1)"
    using assms(2) by (simp add: take_Suc hd_drop_conv_nth)
  show ?thesis
    using assms(1) heredoc_step_chained [of s i ts oj] assms(2) word single
      quoted_token_chained [OF sq] quoted_token_chained [OF esc]
    by (auto simp: token_step_def Let_def simp del: chained.simps split: if_splits)
      (auto)
qed

lemma token_step_progress: "token_step s i = (ts, Some j) \<Longrightarrow> i < length s \<Longrightarrow> i < j"
  using token_step_chained [of s i ts "Some j"] by simp

function tokenize_from :: "string \<Rightarrow> nat \<Rightarrow> token list" where
  "tokenize_from s i =
     (if i < length s then
        (case token_step s i of
           (ts, None) \<Rightarrow> ts
         | (ts, Some j) \<Rightarrow> ts @ tokenize_from s j)
      else [])"
  by pat_completeness auto
termination
  by (relation "measure (\<lambda>(s, i). length s - i)") (auto dest!: token_step_progress [OF sym])

declare tokenize_from.simps [simp del]

definition tokenize :: "string \<Rightarrow> token list" where
  "tokenize command = tokenize_from command 0"

lemma tokenize_from_chained:
  "i \<le> length s \<Longrightarrow> \<exists>hi. chained s i (tokenize_from s i) hi"
proof (induction s i rule: tokenize_from.induct)
  case (1 s i)
  show ?case
  proof (cases "i < length s")
    case False
    then show ?thesis by (subst tokenize_from.simps) auto
  next
    case True
    obtain ts oj where step: "token_step s i = (ts, oj)" by fastforce
    note ch = token_step_chained [OF step True]
    show ?thesis
    proof (cases oj)
      case None
      with ch step True show ?thesis by (subst tokenize_from.simps) auto
    next
      case (Some j)
      with ch have j: "i < j" "chained s i ts j" by auto
      have "\<exists>hi. chained s j (tokenize_from s j) hi"
      proof (cases "j \<le> length s")
        case True
        with "1.IH" \<open>i < length s\<close> step Some show ?thesis by simp
      next
        case False
        then have "tokenize_from s j = []" by (subst tokenize_from.simps) simp
        then show ?thesis by auto
      qed
      with j(2) have "\<exists>hi. chained s i (ts @ tokenize_from s j) hi"
        by (blast intro: chained_append)
      with step Some True show ?thesis by (subst tokenize_from.simps) auto
    qed
  qed
qed

subsection \<open>The classifier\<close>

text \<open>
  The local variables of \<open>_classify_tokens\<close>. \<open>safe_flags\<close> is \<open>None\<close> for a command that is not
  a safe wrapper.
\<close>

record cls_state =
  cs_cmd_word :: "string option"
  cs_subcmd_word :: "string option"
  cs_pending_flags :: "string list"
  cs_safe_flags :: "string list option"
  cs_inline_flags :: "string list"
  cs_pending_inline :: bool

definition cls_init :: cls_state where
  "cls_init = \<lparr>cs_cmd_word = None, cs_subcmd_word = None, cs_pending_flags = [],
     cs_safe_flags = Some [], cs_inline_flags = [], cs_pending_inline = False\<rparr>"

definition first_word :: "string \<Rightarrow> string" where
  "first_word text =
     (if strip text = [] then [] else takeWhile (\<lambda>c. \<not> py_space c) (dropWhile py_space text))"

definition shell_metas :: "string set" where
  "shell_metas = {''|'', '';'', ''&'', ''&&'', ''||'', ''|&''}"

text \<open>One turn of the classifier: the kind of the span it appends, and the next state.\<close>

definition classify_step :: "cls_state \<Rightarrow> token \<Rightarrow> span_kind \<times> cls_state" where
  "classify_step st tok =
     (case tok of (text, start, kind) \<Rightarrow>
      if cs_pending_inline st then (INLINE_CODE, st\<lparr>cs_pending_inline := False\<rparr>)
      else if kind \<noteq> PENDING then (kind, st)
      else
        (let word = first_word text in
         if word \<in> shell_metas then
           (EXECUTED, st\<lparr>cs_cmd_word := None, cs_subcmd_word := None, cs_pending_flags := [],
                         cs_safe_flags := None, cs_inline_flags := []\<rparr>)
         else case cs_cmd_word st of
           None \<Rightarrow>
             (EXECUTED, st\<lparr>cs_cmd_word := Some word, cs_subcmd_word := None,
                cs_safe_flags := (if word = ''git'' then None else map_of SAFE_WRAPPER_FLAGS word),
                cs_inline_flags := (case map_of INLINE_CODE_FLAGS word of None \<Rightarrow> [] | Some fs \<Rightarrow> fs)\<rparr>)
         | Some cmd \<Rightarrow>
             if cmd = ''git'' \<and> cs_subcmd_word st = None \<and> map_of SAFE_GIT_SUBCOMMANDS word \<noteq> None then
               (UNKNOWN, st\<lparr>cs_subcmd_word := Some word,
                            cs_safe_flags := map_of SAFE_GIT_SUBCOMMANDS word\<rparr>)
             else if cs_pending_flags st \<noteq> [] then
               (ARGUMENT, st\<lparr>cs_pending_flags := butlast (cs_pending_flags st)\<rparr>)
             else if startswith word ''-'' \<and> \<not> startswith word ''--'' then
               (let flag = rstrip (take 2 word) in
                if flag \<in> set (cs_inline_flags st) then
                  (EXECUTED, st\<lparr>cs_inline_flags := [], cs_pending_inline := True\<rparr>)
                else (case cs_safe_flags st of
                        Some fs \<Rightarrow>
                          if flag \<in> set fs
                          then (EXECUTED, st\<lparr>cs_pending_flags := cs_pending_flags st @ [flag]\<rparr>)
                          else (EXECUTED, st)
                      | None \<Rightarrow> (EXECUTED, st)))
             else (case cs_safe_flags st of
                     Some fs \<Rightarrow> if word = ''--'' then (EXECUTED, st) else (ARGUMENT, st)
                   | None \<Rightarrow> (EXECUTED, st))))"

fun classify_loop :: "cls_state \<Rightarrow> token list \<Rightarrow> span list" where
  "classify_loop st [] = []"
| "classify_loop st ((text, start, kind) # toks) =
     (case classify_step st (text, start, kind) of
        (k, st') \<Rightarrow> \<lparr>sp_kind = k, sp_text = text, sp_start = start\<rparr> # classify_loop st' toks)"

fun merge_onto :: "span \<Rightarrow> span list \<Rightarrow> span list" where
  "merge_onto prv [] = [prv]"
| "merge_onto prv (s # ss) =
     (if sp_kind s = sp_kind prv \<and> sp_start s = sp_end prv
      then merge_onto \<lparr>sp_kind = sp_kind prv, sp_text = sp_text prv @ sp_text s,
                       sp_start = sp_start prv\<rparr> ss
      else prv # merge_onto s ss)"

definition merge_spans :: "span list \<Rightarrow> span list" where
  "merge_spans spans = (case spans of [] \<Rightarrow> [] | s # ss \<Rightarrow> merge_onto s ss)"

definition classify_tokens :: "token list \<Rightarrow> span list" where
  "classify_tokens toks = merge_spans (classify_loop cls_init toks)"

definition classify_command :: "string \<Rightarrow> span list" where
  "classify_command command = classify_tokens (tokenize command)"

definition check_context_filter :: "string \<Rightarrow> bool" where
  "check_context_filter command \<longleftrightarrow> (\<exists>s \<in> set (classify_command command). should_check (sp_kind s))"

subsection \<open>The spans are slices of the command, in order\<close>

definition span_triple :: "span \<Rightarrow> string \<times> nat \<times> span_kind" where
  "span_triple s = (sp_text s, sp_start s, sp_kind s)"

lemma chained_span:
  "chained s lo (map span_triple (x # ss)) hi \<longleftrightarrow>
     lo \<le> sp_start x \<and> sp_text x = take (length (sp_text x)) (drop (sp_start x) s)
     \<and> chained s (sp_end x) (map span_triple ss) hi"
  by (simp add: span_triple_def [of x] sp_end_def)

text \<open>Two adjacent slices of the command are one slice.\<close>

lemma slices_join:
  assumes "t = take (length t) (drop st s)" "t' = take (length t') (drop (st + length t) s)"
  shows "t @ t' = take (length (t @ t')) (drop st s)"
proof -
  have "take (length t + length t') (drop st s)
      = take (length t) (drop st s) @ take (length t') (drop (length t) (drop st s))"
    by (rule take_add)
  with assms show ?thesis by (simp add: add.commute)
qed

lemma classify_loop_chained:
  "chained s lo toks hi \<Longrightarrow> chained s lo (map span_triple (classify_loop st toks)) hi"
proof (induction toks arbitrary: lo st)
  case Nil
  then show ?case by simp
next
  case (Cons tok toks)
  obtain t a k where tok: "tok = (t, a, k)" by (cases tok)
  obtain k' st' where "classify_step st (t, a, k) = (k', st')" by fastforce
  with tok Cons show ?case by (simp add: span_triple_def)
qed

lemma merge_onto_chained:
  "chained s lo (map span_triple (prv # ss)) hi \<Longrightarrow> chained s lo (map span_triple (merge_onto prv ss)) hi"
proof (induction prv ss arbitrary: lo rule: merge_onto.induct)
  case (1 prv)
  then show ?case by simp
next
  case (2 prv s' ss)
  show ?case
  proof (cases "sp_kind s' = sp_kind prv \<and> sp_start s' = sp_end prv")
    case True
    let ?m = "\<lparr>sp_kind = sp_kind prv, sp_text = sp_text prv @ sp_text s', sp_start = sp_start prv\<rparr>"
    from "2.prems" have prv: "lo \<le> sp_start prv"
      "sp_text prv = take (length (sp_text prv)) (drop (sp_start prv) s)"
      and nxt: "sp_text s' = take (length (sp_text s')) (drop (sp_start s') s)"
      "chained s (sp_end s') (map span_triple ss) hi"
      by (simp_all only: chained_span)
    have "sp_text ?m = take (length (sp_text ?m)) (drop (sp_start ?m) s)"
      using slices_join [OF prv(2)] nxt(1) True by (simp only: span.simps sp_end_def)
    moreover have "sp_end ?m = sp_end s'" using True by (simp add: sp_end_def)
    ultimately have "chained s lo (map span_triple (?m # ss)) hi"
      using prv(1) nxt(2) by (simp only: chained_span span.simps simp_thms)
    with "2.IH"(1) [OF True] True show ?thesis by simp
  next
    case False
    from "2.prems" "2.IH"(2) [OF False, of "sp_end prv"] False show ?thesis
      by (simp only: merge_onto.simps if_False chained_span simp_thms)
  qed
qed

lemma merge_spans_chained:
  "chained s lo (map span_triple ss) hi \<Longrightarrow> chained s lo (map span_triple (merge_spans ss)) hi"
  using merge_onto_chained [of s lo "hd ss" "tl ss" hi] by (cases ss) (simp_all add: merge_spans_def)

lemma classify_command_chained: "\<exists>hi. chained s 0 (map span_triple (classify_command s)) hi"
  using tokenize_from_chained [of 0 s]
  by (auto simp: classify_command_def classify_tokens_def tokenize_def
      intro: merge_spans_chained classify_loop_chained)

lemma chained_nth:
  assumes "chained s lo (map span_triple ss) hi"
  shows "(\<forall>x \<in> set ss. lo \<le> sp_start x \<and> sp_text x = take (length (sp_text x)) (drop (sp_start x) s))
    \<and> sorted_wrt (\<lambda>x y. sp_end x \<le> sp_start y) ss"
  using assms
proof (induction ss arbitrary: lo)
  case Nil
  then show ?case by simp
next
  case (Cons x ss)
  then have x: "lo \<le> sp_start x" "sp_text x = take (length (sp_text x)) (drop (sp_start x) s)"
    and tail: "chained s (sp_end x) (map span_triple ss) hi"
    by (simp_all only: chained_span)
  from Cons.IH [OF tail] x show ?case by (fastforce simp: sp_end_def)
qed

text \<open>C11: The classified spans of a command are slices of it: each span's text is the command's text
  from its offset to its end, and the spans are in order and do not overlap.\<close>

theorem classify_command_slices:
  "sorted_wrt (\<lambda>x y. sp_end x \<le> sp_start y) (classify_command command)
   \<and> list_all (\<lambda>x. sp_text x = slice command (sp_start x) (sp_end x)) (classify_command command)"
  using classify_command_chained [of command] chained_nth
  unfolding list_all_iff slice_def sp_end_def by fastforce

end
