(* ===== verification/Confidence.thy ===== *)
theory Confidence
  imports SpanContext
begin

text \<open>
  \<open>app/confidence.py\<close>: the span-aware confidence of a pattern match. The weights are the
  decimal literals of the code as exact rationals; the match span is a pair of offsets.
\<close>

datatype confidence_signal =
  EXECUTED_SPAN | INLINE_CODE_SPAN | DATA_SPAN | ARGUMENT_SPAN | COMMENT_SPAN
  | HEREDOC_BODY_SPAN | UNKNOWN_SPAN | SANITIZED_REGION | EXECUTION_OPERATORS_NEARBY
  | COMMAND_POSITION | ARGUMENT_POSITION

fun signal_weight :: "confidence_signal \<Rightarrow> rat" where
  "signal_weight EXECUTED_SPAN = 1"
| "signal_weight INLINE_CODE_SPAN = 1"
| "signal_weight COMMAND_POSITION = 11/10"
| "signal_weight EXECUTION_OPERATORS_NEARBY = 11/10"
| "signal_weight DATA_SPAN = 1/10"
| "signal_weight COMMENT_SPAN = 5/100"
| "signal_weight ARGUMENT_SPAN = 3/10"
| "signal_weight SANITIZED_REGION = 2/10"
| "signal_weight ARGUMENT_POSITION = 6/10"
| "signal_weight HEREDOC_BODY_SPAN = 7/10"
| "signal_weight UNKNOWN_SPAN = 8/10"

fun span_signal :: "span_kind \<Rightarrow> confidence_signal" where
  "span_signal EXECUTED = EXECUTED_SPAN"
| "span_signal INLINE_CODE = INLINE_CODE_SPAN"
| "span_signal DATA = DATA_SPAN"
| "span_signal ARGUMENT = ARGUMENT_SPAN"
| "span_signal COMMENT = COMMENT_SPAN"
| "span_signal HEREDOC_BODY = HEREDOC_BODY_SPAN"
| "span_signal UNKNOWN = UNKNOWN_SPAN"
| "span_signal PENDING = UNKNOWN_SPAN"

text \<open>
  The second loop: the span with the strictly largest overlap so far, and its signal. A span that
  does not meet the match leaves both unchanged; its ratio is 0, which never exceeds the best.
\<close>

definition overlap_ratio :: "nat \<Rightarrow> nat \<Rightarrow> span \<Rightarrow> rat" where
  "overlap_ratio ms me s =
     (let a = max (sp_start s) ms; b = min (sp_end s) me in
      if a < b then of_nat (b - a) / of_nat (me - ms) else 0)"

fun best_overlap :: "nat \<Rightarrow> nat \<Rightarrow> rat \<Rightarrow> confidence_signal \<Rightarrow> span list \<Rightarrow> confidence_signal" where
  "best_overlap ms me best sig [] = sig"
| "best_overlap ms me best sig (s # ss) =
     (if best < overlap_ratio ms me s
      then best_overlap ms me (overlap_ratio ms me s) (span_signal (sp_kind s)) ss
      else best_overlap ms me best sig ss)"

definition classify_match_span :: "string \<Rightarrow> nat \<Rightarrow> nat \<Rightarrow> confidence_signal" where
  "classify_match_span command match_start match_end =
     (let spans = classify_command command in
      if spans = [] then UNKNOWN_SPAN
      else case find (\<lambda>s. sp_start s \<le> match_start \<and> match_end \<le> sp_end s) spans of
             Some s \<Rightarrow> span_signal (sp_kind s)
           | None \<Rightarrow> best_overlap match_start match_end 0 UNKNOWN_SPAN spans)"

definition EXECUTION_OPERATORS :: "string list" where
  "EXECUTION_OPERATORS = [''|'', '';'', ''&&'', ''||'', ''$('', [CHR 0x60]]"

definition has_execution_operators_nearby :: "string \<Rightarrow> nat \<Rightarrow> nat \<Rightarrow> bool" where
  "has_execution_operators_nearby command match_start match_end =
     (let prefix = slice command (match_start - 20) match_start;
          suffix = slice command match_end (min (length command) (match_end + 20))
      in \<exists>op \<in> set EXECUTION_OPERATORS. str_in op prefix \<or> str_in op suffix)"

definition is_command_position :: "string \<Rightarrow> nat \<Rightarrow> bool" where
  "is_command_position command match_start =
     (if match_start = 0 then True
      else let trimmed = rstrip (take match_start command) in
        if trimmed = [] then True
        else last trimmed \<in> {CHR ''|'', CHR '';'', CHR ''('', CHR 0x60}
             \<or> endswith trimmed ''&&'' \<or> endswith trimmed ''||'' \<or> endswith trimmed ''$('')"

definition span_signals :: "string \<Rightarrow> nat \<Rightarrow> nat \<Rightarrow> confidence_signal list" where
  "span_signals command match_start match_end =
     [classify_match_span command match_start match_end]
     @ (if has_execution_operators_nearby command match_start match_end
        then [EXECUTION_OPERATORS_NEARBY] else [])
     @ [if is_command_position command match_start then COMMAND_POSITION else ARGUMENT_POSITION]"

definition compute_span_confidence :: "string \<Rightarrow> nat \<Rightarrow> nat \<Rightarrow> rat \<times> confidence_signal list" where
  "compute_span_confidence command match_start match_end =
     (let signals = span_signals command match_start match_end;
          multiplier = fold (\<lambda>sig m. m * signal_weight sig) signals 1
      in (max (5/100) multiplier, signals))"

definition compute_match_confidence ::
    "rat \<Rightarrow> string \<Rightarrow> nat \<Rightarrow> nat \<Rightarrow> rat \<times> confidence_signal list" where
  "compute_match_confidence pattern_confidence command match_start match_end =
     (case compute_span_confidence command match_start match_end of
        (multiplier, signals) \<Rightarrow> (max 0 (min 1 (pattern_confidence * multiplier)), signals))"

subsection \<open>Bounds\<close>

lemma best_overlap_signal:
  "best_overlap ms me best sig ss \<in> insert sig ((\<lambda>s. span_signal (sp_kind s)) ` set ss)"
proof (induction ss arbitrary: best sig)
  case Nil
  then show ?case by simp
next
  case (Cons s ss)
  from Cons.IH [of "overlap_ratio ms me s" "span_signal (sp_kind s)"] Cons.IH [of best sig]
  show ?case by auto
qed

lemma span_signal_weight: "5/100 \<le> signal_weight (span_signal k) \<and> signal_weight (span_signal k) \<le> 1"
  by (cases k) auto

lemma classify_match_span_weight:
  "5/100 \<le> signal_weight (classify_match_span c a b) \<and> signal_weight (classify_match_span c a b) \<le> 1"
proof -
  have "classify_match_span c a b = UNKNOWN_SPAN \<or> (\<exists>k. classify_match_span c a b = span_signal k)"
    using best_overlap_signal [of a b 0 UNKNOWN_SPAN "classify_command c"]
    by (auto simp: classify_match_span_def Let_def split: option.splits)
  then show ?thesis using span_signal_weight by fastforce
qed

text \<open>The multiplier in closed form: the span's weight times the two position factors.\<close>

lemma multiplier_eq:
  "fold (\<lambda>sig m. m * signal_weight sig) (span_signals c a b) 1 =
     signal_weight (classify_match_span c a b)
     * ((if has_execution_operators_nearby c a b then 11/10 else 1)
        * (if is_command_position c a then 11/10 else 6/10))"
  by (auto simp: span_signals_def)

lemma factor_bounds:
  "6/10 \<le> (if p then 11/10 else 1) * (if q then 11/10 else 6/10 :: rat)"
  "(if p then 11/10 else 1) * (if q then 11/10 else 6/10 :: rat) \<le> 121/100"
  by auto

lemma multiplier_bounds:
  "5/100 \<le> fst (compute_span_confidence c a b)"
  "fst (compute_span_confidence c a b) \<le> 121/100"
proof -
  show "5/100 \<le> fst (compute_span_confidence c a b)"
    by (simp add: compute_span_confidence_def Let_def)
  have "signal_weight (classify_match_span c a b)
      * ((if has_execution_operators_nearby c a b then 11/10 else 1)
        * (if is_command_position c a then 11/10 else 6/10)) \<le> 1 * (121/100)"
    using classify_match_span_weight [of c a b] factor_bounds
    by (intro mult_mono) auto
  then show "fst (compute_span_confidence c a b) \<le> 121/100"
    by (simp add: compute_span_confidence_def multiplier_eq Let_def)
qed

lemma match_confidence_clamped:
  "0 \<le> fst (compute_match_confidence p c a b) \<and> fst (compute_match_confidence p c a b) \<le> 1"
  by (simp add: compute_match_confidence_def split: prod.splits)

lemma match_confidence_positive:
  assumes "0 < p"
  shows "min 1 (p * (5/100)) \<le> fst (compute_match_confidence p c a b)"
proof -
  obtain m sg where eq: "compute_span_confidence c a b = (m, sg)" by fastforce
  have "5/100 \<le> m" using multiplier_bounds(1) [of c a b] eq by simp
  then have "p * (5/100) \<le> p * m" using assms by (intro mult_left_mono) auto
  then show ?thesis by (simp add: compute_match_confidence_def eq)
qed

text \<open>The confidence of a match lies between a twentieth of the pattern's own confidence and one,
  and the adjustment never turns a positive confidence into zero.\<close>

theorem match_confidence_bounds:
  "0 \<le> pc \<Longrightarrow> min 1 (pc * (5/100)) \<le> fst (compute_match_confidence pc command s e)
    \<and> fst (compute_match_confidence pc command s e) \<le> 1"
  using match_confidence_positive [of pc command s e] match_confidence_clamped by (cases "pc = 0") auto

lemma match_confidence_bounds_witness:
  "1/40 \<le> fst (compute_match_confidence (1/2) ''rm -rf /'' 0 6)"
  using match_confidence_bounds [of "1/2" "''rm -rf /''" 0 6] by simp

end
