(* ===== verification/Packs.thy ===== *)
theory Packs
  imports PolicyTypes Confidence
begin

text \<open>
  \<open>app/packs/__init__.py\<close>: the pattern packs and their registry.

  The \<open>re\<close> engine is a parameter: \<open>re_search rx command\<close> is
  \<open>re.compile(rx, re.IGNORECASE | re.DOTALL).search(command)\<close>, the span of the first match
  or \<open>None\<close>. Nothing is assumed of it. The registry keeps the packs by identifier in
  registration order and the sorted keywords of all packs for the quick rejection.
\<close>

type_synonym re_engine = "string \<Rightarrow> string \<Rightarrow> (nat \<times> nat) option"

record pack =
  pk_id :: string
  pk_name :: string
  pk_destructive_patterns :: "destructive_pattern list"
  pk_keywords :: "string list"

definition compute_confidence :: "destructive_pattern \<Rightarrow> rat" where
  "compute_confidence dp =
     (let rlen = py_len (dp_regex dp);
          by_length = (if rlen > 100 then 3/10 else if rlen > 50 then 2/10
                       else if rlen > 30 then 1/10 else 0);
          by_severity = (if severity_value (dp_severity dp) = ''critical'' then 2/10
                         else if severity_value (dp_severity dp) = ''high'' then 1/10 else 0);
          by_suggestion = (if dp_suggestions dp \<noteq> [] then 1/10 else 0)
      in min (5/10 + by_length + by_severity + by_suggestion) (95/100))"

definition span_adjusted_confidence :: "rat \<Rightarrow> string \<Rightarrow> nat \<Rightarrow> nat \<Rightarrow> rat" where
  "span_adjusted_confidence pattern_confidence command match_start match_end =
     fst (compute_match_confidence pattern_confidence command match_start match_end)"

definition matches_keywords :: "pack \<Rightarrow> string \<Rightarrow> bool" where
  "matches_keywords pk command =
     (if pk_keywords pk = [] then True
      else \<exists>kw \<in> set (pk_keywords pk). str_in (lower kw) (lower command))"

definition make_match :: "destructive_pattern \<Rightarrow> string \<Rightarrow> nat \<times> nat \<Rightarrow> destructive_match" where
  "make_match dp command m =
     \<lparr>dm_pattern_name = dp_name dp, dm_reason = dp_reason dp, dm_severity = dp_severity dp,
      dm_suggestion = (case dp_suggestions dp of [] \<Rightarrow> None | s # _ \<Rightarrow> Some (sg_command s)),
      dm_suggestions = dp_suggestions dp,
      dm_confidence = span_adjusted_confidence (compute_confidence dp) command (fst m) (snd m)\<rparr>"

fun check_patterns :: "re_engine \<Rightarrow> string \<Rightarrow> destructive_pattern list \<Rightarrow> destructive_match list" where
  "check_patterns re_search command [] = []"
| "check_patterns re_search command (dp # dps) =
     (case re_search (dp_regex dp) command of
        Some m \<Rightarrow> make_match dp command m # check_patterns re_search command dps
      | None \<Rightarrow> check_patterns re_search command dps)"

definition pack_check :: "re_engine \<Rightarrow> pack \<Rightarrow> string \<Rightarrow> destructive_match list" where
  "pack_check re_search pk command =
     (if \<not> matches_keywords pk command then []
      else check_patterns re_search command (pk_destructive_patterns pk))"

record pack_registry =
  rg_packs :: "(string \<times> pack) list"
  rg_all_keywords :: "string list"

definition empty_registry :: pack_registry where
  "empty_registry = \<lparr>rg_packs = [], rg_all_keywords = []\<rparr>"

definition rebuild_keyword_index :: "pack_registry \<Rightarrow> pack_registry" where
  "rebuild_keyword_index rg =
     rg\<lparr>rg_all_keywords := sort (remdups (concat (map (\<lambda>(i, p). pk_keywords p) (rg_packs rg))))\<rparr>"

definition register :: "pack \<Rightarrow> pack_registry \<Rightarrow> pack_registry" where
  "register pk rg = rebuild_keyword_index (rg\<lparr>rg_packs := AList.update (pk_id pk) pk (rg_packs rg)\<rparr>)"

definition build_registry :: "pack list \<Rightarrow> pack_registry" where
  "build_registry pks = fold register pks empty_registry"

definition passes_quick_reject :: "pack_registry \<Rightarrow> string \<Rightarrow> bool" where
  "passes_quick_reject rg command =
     (if rg_all_keywords rg = [] then True
      else \<exists>kw \<in> set (rg_all_keywords rg). str_in (lower kw) (lower command))"

definition evaluate :: "re_engine \<Rightarrow> pack_registry \<Rightarrow> string \<Rightarrow> destructive_match list" where
  "evaluate re_search rg command =
     (if \<not> passes_quick_reject rg command then []
      else concat (map (\<lambda>(i, pk). pack_check re_search pk command) (rg_packs rg)))"

definition evaluate_pack :: "re_engine \<Rightarrow> pack_registry \<Rightarrow> string \<Rightarrow> string \<Rightarrow> destructive_match list" where
  "evaluate_pack re_search rg pack_id command =
     (case map_of (rg_packs rg) pack_id of
        None \<Rightarrow> []
      | Some pk \<Rightarrow> pack_check re_search pk command)"

subsection \<open>The registry's invariant\<close>

definition registry_ok :: "pack_registry \<Rightarrow> bool" where
  "registry_ok rg \<longleftrightarrow> dict_ok (rg_packs rg) \<and> (\<forall>(i, p) \<in> set (rg_packs rg). pk_id p = i)
     \<and> rg_all_keywords rg = sort (remdups (concat (map (\<lambda>(i, p). pk_keywords p) (rg_packs rg))))"

lemma registry_ok_empty: "registry_ok empty_registry"
  by (simp add: registry_ok_def empty_registry_def)

lemma set_update_subset: "set (AList.update k v d) \<subseteq> insert (k, v) (set d)"
  by (induction d) auto

lemma registry_ok_register: "registry_ok rg \<Longrightarrow> registry_ok (register pk rg)"
  using set_update_subset [of "pk_id pk" pk "rg_packs rg"]
  by (fastforce simp: registry_ok_def register_def rebuild_keyword_index_def)

lemma registry_ok_fold: "registry_ok rg \<Longrightarrow> registry_ok (fold register pks rg)"
  by (induction pks arbitrary: rg) (auto intro: registry_ok_register)

lemma registry_ok_build: "registry_ok (build_registry pks)"
  unfolding build_registry_def by (rule registry_ok_fold) (rule registry_ok_empty)

lemma keywords_of_registry:
  "registry_ok rg \<Longrightarrow> set (rg_all_keywords rg) = (\<Union>(i, p) \<in> set (rg_packs rg). set (pk_keywords p))"
  by (auto simp: registry_ok_def)

text \<open>A command that fails the quick rejection fails the keyword test of every pack with keywords.\<close>

lemma quick_reject_sound:
  assumes "registry_ok rg" "\<not> passes_quick_reject rg command" "(i, pk) \<in> set (rg_packs rg)"
    "pk_keywords pk \<noteq> []"
  shows "pack_check re_search pk command = []"
proof -
  have "set (pk_keywords pk) \<subseteq> set (rg_all_keywords rg)"
    using keywords_of_registry [OF assms(1)] assms(3) by auto
  then have "\<not> matches_keywords pk command"
    using assms(2,4) by (auto simp: passes_quick_reject_def matches_keywords_def split: if_splits)
  then show ?thesis by (simp add: pack_check_def)
qed

lemma evaluate_all:
  assumes "registry_ok rg" "\<And>i pk. (i, pk) \<in> set (rg_packs rg) \<Longrightarrow> pk_keywords pk \<noteq> []"
  shows "evaluate re_search rg command
       = concat (map (\<lambda>(i, pk). pack_check re_search pk command) (rg_packs rg))"
proof (cases "passes_quick_reject rg command")
  case True
  then show ?thesis by (simp add: evaluate_def)
next
  case False
  then show ?thesis
    using quick_reject_sound [OF assms(1) False] assms(2)
    by (auto simp: evaluate_def)
qed

subsection \<open>What a match carries\<close>

lemma check_patterns_set:
  "m \<in> set (check_patterns re_search command dps) \<longleftrightarrow>
     (\<exists>dp sp. dp \<in> set dps \<and> re_search (dp_regex dp) command = Some sp \<and> m = make_match dp command sp)"
  by (induction dps) (auto split: option.splits)

lemma compute_confidence_bounds:
  "5/10 \<le> compute_confidence dp" "compute_confidence dp \<le> 95/100"
  by (auto simp: compute_confidence_def Let_def)

lemma make_match_confidence:
  "25/1000 \<le> dm_confidence (make_match dp command sp) \<and> dm_confidence (make_match dp command sp) \<le> 1"
proof -
  have "25/1000 \<le> min 1 (compute_confidence dp * (5/100))"
    using compute_confidence_bounds [of dp] by simp
  also have "\<dots> \<le> dm_confidence (make_match dp command sp)"
    using match_confidence_positive [of "compute_confidence dp" command "fst sp" "snd sp"]
      compute_confidence_bounds(1) [of dp]
    by (simp add: make_match_def span_adjusted_confidence_def)
  finally show ?thesis
    using match_confidence_clamped
    by (simp add: make_match_def span_adjusted_confidence_def)
qed

lemma evaluate_from_pattern:
  assumes "m \<in> set (evaluate re_search rg command)"
  shows "\<exists>i pk dp sp. (i, pk) \<in> set (rg_packs rg) \<and> dp \<in> set (pk_destructive_patterns pk)
     \<and> re_search (dp_regex dp) command = Some sp \<and> m = make_match dp command sp"
  using assms
  by (fastforce simp: evaluate_def pack_check_def check_patterns_set split: if_splits)

text \<open>C8: When every registered pack has keywords, the quick rejection is a pure optimisation: the
  registry's answer is the answers of all packs, in registration order, whatever the packs, the
  commands and the regular-expression engine.\<close>

theorem quick_reject_transparent:
  assumes "\<And>pk. pk \<in> set pks \<Longrightarrow> pk_keywords pk \<noteq> []"
  shows "evaluate re_search (build_registry pks) command
       = concat (map (\<lambda>(i, pk). pack_check re_search pk command) (rg_packs (build_registry pks)))"
proof (rule evaluate_all [OF registry_ok_build])
  fix i pk
  have "(i, pk) \<in> set (rg_packs (fold register xs rg)) \<Longrightarrow> pk \<in> set xs \<union> snd ` set (rg_packs rg)" for xs rg
  proof (induction xs arbitrary: rg)
    case (Cons x xs)
    show ?case
      using Cons.IH [OF Cons.prems [simplified]] set_update_subset [of "pk_id x" x "rg_packs rg"]
      by (auto simp: register_def rebuild_keyword_index_def)
  qed force
  then show "(i, pk) \<in> set (rg_packs (build_registry pks)) \<Longrightarrow> pk_keywords pk \<noteq> []"
    using assms by (force simp: build_registry_def empty_registry_def)
qed

definition demo_pack :: pack where
  "demo_pack = \<lparr>pk_id = ''fs'', pk_name = ''Filesystem'',
     pk_destructive_patterns = [\<lparr>dp_name = ''rm'', dp_regex = ''rm -rf'', dp_reason = ''deletes'',
       dp_severity = SEV_HIGH, dp_description = [], dp_suggestions = []\<rparr>],
     pk_keywords = [''rm'']\<rparr>"

lemma quick_reject_transparent_witness:
  "evaluate (\<lambda>rx s. if str_in rx s then Some (0, 1) else None) (build_registry [demo_pack]) ''rm -rf /'' =
   concat (map (\<lambda>(i, pk). pack_check (\<lambda>rx s. if str_in rx s then Some (0, 1) else None) pk ''rm -rf /'')
     (rg_packs (build_registry [demo_pack])))"
  by (rule quick_reject_transparent) (simp add: demo_pack_def)

text \<open>
  A pack without keywords is checked always by itself, but not by the registry once another pack
  has keywords: the quick rejection looks only at the keywords it knows.
\<close>

lemma keywordless_pack_skipped:
  "pack_check (\<lambda>rx s. Some (0, 1)) (demo_pack\<lparr>pk_id := ''any'', pk_keywords := []\<rparr>) ''ls'' \<noteq> []"
  "evaluate (\<lambda>rx s. Some (0, 1))
     (build_registry [demo_pack, demo_pack\<lparr>pk_id := ''any'', pk_keywords := []\<rparr>]) ''ls'' = []"
  by (simp add: pack_check_def matches_keywords_def demo_pack_def)
    (simp add: evaluate_def passes_quick_reject_def build_registry_def register_def
      rebuild_keyword_index_def empty_registry_def demo_pack_def char_lower_def)

definition registry_get :: "pack_registry \<Rightarrow> string \<Rightarrow> pack option" where
  "registry_get rg pack_id = map_of (rg_packs rg) pack_id"

definition all_packs :: "pack_registry \<Rightarrow> pack list" where
  "all_packs rg = map snd (rg_packs rg)"

definition pack_count :: "pack_registry \<Rightarrow> nat" where
  "pack_count rg = length (rg_packs rg)"

definition pattern_count :: "pack_registry \<Rightarrow> nat" where
  "pattern_count rg = sum_list (map (\<lambda>p. length (pk_destructive_patterns p)) (all_packs rg))"

definition keyword_count :: "pack_registry \<Rightarrow> nat" where
  "keyword_count rg = length (rg_all_keywords rg)"

text \<open>A registered pack is found under its identifier, and what the registry reports names a
  pattern of a registered pack that matched, with a confidence between 0.025 and 1.\<close>

theorem registry_reports:
  "registry_get (register pk rg) (pk_id pk) = Some pk
   \<and> list_all (\<lambda>m. 25/1000 \<le> dm_confidence m \<and> dm_confidence m \<le> 1
        \<and> (\<exists>pk \<in> set (all_packs rg). \<exists>dp \<in> set (pk_destructive_patterns pk).
             re_search (dp_regex dp) command \<noteq> None \<and> dm_pattern_name m = dp_name dp))
      (evaluate re_search rg command)"
proof -
  have "25/1000 \<le> dm_confidence m \<and> dm_confidence m \<le> 1
      \<and> (\<exists>pk \<in> set (all_packs rg). \<exists>dp \<in> set (pk_destructive_patterns pk).
           re_search (dp_regex dp) command \<noteq> None \<and> dm_pattern_name m = dp_name dp)"
    if m: "m \<in> set (evaluate re_search rg command)" for m
  proof -
    obtain i pk dp sp where "(i, pk) \<in> set (rg_packs rg)" "dp \<in> set (pk_destructive_patterns pk)"
      "re_search (dp_regex dp) command = Some sp" "m = make_match dp command sp"
      using evaluate_from_pattern [OF m] by blast
    then have "pk \<in> set (all_packs rg)" "dp \<in> set (pk_destructive_patterns pk)"
      "re_search (dp_regex dp) command \<noteq> None" "dm_pattern_name m = dp_name dp"
      by (force simp: all_packs_def make_match_def)+
    then show ?thesis
      using make_match_confidence [of dp command sp] \<open>m = make_match dp command sp\<close> by blast
  qed
  then show ?thesis
    by (auto simp: list_all_iff registry_get_def register_def rebuild_keyword_index_def)
qed

end
