(* ===== verification/PyRegex.thy ===== *)
theory PyRegex
  imports Prelude
begin

text \<open>
  The part of Python's \<open>re\<close> the scanners use, as a backtracking matcher. A pattern is a syntax
  tree; running it from a position returns all ways to match, in the order the engine tries
  them, so the first element is the match Python reports. A position is the text read so far,
  reversed, and the text ahead; captures are the texts of the groups, latest first.

  \<open>rep\<close> is the quantifier loop. Its fuel is the number of characters ahead plus the minimum
  count plus one: an iteration that consumes nothing ends the loop once the minimum is reached,
  as in the engine, so every iteration uses a character or one of the mandatory rounds. Patterns
  that can match the empty string are not used with \<open>finditer\<close> by the code.
\<close>

datatype citem = CI char | CR char char | CSpace | CNotSpace | CWord

datatype rx =
    RLit string
  | RSet bool "citem list"
  | RDot
  | RCat rx rx
  | RAlt rx rx
  | RRep bool nat "nat option" rx
  | RGrp nat rx
  | RBack nat
  | RBol
  | REol
  | RWordB
  | RAhead rx
  | REmp

text \<open>Shorthands for patterns.\<close>

definition rcats :: "rx list \<Rightarrow> rx" where
  "rcats rs = foldr RCat rs REmp"

fun ralts :: "rx list \<Rightarrow> rx" where
  "ralts [] = RSet False []"
| "ralts [r] = r"
| "ralts (r # rs) = RAlt r (ralts rs)"

abbreviation rstar :: "rx \<Rightarrow> rx" where
  "rstar \<equiv> RRep True 0 None"

abbreviation rplus :: "rx \<Rightarrow> rx" where
  "rplus \<equiv> RRep True 1 None"

abbreviation ropt :: "rx \<Rightarrow> rx" where
  "ropt \<equiv> RRep True 0 (Some 1)"

abbreviation rspace :: rx where
  "rspace \<equiv> RSet False [CSpace]"

abbreviation rnonspace :: rx where
  "rnonspace \<equiv> RSet False [CNotSpace]"

definition chars :: "string \<Rightarrow> citem list" where
  "chars s = map CI s"

definition alphas :: "citem list" where
  "alphas = [CR CHR ''A'' CHR ''Z'', CR CHR ''a'' CHR ''z'']"

record rflags =
  fl_ignorecase :: bool
  fl_dotall :: bool

definition no_flags :: rflags where
  "no_flags = \<lparr>fl_ignorecase = False, fl_dotall = False\<rparr>"

definition ignorecase :: rflags where
  "ignorecase = \<lparr>fl_ignorecase = True, fl_dotall = False\<rparr>"

definition dotall :: rflags where
  "dotall = \<lparr>fl_ignorecase = False, fl_dotall = True\<rparr>"

type_synonym rpos = "string \<times> string"
type_synonym rcaps = "(nat \<times> string) list"
type_synonym rstate = "rpos \<times> rcaps"

definition word_char :: "char \<Rightarrow> bool" where
  "word_char c \<longleftrightarrow> is_ascii_alnum c \<or> c = CHR ''_''"

definition char_upper :: "char \<Rightarrow> char" where
  "char_upper c = (let n = (of_char c :: nat) in if 97 \<le> n \<and> n \<le> 122 then char_of (n - 32) else c)"

fun citem_match :: "citem \<Rightarrow> char \<Rightarrow> bool" where
  "citem_match (CI d) c \<longleftrightarrow> c = d"
| "citem_match (CR a b) c \<longleftrightarrow> (of_char a :: nat) \<le> of_char c \<and> (of_char c :: nat) \<le> of_char b"
| "citem_match CSpace c \<longleftrightarrow> py_space c"
| "citem_match CNotSpace c \<longleftrightarrow> \<not> py_space c"
| "citem_match CWord c \<longleftrightarrow> word_char c"

definition citem_match_fl :: "rflags \<Rightarrow> citem \<Rightarrow> char \<Rightarrow> bool" where
  "citem_match_fl fl it c \<longleftrightarrow>
     (if fl_ignorecase fl then citem_match it (char_lower c) \<or> citem_match it (char_upper c)
      else citem_match it c)"

definition lit_eq :: "rflags \<Rightarrow> char \<Rightarrow> char \<Rightarrow> bool" where
  "lit_eq fl d c \<longleftrightarrow> (if fl_ignorecase fl then char_lower d = char_lower c else d = c)"

fun run_lit :: "rflags \<Rightarrow> string \<Rightarrow> rpos \<Rightarrow> rpos option" where
  "run_lit fl [] p = Some p"
| "run_lit fl (d # ds) (bef, []) = None"
| "run_lit fl (d # ds) (bef, c # aft) = (if lit_eq fl d c then run_lit fl ds (c # bef, aft) else None)"

definition at_word_boundary :: "rpos \<Rightarrow> bool" where
  "at_word_boundary p =
     (case p of (bef, aft) \<Rightarrow>
        (bef \<noteq> [] \<and> word_char (hd bef)) \<noteq> (aft \<noteq> [] \<and> word_char (hd aft)))"

fun rep :: "nat \<Rightarrow> bool \<Rightarrow> nat \<Rightarrow> nat option \<Rightarrow> (rstate \<Rightarrow> rstate list) \<Rightarrow> rstate \<Rightarrow> rstate list" where
  "rep 0 greedy mn mx body st = (if mn = 0 then [st] else [])"
| "rep (Suc fuel) greedy mn mx body st =
     (let stop = (if mn = 0 then [st] else []) in
      if mx = Some 0 then stop
      else
        (let more = concat (map (\<lambda>st'.
               if mn = 0 \<and> snd (fst st') = snd (fst st) then [st']
               else rep fuel greedy (mn - 1) (map_option (\<lambda>k. k - 1) mx) body st') (body st))
         in if greedy then more @ stop else stop @ more))"

fun rx_run :: "rflags \<Rightarrow> rx \<Rightarrow> rstate \<Rightarrow> rstate list" where
  "rx_run fl REmp st = [st]"
| "rx_run fl (RLit s) (p, cs) = (case run_lit fl s p of None \<Rightarrow> [] | Some p' \<Rightarrow> [(p', cs)])"
| "rx_run fl (RSet neg its) ((bef, aft), cs) =
     (case aft of [] \<Rightarrow> []
      | c # aft' \<Rightarrow>
          if (\<exists>it \<in> set its. citem_match_fl fl it c) \<noteq> neg then [((c # bef, aft'), cs)] else [])"
| "rx_run fl RDot ((bef, aft), cs) =
     (case aft of [] \<Rightarrow> []
      | c # aft' \<Rightarrow> if fl_dotall fl \<or> c \<noteq> newline then [((c # bef, aft'), cs)] else [])"
| "rx_run fl (RCat r1 r2) st = concat (map (rx_run fl r2) (rx_run fl r1 st))"
| "rx_run fl (RAlt r1 r2) st = rx_run fl r1 st @ rx_run fl r2 st"
| "rx_run fl (RRep greedy mn mx r) st =
     rep (length (snd (fst st)) + mn + 1) greedy mn mx (rx_run fl r) st"
| "rx_run fl (RGrp n r) st =
     map (\<lambda>((bef, aft), cs).
            ((bef, aft), (n, rev (take (length bef - length (fst (fst st))) bef)) # cs))
       (rx_run fl r st)"
| "rx_run fl (RBack n) (p, cs) =
     (case map_of cs n of None \<Rightarrow> []
      | Some t \<Rightarrow> (case run_lit fl t p of None \<Rightarrow> [] | Some p' \<Rightarrow> [(p', cs)]))"
| "rx_run fl RBol (p, cs) = (if fst p = [] then [(p, cs)] else [])"
| "rx_run fl REol (p, cs) = (if snd p = [] \<or> snd p = [newline] then [(p, cs)] else [])"
| "rx_run fl RWordB (p, cs) = (if at_word_boundary p then [(p, cs)] else [])"
| "rx_run fl (RAhead r) (p, cs) =
     (case rx_run fl r (p, cs) of [] \<Rightarrow> [] | (_, cs') # _ \<Rightarrow> [(p, cs')])"

text \<open>A match: the position it starts at, the position it ends at, its captures.\<close>

type_synonym rmatch = "rpos \<times> rpos \<times> rcaps"

definition rx_match_at :: "rflags \<Rightarrow> rx \<Rightarrow> rpos \<Rightarrow> rmatch option" where
  "rx_match_at fl r p = (case rx_run fl r (p, []) of [] \<Rightarrow> None | (q, cs) # _ \<Rightarrow> Some (p, q, cs))"

fun rx_search_from :: "rflags \<Rightarrow> rx \<Rightarrow> string \<Rightarrow> string \<Rightarrow> rmatch option" where
  "rx_search_from fl r bef [] = rx_match_at fl r (bef, [])"
| "rx_search_from fl r bef (c # aft) =
     (case rx_match_at fl r (bef, c # aft) of
        Some m \<Rightarrow> Some m
      | None \<Rightarrow> rx_search_from fl r (c # bef) aft)"

definition rx_search :: "rflags \<Rightarrow> rx \<Rightarrow> string \<Rightarrow> rmatch option" where
  "rx_search fl r s = rx_search_from fl r [] s"

definition rx_fullmatch :: "rflags \<Rightarrow> rx \<Rightarrow> string \<Rightarrow> rcaps option" where
  "rx_fullmatch fl r s =
     (case filter (\<lambda>(p, cs). snd p = []) (rx_run fl r (([], s), [])) of
        [] \<Rightarrow> None | (p, cs) # _ \<Rightarrow> Some cs)"

text \<open>\<open>finditer\<close>: search again from the end of the last match, one further when it was empty.\<close>

fun rx_finditer_from :: "nat \<Rightarrow> rflags \<Rightarrow> rx \<Rightarrow> rpos \<Rightarrow> rmatch list" where
  "rx_finditer_from 0 fl r p = []"
| "rx_finditer_from (Suc fuel) fl r (bef, aft) =
     (case rx_search_from fl r bef aft of
        None \<Rightarrow> []
      | Some (p, (bef', aft'), cs) \<Rightarrow>
          (p, (bef', aft'), cs) #
            (if length aft' < length (snd p) then rx_finditer_from fuel fl r (bef', aft')
             else (case aft' of [] \<Rightarrow> [] | c # aft'' \<Rightarrow> rx_finditer_from fuel fl r (c # bef', aft''))))"

definition rx_finditer :: "rflags \<Rightarrow> rx \<Rightarrow> string \<Rightarrow> rmatch list" where
  "rx_finditer fl r s = rx_finditer_from (length s + 1) fl r ([], s)"

definition m_group :: "rmatch \<Rightarrow> nat \<Rightarrow> string option" where
  "m_group m n = map_of (snd (snd m)) n"

text \<open>The text after the match, and the offset of its start.\<close>

definition m_after :: "rmatch \<Rightarrow> string" where
  "m_after m = snd (fst (snd m))"

definition m_start :: "rmatch \<Rightarrow> nat" where
  "m_start m = length (fst (fst m))"

definition m_end :: "rmatch \<Rightarrow> nat" where
  "m_end m = length (fst (fst (snd m)))"

text \<open>
  \<open>sub\<close>: each match is replaced by the template, whose references to groups that took no part are empty.
\<close>

datatype rpiece = RText string | RRef nat

fun piece_text :: "rmatch \<Rightarrow> rpiece \<Rightarrow> string" where
  "piece_text m (RText t) = t"
| "piece_text m (RRef n) = (case m_group m n of None \<Rightarrow> [] | Some t \<Rightarrow> t)"

definition expand_template :: "rpiece list \<Rightarrow> rmatch \<Rightarrow> string" where
  "expand_template template m = concat (map (piece_text m) template)"

fun sub_matches :: "rpiece list \<Rightarrow> string \<Rightarrow> nat \<Rightarrow> rmatch list \<Rightarrow> string" where
  "sub_matches template s pos [] = drop pos s"
| "sub_matches template s pos (m # ms) =
     take (m_start m - pos) (drop pos s) @ expand_template template m @ sub_matches template s (m_end m) ms"

definition rx_sub :: "rflags \<Rightarrow> rx \<Rightarrow> rpiece list \<Rightarrow> string \<Rightarrow> string" where
  "rx_sub fl r template s = sub_matches template s 0 (rx_finditer fl r s)"

subsection \<open>Matches are slices of the input\<close>

text \<open>\<open>reach p q\<close>: position \<open>q\<close> is ahead of \<open>p\<close> in the same text.\<close>

definition reach :: "rpos \<Rightarrow> rpos \<Rightarrow> bool" where
  "reach p q \<longleftrightarrow> (\<exists>t. fst q = rev t @ fst p \<and> snd p = t @ snd q)"

lemma reach_refl [simp]: "reach p p"
  by (auto simp: reach_def)

lemma reach_trans: "reach p q \<Longrightarrow> reach q r \<Longrightarrow> reach p r"
  unfolding reach_def by (metis append.assoc rev_append)

lemma reach_step: "reach (bef, c # aft) (c # bef, aft)"
  by (auto simp: reach_def intro!: exI [of _ "[c]"])

lemma reach_text: "reach p q \<Longrightarrow> rev (fst q) @ snd q = rev (fst p) @ snd p"
  by (auto simp: reach_def)

lemma run_lit_reach: "run_lit fl s p = Some q \<Longrightarrow> reach p q"
proof (induction fl s p rule: run_lit.induct)
  case (3 fl d ds bef c aft)
  then have "reach (c # bef, aft) q" by (auto split: if_splits)
  then show ?case using reach_step reach_trans by blast
qed auto

definition caps_in :: "string \<Rightarrow> rcaps \<Rightarrow> bool" where
  "caps_in s cs \<longleftrightarrow> (\<forall>(n, t) \<in> set cs. str_in t s)"

text \<open>What a run from a state over the text \<open>s\<close> may return: states ahead, captures inside \<open>s\<close>.\<close>

definition good_run :: "string \<Rightarrow> (rstate \<Rightarrow> rstate list) \<Rightarrow> bool" where
  "good_run s f \<longleftrightarrow>
     (\<forall>p cs q cs'. rev (fst p) @ snd p = s \<longrightarrow> caps_in s cs \<longrightarrow> (q, cs') \<in> set (f (p, cs))
        \<longrightarrow> reach p q \<and> caps_in s cs')"

lemma good_runD:
  "good_run s f \<Longrightarrow> (q, cs') \<in> set (f (p, cs)) \<Longrightarrow> rev (fst p) @ snd p = s \<Longrightarrow> caps_in s cs
    \<Longrightarrow> reach p q \<and> caps_in s cs'"
  unfolding good_run_def by blast

lemma good_rep: "good_run s body \<Longrightarrow> good_run s (rep fuel greedy mn mx body)"
proof (induction fuel arbitrary: mn mx)
  case 0
  then show ?case by (auto simp: good_run_def)
next
  case (Suc fuel)
  show ?case unfolding good_run_def
  proof (intro allI impI)
    fix p cs q cs'
    assume whole: "rev (fst p) @ snd p = s" and caps: "caps_in s cs"
      and "(q, cs') \<in> set (rep (Suc fuel) greedy mn mx body (p, cs))"
    then consider "(q, cs') = (p, cs)"
      | p1 cs1 where "(p1, cs1) \<in> set (body (p, cs))" "(q, cs') = (p1, cs1)"
      | p1 cs1 mn' mx' where "(p1, cs1) \<in> set (body (p, cs))"
          "(q, cs') \<in> set (rep fuel greedy mn' mx' body (p1, cs1))"
      by (fastforce simp: Let_def split: if_splits)
    then show "reach p q \<and> caps_in s cs'"
    proof cases
      case 1
      with caps show ?thesis by simp
    next
      case 2
      with good_runD [OF Suc.prems _ whole caps] show ?thesis by auto
    next
      case 3
      with good_runD [OF Suc.prems _ whole caps] have r1: "reach p p1" "caps_in s cs1" by auto
      with whole have "rev (fst p1) @ snd p1 = s" by (simp add: reach_text)
      with good_runD [OF Suc.IH [OF Suc.prems] 3(2)] r1 show ?thesis
        by (auto intro: reach_trans)
    qed
  qed
qed

lemma capture_in:
  assumes "reach p q" "rev (fst p) @ snd p = s"
  shows "str_in (rev (take (length (fst q) - length (fst p)) (fst q))) s"
proof -
  obtain t where t: "fst q = rev t @ fst p" "snd p = t @ snd q"
    using assms(1) by (auto simp: reach_def)
  then have "rev (take (length (fst q) - length (fst p)) (fst q)) = t" by simp
  with t(2) assms(2) show ?thesis by (auto simp: str_in_iff)
qed

lemma good_rx_run: "good_run s (rx_run fl r)"
proof (induction r)
  case (RLit t)
  then show ?case by (auto simp: good_run_def intro: run_lit_reach split: option.splits)
next
  case (RSet neg its)
  then show ?case by (auto simp: good_run_def reach_step split: list.splits if_splits)
next
  case RDot
  then show ?case by (auto simp: good_run_def reach_step split: list.splits if_splits)
next
  case (RCat r1 r2)
  show ?case unfolding good_run_def
  proof (intro allI impI)
    fix p cs q cs'
    assume whole: "rev (fst p) @ snd p = s" and caps: "caps_in s cs"
      and "(q, cs') \<in> set (rx_run fl (RCat r1 r2) (p, cs))"
    then obtain p1 cs1 where 1: "(p1, cs1) \<in> set (rx_run fl r1 (p, cs))"
      and 2: "(q, cs') \<in> set (rx_run fl r2 (p1, cs1))" by auto
    from good_runD [OF RCat.IH(1) 1 whole caps] have r1: "reach p p1" "caps_in s cs1" by auto
    with whole have "rev (fst p1) @ snd p1 = s" by (simp add: reach_text)
    with good_runD [OF RCat.IH(2) 2] r1 show "reach p q \<and> caps_in s cs'"
      by (auto intro: reach_trans)
  qed
next
  case (RRep greedy mn mx r)
  show ?case unfolding good_run_def rx_run.simps
    using good_rep [OF RRep.IH] unfolding good_run_def by blast
next
  case (RGrp n r)
  show ?case unfolding good_run_def
  proof (intro allI impI)
    fix p cs q cs'
    assume whole: "rev (fst p) @ snd p = s" and caps: "caps_in s cs"
      and "(q, cs') \<in> set (rx_run fl (RGrp n r) (p, cs))"
    then obtain cs1 where 1: "(q, cs1) \<in> set (rx_run fl r (p, cs))"
      and cs': "cs' = (n, rev (take (length (fst q) - length (fst p)) (fst q))) # cs1" by auto
    from good_runD [OF RGrp.IH 1 whole caps] have "reach p q" "caps_in s cs1" by auto
    with capture_in [OF _ whole] cs' show "reach p q \<and> caps_in s cs'" by (auto simp: caps_in_def)
  qed
next
  case (RBack n)
  then show ?case
    by (auto simp: good_run_def intro: run_lit_reach split: option.splits)
next
  case (RAhead r)
  show ?case unfolding good_run_def
  proof (intro allI impI)
    fix p cs q cs'
    assume whole: "rev (fst p) @ snd p = s" and caps: "caps_in s cs"
      and "(q, cs') \<in> set (rx_run fl (RAhead r) (p, cs))"
    then obtain p1 where "(p1, cs') \<in> set (rx_run fl r (p, cs))" "q = p"
      by (cases "rx_run fl r (p, cs)") auto
    with good_runD [OF RAhead.IH _ whole caps] show "reach p q \<and> caps_in s cs'" by auto
  qed
next
  case (RAlt r1 r2)
  then show ?case unfolding good_run_def rx_run.simps set_append Un_iff by blast
qed (simp_all add: good_run_def)

lemma rx_search_from_good:
  assumes "rx_search_from fl r bef aft = Some (p, q, cs)" "rev bef @ aft = s"
  shows "reach (bef, aft) p \<and> reach p q \<and> caps_in s cs"
  using assms
proof (induction fl r bef aft rule: rx_search_from.induct)
  case (1 fl r bef)
  then have "(q, cs) \<in> set (rx_run fl r ((bef, []), []))" "p = (bef, [])"
    by (auto simp: rx_match_at_def split: list.splits)
  with good_runD [OF good_rx_run [of s]] 1 show ?case by (auto simp: caps_in_def)
next
  case (2 fl r bef c aft)
  show ?case
  proof (cases "rx_match_at fl r (bef, c # aft)")
    case None
    with 2 have "reach (c # bef, aft) p \<and> reach p q \<and> caps_in s cs" by simp
    then show ?thesis using reach_step reach_trans by blast
  next
    case (Some m)
    with 2 have "(q, cs) \<in> set (rx_run fl r ((bef, c # aft), []))" "p = (bef, c # aft)"
      by (auto simp: rx_match_at_def split: list.splits)
    with good_runD [OF good_rx_run [of s]] 2 show ?thesis by (auto simp: caps_in_def)
  qed
qed

lemma rx_finditer_step:
  assumes "m \<in> set (rx_finditer_from (Suc fuel) fl r (bef, aft))"
    "rx_search_from fl r bef aft = Some (p1, (bef1, aft1), cs1)"
  shows "m = (p1, (bef1, aft1), cs1) \<or>
    m \<in> set (rx_finditer_from fuel fl r (bef1, aft1)) \<or>
    (\<exists>c aft2. aft1 = c # aft2 \<and> m \<in> set (rx_finditer_from fuel fl r (c # bef1, aft2)))"
  using assms by (cases aft1; simp split: if_splits; blast)

lemma rx_finditer_from_good:
  assumes "(p, q, cs) \<in> set (rx_finditer_from fuel fl r pos)" "rev (fst pos) @ snd pos = s"
  shows "rev (fst p) @ snd p = s \<and> reach p q \<and> caps_in s cs"
  using assms
proof (induction fuel arbitrary: pos)
  case 0
  then show ?case by simp
next
  case (Suc fuel)
  obtain bef aft where pos: "pos = (bef, aft)" by (cases pos)
  show ?case
  proof (cases "rx_search_from fl r bef aft")
    case None
    with Suc.prems pos show ?thesis by simp
  next
    case (Some m)
    obtain p1 bef1 aft1 cs1 where m: "m = (p1, (bef1, aft1), cs1)" by (metis surj_pair)
    have good: "reach (bef, aft) p1 \<and> reach p1 (bef1, aft1) \<and> caps_in s cs1"
      using rx_search_from_good [of fl r bef aft p1 "(bef1, aft1)" cs1 s] Some m pos Suc.prems(2)
      by simp
    then have t1: "rev bef1 @ aft1 = s" and tp: "rev (fst p1) @ snd p1 = s"
      using Suc.prems(2) pos reach_text [of "(bef, aft)" p1] reach_text [of p1 "(bef1, aft1)"]
      by simp_all
    from rx_finditer_step [OF Suc.prems(1) [unfolded pos] Some [unfolded m]]
    show ?thesis
    proof (elim disjE exE conjE)
      assume "(p, q, cs) = (p1, (bef1, aft1), cs1)"
      with good tp show ?thesis by simp
    next
      assume "(p, q, cs) \<in> set (rx_finditer_from fuel fl r (bef1, aft1))"
      from Suc.IH [OF this] t1 show ?thesis by simp
    next
      fix c aft2
      assume "aft1 = c # aft2" "(p, q, cs) \<in> set (rx_finditer_from fuel fl r (c # bef1, aft2))"
      with Suc.IH [OF this(2)] t1 show ?thesis by simp
    qed
  qed
qed

lemma rx_finditer_good:
  "m \<in> set (rx_finditer fl r s) \<Longrightarrow>
   rev (fst (fst m)) @ snd (fst m) = s \<and> reach (fst m) (fst (snd m)) \<and> caps_in s (snd (snd m))"
  using rx_finditer_from_good [of "fst m" "fst (snd m)" "snd (snd m)" "length s + 1" fl r "([], s)" s]
  by (cases m) (auto simp: rx_finditer_def)

lemma m_group_in:
  "m \<in> set (rx_finditer fl r s) \<Longrightarrow> m_group m n = Some t \<Longrightarrow> str_in t s"
  using rx_finditer_good [of m fl r s]
  by (auto simp: m_group_def caps_in_def dest!: map_of_SomeD)

lemma m_after_suffix:
  "m \<in> set (rx_finditer fl r s) \<Longrightarrow> \<exists>a. s = a @ m_after m"
  using rx_finditer_good [of m fl r s] reach_text [of "fst m" "fst (snd m)"]
  by (auto simp: m_after_def)

end
