(* ===== verification/Heredoc.thy ===== *)
theory Heredoc
  imports Packs PyRegex
begin

text \<open>
  \<open>app/heredoc_scanner.py\<close>: finding and extracting the scripts nested in a command. The
  patterns are the syntax trees of the module's regular expressions, built from the pieces the
  patterns repeat; \<open>PyRegex\<close> runs them. On ASCII commands they are the code's patterns; the
  classes \<open>\s\<close> and \<open>\w\<close> of other alphabets are not modelled.

  Offsets are replaced by the text before and after them. \<open>_find_closing_quote\<close> keeps its
  index, since its callers differ in the index they start from.
\<close>

subsection \<open>The patterns\<close>

definition rletters :: rx where
  "rletters = rstar (RSet False alphas)"

text \<open>\<open>[A-Za-z_][A-Za-z0-9_]*\<close>\<close>

definition rident :: rx where
  "rident = RCat (RSet False (alphas @ [CI CHR ''_'']))
                 (rstar (RSet False (alphas @ [CR CHR ''0'' CHR ''9'', CI CHR ''_''])))"

definition rversion :: rx where
  "rversion = rstar (RSet False [CR CHR ''0'' CHR ''9'', CI CHR ''.''])"

definition rexe :: rx where
  "rexe = ropt (RLit ''.exe'')"

definition rquote :: rx where
  "rquote = RSet False [CI squote, CI dquote]"

text \<open>An argument of an option: \<open>\s+(?:[0-9]\S*|\S*[:/\\]\S*|[A-Za-z][A-Za-z0-9_]*)\<close>.\<close>

definition roption_value :: rx where
  "roption_value = ropt (RCat (rplus rspace)
     (ralts [RCat (RSet False [CR CHR ''0'' CHR ''9'']) (rstar rnonspace),
             rcats [rstar rnonspace, RSet False (chars '':/'' @ [CI bslash]), rstar rnonspace],
             RCat (RSet False alphas)
               (rstar (RSet False (alphas @ [CR CHR ''0'' CHR ''9'', CI CHR ''_''])))]))"

definition rskip_options :: rx where
  "rskip_options = rstar (rcats [rplus rspace,
     ralts [RCat (RLit ''--'') (rplus rnonspace),
            rcats [RLit ''-'', rplus (RSet False alphas),
                   ropt (RCat (RSet False (chars '':.='')) (rstar rnonspace))]],
     roption_value])"

definition rflag :: "citem list \<Rightarrow> rx" where
  "rflag flag_chars = rcats [RLit ''-'', rletters, RSet False flag_chars, rletters]"

definition interpreter_trigger :: "rx \<Rightarrow> citem list \<Rightarrow> rx" where
  "interpreter_trigger name flag_chars = rcats [RWordB, name, rexe, RWordB, rskip_options,
     rplus rspace, rflag flag_chars, ralts [rspace, rquote, REol]]"

definition python_name :: rx where
  "python_name = RCat (RLit ''python'') rversion"

definition ruby_name :: rx where
  "ruby_name = RCat (RLit ''ruby'') rversion"

definition perl_name :: rx where
  "perl_name = RCat (RLit ''perl'') rversion"

definition node_name :: rx where
  "node_name = rcats [RLit ''node'', ropt (RLit ''js''), rversion]"

definition php_name :: rx where
  "php_name = RCat (RLit ''php'') rversion"

definition shell_name :: rx where
  "shell_name = ralts [RLit ''sh'', RLit ''bash'', RLit ''zsh'', RLit ''fish'']"

definition powershell_name :: rx where
  "powershell_name = rcats [RWordB, ralts [RLit ''powershell'', RLit ''pwsh''], rexe, ropt rquote,
     rstar (rcats [rplus rspace, RLit ''-'', rplus rnonspace, roption_value])]"

fun optional_suffix :: "string \<Rightarrow> rx" where
  "optional_suffix [] = REmp"
| "optional_suffix (c # cs) = ropt (RCat (RLit [c]) (optional_suffix cs))"

definition TRIGGER_PATTERNS :: "(rflags \<times> rx) list" where
  "TRIGGER_PATTERNS =
    [(no_flags, RLit ''<<<''),
     (no_flags, interpreter_trigger python_name (chars ''ce'')),
     (no_flags, interpreter_trigger ruby_name (chars ''e'')),
     (no_flags, interpreter_trigger perl_name (chars ''eE'')),
     (no_flags, interpreter_trigger node_name (chars ''ep'')),
     (no_flags, interpreter_trigger php_name (chars ''r'')),
     (no_flags, interpreter_trigger shell_name (chars ''c'')),
     (ignorecase, rcats [powershell_name, rplus rspace, RLit ''-c'',
        rstar (RSet False [CR CHR ''a'' CHR ''z'']), rstar rspace, rquote]),
     (ignorecase, rcats [powershell_name, rplus rspace, RLit ''-e'',
        optional_suffix ''ncodedcommand'', rplus rspace,
        RSet False (alphas @ [CR CHR ''0'' CHR ''9''] @ chars ''+/='')]),
     (ignorecase, rcats [RWordB, RLit ''cmd'', rexe, RWordB,
        rstar (rcats [rplus rspace, RLit ''/'', rplus (RSet False alphas)]),
        rplus rspace, RLit ''/'', RSet False (chars ''ck''), RWordB]),
     (ignorecase, rcats [ralts [RBol, RSet False (CSpace # chars '';|&({'')],
        ralts [RLit ''iex'', RLit ''invoke-expression''], RWordB]),
     (no_flags, rcats [RLit ''|'', rstar rspace,
        ralts [python_name, ruby_name, perl_name, node_name, php_name,
               RCat (RLit ''lua'') rversion, RLit ''sh'', RLit ''bash''], rexe, RWordB]),
     (no_flags, rcats [RLit ''|'', rstar rspace, RLit ''xargs'', rspace]),
     (no_flags, rcats [RWordB, RLit ''eval'', rplus rspace, rquote]),
     (no_flags, rcats [RWordB, RLit ''exec'', rplus rspace, rquote]),
     (no_flags, rcats [RLit ''$('', RRep False 0 None RDot, RLit '')'']),
     (no_flags, rcats [RLit [CHR 0x60], rplus (RSet True [CI (CHR 0x60)]), RLit [CHR 0x60]])]"

definition HEREDOC_OP_RE :: rx where
  "HEREDOC_OP_RE = rcats [RLit ''<<'', ropt (RSet False (chars ''-~'')), ropt (RCat (rstar rspace) rident)]"

definition has_heredoc_triggers :: "string \<Rightarrow> bool" where
  "has_heredoc_triggers command \<longleftrightarrow>
     (\<exists>(fl, r) \<in> set TRIGGER_PATTERNS. rx_search fl r command \<noteq> None)
     \<or> rx_search no_flags HEREDOC_OP_RE command \<noteq> None"

subsection \<open>Extraction\<close>

record extracted_command =
  ec_script :: string
  ec_extractor :: string
  ec_language :: string

definition extracted :: "string \<Rightarrow> string \<Rightarrow> string \<Rightarrow> extracted_command" where
  "extracted s e l = \<lparr>ec_script = s, ec_extractor = e, ec_language = l\<rparr>"

text \<open>The result \<open>-1\<close> is \<open>None\<close>.\<close>

function find_closing_quote :: "string \<Rightarrow> char \<Rightarrow> nat \<Rightarrow> nat option" where
  "find_closing_quote s q i =
     (if \<not> i < length s then None
      else if s ! i = bslash then find_closing_quote s q (i + 2)
      else if s ! i = q then Some i
      else find_closing_quote s q (i + 1))"
  by auto
termination by (relation "measure (\<lambda>(s, q, i). length s - i)") auto

declare find_closing_quote.simps [simp del]

definition inline_patterns :: "(rx \<times> rx \<times> string) list" where
  "inline_patterns =
    [(rcats [RWordB, python_name, RWordB], rflag (chars ''ce''), ''python''),
     (rcats [RWordB, ruby_name, RWordB], rflag (chars ''e''), ''ruby''),
     (rcats [RWordB, perl_name, RWordB], rflag (chars ''eE''), ''perl''),
     (rcats [RWordB, node_name, RWordB], rflag (chars ''ep''), ''javascript''),
     (rcats [RWordB, php_name, RWordB], rflag (chars ''r''), ''php''),
     (rcats [RWordB, shell_name, RWordB], rflag (chars ''c''), ''bash'')]"

text \<open>The body of the inner loop, from the text after the interpreter's name.\<close>

definition inline_script_at :: "rx \<Rightarrow> string \<Rightarrow> string \<Rightarrow> extracted_command list" where
  "inline_script_at flag_re lang rest =
     (case rx_search no_flags flag_re rest of
        None \<Rightarrow> []
      | Some flag_m \<Rightarrow>
          (case lstrip (m_after flag_m) of
             [] \<Rightarrow> []
           | q # txt1 \<Rightarrow>
               if q \<noteq> dquote \<and> q \<noteq> squote then []
               else
                 (let code = (case find_closing_quote (q # txt1) q 1 of
                                None \<Rightarrow> txt1
                              | Some e \<Rightarrow> take (e - 1) txt1)
                  in if strip code \<noteq> [] then [extracted (strip code) ''inline_script'' lang] else [])))"

definition extract_inline_scripts :: "string \<Rightarrow> extracted_command list" where
  "extract_inline_scripts command =
     concat (map (\<lambda>(interp_re, flag_re, lang).
       concat (map (\<lambda>m. inline_script_at flag_re lang (m_after m)) (rx_finditer no_flags interp_re command)))
     inline_patterns)"

definition eval_exec_at :: "string \<Rightarrow> rmatch \<Rightarrow> extracted_command list" where
  "eval_exec_at cmd_name m =
     (let q = hd (fst (fst (snd m)));
          rest = m_after m;
          code = (case find_closing_quote rest q 1 of None \<Rightarrow> rest | Some e \<Rightarrow> take e rest)
      in if strip code \<noteq> [] then [extracted (strip code) (cmd_name @ ''_call'') ''shell''] else [])"

definition extract_eval_exec :: "string \<Rightarrow> extracted_command list" where
  "extract_eval_exec command =
     concat (map (\<lambda>cmd_name.
       concat (map (eval_exec_at cmd_name)
         (rx_finditer no_flags (rcats [RWordB, RLit cmd_name, rplus rspace, rquote]) command)))
     [''eval'', ''exec''])"

definition heredoc_pattern :: "string \<Rightarrow> rx" where
  "heredoc_pattern q = rcats [RLit ''<<'', ropt (RSet False (chars ''-~'')), rstar rspace, RLit q,
     RGrp 1 rident, RLit q, rstar rspace, RLit [newline], RGrp 2 (RRep False 0 None RDot),
     RLit [newline], RBack 1]"

definition group_script :: "nat \<Rightarrow> string \<Rightarrow> string \<Rightarrow> rmatch \<Rightarrow> extracted_command list" where
  "group_script n extractor lang m =
     (case m_group m n of
        None \<Rightarrow> []
      | Some t \<Rightarrow> if strip t \<noteq> [] then [extracted (strip t) extractor lang] else [])"

definition extract_heredocs :: "string \<Rightarrow> extracted_command list" where
  "extract_heredocs command =
     concat (map (\<lambda>q. concat (map (group_script 2 ''heredoc'' ''shell'')
                                (rx_finditer dotall (heredoc_pattern q) command)))
       [[squote], [dquote], []])"

definition herestring_pattern :: rx where
  "herestring_pattern = rcats [RLit ''<<<'', rplus rspace, rquote,
     RGrp 1 (RRep False 0 None RDot), rquote]"

definition extract_herestrings :: "string \<Rightarrow> extracted_command list" where
  "extract_herestrings command =
     concat (map (group_script 1 ''herestring'' ''shell'')
                 (rx_finditer no_flags herestring_pattern command))"

text \<open>
  The inner loop of \<open>$(...)\<close>: from nesting depth \<open>d\<close>, the number of characters read and the
  depth reached, zero when the parenthesis was closed.
\<close>

fun paren_scan :: "nat \<Rightarrow> string \<Rightarrow> nat \<times> nat" where
  "paren_scan 0 s = (0, 0)"
| "paren_scan (Suc d) [] = (0, Suc d)"
| "paren_scan (Suc d) (c # cs) =
     (if startswith (c # cs) ''$('' then
        (let (k, e) = paren_scan (Suc (Suc d)) (tl cs) in (k + 2, e))
      else if c = CHR '')'' then (let (k, e) = paren_scan d cs in (k + 1, e))
      else (let (k, e) = paren_scan (Suc d) cs in (k + 1, e)))"

definition backtick :: char where
  "backtick = CHR 0x60"

function extract_command_substitutions :: "string \<Rightarrow> extracted_command list" where
  "extract_command_substitutions [] = []"
| "extract_command_substitutions (c # cs) =
     (if startswith (c # cs) ''$('' then
        (let body = tl cs; (k, d) = paren_scan 1 body; inner = strip (take (k - 1) body) in
         (if d = 0 \<and> inner \<noteq> [] then [extracted inner ''dollar_paren'' ''shell''] else [])
           @ extract_command_substitutions (drop k body))
      else if c = backtick \<and> backtick \<in> set cs then
        (let inner = strip (before_char backtick cs) in
         (if inner \<noteq> [] then [extracted inner ''backtick'' ''shell''] else [])
           @ extract_command_substitutions (after_char backtick cs))
      else extract_command_substitutions cs)"
  by pat_completeness auto
termination
  by (relation "measure length") (auto intro: le_less_trans [OF length_after_char])

declare extract_command_substitutions.simps(2) [simp del]

definition extract_all :: "string \<Rightarrow> extracted_command list" where
  "extract_all command = dedup_by ec_script []
     (extract_inline_scripts command @ extract_eval_exec command @ extract_heredocs command
        @ extract_herestrings command @ extract_command_substitutions command)"

definition extract_python_scripts :: "string \<Rightarrow> string list" where
  "extract_python_scripts command = dedup_by id []
     (map ec_script (filter (\<lambda>ec. ec_language ec = ''python'') (extract_all command)))"

subsection \<open>Scanning the nested scripts\<close>

definition right_arrow :: string where
  "right_arrow = [CHR 0xE2, CHR 0x86, CHR 0x92]"

text \<open>\<open>DestructiveMatch(...)\<close> is built without a confidence: the default of the field, one half.\<close>

definition nested_match :: "extracted_command \<Rightarrow> destructive_match \<Rightarrow> destructive_match" where
  "nested_match ec m =
     \<lparr>dm_pattern_name = ''nested:'' @ dm_pattern_name m,
      dm_reason = ''['' @ ec_extractor ec @ '' '' @ right_arrow @ '' '' @ ec_language ec @ ''] '' @ dm_reason m,
      dm_severity = dm_severity m, dm_suggestion = dm_suggestion m,
      dm_suggestions = dm_suggestions m, dm_confidence = 1/2\<rparr>"

definition check_nested_commands ::
    "re_engine \<Rightarrow> pack_registry \<Rightarrow> string \<Rightarrow> destructive_match list" where
  "check_nested_commands re_search rg command =
     (if \<not> has_heredoc_triggers command then []
      else concat (map (\<lambda>ec. map (nested_match ec) (evaluate re_search rg (ec_script ec)))
                       (extract_all command)))"

subsection \<open>Variable resolution and scan candidates\<close>

definition VAR_ASSIGN_RE :: rx where
  "VAR_ASSIGN_RE = rcats [
     ralts [RBol, RSet False (CSpace # chars '';|&()'')],
     RGrp 1 rident, RLit ''='',
     ralts [rcats [RGrp 2 (RSet False [CI dquote, CI squote]), RGrp 3 (RRep False 0 None RDot), RBack 2],
            RGrp 4 (RRep False 1 None rnonspace)],
     RAhead (ralts [RSet False (CSpace # chars '';|&()''), REol])]"

definition VAR_REF_RE :: rx where
  "VAR_REF_RE = ralts [rcats [RLit ''${'', RGrp 1 rident, RLit ''}''],
                       rcats [RLit ''$'', RGrp 2 rident, RWordB]]"

text \<open>\<open>assignments.setdefault(name, value)\<close>: the first assignment of a name stays.\<close>

definition add_assignment :: "rmatch \<Rightarrow> (string \<times> string) list \<Rightarrow> (string \<times> string) list" where
  "add_assignment m d =
     (case (m_group m 1, case m_group m 3 of Some v \<Rightarrow> Some v | None \<Rightarrow> m_group m 4) of
        (Some name, Some value) \<Rightarrow> if map_of d name = None then d @ [(name, value)] else d
      | _ \<Rightarrow> d)"

definition shell_assignments :: "string \<Rightarrow> (string \<times> string) list" where
  "shell_assignments command = fold add_assignment (rx_finditer no_flags VAR_ASSIGN_RE command) []"

text \<open>\<open>pattern.sub(f, s)\<close>: the text between the matches, each match replaced.\<close>

fun sub_pieces :: "(rmatch \<Rightarrow> string) \<Rightarrow> string \<Rightarrow> nat \<Rightarrow> rmatch list \<Rightarrow> string" where
  "sub_pieces f s prv [] = drop prv s"
| "sub_pieces f s prv (m # ms) =
     take (m_start m - prv) (drop prv s) @ f m @ sub_pieces f s (m_end m) ms"

definition matched_text :: "string \<Rightarrow> rmatch \<Rightarrow> string" where
  "matched_text s m = take (m_end m - m_start m) (drop (m_start m) s)"

definition substitute_variable :: "string \<times> string \<Rightarrow> string \<Rightarrow> string" where
  "substitute_variable nv s =
     sub_pieces (\<lambda>m. if m_group m 1 = Some (fst nv) \<or> m_group m 2 = Some (fst nv) then snd nv
                     else matched_text s m)
       s 0 (rx_finditer no_flags VAR_REF_RE s)"

fun resolve_rounds :: "nat \<Rightarrow> (string \<times> string) list \<Rightarrow> string \<Rightarrow> string" where
  "resolve_rounds 0 d s = s"
| "resolve_rounds (Suc n) d s =
     (let s' = fold substitute_variable d s in if s' = s then s' else resolve_rounds n d s')"

definition resolve_shell_variables :: "string \<Rightarrow> string" where
  "resolve_shell_variables command =
     (let d = shell_assignments command in
      if d = [] then command else resolve_rounds 3 d command)"

definition add_candidate :: "string \<Rightarrow> string list \<Rightarrow> string list" where
  "add_candidate t cands =
     (if strip t \<noteq> [] \<and> strip t \<notin> set cands then cands @ [strip t] else cands)"

definition normalize_scan_candidates :: "string \<Rightarrow> string list" where
  "normalize_scan_candidates command =
     (let cands = add_candidate (resolve_shell_variables command) (add_candidate command []) in
      fold (\<lambda>base. fold (\<lambda>ec cs. add_candidate (resolve_shell_variables (ec_script ec))
                                     (add_candidate (ec_script ec) cs))
                          (extract_all base)) cands cands)"

subsection \<open>Lemmas\<close>

text \<open>What an extractor may return for a command.\<close>

definition script_of :: "string \<Rightarrow> extracted_command \<Rightarrow> bool" where
  "script_of command ec \<longleftrightarrow> ec_script ec \<noteq> [] \<and> str_in (ec_script ec) command"

lemma extracted_simps [simp]:
  "ec_script (extracted s e l) = s" "ec_extractor (extracted s e l) = e" "ec_language (extracted s e l) = l"
  by (simp_all add: extracted_def)

lemma script_of_extracted: "strip t \<noteq> [] \<Longrightarrow> str_in t command \<Longrightarrow> script_of command (extracted (strip t) e l)"
  by (auto simp: script_of_def intro: str_in_trans [OF str_in_strip])

lemma script_of_trans: "script_of s ec \<Longrightarrow> str_in s t \<Longrightarrow> script_of t ec"
  by (auto simp: script_of_def intro: str_in_trans)

lemma rx_search_after: "rx_search fl r s = Some m \<Longrightarrow> str_in (m_after m) s"
  using rx_search_from_good [of fl r "[]" s "fst m" "fst (snd m)" "snd (snd m)" s]
    reach_text [of "([], s)" "fst m"] reach_text [of "fst m" "fst (snd m)"]
  by (auto simp: rx_search_def m_after_def str_in_iff) (metis append_Nil2)

lemma finditer_after: "m \<in> set (rx_finditer fl r s) \<Longrightarrow> str_in (m_after m) s"
  using m_after_suffix [of m fl r s] str_in_append by auto

lemma inline_script_at_in:
  assumes "ec \<in> set (inline_script_at flag_re lang rest)"
  shows "script_of rest ec"
proof (cases "rx_search no_flags flag_re rest")
  case None
  with assms show ?thesis by (simp add: inline_script_at_def)
next
  case (Some m)
  show ?thesis
  proof (cases "lstrip (m_after m)")
    case Nil
    with Some assms show ?thesis by (simp add: inline_script_at_def)
  next
    case (Cons q t)
    have "str_in t (m_after m)"
      using lstrip_in [of "m_after m"] Cons unfolding str_in_iff
      by (metis append.assoc append_Cons append_Nil append_Nil2)
    then have t: "str_in t rest" using rx_search_after [OF Some] str_in_trans by blast
    then have take: "str_in (take n t) rest" for n using str_in_take str_in_trans by blast
    from assms Some Cons
    have "\<exists>code. str_in code rest \<and> strip code \<noteq> [] \<and> ec = extracted (strip code) ''inline_script'' lang"
      using t take
      by (cases "find_closing_quote (q # t) q 1") (auto simp: inline_script_at_def Let_def split: if_splits)
    then show ?thesis using script_of_extracted by blast
  qed
qed

lemma extract_inline_in: "ec \<in> set (extract_inline_scripts s) \<Longrightarrow> script_of s ec"
  by (auto simp: extract_inline_scripts_def
      intro: script_of_trans [OF inline_script_at_in] finditer_after)

lemma extract_eval_in:
  assumes "ec \<in> set (extract_eval_exec s)"
  shows "script_of s ec"
proof -
  obtain r m n where m: "m \<in> set (rx_finditer no_flags r s)" and ec: "ec \<in> set (eval_exec_at n m)"
    using assms by (auto simp: extract_eval_exec_def)
  have "str_in (take k (m_after m)) s" for k
    using finditer_after [OF m] str_in_take str_in_trans by blast
  with ec finditer_after [OF m] show ?thesis
    by (auto simp: eval_exec_at_def Let_def intro: script_of_extracted split: option.splits if_splits)
qed

lemma group_script_in:
  "m \<in> set (rx_finditer fl r s) \<Longrightarrow> ec \<in> set (group_script n e l m) \<Longrightarrow> script_of s ec"
  by (cases "m_group m n") (auto simp: group_script_def intro: script_of_extracted m_group_in split: if_splits)

lemma extract_heredocs_in: "ec \<in> set (extract_heredocs s) \<Longrightarrow> script_of s ec"
  by (auto simp: extract_heredocs_def intro: group_script_in)

lemma extract_herestrings_in: "ec \<in> set (extract_herestrings s) \<Longrightarrow> script_of s ec"
  by (auto simp: extract_herestrings_def intro: group_script_in)

lemma str_in_Cons: "str_in p s \<Longrightarrow> str_in p (c # s)"
  by simp

lemma extract_substitutions_in:
  "ec \<in> set (extract_command_substitutions s) \<Longrightarrow> script_of s ec"
proof (induction s rule: extract_command_substitutions.induct)
  case 1
  then show ?case by simp
next
  case (2 c cs)
  have tl_in: "str_in (tl cs) (c # cs)" by (cases cs) simp_all
  have up: "script_of s ec \<Longrightarrow> str_in s (c # cs) \<Longrightarrow> script_of (c # cs) ec" for s
    by (rule script_of_trans)
  show ?case
  proof (cases "startswith (c # cs) ''$(''")
    case True
    obtain k d where kd: "paren_scan 1 (tl cs) = (k, d)" by (cases "paren_scan 1 (tl cs)")
    have pre: "str_in (take n (tl cs)) (c # cs)" "str_in (drop n (tl cs)) (c # cs)" for n
      using tl_in str_in_take str_in_drop str_in_trans by blast+
    from 2(1) [OF True refl kd [symmetric] refl refl]
    have ih: "ec \<in> set (extract_command_substitutions (drop k (tl cs))) \<Longrightarrow> script_of (c # cs) ec"
      using up pre(2) by blast
    from 2(4) True kd
    have "ec \<in> set (extract_command_substitutions (drop k (tl cs))) \<or>
        strip (take (k - 1) (tl cs)) \<noteq> [] \<and>
        ec = extracted (strip (take (k - 1) (tl cs))) ''dollar_paren'' ''shell''"
      by (auto simp: extract_command_substitutions.simps(2) Let_def split: if_splits)
    then show ?thesis using ih script_of_extracted pre(1) by blast
  next
    case no: False
    show ?thesis
    proof (cases "c = backtick \<and> backtick \<in> set cs")
      case True
      have split: "cs = before_char backtick cs @ backtick # after_char backtick cs"
        using True split_at_char by blast
      have "str_in (before_char backtick cs) (c # cs)"
        by (rule str_in_Cons) (metis split str_in_append(2))
      moreover have "str_in (after_char backtick cs) (c # cs)"
        by (rule str_in_Cons) (metis append.assoc append_Cons append_Nil split str_in_append(1))
      ultimately show ?thesis
        using 2(2) [OF no True refl] 2(4) no True up
        by (auto simp: extract_command_substitutions.simps(2) Let_def intro: script_of_extracted split: if_splits)
    next
      case False
      with 2(3) [OF no False] 2(4) no up [of cs] str_in_Cons [of cs cs c] show ?thesis
        by (auto simp: extract_command_substitutions.simps(2))
    qed
  qed
qed

lemma extract_all_in: "ec \<in> set (extract_all s) \<Longrightarrow> script_of s ec"
  using dedup_by_subset [of ec_script "[]"] extract_inline_in extract_eval_in extract_heredocs_in
    extract_herestrings_in extract_substitutions_in
  unfolding extract_all_def by fastforce

lemma extract_all_distinct: "distinct (map ec_script (extract_all s))"
  by (simp add: extract_all_def dedup_by_distinct)

lemma nested_finding:
  assumes "m \<in> set (check_nested_commands re_search rg command)"
  shows "\<exists>ec m'. ec \<in> set (extract_all command) \<and> m' \<in> set (evaluate re_search rg (ec_script ec))
     \<and> m = nested_match ec m'"
  using assms by (auto simp: check_nested_commands_def split: if_splits)

lemma add_candidate_ok:
  "distinct cs \<Longrightarrow> [] \<notin> set cs \<Longrightarrow> distinct (add_candidate t cs) \<and> [] \<notin> set (add_candidate t cs)"
  by (auto simp: add_candidate_def)

lemma candidates_ok:
  "distinct (normalize_scan_candidates command) \<and> [] \<notin> set (normalize_scan_candidates command)"
proof -
  define ok where "ok = (\<lambda>cs :: string list. distinct cs \<and> [] \<notin> set cs)"
  have step: "ok cs \<Longrightarrow> ok (add_candidate t cs)" for t cs
    using add_candidate_ok by (auto simp: ok_def)
  have inner: "ok cs \<Longrightarrow> ok (fold (\<lambda>ec cs. add_candidate (resolve_shell_variables (ec_script ec))
      (add_candidate (ec_script ec) cs)) ecs cs)" for ecs cs
    by (induction ecs arbitrary: cs) (simp_all add: step)
  have outer: "ok cs \<Longrightarrow> ok (fold (\<lambda>base. fold (\<lambda>ec cs. add_candidate (resolve_shell_variables (ec_script ec))
      (add_candidate (ec_script ec) cs)) (extract_all base)) bases cs)" for bases cs
    by (induction bases arbitrary: cs) (simp_all add: inner)
  have "ok (normalize_scan_candidates command)"
    unfolding normalize_scan_candidates_def Let_def
    by (intro outer step) (simp add: ok_def)
  then show ?thesis by (simp add: ok_def)
qed

text \<open>The scripts extracted from a command are nonempty substrings of it, each reported once; and
  the candidates of the scan are nonempty and distinct.\<close>

theorem extracted_scripts:
  "list_all (\<lambda>ec. ec_script ec \<noteq> [] \<and> str_in (ec_script ec) command) (extract_all command)
   \<and> distinct (map ec_script (extract_all command))
   \<and> distinct (normalize_scan_candidates command) \<and> [] \<notin> set (normalize_scan_candidates command)"
  using extract_all_in [of _ command] extract_all_distinct [of command] candidates_ok [of command]
  by (auto simp: list_all_iff script_of_def)

text \<open>Gate 2b reports only what it found: every nested finding is a pack's match in a substring of
  the command, and a command without a trigger has none.\<close>

theorem nested_findings_sound:
  "list_all (\<lambda>m. \<exists>script m'. str_in script command \<and> m' \<in> set (evaluate re_search rg script)
        \<and> dm_pattern_name m = ''nested:'' @ dm_pattern_name m' \<and> dm_severity m = dm_severity m')
     (check_nested_commands re_search rg command)
   \<and> (has_heredoc_triggers command \<or> check_nested_commands re_search rg command = [])"
proof -
  have "\<exists>script m'. str_in script command \<and> m' \<in> set (evaluate re_search rg script)
      \<and> dm_pattern_name m = ''nested:'' @ dm_pattern_name m' \<and> dm_severity m = dm_severity m'"
    if m: "m \<in> set (check_nested_commands re_search rg command)" for m
  proof -
    obtain ec m' where "ec \<in> set (extract_all command)" "m' \<in> set (evaluate re_search rg (ec_script ec))"
      "m = nested_match ec m'" using nested_finding [OF m] by blast
    then show ?thesis using extract_all_in [of ec command] by (auto simp: nested_match_def script_of_def)
  qed
  then show ?thesis by (auto simp: list_all_iff check_nested_commands_def)
qed

text \<open>
  \<open>extract_eval_exec\<close> starts the search for the closing quote at the second character after the
  opening one, so a script that begins with an escaped quote is cut off there: of
  \<open>eval "\"rm\" -rf /"\<close> only a backslash is scanned.
\<close>

lemma eval_escaped_quote_truncated:
  "map ec_script (extract_eval_exec (''eval '' @ [dquote, bslash, dquote] @ ''rm'' @ [bslash, dquote]
     @ '' -rf /'' @ [dquote])) = [[bslash]]"
  by code_simp

end
