(* ===== verification/CommandPolicy.thy ===== *)
theory CommandPolicy
  imports ShellScan Heredoc
begin

text \<open>
  The profile evaluators of \<open>app/command_policy.py\<close> (Gate 3) and what they call: the root
  allowlists, the git, systemctl and docker argument validators, and the unwrapping of
  \<open>env\<close>. A pair \<open>(ok, reason)\<close> is the code's tuple. \<open>re_search\<close> and \<open>rg\<close> stand for the
  regular-expression engine and the pack registry singleton (\<open>get_registry()\<close>).
\<close>

subsection \<open>Root allowlists\<close>

definition READONLY_ROOTS :: "string set" where
  "READONLY_ROOTS =
     {''cat'', ''cd'', ''df'', ''du'', ''env'', ''free'', ''grep'', ''head'', ''hostname'',
      ''id'', ''ip'', ''journalctl'', ''ls'', ''netstat'', ''pgrep'', ''ping'', ''ps'',
      ''pwd'', ''readlink'', ''realpath'', ''ss'', ''stat'', ''tail'', ''top'', ''tree'',
      ''uname'', ''uptime'', ''wc'', ''whoami'', ''file'', ''less'', ''git''}"

definition GIT_READONLY_SUBCOMMANDS :: "string set" where
  "GIT_READONLY_SUBCOMMANDS =
     {''status'', ''log'', ''diff'', ''show'', ''branch'', ''remote'', ''tag'',
      ''rev-parse'', ''describe'', ''shortlog'', ''blame'', ''reflog''}"

definition GIT_INFO_ONLY_FLAGS :: "string set" where
  "GIT_INFO_ONLY_FLAGS =
     {''-a'', ''--all'', ''-r'', ''--remotes'', ''-v'', ''-vv'', ''--verbose'',
      ''-l'', ''--list'', ''--color'', ''--no-color'', ''--column'', ''--no-column'',
      ''-n'', ''--contains'', ''--merged'', ''--no-merged''}"

definition GIT_MUTATING_REMOTE_SUBCOMMANDS :: "string set" where
  "GIT_MUTATING_REMOTE_SUBCOMMANDS =
     {''add'', ''remove'', ''rm'', ''rename'', ''set-url'', ''set-head'',
      ''set-branches'', ''prune'', ''update''}"

definition GIT_READONLY_REMOTE_SUBCOMMANDS :: "string set" where
  "GIT_READONLY_REMOTE_SUBCOMMANDS = {''show'', ''get-url''}"

definition ENV_NO_ARG_FLAGS :: "string set" where
  "ENV_NO_ARG_FLAGS =
     {''-i'', ''--ignore-environment'', ''-0'', ''--null'', ''-v'', ''--verbose'', ''-h'', ''--help''}"

definition ENV_ONE_ARG_FLAGS :: "string set" where
  "ENV_ONE_ARG_FLAGS =
     {''-u'', ''--unset'', ''-C'', ''--chdir'', ''-S'', ''--split-string'',
      ''-P'', ''--default-signal'', ''-a'', ''--argv0'', ''--block-signal'', ''--list-signal-names''}"

text \<open>\<open>_ENV_ASSIGNMENT_RE.match\<close>: \<open>^[A-Za-z_][A-Za-z0-9_]*=\<close>.\<close>

definition env_assignment :: "string \<Rightarrow> bool" where
  "env_assignment tok =
     (case tok of
        [] \<Rightarrow> False
      | c # cs \<Rightarrow> (is_ascii_upper c \<or> is_ascii_lower c \<or> c = CHR ''_'')
          \<and> startswith (dropWhile (\<lambda>d. is_ascii_alnum d \<or> d = CHR ''_'') cs) ''='')"

definition TESTLINT_ROOTS :: "string set" where
  "TESTLINT_ROOTS = READONLY_ROOTS \<union>
     {''pytest'', ''ruff'', ''mypy'', ''pyright'', ''flake8'', ''black'', ''isort'',
      ''compileall'', ''python'', ''uv'', ''command'', ''find'', ''sed''}"

definition PROJECT_AUTOMATION_ROOTS :: "string set" where
  "PROJECT_AUTOMATION_ROOTS = TESTLINT_ROOTS \<union> {''git''}"

definition OPS_ROOTS :: "string set" where
  "OPS_ROOTS = PROJECT_AUTOMATION_ROOTS \<union>
     {''docker'', ''docker-compose'', ''systemctl'', ''service'', ''supervisorctl'',
      ''journalctl'', ''systemd-analyze''}"

definition DOCKER_ADMIN_ROOTS :: "string set" where
  "DOCKER_ADMIN_ROOTS = OPS_ROOTS \<union> {''docker'', ''docker-compose''}"

definition DENIED_ROOTS :: "string set" where
  "DENIED_ROOTS =
     {''mkfs'', ''fdisk'', ''parted'', ''shutdown'', ''reboot'', ''halt'', ''poweroff'',
      ''dd'', ''tee'', ''cp'', ''mv'', ''rm'', ''rmdir'', ''powershell'', ''pwsh'', ''cmd''}"

definition DENIED_ROOT_PREFIXES :: "string list" where
  "DENIED_ROOT_PREFIXES = [''mkfs.'']"

definition OPS_ALLOWED_SYSTEMCTL_ACTIONS :: "string set" where
  "OPS_ALLOWED_SYSTEMCTL_ACTIONS =
     {''status'', ''restart'', ''reload'', ''try-restart'', ''is-active'', ''is-enabled'',
      ''start'', ''stop''}"

definition OPS_ALLOWED_DOCKER_ACTIONS :: "string set" where
  "OPS_ALLOWED_DOCKER_ACTIONS =
     {''ps'', ''logs'', ''inspect'', ''restart'', ''compose'', ''images'', ''stats''}"

definition DOCKER_ADMIN_ALLOWED_ACTIONS :: "string set" where
  "DOCKER_ADMIN_ALLOWED_ACTIONS = OPS_ALLOWED_DOCKER_ACTIONS \<union>
     {''exec'', ''rm'', ''rmi'', ''volume'', ''run'', ''start'', ''stop'',
      ''kill'', ''cp'', ''wait'', ''rename'', ''update'', ''pause'', ''unpause''}"

subsection \<open>Destructive patterns and suggestions\<close>

definition check_docker_destructive ::
    "re_engine \<Rightarrow> pack_registry \<Rightarrow> string \<Rightarrow> destructive_match option" where
  "check_docker_destructive re_search rg command =
     (case evaluate_pack re_search rg ''docker'' command of [] \<Rightarrow> None | m # _ \<Rightarrow> Some m)"

definition compose_names :: "string set" where
  "compose_names = {''down-volumes'', ''down-rmi-all'', ''rm-volumes'', ''compose-rm-force''}"

definition check_compose_destructive ::
    "re_engine \<Rightarrow> pack_registry \<Rightarrow> string \<Rightarrow> destructive_match option" where
  "check_compose_destructive re_search rg command =
     find (\<lambda>m. dm_pattern_name m \<in> compose_names) (evaluate_pack re_search rg ''docker'' command)"

definition check_all_destructive ::
    "re_engine \<Rightarrow> pack_registry \<Rightarrow> string \<Rightarrow> destructive_match list" where
  "check_all_destructive re_search rg command = evaluate re_search rg command"

text \<open>
  A suggestion is used when it is truthy: present and, for the field \<open>suggestion\<close>, not empty.
\<close>

fun first_suggestion :: "destructive_match list \<Rightarrow> string option" where
  "first_suggestion [] = None"
| "first_suggestion (m # ms) =
     (case dm_suggestion m of
        Some (c # cs) \<Rightarrow> Some (c # cs)
      | _ \<Rightarrow> (case dm_suggestions m of
                s # _ \<Rightarrow> Some (sg_command s)
              | [] \<Rightarrow> first_suggestion ms))"

definition get_suggestion :: "re_engine \<Rightarrow> pack_registry \<Rightarrow> string \<Rightarrow> string option" where
  "get_suggestion re_search rg command = first_suggestion (check_all_destructive re_search rg command)"

definition format_suggestion :: "pattern_suggestion \<Rightarrow> string" where
  "format_suggestion s = sg_command s @ '' '' @ em_dash @ '' '' @ sg_description s"

definition get_suggestions :: "re_engine \<Rightarrow> pack_registry \<Rightarrow> string \<Rightarrow> string list" where
  "get_suggestions re_search rg command =
     concat (map (\<lambda>m. map format_suggestion (dm_suggestions m)) (check_all_destructive re_search rg command))"

subsection \<open>Argument validators\<close>

definition validate_git_subcommand :: "string list \<Rightarrow> bool \<times> string" where
  "validate_git_subcommand parts =
     (if length parts < 2 then (True, [])
      else
        (let subcmd = parts ! 1; rest = drop 2 parts in
         if subcmd \<notin> GIT_READONLY_SUBCOMMANDS then
           (False, ''git subcommand '' @ quoted subcmd @ '' not allowed (only read-only: ''
              @ ''blame, branch, describe, diff, log, reflog, remote, rev-parse, shortlog, show, status, tag)'')
         else if subcmd = ''branch'' \<or> subcmd = ''tag'' then
           (let positional = filter (\<lambda>a. \<not> startswith a ''-'') rest;
                unknown_flags = filter (\<lambda>a. startswith a ''-'' \<and> a \<notin> GIT_INFO_ONLY_FLAGS) rest in
            if positional \<noteq> [] then
              (False, ''git '' @ subcmd @ '' with a name argument is a write operation, not allowed'')
            else if unknown_flags \<noteq> [] then
              (False, ''git '' @ subcmd @ '' flag '' @ quoted (hd unknown_flags) @ '' not recognized as read-only'')
            else (True, []))
         else if subcmd = ''remote'' then
           (case rest of
              [] \<Rightarrow> (True, [])
            | first # _ \<Rightarrow>
                if first \<in> GIT_MUTATING_REMOTE_SUBCOMMANDS then
                  (False, ''git remote '' @ first @ '' is a write operation, not allowed'')
                else if startswith first ''-'' then
                  (if first \<notin> GIT_INFO_ONLY_FLAGS then
                     (False, ''git remote flag '' @ quoted first @ '' not recognized as read-only'')
                   else (True, []))
                else if first \<in> GIT_READONLY_REMOTE_SUBCOMMANDS then (True, [])
                else (False, ''git remote '' @ quoted first @ '' not recognized as read-only''))
         else if subcmd = ''reflog'' then
           (if rest \<noteq> [] \<and> (hd rest = ''expire'' \<or> hd rest = ''delete'') then
              (False, ''git reflog '' @ hd rest @ '' is a write operation, not allowed'')
            else (True, []))
         else (True, [])))"

text \<open>\<open>_unwrap_env\<close>: the loop index of the code is the suffix still to read.\<close>

fun env_skip :: "string list \<Rightarrow> string list" where
  "env_skip [] = []"
| "env_skip (tok # rest) =
     (if tok \<in> ENV_NO_ARG_FLAGS then env_skip rest
      else if tok \<in> ENV_ONE_ARG_FLAGS then env_skip (drop 1 rest)
      else if env_assignment tok then env_skip rest
      else tok # rest)"

definition unwrap_env :: "string list \<Rightarrow> string list" where
  "unwrap_env parts = env_skip (drop 1 parts)"

definition evaluate_env_wrapped ::
    "string \<Rightarrow> string set \<Rightarrow> (string \<Rightarrow> string option \<Rightarrow> bool \<times> string) \<Rightarrow> bool \<times> string" where
  "evaluate_env_wrapped command allowed_roots evaluator =
     (case unwrap_env (get_command_parts command) of
        [] \<Rightarrow> (False, ''env with no wrapped command not allowed'')
      | wrapped_root # rest \<Rightarrow>
          if wrapped_root \<notin> allowed_roots then
            (False, ''env-wrapped command '' @ quoted wrapped_root @ '' not in allowlist'')
          else evaluator (shlex_join (wrapped_root # rest)) (Some wrapped_root))"

definition validate_docker_action ::
    "re_engine \<Rightarrow> pack_registry \<Rightarrow> string list \<Rightarrow> string set \<Rightarrow> bool \<times> string" where
  "validate_docker_action re_search rg effective allowed_actions =
     (if length effective < 2 then (False, ''Missing docker action'')
      else if effective ! 1 \<notin> allowed_actions then
        (False, ''docker action '' @ quoted (effective ! 1) @ '' not allowed'')
      else
        (case evaluate_pack re_search rg ''docker'' (py_join '' '' effective) of
           [] \<Rightarrow> (True, [])
         | m # _ \<Rightarrow>
             (False, ''Destructive docker operation blocked: '' @ dm_reason m @
                (if dm_suggestions m \<noteq> [] then
                   '' (safer: '' @ py_join ''; '' (map format_suggestion (dm_suggestions m)) @ '')''
                 else []))))"

definition validate_ops_command ::
    "re_engine \<Rightarrow> pack_registry \<Rightarrow> string list \<Rightarrow> bool \<times> string" where
  "validate_ops_command re_search rg parts =
     (if parts = [] then (False, ''Empty command'')
      else
        (case strip_sudo parts of
           [] \<Rightarrow> (False, ''Empty command after sudo'')
         | cmd # args \<Rightarrow>
             if cmd \<in> {''systemctl'', ''service''} then
               (case args of
                  [] \<Rightarrow> (False, ''Missing service action'')
                | action # _ \<Rightarrow>
                    if action \<notin> OPS_ALLOWED_SYSTEMCTL_ACTIONS then
                      (False, ''systemctl action '' @ quoted action @ '' not allowed'')
                    else (True, []))
             else if cmd \<in> {''docker'', ''docker-compose''} then
               validate_docker_action re_search rg (cmd # args) OPS_ALLOWED_DOCKER_ACTIONS
             else (True, [])))"

definition validate_docker_command ::
    "re_engine \<Rightarrow> pack_registry \<Rightarrow> string list \<Rightarrow> string set \<Rightarrow> bool \<times> string" where
  "validate_docker_command re_search rg parts allowed_actions =
     (if parts = [] then (False, ''Empty command'')
      else
        (case strip_sudo parts of
           [] \<Rightarrow> (False, ''Empty command after sudo'')
         | cmd # args \<Rightarrow>
             if cmd \<in> {''docker'', ''docker-compose''} then
               validate_docker_action re_search rg (cmd # args) allowed_actions
             else (True, [])))"

subsection \<open>Unwrapping ends\<close>

lemma env_skip_length: "length (env_skip xs) \<le> length xs"
  by (induction xs rule: env_skip.induct) (auto intro: le_SucI)

lemma unwrap_env_shorter: "unwrap_env parts \<noteq> [] \<Longrightarrow> length (unwrap_env parts) < length parts"
  using env_skip_length [of "drop 1 parts"] by (cases parts) (auto simp: unwrap_env_def)

lemma evaluate_env_wrapped_cong [fundef_cong]:
  assumes "command = command'" "allowed_roots = allowed_roots'"
    and "\<And>r rest. unwrap_env (get_command_parts command') = r # rest \<Longrightarrow>
           evaluator (shlex_join (r # rest)) (Some r) = evaluator' (shlex_join (r # rest)) (Some r)"
  shows "evaluate_env_wrapped command allowed_roots evaluator
       = evaluate_env_wrapped command' allowed_roots' evaluator'"
  using assms by (auto simp: evaluate_env_wrapped_def split: list.splits)

lemma unwrapped_parts_shorter:
  "unwrap_env (get_command_parts command) = r # rest \<Longrightarrow>
   length (get_command_parts (shlex_join (r # rest))) < length (get_command_parts command)"
  using unwrap_env_shorter [of "get_command_parts command"] by simp

subsection \<open>Profile evaluators\<close>

definition not_parsed :: "bool \<times> string" where
  "not_parsed = (False, ''Command cannot be parsed'')"

definition not_in_allowlist :: "string \<Rightarrow> string \<Rightarrow> bool \<times> string" where
  "not_in_allowlist rt profile =
     (False, ''Root command '' @ quoted rt @ '' not in '' @ profile @ '' allowlist'')"

definition dangerous_token :: "string \<Rightarrow> bool \<times> string" where
  "dangerous_token tok = (False, ''Dangerous token detected: '' @ tok)"

function evaluate_readonly :: "string \<Rightarrow> string option \<Rightarrow> bool \<times> string" where
  "evaluate_readonly command rt =
     (case rt of None \<Rightarrow> not_parsed
      | Some r \<Rightarrow>
        if r \<notin> READONLY_ROOTS then not_in_allowlist r ''readonly''
        else case contains_dangerous_token command of
          Some tok \<Rightarrow> dangerous_token tok
        | None \<Rightarrow>
            if r = ''env'' then evaluate_env_wrapped command READONLY_ROOTS evaluate_readonly
            else
              (let (ok, reason) = (if r = ''git'' then validate_git_subcommand (get_command_parts command)
                                   else (True, [])) in
               if \<not> ok then (False, reason) else (True, ''Allowed by readonly profile'')))"
  by auto
termination
  by (relation "measure (\<lambda>(command, rt). length (get_command_parts command))")
     (simp, simp only: in_measure prod.case unwrapped_parts_shorter)

function evaluate_testlint :: "string \<Rightarrow> string option \<Rightarrow> bool \<times> string" where
  "evaluate_testlint command rt =
     (case rt of None \<Rightarrow> not_parsed
      | Some r \<Rightarrow>
        if r \<notin> TESTLINT_ROOTS then not_in_allowlist r ''testlint''
        else case contains_dangerous_token command of
          Some tok \<Rightarrow> dangerous_token tok
        | None \<Rightarrow>
            if r = ''env'' then evaluate_env_wrapped command TESTLINT_ROOTS evaluate_testlint
            else
              (let (ok, reason) = (if r = ''git'' then validate_git_subcommand (get_command_parts command)
                                   else (True, [])) in
               if \<not> ok then (False, reason) else (True, ''Allowed by testlint profile'')))"
  by auto
termination
  by (relation "measure (\<lambda>(command, rt). length (get_command_parts command))")
     (simp, simp only: in_measure prod.case unwrapped_parts_shorter)

function evaluate_project_automation :: "string \<Rightarrow> string option \<Rightarrow> bool \<times> string" where
  "evaluate_project_automation command rt =
     (case rt of None \<Rightarrow> not_parsed
      | Some r \<Rightarrow>
        if r \<notin> PROJECT_AUTOMATION_ROOTS then not_in_allowlist r ''project-automation''
        else case contains_dangerous_token command of
          Some tok \<Rightarrow> dangerous_token tok
        | None \<Rightarrow>
            if r = ''env'' then
              evaluate_env_wrapped command PROJECT_AUTOMATION_ROOTS evaluate_project_automation
            else
              (let (ok, reason) = (if r = ''git'' then validate_git_subcommand (get_command_parts command)
                                   else (True, [])) in
               if \<not> ok then (False, reason) else (True, ''Allowed by project-automation profile'')))"
  by auto
termination
  by (relation "measure (\<lambda>(command, rt). length (get_command_parts command))")
     (simp, simp only: in_measure prod.case unwrapped_parts_shorter)

function evaluate_ops ::
    "re_engine \<Rightarrow> pack_registry \<Rightarrow> string \<Rightarrow> string option \<Rightarrow> bool \<times> string" where
  "evaluate_ops re_search rg command rt =
     (case rt of None \<Rightarrow> not_parsed
      | Some r \<Rightarrow>
        if r \<notin> OPS_ROOTS then not_in_allowlist r ''ops''
        else case contains_dangerous_token command of
          Some tok \<Rightarrow> dangerous_token tok
        | None \<Rightarrow>
            if r = ''env'' then evaluate_env_wrapped command OPS_ROOTS (evaluate_ops re_search rg)
            else
              (let (ok, reason) = validate_ops_command re_search rg (get_command_parts command) in
               if \<not> ok then (False, reason) else (True, ''Allowed by ops profile'')))"
  by auto
termination
  by (relation "measure (\<lambda>(re_search, rg, command, rt). length (get_command_parts command))")
     (simp, simp only: in_measure prod.case unwrapped_parts_shorter)

function evaluate_docker_admin ::
    "re_engine \<Rightarrow> pack_registry \<Rightarrow> string \<Rightarrow> string option \<Rightarrow> bool \<times> string" where
  "evaluate_docker_admin re_search rg command rt =
     (case rt of None \<Rightarrow> not_parsed
      | Some r \<Rightarrow>
        if r \<notin> DOCKER_ADMIN_ROOTS then not_in_allowlist r ''docker-admin''
        else case contains_dangerous_token command of
          Some tok \<Rightarrow> dangerous_token tok
        | None \<Rightarrow>
            if r = ''env'' then
              evaluate_env_wrapped command DOCKER_ADMIN_ROOTS (evaluate_docker_admin re_search rg)
            else
              (let (ok, reason) =
                 validate_docker_command re_search rg (get_command_parts command) DOCKER_ADMIN_ALLOWED_ACTIONS in
               if \<not> ok then (False, reason) else (True, ''Allowed by docker-admin profile'')))"
  by auto
termination
  by (relation "measure (\<lambda>(re_search, rg, command, rt). length (get_command_parts command))")
     (simp, simp only: in_measure prod.case unwrapped_parts_shorter)

declare evaluate_readonly.simps [simp del]
declare evaluate_testlint.simps [simp del]
declare evaluate_project_automation.simps [simp del]
declare evaluate_ops.simps [simp del]
declare evaluate_docker_admin.simps [simp del]

definition evaluate_default ::
    "re_engine \<Rightarrow> pack_registry \<Rightarrow> string \<Rightarrow> string option \<Rightarrow> bool \<times> string" where
  "evaluate_default re_search rg command rt =
     (case rt of None \<Rightarrow> not_parsed
      | Some r \<Rightarrow>
        (let normalized_root = normalize_root r in
         if normalized_root \<in> DENIED_ROOTS
            \<or> (\<exists>p \<in> set DENIED_ROOT_PREFIXES. startswith normalized_root p) then
           (False, ''Root command '' @ quoted r @ '' denied (defense-in-depth)'')
         else case contains_dangerous_token command of
           Some tok \<Rightarrow> dangerous_token tok
         | None \<Rightarrow>
           (case check_all_destructive re_search rg command of
              m # _ \<Rightarrow> (False, ''Destructive pattern blocked: '' @ dm_reason m)
            | [] \<Rightarrow> (True, ''Allowed by default profile''))))"

subsection \<open>The contract of an allowlist profile\<close>

text \<open>
  The argument vector a command really runs: \<open>env\<close> unwrapped until something else comes. The
  root is passed along as the code passes it.
\<close>

function env_target :: "string list \<Rightarrow> string list" where
  "env_target parts =
     (if parts \<noteq> [] \<and> hd parts = ''env'' then env_target (unwrap_env parts) else parts)"
  by auto
termination
proof (relation "measure length")
  fix parts :: "string list"
  assume "parts \<noteq> [] \<and> hd parts = ''env''"
  then show "(unwrap_env parts, parts) \<in> measure length"
    using unwrap_env_shorter [of parts] by (cases "unwrap_env parts") auto
qed simp

declare env_target.simps [simp del]

definition run_target :: "string \<Rightarrow> string \<Rightarrow> string list" where
  "run_target command r =
     (if r = ''env'' then env_target (unwrap_env (get_command_parts command))
      else get_command_parts command)"

text \<open>
  The interface of the five allowlist profiles: \<open>ev\<close> is the evaluator, \<open>roots\<close> its allowlist,
  \<open>validate\<close> the check of the argument vector for a root that is not \<open>env\<close>.
\<close>

locale profile_evaluator =
  fixes ev :: "string \<Rightarrow> string option \<Rightarrow> bool \<times> string"
    and roots :: "string set"
    and validate :: "string \<Rightarrow> string list \<Rightarrow> bool"
  assumes unparsed_refused: "\<not> fst (ev command None)"
    and allowed_iff: "r \<noteq> ''env'' \<Longrightarrow> fst (ev command (Some r)) \<longleftrightarrow>
          r \<in> roots \<and> contains_dangerous_token command = None \<and> validate r (get_command_parts command)"
    and env_iff: "fst (ev command (Some ''env'')) \<longleftrightarrow>
          ''env'' \<in> roots \<and> contains_dangerous_token command = None
          \<and> fst (evaluate_env_wrapped command roots ev)"
begin

lemma root_listed: "fst (ev command (Some r)) \<Longrightarrow> r \<in> roots"
  using allowed_iff env_iff by (cases "r = ''env''") auto

lemma no_dangerous_token: "fst (ev command (Some r)) \<Longrightarrow> contains_dangerous_token command = None"
  using allowed_iff env_iff by (cases "r = ''env''") auto

lemma validated: "fst (ev command (Some r)) \<Longrightarrow> r \<noteq> ''env'' \<Longrightarrow> validate r (get_command_parts command)"
  using allowed_iff by auto

lemma unwrapped:
  "fst (ev command (Some ''env'')) \<Longrightarrow>
   \<exists>r rest. unwrap_env (get_command_parts command) = r # rest \<and> r \<in> roots
     \<and> fst (ev (shlex_join (r # rest)) (Some r))"
  using env_iff by (auto simp: evaluate_env_wrapped_def split: list.splits if_splits)

lemma unwrapped_allowed:
  "unwrap_env (get_command_parts command) = r # rest \<Longrightarrow> ''env'' \<in> roots \<Longrightarrow>
   contains_dangerous_token command = None \<Longrightarrow> fst (ev (shlex_join (r # rest)) (Some r)) \<Longrightarrow>
   fst (ev command (Some ''env''))"
  using env_iff root_listed by (auto simp: evaluate_env_wrapped_def)

lemma target_aux:
  assumes "fst (ev (shlex_join parts) (Some (hd parts)))" "parts \<noteq> []"
  shows "\<exists>r rest. env_target parts = r # rest \<and> r \<noteq> ''env'' \<and> r \<in> roots \<and> validate r (r # rest)
    \<and> contains_dangerous_token (shlex_join (r # rest)) = None"
  using assms
proof (induction parts rule: env_target.induct)
  case (1 parts)
  show ?case
  proof (cases "hd parts = ''env''")
    case True
    then obtain r rest where u: "unwrap_env parts = r # rest" "fst (ev (shlex_join (r # rest)) (Some r))"
      using unwrapped [of "shlex_join parts"] 1(2) by auto
    then show ?thesis
      using 1(1) [of ] 1(3) True env_target.simps [of parts] by auto
  next
    case False
    then have "env_target parts = parts" by (simp add: env_target.simps)
    with False 1(2,3) show ?thesis
      using allowed_iff [OF False, of "shlex_join parts"] by (cases parts) auto
  qed
qed

text \<open>\<open>env\<close> hides nothing: what really runs is listed, validated and free of dangerous tokens.\<close>

lemma target_listed:
  assumes "fst (ev command (Some ''env''))"
  shows "\<exists>r rest. run_target command ''env'' = r # rest \<and> r \<noteq> ''env'' \<and> r \<in> roots
     \<and> validate r (r # rest) \<and> contains_dangerous_token (shlex_join (r # rest)) = None"
proof -
  obtain r rest where "unwrap_env (get_command_parts command) = r # rest"
    "fst (ev (shlex_join (r # rest)) (Some r))" using unwrapped [OF assms] by blast
  with target_aux [of "r # rest"] show ?thesis by (simp add: run_target_def)
qed

end

definition git_validate :: "string \<Rightarrow> string list \<Rightarrow> bool" where
  "git_validate r parts \<longleftrightarrow> (r = ''git'' \<longrightarrow> fst (validate_git_subcommand parts))"

definition ops_validate :: "re_engine \<Rightarrow> pack_registry \<Rightarrow> string \<Rightarrow> string list \<Rightarrow> bool" where
  "ops_validate re_search rg r parts \<longleftrightarrow> fst (validate_ops_command re_search rg parts)"

definition docker_validate :: "re_engine \<Rightarrow> pack_registry \<Rightarrow> string \<Rightarrow> string list \<Rightarrow> bool" where
  "docker_validate re_search rg r parts \<longleftrightarrow>
     fst (validate_docker_command re_search rg parts DOCKER_ADMIN_ALLOWED_ACTIONS)"

lemmas refusal_defs = not_parsed_def not_in_allowlist_def dangerous_token_def

interpretation readonly: profile_evaluator evaluate_readonly READONLY_ROOTS git_validate
  by unfold_locales
    (auto simp: evaluate_readonly.simps refusal_defs git_validate_def split: option.splits prod.splits)

interpretation testlint: profile_evaluator evaluate_testlint TESTLINT_ROOTS git_validate
  by unfold_locales
    (auto simp: evaluate_testlint.simps refusal_defs git_validate_def split: option.splits prod.splits)

interpretation project_automation:
  profile_evaluator evaluate_project_automation PROJECT_AUTOMATION_ROOTS git_validate
  by unfold_locales
    (auto simp: evaluate_project_automation.simps refusal_defs git_validate_def
      split: option.splits prod.splits)

interpretation ops: profile_evaluator "evaluate_ops re_search rg" OPS_ROOTS "ops_validate re_search rg"
  for re_search rg
  by unfold_locales
    (auto simp: evaluate_ops.simps refusal_defs ops_validate_def split: option.splits prod.splits)

interpretation docker_admin:
  profile_evaluator "evaluate_docker_admin re_search rg" DOCKER_ADMIN_ROOTS "docker_validate re_search rg"
  for re_search rg
  by unfold_locales
    (auto simp: evaluate_docker_admin.simps refusal_defs docker_validate_def
      split: option.splits prod.splits)

subsection \<open>The order of the profiles\<close>

text \<open>
  A profile that lists more roots and validates no stricter allows more. The root of a command
  is the stripped first word, or the second after \<open>sudo\<close>.
\<close>

fun root_matches :: "string \<Rightarrow> string list \<Rightarrow> bool" where
  "root_matches r [] \<longleftrightarrow> False"
| "root_matches r (p # ps) \<longleftrightarrow> r = strip (if strip p = ''sudo'' \<and> ps \<noteq> [] then hd ps else p)"

lemma command_root_matches:
  "get_command_root command = Some r \<Longrightarrow> root_matches r (get_command_parts command)"
  by (auto simp: get_command_root_def get_command_parts_def Let_def split: option.splits list.splits if_splits)

locale profile_inclusion =
  lo: profile_evaluator ev1 roots1 validate1 + hi: profile_evaluator ev2 roots2 validate2
  for ev1 roots1 validate1 ev2 roots2 validate2 +
  assumes roots_sub: "roots1 \<subseteq> roots2"
    and root_plain: "r \<in> roots1 \<Longrightarrow> strip r = r \<and> r \<noteq> ''sudo''"
    and validate_weaker: "r \<in> roots1 \<Longrightarrow> r \<noteq> ''env'' \<Longrightarrow> root_matches r parts \<Longrightarrow>
          validate1 r parts \<Longrightarrow> validate2 r parts"
begin

lemma included:
  assumes "fst (ev1 command (Some r))" "root_matches r (get_command_parts command)"
  shows "fst (ev2 command (Some r))"
  using assms
proof (induction "length (get_command_parts command)" arbitrary: command r rule: less_induct)
  case less
  note tok = lo.no_dangerous_token [OF less.prems(1)] and listed = lo.root_listed [OF less.prems(1)]
  show ?case
  proof (cases "r = ''env''")
    case False
    then show ?thesis
      using tok listed roots_sub lo.validated [OF less.prems(1)] validate_weaker less.prems(2)
      by (auto simp: hi.allowed_iff)
  next
    case True
    then obtain r' rest where u: "unwrap_env (get_command_parts command) = r' # rest" "r' \<in> roots1"
      and a: "fst (ev1 (shlex_join (r' # rest)) (Some r'))"
      using lo.unwrapped less.prems(1) by blast
    from root_plain [OF u(2)] have "root_matches r' (get_command_parts (shlex_join (r' # rest)))"
      by simp
    with less.hyps [OF unwrapped_parts_shorter [OF u(1)] a]
    have "fst (ev2 (shlex_join (r' # rest)) (Some r'))" by blast
    then show ?thesis using hi.unwrapped_allowed [OF u(1)] True tok listed roots_sub by blast
  qed
qed

lemma root_included:
  "get_command_root command = Some r \<Longrightarrow> fst (ev1 command (Some r)) \<Longrightarrow> fst (ev2 command (Some r))"
  by (blast intro: included command_root_matches)

end

lemmas root_set_defs = READONLY_ROOTS_def TESTLINT_ROOTS_def PROJECT_AUTOMATION_ROOTS_def OPS_ROOTS_def
  DOCKER_ADMIN_ROOTS_def

lemma ops_roots_plain: "r \<in> OPS_ROOTS \<Longrightarrow> strip r = r \<and> r \<noteq> ''sudo''"
  by (auto simp: root_set_defs strip_def lstrip_def rstrip_def py_space_def)

lemma roots_chain:
  "READONLY_ROOTS \<subseteq> TESTLINT_ROOTS" "TESTLINT_ROOTS \<subseteq> PROJECT_AUTOMATION_ROOTS"
  "PROJECT_AUTOMATION_ROOTS \<subseteq> OPS_ROOTS" "OPS_ROOTS \<subseteq> DOCKER_ADMIN_ROOTS"
  by (auto simp: TESTLINT_ROOTS_def PROJECT_AUTOMATION_ROOTS_def OPS_ROOTS_def DOCKER_ADMIN_ROOTS_def)

text \<open>No root of the project profile is checked by the ops validator.\<close>

lemma service_roots:
  assumes "cmd \<in> {''systemctl'', ''service'', ''docker'', ''docker-compose''}"
  shows "strip cmd = cmd" "cmd \<noteq> ''sudo''" "cmd \<notin> PROJECT_AUTOMATION_ROOTS"
  using assms by (auto simp: root_set_defs strip_def lstrip_def rstrip_def py_space_def)

lemma ops_validate_other:
  assumes "r \<in> PROJECT_AUTOMATION_ROOTS" "root_matches r parts"
  shows "ops_validate re_search rg r parts"
proof -
  obtain p ps where parts: "parts = p # ps" using assms(2) by (cases parts) auto
  have sudo: "strip ''sudo'' = ''sudo''"
    by (simp add: strip_def lstrip_def rstrip_def py_space_def)
  have "r \<noteq> ''sudo''" using assms(1) roots_chain ops_roots_plain by blast
  then have "strip_sudo parts \<noteq> []"
    using assms(2) parts sudo by (cases ps) (auto simp: strip_sudo_def split: if_splits)
  then obtain cmd args where s: "strip_sudo parts = cmd # args" by (cases "strip_sudo parts") auto
  have "cmd \<notin> {''systemctl'', ''service'', ''docker'', ''docker-compose''}"
  proof
    assume c: "cmd \<in> {''systemctl'', ''service'', ''docker'', ''docker-compose''}"
    have "r = cmd"
      using assms(2) parts s sudo service_roots(1,2) [OF c]
      by (auto simp: strip_sudo_def split: if_splits)
    with service_roots(3) [OF c] assms(1) show False by simp
  qed
  with s parts show ?thesis by (simp add: ops_validate_def validate_ops_command_def)
qed

lemma docker_action_weaker:
  "fst (validate_docker_action re_search rg effective A) \<Longrightarrow> A \<subseteq> B \<Longrightarrow>
   fst (validate_docker_action re_search rg effective B)"
  by (auto simp: validate_docker_action_def split: if_splits list.splits)

lemma ops_validate_docker:
  assumes "ops_validate re_search rg r parts"
  shows "docker_validate re_search rg r parts"
proof (cases "strip_sudo parts")
  case Nil
  with assms show ?thesis by (simp add: ops_validate_def validate_ops_command_def split: if_splits)
next
  case (Cons cmd args)
  have sub: "OPS_ALLOWED_DOCKER_ACTIONS \<subseteq> DOCKER_ADMIN_ALLOWED_ACTIONS"
    unfolding DOCKER_ADMIN_ALLOWED_ACTIONS_def by (rule Un_upper1)
  show ?thesis
  proof (cases "cmd \<in> {''docker'', ''docker-compose''}")
    case True
    then have "cmd \<notin> {''systemctl'', ''service''}" by auto
    with assms Cons True have "fst (validate_docker_action re_search rg (cmd # args) OPS_ALLOWED_DOCKER_ACTIONS)"
      unfolding ops_validate_def validate_ops_command_def by (simp split: if_splits)
    from docker_action_weaker [OF this sub] assms Cons True show ?thesis
      unfolding docker_validate_def validate_docker_command_def
      by (auto simp: strip_sudo_def)
  next
    case False
    with Cons assms show ?thesis
      unfolding docker_validate_def validate_docker_command_def
      by (auto simp: ops_validate_def validate_ops_command_def)
  qed
qed

interpretation readonly_testlint: profile_inclusion
  evaluate_readonly READONLY_ROOTS git_validate evaluate_testlint TESTLINT_ROOTS git_validate
  using roots_chain ops_roots_plain by unfold_locales blast+

interpretation testlint_project: profile_inclusion
  evaluate_testlint TESTLINT_ROOTS git_validate
  evaluate_project_automation PROJECT_AUTOMATION_ROOTS git_validate
  using roots_chain ops_roots_plain by unfold_locales blast+

interpretation project_ops: profile_inclusion
  evaluate_project_automation PROJECT_AUTOMATION_ROOTS git_validate
  "evaluate_ops re_search rg" OPS_ROOTS "ops_validate re_search rg"
  for re_search rg
  using roots_chain ops_roots_plain ops_validate_other by unfold_locales blast+

interpretation ops_docker: profile_inclusion
  "evaluate_ops re_search rg" OPS_ROOTS "ops_validate re_search rg"
  "evaluate_docker_admin re_search rg" DOCKER_ADMIN_ROOTS "docker_validate re_search rg"
  for re_search rg
  using roots_chain ops_roots_plain ops_validate_docker by unfold_locales blast+

text \<open>C7: The allowlist profiles form a chain: whatever readonly allows, testlint allows, and so on to
  project-automation, ops and docker-admin, whatever the packs and the command.\<close>

theorem profile_chain:
  assumes "get_command_root command = Some r"
  shows "(fst (evaluate_readonly command (Some r)) \<longrightarrow> fst (evaluate_testlint command (Some r)))
    \<and> (fst (evaluate_testlint command (Some r)) \<longrightarrow> fst (evaluate_project_automation command (Some r)))
    \<and> (fst (evaluate_project_automation command (Some r)) \<longrightarrow> fst (evaluate_ops re_search rg command (Some r)))
    \<and> (fst (evaluate_ops re_search rg command (Some r)) \<longrightarrow> fst (evaluate_docker_admin re_search rg command (Some r)))"
  using readonly_testlint.root_included [OF assms] testlint_project.root_included [OF assms]
    project_ops.root_included [OF assms] ops_docker.root_included [OF assms] by blast

lemma profile_chain_witness:
  "fst (evaluate_readonly ''git status'' (Some ''git'')) \<and> fst (evaluate_testlint ''git status'' (Some ''git''))"
proof -
  have r: "get_command_root ''git status'' = Some ''git''" by code_simp
  have "fst (evaluate_readonly ''git status'' (Some ''git''))" by code_simp
  then show ?thesis using profile_chain [OF r] by blast
qed

text \<open>
  \<open>env -S\<close> splits its argument into the command to run; the unwrapping skips it as an option's
  value and validates the word behind it instead.
\<close>

lemma env_split_string_allowed:
  "evaluate_readonly ''env -S reboot ls'' (Some ''env'') = (True, ''Allowed by readonly profile'')"
  "unwrap_env (get_command_parts ''env -S reboot ls'') = [''ls'']"
  by code_simp+

end
