(* ===== verification/AstMatcher.thy ===== *)
theory AstMatcher
  imports PolicyTypes Heredoc
begin

text \<open>
  \<open>app/ast_matcher.py\<close>: dangerous calls in an embedded script. Python scripts are matched on
  their syntax tree, other languages by regular expressions.

  The parameter \<open>ast_walk\<close> stands for \<open>ast.parse\<close> followed by \<open>ast.walk\<close>: \<open>None\<close> when the
  script is a \<open>SyntaxError\<close>, else the nodes in the order of the walk, of which the code looks
  at the imports and the calls. \<open>py_expr\<close> has the expression forms the code distinguishes.
\<close>

datatype match_severity = MS_CRITICAL | MS_HIGH | MS_MEDIUM | MS_LOW

text \<open>\<open>Severity(ast_match.severity.value)\<close>: the two enumerations have the same values.\<close>

fun to_severity :: "match_severity \<Rightarrow> severity" where
  "to_severity MS_CRITICAL = SEV_CRITICAL"
| "to_severity MS_HIGH = SEV_HIGH"
| "to_severity MS_MEDIUM = SEV_MEDIUM"
| "to_severity MS_LOW = SEV_LOW"

record ast_match =
  am_rule_id :: string
  am_reason :: string
  am_severity :: match_severity
  am_lineno :: nat
  am_col_offset :: nat
  am_matched_text :: string
  am_suggestion :: "string option"

record pattern_def =
  pd_rule_id :: string
  pd_reason :: string
  pd_severity :: match_severity
  pd_suggestion :: "string option"

definition pat :: "string \<Rightarrow> string \<Rightarrow> match_severity \<Rightarrow> string option \<Rightarrow> pattern_def" where
  "pat i r s g = \<lparr>pd_rule_id = i, pd_reason = r, pd_severity = s, pd_suggestion = g\<rparr>"

definition PYTHON_MODULE_FUNC :: "((string option \<times> string) \<times> pattern_def) list" where
  "PYTHON_MODULE_FUNC =
    (let rmtree = pat ''ast.python.shutil_rmtree'' ''shutil.rmtree() recursively deletes directories''
                    MS_CRITICAL (Some ''Use explicit path validation'');
         rem = pat ''ast.python.os_remove'' ''os.remove() deletes files'' MS_HIGH None;
         unlink = pat ''ast.python.os_unlink'' ''os.unlink() deletes files'' MS_HIGH None;
         rmdir = pat ''ast.python.os_rmdir'' ''os.rmdir() deletes directories'' MS_HIGH None;
         system = pat ''ast.python.os_system'' ''os.system() executes shell commands'' MS_MEDIUM
                    (Some ''Use subprocess with explicit args'');
         popen = pat ''ast.python.os_popen'' ''os.popen() executes shell commands'' MS_MEDIUM
                    (Some ''Use subprocess instead'');
         run = pat ''ast.python.subprocess_run'' ''subprocess.run() executes shell commands'' MS_MEDIUM None;
         call = pat ''ast.python.subprocess_call'' ''subprocess.call() executes shell commands'' MS_MEDIUM None;
         Popen = pat ''ast.python.subprocess_popen'' ''subprocess.Popen() spawns processes'' MS_MEDIUM None
     in [((None, ''rmtree''), rmtree),
         ((Some ''os'', ''remove''), rem), ((None, ''remove''), rem),
         ((Some ''os'', ''unlink''), unlink), ((None, ''unlink''), unlink),
         ((Some ''os'', ''rmdir''), rmdir), ((None, ''rmdir''), rmdir),
         ((Some ''shutil'', ''rmtree''), rmtree),
         ((Some ''os'', ''system''), system), ((None, ''system''), system),
         ((Some ''os'', ''popen''), popen), ((None, ''popen''), popen),
         ((Some ''subprocess'', ''run''), run), ((None, ''run''), run),
         ((Some ''subprocess'', ''call''), call), ((None, ''call''), call),
         ((Some ''subprocess'', ''Popen''), Popen), ((None, ''Popen''), Popen)])"

definition SHELL_INTERPRETERS :: "string set" where
  "SHELL_INTERPRETERS =
     {''sh'', ''bash'', ''dash'', ''zsh'', ''/bin/sh'', ''/bin/bash'', ''/bin/dash'', ''/bin/zsh''}"

definition NESTED_SCAN_BINARIES :: "string set" where
  "NESTED_SCAN_BINARIES =
     {''rm'', ''mv'', ''dd'', ''mkfs'', ''wipefs'', ''fdisk'', ''sfdisk'', ''parted'',
      ''truncate'', ''pkill'', ''killall'', ''git'', ''docker''}"

subsection \<open>Script patterns\<close>

definition call_rx :: "string \<Rightarrow> rx" where
  "call_rx name = rcats [RWordB, RLit name, rstar rspace, RLit ''('']"

definition child_exec_rx :: rx where
  "child_exec_rx = rcats [RWordB, RLit ''child_process.exec'', ropt (RLit ''Sync''), rstar rspace, RLit ''('']"

definition bash_patterns :: "(rflags \<times> rx \<times> pattern_def) list" where
  "bash_patterns =
    [(no_flags, rcats [RWordB, RLit ''rm'', rplus rspace, RLit ''-'', RSet False (chars ''rR''), RLit ''f'', RWordB],
      pat ''ast.bash.rm_rf'' ''rm -rf recursively deletes files'' MS_CRITICAL None),
     (ignorecase, rcats [RWordB, RLit ''drop'', rplus rspace,
        RGrp 1 (ralts [RLit ''database'', RLit ''table'', RLit ''schema'']), rspace],
      pat ''ast.bash.psql_drop'' ''SQL DROP statement destroys data'' MS_HIGH None),
     (no_flags, rcats [RWordB, RLit ''dd'', rplus rspace, RLit ''if=''],
      pat ''ast.bash.dd_destructive'' ''dd with if= can overwrite data'' MS_HIGH None),
     (no_flags, rcats [RWordB, RLit ''mkfs.''],
      pat ''ast.bash.mkfs'' ''mkfs formats filesystems'' MS_CRITICAL None)]"

definition javascript_patterns :: "(rflags \<times> rx \<times> pattern_def) list" where
  "javascript_patterns =
    [(no_flags, call_rx ''fs.rmSync'',
      pat ''ast.javascript.fs_rmsync'' ''fs.rmSync() deletes files'' MS_MEDIUM None),
     (no_flags, call_rx ''fs.rmdirSync'',
      pat ''ast.javascript.fs_rmdirsync'' ''fs.rmdirSync() deletes directories'' MS_MEDIUM None),
     (no_flags, child_exec_rx,
      pat ''ast.javascript.execsync'' ''child_process.exec() executes shell commands'' MS_MEDIUM None),
     (no_flags, call_rx ''child_process.spawnSync'',
      pat ''ast.javascript.spawnsync'' ''child_process.spawnSync() executes shell commands'' MS_MEDIUM None)]"

definition ruby_patterns :: "(rflags \<times> rx \<times> pattern_def) list" where
  "ruby_patterns =
    [(no_flags, call_rx ''FileUtils.rm_rf'',
      pat ''ast.ruby.fileutils_rm_rf'' ''FileUtils.rm_rf() deletes directories'' MS_MEDIUM None),
     (no_flags, call_rx ''File.delete'',
      pat ''ast.ruby.file_delete'' ''File.delete() deletes files'' MS_MEDIUM None),
     (no_flags, call_rx ''FileUtils.remove_dir'',
      pat ''ast.ruby.fileutils_remove_dir'' ''FileUtils.remove_dir() deletes directories'' MS_MEDIUM None)]"

definition typescript_patterns :: "(rflags \<times> rx \<times> pattern_def) list" where
  "typescript_patterns =
    [(no_flags, call_rx ''fs.rmSync'',
      pat ''ast.typescript.fs_rmsync'' ''fs.rmSync() deletes files'' MS_MEDIUM None),
     (no_flags, call_rx ''Deno.remove'',
      pat ''ast.typescript.deno_remove'' ''Deno.remove() deletes files'' MS_MEDIUM None),
     (no_flags, child_exec_rx,
      pat ''ast.typescript.execsync'' ''child_process.exec() executes shell commands'' MS_MEDIUM None)]"

definition SCRIPT_PATTERNS :: "(string \<times> (rflags \<times> rx \<times> pattern_def) list) list" where
  "SCRIPT_PATTERNS = [(''bash'', bash_patterns), (''javascript'', javascript_patterns),
     (''ruby'', ruby_patterns), (''typescript'', typescript_patterns)]"

subsection \<open>Python syntax trees\<close>

datatype py_expr =
  EName string | EAttr py_expr string | ECallExpr | EStr string | EList "py_expr list" | EOther

record py_call =
  pc_func :: py_expr
  pc_args :: "py_expr list"
  pc_lineno :: nat
  pc_col :: nat

datatype walk_node =
    WImport "(string \<times> string option) list"
  | WImportFrom "string option" "(string \<times> string option) list"
  | WCall py_call
  | WOther

type_synonym ast_walk = "string \<Rightarrow> walk_node list option"

text \<open>\<open>alias.asname or alias.name\<close>: an empty name is no name.\<close>

definition alias_name :: "string \<times> string option \<Rightarrow> string" where
  "alias_name a = (case snd a of Some (c # cs) \<Rightarrow> c # cs | _ \<Rightarrow> fst a)"

fun collect_import :: "walk_node \<Rightarrow> (string \<times> string) list \<Rightarrow> (string \<times> string) list" where
  "collect_import (WImport names) d = fold (\<lambda>a. AList.update (alias_name a) (fst a)) names d"
| "collect_import (WImportFrom m names) d =
     (case m of
        Some (c # cs) \<Rightarrow> fold (\<lambda>a. AList.update (alias_name a) ((c # cs) @ ''.'' @ fst a)) names d
      | _ \<Rightarrow> d)"
| "collect_import (WCall c) d = d"
| "collect_import WOther d = d"

definition collect_imports :: "walk_node list \<Rightarrow> (string \<times> string) list" where
  "collect_imports nodes = fold collect_import nodes []"

definition base_name :: "string \<Rightarrow> string" where
  "base_name s = (case rsplit_char CHR ''/'' s of None \<Rightarrow> s | Some (d, b) \<Rightarrow> b)"

definition make_ast_match :: "py_call \<Rightarrow> pattern_def \<Rightarrow> string \<Rightarrow> ast_match" where
  "make_ast_match call pattern code =
     (let ls = splitlines code;
          i = int (pc_lineno call) - 1;
          matched = (if i < int (length ls)
                     then strip (if i = -1 then List.last ls else ls ! nat i)
                     else take 60 (drop (pc_col call) code))
      in \<lparr>am_rule_id = pd_rule_id pattern, am_reason = pd_reason pattern,
          am_severity = pd_severity pattern, am_lineno = pc_lineno call,
          am_col_offset = pc_col call, am_matched_text = matched,
          am_suggestion = pd_suggestion pattern\<rparr>)"

subsection \<open>Nested commands of subprocess calls\<close>

fun string_argv :: "py_expr list \<Rightarrow> string list option" where
  "string_argv [] = Some []"
| "string_argv (EStr s # es) = map_option (\<lambda>ss. s # ss) (string_argv es)"
| "string_argv (_ # es) = None"

definition nested_commands :: "py_call \<Rightarrow> string list" where
  "nested_commands call =
     (case pc_args call of
        EStr s # _ \<Rightarrow> [s]
      | EList es # _ \<Rightarrow>
          (case string_argv es of
             None \<Rightarrow> []
           | Some [] \<Rightarrow> []
           | Some (cmd # args) \<Rightarrow>
               if cmd \<in> SHELL_INTERPRETERS \<and> 2 \<le> length args \<and> hd args = ''-c'' then
                 [py_join '' '' (tl args)]
               else if base_name cmd \<in> NESTED_SCAN_BINARIES then [py_join '' '' (cmd # args)]
               else [])
      | _ \<Rightarrow> [])"

definition nested_ast_match :: "py_call \<Rightarrow> pattern_def \<Rightarrow> string \<Rightarrow> rmatch \<Rightarrow> ast_match" where
  "nested_ast_match call pattern cmd m =
     \<lparr>am_rule_id = ''ast.python.nested.'' @ pd_rule_id pattern,
      am_reason = pd_reason pattern @ '' (via subprocess argv)'',
      am_severity = pd_severity pattern, am_lineno = pc_lineno call, am_col_offset = pc_col call,
      am_matched_text = strip (matched_text cmd m), am_suggestion = pd_suggestion pattern\<rparr>"

definition subprocess_nested_matches :: "py_call \<Rightarrow> ast_match list" where
  "subprocess_nested_matches call =
     concat (map (\<lambda>cmd. concat (map (\<lambda>(fl, r, pattern).
         map (nested_ast_match call pattern cmd) (rx_finditer fl r cmd)) bash_patterns))
       (nested_commands call))"

text \<open>
  The rule a call falls under. Each clause is one \<open>if\<close> block of the loop body; a block that finds
  a pattern ends with \<open>continue\<close>, one that finds none falls through to the next.
\<close>

definition imported_rule :: "(string \<times> string) list \<Rightarrow> string \<Rightarrow> pattern_def option" where
  "imported_rule imports func_name =
     (case map_of imports func_name of
        None \<Rightarrow> None
      | Some path \<Rightarrow>
          (case rsplit_char CHR ''.'' path of
             None \<Rightarrow> None
           | Some (m, name) \<Rightarrow>
               (case map_of PYTHON_MODULE_FUNC (Some m, name) of
                  Some p \<Rightarrow> Some p
                | None \<Rightarrow> map_of PYTHON_MODULE_FUNC (None, name))))"

definition call_rule :: "(string \<times> string) list \<Rightarrow> py_expr \<Rightarrow> pattern_def option" where
  "call_rule imports func =
     (case func of
        EAttr (EName module_name) func_name \<Rightarrow> map_of PYTHON_MODULE_FUNC (Some module_name, func_name)
      | EName func_name \<Rightarrow>
          (case map_of PYTHON_MODULE_FUNC (None, func_name) of
             Some p \<Rightarrow> Some p
           | None \<Rightarrow> imported_rule imports func_name)
      | EAttr ECallExpr method_name \<Rightarrow> map_of PYTHON_MODULE_FUNC (None, method_name)
      | _ \<Rightarrow> None)"

fun called_name :: "py_expr \<Rightarrow> string option" where
  "called_name (EAttr _ n) = Some n"
| "called_name (EName n) = Some n"
| "called_name _ = None"

definition call_matches :: "(string \<times> string) list \<Rightarrow> string \<Rightarrow> py_call \<Rightarrow> ast_match list" where
  "call_matches imports code call =
     (if called_name (pc_func call) \<in> {Some ''run'', Some ''call'', Some ''Popen''}
      then subprocess_nested_matches call else [])
     @ (case call_rule imports (pc_func call) of
          None \<Rightarrow> [] | Some p \<Rightarrow> [make_ast_match call p code])"

fun node_matches :: "(string \<times> string) list \<Rightarrow> string \<Rightarrow> walk_node \<Rightarrow> ast_match list" where
  "node_matches imports code (WCall c) = call_matches imports code c"
| "node_matches imports code _ = []"

definition check_ast_python :: "ast_walk \<Rightarrow> string \<Rightarrow> ast_match list" where
  "check_ast_python walk code =
     (case walk code of
        None \<Rightarrow> []
      | Some nodes \<Rightarrow> concat (map (node_matches (collect_imports nodes) code) nodes))"

definition check_ast :: "ast_walk \<Rightarrow> string \<Rightarrow> string \<Rightarrow> ast_match list" where
  "check_ast walk code language =
     (if language = ''python'' then check_ast_python walk code
      else
        (let lang_patterns = (case map_of SCRIPT_PATTERNS language of None \<Rightarrow> [] | Some ps \<Rightarrow> ps) in
         concat (map (\<lambda>(fl, r, pattern).
           map (\<lambda>m. \<lparr>am_rule_id = pd_rule_id pattern, am_reason = pd_reason pattern,
                      am_severity = pd_severity pattern,
                      am_lineno = count_list (take (m_start m) code) newline + 1,
                      am_col_offset = m_start m, am_matched_text = strip (matched_text code m),
                      am_suggestion = pd_suggestion pattern\<rparr>)
             (rx_finditer fl r code)) lang_patterns)))"

subsection \<open>Lemmas\<close>

text \<open>A call that falls under a rule is reported, with the rule's identifier and its place.\<close>

lemma check_ast_python_reports:
  assumes "walk code = Some nodes" "WCall call \<in> set nodes"
    "call_rule (collect_imports nodes) (pc_func call) = Some p"
  shows "\<exists>m \<in> set (check_ast_python walk code). am_rule_id m = pd_rule_id p
    \<and> am_severity m = pd_severity p \<and> am_lineno m = pc_lineno call"
proof -
  have "make_ast_match call p code \<in> set (check_ast_python walk code)"
    using assms by (force simp: check_ast_python_def call_matches_def)
  then show ?thesis by (rule bexI [rotated]) (simp add: make_ast_match_def Let_def)
qed

lemma alias_rule:
  assumes "map_of imports f = Some (m @ CHR ''.'' # name)" "CHR ''.'' \<notin> set name"
    "map_of PYTHON_MODULE_FUNC (None, f) = None"
    "map_of PYTHON_MODULE_FUNC (Some m, name) = Some p"
  shows "call_rule imports (EName f) = Some p"
proof -
  have "rsplit_char CHR ''.'' (m @ CHR ''.'' # name) = Some (m, name)"
    using assms(2) by (simp add: rsplit_char_parts)
  with assms show ?thesis by (simp add: call_rule_def imported_rule_def)
qed

text \<open>C12: A call of a listed function is reported wherever it stands in a script that parses, also
  through an import alias: when a name is bound by the imports to \<open>module.function\<close> and the
  pair is listed, a call of the name is reported with the pair's rule, severity and line.\<close>

theorem aliased_call_reported:
  assumes "walk code = Some nodes" "WCall call \<in> set nodes" "pc_func call = EName f"
    and "map_of (collect_imports nodes) f = Some (m @ CHR ''.'' # name)" "CHR ''.'' \<notin> set name"
    and "map_of PYTHON_MODULE_FUNC (None, f) = None" "map_of PYTHON_MODULE_FUNC (Some m, name) = Some p"
  shows "\<exists>a \<in> set (check_ast walk code ''python''). am_rule_id a = pd_rule_id p
    \<and> am_severity a = pd_severity p \<and> am_lineno a = pc_lineno call"
proof -
  have "call_rule (collect_imports nodes) (pc_func call) = Some p"
    using alias_rule [OF assms(4-7)] assms(3) by simp
  from check_ast_python_reports [of walk, OF assms(1,2) this] show ?thesis
    by (simp add: check_ast_def)
qed

lemma aliased_call_reported_witness:
  "\<exists>a \<in> set (check_ast (\<lambda>code. Some [WImportFrom (Some ''shutil'') [(''rmtree'', Some ''zap'')],
       WCall \<lparr>pc_func = EName ''zap'', pc_args = [EStr ''/tmp/x''], pc_lineno = 2, pc_col = 0\<rparr>])
     ''from shutil import rmtree as zap'' ''python''). am_rule_id a = ''ast.python.shutil_rmtree''"
proof -
  let ?call = "\<lparr>pc_func = EName ''zap'', pc_args = [EStr ''/tmp/x''], pc_lineno = 2, pc_col = 0\<rparr>"
  let ?nodes = "[WImportFrom (Some ''shutil'') [(''rmtree'', Some ''zap'')], WCall ?call]"
  let ?p = "pat ''ast.python.shutil_rmtree'' ''shutil.rmtree() recursively deletes directories''
     MS_CRITICAL (Some ''Use explicit path validation'')"
  have "\<exists>a \<in> set (check_ast (\<lambda>code. Some ?nodes) ''from shutil import rmtree as zap'' ''python'').
      am_rule_id a = pd_rule_id ?p \<and> am_severity a = pd_severity ?p \<and> am_lineno a = pc_lineno ?call"
    by (rule aliased_call_reported [of _ _ ?nodes ?call "''zap''" "''shutil''" "''rmtree''"])
      (simp_all add: collect_imports_def alias_name_def PYTHON_MODULE_FUNC_def Let_def)
  then show ?thesis by (auto simp: pat_def)
qed

end
