(* ===== verification/ScanCommand.thy ===== *)
theory ScanCommand
  imports CommandPolicy AstMatcher
begin

text \<open>
  \<open>scan_command\<close> of \<open>app/command_policy.py\<close>: the informational scan of a command and of the
  scripts nested in it against all packs and, for Python scripts, the AST rules. It is used by
  the \<open>rule_id\<close> entries of the allowlist.
\<close>

fun suggestion_kind_value :: "suggestion_kind \<Rightarrow> string" where
  "suggestion_kind_value PREVIEW_FIRST = ''preview_first''"
| "suggestion_kind_value SAFER_ALTERNATIVE = ''safer_alternative''"
| "suggestion_kind_value WORKFLOW_FIX = ''workflow_fix''"
| "suggestion_kind_value DOCUMENTATION = ''documentation''"
| "suggestion_kind_value ALLOW_SAFELY = ''allow_safely''"

definition suggestion_dict :: "pattern_suggestion \<Rightarrow> (string \<times> string) list" where
  "suggestion_dict s = [(''command'', sg_command s), (''description'', sg_description s),
     (''kind'', suggestion_kind_value (sg_kind s))]"

record scan_finding =
  sf_pattern_name :: string
  sf_severity :: string
  sf_reason :: string
  sf_suggestion :: "string option"
  sf_suggestions :: "(string \<times> string) list list"
  sf_confidence :: rat

record scan_report =
  sr_findings :: "scan_finding list"
  sr_total :: nat

definition ast_to_match :: "ast_match \<Rightarrow> destructive_match" where
  "ast_to_match a =
     \<lparr>dm_pattern_name = am_rule_id a, dm_reason = am_reason a,
      dm_severity = to_severity (am_severity a), dm_suggestion = am_suggestion a,
      dm_suggestions = [], dm_confidence = 1/2\<rparr>"

definition to_finding :: "destructive_match \<Rightarrow> scan_finding" where
  "to_finding m =
     \<lparr>sf_pattern_name = dm_pattern_name m, sf_severity = severity_value (dm_severity m),
      sf_reason = dm_reason m, sf_suggestion = dm_suggestion m,
      sf_suggestions = map suggestion_dict (dm_suggestions m), sf_confidence = dm_confidence m\<rparr>"

text \<open>The set \<open>seen_patterns\<close> is shared by the two passes: one deduplication of both.\<close>

definition scan_matches ::
    "re_engine \<Rightarrow> ast_walk \<Rightarrow> pack_registry \<Rightarrow> string \<Rightarrow> destructive_match list" where
  "scan_matches re_search walk rg command =
     dedup_by dm_pattern_name []
       (concat (map (check_all_destructive re_search rg) (normalize_scan_candidates command))
        @ concat (map (\<lambda>script. map ast_to_match (check_ast walk script ''python''))
                      (extract_python_scripts command)))"

definition scan_command ::
    "re_engine \<Rightarrow> ast_walk \<Rightarrow> pack_registry \<Rightarrow> string \<Rightarrow> scan_report" where
  "scan_command re_search walk rg command =
     (let findings = map to_finding (scan_matches re_search walk rg command)
      in \<lparr>sr_findings = findings, sr_total = length findings\<rparr>)"

lemma scan_names_distinct:
  "distinct (map sf_pattern_name (sr_findings (scan_command re_search walk rg command)))"
  using dedup_by_distinct [of dm_pattern_name "[]"]
  by (simp add: scan_command_def scan_matches_def to_finding_def comp_def)

lemma scan_names:
  "sf_pattern_name ` set (sr_findings (scan_command re_search walk rg command)) =
     (\<Union>c \<in> set (normalize_scan_candidates command).
        dm_pattern_name ` set (check_all_destructive re_search rg c))
     \<union> (\<Union>script \<in> set (extract_python_scripts command).
        am_rule_id ` set (check_ast walk script ''python''))"
proof -
  have "sf_pattern_name ` set (sr_findings (scan_command re_search walk rg command))
      = set (map dm_pattern_name (scan_matches re_search walk rg command)) \<union> set []"
    by (auto simp: scan_command_def to_finding_def image_iff)
  also have "\<dots> = set (map dm_pattern_name
       (concat (map (check_all_destructive re_search rg) (normalize_scan_candidates command))
        @ concat (map (\<lambda>script. map ast_to_match (check_ast walk script ''python''))
                      (extract_python_scripts command)))) \<union> set []"
    unfolding scan_matches_def by (rule dedup_by_keys)
  finally show ?thesis by (auto simp: ast_to_match_def image_iff) blast+
qed

lemma fold_add_keeps: "x \<in> set cs \<Longrightarrow> x \<in> set (fold (\<lambda>ec cs. add_candidate (f ec) (add_candidate (g ec) cs)) ecs cs)"
  by (induction ecs arbitrary: cs) (auto simp: add_candidate_def)

lemma fold_fold_keeps:
  "x \<in> set cs \<Longrightarrow> x \<in> set (fold (\<lambda>base. fold (\<lambda>ec cs. add_candidate (f ec) (add_candidate (g ec) cs)) (h base)) bases cs)"
  by (induction bases arbitrary: cs) (auto intro: fold_add_keeps)

text \<open>The command itself, stripped, is always scanned.\<close>

lemma command_is_candidate: "strip command \<noteq> [] \<Longrightarrow> strip command \<in> set (normalize_scan_candidates command)"
  unfolding normalize_scan_candidates_def Let_def
  by (rule fold_fold_keeps) (auto simp: add_candidate_def)

text \<open>The scan report names each pattern once, counts its findings, and misses nothing the packs find
  in the command itself: every pattern that matches the stripped command is reported.\<close>

theorem scan_report_complete:
  assumes "strip command \<noteq> []"
  shows "distinct (map sf_pattern_name (sr_findings (scan_command re_search walk rg command)))
    \<and> sr_total (scan_command re_search walk rg command)
        = length (sr_findings (scan_command re_search walk rg command))
    \<and> dm_pattern_name ` set (evaluate re_search rg (strip command))
        \<subseteq> sf_pattern_name ` set (sr_findings (scan_command re_search walk rg command))"
  using scan_names_distinct command_is_candidate [OF assms]
  unfolding scan_names by (auto simp: scan_command_def Let_def check_all_destructive_def)

end
