(* ===== verification/Allowlist.thy ===== *)
theory Allowlist
  imports ScanCommand
begin

text \<open>
  \<open>app/allowlist.py\<close>: the layered allowlist (Gate 0), and the validation of new entries in
  \<open>app/routers/allowlist.py\<close>. The singleton's dictionary of lists is the state; clock readings
  and the fresh identifier are arguments. The record \<open>allow_env\<close> carries what matching needs:
  \<open>re.search\<close> without flags (a pattern is compiled when its entry is added, so it does not
  raise) and the scan of the \<open>rule_id\<close> selector.
\<close>

record allow_env =
  ae_plain :: "string \<Rightarrow> string \<Rightarrow> bool"
  ae_scan :: "string \<Rightarrow> scan_report"

definition LAYERS :: "string list" where
  "LAYERS = [''agent'', ''project'', ''user'', ''system'']"

definition SELECTOR_TYPES :: "string list" where
  "SELECTOR_TYPES = [''rule_id'', ''exact'', ''prefix'', ''regex'']"

definition ALLOWLIST_TTL_S :: time where
  "ALLOWLIST_TTL_S = 3600"

definition matches_prefix :: "string \<Rightarrow> string \<Rightarrow> bool" where
  "matches_prefix command prefix =
     (if \<not> startswith command prefix then False
      else if length command = length prefix then True
      else command ! length prefix \<in> {CHR '' '', CHR 0x09})"

record allow_entry =
  al_id :: string
  al_layer :: string
  al_selector_type :: string
  al_selector_value :: string
  al_created_at :: time
  al_expires_at :: "time option"
  al_created_by :: "string option"
  al_reason :: string
  al_ttl :: "int option"

text \<open>\<open>is_expired(now)\<close>: \<open>now or time.time()\<close> takes the clock when no time, or zero, is given.\<close>

definition is_expired :: "time \<Rightarrow> time option \<Rightarrow> allow_entry \<Rightarrow> bool" where
  "is_expired clock now e =
     (case al_expires_at e of
        None \<Rightarrow> False
      | Some x \<Rightarrow> x \<le> (case now of None \<Rightarrow> clock | Some n \<Rightarrow> if n = 0 then clock else n))"

record allow_match =
  mt_entry :: allow_entry
  mt_command :: string
  mt_matched_at :: time

type_synonym allowlist = "(string \<times> allow_entry list) list"

definition empty_allowlist :: allowlist where
  "empty_allowlist = [(''agent'', []), (''project'', []), (''user'', []), (''system'', [])]"

definition layer_entries :: "allowlist \<Rightarrow> string \<Rightarrow> allow_entry list" where
  "layer_entries s layer = (case map_of s layer of None \<Rightarrow> [] | Some es \<Rightarrow> es)"

text \<open>The count of removed entries and the purged lists.\<close>

definition allow_expire_stale :: "time \<Rightarrow> allowlist \<Rightarrow> nat \<times> allowlist" where
  "allow_expire_stale now s =
     (let s' = map (\<lambda>(k, es). (k, filter (\<lambda>e. \<not> is_expired now (Some now) e) es)) s
      in (sum_list (map (\<lambda>(k, es). length es - length (filter (\<lambda>e. \<not> is_expired now (Some now) e) es)) s),
          s'))"

definition allow_add ::
    "time \<Rightarrow> string \<Rightarrow> string \<Rightarrow> string \<Rightarrow> string \<Rightarrow> string option \<Rightarrow> string \<Rightarrow> int option \<Rightarrow> allowlist
      \<Rightarrow> allow_entry \<times> allowlist" where
  "allow_add now entry_id layer selector_type selector_value created_by reason ttl s =
     (let s' = snd (allow_expire_stale now s);
          expires_at = (case ttl of
              Some t \<Rightarrow> Some (now + of_int t)
            | None \<Rightarrow> if layer \<noteq> ''system'' then Some (now + ALLOWLIST_TTL_S) else None);
          entry = \<lparr>al_id = entry_id, al_layer = layer, al_selector_type = selector_type,
                   al_selector_value = selector_value, al_created_at = now,
                   al_expires_at = expires_at, al_created_by = created_by, al_reason = reason,
                   al_ttl = ttl\<rparr>
      in (entry, AList.update layer (layer_entries s' layer @ [entry]) s'))"

text \<open>\<open>lst.pop(i)\<close> at the first entry with the identifier; \<open>None\<close> when the list has none.\<close>

fun pop_entry :: "string \<Rightarrow> allow_entry list \<Rightarrow> allow_entry list option" where
  "pop_entry i [] = None"
| "pop_entry i (e # es) = (if al_id e = i then Some es else map_option (\<lambda>es'. e # es') (pop_entry i es))"

fun allow_remove :: "string \<Rightarrow> allowlist \<Rightarrow> bool \<times> allowlist" where
  "allow_remove i [] = (False, [])"
| "allow_remove i ((k, es) # s) =
     (case pop_entry i es of
        Some es' \<Rightarrow> (True, (k, es') # s)
      | None \<Rightarrow> (let (r, s') = allow_remove i s in (r, (k, es) # s')))"

definition allow_matches :: "allow_env \<Rightarrow> allow_entry \<Rightarrow> string \<Rightarrow> bool" where
  "allow_matches env e command =
     (if al_selector_type e = ''exact'' then command = al_selector_value e
      else if al_selector_type e = ''prefix'' then matches_prefix command (al_selector_value e)
      else if al_selector_type e = ''regex'' then ae_plain env (al_selector_value e) command
      else if al_selector_type e = ''rule_id'' then
        (\<exists>f \<in> set (sr_findings (ae_scan env command)). sf_pattern_name f = al_selector_value e)
      else False)"

text \<open>The code passes \<open>agent\<close>, \<open>project\<close> and \<open>user\<close> to \<open>check\<close>, which does not read them.\<close>

definition allow_check ::
    "allow_env \<Rightarrow> time \<Rightarrow> string \<Rightarrow> string option \<Rightarrow> string option \<Rightarrow> string option \<Rightarrow> allowlist
      \<Rightarrow> allow_match option \<times> allowlist" where
  "allow_check env now command agent project user s =
     (let s' = snd (allow_expire_stale now s) in
      (map_option (\<lambda>e. \<lparr>mt_entry = e, mt_command = command, mt_matched_at = now\<rparr>)
         (find (\<lambda>e. \<not> is_expired now None e \<and> allow_matches env e command)
           (concat (map (layer_entries s') LAYERS))),
       s'))"

definition list_layer :: "time \<Rightarrow> string \<Rightarrow> allowlist \<Rightarrow> allow_entry list \<times> allowlist" where
  "list_layer now layer s = (let s' = snd (allow_expire_stale now s) in (layer_entries s' layer, s'))"

definition list_all_layers :: "time \<Rightarrow> allowlist \<Rightarrow> allow_entry list \<times> allowlist" where
  "list_all_layers now s =
     (let s' = snd (allow_expire_stale now s) in (concat (map (layer_entries s') LAYERS), s'))"

definition clear_layer :: "time \<Rightarrow> string \<Rightarrow> allowlist \<Rightarrow> nat \<times> allowlist" where
  "clear_layer now layer s =
     (let s' = snd (allow_expire_stale now s) in
      (length (layer_entries s' layer),
       if map_of s' layer = None then s' else AList.update layer [] s'))"

definition clear_all :: "allowlist \<Rightarrow> nat \<times> allowlist" where
  "clear_all s = (sum_list (map (\<lambda>(k, es). length es) s), map (\<lambda>(k, es). (k, [])) s)"

text \<open>
  \<open>add_allowlist_entry\<close> of the admin router: an error is its HTTP status; \<open>re_compiles\<close> stands
  for \<open>re.compile\<close> not raising.
\<close>

definition add_allowlist_entry ::
    "(string \<Rightarrow> bool) \<Rightarrow> time \<Rightarrow> string \<Rightarrow> string \<Rightarrow> string \<Rightarrow> string \<Rightarrow> string option \<Rightarrow> string
      \<Rightarrow> int option \<Rightarrow> allowlist \<Rightarrow> (nat + allow_entry) \<times> allowlist" where
  "add_allowlist_entry re_compiles now entry_id layer selector_type selector_value created_by reason ttl s =
     (if layer \<notin> set LAYERS then (Inl 422, s)
      else if selector_type \<notin> set SELECTOR_TYPES then (Inl 422, s)
      else if selector_type = ''regex'' \<and> \<not> re_compiles selector_value then (Inl 422, s)
      else
        (let (e, s') = allow_add now entry_id layer selector_type selector_value created_by reason ttl s
         in (Inr e, s')))"

subsection \<open>The store expires its entries\<close>

definition all_entries :: "allowlist \<Rightarrow> allow_entry list" where
  "all_entries s = concat (map snd s)"

definition allow_stale :: "time \<Rightarrow> allow_entry \<Rightarrow> bool" where
  "allow_stale now e = (case al_expires_at e of None \<Rightarrow> False | Some x \<Rightarrow> x \<le> now)"

lemma is_expired_clock [simp]: "is_expired now (Some now) e = allow_stale now e" "is_expired now None e = allow_stale now e"
  by (auto simp: is_expired_def allow_stale_def split: option.splits)

lemma expire_state:
  "snd (allow_expire_stale now s) = map (\<lambda>(k, es). (k, filter (\<lambda>e. \<not> allow_stale now e) es)) s"
  by (simp add: allow_expire_stale_def)

lemma expire_dict_ok: "dict_ok (snd (allow_expire_stale now s)) = dict_ok s"
  by (simp add: expire_state dict_ok_def comp_def split_def)

interpretation allows: expiring_store dict_ok all_entries allow_stale "\<lambda>now s. snd (allow_expire_stale now s)"
proof unfold_locales
  fix s :: allowlist and t
  show "dict_ok s \<Longrightarrow> dict_ok (snd (allow_expire_stale t s))" by (simp add: expire_dict_ok)
  show "all_entries (snd (allow_expire_stale t s)) = filter (\<lambda>e. \<not> allow_stale t e) (all_entries s)"
    by (simp add: expire_state all_entries_def filter_concat comp_def split_def)
qed (auto simp: allow_stale_def split: option.splits)

lemma expire_count:
  "dict_ok s \<Longrightarrow> fst (allow_expire_stale now s) = length (filter (allow_stale now) (all_entries s))"
proof (induction s)
  case Nil
  then show ?case by (simp add: allow_expire_stale_def all_entries_def)
next
  case (Cons p s)
  have "length es - length (filter (\<lambda>e. \<not> allow_stale now e) es) = length (filter (allow_stale now) es)" for es
    using sum_length_filter_compl [of "allow_stale now" es] by simp
  then show ?case using Cons by (simp add: allow_expire_stale_def all_entries_def dict_ok_def split_def)
qed

lemma layer_entries_expire:
  "layer_entries (snd (allow_expire_stale now s)) layer = filter (\<lambda>e. \<not> allow_stale now e) (layer_entries s layer)"
  by (induction s) (auto simp: expire_state layer_entries_def)

subsection \<open>The invariant\<close>

text \<open>
  An entry is filed under its own layer, and only entries of the system layer may last for ever.
\<close>

definition allow_ok :: "allowlist \<Rightarrow> bool" where
  "allow_ok s \<longleftrightarrow> dict_ok s \<and> (\<forall>(k, es) \<in> set s. \<forall>e \<in> set es.
      al_layer e = k \<and> (al_expires_at e = None \<longrightarrow> k = ''system''))"

lemma allow_ok_empty: "allow_ok empty_allowlist"
  by (simp add: allow_ok_def empty_allowlist_def dict_ok_def)

lemma layer_entries_in: "e \<in> set (layer_entries s k) \<Longrightarrow> \<exists>es. (k, es) \<in> set s \<and> e \<in> set es"
  by (cases "map_of s k") (auto simp: layer_entries_def dest: map_of_SomeD)

lemma allow_ok_expire: "allow_ok s \<Longrightarrow> allow_ok (snd (allow_expire_stale now s))"
  unfolding allow_ok_def expire_dict_ok by (fastforce simp: expire_state)

lemma update_subset: "set (AList.update k v d) \<subseteq> insert (k, v) (set d)"
  by (induction d) auto

lemma allow_ok_update:
  assumes "allow_ok s" "\<And>e. e \<in> set es \<Longrightarrow> al_layer e = k \<and> (al_expires_at e = None \<longrightarrow> k = ''system'')"
  shows "allow_ok (AList.update k es s)"
  using assms update_subset [of k es s] unfolding allow_ok_def by fastforce

lemma allow_ok_add:
  assumes "allow_ok s"
  shows "allow_ok (snd (allow_add now i layer st sv cb reason ttl s))"
proof -
  let ?t = "snd (allow_expire_stale now s)"
  have "al_layer e = layer \<and> (al_expires_at e = None \<longrightarrow> layer = ''system'')"
    if "e \<in> set (layer_entries ?t layer)" for e
    using layer_entries_in [OF that] allow_ok_expire [OF assms, of now] unfolding allow_ok_def by fastforce
  then have *: "al_layer e = layer \<and> (al_expires_at e = None \<longrightarrow> layer = ''system'')"
    if "e \<in> set (layer_entries ?t layer @ [fst (allow_add now i layer st sv cb reason ttl s)])" for e
    using that by (auto simp: allow_add_def Let_def split: option.splits if_splits)
  have "snd (allow_add now i layer st sv cb reason ttl s)
      = AList.update layer (layer_entries ?t layer @ [fst (allow_add now i layer st sv cb reason ttl s)]) ?t"
    by (simp add: allow_add_def Let_def)
  then show ?thesis using allow_ok_update [OF allow_ok_expire [OF assms, of now] *] by (simp only:)
qed

lemma pop_entry_subset: "pop_entry i es = Some es' \<Longrightarrow> set es' \<subseteq> set es"
  by (induction es arbitrary: es') (auto split: if_splits)

lemma allow_remove_keys: "map fst (snd (allow_remove i s)) = map fst s"
  by (induction i s rule: allow_remove.induct) (auto split: option.splits prod.splits)

lemma allow_remove_entries:
  "(k, es) \<in> set (snd (allow_remove i s)) \<Longrightarrow> \<exists>es0. (k, es0) \<in> set s \<and> set es \<subseteq> set es0"
  by (induction i s rule: allow_remove.induct)
    (fastforce split: option.splits prod.splits dest: pop_entry_subset)+

lemma allow_ok_remove: "allow_ok s \<Longrightarrow> allow_ok (snd (allow_remove i s))"
  unfolding allow_ok_def dict_ok_def allow_remove_keys using allow_remove_entries by fastforce

lemma allow_ok_clear_layer: "allow_ok s \<Longrightarrow> allow_ok (snd (clear_layer now layer s))"
  using allow_ok_expire [of s now] by (auto simp: clear_layer_def Let_def intro: allow_ok_update)

lemma allow_ok_clear_all: "allow_ok s \<Longrightarrow> allow_ok (snd (clear_all s))"
  by (auto simp: clear_all_def allow_ok_def dict_ok_def comp_def split_def)

subsection \<open>Lookup\<close>

lemma allow_check_Some:
  assumes "fst (allow_check env now command agent project user s) = Some m"
  shows "mt_entry m \<in> set (all_entries s)" "\<not> allow_stale now (mt_entry m)"
    "allow_matches env (mt_entry m) command"
proof -
  obtain e where f: "find (\<lambda>e. \<not> allow_stale now e \<and> allow_matches env e command)
      (concat (map (layer_entries (snd (allow_expire_stale now s))) LAYERS)) = Some e"
    and m: "mt_entry m = e"
    using assms by (auto simp: allow_check_def Let_def)
  have e: "e \<in> set (concat (map (layer_entries (snd (allow_expire_stale now s))) LAYERS))"
    "\<not> allow_stale now e" "allow_matches env e command"
    using f unfolding find_Some_iff by (metis nth_mem)+
  then obtain k where "e \<in> set (layer_entries s k)" by (auto simp: layer_entries_expire)
  then show "mt_entry m \<in> set (all_entries s)"
    using layer_entries_in [of e s k] m by (force simp: all_entries_def)
  show "\<not> allow_stale now (mt_entry m)" "allow_matches env (mt_entry m) command"
    using e m by simp_all
qed

lemma allow_check_None:
  "fst (allow_check env now command agent project user s) = None \<longleftrightarrow>
     (\<forall>k \<in> set LAYERS. \<forall>e \<in> set (layer_entries s k). allow_stale now e \<or> \<not> allow_matches env e command)"
  by (auto simp: allow_check_def Let_def find_None_iff layer_entries_expire)

lemma matches_prefix_iff:
  "matches_prefix command prefix \<longleftrightarrow>
     (\<exists>rest. command = prefix @ rest \<and> (rest = [] \<or> hd rest \<in> {CHR '' '', CHR 0x09}))"
  by (auto simp: matches_prefix_def startswith_iff nth_append hd_conv_nth)

text \<open>The entry a lookup looks for, and where it finds it.\<close>

definition usable :: "allow_env \<Rightarrow> time \<Rightarrow> string \<Rightarrow> allow_entry \<Rightarrow> bool" where
  "usable env now command e \<longleftrightarrow> \<not> allow_stale now e \<and> allow_matches env e command"

definition no_usable :: "allow_env \<Rightarrow> time \<Rightarrow> string \<Rightarrow> allowlist \<Rightarrow> string \<Rightarrow> bool" where
  "no_usable env now command s k \<longleftrightarrow> filter (usable env now command) (layer_entries s k) = []"

lemma find_in_layers:
  "find (usable env now command) (concat (map (layer_entries (snd (allow_expire_stale now s))) ks)) = Some e \<Longrightarrow>
   \<exists>hi k lo. ks = hi @ k # lo \<and> e \<in> set (layer_entries s k) \<and> usable env now command e
     \<and> list_all (no_usable env now command s) hi"
proof (induction ks)
  case (Cons k ks)
  let ?es = "layer_entries (snd (allow_expire_stale now s)) k"
  show ?case
  proof (cases "find (usable env now command) ?es")
    case None
    then have none: "no_usable env now command s k"
      by (auto simp: no_usable_def find_None_iff layer_entries_expire filter_empty_conv usable_def)
    from Cons.prems None
    have "find (usable env now command) (concat (map (layer_entries (snd (allow_expire_stale now s))) ks)) = Some e"
      by (simp add: find_append)
    from Cons.IH [OF this] obtain hi k' lo where "ks = hi @ k' # lo" "e \<in> set (layer_entries s k')"
      "usable env now command e" "list_all (no_usable env now command s) hi" by blast
    with none show ?thesis by (intro exI [of _ "k # hi"] exI [of _ k'] exI [of _ lo]) simp
  next
    case (Some e')
    with Cons.prems have "e' = e" by (simp add: find_append)
    with Some have "e \<in> set ?es" "usable env now command e" unfolding find_Some_iff by (metis nth_mem)+
    then show ?thesis
      by (intro exI [of _ "[]"] exI [of _ k] exI [of _ ks]) (simp add: layer_entries_expire)
  qed
qed simp

lemma check_find:
  "fst (allow_check env now command agent project user s) =
     map_option (\<lambda>e. \<lparr>mt_entry = e, mt_command = command, mt_matched_at = now\<rparr>)
       (find (usable env now command) (concat (map (layer_entries (snd (allow_expire_stale now s))) LAYERS)))"
proof -
  have "usable env now command = (\<lambda>e. \<not> allow_stale now e \<and> allow_matches env e command)"
    by (rule ext) (simp add: usable_def)
  then show ?thesis by (simp add: allow_check_def Let_def)
qed

lemma find_none_layers:
  "find (usable env now command) (concat (map (layer_entries (snd (allow_expire_stale now s))) ks)) = None \<Longrightarrow>
   list_all (no_usable env now command s) ks"
  by (auto simp: list_all_iff no_usable_def find_None_iff layer_entries_expire filter_empty_conv usable_def)

text \<open>The lookup returns an entry that is in the store, has not expired and matches the command, and
  no layer of higher priority (agent, project, user, system) holds one; it returns none only when
  no layer holds one.\<close>

theorem lookup_first_layer:
  "case fst (allow_check env now command agent project user s) of
     None \<Rightarrow> list_all (no_usable env now command s) [''agent'', ''project'', ''user'', ''system'']
   | Some m \<Rightarrow> \<exists>hi k lo. [''agent'', ''project'', ''user'', ''system''] = hi @ k # lo
       \<and> mt_entry m \<in> set (layer_entries s k) \<and> usable env now command (mt_entry m)
       \<and> list_all (no_usable env now command s) hi"
proof (cases "find (usable env now command) (concat (map (layer_entries (snd (allow_expire_stale now s))) LAYERS))")
  case None
  from find_none_layers [OF None] show ?thesis
    unfolding check_find None option.map option.case by (simp only: LAYERS_def)
next
  case (Some e)
  from find_in_layers [OF this] show ?thesis
    unfolding check_find Some option.map option.case by (simp add: LAYERS_def)
qed

text \<open>Every operation of the allowlist keeps its invariant, from the empty store on: an entry is filed
  under its own layer, and only entries of the system layer may have no deadline.\<close>

theorem allowlist_invariant:
  assumes "allow_ok s"
  shows "allow_ok empty_allowlist \<and> allow_ok (snd (allow_add now i layer st sv cb reason ttl s))
    \<and> allow_ok (snd (allow_remove i s)) \<and> allow_ok (snd (allow_check env now command agent project user s))
    \<and> allow_ok (snd (list_layer now layer s)) \<and> allow_ok (snd (list_all_layers now s))
    \<and> allow_ok (snd (clear_layer now layer s)) \<and> allow_ok (snd (clear_all s))
    \<and> allow_ok (snd (add_allowlist_entry re_ok now i layer st sv cb reason ttl s))"
  using assms allow_ok_add [OF assms, of now i layer st sv cb reason ttl]
  by (auto simp: allow_ok_empty allow_ok_remove allow_ok_expire allow_ok_clear_layer allow_ok_clear_all
      allow_check_def list_layer_def list_all_layers_def add_allowlist_entry_def Let_def split: prod.splits)

lemma allowlist_invariant_witness:
  "allow_ok (snd (allow_add 0 ''e1'' ''user'' ''prefix'' ''docker'' None [] None empty_allowlist))"
  using allowlist_invariant [OF allow_ok_empty] by blast

text \<open>A prefix entry covers its command family and no longer word: it matches exactly the prefix
  itself and the prefix followed by a blank or a tab and anything.\<close>

theorem prefix_word_boundary:
  "matches_prefix command prefix = (command = prefix \<or> (\<exists>rest. command = prefix @ CHR '' '' # rest)
     \<or> (\<exists>rest. command = prefix @ CHR 0x09 # rest))"
proof -
  have "(\<exists>rest. command = prefix @ rest \<and> (rest = [] \<or> hd rest \<in> {CHR '' '', CHR 0x09})) =
      (command = prefix \<or> (\<exists>rest. command = prefix @ CHR '' '' # rest) \<or> (\<exists>rest. command = prefix @ CHR 0x09 # rest))"
    (is "?l = ?r")
  proof
    assume ?l
    then obtain rest where "command = prefix @ rest" "rest = [] \<or> hd rest \<in> {CHR '' '', CHR 0x09}" by blast
    then show ?r by (cases rest) auto
  qed auto
  then show ?thesis by (simp only: matches_prefix_iff)
qed

end
