(* ===== verification/PolicyAsk.thy ===== *)
theory PolicyAsk
  imports Prelude
begin

text \<open>
  \<open>app/policy_ask.py\<close>: the operator approvals of ASK mode. The module's dictionary is a state
  passed along; the clock reading \<open>now\<close> and the fresh identifier (\<open>uuid.uuid4().hex[:16]\<close>) are
  arguments. A function that reads the clock twice is given the same reading both times.
\<close>

record approval_request =
  ar_approval_id :: string
  ar_command :: string
  ar_profile :: string
  ar_blocked_by :: "string option"
  ar_reason :: string
  ar_created_at :: time
  ar_expires_at :: time
  ar_approved :: "bool option"
  ar_approved_by :: "string option"

type_synonym approval_store = "(string \<times> approval_request) list"

definition APPROVAL_TTL_S :: time where
  "APPROVAL_TTL_S = 300"

definition ask_expired :: "time \<Rightarrow> string \<times> approval_request \<Rightarrow> bool" where
  "ask_expired now e \<longleftrightarrow> ar_expires_at (snd e) < now"

definition ask_expire_stale :: "time \<Rightarrow> approval_store \<Rightarrow> approval_store" where
  "ask_expire_stale now s =
     fold AList.delete (map fst (filter (ask_expired now) s)) s"

definition create_approval_request ::
    "time \<Rightarrow> string \<Rightarrow> string \<Rightarrow> string \<Rightarrow> string option \<Rightarrow> string \<Rightarrow> approval_store
      \<Rightarrow> approval_request \<times> approval_store" where
  "create_approval_request now approval_id command profile blocked_by reason s =
     (let s' = ask_expire_stale now s;
          req = \<lparr>ar_approval_id = approval_id, ar_command = command, ar_profile = profile,
                 ar_blocked_by = blocked_by, ar_reason = reason, ar_created_at = now,
                 ar_expires_at = now + APPROVAL_TTL_S, ar_approved = None, ar_approved_by = None\<rparr>
      in (req, AList.update approval_id req s'))"

definition decide_request ::
    "bool \<Rightarrow> time \<Rightarrow> string \<Rightarrow> string \<Rightarrow> approval_store \<Rightarrow> bool \<times> approval_store" where
  "decide_request verdict now approval_id operator s =
     (case map_of s approval_id of
        None \<Rightarrow> (False, s)
      | Some req \<Rightarrow>
          if ar_expires_at req < now \<or> ar_approved req \<noteq> None then (False, s)
          else (True, AList.update approval_id
                        (req\<lparr>ar_approved := Some verdict, ar_approved_by := Some operator\<rparr>) s))"

definition approve_request :: "time \<Rightarrow> string \<Rightarrow> string \<Rightarrow> approval_store \<Rightarrow> bool \<times> approval_store" where
  "approve_request = decide_request True"

definition deny_request :: "time \<Rightarrow> string \<Rightarrow> string \<Rightarrow> approval_store \<Rightarrow> bool \<times> approval_store" where
  "deny_request = decide_request False"

definition get_request :: "time \<Rightarrow> string \<Rightarrow> approval_store \<Rightarrow> approval_request option" where
  "get_request now approval_id s =
     (case map_of s approval_id of
        None \<Rightarrow> None
      | Some req \<Rightarrow> if ar_expires_at req < now then None else Some req)"

definition get_pending_requests :: "time \<Rightarrow> approval_store \<Rightarrow> approval_request list \<times> approval_store" where
  "get_pending_requests now s =
     (let s' = ask_expire_stale now s
      in (filter (\<lambda>r. ar_approved r = None) (map snd s'), s'))"

definition approval_matches :: "string \<Rightarrow> string \<Rightarrow> string \<times> approval_request \<Rightarrow> bool" where
  "approval_matches command profile e \<longleftrightarrow>
     ar_command (snd e) = command \<and> ar_profile (snd e) = profile \<and> ar_approved (snd e) = Some True"

definition find_and_consume_approval ::
    "time \<Rightarrow> string \<Rightarrow> string \<Rightarrow> approval_store \<Rightarrow> approval_request option \<times> approval_store" where
  "find_and_consume_approval now command profile s =
     (let s' = ask_expire_stale now s in
      case find (approval_matches command profile) s' of
        None \<Rightarrow> (None, s')
      | Some (aid, req) \<Rightarrow> (Some req, AList.delete aid s'))"

text \<open>\<open>set_approval_decision\<close> of \<open>app/routers/admin_approval.py\<close>; an error is its HTTP status.\<close>

definition set_approval_decision ::
    "time \<Rightarrow> string \<Rightarrow> string \<Rightarrow> string \<Rightarrow> approval_store \<Rightarrow> (nat + approval_request) \<times> approval_store" where
  "set_approval_decision now approval_id decision operator s =
     (if decision \<noteq> ''allow'' \<and> decision \<noteq> ''deny'' then (Inl 422, s)
      else case get_request now approval_id s of
        None \<Rightarrow> (Inl 404, s)
      | Some req \<Rightarrow>
          (let (ok, s') = (if decision = ''allow'' then approve_request now approval_id operator s
                           else deny_request now approval_id operator s)
           in if \<not> ok then (Inl 409, s') else (Inr req, s')))"

subsection \<open>The store expires its entries\<close>

lemma ask_expire_filter:
  "dict_ok s \<Longrightarrow> ask_expire_stale now s = filter (\<lambda>e. \<not> ask_expired now e) s"
  unfolding ask_expire_stale_def by (rule delete_keys_filter)

interpretation approvals: expiring_store dict_ok "\<lambda>s. s" ask_expired ask_expire_stale
  by unfold_locales (auto simp: ask_expire_filter ask_expired_def)

lemma ask_expire_get:
  "dict_ok s \<Longrightarrow> map_of (ask_expire_stale now s) k =
     (case map_of s k of None \<Rightarrow> None | Some r \<Rightarrow> if ar_expires_at r < now then None else Some r)"
  using dict_get_filter [of s "\<lambda>k r. \<not> ask_expired now (k, r)" k]
  by (simp add: ask_expire_filter ask_expired_def split_def split: option.splits)

subsection \<open>Histories of the store\<close>

text \<open>
  A history of the store: what its operations did, latest first. Identifiers are fresh when a
  request is created (they are random); operations come in any order, at any clock readings.
\<close>

datatype ask_event =
    Created string string string
  | Approved string string
  | Denied string string
  | Consumed string string string

inductive ask_reach :: "ask_event list \<Rightarrow> approval_store \<Rightarrow> bool" where
  ask_init: "ask_reach [] []"
| ask_create: "ask_reach l s \<Longrightarrow> (\<And>c p. Created aid c p \<notin> set l) \<Longrightarrow>
    create_approval_request now aid command profile blocked_by reason s = (req, s') \<Longrightarrow>
    ask_reach (Created aid command profile # l) s'"
| ask_approve: "ask_reach l s \<Longrightarrow> approve_request now aid operator s = (True, s') \<Longrightarrow>
    ask_reach (Approved aid operator # l) s'"
| ask_deny: "ask_reach l s \<Longrightarrow> deny_request now aid operator s = (True, s') \<Longrightarrow>
    ask_reach (Denied aid operator # l) s'"
| ask_consume: "ask_reach l s \<Longrightarrow>
    find_and_consume_approval now command profile s = (Some req, s') \<Longrightarrow>
    ask_reach (Consumed (ar_approval_id req) command profile # l) s'"
| ask_purge: "ask_reach l s \<Longrightarrow> ask_reach l (ask_expire_stale now s)"

text \<open>
  The invariant: an entry was created under its key with its command and profile, an approved
  entry was approved by the operator it names and never denied, and nothing in the store was
  consumed; what was consumed was created and approved, and once.
\<close>

definition entry_ok :: "ask_event list \<Rightarrow> string \<times> approval_request \<Rightarrow> bool" where
  "entry_ok l e \<longleftrightarrow>
     ar_approval_id (snd e) = fst e
     \<and> Created (fst e) (ar_command (snd e)) (ar_profile (snd e)) \<in> set l
     \<and> (\<forall>op. ar_approved (snd e) = Some True \<longrightarrow> ar_approved_by (snd e) = Some op
          \<longrightarrow> Approved (fst e) op \<in> set l)
     \<and> (ar_approved (snd e) = Some True \<longrightarrow> ar_approved_by (snd e) \<noteq> None)
     \<and> (ar_approved (snd e) \<noteq> Some False \<longrightarrow> (\<forall>op. Denied (fst e) op \<notin> set l))
     \<and> (\<forall>c p. Consumed (fst e) c p \<notin> set l)"

lemma entry_okD:
  assumes "entry_ok l (i, r)"
  shows "ar_approval_id r = i" "Created i (ar_command r) (ar_profile r) \<in> set l"
    "ar_approved r = Some True \<Longrightarrow> \<exists>op. Approved i op \<in> set l"
    "ar_approved r \<noteq> Some False \<Longrightarrow> Denied i op \<notin> set l" "Consumed i c p \<notin> set l"
  using assms unfolding entry_ok_def by auto

fun consumed_ids :: "ask_event list \<Rightarrow> string list" where
  "consumed_ids [] = []"
| "consumed_ids (Consumed i c p # l) = i # consumed_ids l"
| "consumed_ids (_ # l) = consumed_ids l"

lemma consumed_ids_iff: "i \<in> set (consumed_ids l) \<longleftrightarrow> (\<exists>c p. Consumed i c p \<in> set l)"
  by (induction l rule: consumed_ids.induct) auto

definition log_ok :: "ask_event list \<Rightarrow> bool" where
  "log_ok l \<longleftrightarrow> distinct (consumed_ids l)
     \<and> (\<forall>i c p. Consumed i c p \<in> set l \<longrightarrow>
          Created i c p \<in> set l \<and> (\<exists>op. Approved i op \<in> set l) \<and> (\<forall>op. Denied i op \<notin> set l))
     \<and> (\<forall>i op. Approved i op \<in> set l \<or> Denied i op \<in> set l \<longrightarrow> (\<exists>c p. Created i c p \<in> set l))"

definition ask_inv :: "ask_event list \<Rightarrow> approval_store \<Rightarrow> bool" where
  "ask_inv l s \<longleftrightarrow> dict_ok s \<and> (\<forall>e \<in> set s. entry_ok l e) \<and> log_ok l"

lemma log_ok_Created: "log_ok l \<Longrightarrow> log_ok (Created i c p # l)"
  unfolding log_ok_def by simp blast

lemma log_ok_Approved: "log_ok l \<Longrightarrow> Created i c p \<in> set l \<Longrightarrow> log_ok (Approved i op # l)"
  unfolding log_ok_def by simp blast

lemma log_ok_Denied:
  "log_ok l \<Longrightarrow> Created i c p \<in> set l \<Longrightarrow> (\<And>c p. Consumed i c p \<notin> set l) \<Longrightarrow> log_ok (Denied i op # l)"
  unfolding log_ok_def by simp blast

lemma log_ok_Consumed:
  "log_ok l \<Longrightarrow> Created i c p \<in> set l \<Longrightarrow> Approved i op \<in> set l \<Longrightarrow> (\<And>op. Denied i op \<notin> set l) \<Longrightarrow>
   i \<notin> set (consumed_ids l) \<Longrightarrow> log_ok (Consumed i c p # l)"
  unfolding log_ok_def by simp blast

lemma expire_subset: "dict_ok s \<Longrightarrow> set (ask_expire_stale now s) \<subseteq> set s"
  by (auto simp: approvals.purge_iff)

lemma update_entries:
  assumes "dict_ok s" "e \<in> set (AList.update k v s)"
  shows "e = (k, v) \<or> e \<in> set s \<and> fst e \<noteq> k"
proof -
  obtain k' v' where e: "e = (k', v')" by (cases e)
  have "dict_ok (AList.update k v s)" using assms(1) by simp
  from dict_get_Some_iff [OF this, of k' v'] assms(2) e
  have "map_of (AList.update k v s) k' = Some v'" by blast
  then have "(if k' = k then Some v else map_of s k') = Some v'" by (simp only: dict_get_update)
  with assms(1) e show ?thesis
    by (auto simp: dict_get_Some_iff split: if_splits)
qed

lemma delete_entries: "e \<in> set (AList.delete k s) \<Longrightarrow> e \<in> set s \<and> fst e \<noteq> k"
  by (auto simp: AList.delete_eq)

lemma ask_inv_expire: "ask_inv l s \<Longrightarrow> ask_inv l (ask_expire_stale now s)"
  using expire_subset [of s now] approvals.ok_purge [of s now] unfolding ask_inv_def by blast

lemma ask_inv_create:
  assumes inv: "ask_inv l s" and fresh: "\<And>c p. Created aid c p \<notin> set l"
    and create: "create_approval_request now aid command profile blocked_by reason s = (req, s')"
  shows "ask_inv (Created aid command profile # l) s'"
proof -
  let ?l = "Created aid command profile # l"
  have inv': "ask_inv l (ask_expire_stale now s)" (is "ask_inv l ?t")
    using ask_inv_expire [OF inv] .
  have s': "s' = AList.update aid req ?t" and req: "ar_approval_id req = aid" "ar_command req = command"
    "ar_profile req = profile" "ar_approved req = None"
    using create by (auto simp: create_approval_request_def Let_def)
  have new: "entry_ok ?l (aid, req)"
  proof -
    have "Denied aid op \<notin> set l" for op using inv fresh unfolding ask_inv_def log_ok_def by blast
    moreover have "Consumed aid c p \<notin> set l" for c p using inv fresh unfolding ask_inv_def log_ok_def by blast
    ultimately show ?thesis using req unfolding entry_ok_def by simp
  qed
  have old: "entry_ok ?l e" if "e \<in> set ?t" for e
    using inv' that unfolding ask_inv_def entry_ok_def by auto
  have "entry_ok ?l e" if "e \<in> set s'" for e
    using update_entries [of ?t e aid req] that s' inv' new old unfolding ask_inv_def by blast
  moreover have "dict_ok s'" using inv' s' by (simp add: ask_inv_def)
  ultimately show ?thesis using inv log_ok_Created unfolding ask_inv_def by blast
qed

lemma decide_request_True:
  assumes "decide_request verdict now aid operator s = (True, s')"
  obtains req where "map_of s aid = Some req" "ar_approved req = None"
    "s' = AList.update aid (req\<lparr>ar_approved := Some verdict, ar_approved_by := Some operator\<rparr>) s"
  using assms by (auto simp: decide_request_def split: option.splits if_splits)

lemma ask_inv_decide:
  assumes inv: "ask_inv l s" and d: "decide_request verdict now aid operator s = (True, s')"
    and ev: "ev = (if verdict then Approved aid operator else Denied aid operator)"
  shows "ask_inv (ev # l) s'"
proof -
  obtain req where get: "map_of s aid = Some req" and pending: "ar_approved req = None"
    and s': "s' = AList.update aid (req\<lparr>ar_approved := Some verdict, ar_approved_by := Some operator\<rparr>) s"
    using decide_request_True [OF d] .
  have "(aid, req) \<in> set s" using get by (rule map_of_SomeD)
  then have e0: "entry_ok l (aid, req)" using inv by (auto simp: ask_inv_def)
  have new: "entry_ok (ev # l) (aid, req\<lparr>ar_approved := Some verdict, ar_approved_by := Some operator\<rparr>)"
    using e0 pending ev unfolding entry_ok_def by auto
  have old: "entry_ok (ev # l) e" if "e \<in> set s" "fst e \<noteq> aid" for e
    using inv that ev unfolding ask_inv_def entry_ok_def by (cases verdict) auto
  have entries: "entry_ok (ev # l) e" if "e \<in> set s'" for e
    using update_entries [OF _ that [unfolded s']] inv new old unfolding ask_inv_def by blast
  have cr: "Created aid (ar_command req) (ar_profile req) \<in> set l" "\<And>c p. Consumed aid c p \<notin> set l"
    using e0 unfolding entry_ok_def by simp_all
  have "log_ok (ev # l)"
    using inv log_ok_Approved [OF _ cr(1)] log_ok_Denied [OF _ cr] ev
    unfolding ask_inv_def by (cases verdict) simp_all
  moreover have "dict_ok s'" using inv s' by (simp add: ask_inv_def)
  ultimately show ?thesis using entries unfolding ask_inv_def by blast
qed

lemma consume_Some:
  assumes "find_and_consume_approval now command profile s = (Some req, s')"
  obtains aid where "(aid, req) \<in> set (ask_expire_stale now s)" "ar_command req = command"
    "ar_profile req = profile" "ar_approved req = Some True" "s' = AList.delete aid (ask_expire_stale now s)"
  using assms
  by (auto simp: find_and_consume_approval_def Let_def approval_matches_def find_Some_iff
      split: option.splits) (metis nth_mem snd_conv)

lemma ask_inv_consume:
  assumes inv: "ask_inv l s" and c: "find_and_consume_approval now command profile s = (Some req, s')"
  shows "ask_inv (Consumed (ar_approval_id req) command profile # l) s'"
proof -
  let ?t = "ask_expire_stale now s"
  have inv': "ask_inv l ?t" using ask_inv_expire [OF inv] .
  obtain aid where mem: "(aid, req) \<in> set ?t" and req: "ar_command req = command"
    "ar_profile req = profile" "ar_approved req = Some True" and s': "s' = AList.delete aid ?t"
    using consume_Some [OF c] .
  have e0: "entry_ok l (aid, req)" using inv' mem by (auto simp: ask_inv_def)
  then have aid: "ar_approval_id req = aid" by (simp add: entry_ok_def)
  obtain op where ap: "Approved aid op \<in> set l" using entry_okD(3) [OF e0 req(3)] ..
  have cr: "Created aid command profile \<in> set l" using entry_okD(2) [OF e0] unfolding req .
  have de: "Denied aid op' \<notin> set l" for op' by (rule entry_okD(4) [OF e0]) (simp add: req(3))
  have co: "aid \<notin> set (consumed_ids l)"
    unfolding consumed_ids_iff using entry_okD(5) [OF e0] by blast
  have entries: "entry_ok (Consumed aid command profile # l) e" if "e \<in> set s'" for e
  proof -
    have e: "e \<in> set ?t" "fst e \<noteq> aid" using delete_entries [OF that [unfolded s']] by simp_all
    then have "entry_ok l e" using inv' by (auto simp: ask_inv_def)
    with e(2) show ?thesis unfolding entry_ok_def by auto
  qed
  have "dict_ok s'" using inv' s' by (simp add: ask_inv_def)
  moreover have "log_ok (Consumed aid command profile # l)"
    using log_ok_Consumed [OF _ cr ap de co] inv unfolding ask_inv_def by blast
  ultimately show ?thesis unfolding ask_inv_def aid using entries by blast
qed

lemma ask_reach_inv: "ask_reach l s \<Longrightarrow> ask_inv l s"
proof (induction rule: ask_reach.induct)
  case ask_init
  then show ?case by (simp add: ask_inv_def log_ok_def)
next
  case (ask_approve l s now aid operator s')
  then show ?case
    using ask_inv_decide [of l s True now aid operator s'] by (simp add: approve_request_def)
next
  case (ask_deny l s now aid operator s')
  then show ?case
    using ask_inv_decide [of l s False now aid operator s'] by (simp add: deny_request_def)
qed (simp_all add: ask_inv_create ask_inv_consume ask_inv_expire)

text \<open>C4: In any history of the approval store, what lets a command through was created for exactly that
  command and profile and approved by an operator, was never denied, and is used once: no
  identifier is consumed twice, and nothing in the store was already consumed.\<close>

theorem approvals_used_once:
  assumes "ask_reach l s"
  shows "distinct (consumed_ids l)
    \<and> (Consumed i c p \<in> set l \<longrightarrow>
         Created i c p \<in> set l \<and> (\<exists>op. Approved i op \<in> set l) \<and> Denied i d \<notin> set l)
    \<and> (map_of s i \<noteq> None \<longrightarrow> i \<notin> set (consumed_ids l))"
proof -
  have inv: "ask_inv l s" using ask_reach_inv [OF assms] .
  have "i \<notin> set (consumed_ids l)" if "map_of s i = Some r" for r
  proof -
    have "entry_ok l (i, r)" using inv map_of_SomeD [OF that] unfolding ask_inv_def by blast
    then show ?thesis unfolding entry_ok_def consumed_ids_iff by auto
  qed
  moreover from inv have "log_ok l" unfolding ask_inv_def by blast
  ultimately show ?thesis unfolding log_ok_def by blast
qed

lemma approvals_used_once_witness:
  "distinct (consumed_ids [Approved ''a1'' ''alice'', Created ''a1'' ''reboot'' ''default''])"
proof -
  let ?r = "fst (create_approval_request 0 ''a1'' ''reboot'' ''default'' None ''denied'' [])"
  let ?s = "snd (create_approval_request 0 ''a1'' ''reboot'' ''default'' None ''denied'' [])"
  have "ask_reach [Created ''a1'' ''reboot'' ''default''] ?s"
    by (rule ask_create [OF ask_init, of "''a1''" 0 _ _ None "''denied''" ?r]) simp_all
  moreover have "approve_request 1 ''a1'' ''alice'' ?s = (True, snd (approve_request 1 ''a1'' ''alice'' ?s))"
    by (simp add: approve_request_def decide_request_def create_approval_request_def Let_def
        ask_expire_stale_def APPROVAL_TTL_S_def)
  ultimately have "ask_reach [Approved ''a1'' ''alice'', Created ''a1'' ''reboot'' ''default'']
      (snd (approve_request 1 ''a1'' ''alice'' ?s))" by (rule ask_approve)
  from approvals_used_once [OF this] show ?thesis by blast
qed

end
