(* ===== verification/AgentProfiles.thy ===== *)
theory AgentProfiles
  imports Prelude
begin

text \<open>
  \<open>app/agent_profiles.py\<close>: which agent is calling, and the packs its profile enables. The
  environment variables are a map, the parent process's name (\<open>/proc/<ppid>/comm\<close>) an option,
  \<open>None\<close> when the file is missing or unreadable. Frozen sets are sets.
\<close>

datatype trust_level = TRUST_HIGH | TRUST_MEDIUM | TRUST_LOW

record agent_profile =
  ap_trust_level :: trust_level
  ap_disabled_packs :: "string set"
  ap_extra_packs :: "string set"
  ap_additional_allowlist :: "string list"
  ap_disabled_allowlist :: bool

definition default_agent_profile :: agent_profile where
  "default_agent_profile =
     \<lparr>ap_trust_level = TRUST_MEDIUM, ap_disabled_packs = {}, ap_extra_packs = {},
      ap_additional_allowlist = [], ap_disabled_allowlist = False\<rparr>"

definition coding_agent_profile :: agent_profile where
  "coding_agent_profile = default_agent_profile
     \<lparr>ap_trust_level := TRUST_HIGH, ap_extra_packs := {''git'', ''filesystem''}\<rparr>"

definition BUILTIN_PROFILES :: "(string \<times> agent_profile) list" where
  "BUILTIN_PROFILES =
    [(''chatgpt'', default_agent_profile\<lparr>ap_trust_level := TRUST_LOW,
        ap_disabled_packs := {''docker'', ''kubernetes'', ''cloud'', ''loadbalancer'', ''firewall''}\<rparr>),
     (''claude-code'', coding_agent_profile),
     (''codex-cli'', coding_agent_profile),
     (''aider'', coding_agent_profile),
     (''cursor'', default_agent_profile),
     (''unknown'', default_agent_profile)]"

definition ENV_AGENT_MAP :: "(string \<times> string) list" where
  "ENV_AGENT_MAP = [(''CLAUDE_CODE'', ''claude-code''), (''CODEX_CLI'', ''codex-cli''),
     (''AIDER'', ''aider''), (''CURSOR'', ''cursor'')]"

definition PROC_NAME_MAP :: "(string \<times> string) list" where
  "PROC_NAME_MAP = [(''claude'', ''claude-code''), (''codex'', ''codex-cli''),
     (''aider'', ''aider''), (''cursor'', ''cursor'')]"

text \<open>A variable counts when it is set and not empty.\<close>

definition detect_agent_from_env :: "(string \<rightharpoonup> string) \<Rightarrow> string" where
  "detect_agent_from_env env =
     (case find (\<lambda>(v, a). case env v of None \<Rightarrow> False | Some x \<Rightarrow> x \<noteq> []) ENV_AGENT_MAP of
        Some (v, a) \<Rightarrow> a | None \<Rightarrow> ''unknown'')"

definition detect_agent_from_proc :: "string option \<Rightarrow> string" where
  "detect_agent_from_proc comm =
     (case comm of
        None \<Rightarrow> ''unknown''
      | Some name \<Rightarrow>
          (case find (\<lambda>(p, a). str_in p (lower (strip name))) PROC_NAME_MAP of
             Some (p, a) \<Rightarrow> a | None \<Rightarrow> ''unknown''))"

definition detect_agent :: "(string \<rightharpoonup> string) \<Rightarrow> string option \<Rightarrow> string" where
  "detect_agent env comm =
     (let agent = detect_agent_from_env env in
      if agent \<noteq> ''unknown'' then agent else detect_agent_from_proc comm)"

text \<open>\<open>agent_key or detect_agent()\<close>: an empty key is no key.\<close>

definition get_agent_profile :: "(string \<rightharpoonup> string) \<Rightarrow> string option \<Rightarrow> string option \<Rightarrow> agent_profile" where
  "get_agent_profile env comm agent_key =
     (let key = (case agent_key of Some (c # cs) \<Rightarrow> c # cs | _ \<Rightarrow> detect_agent env comm) in
      case map_of BUILTIN_PROFILES key of
        Some p \<Rightarrow> p
      | None \<Rightarrow> (case map_of BUILTIN_PROFILES ''unknown'' of Some p \<Rightarrow> p | None \<Rightarrow> default_agent_profile))"

definition effective_packs :: "string set option \<Rightarrow> agent_profile option \<Rightarrow> string set" where
  "effective_packs base_packs profile =
     (let base = (case base_packs of None \<Rightarrow> {} | Some b \<Rightarrow> b) in
      case profile of
        None \<Rightarrow> base
      | Some p \<Rightarrow> (base \<union> ap_extra_packs p) - ap_disabled_packs p)"

lemma find_snd:
  assumes "find P xs = Some (a, b)" "(\<And>x y. (x, y) \<in> set xs \<Longrightarrow> y \<in> A)"
  shows "b \<in> A"
  using assms unfolding find_Some_iff by (metis nth_mem)

lemma find_case_in:
  assumes "\<And>x y. (x, y) \<in> set xs \<Longrightarrow> y \<in> A" "u \<in> A"
  shows "(case find P xs of None \<Rightarrow> u | Some (v, a) \<Rightarrow> a) \<in> A"
proof (cases "find P xs")
  case (Some p)
  then show ?thesis using find_snd [of P xs "fst p" "snd p" A] assms(1) by (simp add: split_def)
qed (simp add: assms(2))

lemma detect_agent_known: "detect_agent env comm \<in> set (map fst BUILTIN_PROFILES)"
proof -
  let ?A = "set (map fst BUILTIN_PROFILES)"
  have u: "''unknown'' \<in> ?A" by (simp add: BUILTIN_PROFILES_def)
  have maps: "(x, y) \<in> set ENV_AGENT_MAP \<Longrightarrow> y \<in> ?A" "(x, y) \<in> set PROC_NAME_MAP \<Longrightarrow> y \<in> ?A" for x y
    by (auto simp: ENV_AGENT_MAP_def PROC_NAME_MAP_def BUILTIN_PROFILES_def)
  have "detect_agent_from_env env \<in> ?A"
    unfolding detect_agent_from_env_def by (rule find_case_in [OF maps(1) u])
  moreover have "detect_agent_from_proc comm \<in> ?A"
    using u find_case_in [OF maps(2) u]
    unfolding detect_agent_from_proc_def by (cases comm) (simp_all only: option.case)
  ultimately show ?thesis by (simp only: detect_agent_def Let_def split: if_split) blast
qed

end
