(* ===== verification/PolicyEngine.thy ===== *)
theory PolicyEngine
  imports CommandPolicy Allowlist PolicyAsk AgentProfiles
begin

text \<open>
  The decision pipeline of \<open>app/command_policy.py\<close>: \<open>_evaluate_enforce_decision\<close> (Gates 1, 2, 2b
  and 3) and \<open>evaluate_command_policy\<close> (agent override, modes, Gate 0 and the ASK flow).

  \<open>policy_env\<close> carries what a call reads and does not change: the regular-expression engines,
  the parsed syntax trees, the pack registry, the process environment and the configured agent
  modes. \<open>policy_state\<close> is the state it changes: the allowlist and the approval store. The clock
  reading and the identifier of a new approval are arguments.
\<close>

record policy_env =
  pe_re_search :: re_engine
  pe_plain :: "string \<Rightarrow> string \<Rightarrow> bool"
  pe_walk :: ast_walk
  pe_registry :: pack_registry
  pe_environ :: "string \<rightharpoonup> string"
  pe_comm :: "string option"
  pe_agent_modes :: "(string \<times> string) list"

record policy_state =
  ps_allowlist :: allowlist
  ps_approvals :: approval_store

definition allow_env_of :: "policy_env \<Rightarrow> allow_env" where
  "allow_env_of env =
     \<lparr>ae_plain = pe_plain env,
      ae_scan = scan_command (pe_re_search env) (pe_walk env) (pe_registry env)\<rparr>"

subsection \<open>Configuration\<close>

text \<open>
  \<open>parse_agent_modes\<close> and \<open>parse_key_profiles\<close>: \<open>items\<close> is what \<open>json.loads(raw)\<close> gives, the items
  of an object as strings, or \<open>None\<close> for anything else (a parse error included).
\<close>

definition parse_key_profiles :: "(string \<times> string) list option \<Rightarrow> (string \<times> string) list" where
  "parse_key_profiles items = (case items of None \<Rightarrow> [] | Some d \<Rightarrow> d)"

definition parse_agent_modes :: "(string \<times> string) list option \<Rightarrow> (string \<times> string) list" where
  "parse_agent_modes items = (case items of None \<Rightarrow> [] | Some d \<Rightarrow> map (\<lambda>(k, v). (k, lower v)) d)"

definition profile_for_identity ::
    "string option \<Rightarrow> (string \<times> string) list option \<Rightarrow> string \<Rightarrow> string" where
  "profile_for_identity fingerprint key_profiles default_profile =
     (case (fingerprint, key_profiles) of
        (Some (c # cs), Some (p # ps)) \<Rightarrow>
          (case map_of (p # ps) (c # cs) of Some v \<Rightarrow> v | None \<Rightarrow> default_profile)
      | _ \<Rightarrow> default_profile)"

subsection \<open>The enforce pipeline\<close>

definition profile_evaluator_for ::
    "policy_env \<Rightarrow> string \<Rightarrow> string \<Rightarrow> string option \<Rightarrow> bool \<times> string" where
  "profile_evaluator_for env profile =
     (if profile = profile_value PROFILE_READONLY then evaluate_readonly
      else if profile = profile_value PROFILE_TESTLINT then evaluate_testlint
      else if profile = profile_value PROFILE_PROJECT_AUTOMATION then evaluate_project_automation
      else if profile = profile_value PROFILE_OPS then
        evaluate_ops (pe_re_search env) (pe_registry env)
      else if profile = profile_value PROFILE_DOCKER_ADMIN then
        evaluate_docker_admin (pe_re_search env) (pe_registry env)
      else evaluate_default (pe_re_search env) (pe_registry env))"

definition heredoc_reason :: "destructive_match list \<Rightarrow> string" where
  "heredoc_reason findings =
     ''Heredoc/inline script contains destructive pattern(s): ''
     @ py_join '', '' (sort (remdups (map dm_pattern_name findings))) @ ''. ''
     @ py_join ''; '' (map dm_reason (take 3 findings))"

text \<open>\<open>(allowed, reason, blocked_by)\<close>.\<close>

definition evaluate_enforce_decision :: "policy_env \<Rightarrow> string \<Rightarrow> string \<Rightarrow> bool \<times> string \<times> string option" where
  "evaluate_enforce_decision env command profile =
     (let rt = get_command_root command in
      case contains_metachar command of
        Some mc \<Rightarrow>
          (False, ''Metacharacter '' @ quoted mc @ '' blocked by blanket denial'', Some ''metachar'')
      | None \<Rightarrow>
        (case check_argument_shape command of
           Some reason \<Rightarrow> (False, reason, Some ''argument_shape'')
         | None \<Rightarrow>
           (let nested = check_nested_commands (pe_re_search env) (pe_registry env) command in
            if nested \<noteq> [] then (False, heredoc_reason nested, Some ''heredoc'')
            else
              (let (allowed, reason) = profile_evaluator_for env profile command rt in
               if \<not> allowed then (False, reason, Some ''profile'') else (True, reason, None)))))"

subsection \<open>The policy decision\<close>

definition resolve_mode :: "policy_env \<Rightarrow> string \<Rightarrow> string option \<Rightarrow> string" where
  "resolve_mode env mode agent =
     (let agent' = (case agent of Some a \<Rightarrow> a | None \<Rightarrow> detect_agent (pe_environ env) (pe_comm env)) in
      if agent' \<noteq> [] then
        (case map_of (pe_agent_modes env) agent' of Some m \<Rightarrow> m | None \<Rightarrow> mode)
      else mode)"

definition resolved_agent :: "policy_env \<Rightarrow> string option \<Rightarrow> string" where
  "resolved_agent env agent =
     (case agent of Some a \<Rightarrow> a | None \<Rightarrow> detect_agent (pe_environ env) (pe_comm env))"

definition allowlist_reason :: "allow_entry \<Rightarrow> string" where
  "allowlist_reason e =
     ''Allowlist match ['' @ al_layer e @ ''] '' @ al_selector_type e @ ''='' @ al_selector_value e
     @ (if al_reason e \<noteq> [] then ''; '' @ al_reason e else [])"

definition opt_str :: "string option \<Rightarrow> string" where
  "opt_str x = (case x of None \<Rightarrow> ''None'' | Some s \<Rightarrow> s)"

definition bool_str :: "bool \<Rightarrow> string" where
  "bool_str b = (if b then ''True'' else ''False'')"

definition with_suggestions :: "policy_env \<Rightarrow> string \<Rightarrow> command_policy_decision \<Rightarrow> command_policy_decision" where
  "with_suggestions env command d =
     d\<lparr>dec_suggestion := get_suggestion (pe_re_search env) (pe_registry env) command,
       dec_suggestions := get_suggestions (pe_re_search env) (pe_registry env) command\<rparr>"

text \<open>The ASK branch, after the allowlist.\<close>

definition evaluate_ask ::
    "policy_env \<Rightarrow> time \<Rightarrow> string \<Rightarrow> string \<Rightarrow> string \<Rightarrow> string \<Rightarrow> policy_state
      \<Rightarrow> command_policy_decision \<times> policy_state" where
  "evaluate_ask env now approval_id command mode profile st =
     (let rt = get_command_root command;
          (allowed, reason, blocked_by) = evaluate_enforce_decision env command profile in
      if allowed then (make_decision True reason profile mode rt, st)
      else if blocked_by = Some ''metachar'' \<or> blocked_by = Some ''argument_shape'' then
        (with_suggestions env command (make_decision False reason profile mode rt), st)
      else
        (case find_and_consume_approval now command profile (ps_approvals st) of
           (Some approved, s) \<Rightarrow>
             (make_decision True
                (''Approved by operator ('' @ opt_str (ar_approved_by approved) @ ''), approval_id=''
                 @ ar_approval_id approved) profile mode rt,
              st\<lparr>ps_approvals := s\<rparr>)
         | (None, s) \<Rightarrow>
             (let (approval, s') =
                create_approval_request now approval_id command profile blocked_by reason s in
              (with_suggestions env command
                 (make_decision False reason profile mode rt)
                   \<lparr>dec_requires_approval := True, dec_approval_id := Some (ar_approval_id approval)\<rparr>,
               st\<lparr>ps_approvals := s'\<rparr>))))"

definition evaluate_command_policy ::
    "policy_env \<Rightarrow> time \<Rightarrow> string \<Rightarrow> string \<Rightarrow> string \<Rightarrow> string
      \<Rightarrow> string option \<Rightarrow> string option \<Rightarrow> string option \<Rightarrow> policy_state
      \<Rightarrow> command_policy_decision \<times> policy_state" where
  "evaluate_command_policy env now approval_id command mode profile agent project user st =
     (let mode1 = resolve_mode env mode agent;
          mode2 = lower (if mode1 \<noteq> [] then mode1 else mode_value MODE_AUDIT);
          profile2 = lower (if profile \<noteq> [] then profile else profile_value PROFILE_DEFAULT);
          rt = get_command_root command in
      if mode2 = mode_value MODE_OFF then
        (make_decision True ''Command policy is disabled'' profile2 mode2 rt, st)
      else
        (let (allow_match, al) =
           allow_check (allow_env_of env) now command (Some (resolved_agent env agent)) project user
             (ps_allowlist st);
             st1 = st\<lparr>ps_allowlist := al\<rparr> in
         case allow_match of
           Some m \<Rightarrow> (make_decision True (allowlist_reason (mt_entry m)) profile2 mode2 rt, st1)
         | None \<Rightarrow>
             if mode2 = mode_value MODE_ASK then
               evaluate_ask env now approval_id command mode2 profile2 st1
             else
               (let (allowed, reason, blocked_by) = evaluate_enforce_decision env command profile2 in
                if mode2 = mode_value MODE_ENFORCE then
                  (let d = make_decision allowed reason profile2 mode2 rt in
                   (if allowed then d else with_suggestions env command d, st1))
                else
                  (make_decision True (''AUDIT_ONLY: would_allow='' @ bool_str allowed @ ''; '' @ reason)
                     profile2 mode2 rt, st1))))"

subsection \<open>The gates\<close>

lemma enforce_allowed_iff:
  "fst (evaluate_enforce_decision env command profile) \<longleftrightarrow>
     contains_metachar command = None \<and> check_argument_shape command = None
     \<and> check_nested_commands (pe_re_search env) (pe_registry env) command = []
     \<and> fst (profile_evaluator_for env profile command (get_command_root command))"
  by (auto simp: evaluate_enforce_decision_def Let_def split: option.splits prod.splits)

lemma enforce_blocked_by:
  "evaluate_enforce_decision env command profile = (allowed, reason, blocked_by) \<Longrightarrow>
   (allowed \<longleftrightarrow> blocked_by = None)
   \<and> (blocked_by = Some ''metachar'' \<longleftrightarrow> contains_metachar command \<noteq> None)
   \<and> (blocked_by = Some ''argument_shape'' \<longleftrightarrow>
        contains_metachar command = None \<and> check_argument_shape command \<noteq> None)
   \<and> blocked_by \<in> {None, Some ''metachar'', Some ''argument_shape'', Some ''heredoc'', Some ''profile''}"
  by (auto simp: evaluate_enforce_decision_def Let_def split: option.splits prod.splits if_splits)

text \<open>
  Every profile other than the five listed ones, the empty and unknown names included, is
  evaluated by the default denylist.
\<close>

lemma default_profile:
  "profile \<notin> {''readonly'', ''testlint'', ''project-automation'', ''ops'', ''docker-admin''} \<Longrightarrow>
   profile_evaluator_for env profile = evaluate_default (pe_re_search env) (pe_registry env)"
  by (simp add: profile_evaluator_for_def)

text \<open>A mode that is none of the four is the audit mode.\<close>

lemma audit_allows:
  assumes "resolve_mode env mode agent = m" "lower m \<notin> {''off'', ''ask'', ''enforce''}"
  shows "dec_allowed (fst (evaluate_command_policy env now i command mode profile agent project user st))"
  using assms
  by (auto simp: evaluate_command_policy_def Let_def split: option.splits prod.splits)

subsection \<open>The life of an approval\<close>

definition no_approval :: "string \<Rightarrow> string \<Rightarrow> approval_store \<Rightarrow> bool" where
  "no_approval command profile s \<longleftrightarrow> (\<forall>e \<in> set s. \<not> approval_matches command profile e)"

lemma no_approval_expire:
  "dict_ok s \<Longrightarrow> no_approval command profile s \<Longrightarrow> no_approval command profile (ask_expire_stale now s)"
  by (auto simp: no_approval_def approvals.purge_iff)

lemma consume_none:
  assumes "dict_ok s" "no_approval command profile s"
  shows "find_and_consume_approval now command profile s = (None, ask_expire_stale now s)"
proof -
  have "find (approval_matches command profile) (ask_expire_stale now s) = None"
    using no_approval_expire [OF assms, of now] by (auto simp: no_approval_def find_None_iff)
  then show ?thesis by (simp add: find_and_consume_approval_def Let_def)
qed

text \<open>The store after a request is created and approved, and after its approval is consumed.\<close>

definition new_request ::
    "time \<Rightarrow> string \<Rightarrow> string \<Rightarrow> string \<Rightarrow> string option \<Rightarrow> string \<Rightarrow> approval_request" where
  "new_request now i command profile blocked_by reason =
     \<lparr>ar_approval_id = i, ar_command = command, ar_profile = profile, ar_blocked_by = blocked_by,
      ar_reason = reason, ar_created_at = now, ar_expires_at = now + APPROVAL_TTL_S,
      ar_approved = None, ar_approved_by = None\<rparr>"

definition approved_request :: "string \<Rightarrow> approval_request \<Rightarrow> approval_request" where
  "approved_request op r = r\<lparr>ar_approved := Some True, ar_approved_by := Some op\<rparr>"

lemma create_result:
  "create_approval_request now i command profile blocked_by reason s =
     (new_request now i command profile blocked_by reason,
      AList.update i (new_request now i command profile blocked_by reason) (ask_expire_stale now s))"
  by (simp add: create_approval_request_def new_request_def Let_def)

lemma approve_result:
  "t1 \<le> t0 + APPROVAL_TTL_S \<Longrightarrow>
   approve_request t1 i op (AList.update i (new_request t0 i command profile b r) s) =
     (True, AList.update i (approved_request op (new_request t0 i command profile b r))
              (AList.update i (new_request t0 i command profile b r) s))"
  by (simp add: approve_request_def decide_request_def new_request_def approved_request_def)

lemma consume_the_one:
  assumes "dict_ok s" "map_of s i = Some r" "approval_matches command profile (i, r)"
    and only: "\<And>e. e \<in> set s \<Longrightarrow> approval_matches command profile e \<Longrightarrow> fst e = i"
    and live: "now \<le> ar_expires_at r"
  shows "find_and_consume_approval now command profile s = (Some r, AList.delete i (ask_expire_stale now s))"
    and "no_approval command profile (AList.delete i (ask_expire_stale now s))"
proof -
  let ?t = "ask_expire_stale now s"
  have ok: "dict_ok ?t" by (rule approvals.ok_purge [OF assms(1)])
  have get: "map_of ?t i = Some r" using assms(1,2) live by (simp add: ask_expire_get)
  then have mem: "(i, r) \<in> set ?t" by (rule map_of_SomeD)
  have "find (approval_matches command profile) ?t \<noteq> None"
    using mem assms(3) by (auto simp: find_None_iff)
  then obtain j q where f: "find (approval_matches command profile) ?t = Some (j, q)" by auto
  then have jq: "(j, q) \<in> set ?t" "approval_matches command profile (j, q)"
    unfolding find_Some_iff by (metis nth_mem)+
  have "j = i" using only [of "(j, q)"] jq assms(1) by (simp add: approvals.purge_iff)
  moreover from this jq(1) ok get have "q = r" by (simp add: dict_get_Some_iff [symmetric])
  ultimately show "find_and_consume_approval now command profile s = (Some r, AList.delete i ?t)"
    using f by (simp add: find_and_consume_approval_def Let_def)
  show "no_approval command profile (AList.delete i ?t)"
    unfolding no_approval_def
  proof
    fix e
    assume "e \<in> set (AList.delete i ?t)"
    from delete_entries [OF this] only [of e] assms(1)
    show "\<not> approval_matches command profile e" by (auto simp: approvals.purge_iff)
  qed
qed

text \<open>C2: In ASK mode a command blocked by the heredoc scan or by its profile gets a pending request.
  After an operator approves it, the identical command passes exactly once within the 300
  seconds; the next attempt is refused again and needs a new request.\<close>

theorem ask_retry_once:
  assumes blocked: "evaluate_enforce_decision env command profile = (False, reason, Some b)"
      "b \<noteq> ''metachar''" "b \<noteq> ''argument_shape''"
    and start: "dict_ok (ps_approvals st)" "no_approval command profile (ps_approvals st)"
    and times: "t1 \<le> t0 + 300" "t2 \<le> t0 + 300"
    and first: "evaluate_ask env t0 i command mode profile st = (d0, st0)"
    and approve: "approve_request t1 i op (ps_approvals st0) = (ok, s1)"
    and second: "evaluate_ask env t2 i2 command mode profile (st0\<lparr>ps_approvals := s1\<rparr>) = (d2, st2)"
    and third: "evaluate_ask env t3 i3 command mode profile st2 = (d3, st3)"
  shows "\<not> dec_allowed d0 \<and> dec_approval_id d0 = Some i \<and> ok \<and> dec_allowed d2
    \<and> \<not> dec_allowed d3 \<and> dec_approval_id d3 = Some i3"
proof -
  let ?r = "new_request t0 i command profile (Some b) reason"
  let ?a = "approved_request op ?r"
  let ?s = "ask_expire_stale t0 (ps_approvals st)"
  have none: "find_and_consume_approval t0 command profile (ps_approvals st) = (None, ?s)"
    by (rule consume_none [OF start])
  have ok_s: "dict_ok ?s" by (rule approvals.ok_purge [OF start(1)])
  have idem: "ask_expire_stale t0 ?s = ?s" using approvals.purge_idem [OF start(1)] by simp
  have 0: "\<not> dec_allowed d0" "dec_approval_id d0 = Some i" "ps_approvals st0 = AList.update i ?r ?s"
    using first blocked none idem
    by (auto simp: evaluate_ask_def Let_def create_result new_request_def with_suggestions_def)
  have 1: "ok" "s1 = AList.update i ?a (AList.update i ?r ?s)"
    using approve 0(3) times(1) by (auto simp: approve_result APPROVAL_TTL_S_def)
  have ok1: "dict_ok s1" using ok_s 1(2) by simp
  have get: "map_of s1 i = Some ?a" by (simp add: 1(2))
  have match: "approval_matches command profile (i, ?a)"
    by (simp add: approval_matches_def approved_request_def new_request_def)
  have only: "fst e = i" if "e \<in> set s1" "approval_matches command profile e" for e
  proof (rule ccontr)
    assume ne: "fst e \<noteq> i"
    have "e \<in> set (AList.update i ?r ?s)"
      using update_entries [OF _ that(1) [unfolded 1(2)]] ok_s ne by auto
    from update_entries [OF ok_s this] ne have "e \<in> set ?s" by auto
    then show False
      using that(2) no_approval_expire [OF start] unfolding no_approval_def by blast
  qed
  have live: "t2 \<le> ar_expires_at ?a"
    using times(2) by (simp add: approved_request_def new_request_def APPROVAL_TTL_S_def)
  note consumed = consume_the_one [OF ok1 get match only live]
  have 2: "dec_allowed d2" "ps_approvals st2 = AList.delete i (ask_expire_stale t2 s1)"
    using second blocked consumed(1) by (auto simp: evaluate_ask_def Let_def)
  have ok2: "dict_ok (ps_approvals st2)"
    using approvals.ok_purge [OF ok1, of t2] 2(2) by simp
  have "find_and_consume_approval t3 command profile (ps_approvals st2)
      = (None, ask_expire_stale t3 (ps_approvals st2))"
    by (rule consume_none [OF ok2]) (simp add: 2(2) consumed(2))
  then have "\<not> dec_allowed d3" "dec_approval_id d3 = Some i3"
    using third blocked
    by (auto simp: evaluate_ask_def Let_def create_result new_request_def with_suggestions_def)
  with 0 1 2 show ?thesis by blast
qed

text \<open>A concrete environment: no packs, no agent configured.\<close>

definition demo_env :: policy_env where
  "demo_env = \<lparr>pe_re_search = (\<lambda>rx s. None), pe_plain = (\<lambda>rx s. False), pe_walk = (\<lambda>s. None),
     pe_registry = empty_registry, pe_environ = (\<lambda>v. None), pe_comm = None, pe_agent_modes = []\<rparr>"

definition demo_state :: policy_state where
  "demo_state = \<lparr>ps_allowlist = empty_allowlist, ps_approvals = []\<rparr>"

definition demo_ask :: "time \<Rightarrow> string \<Rightarrow> policy_state \<Rightarrow> command_policy_decision \<times> policy_state" where
  "demo_ask t i st = evaluate_ask demo_env t i ''reboot'' ''ask'' ''default'' st"

definition demo_approved :: policy_state where
  "demo_approved = (let st = snd (demo_ask 0 ''a1'' demo_state) in
     st\<lparr>ps_approvals := snd (approve_request 60 ''a1'' ''alice'' (ps_approvals st))\<rparr>)"

lemma demo_blocked:
  "evaluate_enforce_decision demo_env ''reboot'' ''default'' =
     (False, ''Root command '' @ quoted ''reboot'' @ '' denied (defense-in-depth)'', Some ''profile'')"
  by code_simp

lemma ask_retry_once_witness:
  "\<not> dec_allowed (fst (demo_ask 0 ''a1'' demo_state)) \<and>
   dec_allowed (fst (demo_ask 120 ''a2'' demo_approved)) \<and>
   \<not> dec_allowed (fst (demo_ask 180 ''a3'' (snd (demo_ask 120 ''a2'' demo_approved))))"
  using ask_retry_once [OF demo_blocked, of demo_state 60 0 120 "''a1''" "''ask''"
      "fst (demo_ask 0 ''a1'' demo_state)" "snd (demo_ask 0 ''a1'' demo_state)" "''alice''"
      "fst (approve_request 60 ''a1'' ''alice'' (ps_approvals (snd (demo_ask 0 ''a1'' demo_state))))"
      "snd (approve_request 60 ''a1'' ''alice'' (ps_approvals (snd (demo_ask 0 ''a1'' demo_state))))"
      "''a2''" "fst (demo_ask 120 ''a2'' demo_approved)" "snd (demo_ask 120 ''a2'' demo_approved)"
      180 "''a3''" "fst (demo_ask 180 ''a3'' (snd (demo_ask 120 ''a2'' demo_approved)))"
      "snd (demo_ask 180 ''a3'' (snd (demo_ask 120 ''a2'' demo_approved)))"]
  by (simp add: demo_ask_def demo_approved_def demo_state_def no_approval_def Let_def)

subsection \<open>What the modes decide\<close>

text \<open>C1: In enforce mode, without an allowlist match, a command is allowed iff it passes every gate: no
  metacharacter, no dangerous argument shape, no destructive pattern in a nested script, and the
  evaluator of its profile allows it. The state of the approvals is not touched.\<close>

theorem enforce_iff_all_gates:
  assumes "resolve_mode env mode agent = ''enforce''" "profile \<noteq> []"
    and "fst (allow_check (allow_env_of env) now command (Some (resolved_agent env agent)) project user
       (ps_allowlist st)) = None"
  shows "let r = evaluate_command_policy env now i command mode profile agent project user st in
    dec_allowed (fst r) =
      (contains_metachar command = None \<and> check_argument_shape command = None
       \<and> check_nested_commands (pe_re_search env) (pe_registry env) command = []
       \<and> fst (profile_evaluator_for env (lower profile) command (get_command_root command)))
    \<and> ps_approvals (snd r) = ps_approvals st"
proof -
  have m: "lower ''enforce'' = ''enforce''" by (simp add: char_lower_def)
  obtain al where c: "allow_check (allow_env_of env) now command (Some (resolved_agent env agent)) project user
       (ps_allowlist st) = (None, al)"
    using assms(3) by (metis prod.collapse)
  obtain allowed reason b where e: "evaluate_enforce_decision env command (lower profile) = (allowed, reason, b)"
    by (cases "evaluate_enforce_decision env command (lower profile)")
  have "evaluate_command_policy env now i command mode profile agent project user st =
      (let d = make_decision allowed reason (lower profile) ''enforce'' (get_command_root command)
       in (if allowed then d else with_suggestions env command d, st\<lparr>ps_allowlist := al\<rparr>))"
    using assms(1,2) c e m by (simp add: evaluate_command_policy_def Let_def)
  then show ?thesis
    using enforce_allowed_iff [of env command "lower profile"] e
    by (simp add: Let_def with_suggestions_def)
qed

lemma enforce_iff_all_gates_witness:
  "\<not> dec_allowed (fst (evaluate_command_policy demo_env 0 ''a1'' ''reboot'' ''enforce'' ''default'' (Some ''bot'')
     None None demo_state))"
proof -
  have m: "resolve_mode demo_env ''enforce'' (Some ''bot'') = ''enforce''"
    by (simp add: resolve_mode_def demo_env_def)
  have a: "fst (allow_check (allow_env_of demo_env) 0 ''reboot'' (Some (resolved_agent demo_env (Some ''bot'')))
      None None (ps_allowlist demo_state)) = None"
    by (simp add: allow_check_None demo_state_def empty_allowlist_def layer_entries_def LAYERS_def)
  have "\<not> fst (profile_evaluator_for demo_env (lower ''default'') ''reboot'' (get_command_root ''reboot''))"
    by code_simp
  with enforce_iff_all_gates [OF m _ a, of "''default''" "''a1''"] show ?thesis by (simp add: Let_def)
qed

text \<open>C9: Audit mode never blocks, changes the state as enforce mode does for the same call, and reports: without a match
  in the allowlist its reason is the text \<open>AUDIT_ONLY: would_allow=\<close> with the verdict of enforce mode, followed by the
  reason of enforce mode; on a match both modes allow, for the same reason.\<close>

theorem audit_reports_enforce:
  assumes "map_of (pe_agent_modes env) (resolved_agent env agent) = None"
  shows "let a = evaluate_command_policy env now i command ''audit'' profile agent project user st;
      e = evaluate_command_policy env now i command ''enforce'' profile agent project user st in
    dec_allowed (fst a) \<and> snd a = snd e
    \<and> (if fst (allow_check (allow_env_of env) now command (Some (resolved_agent env agent)) project user (ps_allowlist st)) = None
       then dec_reason (fst a) = ''AUDIT_ONLY: would_allow='' @ bool_str (dec_allowed (fst e)) @ ''; '' @ dec_reason (fst e)
       else dec_allowed (fst e) \<and> dec_reason (fst a) = dec_reason (fst e))"
proof -
  have r: "resolve_mode env m agent = m" for m
    using assms by (auto simp: resolve_mode_def resolved_agent_def Let_def)
  have m: "lower ''enforce'' = ''enforce''" "lower ''audit'' = ''audit''" by (simp_all add: char_lower_def)
  define p where "p = lower (if profile \<noteq> [] then profile else profile_value PROFILE_DEFAULT)"
  obtain mt al where c: "allow_check (allow_env_of env) now command (Some (resolved_agent env agent)) project user
       (ps_allowlist st) = (mt, al)" by fastforce
  obtain allowed reason b where e: "evaluate_enforce_decision env command p = (allowed, reason, b)"
    by (cases "evaluate_enforce_decision env command p")
  show ?thesis
  proof (cases mt)
    case None
    show ?thesis
      using c e unfolding evaluate_command_policy_def p_def [symmetric] r Let_def None
      by (simp add: m with_suggestions_def make_decision_def char_lower_def)
  next
    case (Some x)
    show ?thesis
      using c unfolding evaluate_command_policy_def p_def [symmetric] r Let_def Some
      by (simp add: m char_lower_def)
  qed
qed

lemma audit_reports_enforce_witness:
  "let a = fst (evaluate_command_policy demo_env 0 ''a1'' ''reboot'' ''audit'' ''default'' (Some ''bot'') None None demo_state) in
   dec_allowed a \<and> dec_reason a = ''AUDIT_ONLY: would_allow=False; '' @ dec_reason
     (fst (evaluate_command_policy demo_env 0 ''a1'' ''reboot'' ''enforce'' ''default'' (Some ''bot'') None None demo_state))"
proof -
  have "fst (allow_check (allow_env_of demo_env) 0 ''reboot'' (Some (resolved_agent demo_env (Some ''bot''))) None None (ps_allowlist demo_state)) = None"
      "\<not> dec_allowed (fst (evaluate_command_policy demo_env 0 ''a1'' ''reboot'' ''enforce'' ''default'' (Some ''bot'') None None demo_state))"
    by code_simp+
  moreover have "map_of (pe_agent_modes demo_env) (resolved_agent demo_env (Some ''bot'')) = None" by (simp add: demo_env_def)
  ultimately show ?thesis
    using audit_reports_enforce [of demo_env "Some ''bot''" 0 "''a1''" "''reboot''" "''default''" None None demo_state]
    by (simp add: Let_def bool_str_def)
qed

text \<open>Gates 1 and 2 are never escalated: in ASK mode a command with a metacharacter or a dangerous
  argument shape is refused without creating a request, and no approval can let it through.\<close>

theorem ask_hard_gates:
  assumes "contains_metachar command \<noteq> None \<or> check_argument_shape command \<noteq> None"
  shows "let (d, st') = evaluate_ask env now i command mode profile st in
    \<not> dec_allowed d \<and> \<not> dec_requires_approval d \<and> dec_approval_id d = None \<and> st' = st"
proof -
  obtain allowed reason b where e: "evaluate_enforce_decision env command profile = (allowed, reason, b)"
    by (cases "evaluate_enforce_decision env command profile")
  note gates = enforce_blocked_by [OF e]
  have b: "b = Some ''metachar'' \<or> b = Some ''argument_shape''"
  proof (cases "contains_metachar command")
    case None
    then show ?thesis using gates assms by simp
  next
    case (Some mc)
    then show ?thesis using gates by simp
  qed
  then have "\<not> allowed" using gates by (elim disjE) simp_all
  with b have "evaluate_ask env now i command mode profile st =
      (with_suggestions env command (make_decision False reason profile mode (get_command_root command)), st)"
    unfolding evaluate_ask_def Let_def e by (simp only: prod.case if_False if_True)
  then show ?thesis by (simp add: with_suggestions_def)
qed

lemma ask_hard_gates_witness:
  "\<not> dec_allowed (fst (evaluate_ask demo_env 0 ''a1'' ''ls; id'' ''ask'' ''readonly'' demo_state))"
proof -
  have "contains_metachar ''ls; id'' \<noteq> None" by code_simp
  then show ?thesis
    using ask_hard_gates [of "''ls; id''" demo_env 0 "''a1''" "''ask''" "''readonly''" demo_state]
    by (simp add: split_def Let_def)
qed

subsection \<open>What runs behind env\<close>

definition profile_roots :: "string \<Rightarrow> string set" where
  "profile_roots p =
     (if p = ''readonly'' then READONLY_ROOTS else if p = ''testlint'' then TESTLINT_ROOTS
      else if p = ''project-automation'' then PROJECT_AUTOMATION_ROOTS
      else if p = ''ops'' then OPS_ROOTS else DOCKER_ADMIN_ROOTS)"

definition profile_check :: "policy_env \<Rightarrow> string \<Rightarrow> string \<Rightarrow> string list \<Rightarrow> bool" where
  "profile_check env p r parts =
     (if p = ''ops'' then ops_validate (pe_re_search env) (pe_registry env) r parts
      else if p = ''docker-admin'' then docker_validate (pe_re_search env) (pe_registry env) r parts
      else git_validate r parts)"

text \<open>C3: \<open>env\<close> hides nothing from an allowlist profile: when a command whose root is \<open>env\<close> is allowed,
  the command it finally unwraps to has a root in the profile's allowlist other than \<open>env\<close>,
  passes the profile's argument check and has no dangerous token.\<close>

theorem env_hides_nothing:
  assumes "p \<in> {''readonly'', ''testlint'', ''project-automation'', ''ops'', ''docker-admin''}"
    and "fst (profile_evaluator_for env p command (Some ''env''))"
  shows "\<exists>r rest. run_target command ''env'' = r # rest \<and> r \<noteq> ''env'' \<and> r \<in> profile_roots p
    \<and> profile_check env p r (r # rest) \<and> contains_dangerous_token (shlex_join (r # rest)) = None"
proof -
  note defs = profile_evaluator_for_def profile_roots_def profile_check_def
  from assms(1) show ?thesis
  proof (elim insertE emptyE)
    assume "p = ''readonly''"
    then show ?thesis using assms(2) readonly.target_listed [of command] by (simp add: defs)
  next
    assume "p = ''testlint''"
    then show ?thesis using assms(2) testlint.target_listed [of command] by (simp add: defs)
  next
    assume "p = ''project-automation''"
    then show ?thesis using assms(2) project_automation.target_listed [of command] by (simp add: defs)
  next
    assume "p = ''ops''"
    then show ?thesis
      using assms(2) ops.target_listed [of "pe_re_search env" "pe_registry env" command] by (simp add: defs)
  next
    assume "p = ''docker-admin''"
    then show ?thesis
      using assms(2) docker_admin.target_listed [of "pe_re_search env" "pe_registry env" command]
      by (simp add: defs)
  qed
qed

lemma env_hides_nothing_witness:
  "\<exists>r rest. run_target ''env A=1 env -i ls -l'' ''env'' = r # rest \<and> r \<in> READONLY_ROOTS"
proof -
  have "fst (profile_evaluator_for demo_env ''readonly'' ''env A=1 env -i ls -l'' (Some ''env''))" by code_simp
  from env_hides_nothing [OF _ this] show ?thesis by (auto simp: profile_roots_def)
qed

text \<open>Enforce mode lets two commands through when a single ampersand or a newline separates them.\<close>

lemma enforce_allows_background_command:
  "fst (evaluate_enforce_decision demo_env ''ls & reboot'' ''readonly'')"
  by code_simp

end
