(* ===== verification/AccessControl.thy ===== *)
theory AccessControl
  imports Prelude
begin

text \<open>
  \<open>app/access_control.py\<close>: the decisions on actor and address pairs. \<open>sha\<close> stands for the
  hexadecimal SHA-256 digest. The store record keeps the dictionary and the time-to-live
  settings; clock readings are arguments. Redis is seen through the rows the code writes to it
  and reads from it; \<open>str_of\<close> and \<open>float_of\<close> are \<open>str\<close> and \<open>float\<close> on the time stamps. The
  background tasks, the connection and its logging are not modelled.
\<close>

record access_decision =
  ad_key_hash :: string
  ad_decision :: string
  ad_actor_fingerprint :: string
  ad_source_ip :: string
  ad_reason :: string
  ad_decided_by :: string
  ad_created_at :: time
  ad_expires_at :: time

record access_policy_result =
  apr_state :: string
  apr_effective_profile :: string
  apr_reason :: string
  apr_key_hash :: string

datatype access_error = AccessDenied string

record access_store =
  acs_store :: "(string \<times> access_decision) list"
  acs_pending_ttl :: int
  acs_allow_ttl :: int
  acs_deny_ttl :: int

definition make_access_key_hash :: "(string \<Rightarrow> string) \<Rightarrow> string \<Rightarrow> string \<Rightarrow> string" where
  "make_access_key_hash sha actor ip = take 16 (sha (actor @ '':'' @ ip))"

definition capped_profile :: "string \<Rightarrow> string" where
  "capped_profile requested =
     (if requested = ''readonly'' \<or> requested = ''testlint'' then requested else ''readonly'')"

definition new_access_store :: "int \<Rightarrow> int \<Rightarrow> int \<Rightarrow> access_store" where
  "new_access_store pending_ttl allow_ttl deny_ttl =
     \<lparr>acs_store = [], acs_pending_ttl = pending_ttl, acs_allow_ttl = allow_ttl, acs_deny_ttl = deny_ttl\<rparr>"

definition ttl_for :: "access_store \<Rightarrow> string \<Rightarrow> int" where
  "ttl_for s decision =
     (if decision = ''pending'' then acs_pending_ttl s
      else if decision = ''denied'' then acs_deny_ttl s
      else acs_allow_ttl s)"

definition access_get ::
    "(string \<Rightarrow> string) \<Rightarrow> time \<Rightarrow> string \<Rightarrow> string \<Rightarrow> access_store \<Rightarrow> access_decision option \<times> access_store" where
  "access_get sha now actor ip s =
     (let key_hash = make_access_key_hash sha actor ip in
      case map_of (acs_store s) key_hash of
        None \<Rightarrow> (None, s)
      | Some entry \<Rightarrow>
          if ad_expires_at entry < now then
            (None, s\<lparr>acs_store := AList.delete key_hash (acs_store s)\<rparr>)
          else (Some entry, s))"

definition access_set ::
    "(string \<Rightarrow> string) \<Rightarrow> time \<Rightarrow> string \<Rightarrow> string \<Rightarrow> string \<Rightarrow> string \<Rightarrow> string \<Rightarrow> int option \<Rightarrow> access_store
      \<Rightarrow> access_decision \<times> access_store" where
  "access_set sha now actor ip decision reason decided_by ttl_seconds s =
     (let key_hash = make_access_key_hash sha actor ip;
          ttl = (case ttl_seconds of Some t \<Rightarrow> t | None \<Rightarrow> ttl_for s decision);
          entry = \<lparr>ad_key_hash = key_hash, ad_decision = decision, ad_actor_fingerprint = actor,
                   ad_source_ip = ip, ad_reason = reason, ad_decided_by = decided_by,
                   ad_created_at = now, ad_expires_at = now + of_int ttl\<rparr>
      in (entry, s\<lparr>acs_store := AList.update key_hash entry (acs_store s)\<rparr>))"

definition access_delete :: "(string \<Rightarrow> string) \<Rightarrow> string \<Rightarrow> string \<Rightarrow> access_store \<Rightarrow> access_store" where
  "access_delete sha actor ip s =
     s\<lparr>acs_store := AList.delete (make_access_key_hash sha actor ip) (acs_store s)\<rparr>"

definition access_expired :: "time \<Rightarrow> string \<times> access_decision \<Rightarrow> bool" where
  "access_expired now e \<longleftrightarrow> ad_expires_at (snd e) < now"

definition cleanup_expired :: "time \<Rightarrow> access_store \<Rightarrow> nat \<times> access_store" where
  "cleanup_expired now s =
     (let expired = map fst (filter (access_expired now) (acs_store s)) in
      (length expired, s\<lparr>acs_store := fold AList.delete expired (acs_store s)\<rparr>))"

text \<open>\<open>entries[:n]\<close> for an integer \<open>n\<close>: a negative one counts from the end.\<close>

definition slice_upto :: "int \<Rightarrow> 'a list \<Rightarrow> 'a list" where
  "slice_upto n xs = (if 0 \<le> n then take (nat n) xs else take (length xs - nat (- n)) xs)"

text \<open>Python's sort is stable, also with \<open>reverse\<close>: equal keys keep their order.\<close>

definition recent ::
    "time \<Rightarrow> int \<Rightarrow> string option \<Rightarrow> string \<Rightarrow> access_store \<Rightarrow> access_decision list \<times> access_store" where
  "recent now limit decision order s =
     (let s' = snd (cleanup_expired now s);
          entries = map snd (acs_store s');
          chosen = (case decision of None \<Rightarrow> entries | Some d \<Rightarrow> filter (\<lambda>e. ad_decision e = d) entries);
          sorted = (if order \<noteq> ''oldest'' then sort_key (\<lambda>e. - ad_created_at e) chosen
                    else sort_key ad_created_at chosen)
      in (slice_upto (min limit 1000) sorted, s'))"

definition access_clear ::
    "(string \<Rightarrow> string) \<Rightarrow> string \<Rightarrow> string \<Rightarrow> access_store \<Rightarrow> access_decision option \<times> access_store" where
  "access_clear sha actor ip s =
     (let key_hash = make_access_key_hash sha actor ip in
      (map_of (acs_store s) key_hash, s\<lparr>acs_store := AList.delete key_hash (acs_store s)\<rparr>))"

definition ttl_remaining :: "time \<Rightarrow> access_decision \<Rightarrow> time" where
  "ttl_remaining now entry = max 0 (ad_expires_at entry - now)"

subsection \<open>The rows in Redis\<close>

type_synonym redis_row = "(string \<times> string) list"

definition save_row :: "(time \<Rightarrow> string) \<Rightarrow> access_decision \<Rightarrow> redis_row" where
  "save_row str_of e =
     [(''key_hash'', ad_key_hash e), (''decision'', ad_decision e),
      (''actor_fingerprint'', ad_actor_fingerprint e), (''source_ip'', ad_source_ip e),
      (''reason'', ad_reason e), (''decided_by'', ad_decided_by e),
      (''created_at'', str_of (ad_created_at e)), (''expires_at'', str_of (ad_expires_at e))]"

definition save_ttl :: "time \<Rightarrow> access_decision \<Rightarrow> int" where
  "save_ttl now e = max 1 (let x = ad_expires_at e - now in if 0 \<le> x then \<lfloor>x\<rfloor> else \<lceil>x\<rceil>)"

definition dict_get_or :: "string \<Rightarrow> string \<Rightarrow> (string \<times> string) list \<Rightarrow> string" where
  "dict_get_or k d row = (case map_of row k of None \<Rightarrow> d | Some v \<Rightarrow> v)"

text \<open>
  One row: \<open>None\<close> when it is skipped, for an empty or expired row and for the exceptions the
  loop catches (a field that is missing or is no number).
\<close>

definition load_row :: "(string \<Rightarrow> time option) \<Rightarrow> time \<Rightarrow> redis_row \<Rightarrow> access_decision option" where
  "load_row float_of now row =
     (if row = [] then None
      else case float_of (dict_get_or ''expires_at'' ''0'' row) of
        None \<Rightarrow> None
      | Some expires_at \<Rightarrow>
          if expires_at < now then None
          else case (map_of row ''key_hash'', map_of row ''decision'', map_of row ''actor_fingerprint'',
                     map_of row ''source_ip'', float_of (dict_get_or ''created_at'' ''0'' row)) of
            (Some k, Some d, Some a, Some i, Some c) \<Rightarrow>
              Some \<lparr>ad_key_hash = k, ad_decision = d, ad_actor_fingerprint = a, ad_source_ip = i,
                    ad_reason = dict_get_or ''reason'' [] row,
                    ad_decided_by = dict_get_or ''decided_by'' ''system'' row,
                    ad_created_at = c, ad_expires_at = expires_at\<rparr>
          | _ \<Rightarrow> None)"

fun load_from_redis ::
    "(string \<Rightarrow> time option) \<Rightarrow> time \<Rightarrow> redis_row list \<Rightarrow> access_store \<Rightarrow> nat \<times> access_store" where
  "load_from_redis float_of now [] s = (0, s)"
| "load_from_redis float_of now (row # rows) s =
     (case load_row float_of now row of
        None \<Rightarrow> load_from_redis float_of now rows s
      | Some e \<Rightarrow>
          (let (n, s') = load_from_redis float_of now rows
                           (s\<lparr>acs_store := AList.update (ad_key_hash e) e (acs_store s)\<rparr>)
           in (n + 1, s')))"

subsection \<open>Policy resolution\<close>

definition resolve_access_policy ::
    "(string \<Rightarrow> string) \<Rightarrow> time \<Rightarrow> string \<Rightarrow> string \<Rightarrow> string \<Rightarrow> string \<Rightarrow> bool \<Rightarrow> access_store
      \<Rightarrow> (access_error + access_policy_result) \<times> access_store" where
  "resolve_access_policy sha now actor token_type ip requested enforce_master s =
     (let key_hash = make_access_key_hash sha actor ip in
      if token_type = ''master'' \<and> \<not> enforce_master then
        (Inr \<lparr>apr_state = ''exempt'', apr_effective_profile = requested,
              apr_reason = ''master identity exempt from access gate'', apr_key_hash = key_hash\<rparr>, s)
      else
        (let (entry, s') = access_get sha now actor ip s;
             pending = Inr \<lparr>apr_state = ''pending'', apr_effective_profile = capped_profile requested,
               apr_reason = ''unknown or pending actor '' @ em_dash @ '' profile capped'',
               apr_key_hash = key_hash\<rparr>
         in case entry of
              None \<Rightarrow> (pending, s')
            | Some e \<Rightarrow>
                if ad_decision e = ''pending'' then (pending, s')
                else if ad_decision e = ''denied'' then
                  (Inl (AccessDenied (''actor '' @ take 12 actor @ ''... denied: '' @ ad_reason e)), s')
                else
                  (Inr \<lparr>apr_state = ''allowed'', apr_effective_profile = requested,
                        apr_reason = ad_reason e, apr_key_hash = key_hash\<rparr>, s')))"

subsection \<open>The store expires its entries\<close>

definition access_ok :: "access_store \<Rightarrow> bool" where
  "access_ok s \<longleftrightarrow> dict_ok (acs_store s) \<and> (\<forall>(k, e) \<in> set (acs_store s). ad_key_hash e = k)"

lemma cleanup_filter:
  "dict_ok (acs_store s) \<Longrightarrow>
   acs_store (snd (cleanup_expired now s)) = filter (\<lambda>e. \<not> access_expired now e) (acs_store s)"
  by (simp add: cleanup_expired_def Let_def delete_keys_filter)

interpretation access: expiring_store access_ok acs_store access_expired
  "\<lambda>now s. snd (cleanup_expired now s)"
  by unfold_locales (auto simp: access_ok_def cleanup_filter access_expired_def)

lemma cleanup_count:
  "access_ok s \<Longrightarrow> fst (cleanup_expired now s)
     = length (acs_store s) - length (acs_store (snd (cleanup_expired now s)))"
  using access.purged_count [of s now] by (simp add: cleanup_expired_def Let_def)

lemma access_ok_new: "access_ok (new_access_store p a d)"
  by (simp add: access_ok_def new_access_store_def)

lemma set_update: "set (AList.update k v d) \<subseteq> insert (k, v) (set d)"
  by (induction d) auto

lemma access_ok_update:
  "access_ok s \<Longrightarrow> ad_key_hash e = k \<Longrightarrow> access_ok (s\<lparr>acs_store := AList.update k e (acs_store s)\<rparr>)"
  using set_update [of k e "acs_store s"] unfolding access_ok_def by fastforce

lemma access_ok_delete: "access_ok s \<Longrightarrow> access_ok (s\<lparr>acs_store := AList.delete k (acs_store s)\<rparr>)"
  unfolding access_ok_def by (auto simp: AList.delete_eq dict_ok_filter)

lemma access_ok_set: "access_ok s \<Longrightarrow> access_ok (snd (access_set sha now a i d r by ttl s))"
  by (simp add: access_set_def Let_def access_ok_update)

lemma access_ok_get: "access_ok s \<Longrightarrow> access_ok (snd (access_get sha now a i s))"
  by (simp add: access_get_def Let_def access_ok_delete split: option.split)

lemma access_ok_load: "access_ok s \<Longrightarrow> access_ok (snd (load_from_redis float_of now rows s))"
proof (induction rows arbitrary: s)
  case (Cons row rows)
  then show ?case
    by (cases "load_row float_of now row") (auto simp: split_def Let_def access_ok_update)
qed simp

lemma access_ok_resolve:
  "access_ok s \<Longrightarrow> access_ok (snd (resolve_access_policy sha now a t i r m s))"
  using access_ok_get [of s sha now a i]
  by (auto simp: resolve_access_policy_def Let_def split: prod.splits option.splits)

subsection \<open>What a decision gives\<close>

lemma get_after_set:
  "fst (access_get sha t a i (snd (access_set sha now a i d r by ttl s))) =
     (let e = fst (access_set sha now a i d r by ttl s) in if ad_expires_at e < t then None else Some e)"
  by (simp add: access_get_def access_set_def Let_def)

lemma capped_profile_cases: "capped_profile p = ''readonly'' \<or> capped_profile p = ''testlint''"
  by (simp add: capped_profile_def)

text \<open>A decision holds for its time-to-live and no longer: until the deadline a denied actor is
  rejected, an allowed one keeps the requested profile; after it the actor is pending again,
  capped to readonly or testlint. The master identity is exempt unless the gate enforces it.\<close>

theorem decision_lifetime:
  assumes "t \<noteq> ''master'' \<or> enforce"
  shows "let s' = snd (access_set sha now a ip d reason by (Some ttl) s);
      r = fst (resolve_access_policy sha now' a t ip p enforce s') in
    if now + of_int ttl < now' \<or> d = ''pending'' then
      \<exists>res. r = Inr res \<and> apr_state res = ''pending'' \<and> apr_effective_profile res \<in> {''readonly'', ''testlint''}
    else if d = ''denied'' then r = Inl (AccessDenied (''actor '' @ take 12 a @ ''... denied: '' @ reason))
    else \<exists>res. r = Inr res \<and> apr_state res = ''allowed'' \<and> apr_effective_profile res = p"
  using assms
  by (simp add: resolve_access_policy_def access_get_def access_set_def Let_def capped_profile_def)

lemma decision_lifetime_witness:
  "fst (resolve_access_policy (\<lambda>x. x) 50 ''fp'' ''agent'' ''10.0.0.1'' ''ops'' False
     (snd (access_set (\<lambda>x. x) 0 ''fp'' ''10.0.0.1'' ''denied'' ''abuse'' ''operator'' (Some 100)
       (new_access_store 900 86400 86400))))
   = Inl (AccessDenied (''actor fp... denied: abuse''))"
  using decision_lifetime [of "''agent''" False "\<lambda>x. x" 0 "''fp''" "''10.0.0.1''" "''denied''" "''abuse''"
      "''operator''" 100 "new_access_store 900 86400 86400" 50 "''ops''"]
  by (simp add: Let_def)

text \<open>What is written to Redis comes back: loading the row saved for a decision that has not expired
  gives the decision, as long as \<open>float(str(x))\<close> is \<open>x\<close> for its two time stamps.\<close>

theorem redis_row_round_trip:
  assumes "float_of (str_of (ad_created_at e)) = Some (ad_created_at e)"
    "float_of (str_of (ad_expires_at e)) = Some (ad_expires_at e)" "now \<le> ad_expires_at e"
  shows "load_row float_of now (save_row str_of e) = Some e"
  using assms by (simp add: load_row_def save_row_def dict_get_or_def)

lemma redis_row_round_trip_witness:
  "load_row (\<lambda>s. if s = ''10.0'' then Some 10 else if s = ''910.0'' then Some 910 else None) 100
     (save_row (\<lambda>x. if x = 10 then ''10.0'' else ''910.0'')
       \<lparr>ad_key_hash = ''k'', ad_decision = ''allowed'', ad_actor_fingerprint = ''fp'', ad_source_ip = ''10.0.0.1'',
        ad_reason = [], ad_decided_by = ''operator'', ad_created_at = 10, ad_expires_at = 910\<rparr>)
   = Some \<lparr>ad_key_hash = ''k'', ad_decision = ''allowed'', ad_actor_fingerprint = ''fp'', ad_source_ip = ''10.0.0.1'',
        ad_reason = [], ad_decided_by = ''operator'', ad_created_at = 10, ad_expires_at = 910\<rparr>"
  by (rule redis_row_round_trip) simp_all

text \<open>The store stays well formed: every operation keeps the keys distinct and every entry under the
  hash it carries, and the cleanup removes exactly the entries past their deadline.\<close>

theorem access_store_invariant:
  assumes "access_ok s"
  shows "access_ok (snd (access_set sha now a i d r by ttl s)) \<and> access_ok (snd (access_get sha now a i s))
    \<and> access_ok (access_delete sha a i s) \<and> access_ok (snd (access_clear sha a i s))
    \<and> access_ok (snd (recent now limit dec ord s)) \<and> access_ok (snd (load_from_redis float_of now rows s))
    \<and> access_ok (snd (resolve_access_policy sha now a t i p m s))
    \<and> acs_store (snd (cleanup_expired now s)) = filter (\<lambda>e. now \<le> ad_expires_at (snd e)) (acs_store s)"
proof -
  have "filter (\<lambda>e. \<not> access_expired now e) (acs_store s) = filter (\<lambda>e. now \<le> ad_expires_at (snd e)) (acs_store s)"
    by (rule filter_cong) (auto simp: access_expired_def)
  then show ?thesis
    using assms access_ok_set access_ok_get access_ok_load access_ok_resolve access_ok_delete
      access.ok_purge [OF assms, of now] access.entries_purge [OF assms, of now]
    by (simp add: access_delete_def access_clear_def recent_def Let_def)
qed

lemma access_store_invariant_witness:
  "access_ok (snd (access_set (\<lambda>x. x) 0 ''fp'' ''10.0.0.1'' ''denied'' ''abuse'' ''operator'' None
     (new_access_store 900 86400 86400)))"
  using access_store_invariant [OF access_ok_new] by blast

end
