(* ===== verification/Rbac.thy ===== *)
theory Rbac
  imports Prelude
begin

text \<open>
  \<open>app/rbac.py\<close>: roles, permissions and tenant isolation. A frozen set of permissions is a set,
  the insertion order of \<open>SCOPE_PERMISSIONS\<close> is kept because \<open>scopes_for_role\<close> lists it.
\<close>

datatype permission = CONNECT | EXECUTE | UPLOAD | ADMIN

record role =
  rl_name :: string
  rl_permissions :: "permission set"
  rl_resource_selector :: "string list"

definition ALL_PERMISSIONS :: "permission set" where
  "ALL_PERMISSIONS = {CONNECT, EXECUTE, UPLOAD, ADMIN}"

definition BUILTIN_ROLES :: "(string \<times> role) list" where
  "BUILTIN_ROLES =
    [(''admin'', \<lparr>rl_name = ''admin'', rl_permissions = ALL_PERMISSIONS, rl_resource_selector = []\<rparr>),
     (''operator'', \<lparr>rl_name = ''operator'', rl_permissions = {CONNECT, EXECUTE, UPLOAD},
        rl_resource_selector = []\<rparr>),
     (''viewer'', \<lparr>rl_name = ''viewer'', rl_permissions = {CONNECT}, rl_resource_selector = []\<rparr>),
     (''custom'', \<lparr>rl_name = ''custom'', rl_permissions = {}, rl_resource_selector = []\<rparr>)]"

definition SCOPE_PERMISSIONS :: "(string \<times> permission) list" where
  "SCOPE_PERMISSIONS =
    [(''ssh:connect'', CONNECT), (''ssh:execute'', EXECUTE), (''ssh:execute:argv'', EXECUTE),
     (''ssh:disconnect'', EXECUTE), (''ssh:files'', UPLOAD), (''ssh:port-check'', CONNECT),
     (''jobs:read'', CONNECT), (''jobs:run'', EXECUTE), (''auth:read'', CONNECT),
     (''diagnostics:read'', CONNECT), (''project:read'', CONNECT), (''project:patch'', EXECUTE),
     (''project:write'', EXECUTE)]"

definition get_role :: "string option \<Rightarrow> role option" where
  "get_role name = (case name of None \<Rightarrow> None | Some n \<Rightarrow> map_of BUILTIN_ROLES n)"

definition default_role_for_scopes :: "string list option \<Rightarrow> string option" where
  "default_role_for_scopes scopes = (if scopes = Some [''*''] then Some ''admin'' else None)"

definition scopes_for_role :: "string option \<Rightarrow> string list" where
  "scopes_for_role role =
     (if role = Some ''admin'' then [''*'']
      else case map_of BUILTIN_ROLES (case role of None \<Rightarrow> [] | Some r \<Rightarrow> r) of
        None \<Rightarrow> []
      | Some d \<Rightarrow> map fst (filter (\<lambda>(scope, perm). perm \<in> rl_permissions d) SCOPE_PERMISSIONS))"

definition role_allows_scope :: "string option \<Rightarrow> permission set option \<Rightarrow> string \<Rightarrow> bool" where
  "role_allows_scope role_name custom_permissions required_scope =
     (case role_name of
        None \<Rightarrow> False
      | Some name \<Rightarrow>
          if name = ''admin'' then True
          else
            (case (case custom_permissions of
                     Some ps \<Rightarrow> if name = ''custom'' then Some ps
                                else map_option rl_permissions (map_of BUILTIN_ROLES name)
                   | None \<Rightarrow> map_option rl_permissions (map_of BUILTIN_ROLES name)) of
               None \<Rightarrow> False
             | Some permissions \<Rightarrow>
                 (case map_of SCOPE_PERMISSIONS required_scope of
                    None \<Rightarrow> False | Some needed \<Rightarrow> needed \<in> permissions)))"

subsection \<open>Tenant isolation\<close>

text \<open>Label collections are lists; a value of another type gives \<open>False\<close> in the code and has no model.\<close>

definition labels_overlap :: "string list \<Rightarrow> string list \<Rightarrow> bool" where
  "labels_overlap a b = (if a = [] \<or> b = [] then False else set a \<inter> set b \<noteq> {})"

record caller =
  cl_token_type :: string
  cl_role :: "string option"
  cl_fingerprint :: string
  cl_tenant_labels :: "string list"

text \<open>The attributes read by \<open>getattr\<close>, absent or not.\<close>

record session_owner =
  so_owner_type :: "string option"
  so_fingerprint :: "string option"
  so_tenant_labels :: "string list"

definition session_visible_to :: "session_owner \<Rightarrow> caller \<Rightarrow> bool" where
  "session_visible_to session identity =
     (if cl_token_type identity = ''master'' then True
      else if cl_role identity = Some ''admin'' then True
      else if so_owner_type session = Some ''agent''
              \<and> so_fingerprint session = Some (cl_fingerprint identity) then True
      else if (case get_role (cl_role identity) of
                 None \<Rightarrow> False
               | Some r \<Rightarrow> rl_resource_selector r \<noteq> []
                   \<and> labels_overlap (rl_resource_selector r) (so_tenant_labels session)) then True
      else labels_overlap (cl_tenant_labels identity) (so_tenant_labels session))"

definition job_visible_to :: "string \<Rightarrow> caller \<Rightarrow> bool" where
  "job_visible_to owner_id identity =
     (if cl_token_type identity = ''master'' then True
      else if cl_role identity = Some ''admin'' then True
      else owner_id \<noteq> [] \<and> owner_id = cl_fingerprint identity)"

subsection \<open>Lemmas\<close>

lemma scopes_distinct: "distinct (map fst SCOPE_PERMISSIONS)"
  by (simp add: SCOPE_PERMISSIONS_def)

lemma scopes_for_role_iff:
  assumes "r \<noteq> ''admin''"
  shows "sc \<in> set (scopes_for_role (Some r)) \<longleftrightarrow>
    (\<exists>d p. map_of BUILTIN_ROLES r = Some d \<and> map_of SCOPE_PERMISSIONS sc = Some p \<and> p \<in> rl_permissions d)"
proof (cases "map_of BUILTIN_ROLES r")
  case (Some d)
  have "sc \<in> set (scopes_for_role (Some r)) \<longleftrightarrow> (\<exists>p. (sc, p) \<in> set SCOPE_PERMISSIONS \<and> p \<in> rl_permissions d)"
    using assms Some by (auto simp: scopes_for_role_def image_iff)
  with Some show ?thesis by (simp add: map_of_eq_Some_iff [OF scopes_distinct])
qed (use assms in \<open>simp add: scopes_for_role_def\<close>)

lemma pty_unmapped: "map_of SCOPE_PERMISSIONS ''ssh:pty'' = None"
  by (simp add: SCOPE_PERMISSIONS_def)

lemma builtin_selectors: "(n, r) \<in> set BUILTIN_ROLES \<Longrightarrow> rl_resource_selector r = []"
  by (auto simp: BUILTIN_ROLES_def)

lemma role_selector_empty: "get_role name = Some r \<Longrightarrow> rl_resource_selector r = []"
  by (auto simp: get_role_def split: option.splits dest: map_of_SomeD builtin_selectors)

text \<open>The two ways to read a role agree: for every role but admin, \<open>scopes_for_role\<close> lists exactly the
  scopes \<open>role_allows_scope\<close> grants without custom permissions; a role that is not built in grants
  nothing, and no role but admin grants the interactive terminal.\<close>

theorem role_scopes_agree:
  assumes "r \<noteq> ''admin''"
  shows "(sc \<in> set (scopes_for_role (Some r))) = role_allows_scope (Some r) None sc
    \<and> (map_of BUILTIN_ROLES r = None \<longrightarrow> scopes_for_role (Some r) = [])
    \<and> \<not> role_allows_scope (Some r) custom ''ssh:pty''"
proof -
  have "(sc \<in> set (scopes_for_role (Some r))) = role_allows_scope (Some r) None sc"
    using assms scopes_for_role_iff [OF assms]
    by (auto simp: role_allows_scope_def split: option.splits)
  moreover have "map_of BUILTIN_ROLES r = None \<longrightarrow> scopes_for_role (Some r) = []"
    using assms by (simp add: scopes_for_role_def)
  moreover have "\<not> role_allows_scope (Some r) custom ''ssh:pty''"
    using assms pty_unmapped by (auto simp: role_allows_scope_def split: option.splits)
  ultimately show ?thesis by blast
qed

lemma role_scopes_agree_witness:
  "(''jobs:run'' \<in> set (scopes_for_role (Some ''operator''))) = role_allows_scope (Some ''operator'') None ''jobs:run''"
  using role_scopes_agree [of "''operator''"] by simp

text \<open>Tenant isolation: a caller that is neither master nor admin sees a session only if it created
  the session or shares a tenant label with it, and a job only if it owns it. The resource selector plays
  no part in this: the selectors of the built-in roles are all empty, and an empty selector gives no
  session here, although the documentation of \<open>Role\<close> says that it matches all resources.\<close>

theorem tenant_isolation:
  assumes "cl_token_type i \<noteq> ''master''" "cl_role i \<noteq> Some ''admin''"
  shows "session_visible_to s i =
      (so_owner_type s = Some ''agent'' \<and> so_fingerprint s = Some (cl_fingerprint i)
       \<or> set (cl_tenant_labels i) \<inter> set (so_tenant_labels s) \<noteq> {})
    \<and> job_visible_to owner i = (owner \<noteq> [] \<and> owner = cl_fingerprint i)"
  using assms role_selector_empty
  by (auto simp: session_visible_to_def job_visible_to_def labels_overlap_def split: option.splits)

lemma tenant_isolation_witness:
  "\<not> session_visible_to \<lparr>so_owner_type = Some ''agent'', so_fingerprint = Some ''f1'', so_tenant_labels = [''acme'']\<rparr>
      \<lparr>cl_token_type = ''agent'', cl_role = Some ''operator'', cl_fingerprint = ''f2'', cl_tenant_labels = [''other'']\<rparr>"
  using tenant_isolation [of "\<lparr>cl_token_type = ''agent'', cl_role = Some ''operator'', cl_fingerprint = ''f2'',
      cl_tenant_labels = [''other'']\<rparr>"] by simp

end
