(* ===== verification/AuthMiddleware.thy ===== *)
theory AuthMiddleware
  imports Rbac
begin

text \<open>
  \<open>app/auth_middleware.py\<close> and the token store of \<open>app/agent_token_store.py\<close>: who is calling,
  from which address, and with which scopes.

  \<open>auth_lib\<close> carries the library functions the code calls: SHA-256, \<open>ipaddress\<close>, \<open>urlparse\<close>
  (\<open>None\<close> when it raises) and the decoding of a web token (\<open>verify_jwt\<close>). A header that is
  absent is the empty string, as the code reads it. \<open>secrets.compare_digest\<close> raises a
  \<open>TypeError\<close> on strings that are not ASCII; an exception that leaves a function is a
  \<open>Raised\<close> value with its type's name.
\<close>

record auth_identity =
  id_token_type :: string
  id_token :: string
  id_name :: "string option"
  id_scopes :: "string list"
  id_role :: "string option"
  id_role_permissions :: "permission set option"
  id_tenant_labels :: "string list"
  id_via_cookie :: bool

record jwt_payload =
  jp_sub :: "string option"
  jp_role :: "string option option"

record auth_lib =
  lib_sha :: "string \<Rightarrow> string"
  lib_net_ok :: "string \<Rightarrow> bool"
  lib_addr_ok :: "string \<Rightarrow> bool"
  lib_in_net :: "string \<Rightarrow> string \<Rightarrow> bool"
  lib_urlparse :: "string \<Rightarrow> (string option \<times> string) option"
  lib_verify_jwt :: "string \<Rightarrow> jwt_payload option"

record auth_settings =
  st_api_auth_enabled :: bool
  st_api_key :: string
  st_agent_token :: string
  st_agent_token_scopes :: "string list"
  st_agent_token_expires_at :: "time option"
  st_allowed_client_cidrs :: string
  st_trusted_proxy_cidrs :: string

record request =
  rq_method :: string
  rq_path :: string
  rq_client :: "string option"
  rq_api_key :: string
  rq_authorization :: string
  rq_forwarded_for :: string
  rq_origin :: string
  rq_referer :: string
  rq_host :: string
  rq_cookie :: string
  rq_token_param :: string

datatype 'a outcome = Raised string | Rejected nat string | Done 'a

definition master_identity :: "string \<Rightarrow> string \<Rightarrow> auth_identity" where
  "master_identity token name =
     \<lparr>id_token_type = ''master'', id_token = token, id_name = Some name, id_scopes = [''*''],
      id_role = None, id_role_permissions = None, id_tenant_labels = [], id_via_cookie = False\<rparr>"

definition fingerprint :: "auth_lib \<Rightarrow> auth_identity \<Rightarrow> string" where
  "fingerprint lib i = lib_sha lib (id_token i)"

definition caller_of :: "auth_lib \<Rightarrow> auth_identity \<Rightarrow> caller" where
  "caller_of lib i =
     \<lparr>cl_token_type = id_token_type i, cl_role = id_role i, cl_fingerprint = fingerprint lib i,
      cl_tenant_labels = id_tenant_labels i\<rparr>"

subsection \<open>Addresses\<close>

text \<open>A network is its text, kept when \<open>ip_network\<close> accepts it.\<close>

definition parse_cidrs :: "auth_lib \<Rightarrow> string \<Rightarrow> string list" where
  "parse_cidrs lib value =
     filter (\<lambda>part. part \<noteq> [] \<and> lib_net_ok lib part) (map strip (split_char CHR '','' value))"

definition is_ip_allowed :: "auth_lib \<Rightarrow> string \<Rightarrow> string list \<Rightarrow> bool" where
  "is_ip_allowed lib ip nets \<longleftrightarrow> lib_addr_ok lib ip \<and> (\<exists>n \<in> set nets. lib_in_net lib ip n)"

definition is_trusted :: "auth_lib \<Rightarrow> string \<Rightarrow> string list \<Rightarrow> bool" where
  "is_trusted lib ip nets \<longleftrightarrow> lib_addr_ok lib ip \<and> (\<exists>n \<in> set nets. lib_in_net lib ip n)"

definition get_client_ip :: "auth_lib \<Rightarrow> request \<Rightarrow> string list \<Rightarrow> string" where
  "get_client_ip lib rq trusted =
     (let client_host = (case rq_client rq of Some h \<Rightarrow> h | None \<Rightarrow> ''127.0.0.1'');
          forwarded = rq_forwarded_for rq in
      if forwarded \<noteq> [] \<and> is_trusted lib client_host trusted then
        (let ips = map strip (split_char CHR '','' forwarded) in
         case find (\<lambda>ip. \<not> is_trusted lib ip trusted) (rev ips) of
           Some ip \<Rightarrow> ip
         | None \<Rightarrow> List.last ips)
      else client_host)"

subsection \<open>The agent token store\<close>

record token_meta =
  tm_scopes :: "string list"
  tm_role :: "string option"
  tm_labels :: "string list"

text \<open>
  The two Redis keys with their deadlines (\<open>None\<close>: no expiry). The metadata is kept as the
  record its JSON text encodes; a text that does not parse is \<open>Some None\<close>.
\<close>

record agent_token_store =
  ats_connected :: bool
  ats_current :: "(string \<times> time option) option"
  ats_meta :: "(token_meta option \<times> time option) option"

definition alive :: "time \<Rightarrow> ('a \<times> time option) option \<Rightarrow> 'a option" where
  "alive now x = (case x of
     None \<Rightarrow> None
   | Some (v, None) \<Rightarrow> Some v
   | Some (v, Some t) \<Rightarrow> if now < t then Some v else None)"

definition set_token ::
    "auth_lib \<Rightarrow> time \<Rightarrow> string \<Rightarrow> int \<Rightarrow> string list option \<Rightarrow> string option \<Rightarrow> string list option
      \<Rightarrow> agent_token_store \<Rightarrow> agent_token_store outcome" where
  "set_token lib now token ttl scopes role labels s =
     (if \<not> ats_connected s then Raised ''RuntimeError''
      else
        (let deadline = (if 0 < ttl then Some (now + of_int ttl) else None);
             meta = \<lparr>tm_scopes = (case scopes of None \<Rightarrow> [] | Some x \<Rightarrow> x), tm_role = role,
                     tm_labels = (case labels of None \<Rightarrow> [] | Some x \<Rightarrow> x)\<rparr>
         in Done (s\<lparr>ats_current := Some (lib_sha lib token, deadline),
                    ats_meta := Some (Some meta, deadline)\<rparr>)))"

definition validate_token ::
    "auth_lib \<Rightarrow> time \<Rightarrow> string \<Rightarrow> agent_token_store \<Rightarrow> bool \<times> string list option \<times> token_meta option" where
  "validate_token lib now token s =
     (if token = [] \<or> \<not> ats_connected s then (False, None, None)
      else case alive now (ats_current s) of
        None \<Rightarrow> (False, None, None)
      | Some stored \<Rightarrow>
          if stored \<noteq> lib_sha lib token then (False, None, None)
          else case alive now (ats_meta s) of
            Some (Some meta) \<Rightarrow> (True, Some (tm_scopes meta), Some meta)
          | _ \<Rightarrow> (True, None, None))"

definition clear_token :: "agent_token_store \<Rightarrow> agent_token_store" where
  "clear_token s = (if \<not> ats_connected s then s else s\<lparr>ats_current := None, ats_meta := None\<rparr>)"

subsection \<open>Keys\<close>

definition ascii_str :: "string \<Rightarrow> bool" where
  "ascii_str s \<longleftrightarrow> (\<forall>c \<in> set s. (of_char c :: nat) < 128)"

definition compare_digest :: "string \<Rightarrow> string \<Rightarrow> bool outcome" where
  "compare_digest a b = (if ascii_str a \<and> ascii_str b then Done (a = b) else Raised ''TypeError'')"

definition agent_identity :: "string \<Rightarrow> string list \<Rightarrow> string option \<Rightarrow> string list \<Rightarrow> auth_identity" where
  "agent_identity token scopes role labels =
     \<lparr>id_token_type = ''agent'', id_token = token, id_name = Some ''agent'', id_scopes = scopes,
      id_role = role, id_role_permissions = None, id_tenant_labels = labels, id_via_cookie = False\<rparr>"

text \<open>The token of the settings, when no connected store is given.\<close>

definition settings_token_valid ::
    "auth_lib \<Rightarrow> time \<Rightarrow> auth_settings \<Rightarrow> string \<Rightarrow> auth_identity option outcome" where
  "settings_token_valid lib now settings provided =
     (if st_agent_token settings = [] then Done None
      else if (case st_agent_token_expires_at settings of None \<Rightarrow> False | Some t \<Rightarrow> t \<le> now) then Done None
      else case compare_digest provided (st_agent_token settings) of
        Raised e \<Rightarrow> Raised e
      | Rejected c m \<Rightarrow> Rejected c m
      | Done False \<Rightarrow> Done None
      | Done True \<Rightarrow> Done (Some (agent_identity provided (st_agent_token_scopes settings)
          (default_role_for_scopes (Some (st_agent_token_scopes settings))) [])))"

definition is_agent_token_valid ::
    "auth_lib \<Rightarrow> time \<Rightarrow> auth_settings \<Rightarrow> string \<Rightarrow> agent_token_store option \<Rightarrow> auth_identity option outcome" where
  "is_agent_token_valid lib now settings provided token_store =
     (if provided = [] then Done None
      else case token_store of
        Some s \<Rightarrow>
          if ats_connected s then
            (case validate_token lib now provided s of
               (False, _, _) \<Rightarrow> Done None
             | (True, scopes, None) \<Rightarrow>
                 Done (Some (agent_identity provided (case scopes of None \<Rightarrow> [] | Some x \<Rightarrow> x) None []))
             | (True, scopes, Some meta) \<Rightarrow>
                 Done (Some (agent_identity provided (case scopes of None \<Rightarrow> [] | Some x \<Rightarrow> x)
                   (case tm_role meta of Some r \<Rightarrow> Some r | None \<Rightarrow> default_role_for_scopes scopes)
                   (tm_labels meta))))
          else settings_token_valid lib now settings provided
      | None \<Rightarrow> settings_token_valid lib now settings provided)"

definition provided_key :: "request \<Rightarrow> string" where
  "provided_key rq =
     (if rq_api_key rq \<noteq> [] then rq_api_key rq
      else if startswith (rq_authorization rq) ''Bearer '' then drop 7 (rq_authorization rq)
      else [])"

definition verify_api_key ::
    "auth_lib \<Rightarrow> time \<Rightarrow> request \<Rightarrow> string \<Rightarrow> string \<Rightarrow> auth_settings option \<Rightarrow> agent_token_store option
      \<Rightarrow> auth_identity option outcome" where
  "verify_api_key lib now rq expected_key extra_key settings token_store =
     (let provided = provided_key rq in
      if provided = [] then Done None
      else case compare_digest provided expected_key of
        Raised e \<Rightarrow> Raised e
      | Rejected c m \<Rightarrow> Rejected c m
      | Done True \<Rightarrow> Done (Some (master_identity provided ''master''))
      | Done False \<Rightarrow>
          (case settings of
             Some st \<Rightarrow> is_agent_token_valid lib now st provided token_store
           | None \<Rightarrow>
               if extra_key = [] then Done None
               else case compare_digest provided extra_key of
                 Raised e \<Rightarrow> Raised e
               | Rejected c m \<Rightarrow> Rejected c m
               | Done True \<Rightarrow> Done (Some (master_identity provided ''master''))
               | Done False \<Rightarrow> Done None))"

definition verify_master_api_key :: "request \<Rightarrow> string \<Rightarrow> auth_identity option outcome" where
  "verify_master_api_key rq expected_key =
     (let provided = provided_key rq in
      if provided = [] then Done None
      else case compare_digest provided expected_key of
        Raised e \<Rightarrow> Raised e
      | Rejected c m \<Rightarrow> Rejected c m
      | Done True \<Rightarrow> Done (Some (master_identity provided ''master''))
      | Done False \<Rightarrow> Done None)"

definition require_any_auth ::
    "auth_lib \<Rightarrow> time \<Rightarrow> auth_settings \<Rightarrow> request \<Rightarrow> auth_identity option \<Rightarrow> auth_identity outcome" where
  "require_any_auth lib now settings rq state_identity =
     (case state_identity of
        Some i \<Rightarrow> Done i
      | None \<Rightarrow>
          if \<not> st_api_auth_enabled settings then Done (master_identity [] ''auth-disabled'')
          else case verify_api_key lib now rq (st_api_key settings) (st_agent_token settings) (Some settings) None of
            Raised e \<Rightarrow> Raised e
          | Rejected c m \<Rightarrow> Rejected c m
          | Done None \<Rightarrow> Rejected 401 ''AUTH_REQUIRED''
          | Done (Some i) \<Rightarrow> Done i)"

definition require_master_key :: "auth_settings \<Rightarrow> request \<Rightarrow> auth_identity outcome" where
  "require_master_key settings rq =
     (if \<not> st_api_auth_enabled settings then Done (master_identity [] ''auth-disabled'')
      else case verify_master_api_key rq (st_api_key settings) of
        Raised e \<Rightarrow> Raised e
      | Rejected c m \<Rightarrow> Rejected c m
      | Done None \<Rightarrow> Rejected 401 ''MASTER_KEY_REQUIRED''
      | Done (Some i) \<Rightarrow> Done i)"

subsection \<open>The request check\<close>

definition ALWAYS_PUBLIC :: "string set" where
  "ALWAYS_PUBLIC = {''/'', ''/health'', ''/api/capabilities''}"

definition PUBLIC_AUTH_PATHS :: "string set" where
  "PUBLIC_AUTH_PATHS =
     {''/api/auth/check'', ''/api/auth/register'', ''/api/auth/login'', ''/api/auth/verify'',
      ''/api/auth/oauth/authorize'', ''/api/auth/oauth/callback'', ''/api/auth/oauth/config''}"

definition normalise_path :: "string \<Rightarrow> string" where
  "normalise_path path =
     (let p = rev (dropWhile (\<lambda>c. c = CHR ''/'') (rev path)) in if p \<noteq> [] then p else ''/'')"

definition cookie_csrf_ok :: "auth_lib \<Rightarrow> request \<Rightarrow> bool outcome" where
  "cookie_csrf_ok lib rq =
     (if rq_method rq \<in> {''GET'', ''HEAD'', ''OPTIONS'', ''TRACE''} then Done True
      else if rq_origin rq = [] \<and> rq_referer rq = [] then Done True
      else case lib_urlparse lib (if rq_origin rq \<noteq> [] then rq_origin rq else rq_referer rq) of
        None \<Rightarrow> Raised ''ValueError''
      | Some (hostname, netloc) \<Rightarrow>
          Done ((case hostname of None \<Rightarrow> False | Some h \<Rightarrow> h \<noteq> []) \<and> netloc = rq_host rq))"

text \<open>\<open>payload["sub"]\<close> raises a \<open>KeyError\<close> when it is missing; \<open>payload.get("role", "admin")\<close>.\<close>

definition web_identity :: "string \<Rightarrow> jwt_payload \<Rightarrow> bool \<Rightarrow> auth_identity outcome" where
  "web_identity token payload via_cookie =
     (case jp_sub payload of
        None \<Rightarrow> Raised ''KeyError''
      | Some sub \<Rightarrow>
          (let role = (case jp_role payload of None \<Rightarrow> Some ''admin'' | Some r \<Rightarrow> r) in
           Done \<lparr>id_token_type = ''web-ui'', id_token = token, id_name = Some sub,
                  id_scopes = scopes_for_role role, id_role = role, id_role_permissions = None,
                  id_tenant_labels = [], id_via_cookie = via_cookie\<rparr>))"

definition public_request :: "request \<Rightarrow> bool" where
  "public_request rq \<longleftrightarrow>
     (let path = normalise_path (rq_path rq) in
      rq_method rq = ''GET'' \<and> path \<in> ALWAYS_PUBLIC
      \<or> rq_method rq = ''GET'' \<and> (path = ''/static'' \<or> startswith path ''/static/'')
      \<or> path \<in> PUBLIC_AUTH_PATHS)"

definition not_blank :: "string \<Rightarrow> bool" where
  "not_blank s \<longleftrightarrow> strip s \<noteq> []"

text \<open>The end of the check: a web token from the authorization header, then from the cookie.\<close>

definition cookie_check :: "auth_lib \<Rightarrow> request \<Rightarrow> auth_identity option outcome" where
  "cookie_check lib rq =
     (case (if rq_cookie rq = [] then None else lib_verify_jwt lib (rq_cookie rq)) of
        None \<Rightarrow> Rejected 401 ''INVALID_API_KEY''
      | Some payload \<Rightarrow>
          (case cookie_csrf_ok lib rq of
             Raised e \<Rightarrow> Raised e
           | Rejected c m \<Rightarrow> Rejected c m
           | Done False \<Rightarrow> Rejected 403 ''CSRF_BLOCKED''
           | Done True \<Rightarrow>
               (case web_identity (rq_cookie rq) payload True of
                  Raised e \<Rightarrow> Raised e
                | Rejected c m \<Rightarrow> Rejected c m
                | Done i \<Rightarrow> Done (Some i))))"

definition jwt_check :: "auth_lib \<Rightarrow> request \<Rightarrow> auth_identity option outcome" where
  "jwt_check lib rq =
     (case (if startswith (rq_authorization rq) ''Bearer ''
            then lib_verify_jwt lib (drop 7 (rq_authorization rq)) else None) of
        Some payload \<Rightarrow>
          (case web_identity (drop 7 (rq_authorization rq)) payload False of
             Raised e \<Rightarrow> Raised e
           | Rejected c m \<Rightarrow> Rejected c m
           | Done i \<Rightarrow> Done (Some i))
      | None \<Rightarrow> cookie_check lib rq)"

text \<open>
  \<open>Done i\<close> lets the request through; \<open>i\<close> is the identity stored on \<open>request.state\<close>, \<open>None\<close> when
  none is stored. A rejection carries its status and code.
\<close>

definition auth_check ::
    "auth_lib \<Rightarrow> time \<Rightarrow> request \<Rightarrow> auth_settings \<Rightarrow> agent_token_store option
      \<Rightarrow> auth_identity option outcome" where
  "auth_check lib now rq settings token_store =
     (if rq_method rq = ''OPTIONS'' then Done None
      else if \<not> st_api_auth_enabled settings then Done (Some (master_identity [] ''auth-disabled''))
      else if public_request rq then Done None
      else if st_api_key settings = [] then Rejected 503 ''AUTH_MISCONFIGURED''
      else
        (let allowed_nets = parse_cidrs lib (st_allowed_client_cidrs settings);
             trusted_nets = parse_cidrs lib (st_trusted_proxy_cidrs settings) in
         if allowed_nets = [] \<and> not_blank (st_allowed_client_cidrs settings) then
           Rejected 503 ''AUTH_MISCONFIGURED''
         else if trusted_nets = [] \<and> not_blank (st_trusted_proxy_cidrs settings) then
           Rejected 503 ''AUTH_MISCONFIGURED''
         else if \<not> is_ip_allowed lib (get_client_ip lib rq trusted_nets) allowed_nets then
           Rejected 403 ''IP_NOT_ALLOWED''
         else case verify_api_key lib now rq (st_api_key settings) (st_agent_token settings)
                     (Some settings) token_store of
           Raised e \<Rightarrow> Raised e
         | Rejected c m \<Rightarrow> Rejected c m
         | Done (Some i) \<Rightarrow> Done (Some i)
         | Done None \<Rightarrow> jwt_check lib rq))"

subsection \<open>The websocket check\<close>

definition CLOSE_POLICY_VIOLATION :: nat where
  "CLOSE_POLICY_VIOLATION = 1008"

definition ws_provided :: "request \<Rightarrow> string" where
  "ws_provided rq =
     (if provided_key rq \<noteq> [] then provided_key rq
      else if rq_cookie rq \<noteq> [] then rq_cookie rq
      else rq_token_param rq)"

definition scope_granted :: "auth_identity \<Rightarrow> string \<Rightarrow> bool" where
  "scope_granted i required \<longleftrightarrow>
     id_token_type i = ''master'' \<or> ''*'' \<in> set (id_scopes i) \<or> required \<in> set (id_scopes i)
     \<or> role_allows_scope (id_role i) (id_role_permissions i) required"

definition ws_identity ::
    "auth_lib \<Rightarrow> time \<Rightarrow> request \<Rightarrow> auth_settings \<Rightarrow> agent_token_store option
      \<Rightarrow> auth_identity option outcome" where
  "ws_identity lib now rq settings token_store =
     (let provided = ws_provided rq in
      case compare_digest provided (st_api_key settings) of
        Raised e \<Rightarrow> Raised e
      | Rejected c m \<Rightarrow> Rejected c m
      | Done True \<Rightarrow> Done (Some (master_identity provided ''master''))
      | Done False \<Rightarrow>
          (case lib_verify_jwt lib provided of
             Some payload \<Rightarrow>
               (case web_identity provided payload True of
                  Raised e \<Rightarrow> Raised e
                | Rejected c m \<Rightarrow> Rejected c m
                | Done i \<Rightarrow> Done (Some i))
           | None \<Rightarrow> is_agent_token_valid lib now settings provided token_store))"

definition ws_origin_ok :: "auth_lib \<Rightarrow> request \<Rightarrow> bool outcome" where
  "ws_origin_ok lib rq =
     (if rq_origin rq = [] then Done True
      else case lib_urlparse lib (rq_origin rq) of
        None \<Rightarrow> Raised ''ValueError''
      | Some (hostname, netloc) \<Rightarrow> Done (netloc = [] \<or> netloc = rq_host rq))"

definition ws_auth_check ::
    "auth_lib \<Rightarrow> time \<Rightarrow> request \<Rightarrow> auth_settings \<Rightarrow> agent_token_store option \<Rightarrow> string
      \<Rightarrow> auth_identity outcome" where
  "ws_auth_check lib now rq settings token_store required_scope =
     (if \<not> st_api_auth_enabled settings then Done (master_identity [] ''auth-disabled'')
      else if st_api_key settings = [] then Rejected CLOSE_POLICY_VIOLATION ''Server configuration error''
      else
        (let allowed_nets = parse_cidrs lib (st_allowed_client_cidrs settings);
             trusted_nets = parse_cidrs lib (st_trusted_proxy_cidrs settings) in
         if allowed_nets = [] \<and> not_blank (st_allowed_client_cidrs settings) then
           Rejected CLOSE_POLICY_VIOLATION ''Server configuration error''
         else if trusted_nets = [] \<and> not_blank (st_trusted_proxy_cidrs settings) then
           Rejected CLOSE_POLICY_VIOLATION ''Server configuration error''
         else if \<not> is_ip_allowed lib (get_client_ip lib rq trusted_nets) allowed_nets then
           Rejected CLOSE_POLICY_VIOLATION ''Access denied: client IP not allowed''
         else case ws_origin_ok lib rq of
           Raised e \<Rightarrow> Raised e
         | Rejected c m \<Rightarrow> Rejected c m
         | Done False \<Rightarrow> Rejected CLOSE_POLICY_VIOLATION ''Access denied: cross-site WebSocket rejected''
         | Done True \<Rightarrow>
             if ws_provided rq = [] then Rejected CLOSE_POLICY_VIOLATION ''Invalid or missing API key''
             else case ws_identity lib now rq settings token_store of
               Raised e \<Rightarrow> Raised e
             | Rejected c m \<Rightarrow> Rejected c m
             | Done None \<Rightarrow> Rejected CLOSE_POLICY_VIOLATION ''Invalid or missing API key''
             | Done (Some i) \<Rightarrow>
                 if required_scope \<noteq> [] \<and> \<not> scope_granted i required_scope then
                   Rejected CLOSE_POLICY_VIOLATION (''Missing required scope: '' @ required_scope)
                 else Done i))"

subsection \<open>Scopes and ownership\<close>

definition require_scope :: "string \<Rightarrow> auth_identity option \<Rightarrow> auth_identity outcome" where
  "require_scope required state_identity =
     (case state_identity of
        None \<Rightarrow> Rejected 401 ''UNAUTHORIZED''
      | Some i \<Rightarrow> if scope_granted i required then Done i else Rejected 403 ''MISSING_SCOPE'')"

definition ensure_session_owner :: "auth_lib \<Rightarrow> session_owner \<Rightarrow> auth_identity \<Rightarrow> unit outcome" where
  "ensure_session_owner lib session i =
     (if id_token_type i = ''master'' then Done ()
      else if id_role i = Some ''admin'' then Done ()
      else if so_owner_type session \<noteq> Some ''agent'' then Rejected 403 ''SESSION_OWNERSHIP''
      else if so_fingerprint session \<noteq> Some (fingerprint lib i) then
        (if labels_overlap (id_tenant_labels i) (so_tenant_labels session) then Done ()
         else Rejected 403 ''SESSION_OWNERSHIP'')
      else Done ())"

subsection \<open>Lemmas\<close>

lemma find_rev_split:
  "find P (rev xs) = Some x \<Longrightarrow> \<exists>a b. xs = a @ x # b \<and> P x \<and> (\<forall>y \<in> set b. \<not> P y)"
proof (induction xs rule: rev_induct)
  case (snoc y xs)
  show ?case
  proof (cases "P y")
    case True
    with snoc.prems have "xs @ [y] = xs @ x # [] \<and> P x" by simp
    then show ?thesis by (intro exI [of _ xs] exI [of _ "[]"]) simp
  next
    case False
    with snoc obtain a b where "xs = a @ x # b" "P x" "\<forall>z \<in> set b. \<not> P z" by auto
    with False show ?thesis by (intro exI [of _ a] exI [of _ "b @ [y]"]) simp
  qed
qed simp

lemma compare_digest_True: "compare_digest a b = Done r \<Longrightarrow> r \<longleftrightarrow> a = b"
  by (auto simp: compare_digest_def split: if_splits)

lemma master_token_type [simp]: "id_token_type (master_identity t n) = ''master''"
  by (simp add: master_identity_def)

lemma agent_token_type [simp]: "id_token_type (agent_identity t s r l) = ''agent''"
  by (simp add: agent_identity_def)

lemma web_token_type:
  "web_identity t p v = Done i \<Longrightarrow> id_token_type i = ''web-ui'' \<and> id_token i = t \<and> id_via_cookie i = v"
  by (auto simp: web_identity_def Let_def split: option.splits)

lemma settings_token_agent:
  "settings_token_valid lib now st provided = Done (Some i) \<Longrightarrow> id_token_type i = ''agent''"
  by (auto simp: settings_token_valid_def split: option.splits outcome.splits bool.splits if_splits)

lemma agent_token_agent:
  "is_agent_token_valid lib now st provided ts = Done (Some i) \<Longrightarrow> id_token_type i = ''agent''"
  by (auto simp: is_agent_token_valid_def settings_token_agent
      split: option.splits if_splits prod.splits bool.splits)

lemma verify_api_key_cases:
  assumes "verify_api_key lib now rq key extra (Some st) ts = Done (Some i)"
  shows "id_token_type i = ''master'' \<and> provided_key rq = key \<and> key \<noteq> [] \<or>
    id_token_type i = ''agent'' \<and> is_agent_token_valid lib now st (provided_key rq) ts = Done (Some i)"
  using assms agent_token_agent compare_digest_True
  by (auto simp: verify_api_key_def Let_def split: outcome.splits bool.splits if_splits)

definition web_token_ok :: "auth_lib \<Rightarrow> request \<Rightarrow> auth_identity \<Rightarrow> bool" where
  "web_token_ok lib rq i \<longleftrightarrow> lib_verify_jwt lib (id_token i) \<noteq> None
     \<and> (id_via_cookie i \<longrightarrow> id_token i = rq_cookie rq \<and> cookie_csrf_ok lib rq = Done True)
     \<and> (\<not> id_via_cookie i \<longrightarrow> rq_authorization rq = ''Bearer '' @ id_token i)"

lemma bearer_drop: "startswith a ''Bearer '' \<Longrightarrow> a = ''Bearer '' @ drop 7 a"
  by (auto simp: startswith_iff)

lemma cookie_check_web:
  assumes "cookie_check lib rq = Done i'"
  shows "\<exists>i. i' = Some i \<and> id_token_type i = ''web-ui'' \<and> web_token_ok lib rq i"
proof (cases "if rq_cookie rq = [] then None else lib_verify_jwt lib (rq_cookie rq)")
  case None
  with assms show ?thesis by (simp only: cookie_check_def option.case outcome.distinct)
next
  case (Some p)
  then have jwt: "lib_verify_jwt lib (rq_cookie rq) = Some p" by (simp split: if_splits)
  from assms Some have csrf: "cookie_csrf_ok lib rq = Done True"
    unfolding cookie_check_def by (simp split: outcome.splits bool.splits)
  with assms Some obtain i where i: "web_identity (rq_cookie rq) p True = Done i" "i' = Some i"
    unfolding cookie_check_def by (simp split: outcome.splits)
  from web_token_type [OF i(1)] jwt csrf i(2) show ?thesis by (simp add: web_token_ok_def)
qed

lemma jwt_check_web:
  assumes "jwt_check lib rq = Done i'"
  shows "\<exists>i. i' = Some i \<and> id_token_type i = ''web-ui'' \<and> web_token_ok lib rq i"
proof (cases "startswith (rq_authorization rq) ''Bearer '' \<and>
    lib_verify_jwt lib (drop 7 (rq_authorization rq)) \<noteq> None")
  case True
  then obtain p where p: "lib_verify_jwt lib (drop 7 (rq_authorization rq)) = Some p" by blast
  with assms True obtain i where i: "web_identity (drop 7 (rq_authorization rq)) p False = Done i" "i' = Some i"
    unfolding jwt_check_def by (simp split: outcome.splits)
  from web_token_type [OF i(1)] p i(2) bearer_drop True show ?thesis by (simp add: web_token_ok_def)
next
  case False
  then have "jwt_check lib rq = cookie_check lib rq"
    by (auto simp: jwt_check_def split: option.split)
  with assms cookie_check_web show ?thesis by metis
qed

text \<open>C5: When authentication is enabled, a request gets an identity only if its client address is
  allowed and it presents the master key, a valid agent token, or a web token that verifies; the
  identity's kind says which. A web token from the cookie must also pass the cross-site check.\<close>

theorem auth_check_identity:
  assumes "auth_check lib now rq st ts = Done (Some i)" "st_api_auth_enabled st"
  shows "is_ip_allowed lib (get_client_ip lib rq (parse_cidrs lib (st_trusted_proxy_cidrs st)))
           (parse_cidrs lib (st_allowed_client_cidrs st))
    \<and> (id_token_type i = ''master'' \<and> provided_key rq = st_api_key st \<and> st_api_key st \<noteq> []
       \<or> id_token_type i = ''agent'' \<and> is_agent_token_valid lib now st (provided_key rq) ts = Done (Some i)
       \<or> id_token_type i = ''web-ui'' \<and> web_token_ok lib rq i)"
proof -
  let ?trusted = "parse_cidrs lib (st_trusted_proxy_cidrs st)"
  let ?v = "verify_api_key lib now rq (st_api_key st) (st_agent_token st) (Some st) ts"
  have ip: "is_ip_allowed lib (get_client_ip lib rq ?trusted) (parse_cidrs lib (st_allowed_client_cidrs st))"
    and v: "?v = Done (Some i) \<or> ?v = Done None \<and> jwt_check lib rq = Done (Some i)"
    using assms by (auto simp: auth_check_def Let_def split: outcome.splits option.splits if_splits)
  from v have "id_token_type i = ''master'' \<and> provided_key rq = st_api_key st \<and> st_api_key st \<noteq> []
       \<or> id_token_type i = ''agent'' \<and> is_agent_token_valid lib now st (provided_key rq) ts = Done (Some i)
       \<or> id_token_type i = ''web-ui'' \<and> web_token_ok lib rq i"
    using verify_api_key_cases [of lib now rq "st_api_key st" "st_agent_token st" st ts i]
      jwt_check_web [of lib rq "Some i"] by auto
  with ip show ?thesis by blast
qed

text \<open>C13: The \<open>X-Forwarded-For\<close> header counts only when the peer is a trusted proxy; then the client
  is the last listed address that is not a trusted proxy, and everything behind it is trusted.\<close>

theorem client_ip_not_spoofed:
  "let peer = (case rq_client rq of Some h \<Rightarrow> h | None \<Rightarrow> ''127.0.0.1'');
       ips = map strip (split_char CHR '','' (rq_forwarded_for rq));
       ip = get_client_ip lib rq trusted
   in if rq_forwarded_for rq \<noteq> [] \<and> is_trusted lib peer trusted then
        (if filter (\<lambda>x. \<not> is_trusted lib x trusted) ips = [] then ip = List.last ips
         else \<exists>a b. ips = a @ ip # b \<and> \<not> is_trusted lib ip trusted
                \<and> filter (\<lambda>x. \<not> is_trusted lib x trusted) b = [])
      else ip = peer"
proof -
  define ips where "ips = map strip (split_char CHR '','' (rq_forwarded_for rq))"
  consider "find (\<lambda>ip. \<not> is_trusted lib ip trusted) (rev ips) = None"
    | x where "find (\<lambda>ip. \<not> is_trusted lib ip trusted) (rev ips) = Some x" by fastforce
  then show ?thesis
  proof cases
    case 1
    then have all: "\<forall>x \<in> set ips. is_trusted lib x trusted" by (simp add: find_None_iff)
    show ?thesis
      unfolding get_client_ip_def Let_def ips_def [symmetric] 1 option.case using all by (auto simp: filter_empty_conv)
  next
    case 2
    from find_rev_split [OF 2] obtain a b where "ips = a @ x # b" "\<not> is_trusted lib x trusted"
      "\<forall>y \<in> set b. is_trusted lib y trusted" by blast
    with 2 show ?thesis
      by (auto simp: get_client_ip_def Let_def ips_def [symmetric] filter_empty_conv split: option.split)
  qed
qed

text \<open>Who may use a session may see it: the owner check of the session routes accepts no
  caller to whom the listing would hide the session.\<close>

theorem session_access_implies_visible:
  "ensure_session_owner lib session i = Done () \<Longrightarrow> session_visible_to session (caller_of lib i)"
  by (auto simp: ensure_session_owner_def session_visible_to_def caller_of_def split: if_splits)

text \<open>A role never grants the interactive terminal: outside the master key, \<open>ssh:pty\<close> is granted
  to the admin role and to identities that list the scope or the wildcard.\<close>

theorem pty_needs_explicit_scope:
  "require_scope ''ssh:pty'' (Some i) = Done i \<longleftrightarrow>
     id_token_type i = ''master'' \<or> id_role i = Some ''admin''
     \<or> ''*'' \<in> set (id_scopes i) \<or> ''ssh:pty'' \<in> set (id_scopes i)"
  by (auto simp: require_scope_def scope_granted_def role_allows_scope_def pty_unmapped
      split: option.splits if_splits)

text \<open>Storing a new agent token replaces the old one at once: afterwards a token validates iff its
  hash is the new one's and the time-to-live has not passed, with the scopes stored with it.\<close>

theorem set_token_replaces:
  assumes "set_token lib now tok ttl scopes role labels s = Done s'"
  shows "validate_token lib t other s' =
    (if other \<noteq> [] \<and> lib_sha lib other = lib_sha lib tok \<and> (ttl \<le> 0 \<or> t < now + of_int ttl) then
       (let scopes' = (case scopes of None \<Rightarrow> [] | Some x \<Rightarrow> x);
            labels' = (case labels of None \<Rightarrow> [] | Some x \<Rightarrow> x) in
        (True, Some scopes', Some \<lparr>tm_scopes = scopes', tm_role = role, tm_labels = labels'\<rparr>))
     else (False, None, None))"
proof -
  have "ats_connected s" using assms by (simp add: set_token_def split: if_splits)
  with assms have s': "s' = s\<lparr>ats_current := Some (lib_sha lib tok, if 0 < ttl then Some (now + of_int ttl) else None),
      ats_meta := Some (Some \<lparr>tm_scopes = (case scopes of None \<Rightarrow> [] | Some x \<Rightarrow> x), tm_role = role,
        tm_labels = (case labels of None \<Rightarrow> [] | Some x \<Rightarrow> x)\<rparr>, if 0 < ttl then Some (now + of_int ttl) else None)\<rparr>"
    by (simp add: set_token_def Let_def)
  show ?thesis
    using \<open>ats_connected s\<close> unfolding s' validate_token_def alive_def Let_def
    by (cases "0 < ttl") auto
qed

subsection \<open>Concrete runs\<close>

definition demo_lib :: auth_lib where
  "demo_lib = \<lparr>lib_sha = (\<lambda>s. s), lib_net_ok = (\<lambda>s. True), lib_addr_ok = (\<lambda>s. True),
     lib_in_net = (\<lambda>a n. a = n), lib_urlparse = (\<lambda>s. None), lib_verify_jwt = (\<lambda>s. None)\<rparr>"

definition demo_settings :: auth_settings where
  "demo_settings = \<lparr>st_api_auth_enabled = True, st_api_key = ''k'', st_agent_token = [],
     st_agent_token_scopes = [], st_agent_token_expires_at = None,
     st_allowed_client_cidrs = ''10.0.0.1'', st_trusted_proxy_cidrs = []\<rparr>"

definition demo_request :: request where
  "demo_request = \<lparr>rq_method = ''POST'', rq_path = ''/api/jobs'', rq_client = Some ''10.0.0.1'',
     rq_api_key = ''k'', rq_authorization = [], rq_forwarded_for = [], rq_origin = [], rq_referer = [],
     rq_host = [], rq_cookie = [], rq_token_param = []\<rparr>"

lemma auth_check_identity_witness:
  "is_ip_allowed demo_lib (get_client_ip demo_lib demo_request (parse_cidrs demo_lib []))
     (parse_cidrs demo_lib ''10.0.0.1'')"
proof -
  have "auth_check demo_lib 0 demo_request demo_settings None = Done (Some (master_identity ''k'' ''master''))"
    by code_simp
  from auth_check_identity [OF this] show ?thesis by (simp add: demo_settings_def)
qed

definition demo_session :: session_owner where
  "demo_session = \<lparr>so_owner_type = Some ''agent'', so_fingerprint = Some ''f1'', so_tenant_labels = [''acme'']\<rparr>"

lemma session_access_implies_visible_witness:
  "session_visible_to demo_session (caller_of demo_lib (agent_identity ''f2'' [] None [''acme'']))"
  by (rule session_access_implies_visible)
    (simp add: ensure_session_owner_def demo_session_def agent_identity_def fingerprint_def demo_lib_def
      labels_overlap_def)

lemma set_token_replaces_witness:
  "fst (validate_token demo_lib 5 ''old''
     \<lparr>ats_connected = True, ats_current = Some (''new'', Some 60),
      ats_meta = Some (Some \<lparr>tm_scopes = [], tm_role = None, tm_labels = []\<rparr>, Some 60)\<rparr>) = False"
proof -
  have "set_token demo_lib 0 ''new'' 60 None None None
      \<lparr>ats_connected = True, ats_current = Some (''old'', None), ats_meta = None\<rparr>
    = Done \<lparr>ats_connected = True, ats_current = Some (''new'', Some 60),
        ats_meta = Some (Some \<lparr>tm_scopes = [], tm_role = None, tm_labels = []\<rparr>, Some 60)\<rparr>"
    by (simp add: set_token_def demo_lib_def Let_def)
  from set_token_replaces [OF this, of 5 "''old''"] show ?thesis by (simp add: demo_lib_def)
qed

end
