(* ===== verification/CommandGate.thy ===== *)
theory CommandGate
  imports PolicyEngine AccessControl AuthMiddleware
begin

text \<open>
  \<open>app/services/command_gate.py\<close>: the chain every command passes, access gate, effective
  profile, policy decision, audit event, metric. The singletons it uses are one state record;
  the audit log and the metrics are lists, latest first.
\<close>

record gate_settings =
  gs_access_control_enabled :: bool
  gs_enforce_master :: bool
  gs_key_profiles :: "(string \<times> string) list option"
  gs_profile :: string
  gs_mode :: string
  gs_trusted_proxy_cidrs :: string

record gate_state =
  gt_access :: "access_store option"
  gt_policy :: policy_state
  gt_audit :: "(string \<times> string \<times> string) list"
  gt_metrics :: "(string \<times> string \<times> string option) list"

record gate_decision =
  gd_allowed :: bool
  gd_reason :: string
  gd_effective_profile :: string
  gd_policy_mode :: string
  gd_command_root :: "string option"
  gd_requires_approval :: bool
  gd_approval_id :: "string option"

definition resolve_effective_profile :: "auth_lib \<Rightarrow> gate_settings \<Rightarrow> auth_identity option \<Rightarrow> string" where
  "resolve_effective_profile lib gs identity =
     profile_for_identity (map_option (\<lambda>i. take 12 (fingerprint lib i)) identity)
       (Some (parse_key_profiles (gs_key_profiles gs))) (gs_profile gs)"

text \<open>The address of the access gate: the argument, or the request's client address.\<close>

definition gate_ip :: "auth_lib \<Rightarrow> gate_settings \<Rightarrow> request option \<Rightarrow> string option \<Rightarrow> string outcome" where
  "gate_ip lib gs rq source_ip =
     (case (source_ip, rq) of
        (Some ip, _) \<Rightarrow> Done ip
      | (None, None) \<Rightarrow> Raised ''AssertionError''
      | (None, Some r) \<Rightarrow> Done (get_client_ip lib r (parse_cidrs lib (gs_trusted_proxy_cidrs gs))))"

definition resolve_with_access_gate ::
    "auth_lib \<Rightarrow> gate_settings \<Rightarrow> time \<Rightarrow> request option \<Rightarrow> auth_identity option \<Rightarrow> string option
      \<Rightarrow> gate_state \<Rightarrow> string outcome \<times> gate_state" where
  "resolve_with_access_gate lib gs now rq identity source_ip st =
     (case (if gs_access_control_enabled gs then gt_access st else None) of
        None \<Rightarrow> (Done (resolve_effective_profile lib gs identity), st)
      | Some ac \<Rightarrow>
          (case gate_ip lib gs rq source_ip of
             Raised e \<Rightarrow> (Raised e, st)
           | Rejected c m \<Rightarrow> (Rejected c m, st)
           | Done ip \<Rightarrow>
               (case resolve_access_policy (lib_sha lib) now
                       (case identity of Some i \<Rightarrow> fingerprint lib i | None \<Rightarrow> [])
                       (case identity of Some i \<Rightarrow> id_token_type i | None \<Rightarrow> ''unknown'')
                       ip (resolve_effective_profile lib gs identity) (gs_enforce_master gs) ac of
                  (Inl _, ac') \<Rightarrow> (Rejected 403 ''ACCESS_DENIED'', st\<lparr>gt_access := Some ac'\<rparr>)
                | (Inr access, ac') \<Rightarrow> (Done (apr_effective_profile access), st\<lparr>gt_access := Some ac'\<rparr>))))"

definition audit_ip :: "request option \<Rightarrow> string option \<Rightarrow> string outcome" where
  "audit_ip rq source_ip =
     (case (source_ip, rq) of
        (Some ip, _) \<Rightarrow> Done ip
      | (None, None) \<Rightarrow> Raised ''AttributeError''
      | (None, Some r) \<Rightarrow> Done (case rq_client r of Some h \<Rightarrow> h | None \<Rightarrow> ''unknown''))"

definition audit_message :: "string \<Rightarrow> command_policy_decision \<Rightarrow> string" where
  "audit_message route d =
     ''route='' @ (if route \<noteq> [] then route else ''-'') @ ''; command_root='' @ opt_str (dec_command_root d)
     @ ''; allowed='' @ bool_str (dec_allowed d) @ ''; reason='' @ dec_reason d
     @ ''; profile='' @ dec_profile d @ ''; mode='' @ dec_mode d"

definition gate_decision_of :: "string \<Rightarrow> command_policy_decision \<Rightarrow> gate_decision" where
  "gate_decision_of profile d =
     \<lparr>gd_allowed = dec_allowed d, gd_reason = dec_reason d, gd_effective_profile = profile,
      gd_policy_mode = dec_mode d, gd_command_root = dec_command_root d,
      gd_requires_approval = dec_requires_approval d, gd_approval_id = dec_approval_id d\<rparr>"

definition evaluate_with_access_gate ::
    "auth_lib \<Rightarrow> gate_settings \<Rightarrow> policy_env \<Rightarrow> time \<Rightarrow> string \<Rightarrow> request option \<Rightarrow> auth_identity option
      \<Rightarrow> string \<Rightarrow> string \<Rightarrow> string option \<Rightarrow> bool \<Rightarrow> gate_state \<Rightarrow> gate_decision outcome \<times> gate_state" where
  "evaluate_with_access_gate lib gs env now approval_id rq identity command route source_ip raise_on_deny st =
     (case resolve_with_access_gate lib gs now rq identity source_ip st of
        (Raised e, st1) \<Rightarrow> (Raised e, st1)
      | (Rejected c m, st1) \<Rightarrow> (Rejected c m, st1)
      | (Done profile, st1) \<Rightarrow>
          (let (d, ps) = evaluate_command_policy env now approval_id command (gs_mode gs) profile
                           None None None (gt_policy st1);
               st2 = st1\<lparr>gt_policy := ps\<rparr> in
           case audit_ip rq source_ip of
             Raised e \<Rightarrow> (Raised e, st2)
           | Rejected c m \<Rightarrow> (Rejected c m, st2)
           | Done ip \<Rightarrow>
               (let st3 = st2\<lparr>gt_audit := (''COMMAND_POLICY_DECISION'', audit_message route d, ip) # gt_audit st2\<rparr> in
                if dec_allowed d then (Done (gate_decision_of profile d), st3)
                else
                  (let st4 = st3\<lparr>gt_metrics := (''denied'', dec_profile d, dec_command_root d) # gt_metrics st3\<rparr> in
                   if raise_on_deny then
                     (Rejected 403 (''Command denied by policy: '' @ dec_reason d), st4)
                   else (Done (gate_decision_of profile d), st4)))))"

definition record_allowed :: "string \<Rightarrow> string option \<Rightarrow> gate_state \<Rightarrow> gate_state" where
  "record_allowed profile rt st = st\<lparr>gt_metrics := (''allowed'', profile, rt) # gt_metrics st\<rparr>"

subsection \<open>Lemmas\<close>

text \<open>The actor has no decision in force that allows or denies it.\<close>

definition undecided :: "auth_lib \<Rightarrow> time \<Rightarrow> auth_identity option \<Rightarrow> string \<Rightarrow> access_store \<Rightarrow> bool" where
  "undecided lib now identity ip ac \<longleftrightarrow>
     (case fst (access_get (lib_sha lib) now
             (case identity of Some i \<Rightarrow> fingerprint lib i | None \<Rightarrow> []) ip ac) of
        None \<Rightarrow> True | Some e \<Rightarrow> ad_decision e = ''pending'')"

lemma undecided_capped:
  assumes "gs_access_control_enabled gs" "gt_access st = Some ac" "gate_ip lib gs rq source_ip = Done ip"
    "(case identity of Some i \<Rightarrow> id_token_type i | None \<Rightarrow> ''unknown'') \<noteq> ''master'' \<or> gs_enforce_master gs"
    "undecided lib now identity ip ac"
  shows "\<exists>st'. resolve_with_access_gate lib gs now rq identity source_ip st =
    (Done (capped_profile (resolve_effective_profile lib gs identity)), st') \<and> gt_policy st' = gt_policy st"
  using assms
  by (auto simp: resolve_with_access_gate_def resolve_access_policy_def undecided_def Let_def
      split: option.splits prod.splits)

lemma lower_capped: "lower (capped_profile p) = capped_profile p" "capped_profile p \<noteq> []"
  using capped_profile_cases [of p] by (auto simp: char_lower_def)

text \<open>What an enforced decision without an allowlist match rests on.\<close>

lemma enforce_decision_gates:
  assumes "lower (resolve_mode env mode agent) = ''enforce''"
    "fst (allow_check (allow_env_of env) now command (Some (resolved_agent env agent)) project user
       (ps_allowlist st)) = None" "profile \<noteq> []"
  shows "dec_allowed (fst (evaluate_command_policy env now i command mode profile agent project user st))
    \<longleftrightarrow> fst (evaluate_enforce_decision env command (lower profile))"
  using assms
  by (auto simp: evaluate_command_policy_def Let_def with_suggestions_def
      split: prod.splits if_splits)

lemma capped_allows_testlint:
  assumes "fst (evaluate_enforce_decision env command (capped_profile p))"
    "get_command_root command = Some r"
  shows "r \<in> TESTLINT_ROOTS \<and> contains_metachar command = None \<and> contains_dangerous_token command = None"
proof -
  have ev: "fst (profile_evaluator_for env (capped_profile p) command (Some r))"
    and mc: "contains_metachar command = None"
    using assms by (simp_all add: enforce_allowed_iff)
  from capped_profile_cases [of p]
  show ?thesis
  proof
    assume "capped_profile p = ''readonly''"
    with ev have e: "fst (evaluate_readonly command (Some r))" by (simp add: profile_evaluator_for_def)
    show ?thesis
      using readonly.root_listed [OF e] readonly.no_dangerous_token [OF e] roots_chain(1) mc by blast
  next
    assume "capped_profile p = ''testlint''"
    with ev have e: "fst (evaluate_testlint command (Some r))" by (simp add: profile_evaluator_for_def)
    show ?thesis
      using testlint.root_listed [OF e] testlint.no_dangerous_token [OF e] mc by blast
  qed
qed

text \<open>C6: An actor without a decision in force is capped: in enforce mode, without an allowlist match,
  a command the gate lets through runs under the readonly or testlint profile, its root is in
  the testlint allowlist, and it has no metacharacter and no dangerous token.\<close>

theorem pending_actor_capped:
  assumes gate: "gs_access_control_enabled gs" "gt_access st = Some ac" "gate_ip lib gs rq source_ip = Done ip"
      "(case identity of Some i \<Rightarrow> id_token_type i | None \<Rightarrow> ''unknown'') \<noteq> ''master'' \<or> gs_enforce_master gs"
      "undecided lib now identity ip ac"
    and enforce: "lower (resolve_mode env (gs_mode gs) None) = ''enforce''"
    and no_match: "fst (allow_check (allow_env_of env) now command (Some (resolved_agent env None)) None None
       (ps_allowlist (gt_policy st))) = None"
    and result: "evaluate_with_access_gate lib gs env now aid rq identity command route source_ip raise_on_deny st
       = (Done d, st')"
    and allowed: "gd_allowed d"
  shows "gd_effective_profile d \<in> {''readonly'', ''testlint''}
    \<and> (\<exists>r \<in> TESTLINT_ROOTS. get_command_root command = Some r)
    \<and> contains_metachar command = None \<and> contains_dangerous_token command = None"
proof -
  let ?p = "capped_profile (resolve_effective_profile lib gs identity)"
  obtain st1 where r: "resolve_with_access_gate lib gs now rq identity source_ip st = (Done ?p, st1)"
    and same: "gt_policy st1 = gt_policy st"
    using undecided_capped [OF gate] by blast
  let ?d = "fst (evaluate_command_policy env now aid command (gs_mode gs) ?p None None None (gt_policy st))"
  have d: "d = gate_decision_of ?p ?d"
    using result r same
    by (auto simp: evaluate_with_access_gate_def Let_def split: prod.splits outcome.splits if_splits)
  with allowed have "dec_allowed ?d" by (simp add: gate_decision_of_def)
  then have e: "fst (evaluate_enforce_decision env command ?p)"
    using enforce_decision_gates [OF enforce no_match, of ?p aid] lower_capped by simp
  then obtain rt where rt: "get_command_root command = Some rt"
    using capped_profile_cases [of "resolve_effective_profile lib gs identity"]
    by (cases "get_command_root command")
      (auto simp: enforce_allowed_iff profile_evaluator_for_def readonly.unparsed_refused testlint.unparsed_refused)
  from capped_allows_testlint [OF e rt] d rt capped_profile_cases show ?thesis
    by (auto simp: gate_decision_of_def)
qed

text \<open>A denied actor is stopped before the policy: the request is rejected with status 403, and the
  allowlist, the approvals, the audit log and the metrics stay as they were.\<close>

theorem denied_actor_stopped:
  assumes "gs_access_control_enabled gs" "gt_access st = Some ac" "gate_ip lib gs rq source_ip = Done ip"
    "(case identity of Some i \<Rightarrow> id_token_type i | None \<Rightarrow> ''unknown'') \<noteq> ''master'' \<or> gs_enforce_master gs"
    "fst (access_get (lib_sha lib) now (case identity of Some i \<Rightarrow> fingerprint lib i | None \<Rightarrow> []) ip ac) = Some e"
    "ad_decision e = ''denied''"
  shows "\<exists>ac'. evaluate_with_access_gate lib gs env now aid rq identity command route source_ip raise_on_deny st
    = (Rejected 403 ''ACCESS_DENIED'', st\<lparr>gt_access := Some ac'\<rparr>)"
  using assms
  by (auto simp: evaluate_with_access_gate_def resolve_with_access_gate_def resolve_access_policy_def Let_def
      split: option.splits prod.splits)

subsection \<open>Concrete runs\<close>

definition demo_gate_settings :: gate_settings where
  "demo_gate_settings = \<lparr>gs_access_control_enabled = True, gs_enforce_master = False, gs_key_profiles = None,
     gs_profile = ''ops'', gs_mode = ''enforce'', gs_trusted_proxy_cidrs = []\<rparr>"

definition demo_gate_state :: "access_store \<Rightarrow> gate_state" where
  "demo_gate_state ac = \<lparr>gt_access = Some ac, gt_policy = demo_state, gt_audit = [], gt_metrics = []\<rparr>"

definition demo_ac :: access_store where
  "demo_ac = new_access_store 900 86400 86400"

definition demo_denied :: access_store where
  "demo_denied = snd (access_set (\<lambda>s. s) 0 [] ''10.0.0.1'' ''denied'' ''abuse'' ''operator'' None demo_ac)"

definition demo_run :: "access_store \<Rightarrow> gate_decision outcome \<times> gate_state" where
  "demo_run ac = evaluate_with_access_gate demo_lib demo_gate_settings demo_env 10 ''a1'' None None
     ''ls -l'' ''/api/jobs'' (Some ''10.0.0.1'') True (demo_gate_state ac)"

lemma pending_actor_capped_witness:
  "\<exists>d. fst (demo_run demo_ac) = Done d \<and> gd_effective_profile d \<in> {''readonly'', ''testlint''}"
proof -
  let ?d = "\<lparr>gd_allowed = True, gd_reason = ''Allowed by readonly profile'', gd_effective_profile = ''readonly'',
     gd_policy_mode = ''enforce'', gd_command_root = Some ''ls'', gd_requires_approval = False,
     gd_approval_id = None\<rparr>"
  have "fst (demo_run demo_ac) = Done ?d" by code_simp
  then have r: "evaluate_with_access_gate demo_lib demo_gate_settings demo_env 10 ''a1'' None None
     ''ls -l'' ''/api/jobs'' (Some ''10.0.0.1'') True (demo_gate_state demo_ac) = (Done ?d, snd (demo_run demo_ac))"
    unfolding demo_run_def by (metis prod.collapse)
  have "gd_effective_profile ?d \<in> {''readonly'', ''testlint''} \<and> (\<exists>r \<in> TESTLINT_ROOTS. get_command_root ''ls -l'' = Some r)
    \<and> contains_metachar ''ls -l'' = None \<and> contains_dangerous_token ''ls -l'' = None"
  proof (rule pending_actor_capped [OF _ _ _ _ _ _ _ r])
    show "lower (resolve_mode demo_env (gs_mode demo_gate_settings) None) = ''enforce''" by code_simp
    show "undecided demo_lib 10 None ''10.0.0.1'' demo_ac" by code_simp
    show "gate_ip demo_lib demo_gate_settings None (Some ''10.0.0.1'') = Done ''10.0.0.1''"
      by (simp add: gate_ip_def)
  qed (simp_all add: demo_gate_settings_def demo_gate_state_def allow_check_None demo_state_def
      empty_allowlist_def layer_entries_def LAYERS_def)
  with \<open>fst (demo_run demo_ac) = Done ?d\<close> show ?thesis by blast
qed

lemma denied_actor_stopped_witness:
  "fst (demo_run demo_denied) = Rejected 403 ''ACCESS_DENIED''"
proof -
  have "\<exists>e. fst (access_get (lib_sha demo_lib) 10 (case None of Some i \<Rightarrow> fingerprint demo_lib i | None \<Rightarrow> [])
      ''10.0.0.1'' demo_denied) = Some e \<and> ad_decision e = ''denied''"
    by (simp add: demo_denied_def demo_lib_def demo_ac_def new_access_store_def access_get_def access_set_def
        Let_def ttl_for_def)
  then obtain e where "fst (access_get (lib_sha demo_lib) 10 (case None of Some i \<Rightarrow> fingerprint demo_lib i | None \<Rightarrow> [])
      ''10.0.0.1'' demo_denied) = Some e" "ad_decision e = ''denied''" by blast
  with denied_actor_stopped [of demo_gate_settings "demo_gate_state demo_denied" demo_denied demo_lib None
      "Some ''10.0.0.1''" "''10.0.0.1''" None 10 e demo_env "''a1''" "''ls -l''" "''/api/jobs''" True]
  have "\<exists>ac'. demo_run demo_denied = (Rejected 403 ''ACCESS_DENIED'', demo_gate_state demo_denied\<lparr>gt_access := Some ac'\<rparr>)"
    unfolding demo_run_def by (simp add: demo_gate_settings_def demo_gate_state_def gate_ip_def)
  then show ?thesis by auto
qed

end
