(* ===== verification/CircuitBreaker.thy ===== *)
theory CircuitBreaker
  imports Prelude
begin

text \<open>
  \<open>app/circuit_breaker.py\<close>: the breaker of one SSH host (\<open>CircuitBreaker\<close>) and the registry of
  breakers with least-recently-used eviction (\<open>CircuitBreakerRegistry\<close>).

  Every method of a breaker runs under its own lock, so each is one atomic step here; the
  clock reading it takes is its argument. The registry hands out references to mutable breakers, so
  its dictionary maps a host to an address of a heap of breakers (\<open>br_heap\<close>, a list that only
  grows): a caller that holds the address of an evicted breaker goes on to change that object and
  not the one a later lookup creates.

  The lemmas: the counters of a breaker stay in their bounds; the registry refines a list of hosts
  in the order of their last use, cut to the capacity.
\<close>

subsection \<open>One breaker\<close>

datatype circuit_state = CLOSED | OPEN | HALF_OPEN

record circuit_breaker =
  cb_failure_threshold :: int
  cb_recovery_timeout :: int
  cb_half_open_max_calls :: int
  cb_state :: circuit_state
  cb_failure_count :: int
  cb_success_count :: int
  cb_last_failure_time :: "time option"
  cb_half_open_calls :: int

definition new_breaker :: "int \<Rightarrow> int \<Rightarrow> int \<Rightarrow> circuit_breaker" where
  "new_breaker failure_threshold recovery_timeout half_open_max_calls =
     \<lparr>cb_failure_threshold = failure_threshold, cb_recovery_timeout = recovery_timeout,
      cb_half_open_max_calls = half_open_max_calls, cb_state = CLOSED, cb_failure_count = 0,
      cb_success_count = 0, cb_last_failure_time = None, cb_half_open_calls = 0\<rparr>"

definition default_breaker :: circuit_breaker where
  "default_breaker = new_breaker 5 60 3"

definition recovery_due :: "time \<Rightarrow> circuit_breaker \<Rightarrow> bool" where
  "recovery_due now b =
     (case cb_last_failure_time b of None \<Rightarrow> False | Some t \<Rightarrow> of_int (cb_recovery_timeout b) \<le> now - t)"

definition half_open_call :: "circuit_breaker \<Rightarrow> bool \<times> circuit_breaker" where
  "half_open_call b =
     (if cb_half_open_max_calls b \<le> cb_half_open_calls b then (False, b)
      else (True, b\<lparr>cb_half_open_calls := cb_half_open_calls b + 1\<rparr>))"

definition can_execute :: "time \<Rightarrow> circuit_breaker \<Rightarrow> bool \<times> circuit_breaker" where
  "can_execute now b =
     (case cb_state b of
        OPEN \<Rightarrow>
          if recovery_due now b
          then half_open_call (b\<lparr>cb_state := HALF_OPEN, cb_half_open_calls := 0\<rparr>)
          else (False, b)
      | HALF_OPEN \<Rightarrow> half_open_call b
      | CLOSED \<Rightarrow> (True, b))"

definition record_success :: "circuit_breaker \<Rightarrow> circuit_breaker" where
  "record_success b =
     (if cb_state b = HALF_OPEN then
        (let b' = b\<lparr>cb_success_count := cb_success_count b + 1\<rparr> in
         if cb_half_open_max_calls b' \<le> cb_success_count b' then
           b'\<lparr>cb_state := CLOSED, cb_failure_count := 0, cb_success_count := 0, cb_half_open_calls := 0\<rparr>
         else b')
      else b\<lparr>cb_failure_count := max 0 (cb_failure_count b - 1)\<rparr>)"

definition record_failure :: "time \<Rightarrow> circuit_breaker \<Rightarrow> circuit_breaker" where
  "record_failure now b =
     (let b' = b\<lparr>cb_failure_count := cb_failure_count b + 1, cb_last_failure_time := Some now\<rparr> in
      if cb_state b' = HALF_OPEN then b'\<lparr>cb_state := OPEN\<rparr>
      else if cb_failure_threshold b' \<le> cb_failure_count b' then b'\<lparr>cb_state := OPEN\<rparr>
      else b')"

fun state_value :: "circuit_state \<Rightarrow> string" where
  "state_value CLOSED = ''closed''"
| "state_value OPEN = ''open''"
| "state_value HALF_OPEN = ''half_open''"

record breaker_stats =
  bs_state :: string
  bs_failure_count :: int
  bs_success_count :: int
  bs_last_failure_time :: "time option"
  bs_half_open_calls :: int

definition get_stats :: "circuit_breaker \<Rightarrow> breaker_stats" where
  "get_stats b = \<lparr>bs_state = state_value (cb_state b), bs_failure_count = cb_failure_count b,
     bs_success_count = cb_success_count b, bs_last_failure_time = cb_last_failure_time b,
     bs_half_open_calls = cb_half_open_calls b\<rparr>"

text \<open>The invariant of a breaker, and the histories of its three operations.\<close>

definition breaker_ok :: "circuit_breaker \<Rightarrow> bool" where
  "breaker_ok b \<longleftrightarrow>
     1 \<le> cb_failure_threshold b \<and> 1 \<le> cb_half_open_max_calls b
     \<and> 0 \<le> cb_failure_count b
     \<and> 0 \<le> cb_success_count b \<and> cb_success_count b < cb_half_open_max_calls b
     \<and> 0 \<le> cb_half_open_calls b \<and> cb_half_open_calls b \<le> cb_half_open_max_calls b
     \<and> (cb_state b \<noteq> CLOSED \<longrightarrow> cb_last_failure_time b \<noteq> None)
     \<and> (cb_state b = CLOSED \<longrightarrow> cb_failure_count b < cb_failure_threshold b \<and> cb_success_count b = 0)"

inductive breaker_reach :: "circuit_breaker \<Rightarrow> circuit_breaker \<Rightarrow> bool" where
  start: "breaker_reach b b"
| call: "breaker_reach b c \<Longrightarrow> breaker_reach b (snd (can_execute now c))"
| success: "breaker_reach b c \<Longrightarrow> breaker_reach b (record_success c)"
| failure: "breaker_reach b c \<Longrightarrow> breaker_reach b (record_failure now c)"

lemmas breaker_defs = can_execute_def half_open_call_def record_success_def record_failure_def

lemma new_breaker_ok: "1 \<le> ft \<Longrightarrow> 1 \<le> hm \<Longrightarrow> breaker_ok (new_breaker ft rt hm)"
  by (simp add: breaker_ok_def new_breaker_def)

lemma can_execute_ok [intro]: "breaker_ok b \<Longrightarrow> breaker_ok (snd (can_execute now b))"
  by (auto simp: breaker_ok_def breaker_defs recovery_due_def split: circuit_state.splits option.splits)

lemma record_success_ok [intro]: "breaker_ok b \<Longrightarrow> breaker_ok (record_success b)"
  by (cases "cb_state b") (auto simp: breaker_ok_def breaker_defs Let_def)

lemma record_failure_ok [intro]: "breaker_ok b \<Longrightarrow> breaker_ok (record_failure now b)"
  by (cases "cb_state b") (auto simp: breaker_ok_def breaker_defs Let_def)

lemma breaker_reach_ok: "breaker_reach b c \<Longrightarrow> breaker_ok b \<Longrightarrow> breaker_ok c"
  by (induction rule: breaker_reach.induct) auto

lemma breaker_config [simp]:
  "cb_failure_threshold (snd (can_execute now b)) = cb_failure_threshold b"
  "cb_recovery_timeout (snd (can_execute now b)) = cb_recovery_timeout b"
  "cb_half_open_max_calls (snd (can_execute now b)) = cb_half_open_max_calls b"
  "cb_failure_threshold (record_success b) = cb_failure_threshold b"
  "cb_recovery_timeout (record_success b) = cb_recovery_timeout b"
  "cb_half_open_max_calls (record_success b) = cb_half_open_max_calls b"
  "cb_failure_threshold (record_failure now b) = cb_failure_threshold b"
  "cb_recovery_timeout (record_failure now b) = cb_recovery_timeout b"
  "cb_half_open_max_calls (record_failure now b) = cb_half_open_max_calls b"
  by (simp_all add: breaker_defs Let_def split: circuit_state.splits)

text \<open>While it is open and the timeout has not passed, a breaker refuses and does not change.\<close>

lemma open_refuses:
  "cb_state b = OPEN \<Longrightarrow> \<not> recovery_due now b \<Longrightarrow> can_execute now b = (False, b)"
  by (simp add: can_execute_def)

text \<open>A breaker whose half-open calls are used up refuses at every clock reading and does not change.\<close>

lemma half_open_exhausted:
  "cb_state b = HALF_OPEN \<Longrightarrow> cb_half_open_calls b = cb_half_open_max_calls b \<Longrightarrow>
   can_execute now b = (False, b)"
  by (simp add: can_execute_def half_open_call_def)

text \<open>
  Successes of a half-open test that failed are kept: after two successes, a failure and the timeout, one
  more success closes the default breaker.
\<close>

lemma stale_half_open_successes:
  "let half = snd (can_execute 60 (default_breaker\<lparr>cb_state := OPEN, cb_last_failure_time := Some 0\<rparr>));
     failed = record_failure 61 (record_success (record_success half)) in
   cb_state failed = OPEN \<and> cb_state (record_success (snd (can_execute 121 failed))) = CLOSED"
  by (simp add: breaker_defs default_breaker_def new_breaker_def recovery_due_def Let_def)

subsection \<open>The registry\<close>

datatype registry_error = IndexError | KeyError | ValueError

record breaker_registry =
  br_breakers :: "(string \<times> nat) list"
  br_max_size :: int
  br_access_order :: "string list"
  br_heap :: "circuit_breaker list"

definition new_registry :: "int \<Rightarrow> breaker_registry" where
  "new_registry max_size = \<lparr>br_breakers = [], br_max_size = max_size, br_access_order = [], br_heap = []\<rparr>"

text \<open>\<open>get_breaker\<close>: the outcome is the address of the breaker of the host or the exception of
  \<open>list.pop\<close>, \<open>del\<close> or \<open>list.remove\<close>, beside the state left behind.\<close>

definition insert_breaker :: "string \<Rightarrow> circuit_breaker \<Rightarrow> breaker_registry \<Rightarrow> nat \<times> breaker_registry" where
  "insert_breaker host b r =
     (length (br_heap r),
      r\<lparr>br_breakers := AList.update host (length (br_heap r)) (br_breakers r),
        br_heap := br_heap r @ [b],
        br_access_order := br_access_order r @ [host]\<rparr>)"

definition get_breaker ::
    "string \<Rightarrow> circuit_breaker \<Rightarrow> breaker_registry \<Rightarrow> (registry_error + nat) \<times> breaker_registry" where
  "get_breaker host fresh r =
     (case map_of (br_breakers r) host of
        Some a \<Rightarrow>
          if host \<in> set (br_access_order r)
          then (Inr a, r\<lparr>br_access_order := remove1 host (br_access_order r) @ [host]\<rparr>)
          else (Inl ValueError, r)
      | None \<Rightarrow>
          if br_max_size r \<le> int (length (br_breakers r)) then
            (case br_access_order r of
               [] \<Rightarrow> (Inl IndexError, r)
             | oldest # order \<Rightarrow>
                 (let r' = r\<lparr>br_access_order := order\<rparr> in
                  if map_of (br_breakers r) oldest = None then (Inl KeyError, r')
                  else (let (a, r'') = insert_breaker host fresh
                              (r'\<lparr>br_breakers := AList.delete oldest (br_breakers r)\<rparr>)
                        in (Inr a, r''))))
          else (let (a, r') = insert_breaker host fresh r in (Inr a, r')))"

definition remove_breaker :: "string \<Rightarrow> breaker_registry \<Rightarrow> (registry_error + bool) \<times> breaker_registry" where
  "remove_breaker host r =
     (if map_of (br_breakers r) host \<noteq> None then
        (let r' = r\<lparr>br_breakers := AList.delete host (br_breakers r)\<rparr> in
         if host \<in> set (br_access_order r')
         then (Inr True, r'\<lparr>br_access_order := remove1 host (br_access_order r')\<rparr>)
         else (Inl ValueError, r'))
      else (Inr False, r))"

definition get_all_stats :: "breaker_registry \<Rightarrow> (string \<times> breaker_stats) list" where
  "get_all_stats r = map (\<lambda>(host, a). (host, get_stats (br_heap r ! a))) (br_breakers r)"

definition count_by_state :: "breaker_registry \<Rightarrow> (string \<times> nat) list" where
  "count_by_state r =
     fold (\<lambda>a counts. let s = state_value (cb_state (br_heap r ! a)) in
             AList.update s (the (map_of counts s) + 1) counts)
       (map snd (br_breakers r))
       (map (\<lambda>s. (state_value s, 0)) [CLOSED, OPEN, HALF_OPEN])"

text \<open>The invariant of the registry.\<close>

definition registry_ok :: "breaker_registry \<Rightarrow> bool" where
  "registry_ok r \<longleftrightarrow>
     1 \<le> br_max_size r \<and> dict_ok (br_breakers r) \<and> distinct (br_access_order r)
     \<and> set (br_access_order r) = fst ` set (br_breakers r)
     \<and> int (length (br_breakers r)) \<le> br_max_size r
     \<and> distinct (map snd (br_breakers r))
     \<and> (\<forall>a \<in> snd ` set (br_breakers r). a < length (br_heap r))"

text \<open>
  The contract of the registry: a list of hosts with their breakers, the least recently used
  first, cut to the capacity.
\<close>

definition lru_touch :: "nat \<Rightarrow> 'k \<Rightarrow> 'v \<Rightarrow> ('k \<times> 'v) list \<Rightarrow> ('k \<times> 'v) list" where
  "lru_touch cap k fresh xs =
     (case map_of xs k of
        Some v \<Rightarrow> filter (\<lambda>e. fst e \<noteq> k) xs @ [(k, v)]
      | None \<Rightarrow> (if cap \<le> length xs then tl xs else xs) @ [(k, fresh)])"

definition lru_of :: "breaker_registry \<Rightarrow> (string \<times> nat) list" where
  "lru_of r = map (\<lambda>h. (h, the (map_of (br_breakers r) h))) (br_access_order r)"

lemma dict_ok_card: "dict_ok d \<Longrightarrow> card (fst ` set d) = length d"
  unfolding dict_ok_def by (metis distinct_card length_map list.set_map)

lemma registry_order_length: "registry_ok r \<Longrightarrow> length (br_access_order r) = length (br_breakers r)"
  unfolding registry_ok_def by (metis dict_ok_card distinct_card)

lemma registry_order_iff:
  "registry_ok r \<Longrightarrow> h \<in> set (br_access_order r) \<longleftrightarrow> map_of (br_breakers r) h \<noteq> None"
  by (auto simp: registry_ok_def map_of_eq_None_iff)

lemma map_of_keyed: "map_of (map (\<lambda>h. (h, f h)) hs) h = (if h \<in> set hs then Some (f h) else None)"
  by (induction hs) auto

lemma lru_of_get: "registry_ok r \<Longrightarrow> map_of (lru_of r) h = map_of (br_breakers r) h"
  unfolding lru_of_def map_of_keyed by (auto simp: registry_order_iff)

lemma lru_of_filter:
  "distinct hs \<Longrightarrow> filter (\<lambda>e. fst e \<noteq> h) (map (\<lambda>h. (h, f h)) hs) = map (\<lambda>h. (h, f h)) (remove1 h hs)"
  by (induction hs) (auto simp: remove1_idem)

lemma new_registry_ok: "1 \<le> n \<Longrightarrow> registry_ok (new_registry n)"
  by (simp add: registry_ok_def new_registry_def)

lemma dict_addresses_update:
  "dict_ok d \<Longrightarrow> map_of d h = None \<Longrightarrow> AList.update h a d = d @ [(h, a)]"
  by (induction d) (auto simp: dict_ok_def split: if_splits)

lemma addresses_delete: "set (AList.delete h d) \<subseteq> set d"
  by (auto simp: AList.delete_eq)

lemma distinct_addresses_delete: "distinct (map snd d) \<Longrightarrow> distinct (map snd (AList.delete h d))"
  by (induction d) (auto simp: AList.delete_eq)

lemma keys_delete: "fst ` set (AList.delete h d) = fst ` set d - {h}"
  by (auto simp: AList.delete_eq)

lemma length_delete_present:
  "dict_ok d \<Longrightarrow> map_of d h \<noteq> None \<Longrightarrow> length (AList.delete h d) = length d - 1"
proof -
  assume a: "dict_ok d" "map_of d h \<noteq> None"
  then have "h \<in> fst ` set d" by (simp add: map_of_eq_None_iff)
  then show ?thesis
    using a(1) dict_ok_card [of d] dict_ok_card [of "AList.delete h d"] by (simp add: keys_delete)
qed

lemma remove_breaker_absent:
  "registry_ok r \<Longrightarrow> map_of (br_breakers r) h = None \<Longrightarrow> remove_breaker h r = (Inr False, r)"
  by (simp add: remove_breaker_def)

lemma remove_breaker_present:
  assumes "registry_ok r" "map_of (br_breakers r) h \<noteq> None"
  shows "remove_breaker h r = (Inr True, r\<lparr>br_breakers := AList.delete h (br_breakers r),
    br_access_order := remove1 h (br_access_order r)\<rparr>)"
  using assms by (simp add: remove_breaker_def Let_def registry_order_iff)

lemma delete_registry_ok:
  assumes "registry_ok r"
  shows "registry_ok (r\<lparr>br_breakers := AList.delete h (br_breakers r),
    br_access_order := remove1 h (br_access_order r)\<rparr>)"
proof -
  have "length (AList.delete h (br_breakers r)) \<le> length (br_breakers r)"
    by (rule AList.length_delete_le)
  moreover have "set (remove1 h (br_access_order r)) = fst ` set (AList.delete h (br_breakers r))"
    using assms by (simp add: registry_ok_def keys_delete)
  ultimately show ?thesis
    using assms addresses_delete [of h "br_breakers r"]
    by (auto simp: registry_ok_def distinct_addresses_delete)
qed

lemma delete_lru_of:
  assumes "registry_ok r"
  shows "lru_of (r\<lparr>br_breakers := AList.delete h (br_breakers r),
    br_access_order := remove1 h (br_access_order r)\<rparr>) = filter (\<lambda>e. fst e \<noteq> h) (lru_of r)"
proof -
  have "distinct (br_access_order r)" using assms by (simp add: registry_ok_def)
  then show ?thesis
    unfolding lru_of_def lru_of_filter [OF \<open>distinct (br_access_order r)\<close>] by auto
qed

lemma insert_breaker_ok:
  assumes "registry_ok r" "map_of (br_breakers r) h = None" "int (length (br_breakers r)) < br_max_size r"
  shows "registry_ok (snd (insert_breaker h b r))"
    and "lru_of (snd (insert_breaker h b r)) = lru_of r @ [(h, length (br_heap r))]"
proof -
  let ?n = "length (br_heap r)"
  have u: "AList.update h ?n (br_breakers r) = br_breakers r @ [(h, ?n)]"
    using assms by (intro dict_addresses_update) (simp_all add: registry_ok_def)
  have n: "h \<notin> set (br_access_order r)" using assms by (simp add: registry_order_iff)
  have ok: "dict_ok (br_breakers r @ [(h, ?n)])"
    using assms u dict_ok_update [of "br_breakers r" h ?n] by (simp add: registry_ok_def)
  show "registry_ok (snd (insert_breaker h b r))"
    using assms n ok unfolding insert_breaker_def registry_ok_def
    by (auto simp: u)
  show "lru_of (snd (insert_breaker h b r)) = lru_of r @ [(h, ?n)]"
    using n by (auto simp: insert_breaker_def lru_of_def)
qed

lemma registry_touch_ok:
  assumes "registry_ok r" "map_of (br_breakers r) h = Some a"
  shows "registry_ok (r\<lparr>br_access_order := remove1 h (br_access_order r) @ [h]\<rparr>)"
    and "lru_of (r\<lparr>br_access_order := remove1 h (br_access_order r) @ [h]\<rparr>) =
      filter (\<lambda>e. fst e \<noteq> h) (lru_of r) @ [(h, a)]"
proof -
  have d: "distinct (br_access_order r)" and m: "h \<in> set (br_access_order r)"
    using assms by (simp_all add: registry_order_iff) (simp add: registry_ok_def)
  then show "registry_ok (r\<lparr>br_access_order := remove1 h (br_access_order r) @ [h]\<rparr>)"
    using assms by (auto simp: registry_ok_def)
  show "lru_of (r\<lparr>br_access_order := remove1 h (br_access_order r) @ [h]\<rparr>) =
      filter (\<lambda>e. fst e \<noteq> h) (lru_of r) @ [(h, a)]"
    using assms(2) by (simp add: lru_of_def lru_of_filter [OF d])
qed

lemma get_breaker_known:
  assumes "registry_ok r" "map_of (br_breakers r) h = Some a"
  shows "get_breaker h b r = (Inr a, r\<lparr>br_access_order := remove1 h (br_access_order r) @ [h]\<rparr>)"
  using assms by (simp add: get_breaker_def registry_order_iff)

lemma get_breaker_room:
  assumes "map_of (br_breakers r) h = None" "int (length (br_breakers r)) < br_max_size r"
  shows "get_breaker h b r = (Inr (length (br_heap r)), snd (insert_breaker h b r))"
  using assms by (simp add: get_breaker_def insert_breaker_def)

text \<open>At capacity the head of the access order is removed first: eviction is a removal.\<close>

lemma get_breaker_full:
  assumes ok: "registry_ok r" and none: "map_of (br_breakers r) h = None"
    and full: "\<not> int (length (br_breakers r)) < br_max_size r"
  shows "\<exists>v. let r' = snd (remove_breaker v r) in
    lru_of r \<noteq> [] \<and> v = fst (hd (lru_of r)) \<and> lru_of r' = tl (lru_of r) \<and> registry_ok r'
    \<and> map_of (br_breakers r') h = None \<and> int (length (br_breakers r')) < br_max_size r'
    \<and> br_heap r' = br_heap r
    \<and> get_breaker h b r = (Inr (length (br_heap r)), snd (insert_breaker h b r'))"
proof -
  have "br_breakers r \<noteq> []" using ok full by (auto simp: registry_ok_def)
  with registry_order_length [OF ok] obtain v vs where vs: "br_access_order r = v # vs"
    by (cases "br_access_order r") auto
  have v: "map_of (br_breakers r) v \<noteq> None" using registry_order_iff [OF ok, of v] vs by simp
  let ?r = "r\<lparr>br_breakers := AList.delete v (br_breakers r), br_access_order := vs\<rparr>"
  have rm: "remove_breaker v r = (Inr True, ?r)" using remove_breaker_present [OF ok v] vs by simp
  have ok': "registry_ok ?r" using delete_registry_ok [OF ok, of v] vs by simp
  have "distinct (v # vs)" using ok vs by (simp add: registry_ok_def)
  then have lru: "lru_of ?r = tl (lru_of r)"
    using delete_lru_of [OF ok, of v] lru_of_filter [of "v # vs" v "\<lambda>h. the (map_of (br_breakers r) h)"]
    by (simp add: vs lru_of_def)
  have "0 < length (br_breakers r)" using \<open>br_breakers r \<noteq> []\<close> by simp
  moreover have "dict_ok (br_breakers r)" "int (length (br_breakers r)) \<le> br_max_size r"
    using ok by (simp_all add: registry_ok_def)
  ultimately have len: "int (length (br_breakers ?r)) < br_max_size ?r"
    using length_delete_present [OF _ v] by (simp add: nat_less_iff of_nat_diff Suc_leI)
  have "get_breaker h b r = (Inr (length (br_heap r)), snd (insert_breaker h b ?r))"
    using none full v vs by (simp add: get_breaker_def insert_breaker_def Let_def)
  then show ?thesis
    using rm ok' lru len none vs by (intro exI [of _ v]) (simp add: Let_def lru_of_def)
qed

lemma get_breaker_ok:
  assumes ok: "registry_ok r"
  shows "(\<exists>a. fst (get_breaker h b r) = Inr a \<and> map_of (lru_of (snd (get_breaker h b r))) h = Some a)
    \<and> registry_ok (snd (get_breaker h b r))
    \<and> lru_of (snd (get_breaker h b r)) =
      lru_touch (nat (br_max_size r)) h (length (br_heap r)) (lru_of r)"
proof -
  have len: "length (lru_of r) = length (br_breakers r)"
    by (simp add: lru_of_def registry_order_length [OF ok])
  have last: "map_of (xs @ [(h, a)]) h = Some a" if "map_of xs h = None" for xs :: "(string \<times> nat) list" and a
    using that by (simp add: map_add_def)
  consider (known) a where "map_of (br_breakers r) h = Some a"
    | (room) "map_of (br_breakers r) h = None" "int (length (br_breakers r)) < br_max_size r"
    | (full) "map_of (br_breakers r) h = None" "\<not> int (length (br_breakers r)) < br_max_size r"
    by fastforce
  then show ?thesis
  proof cases
    case known
    have "map_of (filter (\<lambda>e. fst e \<noteq> h) (lru_of r)) h = None" by (auto simp: map_of_eq_None_iff)
    then show ?thesis
      using registry_touch_ok [OF ok known] get_breaker_known [OF ok known] known last
      by (simp add: lru_touch_def lru_of_get [OF ok])
  next
    case room
    then show ?thesis
      using insert_breaker_ok [OF ok room] get_breaker_room [OF room] last len
      by (auto simp: lru_touch_def lru_of_get [OF ok])
  next
    case full
    obtain v where v: "lru_of (snd (remove_breaker v r)) = tl (lru_of r)"
      "registry_ok (snd (remove_breaker v r))"
      "map_of (br_breakers (snd (remove_breaker v r))) h = None"
      "int (length (br_breakers (snd (remove_breaker v r)))) < br_max_size (snd (remove_breaker v r))"
      "br_heap (snd (remove_breaker v r)) = br_heap r"
      "get_breaker h b r = (Inr (length (br_heap r)), snd (insert_breaker h b (snd (remove_breaker v r))))"
      using get_breaker_full [OF ok full] by (auto simp: Let_def)
    have "map_of (tl (lru_of r)) h = None" using v(1,3) lru_of_get [OF v(2)] by metis
    then show ?thesis
      using insert_breaker_ok [OF v(2-4)] v full(2) last len
      by (auto simp add: lru_touch_def lru_of_get [OF ok] full(1))
  qed
qed

text \<open>C24: The registry of breakers refines the least-recently-used list of hosts: a lookup never raises,
  returns the breaker the list then holds for the host and moves the host to the end; at capacity a
  new host replaces the one used longest ago; a removal drops exactly its host; the invariant of
  the registry is kept.\<close>

theorem registry_refines_lru:
  assumes "registry_ok r"
  shows "let (res, r') = get_breaker h b r; (rem, r'') = remove_breaker h r in
    Inr (the (map_of (lru_of r') h)) = res \<and> map_of (lru_of r') h \<noteq> None
    \<and> lru_of r' = lru_touch (nat (br_max_size r)) h (length (br_heap r)) (lru_of r)
    \<and> rem = Inr (map_of (lru_of r) h \<noteq> None) \<and> lru_of r'' = filter (\<lambda>e. fst e \<noteq> h) (lru_of r)
    \<and> registry_ok r' \<and> registry_ok r''"
proof -
  have g: "map_of (lru_of r) h = map_of (br_breakers r) h" by (rule lru_of_get [OF assms])
  have "lru_of (snd (remove_breaker h r)) = filter (\<lambda>e. fst e \<noteq> h) (lru_of r)
      \<and> fst (remove_breaker h r) = Inr (map_of (lru_of r) h \<noteq> None)
      \<and> registry_ok (snd (remove_breaker h r))"
  proof (cases "map_of (br_breakers r) h = None")
    case True
    then have "filter (\<lambda>e. fst e \<noteq> h) (lru_of r) = lru_of r"
      unfolding g [symmetric] map_of_eq_None_iff by (intro filter_True) auto
    with True show ?thesis using assms g by (simp add: remove_breaker_absent)
  next
    case False
    then show ?thesis
      using assms g by (simp add: remove_breaker_present delete_registry_ok delete_lru_of)
  qed
  with get_breaker_ok [OF assms, of h b] show ?thesis by (auto simp: Let_def split_beta)
qed

definition demo_registry :: breaker_registry where
  "demo_registry = snd (get_breaker ''a'' default_breaker
     (snd (get_breaker ''b'' default_breaker (snd (get_breaker ''a'' default_breaker (new_registry 2))))))"

lemma registry_refines_lru_witness:
  "lru_of (snd (get_breaker ''c'' default_breaker demo_registry)) = [(''a'', 0), (''c'', 2)]"
proof -
  have "registry_ok demo_registry"
    by (auto simp: registry_ok_def demo_registry_def get_breaker_def insert_breaker_def new_registry_def
        dict_ok_def)
  from registry_refines_lru [OF this, of "''c''" default_breaker]
  show ?thesis
    by (simp add: Let_def split_beta lru_touch_def lru_of_def demo_registry_def get_breaker_def
        insert_breaker_def new_registry_def)
qed

end
