(* ===== verification/ConnectionPool.thy ===== *)
theory ConnectionPool
  imports Prelude "HOL-Library.Multiset"
begin

text \<open>
  \<open>app/ssh_pool.py\<close>: the pool of idle SSH clients. A key holds everything that identifies a
  transport (host, port, user, kind and fingerprint of the credential, the validated address).
  Each operation runs under the lock of the pool and is one step; the clock reading
  (\<open>time.monotonic\<close>) and what \<open>paramiko\<close> says of a transport (\<open>alive\<close>, false when the question raises)
  are arguments. The clients the pool closes are appended to \<open>cp_closed\<close>, in order.

  The lemmas: no client is lost or duplicated (every client put into the pool is idle, closed or
  handed out), the pool stays within its size, its queues are ordered by the time of last use, and
  so the eviction takes the connection used longest ago.
\<close>

type_synonym pool_key = "string \<times> int \<times> string \<times> string \<times> string \<times> string option"

record 'c pooled =
  pc_client :: 'c
  pc_last_used :: time

record 'c connection_pool =
  cp_max_size :: int
  cp_ttl_seconds :: int
  cp_idle :: "(pool_key \<times> 'c pooled list) list"
  cp_hits :: int
  cp_misses :: int
  cp_evictions :: int
  cp_closed :: "'c list"

definition new_pool :: "int \<Rightarrow> int \<Rightarrow> 'c connection_pool" where
  "new_pool max_size ttl = \<lparr>cp_max_size = max 0 max_size, cp_ttl_seconds = max 0 ttl, cp_idle = [],
     cp_hits = 0, cp_misses = 0, cp_evictions = 0, cp_closed = []\<rparr>"

definition pool_enabled :: "'c connection_pool \<Rightarrow> bool" where
  "pool_enabled p \<longleftrightarrow> 0 < cp_max_size p"

definition idle_count :: "'c connection_pool \<Rightarrow> nat" where
  "idle_count p = sum_list (map (length \<circ> snd) (cp_idle p))"

record pool_snapshot =
  ps_idle :: nat
  ps_hits :: int
  ps_misses :: int
  ps_evictions :: int

definition pool_stats :: "'c connection_pool \<Rightarrow> pool_snapshot" where
  "pool_stats p = \<lparr>ps_idle = idle_count p, ps_hits = cp_hits p, ps_misses = cp_misses p,
     ps_evictions = cp_evictions p\<rparr>"

definition close_client :: "'c \<Rightarrow> 'c connection_pool \<Rightarrow> 'c connection_pool" where
  "close_client c p = p\<lparr>cp_closed := cp_closed p @ [c]\<rparr>"

text \<open>
  The \<open>while queue: conn = queue.pop()\<close> loop of \<open>acquire\<close>, from the right end of the queue: the
  client found, the rest of the queue, and the clients dropped on the way.
\<close>

definition conn_usable :: "('c \<Rightarrow> bool) \<Rightarrow> int \<Rightarrow> time \<Rightarrow> 'c pooled \<Rightarrow> bool" where
  "conn_usable alive ttl now conn \<longleftrightarrow>
     alive (pc_client conn) \<and> \<not> (ttl \<noteq> 0 \<and> of_int ttl < now - pc_last_used conn)"

fun take_usable :: "('c pooled \<Rightarrow> bool) \<Rightarrow> 'c pooled list \<Rightarrow> 'c pooled option \<times> 'c pooled list \<times> 'c list" where
  "take_usable usable [] = (None, [], [])"
| "take_usable usable (conn # older) =
     (if usable conn then (Some conn, older, [])
      else (let (found, rest, dropped) = take_usable usable older
            in (found, rest, pc_client conn # dropped)))"

definition pool_acquire ::
    "('c \<Rightarrow> bool) \<Rightarrow> time \<Rightarrow> pool_key \<Rightarrow> 'c connection_pool \<Rightarrow> 'c option \<times> 'c connection_pool" where
  "pool_acquire alive now key p =
     (if \<not> pool_enabled p then (None, p\<lparr>cp_misses := cp_misses p + 1\<rparr>)
      else
        (case map_of (cp_idle p) key of
           None \<Rightarrow> (None, p\<lparr>cp_misses := cp_misses p + 1\<rparr>)
         | Some queue \<Rightarrow>
             if queue = [] then (None, p\<lparr>cp_misses := cp_misses p + 1\<rparr>)
             else
               (let (found, rest, dropped) = take_usable (conn_usable alive (cp_ttl_seconds p) now) (rev queue);
                    p' = p\<lparr>cp_idle := AList.update key (rev rest) (cp_idle p),
                           cp_closed := cp_closed p @ dropped\<rparr>
                in case found of
                     Some conn \<Rightarrow> (Some (pc_client conn), p'\<lparr>cp_hits := cp_hits p + 1\<rparr>)
                   | None \<Rightarrow> (None, p'\<lparr>cp_misses := cp_misses p + 1\<rparr>))))"

text \<open>The scan of \<open>_evict_lru_locked\<close> for the queue whose oldest entry is the oldest of all.\<close>

fun oldest_head ::
    "('k \<times> 'c pooled list) list \<Rightarrow> ('k \<times> 'c pooled) option \<Rightarrow> ('k \<times> 'c pooled) option" where
  "oldest_head [] best = best"
| "oldest_head ((key, []) # rest) best = oldest_head rest best"
| "oldest_head ((key, candidate # _) # rest) best =
     oldest_head rest
       (case best of
          None \<Rightarrow> Some (key, candidate)
        | Some (k, conn) \<Rightarrow>
            if pc_last_used candidate < pc_last_used conn then Some (key, candidate) else best)"

definition evict_lru_locked :: "'c connection_pool \<Rightarrow> 'c connection_pool" where
  "evict_lru_locked p =
     (case oldest_head (cp_idle p) None of
        None \<Rightarrow> p
      | Some (key, conn) \<Rightarrow>
          (close_client (pc_client conn)
             (p\<lparr>cp_idle := AList.update key (tl (the (map_of (cp_idle p) key))) (cp_idle p)\<rparr>))
          \<lparr>cp_evictions := cp_evictions p + 1\<rparr>)"

text \<open>\<open>self._idle[key]\<close> of the \<open>defaultdict\<close> enters an empty queue for a new key.\<close>

definition default_queue :: "pool_key \<Rightarrow> 'c connection_pool \<Rightarrow> 'c connection_pool" where
  "default_queue key p =
     (if map_of (cp_idle p) key = None then p\<lparr>cp_idle := AList.update key [] (cp_idle p)\<rparr> else p)"

definition pool_release :: "time \<Rightarrow> pool_key \<Rightarrow> 'c \<Rightarrow> 'c connection_pool \<Rightarrow> 'c connection_pool" where
  "pool_release now key client p =
     (if \<not> pool_enabled p then close_client client p
      else
        (let p1 = default_queue key p;
             p2 = (if cp_max_size p1 \<le> int (idle_count p1) then evict_lru_locked p1 else p1)
         in p2\<lparr>cp_idle := AList.update key
                 (the (map_of (cp_idle p2) key) @ [\<lparr>pc_client = client, pc_last_used = now\<rparr>]) (cp_idle p2)\<rparr>))"

text \<open>\<open>evict_stale\<close>: of each queue the leading entries older than the lifetime; an empty queue is deleted.\<close>

fun stale_prefix :: "int \<Rightarrow> time \<Rightarrow> 'c pooled list \<Rightarrow> 'c pooled list \<times> 'c pooled list" where
  "stale_prefix ttl now [] = ([], [])"
| "stale_prefix ttl now (oldest # queue) =
     (if of_int ttl < now - pc_last_used oldest
      then (let (dropped, kept) = stale_prefix ttl now queue in (oldest # dropped, kept))
      else ([], oldest # queue))"

fun evict_stale_queues ::
    "int \<Rightarrow> time \<Rightarrow> ('k \<times> 'c pooled list) list \<Rightarrow> ('k \<times> 'c pooled list) list \<times> 'c pooled list" where
  "evict_stale_queues ttl now [] = ([], [])"
| "evict_stale_queues ttl now ((key, queue) # rest) =
     (let (dropped, kept) = stale_prefix ttl now queue;
          (rest', dropped') = evict_stale_queues ttl now rest
      in ((if kept = [] then rest' else (key, kept) # rest'), dropped @ dropped'))"

definition pool_evict_stale :: "time \<Rightarrow> 'c connection_pool \<Rightarrow> nat \<times> 'c connection_pool" where
  "pool_evict_stale now p =
     (if \<not> pool_enabled p \<or> cp_ttl_seconds p \<le> 0 then (0, p)
      else
        (let (idle, dropped) = evict_stale_queues (cp_ttl_seconds p) now (cp_idle p)
         in (length dropped, p\<lparr>cp_idle := idle, cp_closed := cp_closed p @ map pc_client dropped\<rparr>)))"

definition pool_close_all :: "'c connection_pool \<Rightarrow> nat \<times> 'c connection_pool" where
  "pool_close_all p =
     (let clients = concat (map (\<lambda>(k, q). map pc_client q) (cp_idle p))
      in (length clients, p\<lparr>cp_idle := [], cp_closed := cp_closed p @ clients\<rparr>))"

subsection \<open>The idle connections\<close>

definition queue_pairs :: "pool_key \<times> 'c pooled list \<Rightarrow> (pool_key \<times> 'c) list" where
  "queue_pairs e = map (\<lambda>conn. (fst e, pc_client conn)) (snd e)"

definition pool_pairs :: "'c connection_pool \<Rightarrow> (pool_key \<times> 'c) list" where
  "pool_pairs p = concat (map queue_pairs (cp_idle p))"

definition queue_ok :: "time \<Rightarrow> 'c pooled list \<Rightarrow> bool" where
  "queue_ok now q \<longleftrightarrow> sorted (map pc_last_used q) \<and> list_all (\<lambda>conn. pc_last_used conn \<le> now) q"

definition pool_queues_ok :: "time \<Rightarrow> 'c connection_pool \<Rightarrow> bool" where
  "pool_queues_ok now p \<longleftrightarrow> dict_ok (cp_idle p) \<and> list_all (\<lambda>e. queue_ok now (snd e)) (cp_idle p)"

lemma length_pool_pairs: "length (pool_pairs p) = idle_count p"
  by (simp add: pool_pairs_def idle_count_def length_concat queue_pairs_def o_def)

lemma mset_concat_update:
  assumes "dict_ok d"
  shows "mset (concat (map f (AList.update k v d)))
      + (case map_of d k of None \<Rightarrow> {#} | Some w \<Rightarrow> mset (f (k, w)))
    = mset (concat (map f d)) + mset (f (k, v))"
  using assms
proof (induction d)
  case Nil
  then show ?case by simp
next
  case (Cons e d)
  obtain k' w where e: "e = (k', w)" by (cases e)
  have ok: "dict_ok d" using Cons.prems by (simp add: dict_ok_def)
  show ?case
  proof (cases "k' = k")
    case True
    then show ?thesis using e by simp
  next
    case False
    then show ?thesis using Cons.IH [OF ok] e by simp
  qed
qed

lemma pool_pairs_update:
  assumes "dict_ok (cp_idle p)" "map_of (cp_idle p) k = Some q"
  shows "mset (pool_pairs (p\<lparr>cp_idle := AList.update k q' (cp_idle p)\<rparr>)) + mset (queue_pairs (k, q))
    = mset (pool_pairs p) + mset (queue_pairs (k, q'))"
  using mset_concat_update [OF assms(1), of queue_pairs k q'] assms(2) by (simp add: pool_pairs_def)

lemma queue_pairs_simps [simp]:
  "queue_pairs (k, []) = []"
  "queue_pairs (k, c # q) = (k, pc_client c) # queue_pairs (k, q)"
  "queue_pairs (k, q @ q') = queue_pairs (k, q) @ queue_pairs (k, q')"
  by (simp_all add: queue_pairs_def)

lemma queue_pairs_rev [simp]: "mset (queue_pairs (k, rev q)) = mset (queue_pairs (k, q))"
  by (simp add: queue_pairs_def rev_map [symmetric])

lemma pool_pairs_cong [simp]:
  "pool_pairs (p\<lparr>cp_hits := n\<rparr>) = pool_pairs p"
  "pool_pairs (p\<lparr>cp_misses := n\<rparr>) = pool_pairs p"
  "pool_pairs (p\<lparr>cp_evictions := n\<rparr>) = pool_pairs p"
  "pool_pairs (p\<lparr>cp_closed := cs\<rparr>) = pool_pairs p"
  by (simp_all add: pool_pairs_def)

lemma take_usable_split:
  "take_usable usable q = (found, rest, dropped) \<Longrightarrow>
   \<exists>ds. map pc_client ds = dropped \<and> q = ds @ (case found of None \<Rightarrow> [] | Some c \<Rightarrow> [c]) @ rest
     \<and> (case found of None \<Rightarrow> True | Some c \<Rightarrow> usable c)"
proof (induction usable q arbitrary: found rest dropped rule: take_usable.induct)
  case (1 usable)
  then show ?case by simp
next
  case (2 usable conn older)
  show ?case
  proof (cases "usable conn")
    case True
    with "2.prems" show ?thesis by auto
  next
    case False
    obtain f r d where t: "take_usable usable older = (f, r, d)" by (cases "take_usable usable older")
    from "2.IH" [OF False t] obtain ds where
      "map pc_client ds = d" "older = ds @ (case f of None \<Rightarrow> [] | Some c \<Rightarrow> [c]) @ r"
      "case f of None \<Rightarrow> True | Some c \<Rightarrow> usable c" by blast
    with False t "2.prems" show ?thesis by (intro exI [of _ "conn # ds"]) auto
  qed
qed

text \<open>What an acquisition does to the idle connections: those dropped are closed, the one found leaves.\<close>

lemma pool_acquire_pairs:
  assumes "dict_ok (cp_idle p)" "pool_acquire alive now key p = (res, p')"
  shows "\<exists>dropped. cp_closed p' = cp_closed p @ dropped
    \<and> mset (pool_pairs p) = mset (pool_pairs p') + mset (map (Pair key) dropped)
        + (case res of None \<Rightarrow> {#} | Some c \<Rightarrow> {#(key, c)#})
    \<and> (case res of None \<Rightarrow> True | Some c \<Rightarrow> alive c)"
proof (cases "pool_enabled p \<and> (\<exists>q. map_of (cp_idle p) key = Some q \<and> q \<noteq> [])")
  case False
  then have "res = None \<and> p' = p\<lparr>cp_misses := cp_misses p + 1\<rparr>"
    using assms(2) by (auto simp: pool_acquire_def split: if_splits option.splits)
  then show ?thesis by simp
next
  case True
  then obtain q where q: "pool_enabled p" "map_of (cp_idle p) key = Some q" "q \<noteq> []" by blast
  let ?u = "conn_usable alive (cp_ttl_seconds p) now"
  obtain found rest dropped where t: "take_usable ?u (rev q) = (found, rest, dropped)"
    by (cases "take_usable ?u (rev q)")
  obtain ds where ds: "map pc_client ds = dropped"
      "rev q = ds @ (case found of None \<Rightarrow> [] | Some c \<Rightarrow> [c]) @ rest"
      "case found of None \<Rightarrow> True | Some c \<Rightarrow> ?u c"
    using take_usable_split [OF t] by blast
  have "mset (queue_pairs (key, q)) = mset (queue_pairs (key, rev q))" by simp
  then have m: "mset (queue_pairs (key, q)) = mset (map (Pair key) dropped)
      + (case found of None \<Rightarrow> {#} | Some c \<Rightarrow> {#(key, pc_client c)#}) + mset (queue_pairs (key, rev rest))"
    unfolding ds(2) ds(1) [symmetric] by (simp add: queue_pairs_def o_def split: option.split)
  have "mset (pool_pairs (p\<lparr>cp_idle := AList.update key (rev rest) (cp_idle p)\<rparr>)) + mset (queue_pairs (key, q))
    = mset (pool_pairs p) + mset (queue_pairs (key, rev rest))"
    by (rule pool_pairs_update [OF assms(1) q(2)])
  then have e: "mset (pool_pairs p) = mset (pool_pairs (p\<lparr>cp_idle := AList.update key (rev rest) (cp_idle p)\<rparr>))
      + mset (map (Pair key) dropped) + (case found of None \<Rightarrow> {#} | Some c \<Rightarrow> {#(key, pc_client c)#})"
    unfolding m by (simp add: add_ac)
  have p': "p' = (p\<lparr>cp_idle := AList.update key (rev rest) (cp_idle p), cp_closed := cp_closed p @ dropped,
        cp_hits := (if found = None then cp_hits p else cp_hits p + 1),
        cp_misses := (if found = None then cp_misses p + 1 else cp_misses p)\<rparr>)"
    and res: "res = map_option pc_client found"
    using assms(2) q t by (auto simp: pool_acquire_def Let_def split: option.splits)
  show ?thesis
  proof (intro exI [of _ dropped] conjI)
    show "cp_closed p' = cp_closed p @ dropped" using p' by simp
    show "mset (pool_pairs p) = mset (pool_pairs p') + mset (map (Pair key) dropped)
        + (case res of None \<Rightarrow> {#} | Some c \<Rightarrow> {#(key, c)#})"
      using e unfolding p' res by (cases found) (simp_all add: pool_pairs_def)
    show "case res of None \<Rightarrow> True | Some c \<Rightarrow> alive c"
      using ds(3) unfolding res by (cases found) (simp_all add: conn_usable_def)
  qed
qed

lemma oldest_head_None:
  "oldest_head d best = None \<longleftrightarrow> best = None \<and> list_all (\<lambda>e. snd e = []) d"
  by (induction d best rule: oldest_head.induct) (auto split: option.splits)

lemma oldest_head_Some:
  "oldest_head d best = Some (k, c) \<Longrightarrow> best = Some (k, c) \<or> (\<exists>q. (k, c # q) \<in> set d)"
  by (induction d best rule: oldest_head.induct) (auto split: option.splits if_splits)

lemma oldest_head_le:
  "oldest_head d best = Some (k, c) \<Longrightarrow>
   (case best of None \<Rightarrow> True | Some (k', b) \<Rightarrow> pc_last_used c \<le> pc_last_used b)
   \<and> (\<forall>k' c' q. (k', c' # q) \<in> set d \<longrightarrow> pc_last_used c \<le> pc_last_used c')"
proof (induction d best rule: oldest_head.induct)
  case (1 best)
  then show ?case by simp
next
  case (2 key rest best)
  then show ?case by simp
next
  case (3 key candidate q rest best)
  then show ?case by (cases best) (auto split: if_splits option.splits)
qed

text \<open>The eviction: the connection closed is one of those used longest ago.\<close>

lemma oldest_is_oldest:
  assumes "pool_queues_ok now p" "oldest_head (cp_idle p) None = Some (k, conn)"
  shows "list_all (\<lambda>e. list_all (\<lambda>c'. pc_last_used conn \<le> pc_last_used c') (snd e)) (cp_idle p)"
proof -
  have "pc_last_used conn \<le> pc_last_used c'" if m: "(k', q) \<in> set (cp_idle p)" "c' \<in> set q" for k' q c'
  proof -
    obtain h q' where q: "q = h # q'" using m(2) by (cases q) auto
    have "sorted (map pc_last_used q)"
      using assms(1) m(1) by (fastforce simp: pool_queues_ok_def queue_ok_def list_all_iff)
    then have "pc_last_used h \<le> pc_last_used c'" using m(2) q by auto
    moreover have "pc_last_used conn \<le> pc_last_used h"
      using oldest_head_le [OF assms(2)] m(1) q by blast
    ultimately show ?thesis by simp
  qed
  then show ?thesis by (auto simp: list_all_iff)
qed

lemma empty_queues: "list_all (\<lambda>e. snd e = []) d \<Longrightarrow> sum_list (map (length \<circ> snd) d) = 0"
  by (induction d) auto

lemma evict_lru_step:
  assumes "dict_ok (cp_idle p)" "0 < idle_count p"
  shows "\<exists>k conn q. oldest_head (cp_idle p) None = Some (k, conn) \<and> map_of (cp_idle p) k = Some (conn # q)
    \<and> evict_lru_locked p = p\<lparr>cp_idle := AList.update k q (cp_idle p),
        cp_closed := cp_closed p @ [pc_client conn], cp_evictions := cp_evictions p + 1\<rparr>"
proof -
  have "\<not> list_all (\<lambda>e. snd e = []) (cp_idle p)"
    using assms(2) empty_queues [of "cp_idle p"] unfolding idle_count_def by linarith
  then obtain k conn where o: "oldest_head (cp_idle p) None = Some (k, conn)"
    using oldest_head_None [of "cp_idle p" None] by auto
  then obtain q where "(k, conn # q) \<in> set (cp_idle p)" using oldest_head_Some by fastforce
  then have "map_of (cp_idle p) k = Some (conn # q)"
    using assms(1) by (simp add: dict_get_Some_iff)
  with o show ?thesis by (auto simp: evict_lru_locked_def close_client_def)
qed

lemma evict_lru_pairs:
  assumes "dict_ok (cp_idle p)" "0 < idle_count p"
  shows "\<exists>k c. cp_closed (evict_lru_locked p) = cp_closed p @ [c]
    \<and> mset (pool_pairs p) = mset (pool_pairs (evict_lru_locked p)) + {#(k, c)#}"
proof -
  obtain k conn q where e: "map_of (cp_idle p) k = Some (conn # q)"
    "evict_lru_locked p = p\<lparr>cp_idle := AList.update k q (cp_idle p),
        cp_closed := cp_closed p @ [pc_client conn], cp_evictions := cp_evictions p + 1\<rparr>"
    using evict_lru_step [OF assms] by blast
  show ?thesis
    using pool_pairs_update [OF assms(1) e(1), of q] unfolding e(2)
    by (intro exI [of _ k] exI [of _ "pc_client conn"]) (simp add: pool_pairs_def)
qed

lemma list_all_update: "list_all P d \<Longrightarrow> P (k, v) \<Longrightarrow> list_all P (AList.update k v d)"
  by (induction d) auto

lemma list_all_lookup: "list_all P d \<Longrightarrow> map_of d k = Some v \<Longrightarrow> P (k, v)"
  by (auto simp: list_all_iff dest: map_of_SomeD)

lemma queue_ok_simps [simp]:
  "queue_ok now []"
  "queue_ok now (c # q) \<longleftrightarrow> queue_ok now q \<and> pc_last_used c \<le> now \<and> (\<forall>d\<in>set q. pc_last_used c \<le> pc_last_used d)"
  by (auto simp: queue_ok_def)

lemma queue_ok_append:
  "queue_ok now (a @ b) \<Longrightarrow> queue_ok now a \<and> queue_ok now b"
  by (auto simp: queue_ok_def sorted_append)

lemma queue_ok_snoc:
  "queue_ok now q \<Longrightarrow> queue_ok now (q @ [\<lparr>pc_client = c, pc_last_used = now\<rparr>])"
  by (auto simp: queue_ok_def sorted_append list_all_iff)

lemma queue_ok_mono: "queue_ok t q \<Longrightarrow> t \<le> t' \<Longrightarrow> queue_ok t' q"
  by (fastforce simp: queue_ok_def list_all_iff)

lemma pool_queues_ok_mono: "pool_queues_ok t p \<Longrightarrow> t \<le> t' \<Longrightarrow> pool_queues_ok t' p"
  by (auto simp: pool_queues_ok_def list_all_iff intro: queue_ok_mono)

lemma pool_queues_ok_update:
  "pool_queues_ok now p \<Longrightarrow> queue_ok now q \<Longrightarrow> cp_idle p' = AList.update k q (cp_idle p) \<Longrightarrow>
   pool_queues_ok now p'"
  by (auto simp: pool_queues_ok_def intro: list_all_update)

lemma pool_queue_lookup: "pool_queues_ok now p \<Longrightarrow> map_of (cp_idle p) k = Some q \<Longrightarrow> queue_ok now q"
  unfolding pool_queues_ok_def by (auto dest: list_all_lookup)

lemma pool_acquire_ok:
  assumes "pool_queues_ok now p" "pool_acquire alive now key p = (res, p')"
  shows "pool_queues_ok now p' \<and> cp_max_size p' = cp_max_size p"
proof (cases "pool_enabled p \<and> (\<exists>q. map_of (cp_idle p) key = Some q \<and> q \<noteq> [])")
  case False
  then have "p' = p\<lparr>cp_misses := cp_misses p + 1\<rparr>"
    using assms(2) by (auto simp: pool_acquire_def split: if_splits option.splits)
  then show ?thesis using assms(1) by (simp add: pool_queues_ok_def)
next
  case True
  then obtain q where q: "pool_enabled p" "map_of (cp_idle p) key = Some q" "q \<noteq> []" by blast
  let ?u = "conn_usable alive (cp_ttl_seconds p) now"
  obtain found rest dropped where t: "take_usable ?u (rev q) = (found, rest, dropped)"
    by (cases "take_usable ?u (rev q)")
  from take_usable_split [OF t] obtain pre where "rev q = pre @ rest" by (metis append.assoc)
  then have "q = rev rest @ rev pre" by (metis rev_append rev_rev_ident)
  then have r: "queue_ok now (rev rest)"
    using pool_queue_lookup [OF assms(1) q(2)] queue_ok_append by blast
  have "cp_idle p' = AList.update key (rev rest) (cp_idle p)" "cp_max_size p' = cp_max_size p"
    using assms(2) q t by (auto simp: pool_acquire_def Let_def split: option.splits)
  with pool_queues_ok_update [OF assms(1) r] show ?thesis by blast
qed

text \<open>
  The account of an operation: what was idle or is put in is idle afterwards, closed, or handed out.
\<close>

definition pool_moves ::
    "'c connection_pool \<Rightarrow> (pool_key \<times> 'c) list \<Rightarrow> 'c connection_pool \<Rightarrow> (pool_key \<times> 'c) list \<Rightarrow> bool" where
  "pool_moves p added p' handed \<longleftrightarrow>
     (\<exists>D. cp_closed p' = cp_closed p @ map snd D
        \<and> mset (pool_pairs p) + mset added = mset (pool_pairs p') + mset D + mset handed)"

lemma pool_moves_acquire:
  assumes "dict_ok (cp_idle p)" "pool_acquire alive now key p = (res, p')"
  shows "pool_moves p [] p' (case res of None \<Rightarrow> [] | Some c \<Rightarrow> [(key, c)])"
proof -
  obtain dropped where d: "cp_closed p' = cp_closed p @ dropped"
    "mset (pool_pairs p) = mset (pool_pairs p') + mset (map (Pair key) dropped)
        + (case res of None \<Rightarrow> {#} | Some c \<Rightarrow> {#(key, c)#})"
    using pool_acquire_pairs [OF assms] by blast
  then show ?thesis
    unfolding pool_moves_def by (intro exI [of _ "map (Pair key) dropped"]) (auto simp: o_def split: option.splits)
qed

lemma pool_moves_refl [simp]: "pool_moves p [] p []"
  by (simp add: pool_moves_def)

lemma pool_moves_trans:
  assumes "pool_moves p a p' []" "pool_moves p' b p'' h"
  shows "pool_moves p (b @ a) p'' h"
proof -
  obtain D where D: "cp_closed p' = cp_closed p @ map snd D"
    "mset (pool_pairs p) + mset a = mset (pool_pairs p') + mset D"
    using assms(1) by (auto simp: pool_moves_def)
  obtain D' where D': "cp_closed p'' = cp_closed p' @ map snd D'"
    "mset (pool_pairs p') + mset b = mset (pool_pairs p'') + mset D' + mset h"
    using assms(2) by (auto simp: pool_moves_def)
  have "mset (pool_pairs p) + mset (b @ a) = mset (pool_pairs p'') + mset (D @ D') + mset h"
    using arg_cong2 [OF D(2) D'(2), of "(+)"] by (simp add: add_ac)
  then show ?thesis
    using D(1) D'(1) unfolding pool_moves_def by (intro exI [of _ "D @ D'"]) simp
qed

lemma pool_moves_evict:
  assumes "dict_ok (cp_idle p)" "0 < idle_count p"
  shows "pool_moves p [] (evict_lru_locked p) []"
proof -
  obtain k c where "cp_closed (evict_lru_locked p) = cp_closed p @ [c]"
    "mset (pool_pairs p) = mset (pool_pairs (evict_lru_locked p)) + {#(k, c)#}"
    using evict_lru_pairs [OF assms] by blast
  then show ?thesis unfolding pool_moves_def by (intro exI [of _ "[(k, c)]"]) simp
qed

lemma evict_lru_ok:
  assumes ok: "pool_queues_ok now p" and n: "0 < idle_count p"
  shows "pool_queues_ok now (evict_lru_locked p)"
    and "cp_max_size (evict_lru_locked p) = cp_max_size p"
    and "idle_count (evict_lru_locked p) = idle_count p - 1"
    and "map_of (cp_idle p) key \<noteq> None \<Longrightarrow> map_of (cp_idle (evict_lru_locked p)) key \<noteq> None"
proof -
  have d: "dict_ok (cp_idle p)" using ok by (simp add: pool_queues_ok_def)
  obtain k conn q where e: "map_of (cp_idle p) k = Some (conn # q)"
    "evict_lru_locked p = p\<lparr>cp_idle := AList.update k q (cp_idle p),
        cp_closed := cp_closed p @ [pc_client conn], cp_evictions := cp_evictions p + 1\<rparr>"
    using evict_lru_step [OF d n] by blast
  have "queue_ok now q" using pool_queue_lookup [OF ok e(1)] by simp
  with pool_queues_ok_update [OF ok this] show "pool_queues_ok now (evict_lru_locked p)"
    unfolding e(2) by simp
  show "cp_max_size (evict_lru_locked p) = cp_max_size p" unfolding e(2) by simp
  show "map_of (cp_idle p) key \<noteq> None \<Longrightarrow> map_of (cp_idle (evict_lru_locked p)) key \<noteq> None"
    unfolding e(2) by simp
  obtain k c where "mset (pool_pairs p) = mset (pool_pairs (evict_lru_locked p)) + {#(k, c)#}"
    using evict_lru_pairs [OF d n] by blast
  from arg_cong [OF this, of size] show "idle_count (evict_lru_locked p) = idle_count p - 1"
    by (simp add: length_pool_pairs)
qed

lemma default_queue_ok:
  assumes "pool_queues_ok now p"
  shows "pool_queues_ok now (default_queue key p)" "map_of (cp_idle (default_queue key p)) key \<noteq> None"
    and "cp_max_size (default_queue key p) = cp_max_size p"
    and "mset (pool_pairs (default_queue key p)) = mset (pool_pairs p)"
    and "cp_closed (default_queue key p) = cp_closed p"
proof -
  show "pool_queues_ok now (default_queue key p)"
    using assms pool_queues_ok_update [OF assms, of "[]"] by (simp add: default_queue_def)
  have "dict_ok (cp_idle p)" using assms by (simp add: pool_queues_ok_def)
  from mset_concat_update [OF this, of queue_pairs key "[]"]
  show "mset (pool_pairs (default_queue key p)) = mset (pool_pairs p)"
    by (auto simp: default_queue_def pool_pairs_def)
qed (auto simp: default_queue_def)

lemma pool_append_ok:
  assumes ok: "pool_queues_ok now p" and k: "map_of (cp_idle p) key = Some q"
    and p': "p' = p\<lparr>cp_idle := AList.update key (q @ [\<lparr>pc_client = c, pc_last_used = now\<rparr>]) (cp_idle p)\<rparr>"
  shows "pool_queues_ok now p'" "pool_moves p [(key, c)] p' []" "idle_count p' = idle_count p + 1"
proof -
  have q: "queue_ok now (q @ [\<lparr>pc_client = c, pc_last_used = now\<rparr>])"
    by (rule queue_ok_snoc [OF pool_queue_lookup [OF ok k]])
  show "pool_queues_ok now p'" using pool_queues_ok_update [OF ok q] p' by simp
  have "dict_ok (cp_idle p)" using ok by (simp add: pool_queues_ok_def)
  from pool_pairs_update [OF this k, of "q @ [\<lparr>pc_client = c, pc_last_used = now\<rparr>]"]
  have m: "mset (pool_pairs p') = mset (pool_pairs p) + {#(key, c)#}" by (simp add: p')
  then show "pool_moves p [(key, c)] p' []" by (simp add: pool_moves_def p')
  from arg_cong [OF m, of size] show "idle_count p' = idle_count p + 1"
    by (simp add: length_pool_pairs)
qed

lemma pool_release_ok:
  assumes ok: "pool_queues_ok now p" and size: "int (idle_count p) \<le> cp_max_size p"
  shows "pool_queues_ok now (pool_release now key c p)
    \<and> pool_moves p [(key, c)] (pool_release now key c p) []
    \<and> cp_max_size (pool_release now key c p) = cp_max_size p
    \<and> int (idle_count (pool_release now key c p)) \<le> cp_max_size p"
proof (cases "pool_enabled p")
  case False
  then show ?thesis
    using ok size by (simp add: pool_release_def close_client_def pool_queues_ok_def idle_count_def
        pool_moves_def pool_pairs_def exI [of _ "[(key, c)]"])
next
  case True
  define p1 where "p1 = default_queue key p"
  note p1 = default_queue_ok [OF ok, of key, folded p1_def]
  have n1: "idle_count p1 = idle_count p"
    using arg_cong [OF p1(4), of size] by (simp add: length_pool_pairs)
  have m1: "pool_moves p [] p1 []" unfolding pool_moves_def by (simp add: p1(4,5))
  define p2 where "p2 = (if cp_max_size p1 \<le> int (idle_count p1) then evict_lru_locked p1 else p1)"
  have pos: "0 < idle_count p1" if "cp_max_size p1 \<le> int (idle_count p1)"
    using that True p1(3) by (simp add: pool_enabled_def)
  have d1: "dict_ok (cp_idle p1)" using p1(1) by (simp add: pool_queues_ok_def)
  have p2: "pool_queues_ok now p2" "cp_max_size p2 = cp_max_size p" "map_of (cp_idle p2) key \<noteq> None"
    using evict_lru_ok [OF p1(1) pos] p1(1-3) by (simp_all add: p2_def)
  have n2: "int (idle_count p2) < cp_max_size p"
    using evict_lru_ok(3) [OF p1(1) pos] pos size n1 p1(3) by (auto simp: p2_def of_nat_diff)
  have m2: "pool_moves p1 [] p2 []"
    using pool_moves_evict [OF d1 pos] by (simp add: p2_def)
  obtain q where q: "map_of (cp_idle p2) key = Some q" using p2(3) by blast
  have r: "pool_release now key c p =
      p2\<lparr>cp_idle := AList.update key (q @ [\<lparr>pc_client = c, pc_last_used = now\<rparr>]) (cp_idle p2)\<rparr>"
    using True q by (simp add: pool_release_def Let_def p1_def [symmetric] p2_def [symmetric])
  note a = pool_append_ok [OF p2(1) q r]
  have "pool_moves p [(key, c)] (pool_release now key c p) []"
    using pool_moves_trans [OF m1 pool_moves_trans [OF m2 a(2)]] by simp
  then show ?thesis using a n2 p2(2) by (simp add: r)
qed

lemma stale_prefix_append: "stale_prefix ttl now q = (dropped, kept) \<Longrightarrow> q = dropped @ kept"
  by (induction q arbitrary: dropped kept) (auto split: if_splits prod.splits)

lemma evict_stale_queues_pairs:
  "evict_stale_queues ttl now d = (d', dropped) \<Longrightarrow>
   \<exists>D. map snd D = map pc_client dropped
     \<and> mset (concat (map queue_pairs d)) = mset (concat (map queue_pairs d')) + mset D"
proof (induction d arbitrary: d' dropped)
  case Nil
  then show ?case by simp
next
  case (Cons e d)
  obtain key q where e: "e = (key, q)" by (cases e)
  obtain drop kept where s: "stale_prefix ttl now q = (drop, kept)" by (cases "stale_prefix ttl now q")
  obtain rest dropped' where r: "evict_stale_queues ttl now d = (rest, dropped')"
    by (cases "evict_stale_queues ttl now d")
  obtain D where D: "map snd D = map pc_client dropped'"
    "mset (concat (map queue_pairs d)) = mset (concat (map queue_pairs rest)) + mset D"
    using Cons.IH [OF r] by blast
  have q: "queue_pairs (key, q) = queue_pairs (key, drop) @ queue_pairs (key, kept)"
    by (simp add: stale_prefix_append [OF s])
  have "map snd (queue_pairs (key, drop) @ D) = map pc_client dropped"
    using Cons.prems e s r D(1) by (auto simp: queue_pairs_def o_def)
  then show ?case
    using Cons.prems e s r D(2) q by (intro exI [of _ "queue_pairs (key, drop) @ D"]) auto
qed

lemma evict_stale_queues_ok:
  "evict_stale_queues ttl now d = (d', dropped) \<Longrightarrow> list_all (\<lambda>e. queue_ok t (snd e)) d \<Longrightarrow>
   list_all (\<lambda>e. queue_ok t (snd e)) d' \<and> set (map fst d') \<subseteq> set (map fst d)
   \<and> (distinct (map fst d) \<longrightarrow> distinct (map fst d'))"
proof (induction d arbitrary: d' dropped)
  case Nil
  then show ?case by simp
next
  case (Cons e d)
  obtain key q where e: "e = (key, q)" by (cases e)
  obtain drop kept where s: "stale_prefix ttl now q = (drop, kept)" by (cases "stale_prefix ttl now q")
  obtain rest dropped' where r: "evict_stale_queues ttl now d = (rest, dropped')"
    by (cases "evict_stale_queues ttl now d")
  have "queue_ok t kept" using queue_ok_append [of t drop kept] Cons.prems(2) e stale_prefix_append [OF s] by simp
  moreover have "a \<in> fst ` set d" if "(a, b) \<in> set rest" for a b
    using Cons.IH [OF r] Cons.prems that by force
  ultimately show ?case using Cons.IH [OF r] Cons.prems e s r by (auto split: if_splits)
qed

lemma pool_moves_shrinks:
  assumes "pool_moves p [] p' h"
  shows "idle_count p' \<le> idle_count p"
proof -
  obtain D where "mset (pool_pairs p) + mset [] = mset (pool_pairs p') + mset D + mset h"
    using assms by (auto simp: pool_moves_def)
  from arg_cong [OF this, of size] show ?thesis by (simp add: length_pool_pairs)
qed

lemma pool_evict_stale_ok:
  assumes ok: "pool_queues_ok t p" and e: "pool_evict_stale now p = (n, p')"
  shows "pool_queues_ok t p' \<and> pool_moves p [] p' [] \<and> cp_max_size p' = cp_max_size p"
proof (cases "\<not> pool_enabled p \<or> cp_ttl_seconds p \<le> 0")
  case True
  then show ?thesis using ok e by (auto simp: pool_evict_stale_def)
next
  case False
  obtain idle dropped where s: "evict_stale_queues (cp_ttl_seconds p) now (cp_idle p) = (idle, dropped)"
    by (cases "evict_stale_queues (cp_ttl_seconds p) now (cp_idle p)")
  have p': "p' = p\<lparr>cp_idle := idle, cp_closed := cp_closed p @ map pc_client dropped\<rparr>"
    using e False s by (simp add: pool_evict_stale_def)
  obtain D where D: "map snd D = map pc_client dropped"
    "mset (concat (map queue_pairs (cp_idle p))) = mset (concat (map queue_pairs idle)) + mset D"
    using evict_stale_queues_pairs [OF s] by blast
  then have "pool_moves p [] p' []"
    unfolding pool_moves_def p' pool_pairs_def by (intro exI [of _ D]) simp
  then show ?thesis
    using evict_stale_queues_ok [OF s, of t] ok by (auto simp: p' pool_queues_ok_def dict_ok_def)
qed

lemma pool_close_all_ok:
  assumes "pool_close_all p = (n, p')"
  shows "pool_queues_ok t p' \<and> pool_moves p [] p' [] \<and> cp_max_size p' = cp_max_size p"
proof -
  have "map snd (pool_pairs p) = concat (map (\<lambda>(k, q). map pc_client q) (cp_idle p))"
    by (simp add: pool_pairs_def map_concat queue_pairs_def o_def case_prod_unfold)
  then have "p' = p\<lparr>cp_idle := [], cp_closed := cp_closed p @ map snd (pool_pairs p)\<rparr>"
    using assms by (simp add: pool_close_all_def Let_def)
  then show ?thesis
    unfolding pool_moves_def
    by (auto simp: pool_queues_ok_def pool_pairs_def intro!: exI [of _ "pool_pairs p"])
qed

subsection \<open>Histories\<close>

text \<open>
  A history of the pool under a clock that does not run backwards: \<open>rel\<close> lists what was put in,
  \<open>han\<close> what was handed out, each with its key.
\<close>

inductive pool_history ::
    "time \<Rightarrow> 'c connection_pool \<Rightarrow> (pool_key \<times> 'c) list \<Rightarrow> (pool_key \<times> 'c) list \<Rightarrow> bool" where
  created: "pool_history t (new_pool n ttl) [] []"
| acquired: "pool_history t p rel han \<Longrightarrow> t \<le> now \<Longrightarrow> pool_acquire alive now key p = (res, p') \<Longrightarrow>
    pool_history now p' rel ((case res of None \<Rightarrow> [] | Some c \<Rightarrow> [(key, c)]) @ han)"
| released: "pool_history t p rel han \<Longrightarrow> t \<le> now \<Longrightarrow>
    pool_history now (pool_release now key c p) ((key, c) # rel) han"
| evicted: "pool_history t p rel han \<Longrightarrow> t \<le> now \<Longrightarrow> pool_evict_stale now p = (n, p') \<Longrightarrow>
    pool_history now p' rel han"
| closed: "pool_history t p rel han \<Longrightarrow> pool_close_all p = (n, p') \<Longrightarrow> pool_history t p' rel han"

definition pool_inv :: "time \<Rightarrow> 'c connection_pool \<Rightarrow> (pool_key \<times> 'c) list \<Rightarrow> (pool_key \<times> 'c) list \<Rightarrow> bool" where
  "pool_inv t p rel han \<longleftrightarrow> pool_queues_ok t p \<and> int (idle_count p) \<le> cp_max_size p
     \<and> (\<exists>D. cp_closed p = map snd D \<and> mset rel = mset (pool_pairs p) + mset D + mset han)"

lemma pool_inv_step:
  assumes inv: "pool_inv t p rel han" and m: "pool_moves p a p' h"
    and ok: "pool_queues_ok t' p'" and n: "int (idle_count p') \<le> cp_max_size p'"
  shows "pool_inv t' p' (a @ rel) (h @ han)"
proof -
  obtain D where D: "cp_closed p = map snd D" "mset rel = mset (pool_pairs p) + mset D + mset han"
    using inv by (auto simp: pool_inv_def)
  obtain D' where D': "cp_closed p' = cp_closed p @ map snd D'"
    "mset (pool_pairs p) + mset a = mset (pool_pairs p') + mset D' + mset h"
    using m by (auto simp: pool_moves_def)
  have "mset (a @ rel) = mset (pool_pairs p') + mset (D @ D') + mset (h @ han)"
    using D(2) D'(2) by (simp add: add_ac)
  with D(1) D'(1) ok n show ?thesis
    unfolding pool_inv_def by (intro conjI exI [of _ "D @ D'"]) auto
qed

lemma pool_history_inv: "pool_history t p rel han \<Longrightarrow> pool_inv t p rel han"
proof (induction rule: pool_history.induct)
  case (created t n ttl)
  then show ?case by (simp add: pool_inv_def new_pool_def pool_queues_ok_def idle_count_def pool_pairs_def)
next
  case (acquired t p rel han now alive key res p')
  have ok: "pool_queues_ok now p" and n: "int (idle_count p) \<le> cp_max_size p"
    using acquired.IH pool_queues_ok_mono [OF _ acquired.hyps(2)] by (auto simp: pool_inv_def)
  have d: "dict_ok (cp_idle p)" using ok by (simp add: pool_queues_ok_def)
  note m = pool_moves_acquire [OF d acquired.hyps(3)]
  have "idle_count p' \<le> idle_count p" by (rule pool_moves_shrinks [OF m])
  with pool_inv_step [OF acquired.IH m] pool_acquire_ok [OF ok acquired.hyps(3)] n show ?case by simp
next
  case (released t p rel han now key c)
  have ok: "pool_queues_ok now p" and n: "int (idle_count p) \<le> cp_max_size p"
    using released.IH pool_queues_ok_mono [OF _ released.hyps(2)] by (auto simp: pool_inv_def)
  from pool_release_ok [OF this, of key c] pool_inv_step [OF released.IH, of "[(key, c)]" _ "[]"]
  show ?case by simp
next
  case (evicted t p rel han now n p')
  note e = pool_evict_stale_ok [OF _ evicted.hyps(3)]
  have ok: "pool_queues_ok now p" and n: "int (idle_count p) \<le> cp_max_size p"
    using evicted.IH pool_queues_ok_mono [OF _ evicted.hyps(2)] by (auto simp: pool_inv_def)
  then show ?case
    using pool_inv_step [OF evicted.IH, of "[]" p' "[]" now] e [OF ok] pool_moves_shrinks [of p p' "[]"] by simp
next
  case (closed t p rel han n p')
  then show ?case
    using pool_inv_step [OF closed.IH, of "[]" p' "[]" t] pool_close_all_ok [OF closed.hyps(2), of t]
      pool_moves_shrinks [of p p' "[]"] by (simp add: pool_inv_def)
qed

text \<open>C23: In any history of the connection pool, every transport put in is idle under the key it was put
  in with, closed, or was handed out for that same key, and exactly once: none is lost, closed twice or
  shared. The idle ones never exceed the size of the pool, and each queue is ordered by last use.\<close>

theorem pool_accounts_for_clients:
  assumes "pool_history t p rel han"
  shows "\<exists>D. cp_closed p = map snd D \<and> mset rel = mset (pool_pairs p) + mset D + mset han
    \<and> int (idle_count p) \<le> cp_max_size p \<and> pool_queues_ok t p"
  using pool_history_inv [OF assms] by (auto simp: pool_inv_def)

definition demo_key :: pool_key where
  "demo_key = (''h'', 22, ''u'', ''password'', ''f'', None)"

lemma pool_accounts_for_clients_witness:
  "\<exists>D. [2] = map snd D
     \<and> mset [(demo_key, 2), (demo_key, 1 :: nat)] = mset [] + mset D + mset [(demo_key, 1)]"
proof -
  let ?p = "pool_release 2 demo_key 2 (pool_release 1 demo_key 1 (new_pool 4 60 :: nat connection_pool))"
  let ?a = "pool_acquire (\<lambda>c. c = 1) 3 demo_key ?p"
  have h: "pool_history 2 ?p [(demo_key, 2), (demo_key, 1)] []"
    by (rule released [OF released [OF created [of 0]]]) simp_all
  have a: "?a = (Some 1, snd ?a)" and e: "cp_closed (snd ?a) = [2] \<and> pool_pairs (snd ?a) = []"
    by code_simp+
  show ?thesis
    using pool_accounts_for_clients [OF acquired [OF h _ a]] e by simp
qed

end
