(* ===== verification/SessionManager.thy ===== *)
theory SessionManager
  imports CircuitBreaker ConnectionPool
begin

text \<open>
  \<open>app/ssh_manager.py\<close>: the sessions of the gateway. A session is created in five atomic sections
  (what runs between two awaits, or under the lock of the manager): admission with its reservation
  (\<open>admit\<close>), the choice between a pooled transport and a dial (\<open>begin_connect\<close>), the outcome of the dial
  (\<open>end_dial\<close>), the registration (\<open>register_session\<close>) and the release of the reservation
  (\<open>release_reservation\<close>, the \<open>finally\<close> block). Between them other tasks run; \<open>manager_step\<close> is the
  relation of all interleavings, with the creations in flight beside the manager.

  \<open>paramiko\<close>, the resolver and the hash are arguments: whether a transport is alive, how a dial ends,
  SHA-256 and the canonical text of an IP address. A client is a value of the type \<open>'c\<close>; those the
  manager closes itself are appended to \<open>sm_closed\<close>. Command execution on a channel is left out: of
  \<open>execute\<close> only its effect on the record of the session is modelled (\<open>begin_operation\<close>,
  \<open>release_operation_lease\<close>).
\<close>

subsection \<open>State\<close>

datatype session_error =
    SessionLimitError
  | SSHConnectionError
  | AuthenticationError
  | SessionNotFoundError
  | SSHValueError
  | SSHRegistryError registry_error
  | OtherException

record 'c session_record =
  sr_session_id :: string
  sr_client :: 'c
  sr_host :: string
  sr_port :: int
  sr_username :: string
  sr_connected_at :: time
  sr_last_activity :: time
  sr_owner_type :: string
  sr_owner_name :: "string option"
  sr_owner_token_fingerprint :: "string option"
  sr_source_ip :: "string option"
  sr_auth_method :: string
  sr_credential_fingerprint :: string
  sr_destination_ip :: "string option"
  sr_tenant_labels :: "string list"
  sr_effective_idle_timeout :: int
  sr_ephemeral :: bool
  sr_active_operations :: int

record session_settings =
  ss_max_sessions_per_ip :: int
  ss_master_max_sessions_per_ip :: int
  ss_api_auth_enabled :: bool

record 'c ssh_manager =
  sm_sessions :: "(string \<times> 'c session_record) list"
  sm_pending :: "(string \<times> int) list"
  sm_session_timeout :: int
  sm_breakers :: "breaker_registry option"
  sm_pool :: "'c connection_pool option"
  sm_closed :: "'c list"

definition new_manager :: "int \<Rightarrow> breaker_registry option \<Rightarrow> int \<Rightarrow> int \<Rightarrow> 'c ssh_manager" where
  "new_manager session_timeout breakers pool_size pool_ttl =
     \<lparr>sm_sessions = [], sm_pending = [], sm_session_timeout = session_timeout, sm_breakers = breakers,
      sm_pool = (if 0 < pool_size then Some (new_pool pool_size pool_ttl) else None), sm_closed = []\<rparr>"

text \<open>What a caller of \<open>create_session\<close> presents.\<close>

record session_request =
  sq_host :: string
  sq_port :: int
  sq_username :: string
  sq_password :: "string option"
  sq_private_key :: "string option"
  sq_key_passphrase :: "string option"
  sq_owner_type :: string
  sq_owner_name :: "string option"
  sq_owner_token_fingerprint :: "string option"
  sq_source_ip :: "string option"
  sq_tenant_labels :: "string list"
  sq_session_id :: "string option"
  sq_pinned_ip :: "string option"
  sq_ephemeral :: bool
  sq_idle_timeout_seconds :: "int option"
  sq_privileged_capacity :: bool

definition opt_or_empty :: "string option \<Rightarrow> string" where
  "opt_or_empty s = (case s of None \<Rightarrow> [] | Some x \<Rightarrow> x)"

definition credential_fingerprint ::
    "(string \<Rightarrow> string) \<Rightarrow> string \<Rightarrow> string option \<Rightarrow> string option \<Rightarrow> string option \<Rightarrow> string" where
  "credential_fingerprint sha auth_method password private_key key_passphrase =
     sha (if auth_method = ''password'' then ''pw:'' @ opt_or_empty password
          else ''key:'' @ opt_or_empty private_key @ [CHR 0x00] @ opt_or_empty key_passphrase)"

definition auth_method_of :: "session_request \<Rightarrow> string" where
  "auth_method_of rq = (if sq_password rq \<noteq> None then ''password'' else ''key'')"

definition request_fingerprint :: "(string \<Rightarrow> string) \<Rightarrow> session_request \<Rightarrow> string" where
  "request_fingerprint sha rq =
     credential_fingerprint sha (auth_method_of rq) (sq_password rq) (sq_private_key rq) (sq_key_passphrase rq)"

definition request_pool_key :: "(string \<Rightarrow> string) \<Rightarrow> session_request \<Rightarrow> string option \<Rightarrow> pool_key" where
  "request_pool_key sha rq destination_ip =
     (sq_host rq, sq_port rq, sq_username rq, auth_method_of rq, request_fingerprint sha rq, destination_ip)"

definition record_pool_key :: "'c session_record \<Rightarrow> pool_key" where
  "record_pool_key r = (sr_host r, sr_port r, sr_username r, sr_auth_method r,
     sr_credential_fingerprint r, sr_destination_ip r)"

definition touch_record :: "time \<Rightarrow> 'c session_record \<Rightarrow> 'c session_record" where
  "touch_record now r = r\<lparr>sr_last_activity := now\<rparr>"

subsection \<open>Idle sessions\<close>

definition idle_limit :: "int \<Rightarrow> 'c session_record \<Rightarrow> int" where
  "idle_limit session_timeout r =
     min (if sr_effective_idle_timeout r \<noteq> 0 then sr_effective_idle_timeout r else session_timeout)
       session_timeout"

definition session_expired :: "int \<Rightarrow> time \<Rightarrow> 'c session_record \<Rightarrow> bool" where
  "session_expired session_timeout now r \<longleftrightarrow>
     sr_active_operations r = 0 \<and> of_int (idle_limit session_timeout r) < now - sr_last_activity r"

definition cleanup_stale_sessions :: "time \<Rightarrow> 'c ssh_manager \<Rightarrow> nat \<times> 'c ssh_manager" where
  "cleanup_stale_sessions now m =
     (let stale = filter (\<lambda>(sid, r). session_expired (sm_session_timeout m) now r) (sm_sessions m)
      in (length stale,
          m\<lparr>sm_sessions := filter (\<lambda>(sid, r). \<not> session_expired (sm_session_timeout m) now r) (sm_sessions m),
            sm_closed := sm_closed m @ map (sr_client \<circ> snd) stale\<rparr>))"

subsection \<open>Creating a session\<close>

definition session_limit :: "session_settings \<Rightarrow> session_request \<Rightarrow> int" where
  "session_limit st rq =
     (if sq_privileged_capacity rq \<and> ss_api_auth_enabled st \<and> sq_owner_type rq = ''master''
         \<and> 0 < ss_master_max_sessions_per_ip st
      then ss_master_max_sessions_per_ip st else ss_max_sessions_per_ip st)"

definition effective_idle_timeout :: "int \<Rightarrow> session_request \<Rightarrow> int" where
  "effective_idle_timeout session_timeout rq =
     (case sq_idle_timeout_seconds rq of None \<Rightarrow> session_timeout | Some n \<Rightarrow> min n session_timeout)"

definition active_sessions :: "string \<Rightarrow> 'c ssh_manager \<Rightarrow> int" where
  "active_sessions ip m = int (length (filter (\<lambda>(sid, r). sr_source_ip r = Some ip) (sm_sessions m)))"

definition pending_sessions :: "string \<Rightarrow> 'c ssh_manager \<Rightarrow> int" where
  "pending_sessions ip m = (case map_of (sm_pending m) ip of None \<Rightarrow> 0 | Some n \<Rightarrow> n)"

text \<open>
  The admission: the expired sessions of the address are reaped, then the active and the pending ones
  counted. On success the reservation is returned and the reaped clients are closed (after the
  lock is released); on \<open>SessionLimitError\<close> they are no longer in the table and not closed.
\<close>

definition admit ::
    "session_settings \<Rightarrow> time \<Rightarrow> session_request \<Rightarrow> 'c ssh_manager
      \<Rightarrow> (session_error + string option) \<times> 'c ssh_manager" where
  "admit st now rq m =
     (case sq_source_ip rq of
        None \<Rightarrow> (Inr None, m)
      | Some ip \<Rightarrow>
          if ip = [] \<or> session_limit st rq \<le> 0 then (Inr None, m)
          else
            (let reap = (\<lambda>(sid, r). sr_source_ip r = Some ip \<and> session_expired (sm_session_timeout m) now r);
                 reaped = filter reap (sm_sessions m);
                 m' = m\<lparr>sm_sessions := filter (\<lambda>e. \<not> reap e) (sm_sessions m)\<rparr>
             in if session_limit st rq \<le> active_sessions ip m' + pending_sessions ip m'
                then (Inl SessionLimitError, m')
                else (Inr (Some ip),
                      m'\<lparr>sm_pending := AList.update ip (pending_sessions ip m' + 1) (sm_pending m'),
                         sm_closed := sm_closed m' @ map (sr_client \<circ> snd) reaped\<rparr>)))"

definition release_reservation :: "string option \<Rightarrow> 'c ssh_manager \<Rightarrow> 'c ssh_manager" where
  "release_reservation reserved m =
     (case reserved of
        None \<Rightarrow> m
      | Some ip \<Rightarrow>
          if pending_sessions ip m \<le> 1 then m\<lparr>sm_pending := AList.delete ip (sm_pending m)\<rparr>
          else m\<lparr>sm_pending := AList.update ip (pending_sessions ip m - 1) (sm_pending m)\<rparr>)"

datatype 'c connect_plan = Reuse 'c | Dial "nat option"

definition on_breaker :: "(circuit_breaker \<Rightarrow> circuit_breaker) \<Rightarrow> nat option \<Rightarrow> 'c ssh_manager \<Rightarrow> 'c ssh_manager" where
  "on_breaker f a m =
     (case (a, sm_breakers m) of
        (Some i, Some rg) \<Rightarrow> m\<lparr>sm_breakers := Some (rg\<lparr>br_heap := (br_heap rg)[i := f (br_heap rg ! i)]\<rparr>)\<rparr>
      | _ \<Rightarrow> m)"

definition begin_connect ::
    "('c \<Rightarrow> bool) \<Rightarrow> time \<Rightarrow> time \<Rightarrow> pool_key \<Rightarrow> string \<Rightarrow> 'c ssh_manager
      \<Rightarrow> (session_error + 'c connect_plan) \<times> 'c ssh_manager" where
  "begin_connect alive tick now key host m =
     (let (pooled, m1) =
        (case sm_pool m of
           None \<Rightarrow> (None, m)
         | Some pool \<Rightarrow>
             if snd (snd (snd (snd (snd key)))) = None then (None, m)
             else (let (c, pool') = pool_acquire alive tick key pool in (c, m\<lparr>sm_pool := Some pool'\<rparr>)))
      in case pooled of
           Some c \<Rightarrow> (Inr (Reuse c), m1)
         | None \<Rightarrow>
             (case sm_breakers m1 of
                None \<Rightarrow> (Inr (Dial None), m1)
              | Some rg \<Rightarrow>
                  (case get_breaker host default_breaker rg of
                     (Inl e, rg') \<Rightarrow> (Inl (SSHRegistryError e), m1\<lparr>sm_breakers := Some rg'\<rparr>)
                   | (Inr a, rg') \<Rightarrow>
                       (let (ok, b) = can_execute now (br_heap rg' ! a);
                            m2 = m1\<lparr>sm_breakers := Some (rg'\<lparr>br_heap := (br_heap rg')[a := b]\<rparr>)\<rparr>
                        in if ok then (Inr (Dial (Some a)), m2) else (Inl SSHConnectionError, m2)))))"

text \<open>
  How a dial ends: connected; the private key does not parse; \<open>AuthenticationException\<close>; one of
  \<open>NoValidConnectionsError\<close>, \<open>SSHException\<close>, \<open>OSError\<close>; any other exception or a cancellation.
\<close>

datatype dial_outcome = Dialed | KeyRejected | AuthRejected | Unreachable | DialRaised

definition end_dial ::
    "time \<Rightarrow> 'c \<Rightarrow> nat option \<Rightarrow> dial_outcome \<Rightarrow> 'c ssh_manager \<Rightarrow> session_error option \<times> 'c ssh_manager" where
  "end_dial now client breaker out m =
     (case out of
        Dialed \<Rightarrow> (None, on_breaker record_success breaker m)
      | KeyRejected \<Rightarrow> (Some AuthenticationError, m)
      | AuthRejected \<Rightarrow> (Some AuthenticationError, m\<lparr>sm_closed := sm_closed m @ [client]\<rparr>)
      | Unreachable \<Rightarrow>
          (Some SSHConnectionError,
           (on_breaker (record_failure now) breaker m)\<lparr>sm_closed := sm_closed m @ [client]\<rparr>)
      | DialRaised \<Rightarrow> (Some OtherException, m))"

definition make_record ::
    "(string \<Rightarrow> string) \<Rightarrow> time \<Rightarrow> string \<Rightarrow> 'c \<Rightarrow> string option \<Rightarrow> int \<Rightarrow> session_request \<Rightarrow> 'c session_record" where
  "make_record sha now sid client destination_ip idle rq =
     \<lparr>sr_session_id = sid, sr_client = client, sr_host = sq_host rq, sr_port = sq_port rq,
      sr_username = sq_username rq, sr_connected_at = now, sr_last_activity = now,
      sr_owner_type = sq_owner_type rq, sr_owner_name = sq_owner_name rq,
      sr_owner_token_fingerprint = sq_owner_token_fingerprint rq, sr_source_ip = sq_source_ip rq,
      sr_auth_method = auth_method_of rq, sr_credential_fingerprint = request_fingerprint sha rq,
      sr_destination_ip = destination_ip, sr_tenant_labels = sq_tenant_labels rq,
      sr_effective_idle_timeout = idle, sr_ephemeral = sq_ephemeral rq, sr_active_operations = 0\<rparr>"

definition register_session :: "'c session_record \<Rightarrow> 'c ssh_manager \<Rightarrow> 'c ssh_manager" where
  "register_session r m = m\<lparr>sm_sessions := AList.update (sr_session_id r) r (sm_sessions m)\<rparr>"

definition canonical_ip :: "(string \<Rightarrow> string option) \<Rightarrow> string option \<Rightarrow> session_error + string option" where
  "canonical_ip canon pinned =
     (case pinned of
        None \<Rightarrow> Inr None
      | Some ip \<Rightarrow> (case canon ip of None \<Rightarrow> Inl SSHValueError | Some x \<Rightarrow> Inr (Some x)))"

definition create_session_unreserved ::
    "(string \<Rightarrow> string) \<Rightarrow> (string \<Rightarrow> string option) \<Rightarrow> ('c \<Rightarrow> bool) \<Rightarrow> time \<Rightarrow> time \<Rightarrow> string \<Rightarrow> 'c
      \<Rightarrow> dial_outcome \<Rightarrow> int \<Rightarrow> session_request \<Rightarrow> 'c ssh_manager
      \<Rightarrow> (session_error + string) \<times> 'c ssh_manager" where
  "create_session_unreserved sha canon alive tick now uuid client out idle rq m =
     (case canonical_ip canon (sq_pinned_ip rq) of
        Inl e \<Rightarrow> (Inl e, m)
      | Inr destination_ip \<Rightarrow>
          (let sid = (if opt_or_empty (sq_session_id rq) \<noteq> [] then opt_or_empty (sq_session_id rq) else uuid);
               register = (\<lambda>c m. (Inr sid, register_session (make_record sha now sid c destination_ip idle rq) m))
           in case begin_connect alive tick now (request_pool_key sha rq destination_ip) (sq_host rq) m of
                (Inl e, m1) \<Rightarrow> (Inl e, m1)
              | (Inr (Reuse c), m1) \<Rightarrow> register c m1
              | (Inr (Dial breaker), m1) \<Rightarrow>
                  (case end_dial now client breaker out m1 of
                     (Some e, m2) \<Rightarrow> (Inl e, m2)
                   | (None, m2) \<Rightarrow> register client m2)))"

definition create_session ::
    "session_settings \<Rightarrow> (string \<Rightarrow> string) \<Rightarrow> (string \<Rightarrow> string option) \<Rightarrow> ('c \<Rightarrow> bool) \<Rightarrow> time \<Rightarrow> time \<Rightarrow> string
      \<Rightarrow> 'c \<Rightarrow> dial_outcome \<Rightarrow> session_request \<Rightarrow> 'c ssh_manager
      \<Rightarrow> (session_error + string) \<times> 'c ssh_manager" where
  "create_session st sha canon alive tick now uuid client out rq m =
     (case admit st now rq m of
        (Inl e, m1) \<Rightarrow> (Inl e, m1)
      | (Inr reserved, m1) \<Rightarrow>
          (let (res, m2) = create_session_unreserved sha canon alive tick now uuid client out
                 (effective_idle_timeout (sm_session_timeout m) rq) rq m1
           in (res, release_reservation reserved m2)))"

subsection \<open>The other operations\<close>

definition reusable ::
    "(string \<Rightarrow> string) \<Rightarrow> session_request \<Rightarrow> string option list \<Rightarrow> 'c session_record \<Rightarrow> bool" where
  "reusable sha rq destinations r \<longleftrightarrow>
     sr_owner_type r = sq_owner_type rq
     \<and> sr_owner_token_fingerprint r = sq_owner_token_fingerprint rq
     \<and> sr_source_ip r = sq_source_ip rq
     \<and> sr_host r = sq_host rq \<and> sr_port r = sq_port rq \<and> sr_username r = sq_username rq
     \<and> sr_auth_method r = auth_method_of rq
     \<and> sr_credential_fingerprint r = request_fingerprint sha rq
     \<and> sr_destination_ip r \<in> set destinations"

definition find_reusable_session ::
    "(string \<Rightarrow> string) \<Rightarrow> (string \<Rightarrow> string option) \<Rightarrow> ('c \<Rightarrow> bool) \<Rightarrow> time \<Rightarrow> session_request \<Rightarrow> string list
      \<Rightarrow> 'c ssh_manager \<Rightarrow> (session_error + 'c session_record option) \<times> 'c ssh_manager" where
  "find_reusable_session sha canon alive now rq validated_ips m =
     (if opt_or_empty (sq_owner_token_fingerprint rq) = [] \<or> opt_or_empty (sq_source_ip rq) = []
         \<or> validated_ips = [] then (Inr None, m)
      else if list_ex (\<lambda>ip. canon ip = None) validated_ips then (Inl SSHValueError, m)
      else
        (case find (\<lambda>(sid, r). reusable sha rq (map canon validated_ips) r \<and> alive (sr_client r)) (sm_sessions m) of
           None \<Rightarrow> (Inr None, m)
         | Some (sid, r) \<Rightarrow>
             (Inr (Some (touch_record now r)),
              m\<lparr>sm_sessions := AList.update sid (touch_record now r) (sm_sessions m)\<rparr>)))"

definition disconnect ::
    "('c \<Rightarrow> bool) \<Rightarrow> time \<Rightarrow> string \<Rightarrow> 'c ssh_manager \<Rightarrow> session_error option \<times> 'c ssh_manager" where
  "disconnect alive tick sid m =
     (case map_of (sm_sessions m) sid of
        None \<Rightarrow> (Some SessionNotFoundError, m)
      | Some r \<Rightarrow>
          (let m1 = m\<lparr>sm_sessions := AList.delete sid (sm_sessions m)\<rparr> in
           (None,
            case sm_pool m of
              Some pool \<Rightarrow>
                if alive (sr_client r) \<and> sr_destination_ip r \<noteq> None
                then m1\<lparr>sm_pool := Some (pool_release tick (record_pool_key r) (sr_client r) pool)\<rparr>
                else m1\<lparr>sm_closed := sm_closed m1 @ [sr_client r]\<rparr>
            | None \<Rightarrow> m1\<lparr>sm_closed := sm_closed m1 @ [sr_client r]\<rparr>)))"

definition close_all_sessions :: "('c \<Rightarrow> bool) \<Rightarrow> time \<Rightarrow> 'c ssh_manager \<Rightarrow> 'c ssh_manager" where
  "close_all_sessions alive tick m =
     fold (\<lambda>sid m. snd (disconnect alive tick sid m)) (map fst (sm_sessions m)) m"

definition disconnect_sessions_for_actor_source ::
    "('c \<Rightarrow> bool) \<Rightarrow> time \<Rightarrow> string \<Rightarrow> string \<Rightarrow> 'c ssh_manager \<Rightarrow> nat \<times> 'c ssh_manager" where
  "disconnect_sessions_for_actor_source alive tick actor ip m =
     fold (\<lambda>(sid, r) (count, m).
            if sr_owner_token_fingerprint r = Some actor \<and> sr_source_ip r = Some ip then
              (case disconnect alive tick sid m of
                 (None, m') \<Rightarrow> (count + 1, m')
               | (Some _, m') \<Rightarrow> (count, m'))
            else (count, m))
       (sm_sessions m) (0, m)"

definition reconnect :: "('c \<Rightarrow> bool) \<Rightarrow> string \<Rightarrow> 'c ssh_manager \<Rightarrow> session_error + bool" where
  "reconnect alive sid m =
     (case map_of (sm_sessions m) sid of
        None \<Rightarrow> Inl SessionNotFoundError
      | Some r \<Rightarrow> Inr (alive (sr_client r)))"

text \<open>The record a lease or a running command holds is the one in the table while the session is there.\<close>

definition lease_record :: "time \<Rightarrow> 'c session_record \<Rightarrow> 'c session_record" where
  "lease_record now r = touch_record now (r\<lparr>sr_active_operations := sr_active_operations r + 1\<rparr>)"

definition acquire_operation_lease ::
    "time \<Rightarrow> string \<Rightarrow> 'c ssh_manager \<Rightarrow> (session_error + 'c session_record) \<times> 'c ssh_manager" where
  "acquire_operation_lease now sid m =
     (case map_of (sm_sessions m) sid of
        None \<Rightarrow> (Inl SessionNotFoundError, m)
      | Some r \<Rightarrow>
          (Inr (lease_record now r), m\<lparr>sm_sessions := AList.update sid (lease_record now r) (sm_sessions m)\<rparr>))"

definition release_operation_lease :: "time \<Rightarrow> 'c session_record \<Rightarrow> 'c session_record" where
  "release_operation_lease now r =
     touch_record now (r\<lparr>sr_active_operations := max 0 (sr_active_operations r - 1)\<rparr>)"

definition update_record ::
    "string \<Rightarrow> ('c session_record \<Rightarrow> 'c session_record) \<Rightarrow> 'c ssh_manager \<Rightarrow> 'c ssh_manager" where
  "update_record sid f m =
     (case map_of (sm_sessions m) sid of
        None \<Rightarrow> m
      | Some r \<Rightarrow> m\<lparr>sm_sessions := AList.update sid (f r) (sm_sessions m)\<rparr>)"

subsection \<open>Interleavings\<close>

text \<open>
  The world: the manager, the reservations of the creations whose session is not registered yet, and
  those of the creations that registered or failed and have not run their \<open>finally\<close> block.
\<close>

record 'c manager_world =
  mw_manager :: "'c ssh_manager"
  mw_connecting :: "string option list"
  mw_finishing :: "string option list"

text \<open>What a creation reserved: nothing, or the source address of the session it registers.\<close>

definition reserved_for :: "string option \<Rightarrow> string option \<Rightarrow> bool" where
  "reserved_for reserved source_ip \<longleftrightarrow>
     (if opt_or_empty source_ip = [] then reserved = None else reserved = source_ip)"

inductive manager_step :: "session_settings \<Rightarrow> 'c manager_world \<Rightarrow> 'c manager_world \<Rightarrow> bool" for st where
  admitted: "admit st now rq (mw_manager w) = (Inr res, m') \<Longrightarrow>
    manager_step st w (w\<lparr>mw_manager := m', mw_connecting := res # mw_connecting w\<rparr>)"
| refused: "admit st now rq (mw_manager w) = (Inl e, m') \<Longrightarrow> manager_step st w (w\<lparr>mw_manager := m'\<rparr>)"
| connecting: "begin_connect alive tick now key host (mw_manager w) = (res, m') \<Longrightarrow>
    manager_step st w (w\<lparr>mw_manager := m'\<rparr>)"
| dialed: "end_dial now c breaker out (mw_manager w) = (res, m') \<Longrightarrow>
    manager_step st w (w\<lparr>mw_manager := m'\<rparr>)"
| registered: "res \<in> set (mw_connecting w) \<Longrightarrow> reserved_for res (sr_source_ip r) \<Longrightarrow>
    manager_step st w (w\<lparr>mw_manager := register_session r (mw_manager w),
      mw_connecting := remove1 res (mw_connecting w), mw_finishing := res # mw_finishing w\<rparr>)"
| failed: "res \<in> set (mw_connecting w) \<Longrightarrow>
    manager_step st w (w\<lparr>mw_connecting := remove1 res (mw_connecting w), mw_finishing := res # mw_finishing w\<rparr>)"
| finished: "res \<in> set (mw_finishing w) \<Longrightarrow>
    manager_step st w (w\<lparr>mw_manager := release_reservation res (mw_manager w),
      mw_finishing := remove1 res (mw_finishing w)\<rparr>)"
| cleaned: "cleanup_stale_sessions now (mw_manager w) = (n, m') \<Longrightarrow> manager_step st w (w\<lparr>mw_manager := m'\<rparr>)"
| disconnected: "disconnect alive tick sid (mw_manager w) = (res, m') \<Longrightarrow>
    manager_step st w (w\<lparr>mw_manager := m'\<rparr>)"
| reused: "find_reusable_session sha canon alive now rq ips (mw_manager w) = (res, m') \<Longrightarrow>
    manager_step st w (w\<lparr>mw_manager := m'\<rparr>)"
| leased: "acquire_operation_lease now sid (mw_manager w) = (res, m') \<Longrightarrow>
    manager_step st w (w\<lparr>mw_manager := m'\<rparr>)"
| unleased: "manager_step st w (w\<lparr>mw_manager := update_record sid (release_operation_lease now) (mw_manager w)\<rparr>)"

inductive manager_reach :: "session_settings \<Rightarrow> 'c manager_world \<Rightarrow> bool" for st where
  started: "manager_reach st \<lparr>mw_manager = new_manager timeout breakers pool_size ttl,
    mw_connecting = [], mw_finishing = []\<rparr>"
| stepped: "manager_reach st w \<Longrightarrow> manager_step st w w' \<Longrightarrow> manager_reach st w'"

definition session_cap :: "session_settings \<Rightarrow> int" where
  "session_cap st = max (ss_max_sessions_per_ip st) (ss_master_max_sessions_per_ip st)"

definition world_inv :: "session_settings \<Rightarrow> 'c manager_world \<Rightarrow> bool" where
  "world_inv st w \<longleftrightarrow>
     dict_ok (sm_sessions (mw_manager w))
     \<and> Some [] \<notin> set (mw_connecting w @ mw_finishing w)
     \<and> (\<forall>ip. map_of (sm_pending (mw_manager w)) ip =
          (let n = count_list (mw_connecting w @ mw_finishing w) (Some ip) in
           if n = 0 then None else Some (int n)))
     \<and> (\<forall>ip. ip \<noteq> [] \<longrightarrow>
          active_sessions ip (mw_manager w) + int (count_list (mw_connecting w) (Some ip)) \<le> session_cap st)"

lemma session_limit_cap: "session_limit st rq \<le> session_cap st"
  by (simp add: session_limit_def session_cap_def)

lemma length_filter_update:
  "length (filter P (AList.update k v d)) \<le> length (filter P d) + (if P (k, v) then 1 else 0)"
  by (induction d) auto

lemma length_filter_update_same:
  "map_of d k = Some w \<Longrightarrow> P (k, v) = P (k, w) \<Longrightarrow> length (filter P (AList.update k v d)) = length (filter P d)"
  by (induction d) auto

lemma length_filter_delete: "length (filter P (AList.delete k d)) \<le> length (filter P d)"
  by (induction d) (auto simp: AList.delete_eq)

lemma length_filter_filter: "length (filter (\<lambda>x. Q x \<and> P x) d) \<le> length (filter P d)"
  by (induction d) auto

text \<open>Operations that register nothing: the reservations stay, no address gains a session.\<close>

definition sessions_frame :: "'c ssh_manager \<Rightarrow> 'c ssh_manager \<Rightarrow> bool" where
  "sessions_frame m m' \<longleftrightarrow> sm_pending m' = sm_pending m
     \<and> (dict_ok (sm_sessions m) \<longrightarrow> dict_ok (sm_sessions m'))
     \<and> (\<forall>ip. active_sessions ip m' \<le> active_sessions ip m)"

lemma sessions_frameI:
  "sm_pending m' = sm_pending m \<Longrightarrow> (dict_ok (sm_sessions m) \<Longrightarrow> dict_ok (sm_sessions m')) \<Longrightarrow>
   (\<And>P. length (filter P (sm_sessions m')) \<le> length (filter P (sm_sessions m))) \<Longrightarrow> sessions_frame m m'"
  by (simp add: sessions_frame_def active_sessions_def)

lemma frame_same: "sm_pending m' = sm_pending m \<Longrightarrow> sm_sessions m' = sm_sessions m \<Longrightarrow> sessions_frame m m'"
  by (rule sessions_frameI) simp_all

lemma frame_touch:
  assumes "map_of (sm_sessions m) sid = Some r" "sr_source_ip r' = sr_source_ip r"
  shows "sessions_frame m (m\<lparr>sm_sessions := AList.update sid r' (sm_sessions m)\<rparr>)"
  using assms length_filter_update_same [OF assms(1), of "\<lambda>(sid, r). sr_source_ip r = Some ip" r' for ip]
  by (simp add: sessions_frame_def active_sessions_def)

lemma on_breaker_fields [simp]:
  "sm_sessions (on_breaker f a m) = sm_sessions m" "sm_pending (on_breaker f a m) = sm_pending m"
  by (simp_all add: on_breaker_def split: option.split)

lemma frame_begin_connect: "begin_connect alive tick now key host m = (res, m') \<Longrightarrow> sessions_frame m m'"
  by (rule frame_same)
    (auto simp: begin_connect_def Let_def split: option.splits prod.splits sum.splits if_splits)

lemma frame_end_dial: "end_dial now c breaker out m = (res, m') \<Longrightarrow> sessions_frame m m'"
  by (rule frame_same) (auto simp: end_dial_def split: dial_outcome.splits)

lemma frame_cleanup: "cleanup_stale_sessions now m = (n, m') \<Longrightarrow> sessions_frame m m'"
  by (rule sessions_frameI) (auto simp: cleanup_stale_sessions_def Let_def length_filter_filter)

lemma frame_disconnect:
  assumes "disconnect alive tick sid m = (res, m')"
  shows "sessions_frame m m'"
proof (cases "map_of (sm_sessions m) sid")
  case None
  then show ?thesis using assms by (simp add: disconnect_def frame_same)
next
  case (Some r)
  have "sm_pending m' = sm_pending m" "sm_sessions m' = AList.delete sid (sm_sessions m)"
    using assms Some by (auto simp: disconnect_def Let_def split: option.splits if_splits)
  then show ?thesis by (intro sessions_frameI) (simp_all add: length_filter_delete)
qed

lemma find_reusable_result:
  assumes "find_reusable_session sha canon alive now rq ips m = (res, m')"
  obtains "m' = m" | sid r where "(sid, r) \<in> set (sm_sessions m)"
    "reusable sha rq (map canon ips) r" "alive (sr_client r)" "res = Inr (Some (touch_record now r))"
    "m' = m\<lparr>sm_sessions := AList.update sid (touch_record now r) (sm_sessions m)\<rparr>"
proof (cases "find (\<lambda>(sid, r). reusable sha rq (map canon ips) r \<and> alive (sr_client r)) (sm_sessions m)")
  case None
  then show ?thesis using assms that(1) by (simp add: find_reusable_session_def split: if_splits)
next
  case (Some e)
  obtain sid r where e: "e = (sid, r)" by (cases e)
  from Some have "e \<in> set (sm_sessions m)" "reusable sha rq (map canon ips) r \<and> alive (sr_client r)"
    unfolding find_Some_iff e by (auto simp: in_set_conv_nth)
  then show ?thesis
    using assms that(1) that(2) [of sid r] Some e by (simp add: find_reusable_session_def split: if_splits)
qed

lemma frame_find_reusable:
  assumes "dict_ok (sm_sessions m)" "find_reusable_session sha canon alive now rq ips m = (res, m')"
  shows "sessions_frame m m'"
  using assms(2)
proof (cases rule: find_reusable_result)
  case 1
  then show ?thesis by (simp add: frame_same)
next
  case (2 sid r)
  then show ?thesis
    using frame_touch [of m sid r "touch_record now r"] assms(1)
    by (simp add: touch_record_def dict_get_Some_iff)
qed

lemma frame_update_record:
  assumes "\<And>r. sr_source_ip (f r) = sr_source_ip r"
  shows "sessions_frame m (update_record sid f m)"
proof (cases "map_of (sm_sessions m) sid")
  case None
  then show ?thesis by (simp add: update_record_def frame_same)
next
  case (Some r)
  then show ?thesis using frame_touch [of m sid r "f r"] assms by (simp add: update_record_def)
qed

lemma frame_lease:
  assumes "acquire_operation_lease now sid m = (res, m')"
  shows "sessions_frame m m'"
proof -
  have "m' = update_record sid (lease_record now) m"
    using assms by (auto simp: acquire_operation_lease_def update_record_def split: option.splits)
  then show ?thesis
    using frame_update_record [of "lease_record now" m sid] by (simp add: lease_record_def touch_record_def)
qed

lemma frame_unlease: "sessions_frame m (update_record sid (release_operation_lease now) m)"
  by (rule frame_update_record) (simp add: release_operation_lease_def touch_record_def)

lemma frame_refused:
  assumes "admit st now rq m = (Inl e, m')"
  shows "sessions_frame m m'"
proof -
  obtain reap where "m' = m\<lparr>sm_sessions := filter (\<lambda>x. \<not> reap x) (sm_sessions m)\<rparr>"
    using assms by (auto simp: admit_def Let_def split: option.splits if_splits)
  then show ?thesis by (intro sessions_frameI) (simp_all add: length_filter_filter)
qed

lemma world_inv_frame:
  assumes "world_inv st w" "sessions_frame (mw_manager w) m'"
  shows "world_inv st (w\<lparr>mw_manager := m'\<rparr>)"
proof -
  let ?n = "\<lambda>ip. int (count_list (mw_connecting w) (Some ip))"
  have "active_sessions ip m' + ?n ip \<le> session_cap st" if "ip \<noteq> []" for ip
  proof -
    have "active_sessions ip (mw_manager w) + ?n ip \<le> session_cap st"
      using assms(1) that by (simp add: world_inv_def)
    moreover have "active_sessions ip m' \<le> active_sessions ip (mw_manager w)"
      using assms(2) by (simp add: sessions_frame_def)
    ultimately show ?thesis by linarith
  qed
  then show ?thesis using assms by (simp add: world_inv_def sessions_frame_def)
qed

lemma world_inv_admit:
  assumes inv: "world_inv st w" and pos: "0 < ss_max_sessions_per_ip st"
    and a: "admit st now rq (mw_manager w) = (Inr res, m')"
  shows "world_inv st (w\<lparr>mw_manager := m', mw_connecting := res # mw_connecting w\<rparr>)"
proof (cases res)
  case None
  then have "m' = mw_manager w"
    using a by (auto simp: admit_def Let_def split: option.splits if_splits)
  then show ?thesis using inv None by (simp add: world_inv_def)
next
  case (Some ip)
  let ?m = "mw_manager w"
  let ?reap = "\<lambda>(sid, r). sr_source_ip r = Some ip \<and> session_expired (sm_session_timeout ?m) now r"
  let ?k = "filter (\<lambda>e. \<not> ?reap e) (sm_sessions ?m)"
  have ip: "ip \<noteq> []" and le: "active_sessions ip (?m\<lparr>sm_sessions := ?k\<rparr>) + pending_sessions ip ?m < session_limit st rq"
    and s: "sm_sessions m' = ?k" and p: "sm_pending m' = AList.update ip (pending_sessions ip ?m + 1) (sm_pending ?m)"
    using a Some by (auto simp: admit_def Let_def pending_sessions_def split: option.splits if_splits)
  have act: "active_sessions i m' = active_sessions i (?m\<lparr>sm_sessions := ?k\<rparr>)" for i
    by (simp add: active_sessions_def s)
  have act_le: "active_sessions i m' \<le> active_sessions i ?m" for i
    unfolding active_sessions_def s by (simp add: length_filter_filter)
  have pend: "pending_sessions ip ?m = int (count_list (mw_connecting w @ mw_finishing w) (Some ip))"
    using inv by (auto simp: world_inv_def pending_sessions_def Let_def)
  have "active_sessions i m' + int (count_list (res # mw_connecting w) (Some i)) \<le> session_cap st" if "i \<noteq> []" for i
  proof (cases "i = ip")
    case True
    then show ?thesis
      using le pend act [of ip] session_limit_cap [of st rq] Some by simp
  next
    case False
    then show ?thesis using inv that act_le [of i] Some by (fastforce simp: world_inv_def)
  qed
  moreover have "map_of (sm_pending m') i = (let n = count_list ((res # mw_connecting w) @ mw_finishing w) (Some i) in
      if n = 0 then None else Some (int n))" for i
    using inv pend Some by (auto simp: world_inv_def p Let_def)
  ultimately show ?thesis
    using inv Some ip by (simp add: world_inv_def s)
qed

declare count_list_remove1 [simp del]

lemma count_remove1_in:
  "x \<in> set xs \<Longrightarrow> count_list xs y = count_list (remove1 x xs) y + (if x = y then 1 else 0)"
  by (induction xs) auto

lemma active_sessions_register:
  "active_sessions ip (register_session r m) \<le>
     active_sessions ip m + (if sr_source_ip r = Some ip then 1 else 0)"
  using length_filter_update [of "\<lambda>(sid, r). sr_source_ip r = Some ip" "sr_session_id r" r "sm_sessions m"]
  by (cases "sr_source_ip r = Some ip"; simp add: active_sessions_def register_session_def; linarith)

lemma world_inv_registered:
  assumes inv: "world_inv st w" and res: "res \<in> set (mw_connecting w)" and ip: "reserved_for res (sr_source_ip r)"
  shows "world_inv st (w\<lparr>mw_manager := register_session r (mw_manager w),
      mw_connecting := remove1 res (mw_connecting w), mw_finishing := res # mw_finishing w\<rparr>)"
proof -
  note count = count_remove1_in [OF res]
  have act: "active_sessions i (register_session r (mw_manager w)) + int (count_list (remove1 res (mw_connecting w)) (Some i))
      \<le> session_cap st" if "i \<noteq> []" for i
  proof -
    have "active_sessions i (mw_manager w) + int (count_list (mw_connecting w) (Some i)) \<le> session_cap st"
      using inv that by (simp add: world_inv_def)
    moreover have "sr_source_ip r = Some i \<Longrightarrow> res = Some i"
      using ip that by (auto simp: reserved_for_def opt_or_empty_def split: if_splits)
    moreover note active_sessions_register [of i r "mw_manager w"] count [of "Some i"]
    ultimately show ?thesis by (cases "sr_source_ip r = Some i"; cases "res = Some i"; simp)
  qed
  have "set (remove1 res (mw_connecting w)) \<subseteq> set (mw_connecting w)" by (rule set_remove1_subset)
  moreover have "count_list (remove1 res (mw_connecting w) @ res # mw_finishing w) (Some i) =
      count_list (mw_connecting w @ mw_finishing w) (Some i)" for i
    using count [of "Some i"] by auto
  ultimately show ?thesis
    using inv res act by (auto simp: world_inv_def register_session_def)
qed

lemma world_inv_failed:
  assumes inv: "world_inv st w" and res: "res \<in> set (mw_connecting w)"
  shows "world_inv st (w\<lparr>mw_connecting := remove1 res (mw_connecting w), mw_finishing := res # mw_finishing w\<rparr>)"
proof -
  note count = count_remove1_in [OF res]
  have "active_sessions i (mw_manager w) + int (count_list (remove1 res (mw_connecting w)) (Some i))
      \<le> session_cap st" if "i \<noteq> []" for i
  proof -
    have "active_sessions i (mw_manager w) + int (count_list (mw_connecting w) (Some i)) \<le> session_cap st"
      using inv that by (simp add: world_inv_def)
    with count [of "Some i"] show ?thesis by (cases "res = Some i"; simp)
  qed
  moreover have "set (remove1 res (mw_connecting w)) \<subseteq> set (mw_connecting w)" by (rule set_remove1_subset)
  moreover have "count_list (remove1 res (mw_connecting w) @ res # mw_finishing w) (Some i) =
      count_list (mw_connecting w @ mw_finishing w) (Some i)" for i
    using count [of "Some i"] by auto
  ultimately show ?thesis using inv res by (auto simp: world_inv_def)
qed

lemma world_inv_finished:
  assumes inv: "world_inv st w" and res: "res \<in> set (mw_finishing w)"
  shows "world_inv st (w\<lparr>mw_manager := release_reservation res (mw_manager w),
      mw_finishing := remove1 res (mw_finishing w)\<rparr>)"
proof (cases res)
  case None
  have "count_list (remove1 None (mw_finishing w)) (Some i) = count_list (mw_finishing w) (Some i)" for i
    using count_remove1_in [OF res, of "Some i"] None by simp
  moreover have "set (remove1 res (mw_finishing w)) \<subseteq> set (mw_finishing w)" by (rule set_remove1_subset)
  ultimately show ?thesis
    using inv None by (auto simp: world_inv_def release_reservation_def)
next
  case (Some ip)
  let ?m = "mw_manager w"
  let ?n = "count_list (mw_connecting w @ mw_finishing w) (Some ip)"
  note count = count_remove1_in [OF res]
  have "Some ip \<in> set (mw_connecting w @ mw_finishing w)" using res Some by simp
  then have pos: "?n \<noteq> 0" by (simp only: count_list_0_iff not_not)
  have "map_of (sm_pending ?m) ip = (if ?n = 0 then None else Some (int ?n))"
    using inv unfolding world_inv_def Let_def by blast
  then have pend: "pending_sessions ip ?m = int ?n" using pos by (simp add: pending_sessions_def)
  have sess: "sm_sessions (release_reservation res ?m) = sm_sessions ?m"
    and p: "map_of (sm_pending (release_reservation res ?m)) i =
      (if i = ip then if ?n \<le> 1 then None else Some (int ?n - 1) else map_of (sm_pending ?m) i)" for i
    using pend Some by (simp_all add: release_reservation_def)
  have "map_of (sm_pending (release_reservation res ?m)) i =
      (let n = count_list (mw_connecting w @ remove1 res (mw_finishing w)) (Some i) in
       if n = 0 then None else Some (int n))" for i
  proof (cases "i = ip")
    case True
    have "?n = count_list (mw_connecting w @ remove1 res (mw_finishing w)) (Some ip) + 1"
      unfolding count_list_append count [of "Some ip"] using Some by simp
    then show ?thesis using True p [of ip] by (simp add: Let_def)
  next
    case False
    have "count_list (mw_connecting w @ remove1 res (mw_finishing w)) (Some i)
        = count_list (mw_connecting w @ mw_finishing w) (Some i)"
      using count [of "Some i"] Some False by simp
    then show ?thesis using False p [of i] inv unfolding world_inv_def Let_def by simp
  qed
  moreover have "set (remove1 res (mw_finishing w)) \<subseteq> set (mw_finishing w)" by (rule set_remove1_subset)
  ultimately show ?thesis
    using inv sess by (auto simp: world_inv_def active_sessions_def)
qed

lemma world_inv_step:
  assumes "manager_step st w w'" "world_inv st w" "0 < ss_max_sessions_per_ip st"
  shows "world_inv st w'"
  using assms
proof (induction rule: manager_step.induct)
  case (admitted now rq w res m')
  then show ?case by (intro world_inv_admit)
next
  case (refused now rq w e m')
  have "sessions_frame (mw_manager w) m'"
    by (rule frame_refused [OF refused.hyps])
  with refused.prems(1) show ?case by (rule world_inv_frame)
next
  case (reused sha canon alive now rq ips w res m')
  then have "dict_ok (sm_sessions (mw_manager w))" by (simp add: world_inv_def)
  from world_inv_frame [OF reused.prems(1) frame_find_reusable [OF this reused.hyps]] show ?case .
qed (blast intro: world_inv_frame frame_begin_connect frame_end_dial frame_cleanup frame_disconnect
      frame_lease frame_unlease world_inv_registered world_inv_failed world_inv_finished)+

lemma world_inv_reach:
  assumes "manager_reach st w" "0 < ss_max_sessions_per_ip st"
  shows "world_inv st w"
  using assms
proof (induction rule: manager_reach.induct)
  case (started timeout breakers pool_size ttl)
  then show ?case
    by (auto simp: world_inv_def new_manager_def active_sessions_def session_cap_def)
next
  case (stepped w w')
  then show ?case using world_inv_step by blast
qed

text \<open>C14: In every interleaving of session creations, disconnections, reaping and leases, the sessions
  of one source address, with those being connected for it, never exceed the configured cap, and the table of
  reservations counts exactly the creations in flight: none is leaked on any error path.\<close>

theorem admission_cap_invariant:
  assumes "manager_reach st w" "0 < ss_max_sessions_per_ip st" "ip \<noteq> []"
  shows "active_sessions ip (mw_manager w) + int (count_list (mw_connecting w) (Some ip)) \<le> session_cap st
    \<and> pending_sessions ip (mw_manager w) = int (count_list (mw_connecting w @ mw_finishing w) (Some ip))"
proof -
  have inv: "world_inv st w" by (rule world_inv_reach [OF assms(1,2)])
  then have "map_of (sm_pending (mw_manager w)) ip =
      (let n = count_list (mw_connecting w @ mw_finishing w) (Some ip) in if n = 0 then None else Some (int n))"
    unfolding world_inv_def by blast
  then have "pending_sessions ip (mw_manager w) = int (count_list (mw_connecting w @ mw_finishing w) (Some ip))"
    by (simp add: pending_sessions_def Let_def)
  moreover have "active_sessions ip (mw_manager w) + int (count_list (mw_connecting w) (Some ip)) \<le> session_cap st"
    using inv assms(3) unfolding world_inv_def by blast
  ultimately show ?thesis by blast
qed

definition demo_request :: session_request where
  "demo_request = \<lparr>sq_host = ''h'', sq_port = 22, sq_username = ''u'', sq_password = Some ''p'',
     sq_private_key = None, sq_key_passphrase = None, sq_owner_type = ''agent'', sq_owner_name = None,
     sq_owner_token_fingerprint = Some ''t'', sq_source_ip = Some ''10.0.0.1'', sq_tenant_labels = [],
     sq_session_id = None, sq_pinned_ip = None, sq_ephemeral = False, sq_idle_timeout_seconds = None,
     sq_privileged_capacity = False\<rparr>"

definition demo_settings :: session_settings where
  "demo_settings = \<lparr>ss_max_sessions_per_ip = 1, ss_master_max_sessions_per_ip = 0, ss_api_auth_enabled = True\<rparr>"

lemma admission_cap_invariant_witness:
  "pending_sessions ''10.0.0.1'' (snd (admit demo_settings 0 demo_request (new_manager 300 None 0 0 :: nat ssh_manager))) = 1"
proof -
  let ?m = "new_manager 300 None 0 0 :: nat ssh_manager"
  let ?w = "\<lparr>mw_manager = ?m, mw_connecting = [], mw_finishing = []\<rparr>"
  have a: "admit demo_settings 0 demo_request (mw_manager ?w) = (Inr (Some ''10.0.0.1''), snd (admit demo_settings 0 demo_request ?m))"
    by (simp add: admit_def demo_request_def demo_settings_def new_manager_def session_limit_def
        active_sessions_def pending_sessions_def Let_def)
  show ?thesis
    using admission_cap_invariant [OF stepped [OF started admitted [OF a]], of "''10.0.0.1''"]
    by (simp add: demo_settings_def)
qed

subsection \<open>The breaker of a host over its connection attempts\<close>

definition host_breaker :: "string \<Rightarrow> 'c ssh_manager \<Rightarrow> circuit_breaker option" where
  "host_breaker host m =
     (case sm_breakers m of
        None \<Rightarrow> None
      | Some rg \<Rightarrow> map_option (\<lambda>a. br_heap rg ! a) (map_of (br_breakers rg) host))"

definition dial_recorded :: "time \<Rightarrow> dial_outcome \<Rightarrow> circuit_breaker \<Rightarrow> circuit_breaker" where
  "dial_recorded now out b =
     (case out of Dialed \<Rightarrow> record_success b | Unreachable \<Rightarrow> record_failure now b | _ \<Rightarrow> b)"

definition breaker_attempt :: "time \<Rightarrow> dial_outcome \<Rightarrow> circuit_breaker \<Rightarrow> circuit_breaker" where
  "breaker_attempt now out b =
     (if fst (can_execute now b) then dial_recorded now out (snd (can_execute now b))
      else snd (can_execute now b))"

definition dials_directly :: "'c ssh_manager \<Rightarrow> bool" where
  "dials_directly m \<longleftrightarrow> sm_pool m = None
     \<and> (case sm_breakers m of None \<Rightarrow> False | Some rg \<Rightarrow> registry_ok rg)"

lemma registry_heap_ok: "registry_ok (rg\<lparr>br_heap := (br_heap rg)[a := b]\<rparr>) \<longleftrightarrow> registry_ok rg"
  by (simp add: registry_ok_def)

lemma begin_connect_breaker:
  assumes d: "dials_directly m" and b: "host_breaker host m = Some b"
  shows "let (res, m') = begin_connect alive tick now key host m in
    dials_directly m' \<and> host_breaker host m' = Some (snd (can_execute now b))
    \<and> (if fst (can_execute now b)
        then \<exists>a rg. res = Inr (Dial (Some a)) \<and> sm_breakers m' = Some rg \<and> map_of (br_breakers rg) host = Some a
        else res = Inl SSHConnectionError)"
proof -
  obtain rg where rg: "sm_pool m = None" "sm_breakers m = Some rg" "registry_ok rg"
    using d by (auto simp: dials_directly_def split: option.splits)
  obtain a where a: "map_of (br_breakers rg) host = Some a" "b = br_heap rg ! a"
    using b rg by (auto simp: host_breaker_def)
  have "(host, a) \<in> set (br_breakers rg)" using a(1) by (rule map_of_SomeD)
  then have len: "a < length (br_heap rg)" using rg(3) by (force simp: registry_ok_def)
  note g = get_breaker_known [OF rg(3) a(1), of default_breaker]
  note ok = registry_touch_ok(1) [OF rg(3) a(1)]
  obtain e b' where c: "can_execute now b = (e, b')" by (cases "can_execute now b")
  show ?thesis
    using rg g c a len ok registry_heap_ok [of "rg\<lparr>br_access_order := remove1 host (br_access_order rg) @ [host]\<rparr>" a b']
    by (cases e) (simp_all add: begin_connect_def dials_directly_def host_breaker_def)
qed

lemma end_dial_breaker:
  assumes d: "dials_directly m" and b: "host_breaker host m = Some b"
    and rg: "sm_breakers m = Some rg" and a: "map_of (br_breakers rg) host = Some a"
  shows "dials_directly (snd (end_dial now c (Some a) out m))
    \<and> host_breaker host (snd (end_dial now c (Some a) out m)) = Some (dial_recorded now out b)"
proof -
  have ok: "registry_ok rg" using d rg by (simp add: dials_directly_def)
  have "(host, a) \<in> set (br_breakers rg)" using a by (rule map_of_SomeD)
  then have "a < length (br_heap rg)" using ok by (force simp: registry_ok_def)
  then show ?thesis
    using d b rg a ok
    by (cases out)
      (simp_all add: end_dial_def on_breaker_def dials_directly_def host_breaker_def dial_recorded_def registry_heap_ok)
qed

lemma register_session_breaker [simp]:
  "dials_directly (register_session r m) = dials_directly m"
  "host_breaker host (register_session r m) = host_breaker host m"
  by (simp_all add: register_session_def dials_directly_def host_breaker_def)

text \<open>An attempt to create a session moves the breaker of its host by one \<open>breaker_attempt\<close>.\<close>

lemma create_session_breaker:
  assumes d: "dials_directly m" and b: "host_breaker (sq_host rq) m = Some b"
    and ip: "canonical_ip canon (sq_pinned_ip rq) = Inr ip"
  shows "let (res, m') = create_session_unreserved sha canon alive tick now uuid c out idle rq m in
    dials_directly m' \<and> host_breaker (sq_host rq) m' = Some (breaker_attempt now out b)
    \<and> (\<not> fst (can_execute now b) \<longrightarrow> res = Inl SSHConnectionError)"
proof -
  obtain res m1 where bc: "begin_connect alive tick now (request_pool_key sha rq ip) (sq_host rq) m = (res, m1)"
    by (cases "begin_connect alive tick now (request_pool_key sha rq ip) (sq_host rq) m")
  note s = begin_connect_breaker [OF d b, of alive tick now "request_pool_key sha rq ip", unfolded bc]
  show ?thesis
  proof (cases "fst (can_execute now b)")
    case False
    then show ?thesis using s bc ip by (simp add: create_session_unreserved_def breaker_attempt_def)
  next
    case True
    then obtain a rg where a: "res = Inr (Dial (Some a))" "sm_breakers m1 = Some rg"
      "map_of (br_breakers rg) (sq_host rq) = Some a" "dials_directly m1"
      "host_breaker (sq_host rq) m1 = Some (snd (can_execute now b))"
      using s by auto
    obtain e m2 where e: "end_dial now c (Some a) out m1 = (e, m2)" by (cases "end_dial now c (Some a) out m1")
    have "dials_directly m2 \<and> host_breaker (sq_host rq) m2 = Some (dial_recorded now out (snd (can_execute now b)))"
      using end_dial_breaker [OF a(4,5,2,3), of now c out] e by simp
    then show ?thesis
      using True a(1) bc e ip
      by (cases e) (simp_all add: create_session_unreserved_def breaker_attempt_def Let_def)
  qed
qed

definition attempt_session where
  "attempt_session sha canon alive tick now uuid c idle rq out m =
     snd (create_session_unreserved sha canon alive tick now uuid c out idle rq m)"

lemma attempts_breaker:
  assumes "dials_directly m" "host_breaker (sq_host rq) m = Some b" "canonical_ip canon (sq_pinned_ip rq) = Inr ip"
  shows "dials_directly ((attempt_session sha canon alive tick now uuid c idle rq out ^^ n) m)
    \<and> host_breaker (sq_host rq) ((attempt_session sha canon alive tick now uuid c idle rq out ^^ n) m)
      = Some ((breaker_attempt now out ^^ n) b)"
proof (induction n)
  case 0
  then show ?case using assms by simp
next
  case (Suc n)
  from create_session_breaker [OF conjunct1 [OF Suc] conjunct2 [OF Suc] assms(3),
      of sha alive tick now uuid c out idle]
  show ?case by (simp add: attempt_session_def split_beta)
qed

lemma attempt_dialed:
  assumes "breaker_ok c" "cb_state c = HALF_OPEN" "cb_half_open_calls c < cb_half_open_max_calls c"
  shows "let d = breaker_attempt now Dialed c in
    cb_half_open_max_calls d = cb_half_open_max_calls c
    \<and> (if cb_success_count c + 1 < cb_half_open_max_calls c
        then cb_state d = HALF_OPEN \<and> cb_half_open_calls d = cb_half_open_calls c + 1
          \<and> cb_success_count d = cb_success_count c + 1
        else cb_state d = CLOSED \<and> cb_failure_count d = 0)"
  using assms by (auto simp: breaker_attempt_def dial_recorded_def breaker_defs Let_def)

lemma attempt_closed:
  "cb_state c = CLOSED \<Longrightarrow> cb_failure_count c = 0 \<Longrightarrow>
   cb_half_open_max_calls (breaker_attempt now Dialed c) = cb_half_open_max_calls c
   \<and> cb_state (breaker_attempt now Dialed c) = CLOSED
   \<and> cb_failure_count (breaker_attempt now Dialed c) = 0"
  by (simp add: breaker_attempt_def dial_recorded_def breaker_defs)

lemma breaker_attempt_ok: "breaker_ok b \<Longrightarrow> breaker_ok (breaker_attempt now out b)"
  by (auto simp: breaker_attempt_def dial_recorded_def split: dial_outcome.split)

lemma breaker_attempts_ok: "breaker_ok b \<Longrightarrow> breaker_ok ((breaker_attempt now out ^^ k) b)"
  by (induction k) (simp_all add: breaker_attempt_ok)

text \<open>The first attempt after the timeout finds the breaker half-open with no call made.\<close>

lemma attempt_due:
  assumes "cb_state b = OPEN" "recovery_due now b"
  shows "breaker_attempt now out b = breaker_attempt now out (b\<lparr>cb_state := HALF_OPEN, cb_half_open_calls := 0\<rparr>)"
  using assms by (simp add: breaker_attempt_def can_execute_def)

lemma half_open_fresh_ok:
  "breaker_ok b \<Longrightarrow> cb_state b = OPEN \<Longrightarrow> breaker_ok (b\<lparr>cb_state := HALF_OPEN, cb_half_open_calls := 0\<rparr>)"
  by (auto simp: breaker_ok_def)

lemma recovers_after:
  assumes "breaker_ok b" "cb_state b = HALF_OPEN" "cb_half_open_calls b = 0"
  shows "let c = (breaker_attempt now Dialed ^^ k) b; s = cb_success_count b + int k in
    cb_half_open_max_calls c = cb_half_open_max_calls b
    \<and> (if s < cb_half_open_max_calls b
        then cb_state c = HALF_OPEN \<and> cb_half_open_calls c = int k \<and> cb_success_count c = s
        else cb_state c = CLOSED \<and> cb_failure_count c = 0)"
proof (induction k)
  case 0
  then show ?case using assms by (simp add: breaker_ok_def)
next
  case (Suc k)
  define c where "c = (breaker_attempt now Dialed ^^ k) b"
  have ok: "breaker_ok c" unfolding c_def by (rule breaker_attempts_ok [OF assms(1)])
  have s0: "0 \<le> cb_success_count b" using assms(1) by (simp add: breaker_ok_def)
  show ?case
  proof (cases "cb_success_count b + int k < cb_half_open_max_calls b")
    case True
    then have c: "cb_half_open_max_calls c = cb_half_open_max_calls b" "cb_state c = HALF_OPEN"
      "cb_half_open_calls c = int k" "cb_success_count c = cb_success_count b + int k"
      using Suc by (simp_all add: c_def Let_def)
    then have "cb_half_open_calls c < cb_half_open_max_calls c" using True s0 by simp
    from attempt_dialed [OF ok c(2) this, of now] c show ?thesis
      by (simp add: c_def [symmetric] Let_def add.assoc split: if_splits)
  next
    case False
    then have "cb_half_open_max_calls c = cb_half_open_max_calls b" "cb_state c = CLOSED" "cb_failure_count c = 0"
      using Suc by (simp_all add: c_def Let_def)
    with attempt_closed [of c now] False show ?thesis by (simp add: c_def [symmetric] Let_def)
  qed
qed

lemma unrecorded_after:
  assumes "cb_state b = HALF_OPEN" "cb_half_open_calls b = 0" "out \<in> {AuthRejected, KeyRejected, DialRaised}"
    "int k \<le> cb_half_open_max_calls b"
  shows "(breaker_attempt now out ^^ k) b = b\<lparr>cb_half_open_calls := int k\<rparr>"
  using assms(4)
proof (induction k)
  case 0
  then show ?case using assms(2) by simp
next
  case (Suc k)
  have "(breaker_attempt now out ^^ k) b = b\<lparr>cb_half_open_calls := int k\<rparr>" using Suc by simp
  moreover have "breaker_attempt now out c = c\<lparr>cb_half_open_calls := cb_half_open_calls c + 1\<rparr>"
    if "cb_state c = HALF_OPEN" "cb_half_open_calls c < cb_half_open_max_calls c" for c
    using that assms(3) by (auto simp: breaker_attempt_def breaker_defs dial_recorded_def)
  ultimately show ?case using assms(1) Suc.prems by simp
qed

lemma exhausted_forever:
  assumes "cb_state b = HALF_OPEN" "cb_half_open_calls b = cb_half_open_max_calls b"
  shows "(breaker_attempt now out ^^ n) b = b"
  using half_open_exhausted [OF assms, of now] by (induction n) (simp_all add: breaker_attempt_def)

text \<open>C15: When the recovery timeout of an open breaker has passed, as many connection attempts as it has
  half-open calls close it again if they connect. If they end in a rejected credential
  instead, which is not recorded with the breaker, its half-open calls are used up: from then on every attempt
  to reach the host is refused, at any clock reading and after any number of further attempts.\<close>

theorem breaker_recovery_or_lockout:
  assumes "dials_directly m" "host_breaker (sq_host rq) m = Some b" "canonical_ip canon (sq_pinned_ip rq) = Inr ip"
    and "breaker_ok b" "cb_state b = OPEN" "recovery_due now b"
  shows "let try = (\<lambda>t. attempt_session sha canon alive tick t uuid c idle rq);
      n = nat (cb_half_open_max_calls b);
      locked = (try later out ^^ k) ((try now AuthRejected ^^ n) m) in
    map_option cb_state (host_breaker (sq_host rq) ((try now Dialed ^^ n) m)) = Some CLOSED
    \<and> fst (create_session_unreserved sha canon alive tick latest uuid c out' idle rq locked)
        = Inl SSHConnectionError"
proof -
  have "1 \<le> cb_half_open_max_calls b" using assms(4) by (simp add: breaker_ok_def)
  then obtain j where n: "nat (cb_half_open_max_calls b) = Suc j" and j: "int (Suc j) = cb_half_open_max_calls b"
    by (metis Suc_pred int_nat_eq nat_0_iff not_gr_zero not_one_le_zero order.trans zero_le_one)
  let ?t = "\<lambda>t. attempt_session sha canon alive tick t uuid c idle rq"
  let ?h = "b\<lparr>cb_state := HALF_OPEN, cb_half_open_calls := 0\<rparr>"
  have due: "(breaker_attempt now o' ^^ Suc j) b = (breaker_attempt now o' ^^ Suc j) ?h" for o'
    by (simp only: funpow_Suc_right o_apply attempt_due [OF assms(5,6)])
  have "cb_state ((breaker_attempt now Dialed ^^ Suc j) b) = CLOSED"
    using recovers_after [OF half_open_fresh_ok [OF assms(4,5)], where now = now and k = "Suc j"] j assms(4)
    unfolding due by (simp add: Let_def breaker_ok_def)
  moreover have "host_breaker (sq_host rq) ((?t now Dialed ^^ Suc j) m) = Some ((breaker_attempt now Dialed ^^ Suc j) b)"
    using attempts_breaker [OF assms(1-3)] by blast
  ultimately have closed: "map_option cb_state (host_breaker (sq_host rq) ((?t now Dialed ^^ Suc j) m)) = Some CLOSED"
    by (simp only: option.map)
  let ?l = "(breaker_attempt now AuthRejected ^^ Suc j) b"
  have "?l = ?h\<lparr>cb_half_open_calls := int (Suc j)\<rparr>"
    unfolding due by (rule unrecorded_after) (use j in simp_all)
  then have l: "cb_state ?l = HALF_OPEN" "cb_half_open_calls ?l = cb_half_open_max_calls ?l"
    using j by simp_all
  note m1 = attempts_breaker [OF assms(1-3), where n = "Suc j" and sha = sha and alive = alive and tick = tick
        and now = now and uuid = uuid and c = c and idle = idle and out = AuthRejected]
  note m2 = attempts_breaker [OF conjunct1 [OF m1] conjunct2 [OF m1] assms(3),
      where n = k and sha = sha and alive = alive
        and tick = tick and now = later and uuid = uuid and c = c and idle = idle and out = out,
      unfolded exhausted_forever [OF l]]
  have "\<not> fst (can_execute latest ?l)" by (simp only: half_open_exhausted [OF l] fst_conv not_False_eq_True)
  then show ?thesis
    using create_session_breaker [OF conjunct1 [OF m2] conjunct2 [OF m2] assms(3),
        of sha alive tick latest uuid c out' idle] closed
    by (simp add: Let_def split_beta n)
qed

definition demo_open_breaker :: circuit_breaker where
  "demo_open_breaker = default_breaker\<lparr>cb_state := OPEN, cb_failure_count := 5, cb_last_failure_time := Some 0\<rparr>"

definition demo_open_manager :: "nat ssh_manager" where
  "demo_open_manager = new_manager 300 (Some (snd (get_breaker ''h'' demo_open_breaker (new_registry 1000)))) 0 0"

lemma breaker_recovery_or_lockout_witness:
  "fst (create_session_unreserved id Some (\<lambda>_. True) 0 100000 ''s'' 7 Dialed 300 demo_request
     (attempt_session id Some (\<lambda>_. True) 0 60 ''s'' 7 300 demo_request AuthRejected
       (attempt_session id Some (\<lambda>_. True) 0 60 ''s'' 7 300 demo_request AuthRejected
         (attempt_session id Some (\<lambda>_. True) 0 60 ''s'' 7 300 demo_request AuthRejected demo_open_manager))))
   = Inl SSHConnectionError"
proof -
  have "registry_ok (snd (get_breaker ''h'' demo_open_breaker (new_registry 1000)))"
    using get_breaker_ok [OF new_registry_ok [of 1000]] by simp
  then have d: "dials_directly demo_open_manager"
    by (simp add: dials_directly_def demo_open_manager_def new_manager_def)
  have b: "host_breaker (sq_host demo_request) demo_open_manager = Some demo_open_breaker"
    by (simp add: host_breaker_def demo_open_manager_def new_manager_def demo_request_def get_breaker_def
        insert_breaker_def new_registry_def)
  have c: "canonical_ip Some (sq_pinned_ip demo_request) = Inr None"
    by (simp add: canonical_ip_def demo_request_def)
  note defs = demo_open_breaker_def default_breaker_def new_breaker_def
  have o: "breaker_ok demo_open_breaker" "cb_state demo_open_breaker = OPEN" "recovery_due 60 demo_open_breaker"
    by (simp_all add: breaker_ok_def recovery_due_def defs)
  have n: "nat (cb_half_open_max_calls demo_open_breaker) = 3" by (simp add: defs)
  show ?thesis
    using breaker_recovery_or_lockout [OF d b c o, where sha = id and alive = "\<lambda>_. True" and tick = 0
        and uuid = "''s''" and c = 7 and idle = 300 and k = 0 and latest = 100000 and out' = Dialed]
    by (simp add: Let_def n eval_nat_numeral)
qed

subsection \<open>Reaping, leases and reuse\<close>

text \<open>A leased session is not reaped, however long it is idle.\<close>

lemma leased_not_expired: "0 < sr_active_operations r \<Longrightarrow> \<not> session_expired timeout now r"
  by (simp add: session_expired_def)

lemma cleanup_keeps_leased:
  assumes "map_of (sm_sessions m) sid = Some r" "0 < sr_active_operations r" "dict_ok (sm_sessions m)"
  shows "map_of (sm_sessions (snd (cleanup_stale_sessions now m))) sid = Some r"
  using assms leased_not_expired [OF assms(2)]
  by (simp add: cleanup_stale_sessions_def Let_def dict_get_filter)

text \<open>A session is reused only by the owner, from the address, for the target and with the credential it
  was created with.\<close>

lemma reuse_is_exact:
  assumes "find_reusable_session sha canon alive now rq ips m = (Inr (Some r), m')"
  shows "sr_owner_token_fingerprint r = sq_owner_token_fingerprint rq \<and> sr_source_ip r = sq_source_ip rq
    \<and> sr_host r = sq_host rq \<and> sr_credential_fingerprint r = request_fingerprint sha rq"
proof (cases rule: find_reusable_result [OF assms])
  case 1
  from assms 1 show ?thesis
    by (auto simp: find_reusable_session_def find_Some_iff reusable_def touch_record_def
        split: if_splits option.splits)
next
  case (2 sid r')
  then show ?thesis by (auto simp: reusable_def touch_record_def)
qed

text \<open>The transport a session returns to the pool goes back under the key it was asked for with.\<close>

lemma record_pool_key_make_record:
  "record_pool_key (make_record sha now sid c destination_ip idle rq) = request_pool_key sha rq destination_ip"
  by (simp add: record_pool_key_def make_record_def request_pool_key_def)

text \<open>
  A refused admission has removed the expired sessions of the address from the table without closing
  their clients, as the sections after the exception do not run. Here one of two sessions of a
  privileged caller has expired when a plain caller (limit 1) is refused: its client is
  neither in the table nor closed.
\<close>

lemma refused_admission_leak:
  assumes "admit st now rq m = (Inl e, m')"
  shows "sm_closed m' = sm_closed m"
  using assms by (auto simp: admit_def Let_def split: option.splits if_splits)

definition demo_full_manager :: "nat ssh_manager" where
  "demo_full_manager = register_session (make_record id 0 ''old'' 1 None 300 demo_request)
     (register_session (make_record id 900 ''new'' 2 None 300 demo_request) (new_manager 300 None 0 0))"

lemma refused_admission_leak_example:
  "let (res, m') = admit demo_settings 1000 demo_request demo_full_manager in
   res = Inl SessionLimitError \<and> map fst (sm_sessions m') = [''new''] \<and> sm_closed m' = []"
  by code_simp

end
