(* ===== verification/CoordMarkers.thy ===== *)
theory CoordMarkers
  imports PyRegex
begin

text \<open>
  \<open>app/coordination_logic.py\<close>, first part: the keys and project names, and the marker line that turns
  a Gitea issue or comment into a coordination thread or event (\<open>_header\<close>, \<open>_parse\<close>). The three
  patterns are syntax trees of \<open>PyRegex\<close>. The lemmas compute what a repeated character class matches
  and give the round trip of the marker line.
\<close>

subsection \<open>Runs of a character class\<close>

definition in_class :: "citem list \<Rightarrow> char \<Rightarrow> bool" where
  "in_class its c \<longleftrightarrow> list_ex (\<lambda>it. citem_match it c) its"

definition class_len :: "citem list \<Rightarrow> nat option \<Rightarrow> string \<Rightarrow> nat" where
  "class_len its mx s =
     (case mx of None \<Rightarrow> length (takeWhile (in_class its) s)
      | Some k \<Rightarrow> min k (length (takeWhile (in_class its) s)))"

definition class_state :: "rpos \<Rightarrow> rcaps \<Rightarrow> nat \<Rightarrow> rstate" where
  "class_state p cs k = ((rev (take k (snd p)) @ fst p, drop k (snd p)), cs)"

lemma rx_run_set:
  "rx_run no_flags (RSet False its) ((bef, aft), cs) =
     (case aft of [] \<Rightarrow> [] | c # aft' \<Rightarrow> if in_class its c then [((c # bef, aft'), cs)] else [])"
  by (cases aft) (simp_all add: in_class_def citem_match_fl_def no_flags_def list_ex_iff)

lemma upt_shift: "map (\<lambda>k. f (Suc k)) (rev [a..<b]) = map f (rev [Suc a..<Suc b])"
  by (simp add: map_Suc_upt [symmetric] rev_map [symmetric] o_def del: upt_Suc)

lemma rep_class:
  "length aft + mn < fuel \<Longrightarrow>
   rep fuel True mn mx (rx_run no_flags (RSet False its)) ((bef, aft), cs) =
     map (class_state (bef, aft) cs) (rev [mn..<Suc (class_len its mx aft)])"
proof (induction fuel arbitrary: mn mx bef aft)
  case 0
  then show ?case by simp
next
  case (Suc fuel)
  let ?body = "rx_run no_flags (RSet False its)"
  let ?st = "((bef, aft), cs)"
  have stop: "(if mn = 0 then [?st] else []) = map (class_state (bef, aft) cs) (rev [mn..<Suc 0])"
    by (simp add: class_state_def)
  consider (none) "mx = Some 0 \<or> aft = [] \<or> \<not> in_class its (hd aft)"
    | (more) c aft' where "mx \<noteq> Some 0" "aft = c # aft'" "in_class its c"
    by (cases aft) auto
  then show ?case
  proof cases
    case none
    then have "class_len its mx aft = 0"
      by (cases aft) (auto simp: class_len_def split: option.splits)
    moreover have "rep (Suc fuel) True mn mx ?body ?st = (if mn = 0 then [?st] else [])"
      using none by (cases aft) (auto simp: rx_run_set Let_def simp del: rx_run.simps)
    ultimately show ?thesis using stop by simp
  next
    case more
    let ?mx = "map_option (\<lambda>k. k - 1) mx"
    let ?L = "class_len its ?mx aft'"
    have L: "class_len its mx aft = Suc ?L"
      using more by (cases mx) (auto simp: class_len_def)
    have shift: "class_state (c # bef, aft') cs k = class_state (bef, aft) cs (Suc k)" for k
      using more(2) by (simp add: class_state_def)
    have "rep (Suc fuel) True mn mx ?body ?st =
        rep fuel True (mn - 1) ?mx ?body ((c # bef, aft'), cs) @ (if mn = 0 then [?st] else [])"
      using more by (simp add: rx_run_set Let_def del: rx_run.simps)
    also have "\<dots> = map (class_state (bef, aft) cs) (rev [Suc (mn - 1)..<Suc (Suc ?L)]) @ (if mn = 0 then [?st] else [])"
      using Suc.IH [of aft' "mn - 1" ?mx "c # bef"] Suc.prems more(2)
      by (simp only: shift upt_shift [symmetric] list.size)
    also have "\<dots> = map (class_state (bef, aft) cs) (rev [mn..<Suc (class_len its mx aft)])"
    proof (cases mn)
      case 0
      then have "rev [0..<Suc (Suc ?L)] = rev [Suc 0..<Suc (Suc ?L)] @ [0]"
        by (simp only: upt_conv_Cons rev.simps zero_less_Suc)
      then show ?thesis using 0 L by (simp add: class_state_def del: upt_Suc)
    next
      case (Suc n)
      then show ?thesis using L by simp
    qed
    finally show ?thesis .
  qed
qed

lemma rx_run_class:
  "rx_run no_flags (RRep True mn mx (RSet False its)) ((bef, aft), cs) =
     map (class_state (bef, aft) cs) (rev [mn..<Suc (class_len its mx aft)])"
  using rep_class [of aft mn "length aft + mn + 1" mx its bef cs] by simp

text \<open>A pattern that fails on every text that starts with a character of the class.\<close>

definition dead_on :: "rx \<Rightarrow> citem list \<Rightarrow> bool" where
  "dead_on r its \<longleftrightarrow> (\<forall>bef c y cs. in_class its c \<longrightarrow> rx_run no_flags r ((bef, c # y), cs) = [])"

definition not_headed :: "citem list \<Rightarrow> string \<Rightarrow> bool" where
  "not_headed its x \<longleftrightarrow> x = [] \<or> \<not> in_class its (hd x)"

lemma class_len_whole:
  assumes "list_all (in_class its) w" "not_headed its x" "case mx of None \<Rightarrow> True | Some k \<Rightarrow> length w \<le> k"
  shows "class_len its mx (w @ x) = length w"
proof -
  have "takeWhile (in_class its) (w @ x) = w"
    using assms(1,2) by (cases x) (auto simp: not_headed_def list_all_iff takeWhile_append)
  then show ?thesis using assms(3) by (simp add: class_len_def split: option.splits)
qed

lemma group_class:
  assumes w: "list_all (in_class its) w" "not_headed its x" "mn \<le> length w"
      "case mx of None \<Rightarrow> True | Some k \<Rightarrow> length w \<le> k"
    and dead: "dead_on r its"
  shows "rx_run no_flags (RCat (RGrp n (RRep True mn mx (RSet False its))) r) ((bef, w @ x), cs) =
    rx_run no_flags r ((rev w @ bef, x), (n, w) # cs)"
proof -
  let ?f = "\<lambda>k. ((rev (take k (w @ x)) @ bef, drop k (w @ x)), (n, take k (w @ x)) # cs)"
  have L: "class_len its mx (w @ x) = length w" by (rule class_len_whole [OF w(1,2,4)])
  have grp: "rx_run no_flags (RGrp n (RRep True mn mx (RSet False its))) ((bef, w @ x), cs) =
      map ?f (rev [mn..<Suc (length w)])"
    unfolding rx_run.simps(8) [of _ n] rx_run_class L
    by (auto simp: class_state_def rev_take rev_drop min_def)
  have short: "rx_run no_flags r (?f k) = []" if "k < length w" for k
  proof -
    have "drop k (w @ x) = w ! k # drop (Suc k) w @ x" using that by (simp add: Cons_nth_drop_Suc [symmetric])
    moreover have "in_class its (w ! k)" using w(1) that by (simp add: list_all_length)
    ultimately show ?thesis using dead unfolding dead_on_def by metis
  qed
  have "rev [mn..<Suc (length w)] = length w # rev [mn..<length w]" using w(3) by simp
  moreover have "concat (map (rx_run no_flags r) (map ?f (rev [mn..<length w]))) = []"
    using short by (auto simp: concat_eq_Nil_conv)
  ultimately show ?thesis unfolding rx_run.simps(5) grp by simp
qed

lemma run_lit_append: "run_lit no_flags a (bef, a @ x) = Some (rev a @ bef, x)"
  by (induction a arbitrary: bef) (simp_all add: lit_eq_def no_flags_def)

lemma run_lit_fail: "\<not> startswith aft a \<Longrightarrow> run_lit no_flags a (bef, aft) = None"
  by (induction no_flags a "(bef, aft)" arbitrary: bef aft rule: run_lit.induct)
    (auto simp: lit_eq_def no_flags_def)

lemma run_lit_cat:
  "rx_run no_flags (RCat (RLit a) r) ((bef, a @ x), cs) = rx_run no_flags r ((rev a @ bef, x), cs)"
  by (simp add: run_lit_append)

lemma run_lit_cat_fail:
  "\<not> startswith aft a \<Longrightarrow> rx_run no_flags (RCat (RLit a) r) ((bef, aft), cs) = []"
  by (simp add: run_lit_fail)

definition ROpt :: "rx \<Rightarrow> rx" where
  "ROpt r = RRep True 0 (Some 1) r"

lemma rep_none: "rep fuel True 0 (Some 0) body st = [st]"
  by (cases fuel) simp_all

lemma run_opt_cat:
  "rx_run fl (RCat (ROpt g) r) st = rx_run fl (RCat g r) st @ rx_run fl r st"
proof -
  have "concat (map (\<lambda>x. if P x then [x] else rep n True 0 (Some 0) body x) xs) = xs"
    for P n body and xs :: "rstate list"
    by (induction xs) (simp_all add: rep_none)
  then have "rep (Suc n) True 0 (Some 1) body st = body st @ [st]" for n and body :: "rstate \<Rightarrow> rstate list"
    by (simp add: Let_def cong: if_cong)
  then have "rx_run fl (ROpt g) st = rx_run fl g st @ [st]" by (cases st) (simp add: ROpt_def)
  then show ?thesis by simp
qed

lemma run_cat_assoc: "rx_run fl (RCat (RCat a b) c) st = rx_run fl (RCat a (RCat b c)) st"
proof -
  have "concat (map f (concat (map g xs))) = concat (map (\<lambda>x. concat (map f (g x))) xs)"
    for f :: "rstate \<Rightarrow> rstate list" and g and xs :: "rstate list"
    by (induction xs) simp_all
  moreover have "rx_run fl (RCat b c) = (\<lambda>x. concat (map (rx_run fl c) (rx_run fl b x)))"
    by (rule ext) simp
  ultimately show ?thesis by simp
qed

subsection \<open>Keys, projects and the marker line\<close>

definition coord_marker :: string where
  "coord_marker = ''py-coordination/v1''"

definition KEY_CLASS :: "citem list" where
  "KEY_CLASS = [CR (CHR ''a'') (CHR ''z''), CR (CHR ''0'') (CHR ''9''), CI (CHR ''.''), CI (CHR ''_''), CI (CHR ''-'')]"

definition PROJECT_CLASS :: "citem list" where
  "PROJECT_CLASS = [CR (CHR ''A'') (CHR ''Z''), CR (CHR ''a'') (CHR ''z''), CR (CHR ''0'') (CHR ''9''),
     CI (CHR ''_''), CI (CHR ''.''), CI (CHR ''-'')]"

definition STATE_CLASS :: "citem list" where
  "STATE_CLASS = [CR (CHR ''a'') (CHR ''z''), CI (CHR ''_'')]"

definition HEX_CLASS :: "citem list" where
  "HEX_CLASS = [CR (CHR ''0'') (CHR ''9''), CR (CHR ''a'') (CHR ''f'')]"

definition KEY_RX :: rx where
  "KEY_RX = RCat RBol (RCat (RSet False [CR (CHR ''a'') (CHR ''z''), CR (CHR ''0'') (CHR ''9'')])
     (RCat (RRep True 7 (Some 99) (RSet False KEY_CLASS)) REol))"

definition PROJECT_RX :: rx where
  "PROJECT_RX = RCat RBol
     (RCat (RSet False [CR (CHR ''A'') (CHR ''Z''), CR (CHR ''a'') (CHR ''z''), CR (CHR ''0'') (CHR ''9'')])
       (RCat (RRep True 0 (Some 99) (RSet False PROJECT_CLASS)) REol))"

definition END_RX :: rx where
  "END_RX = RCat (RLit '' -->'') REol"

definition ACTOR_RX :: rx where
  "ACTOR_RX = RCat (ROpt (RCat (RLit '' actor='') (RGrp 4 (RRep True 16 (Some 16) (RSet False HEX_CLASS))))) END_RX"

definition STATE_RX :: rx where
  "STATE_RX = RCat (ROpt (RCat (RLit '' state='') (RGrp 3 (RRep True 1 None (RSet False STATE_CLASS))))) ACTOR_RX"

definition SOURCE_RX :: rx where
  "SOURCE_RX = RCat (ROpt (RCat (RLit '' source='') (RGrp 2 (RRep True 1 None (RSet False PROJECT_CLASS))))) STATE_RX"

definition HEADER_RX :: rx where
  "HEADER_RX = RCat RBol (RCat (RLit ''<!-- py-coordination/v1 '') (RCat (RAlt (RLit ''issue'') (RLit ''event''))
     (RCat (RLit '' key='') (RCat (RGrp 1 (RRep True 1 None (RSet False KEY_CLASS))) SOURCE_RX))))"

definition COORD_STATES :: "string list" where
  "COORD_STATES = [''open'', ''accepted'', ''waiting_review'', ''resolved'', ''message'']"

definition valid_key :: "string \<Rightarrow> bool" where
  "valid_key k \<longleftrightarrow> rx_fullmatch no_flags KEY_RX k \<noteq> None"

definition valid_project :: "string \<Rightarrow> bool" where
  "valid_project p \<longleftrightarrow> rx_fullmatch no_flags PROJECT_RX p \<noteq> None"

definition header_line :: "string \<Rightarrow> string \<Rightarrow> string \<Rightarrow> string \<Rightarrow> string \<Rightarrow> string" where
  "header_line kind key source state actor =
     ''<!-- '' @ coord_marker @ '' '' @ kind @ '' key='' @ key
     @ (if source \<noteq> [] then '' source='' @ source else [])
     @ (if state \<noteq> [] then '' state='' @ state else [])
     @ (if actor \<noteq> [] then '' actor='' @ actor else [])
     @ '' -->''"

record marker =
  mk_key :: string
  mk_source :: string
  mk_state :: string
  mk_actor :: string

definition group_or_empty :: "rcaps \<Rightarrow> nat \<Rightarrow> string" where
  "group_or_empty cs n = (case map_of cs n of None \<Rightarrow> [] | Some t \<Rightarrow> t)"

definition parse_marker :: "string \<Rightarrow> string \<Rightarrow> marker option" where
  "parse_marker body kind =
     (let line = before_char newline body in
      case rx_fullmatch no_flags HEADER_RX line of
        None \<Rightarrow> None
      | Some cs \<Rightarrow>
          if \<not> str_in ('' '' @ coord_marker @ '' '' @ kind @ '' '') line then None
          else
            (let key = group_or_empty cs 1; source = group_or_empty cs 2;
                 state = group_or_empty cs 3; actor = group_or_empty cs 4 in
             if \<not> valid_key key then None
             else if kind = ''issue'' \<and> (source = [] \<or> state \<noteq> ''open'') then None
             else if kind = ''event'' \<and> (source \<noteq> [] \<or> state \<notin> set COORD_STATES) then None
             else Some \<lparr>mk_key = key, mk_source = source, mk_state = state, mk_actor = actor\<rparr>))"

subsection \<open>The round trip of the marker line\<close>

lemma opt_field_skip:
  assumes "\<not> startswith x lit"
  shows "rx_run no_flags (RCat (ROpt (RCat (RLit lit) g)) r) ((bef, x), cs) = rx_run no_flags r ((bef, x), cs)"
  unfolding run_opt_cat run_cat_assoc run_lit_cat_fail [OF assms] by simp

lemma opt_field_take:
  assumes "list_all (in_class its) w" "not_headed its x" "mn \<le> length w"
      "case mx of None \<Rightarrow> True | Some k \<Rightarrow> length w \<le> k" "dead_on r its"
    and "rx_run no_flags r ((bef, lit @ w @ x), cs) = []"
  shows "rx_run no_flags (RCat (ROpt (RCat (RLit lit) (RGrp n (RRep True mn mx (RSet False its))))) r)
      ((bef, lit @ w @ x), cs) = rx_run no_flags r ((rev w @ rev lit @ bef, x), (n, w) # cs)"
  unfolding run_opt_cat run_cat_assoc run_lit_cat group_class [OF assms(1-5)] assms(6) by simp

lemma dead_lit: "\<not> in_class its c \<Longrightarrow> dead_on (RCat (RLit (c # lit)) r) its"
  unfolding dead_on_def by (intro allI impI run_lit_cat_fail) auto

lemma dead_opt:
  assumes "\<not> in_class its c" "dead_on r its"
  shows "dead_on (RCat (ROpt (RCat (RLit (c # lit)) g)) r) its"
  unfolding dead_on_def
proof (intro allI impI)
  fix bef d y cs
  assume d: "in_class its d"
  then have "\<not> startswith (d # y) (c # lit)" using assms(1) by auto
  from opt_field_skip [OF this] show "rx_run no_flags (RCat (ROpt (RCat (RLit (c # lit)) g)) r) ((bef, d # y), cs) = []"
    using assms(2) d by (simp only: dead_on_def)
qed

lemma classes_no_space:
  "\<not> in_class KEY_CLASS (CHR '' '')" "\<not> in_class PROJECT_CLASS (CHR '' '')"
  "\<not> in_class STATE_CLASS (CHR '' '')" "\<not> in_class HEX_CLASS (CHR '' '')"
  by (simp_all add: in_class_def KEY_CLASS_def PROJECT_CLASS_def STATE_CLASS_def HEX_CLASS_def)

lemma classes_no_newline:
  "\<not> in_class KEY_CLASS newline" "\<not> in_class PROJECT_CLASS newline"
  "\<not> in_class STATE_CLASS newline" "\<not> in_class HEX_CLASS newline"
  by (simp_all add: in_class_def KEY_CLASS_def PROJECT_CLASS_def STATE_CLASS_def HEX_CLASS_def newline_def)

lemma dead_tails:
  assumes "\<not> in_class its (CHR '' '')"
  shows "dead_on END_RX its" "dead_on ACTOR_RX its" "dead_on STATE_RX its" "dead_on SOURCE_RX its"
proof -
  show e: "dead_on END_RX its" unfolding END_RX_def by (rule dead_lit [OF assms])
  show a: "dead_on ACTOR_RX its" unfolding ACTOR_RX_def by (rule dead_opt [OF assms e])
  show s: "dead_on STATE_RX its" unfolding STATE_RX_def by (rule dead_opt [OF assms a])
  show "dead_on SOURCE_RX its" unfolding SOURCE_RX_def by (rule dead_opt [OF assms s])
qed

lemma not_headed_space: "\<not> in_class its (CHR '' '') \<Longrightarrow> not_headed its (CHR '' '' # x)"
  by (simp add: not_headed_def)

definition opt_field :: "string \<Rightarrow> string \<Rightarrow> string" where
  "opt_field lit w = (if w \<noteq> [] then lit @ w else [])"

definition actor_text :: "string \<Rightarrow> string" where
  "actor_text actor = opt_field '' actor='' actor @ '' -->''"

definition state_text :: "string \<Rightarrow> string \<Rightarrow> string" where
  "state_text state actor = opt_field '' state='' state @ actor_text actor"

definition source_text :: "string \<Rightarrow> string \<Rightarrow> string \<Rightarrow> string" where
  "source_text source state actor = opt_field '' source='' source @ state_text state actor"

lemmas tail_text_defs = opt_field_def actor_text_def state_text_def source_text_def

lemma texts_headed:
  "\<exists>x. actor_text actor = CHR '' '' # x" "\<exists>x. state_text state actor = CHR '' '' # x"
  "\<exists>x. source_text source state actor = CHR '' '' # x"
  by (auto simp: tail_text_defs)

lemma run_END: "rx_run no_flags END_RX ((bef, '' -->''), cs) = [((rev '' -->'' @ bef, []), cs)]"
  using run_lit_cat [of "'' -->''" REol bef "[]" cs] by (simp add: END_RX_def)

lemma run_END_fail: "\<not> startswith x '' -->'' \<Longrightarrow> rx_run no_flags END_RX ((bef, x), cs) = []"
  unfolding END_RX_def by (rule run_lit_cat_fail)

lemma run_ACTOR_fail:
  "\<not> startswith x '' actor='' \<Longrightarrow> \<not> startswith x '' -->'' \<Longrightarrow> rx_run no_flags ACTOR_RX ((bef, x), cs) = []"
  unfolding ACTOR_RX_def by (simp only: opt_field_skip run_END_fail not_False_eq_True)

lemma run_STATE_fail:
  "\<not> startswith x '' state='' \<Longrightarrow> \<not> startswith x '' actor='' \<Longrightarrow> \<not> startswith x '' -->'' \<Longrightarrow>
   rx_run no_flags STATE_RX ((bef, x), cs) = []"
  unfolding STATE_RX_def by (simp only: opt_field_skip run_ACTOR_fail not_False_eq_True)

text \<open>A run from a state that matches to the end in one way, with these captures.\<close>

definition ends_with :: "rx \<Rightarrow> string \<Rightarrow> rcaps \<Rightarrow> bool" where
  "ends_with r x caps \<longleftrightarrow> (\<forall>bef cs. \<exists>bef'. rx_run no_flags r ((bef, x), cs) = [((bef', []), caps @ cs)])"

definition capture :: "nat \<Rightarrow> string \<Rightarrow> rcaps" where
  "capture n w = (if w = [] then [] else [(n, w)])"

lemma run_ACTOR:
  assumes "list_all (in_class HEX_CLASS) actor" "actor = [] \<or> length actor = 16"
  shows "ends_with ACTOR_RX (actor_text actor) (capture 4 actor)"
proof (cases "actor = []")
  case True
  then show ?thesis
    unfolding ends_with_def ACTOR_RX_def actor_text_def capture_def
    by (simp add: opt_field_skip run_END opt_field_def del: rx_run.simps)
next
  case False
  have f: "rx_run no_flags END_RX ((bef, '' actor='' @ actor @ '' -->''), cs) = []" for bef cs
    by (rule run_END_fail) simp
  note t = opt_field_take [OF assms(1) not_headed_space [OF classes_no_space(4)] _ _ dead_tails(1) [OF classes_no_space(4)] f]
  show ?thesis
    unfolding ends_with_def ACTOR_RX_def actor_text_def capture_def
    using False assms(2) by (simp add: t run_END opt_field_def del: rx_run.simps append.simps)
qed

lemma ends_with_opt:
  assumes w: "list_all (in_class its) w" and sp: "\<not> in_class its (CHR '' '')"
    and r: "ends_with r (CHR '' '' # x) caps" "dead_on r its"
    and skip: "\<not> startswith (CHR '' '' # x) lit"
    and fail: "\<And>bef cs. rx_run no_flags r ((bef, lit @ w @ CHR '' '' # x), cs) = []"
  shows "ends_with (RCat (ROpt (RCat (RLit lit) (RGrp n (RRep True 1 None (RSet False its))))) r)
    (opt_field lit w @ CHR '' '' # x) (caps @ capture n w)"
proof (cases "w = []")
  case True
  then show ?thesis
    using r(1) unfolding ends_with_def opt_field_def capture_def
    by (simp add: opt_field_skip [OF skip] del: rx_run.simps)
next
  case False
  then have "1 \<le> length w" by (cases w) auto
  note t = opt_field_take [OF w not_headed_space [OF sp] this _ r(2) fail]
  show ?thesis
    using r(1) False unfolding ends_with_def opt_field_def capture_def
    by (simp add: t del: rx_run.simps One_nat_def)
qed

lemma run_STATE:
  assumes "list_all (in_class STATE_CLASS) state" "list_all (in_class HEX_CLASS) actor" "actor = [] \<or> length actor = 16"
  shows "ends_with STATE_RX (state_text state actor) (capture 4 actor @ capture 3 state)"
proof -
  obtain x where x: "actor_text actor = CHR '' '' # x" using texts_headed(1) by blast
  have skip: "\<not> startswith (CHR '' '' # x) '' state=''"
    unfolding x [symmetric] by (auto simp: tail_text_defs)
  have fail: "rx_run no_flags ACTOR_RX ((bef, '' state='' @ state @ CHR '' '' # x), cs) = []" for bef cs
    by (rule run_ACTOR_fail) simp_all
  show ?thesis
    using ends_with_opt [OF assms(1) classes_no_space(3) run_ACTOR [OF assms(2,3), unfolded x]
        dead_tails(2) [OF classes_no_space(3)] skip fail]
    unfolding STATE_RX_def state_text_def x .
qed

lemma run_SOURCE:
  assumes "list_all (in_class PROJECT_CLASS) source" "list_all (in_class STATE_CLASS) state"
    "list_all (in_class HEX_CLASS) actor" "actor = [] \<or> length actor = 16"
  shows "ends_with SOURCE_RX (source_text source state actor) (capture 4 actor @ capture 3 state @ capture 2 source)"
proof -
  obtain x where x: "state_text state actor = CHR '' '' # x" using texts_headed(2) by blast
  have skip: "\<not> startswith (CHR '' '' # x) '' source=''"
    unfolding x [symmetric] by (auto simp: tail_text_defs)
  have fail: "rx_run no_flags STATE_RX ((bef, '' source='' @ source @ CHR '' '' # x), cs) = []" for bef cs
    by (rule run_STATE_fail) simp_all
  show ?thesis
    using ends_with_opt [OF assms(1) classes_no_space(2) run_STATE [OF assms(2-4), unfolded x]
        dead_tails(3) [OF classes_no_space(2)] skip fail]
    unfolding SOURCE_RX_def source_text_def x append_assoc .
qed

lemma kind_run:
  assumes "kind = ''issue'' \<or> kind = ''event''"
  shows "rx_run no_flags (RCat (RAlt (RLit ''issue'') (RLit ''event'')) r) ((bef, kind @ x), cs) =
    rx_run no_flags r ((rev kind @ bef, x), cs)"
  using assms by (elim disjE) (simp_all add: lit_eq_def no_flags_def)

lemma header_line_text:
  "header_line kind key source state actor =
     ''<!-- py-coordination/v1 '' @ kind @ '' key='' @ key @ source_text source state actor"
  by (simp add: header_line_def coord_marker_def tail_text_defs)

text \<open>The fields a marker line may hold.\<close>

definition marker_fields_ok :: "string \<Rightarrow> string \<Rightarrow> string \<Rightarrow> string \<Rightarrow> string \<Rightarrow> bool" where
  "marker_fields_ok kind key source state actor \<longleftrightarrow>
     (kind = ''issue'' \<or> kind = ''event'') \<and> valid_key key
     \<and> list_all (in_class PROJECT_CLASS) source \<and> list_all (in_class STATE_CLASS) state
     \<and> list_all (in_class HEX_CLASS) actor \<and> (actor = [] \<or> length actor = 16)
     \<and> (if kind = ''issue'' then source \<noteq> [] \<and> state = ''open'' else source = [] \<and> state \<in> set COORD_STATES)"

lemma valid_key_class:
  assumes "valid_key k"
  shows "k \<noteq> [] \<and> list_all (in_class KEY_CLASS) k"
proof -
  obtain c t where k: "k = c # t"
    using assms by (cases k) (auto simp: valid_key_def rx_fullmatch_def KEY_RX_def)
  let ?r = "RCat (RRep True 7 (Some 99) (RSet False KEY_CLASS)) REol"
  have c: "in_class [CR (CHR ''a'') (CHR ''z''), CR (CHR ''0'') (CHR ''9'')] c"
    using assms unfolding k valid_key_def rx_fullmatch_def KEY_RX_def
    by (auto simp: in_class_def citem_match_fl_def no_flags_def split: if_splits)
  then have run: "rx_run no_flags KEY_RX (([], k), []) = rx_run no_flags ?r (([c], t), [])"
    unfolding k KEY_RX_def by (simp add: in_class_def citem_match_fl_def no_flags_def del: rx_run.simps(7))
  have "filter (\<lambda>(p, cs). snd p = []) (rx_run no_flags ?r (([c], t), [])) \<noteq> []"
    using assms unfolding valid_key_def rx_fullmatch_def run by (auto split: list.splits)
  then obtain p cs where m: "(p, cs) \<in> set (rx_run no_flags ?r (([c], t), []))" and "snd p = []"
    by (auto simp: filter_empty_conv)
  from m obtain n where n: "n < Suc (class_len KEY_CLASS (Some 99) t)"
      "(p, cs) \<in> set (rx_run no_flags REol (class_state ([c], t) [] n))"
    unfolding rx_run.simps(5) rx_run_class by (auto simp del: rx_run.simps upt_Suc)
  from n(2) \<open>snd p = []\<close> have "drop n t = []"
    by (auto simp: class_state_def split: if_splits)
  then have "length t \<le> length (takeWhile (in_class KEY_CLASS) t)"
    using n(1) by (simp add: class_len_def)
  then have "takeWhile (in_class KEY_CLASS) t = t"
    by (metis length_takeWhile_le le_antisym takeWhile_eq_take take_all order_refl)
  then have "list_all (in_class KEY_CLASS) t" by (auto simp: list_all_iff takeWhile_eq_all_conv)
  moreover have "in_class KEY_CLASS c" using c by (auto simp: in_class_def KEY_CLASS_def)
  ultimately show ?thesis by (simp add: k)
qed

lemma header_fullmatch:
  assumes "marker_fields_ok kind key source state actor"
  shows "rx_fullmatch no_flags HEADER_RX (header_line kind key source state actor) =
    Some (capture 4 actor @ capture 3 state @ capture 2 source @ [(1, key)])"
proof -
  obtain x where x: "source_text source state actor = CHR '' '' # x" using texts_headed(3) by blast
  have key: "key \<noteq> []" "list_all (in_class KEY_CLASS) key"
    using assms valid_key_class by (auto simp: marker_fields_ok_def)
  then have "1 \<le> length key" by (cases key) auto
  note g = group_class [OF key(2) not_headed_space [OF classes_no_space(1), of x] this _ dead_tails(4) [OF classes_no_space(1)]]
  have kind: "kind = ''issue'' \<or> kind = ''event''" using assms by (simp add: marker_fields_ok_def)
  have bol: "rx_run no_flags (RCat RBol r) (([], y), cs) = rx_run no_flags r (([], y), cs)" for r y cs
    by simp
  have "\<exists>bef. rx_run no_flags HEADER_RX (([], header_line kind key source state actor), []) =
      rx_run no_flags SOURCE_RX ((bef, source_text source state actor), [(1, key)])"
    unfolding HEADER_RX_def header_line_text x bol run_lit_cat kind_run [OF kind]
    by (rule exI, rule g) simp
  then obtain bef where "rx_run no_flags HEADER_RX (([], header_line kind key source state actor), []) =
      rx_run no_flags SOURCE_RX ((bef, source_text source state actor), [(1, key)])" ..
  moreover obtain bef' where "rx_run no_flags SOURCE_RX ((bef, source_text source state actor), [(1, key)]) =
      [((bef', []), (capture 4 actor @ capture 3 state @ capture 2 source) @ [(1, key)])]"
    using run_SOURCE [of source state actor] assms unfolding marker_fields_ok_def ends_with_def by blast
  ultimately show ?thesis by (simp add: rx_fullmatch_def)
qed

lemma class_no_newline:
  "\<not> in_class its newline \<Longrightarrow> list_all (in_class its) w \<Longrightarrow> newline \<notin> set w"
  by (auto simp: list_all_iff)

lemma header_line_no_newline:
  assumes "marker_fields_ok kind key source state actor"
  shows "newline \<notin> set (header_line kind key source state actor)"
proof -
  have "newline \<notin> set key" "newline \<notin> set source" "newline \<notin> set state" "newline \<notin> set actor"
    using assms valid_key_class classes_no_newline class_no_newline by (auto simp: marker_fields_ok_def)
  moreover have "newline \<notin> set kind" using assms by (auto simp: marker_fields_ok_def newline_def)
  ultimately show ?thesis
    by (auto simp: header_line_def coord_marker_def newline_def)
qed

lemma before_newline: "newline \<notin> set s \<Longrightarrow> before_char newline (s @ newline # t) = s"
  by (induction s) (auto simp: before_char_def)

lemma after_newline: "newline \<notin> set s \<Longrightarrow> after_char newline (s @ newline # t) = t"
  by (induction s) (auto simp: after_char_def)

lemma marker_round_trip:
  assumes "marker_fields_ok kind key source state actor"
  shows "parse_marker (header_line kind key source state actor @ newline # body) kind' =
    (if str_in ('' '' @ coord_marker @ '' '' @ kind' @ '' '') (header_line kind key source state actor)
        \<and> (kind' = ''issue'' \<longrightarrow> source \<noteq> [] \<and> state = ''open'')
        \<and> (kind' = ''event'' \<longrightarrow> source = [] \<and> state \<in> set COORD_STATES)
     then Some \<lparr>mk_key = key, mk_source = source, mk_state = state, mk_actor = actor\<rparr> else None)"
proof -
  have "valid_key key" and "key \<noteq> []"
    using assms valid_key_class by (auto simp: marker_fields_ok_def)
  then show ?thesis
    unfolding parse_marker_def before_newline [OF header_line_no_newline [OF assms]]
      header_fullmatch [OF assms] Let_def
    by (simp add: group_or_empty_def capture_def)
qed

text \<open>A marker line is read back as it was written: for a valid key, source, state and caller
  fingerprint, the body composed of the marker line and any text parses to exactly these fields, and
  the text after the line is the text given.\<close>

theorem marker_line_round_trip:
  assumes "marker_fields_ok kind key source state actor"
  shows "let body = header_line kind key source state actor @ newline # msg in
    parse_marker body kind = Some \<lparr>mk_key = key, mk_source = source, mk_state = state, mk_actor = actor\<rparr>
    \<and> after_char newline body = msg"
proof -
  have "str_in ('' '' @ coord_marker @ '' '' @ kind @ '' '') (header_line kind key source state actor)"
    unfolding str_in_iff header_line_text
    by (rule exI [of _ "''<!--''"], rule exI [of _ "''key='' @ key @ source_text source state actor"])
      (simp add: coord_marker_def)
  then show ?thesis
    using marker_round_trip [OF assms, of msg kind] after_newline [OF header_line_no_newline [OF assms], of msg]
      assms by (auto simp: marker_fields_ok_def Let_def)
qed

lemma marker_line_round_trip_witness:
  "parse_marker (header_line ''event'' ''close-it-1'' [] ''resolved'' ''0123456789abcdef'' @ newline # ''done'') ''event''
   = Some \<lparr>mk_key = ''close-it-1'', mk_source = [], mk_state = ''resolved'', mk_actor = ''0123456789abcdef''\<rparr>"
proof -
  have "valid_key ''close-it-1''" by code_simp
  then have "marker_fields_ok ''event'' ''close-it-1'' [] ''resolved'' ''0123456789abcdef''"
    by (simp add: marker_fields_ok_def in_class_def STATE_CLASS_def HEX_CLASS_def COORD_STATES_def)
  from marker_line_round_trip [OF this, of "''done''"] show ?thesis by (simp add: Let_def)
qed

end
