(* ===== verification/PyJson.thy ===== *)
theory PyJson
  imports Prelude
begin

text \<open>
  JSON values as Python reads them: the untyped rows of a service. \<open>jget\<close> is \<open>d.get(k)\<close> (\<open>JNull\<close> for a
  missing key, as \<open>None\<close>); the accessors return the value when \<open>isinstance\<close> holds. A number that is not
  an integer is a \<open>JFloat\<close>.
\<close>

datatype json =
    JNull
  | JBool bool
  | JInt int
  | JFloat rat
  | JStr string
  | JList "json list"
  | JObj "(string \<times> json) list"

fun jget :: "json \<Rightarrow> string \<Rightarrow> json" where
  "jget (JObj d) k = (case map_of d k of None \<Rightarrow> JNull | Some v \<Rightarrow> v)"
| "jget _ k = JNull"

fun is_obj :: "json \<Rightarrow> bool" where
  "is_obj (JObj _) = True"
| "is_obj _ = False"

fun jstr :: "json \<Rightarrow> string option" where
  "jstr (JStr s) = Some s"
| "jstr _ = None"

text \<open>\<open>type(x) is int\<close>: a \<open>bool\<close> is not one.\<close>

fun jint :: "json \<Rightarrow> int option" where
  "jint (JInt n) = Some n"
| "jint _ = None"

text \<open>\<open>d.get(k, default)\<close>.\<close>

definition jget_default :: "json \<Rightarrow> string \<Rightarrow> json \<Rightarrow> json" where
  "jget_default j k d = (case j of JObj o' \<Rightarrow> (case map_of o' k of None \<Rightarrow> d | Some v \<Rightarrow> v) | _ \<Rightarrow> d)"

text \<open>\<open>not x\<close>, and what a \<open>for\<close> loop or \<open>list(x)\<close> sees of a value (\<open>None\<close>: it is not iterable).\<close>

fun falsy :: "json \<Rightarrow> bool" where
  "falsy JNull = True"
| "falsy (JBool b) = (\<not> b)"
| "falsy (JInt n) = (n = 0)"
| "falsy (JFloat x) = (x = 0)"
| "falsy (JStr s) = (s = [])"
| "falsy (JList xs) = (xs = [])"
| "falsy (JObj d) = (d = [])"

fun py_iter :: "json \<Rightarrow> json list option" where
  "py_iter (JList xs) = Some xs"
| "py_iter (JStr s) = Some (map (\<lambda>c. JStr [c]) s)"
| "py_iter (JObj d) = Some (map (\<lambda>(k, v). JStr k) d)"
| "py_iter _ = None"

text \<open>A list comprehension whose elements may raise.\<close>

fun traverse :: "('a \<Rightarrow> 'e + 'b) \<Rightarrow> 'a list \<Rightarrow> 'e + 'b list" where
  "traverse f [] = Inr []"
| "traverse f (x # xs) =
     (case f x of
        Inl e \<Rightarrow> Inl e
      | Inr y \<Rightarrow> (case traverse f xs of Inl e \<Rightarrow> Inl e | Inr ys \<Rightarrow> Inr (y # ys)))"

lemma traverse_Inr: "traverse f xs = Inr ys \<Longrightarrow> list_all2 (\<lambda>x y. f x = Inr y) xs ys"
  by (induction xs arbitrary: ys) (auto split: sum.splits)

lemma traverse_map: "(\<And>x. x \<in> set xs \<Longrightarrow> f (g x) = Inr x) \<Longrightarrow> traverse f (map g xs) = Inr xs"
  by (induction xs) auto

lemma jget_update [simp]:
  "jget (JObj (AList.update k v d)) k' = (if k' = k then v else jget (JObj d) k')"
  by simp

end
