(* ===== verification/Coordination.thy ===== *)
theory Coordination
  imports CoordMarkers PyJson
begin

text \<open>
  \<open>app/coordination_logic.py\<close>: coordination threads kept in Gitea issues and comments. The Gitea client
  is a parameter: a record of calls on a state \<open>'g\<close> that may change at every call (other writers
  included); each returns a JSON value or raises. A coroutine of the module is a function on that state
  (\<open>gitea\<close>, with \<open>g_bind\<close> for the sequence of calls); its exceptions are values, the cancellation of the task
  (\<open>CallCancelled\<close>), which \<open>except Exception\<close> does not catch, among them. SHA-256 of the canonical dump of a
  JSON value is the parameter \<open>digest\<close>. The client returns objects where it documents objects.

  The lemmas: what a write sends was admitted by the transition table and the uniqueness of the key, over a
  complete history; what it reports as done was read back.
\<close>

subsection \<open>Calls, errors, sequencing\<close>

datatype coord_error =
    CoordValueError string
  | CloseRefused string string
  | OutcomeUnknown string
  | ApiPermissionError
  | ApiError
  | DiskError
  | CallCancelled

type_synonym ('g, 'a) gitea = "'g \<Rightarrow> (coord_error + 'a) \<times> 'g"

definition g_ret :: "'a \<Rightarrow> ('g, 'a) gitea" where
  "g_ret x g = (Inr x, g)"

definition g_raise :: "coord_error \<Rightarrow> ('g, 'a) gitea" where
  "g_raise e g = (Inl e, g)"

definition g_bind :: "('g, 'a) gitea \<Rightarrow> ('a \<Rightarrow> ('g, 'b) gitea) \<Rightarrow> ('g, 'b) gitea" where
  "g_bind m f g = (case m g of (Inl e, g') \<Rightarrow> (Inl e, g') | (Inr x, g') \<Rightarrow> f x g')"

record 'g gitea_client =
  gc_list_issues :: "string \<Rightarrow> string \<Rightarrow> nat \<Rightarrow> ('g, json) gitea"
  gc_get_issue :: "string \<Rightarrow> string \<Rightarrow> int \<Rightarrow> ('g, json) gitea"
  gc_list_timeline :: "string \<Rightarrow> string \<Rightarrow> int \<Rightarrow> nat \<Rightarrow> ('g, json) gitea"
  gc_get_user :: "('g, json) gitea"
  gc_create_issue :: "string \<Rightarrow> string \<Rightarrow> string \<Rightarrow> string \<Rightarrow> ('g, json) gitea"
  gc_create_comment :: "string \<Rightarrow> string \<Rightarrow> int \<Rightarrow> string \<Rightarrow> ('g, json) gitea"
  gc_close_issue :: "string \<Rightarrow> string \<Rightarrow> int \<Rightarrow> ('g, json) gitea"

definition PAGE_SIZE :: nat where
  "PAGE_SIZE = 50"

definition MAX_PAGES :: nat where
  "MAX_PAGES = 10"

definition WRITE_MAX_PAGES :: nat where
  "WRITE_MAX_PAGES = 100"

definition TRANSITIONS :: "(string \<times> string list) list" where
  "TRANSITIONS =
     [(''open'', [''accepted'', ''message'']),
      (''accepted'', [''waiting_review'', ''message'']),
      (''waiting_review'', [''accepted'', ''resolved'', ''message'']),
      (''resolved'', [])]"

definition transition_ok :: "string \<Rightarrow> string \<Rightarrow> bool" where
  "transition_ok s t \<longleftrightarrow> (case map_of TRANSITIONS s of None \<Rightarrow> False | Some ts \<Rightarrow> t \<in> set ts)"

subsection \<open>Arguments\<close>

definition validate_key :: "string \<Rightarrow> coord_error + string" where
  "validate_key v =
     (if valid_key v then Inr v
      else Inl (CoordValueError ''request_key must be 8..100 lowercase alphanumeric/._- characters''))"

definition validate_project :: "string \<Rightarrow> coord_error + string" where
  "validate_project v =
     (if valid_project v then Inr v
      else Inl (CoordValueError ''project must be a registered repository name''))"

definition text_field :: "string \<Rightarrow> string \<Rightarrow> nat \<Rightarrow> coord_error + string" where
  "text_field value name limit =
     (let v = strip value in
      if v = [] \<or> limit < py_len v \<or> CHR 0x00 \<in> set v
      then Inl (CoordValueError (name @ '' must contain 1..'' @ nat_str limit @ '' characters without NUL''))
      else Inr v)"

definition count_char :: "char \<Rightarrow> string \<Rightarrow> nat" where
  "count_char c s = length (filter (\<lambda>d. d = c) s)"

definition resolve_coordination_repo :: "string \<Rightarrow> string \<Rightarrow> json \<Rightarrow> coord_error + string" where
  "resolve_coordination_repo project owner metadata =
     (if \<not> valid_project project \<or> \<not> valid_project owner
      then Inl (CoordValueError ''project must be a registered repository name'')
      else if \<not> is_obj metadata \<or> jget metadata ''type'' = JStr ''candidate-clone''
      then Inl (CoordValueError ''coordination requires a registered source project'')
      else
        (let configured = jget metadata ''gitea_repo'';
             has_root = (case metadata of JObj d \<Rightarrow> map_of d ''root'' \<noteq> None | _ \<Rightarrow> False) in
         if jget metadata ''type'' = JStr ''coordination-only''
            \<and> (has_root \<or> configured \<noteq> JStr (owner @ ''/'' @ project))
         then Inl (CoordValueError ''Gitea-only coordination repo mapping is not verified'')
         else
           (case configured of
              JNull \<Rightarrow> Inr project
            | JStr c \<Rightarrow>
                if count_char (CHR ''/'') c \<noteq> 1
                then Inl (CoordValueError ''registered Gitea repo mapping is invalid'')
                else if before_char (CHR ''/'') c \<noteq> owner
                then Inl (CoordValueError ''registered Gitea repo owner does not match coordination owner'')
                else validate_project (after_char (CHR ''/'') c)
            | _ \<Rightarrow> Inl (CoordValueError ''registered Gitea repo mapping is invalid''))))"

subsection \<open>Issues\<close>

definition parse :: "json \<Rightarrow> string \<Rightarrow> marker option" where
  "parse body kind = (case body of JStr s \<Rightarrow> parse_marker s kind | _ \<Rightarrow> None)"

record thread_item =
  ti_number :: int
  ti_title :: json
  ti_url :: json
  ti_source_project :: string
  ti_request_key :: string
  ti_created_by :: string
  ti_state :: json
  ti_updated_at :: json

definition issue_item :: "json \<Rightarrow> thread_item option" where
  "issue_item issue =
     (if jget issue ''pull_request'' \<noteq> JNull then None
      else
        (case parse (jget issue ''body'') ''issue'' of
           None \<Rightarrow> None
         | Some mk \<Rightarrow>
             (case jint (jget issue ''number'') of
                None \<Rightarrow> None
              | Some n \<Rightarrow>
                  if n \<le> 0 then None
                  else Some \<lparr>ti_number = n, ti_title = jget_default issue ''title'' (JStr []),
                         ti_url = jget issue ''html_url'', ti_source_project = mk_source mk,
                         ti_request_key = mk_key mk, ti_created_by = mk_actor mk,
                         ti_state = jget issue ''state'', ti_updated_at = jget issue ''updated_at''\<rparr>)))"

subsection \<open>Paging\<close>

text \<open>The loop over the pages: the rows, and whether the last page allowed was still full.\<close>

fun pages_loop :: "(nat \<Rightarrow> ('g, json) gitea) \<Rightarrow> nat \<Rightarrow> nat \<Rightarrow> json list \<Rightarrow> ('g, json list \<times> bool) gitea" where
  "pages_loop fetch 0 page acc = g_ret (acc, True)"
| "pages_loop fetch (Suc n) page acc =
     g_bind (fetch page) (\<lambda>j.
       case j of
         JList rows \<Rightarrow>
           if PAGE_SIZE < length rows \<or> list_ex (\<lambda>r. \<not> is_obj r) rows
           then g_raise (CoordValueError ''Gitea collection returned invalid rows'')
           else if length rows < PAGE_SIZE then g_ret (acc @ rows, False)
           else pages_loop fetch n (Suc page) (acc @ rows)
       | _ \<Rightarrow> g_raise (CoordValueError ''Gitea collection returned invalid rows''))"

definition pages :: "(nat \<Rightarrow> ('g, json) gitea) \<Rightarrow> nat \<Rightarrow> bool \<Rightarrow> ('g, json list \<times> bool) gitea" where
  "pages fetch max_pages allow_partial =
     g_bind (pages_loop fetch max_pages 1 []) (\<lambda>(rows, more).
       if \<not> more then g_ret (rows, False)
       else if allow_partial then g_ret (rows, True)
       else g_raise (OutcomeUnknown (''collection exceeds bounded '' @ nat_str (max_pages * PAGE_SIZE)
              @ ''-row reconciliation window'')))"

text \<open>One page of the timeline: the comments so far, the identifiers seen, the last one, and the flags.\<close>

record timeline_scan =
  ts_comments :: "json list"
  ts_seen :: "int list"
  ts_last :: int
  ts_fresh :: nat
  ts_overlap :: bool
  ts_invalid :: bool
  ts_out_of_order :: bool

definition comment_row_ok :: "json \<Rightarrow> bool" where
  "comment_row_ok row \<longleftrightarrow>
     jstr (jget row ''body'') \<noteq> None \<and> is_obj (jget row ''user'')
     \<and> (case jstr (jget (jget row ''user'') ''login'') of None \<Rightarrow> False | Some l \<Rightarrow> l \<noteq> [])"

definition timeline_row :: "bool \<Rightarrow> json \<Rightarrow> timeline_scan \<Rightarrow> timeline_scan" where
  "timeline_row verified_no_comments row s =
     (case (jint (jget row ''id''), jstr (jget row ''type'')) of
        (Some i, Some event_type) \<Rightarrow>
          if i < 1 \<or> event_type = [] then s\<lparr>ts_invalid := True\<rparr>
          else if i \<in> set (ts_seen s) then s\<lparr>ts_overlap := True\<rparr>
          else
            (let s' = s\<lparr>ts_out_of_order := ts_out_of_order s \<or> i \<le> ts_last s, ts_seen := i # ts_seen s,
                       ts_last := i, ts_fresh := Suc (ts_fresh s)\<rparr> in
             if event_type \<noteq> ''comment'' then s'
             else if verified_no_comments \<or> \<not> comment_row_ok row then s'\<lparr>ts_invalid := True\<rparr>
             else s'\<lparr>ts_comments := ts_comments s' @ [row]\<rparr>)
      | _ \<Rightarrow> s\<lparr>ts_invalid := True\<rparr>)"

definition timeline_reason :: "timeline_scan \<Rightarrow> string option" where
  "timeline_reason s =
     (if ts_invalid s then Some ''unverifiable_timeline_event''
      else if ts_overlap s then
        Some (if ts_fresh s = 0 then ''non_progressing_comment_cursor'' else ''overlapping_comment_pages'')
      else if ts_out_of_order s then Some ''non_monotonic_comment_cursor''
      else None)"

record timeline =
  tl_comments :: "json list"
  tl_truncated :: bool
  tl_reason :: "string option"
  tl_pages :: nat

definition page_rows :: "bool \<Rightarrow> json \<Rightarrow> json" where
  "page_rows verified_no_comments j = (if j = JNull \<and> verified_no_comments then JList [] else j)"

fun timeline_loop ::
    "(nat \<Rightarrow> ('g, json) gitea) \<Rightarrow> bool \<Rightarrow> bool \<Rightarrow> nat \<Rightarrow> nat \<Rightarrow> nat \<Rightarrow> json list \<Rightarrow> int list \<Rightarrow> int
      \<Rightarrow> ('g, timeline) gitea" where
  "timeline_loop fetch partial verified max_pages 0 page comments seen prv =
     (if partial
      then g_ret \<lparr>tl_comments = comments, tl_truncated = True, tl_reason = Some ''bounded_comment_window'',
                  tl_pages = max_pages\<rparr>
      else g_raise (OutcomeUnknown (''collection exceeds bounded '' @ nat_str (max_pages * PAGE_SIZE)
             @ ''-row reconciliation window'')))"
| "timeline_loop fetch partial verified max_pages (Suc n) page comments seen prv =
     g_bind (fetch page) (\<lambda>j.
       case page_rows verified j of
         JNull \<Rightarrow>
           if partial
           then g_ret \<lparr>tl_comments = comments, tl_truncated = True,
                       tl_reason = Some ''unverifiable_null_timeline_page'', tl_pages = page\<rparr>
           else g_raise (OutcomeUnknown ''Gitea timeline returned null with unverified comment history'')
       | JList rows \<Rightarrow>
           if PAGE_SIZE < length rows \<or> list_ex (\<lambda>r. \<not> is_obj r) rows
           then g_raise (CoordValueError ''Gitea timeline returned invalid rows'')
           else
             (let s = fold (timeline_row verified) rows
                    \<lparr>ts_comments = comments, ts_seen = seen, ts_last = prv, ts_fresh = 0,
                     ts_overlap = False, ts_invalid = False, ts_out_of_order = False\<rparr> in
              case timeline_reason s of
                Some reason \<Rightarrow>
                  if partial
                  then g_ret \<lparr>tl_comments = ts_comments s, tl_truncated = True, tl_reason = Some reason,
                              tl_pages = page\<rparr>
                  else g_raise (OutcomeUnknown (''collection exceeds bounded '' @ nat_str (max_pages * PAGE_SIZE)
                         @ ''-row reconciliation window or Gitea timeline cursor is invalid ('' @ reason @ '')''))
              | None \<Rightarrow>
                  if length rows < PAGE_SIZE
                  then g_ret \<lparr>tl_comments = ts_comments s, tl_truncated = False, tl_reason = None, tl_pages = page\<rparr>
                  else timeline_loop fetch partial verified max_pages n (Suc page)
                         (ts_comments s) (ts_seen s) (ts_last s))
       | _ \<Rightarrow> g_raise (CoordValueError ''Gitea timeline returned invalid rows''))"

definition timeline_comment_pages ::
    "(nat \<Rightarrow> ('g, json) gitea) \<Rightarrow> nat \<Rightarrow> bool \<Rightarrow> bool \<Rightarrow> ('g, timeline) gitea" where
  "timeline_comment_pages fetch max_pages allow_partial verified_no_comments =
     timeline_loop fetch allow_partial verified_no_comments max_pages max_pages 1 [] [] 0"

subsection \<open>The board\<close>

definition BOARD_COLUMNS :: "(string \<times> string) list" where
  "BOARD_COLUMNS =
     [(''open'',
        [CHR 0xD0, CHR 0x92, CHR 0xD1, CHR 0x85, CHR 0xD0, CHR 0xBE, CHR 0xD0, CHR 0xB4,
        CHR 0xD1, CHR 0x8F, CHR 0xD1, CHR 0x89, CHR 0xD0, CHR 0xB8, CHR 0xD0, CHR 0xB5]),
      (''accepted'',
        [CHR 0xD0, CHR 0x92, CHR 0x20, CHR 0xD1, CHR 0x80, CHR 0xD0, CHR 0xB0, CHR 0xD0,
        CHR 0xB1, CHR 0xD0, CHR 0xBE, CHR 0xD1, CHR 0x82, CHR 0xD0, CHR 0xB5]),
      (''waiting_review'',
        [CHR 0xD0, CHR 0x9E, CHR 0xD0, CHR 0xB6, CHR 0xD0, CHR 0xB8, CHR 0xD0, CHR 0xB4,
        CHR 0xD0, CHR 0xB0, CHR 0xD0, CHR 0xB5, CHR 0xD1, CHR 0x82, CHR 0x20, CHR 0xD0,
        CHR 0xBF, CHR 0xD1, CHR 0x80, CHR 0xD0, CHR 0xBE, CHR 0xD0, CHR 0xB2, CHR 0xD0,
        CHR 0xB5, CHR 0xD1, CHR 0x80, CHR 0xD0, CHR 0xBA, CHR 0xD0, CHR 0xB8]),
      (''resolved'',
        [CHR 0xD0, CHR 0xA0, CHR 0xD0, CHR 0xB5, CHR 0xD1, CHR 0x88, CHR 0xD0, CHR 0xB5,
        CHR 0xD0, CHR 0xBD, CHR 0xD0, CHR 0xBE])]"

record board_card =
  bc_number :: int
  bc_title :: json
  bc_url :: json
  bc_source_project :: string
  bc_request_key :: string
  bc_updated_at :: json
  bc_gitea_issue_state :: json

record board_column =
  bd_state :: string
  bd_label :: string
  bd_count :: nat
  bd_cards :: "board_card list"

definition card_of :: "thread_item \<Rightarrow> board_card" where
  "card_of t = \<lparr>bc_number = ti_number t, bc_title = ti_title t, bc_url = ti_url t,
     bc_source_project = ti_source_project t, bc_request_key = ti_request_key t,
     bc_updated_at = ti_updated_at t, bc_gitea_issue_state = ti_state t\<rparr>"

text \<open>The threads come with their coordination state, \<open>None\<close> when it could not be read.\<close>

fun group_threads ::
    "(thread_item \<times> string option) list \<Rightarrow> (string \<times> board_card list) list
      \<Rightarrow> coord_error + (string \<times> board_card list) list" where
  "group_threads [] grouped = Inr grouped"
| "group_threads ((t, status) # rest) grouped =
     (case status of
        None \<Rightarrow> Inl (CoordValueError ''Gitea thread has an invalid coordination state'')
      | Some st \<Rightarrow>
          (case map_of grouped st of
             None \<Rightarrow> Inl (CoordValueError ''Gitea thread has an invalid coordination state'')
           | Some cards \<Rightarrow> group_threads rest (AList.update st (cards @ [card_of t]) grouped)))"

definition board_from_threads :: "(thread_item \<times> string option) list \<Rightarrow> coord_error + board_column list" where
  "board_from_threads threads =
     (case group_threads threads (map (\<lambda>(st, _). (st, [])) BOARD_COLUMNS) of
        Inl e \<Rightarrow> Inl e
      | Inr grouped \<Rightarrow>
          Inr (map (\<lambda>(st, label). let cards = the (map_of grouped st) in
                 \<lparr>bd_state = st, bd_label = label, bd_count = length cards, bd_cards = cards\<rparr>) BOARD_COLUMNS))"

subsection \<open>Reading threads\<close>

definition list_threads_preview ::
    "'g gitea_client \<Rightarrow> string \<Rightarrow> string \<Rightarrow> ('g, thread_item list \<times> bool) gitea" where
  "list_threads_preview client owner repo =
     g_bind (pages (gc_list_issues client owner repo) MAX_PAGES True) (\<lambda>(rows, truncated).
       g_ret (List.map_filter issue_item rows, truncated))"

definition list_threads :: "'g gitea_client \<Rightarrow> string \<Rightarrow> string \<Rightarrow> ('g, thread_item list) gitea" where
  "list_threads client owner repo =
     g_bind (pages (gc_list_issues client owner repo) WRITE_MAX_PAGES False) (\<lambda>(rows, _).
       g_ret (List.map_filter issue_item rows))"

definition no_comments :: "json \<Rightarrow> bool" where
  "no_comments issue \<longleftrightarrow> jint (jget issue ''comments'') = Some 0"

definition comment_author :: "json \<Rightarrow> string" where
  "comment_author comment = (case jstr (jget (jget comment ''user'') ''login'') of None \<Rightarrow> [] | Some l \<Rightarrow> l)"

definition trusted_login :: "'g gitea_client \<Rightarrow> ('g, string) gitea" where
  "trusted_login client =
     g_bind (gc_get_user client) (\<lambda>identity.
       case jstr (jget identity ''login'') of
         None \<Rightarrow> g_raise (CoordValueError ''Gitea coordination service identity is unavailable'')
       | Some l \<Rightarrow>
           if l = [] then g_raise (CoordValueError ''Gitea coordination service identity is unavailable'')
           else g_ret l)"

definition comment_marker :: "string \<Rightarrow> json \<Rightarrow> marker option" where
  "comment_marker trusted comment =
     (if comment_author comment = trusted then parse (jget_default comment ''body'' (JStr [])) ''event'' else None)"

definition state_step :: "string \<Rightarrow> json \<Rightarrow> string \<Rightarrow> string" where
  "state_step trusted comment state =
     (case comment_marker trusted comment of
        None \<Rightarrow> state
      | Some mk \<Rightarrow> if mk_state mk \<noteq> ''message'' then mk_state mk else state)"

definition preview_thread_state ::
    "'g gitea_client \<Rightarrow> string \<Rightarrow> string \<Rightarrow> int \<Rightarrow> ('g, string option \<times> bool) gitea" where
  "preview_thread_state client owner repo number =
     g_bind (gc_get_issue client owner repo number) (\<lambda>issue.
       if issue_item issue = None then g_raise (CoordValueError ''issue is not a Py Coordination thread'')
       else
         g_bind (timeline_comment_pages (gc_list_timeline client owner repo number) 2 True (no_comments issue)) (\<lambda>tl.
           if tl_truncated tl then g_ret (None, True)
           else g_bind (trusted_login client) (\<lambda>trusted.
             g_ret (Some (fold (state_step trusted) (tl_comments tl) ''open''), False))))"

record history_entry =
  he_id :: json
  he_body :: string
  he_state :: "string option"
  he_request_key :: "string option"
  he_caller :: "string option"
  he_created_at :: json
  he_author :: string

definition body_text :: "json \<Rightarrow> string" where
  "body_text comment = (case jstr (jget_default comment ''body'' (JStr [])) of None \<Rightarrow> [] | Some b \<Rightarrow> b)"

definition history_entry_of :: "string \<Rightarrow> json \<Rightarrow> history_entry" where
  "history_entry_of trusted comment =
     (let mk = comment_marker trusted comment; body = body_text comment in
      \<lparr>he_id = jget comment ''id'',
       he_body = (if mk \<noteq> None then (if newline \<in> set body then after_char newline body else body) else body),
       he_state = map_option mk_state mk, he_request_key = map_option mk_key mk,
       he_caller = map_option mk_actor mk, he_created_at = jget comment ''created_at'',
       he_author = comment_author comment\<rparr>)"

record coord_thread =
  th_item :: thread_item
  th_history :: "history_entry list"
  th_truncated :: bool
  th_coord_state :: "string option"
  th_incomplete :: "(string option \<times> nat) option"
  th_close_content_sha256 :: "string option"
  th_close_state_sha256 :: "string option"

definition state_entry :: "history_entry \<Rightarrow> bool" where
  "state_entry e \<longleftrightarrow> he_state e \<noteq> None \<and> he_state e \<noteq> Some ''message''"

definition latest_state :: "history_entry list \<Rightarrow> string" where
  "latest_state history =
     (case find state_entry (rev history) of None \<Rightarrow> ''open'' | Some e \<Rightarrow> the (he_state e))"

definition content_json :: "json \<Rightarrow> json list \<Rightarrow> json" where
  "content_json issue comments =
     JObj [(''issue'', JObj (map (\<lambda>k. (k, jget issue k)) [''id'', ''number'', ''title'', ''body'', ''pull_request''])),
           (''comments'', JList (map (\<lambda>c.
              JObj (map (\<lambda>k. (k, jget c k)) [''id'', ''body'', ''created_at'', ''updated_at'']
                    @ [(''author'', JStr (comment_author c))])) comments))]"

definition open_thread ::
    "(json \<Rightarrow> string) \<Rightarrow> 'g gitea_client \<Rightarrow> string \<Rightarrow> string \<Rightarrow> int \<Rightarrow> bool \<Rightarrow> ('g, coord_thread) gitea" where
  "open_thread digest client owner repo number allow_partial =
     (if number < 1 then g_raise (CoordValueError ''issue_number must be positive'')
      else
        g_bind (gc_get_issue client owner repo number) (\<lambda>issue.
          case issue_item issue of
            None \<Rightarrow> g_raise (CoordValueError ''issue is not a Py Coordination thread'')
          | Some item \<Rightarrow>
              g_bind (timeline_comment_pages (gc_list_timeline client owner repo number)
                        (if allow_partial then 2 else WRITE_MAX_PAGES) allow_partial (no_comments issue)) (\<lambda>tl.
                g_bind (trusted_login client) (\<lambda>trusted.
                  let history = map (history_entry_of trusted) (tl_comments tl);
                      content = digest (content_json issue (tl_comments tl)) in
                  g_ret
                    \<lparr>th_item = item, th_history = history, th_truncated = tl_truncated tl,
                     th_coord_state = (if tl_truncated tl then None else Some (latest_state history)),
                     th_incomplete = (if allow_partial then Some (tl_reason tl, tl_pages tl) else None),
                     th_close_content_sha256 = (if tl_truncated tl then None else Some content),
                     th_close_state_sha256 =
                       (if tl_truncated tl then None
                        else Some (digest (JObj [(''content'', JStr content), (''state'', jget issue ''state''),
                               (''updated_at'', jget issue ''updated_at'')])))\<rparr>))))"

subsection \<open>Writing\<close>

definition same_issue_payload :: "json \<Rightarrow> string \<Rightarrow> string \<Rightarrow> string \<Rightarrow> string \<Rightarrow> bool" where
  "same_issue_payload raw title source request_key txt =
     (jget raw ''title'' = JStr title
      \<and> (case jget raw ''body'' of
           JStr body \<Rightarrow>
             (case parse_marker body ''issue'' of
                None \<Rightarrow> False
              | Some mk \<Rightarrow> mk_key mk = request_key \<and> mk_source mk = source \<and> after_char newline body = txt)
         | _ \<Rightarrow> False))"

definition same_event_payload :: "history_entry \<Rightarrow> string \<Rightarrow> string \<Rightarrow> bool" where
  "same_event_payload entry state txt \<longleftrightarrow> he_state entry = Some state \<and> he_body entry = txt"

text \<open>\<open>except (PermissionError, ValueError): raise\<close> against \<open>except Exception\<close>.\<close>

definition reraised :: "coord_error \<Rightarrow> bool" where
  "reraised e = (case e of ApiPermissionError \<Rightarrow> True | CoordValueError _ \<Rightarrow> True | CloseRefused _ _ \<Rightarrow> True
     | CallCancelled \<Rightarrow> True | _ \<Rightarrow> False)"

definition swallowed :: "coord_error \<Rightarrow> coord_error \<Rightarrow> coord_error" where
  "swallowed e unknown = (if e = CallCancelled then CallCancelled else unknown)"

record create_result =
  cr_thread :: thread_item
  cr_created :: bool
  cr_reconciled :: bool

definition with_key :: "string \<Rightarrow> thread_item list \<Rightarrow> thread_item list" where
  "with_key key ts = filter (\<lambda>t. ti_request_key t = key) ts"

text \<open>
  After a failed POST: look for the issue by its key. Whatever goes wrong in between is swallowed and the
  outcome is unknown.
\<close>

definition reconcile_issue ::
    "'g gitea_client \<Rightarrow> string \<Rightarrow> string \<Rightarrow> string \<Rightarrow> string \<Rightarrow> string \<Rightarrow> string \<Rightarrow> ('g, create_result) gitea" where
  "reconcile_issue client owner repo source title body key g =
     (let unknown = OutcomeUnknown ''issue write outcome uncertain; do not replay with a new key'' in
      case g_bind (list_threads client owner repo) (\<lambda>ts.
             case with_key key ts of
               [t] \<Rightarrow> g_bind (gc_get_issue client owner repo (ti_number t)) (\<lambda>observed.
                        g_ret (if same_issue_payload observed title source key body then Some t else None))
             | _ \<Rightarrow> g_ret None) g of
        (Inr (Some t), g') \<Rightarrow> (Inr \<lparr>cr_thread = t, cr_created = True, cr_reconciled = True\<rparr>, g')
      | (Inr None, g') \<Rightarrow> (Inl unknown, g')
      | (Inl e, g') \<Rightarrow> (Inl (swallowed e unknown), g'))"

definition create_thread ::
    "'g gitea_client \<Rightarrow> string \<Rightarrow> string \<Rightarrow> string \<Rightarrow> string \<Rightarrow> string \<Rightarrow> string \<Rightarrow> string
      \<Rightarrow> ('g, create_result) gitea" where
  "create_thread client owner repo source_project title0 body0 request_key actor =
     (case (validate_project source_project, text_field title0 ''title'' 160, text_field body0 ''body'' 6000,
            validate_key request_key) of
        (Inl e, _) \<Rightarrow> g_raise e
      | (_, Inl e, _) \<Rightarrow> g_raise e
      | (_, _, Inl e, _) \<Rightarrow> g_raise e
      | (_, _, _, Inl e) \<Rightarrow> g_raise e
      | (Inr source, Inr title, Inr body, Inr key) \<Rightarrow>
          g_bind (list_threads client owner repo) (\<lambda>ts.
            case with_key key ts of
              [] \<Rightarrow>
                (\<lambda>g. case gc_create_issue client owner repo title
                            (header_line ''issue'' key source ''open'' actor @ newline # body) g of
                   (Inl e, g') \<Rightarrow>
                     if reraised e then (Inl e, g') else reconcile_issue client owner repo source title body key g'
                 | (Inr result, g') \<Rightarrow>
                     (case issue_item result of
                        None \<Rightarrow> (Inl (OutcomeUnknown ''issue created but result could not be verified''), g')
                      | Some item \<Rightarrow>
                          if same_issue_payload result title source key body
                          then (Inr \<lparr>cr_thread = item, cr_created = True, cr_reconciled = False\<rparr>, g')
                          else (Inl (OutcomeUnknown ''issue created but result could not be verified''), g')))
            | [t] \<Rightarrow>
                g_bind (gc_get_issue client owner repo (ti_number t)) (\<lambda>previous.
                  if same_issue_payload previous title source key body
                  then g_ret \<lparr>cr_thread = t, cr_created = False, cr_reconciled = False\<rparr>
                  else g_raise (CoordValueError ''request_key reused with different issue content''))
            | _ \<Rightarrow> g_raise (OutcomeUnknown ''request_key matches more than one Gitea issue'')))"

datatype event_result =
    EventRead history_entry bool bool
  | EventCreated json string

definition event_entries :: "string \<Rightarrow> coord_thread \<Rightarrow> history_entry list" where
  "event_entries key th = filter (\<lambda>e. he_request_key e = Some key) (th_history th)"

definition reconcile_event ::
    "(json \<Rightarrow> string) \<Rightarrow> 'g gitea_client \<Rightarrow> string \<Rightarrow> string \<Rightarrow> int \<Rightarrow> string \<Rightarrow> string \<Rightarrow> string
      \<Rightarrow> ('g, event_result) gitea" where
  "reconcile_event digest client owner repo number txt key state g =
     (let unknown = OutcomeUnknown ''comment write outcome uncertain; do not replay with a new key'' in
      case open_thread digest client owner repo number False g of
        (Inl e, g') \<Rightarrow> (Inl (swallowed e unknown), g')
      | (Inr refreshed, g') \<Rightarrow>
          (case event_entries key refreshed of
             [e] \<Rightarrow> if same_event_payload e state txt then (Inr (EventRead e True True), g') else (Inl unknown, g')
           | _ \<Rightarrow> (Inl unknown, g')))"

definition event_verified :: "json \<Rightarrow> string \<Rightarrow> string \<Rightarrow> string \<Rightarrow> bool" where
  "event_verified result key state txt =
     (case parse (jget result ''body'') ''event'' of
        None \<Rightarrow> False
      | Some mk \<Rightarrow> mk_key mk = key \<and> mk_state mk = state
          \<and> (case jstr (jget_default result ''body'' (JStr [])) of
               None \<Rightarrow> False | Some b \<Rightarrow> after_char newline b = txt))"

definition write_event ::
    "(json \<Rightarrow> string) \<Rightarrow> 'g gitea_client \<Rightarrow> string \<Rightarrow> string \<Rightarrow> int \<Rightarrow> string \<Rightarrow> string \<Rightarrow> string \<Rightarrow> string
      \<Rightarrow> ('g, event_result) gitea" where
  "write_event digest client owner repo number txt0 request_key state actor =
     (case (text_field txt0 ''message'' 6000, validate_key request_key) of
        (Inl e, _) \<Rightarrow> g_raise e
      | (_, Inl e) \<Rightarrow> g_raise e
      | (Inr txt, Inr key) \<Rightarrow>
          if state \<notin> set COORD_STATES then g_raise (CoordValueError ''unknown coordination state'')
          else
            g_bind (open_thread digest client owner repo number False) (\<lambda>thread.
              case event_entries key thread of
                [] \<Rightarrow>
                  if \<not> (case th_coord_state thread of None \<Rightarrow> False | Some s \<Rightarrow> transition_ok s state)
                  then g_raise (CoordValueError ''invalid coordination state transition'')
                  else
                    (\<lambda>g. case gc_create_comment client owner repo number
                                (header_line ''event'' key [] state actor @ newline # txt) g of
                       (Inl e, g') \<Rightarrow>
                         if reraised e then (Inl e, g')
                         else reconcile_event digest client owner repo number txt key state g'
                     | (Inr result, g') \<Rightarrow>
                         if event_verified result key state txt
                         then (Inr (EventCreated (jget result ''id'') state), g')
                         else (Inl (OutcomeUnknown ''comment created but result could not be verified''), g'))
              | [e] \<Rightarrow>
                  if same_event_payload e state txt then g_ret (EventRead e False False)
                  else g_raise (CoordValueError ''request_key reused with different event content'')
              | _ \<Rightarrow> g_raise (CoordValueError ''request_key reused with different event content'')))"

subsection \<open>What a write sends\<close>

text \<open>
  The client with a record of its mutations: the state is paired with the list of comments posted and of
  issues closed so far. Reads leave the record as it is.
\<close>

datatype mutation = PostIssue string string | PostComment int string | CloseIssue int

definition lift_read :: "('g, 'a) gitea \<Rightarrow> ('g \<times> mutation list, 'a) gitea" where
  "lift_read m gl = (case m (fst gl) of (r, g') \<Rightarrow> (r, (g', snd gl)))"

definition lift_write :: "mutation \<Rightarrow> ('g, 'a) gitea \<Rightarrow> ('g \<times> mutation list, 'a) gitea" where
  "lift_write w m gl = (case m (fst gl) of (r, g') \<Rightarrow> (r, (g', snd gl @ [w])))"

definition logged :: "'g gitea_client \<Rightarrow> ('g \<times> mutation list) gitea_client" where
  "logged c =
     \<lparr>gc_list_issues = (\<lambda>owner repo page. lift_read (gc_list_issues c owner repo page)),
      gc_get_issue = (\<lambda>owner repo n. lift_read (gc_get_issue c owner repo n)),
      gc_list_timeline = (\<lambda>owner repo n page. lift_read (gc_list_timeline c owner repo n page)),
      gc_get_user = lift_read (gc_get_user c),
      gc_create_issue = (\<lambda>owner repo title body. lift_write (PostIssue title body) (gc_create_issue c owner repo title body)),
      gc_create_comment = (\<lambda>owner repo n body. lift_write (PostComment n body) (gc_create_comment c owner repo n body)),
      gc_close_issue = (\<lambda>owner repo n. lift_write (CloseIssue n) (gc_close_issue c owner repo n))\<rparr>"

text \<open>A coroutine that mutates nothing.\<close>

definition quiet :: "('g \<times> mutation list, 'a) gitea \<Rightarrow> bool" where
  "quiet m \<longleftrightarrow> (\<forall>gl. snd (snd (m gl)) = snd gl)"

lemma quietD: "quiet m \<Longrightarrow> m gl = (r, gl') \<Longrightarrow> snd gl' = snd gl"
  unfolding quiet_def by (metis snd_conv)

lemma quiet_ret [intro!]: "quiet (g_ret x)"
  by (simp add: quiet_def g_ret_def)

lemma quiet_raise [intro!]: "quiet (g_raise e)"
  by (simp add: quiet_def g_raise_def)

lemma quiet_lift_read [intro!]: "quiet (lift_read m)"
  by (simp add: quiet_def lift_read_def split: prod.split)

lemma quiet_bind [intro!]: "quiet m \<Longrightarrow> (\<And>x. quiet (f x)) \<Longrightarrow> quiet (g_bind m f)"
  by (auto simp: quiet_def g_bind_def split: prod.split sum.split) (metis snd_conv)+

lemma quiet_logged [intro!]:
  "quiet (gc_list_issues (logged c) owner repo page)" "quiet (gc_get_issue (logged c) owner repo n)"
  "quiet (gc_list_timeline (logged c) owner repo n page)" "quiet (gc_get_user (logged c))"
  by (simp_all add: logged_def quiet_lift_read)

lemma quiet_pages_loop: "(\<And>page. quiet (fetch page)) \<Longrightarrow> quiet (pages_loop fetch n page acc)"
  by (induction n arbitrary: page acc) (auto split: json.split)

lemma quiet_pages [intro!]: "(\<And>page. quiet (fetch page)) \<Longrightarrow> quiet (pages fetch n partial)"
  unfolding pages_def by (rule quiet_bind [OF quiet_pages_loop]) (auto split: prod.split)

lemma quiet_timeline_loop:
  "(\<And>page. quiet (fetch page)) \<Longrightarrow> quiet (timeline_loop fetch partial verified mp n page comments seen prv)"
  by (induction n arbitrary: page comments seen prv)
    (auto simp: Let_def split: json.split option.split)

lemma quiet_timeline [intro!]:
  "(\<And>page. quiet (fetch page)) \<Longrightarrow> quiet (timeline_comment_pages fetch mp partial verified)"
  unfolding timeline_comment_pages_def by (rule quiet_timeline_loop)

lemma quiet_trusted_login [intro!]: "quiet (trusted_login (logged c))"
  unfolding trusted_login_def by (auto split: option.split)

lemma quiet_open_thread [intro!]: "quiet (open_thread digest (logged c) owner repo number partial)"
  unfolding open_thread_def Let_def by (auto split: option.split)

lemma quiet_list_threads [intro!]: "quiet (list_threads (logged c) owner repo)"
  unfolding list_threads_def by (auto split: prod.split)

lemma g_bind_InrE [elim!]:
  assumes "g_bind m f g = (Inr y, g')"
  obtains x g1 where "m g = (Inr x, g1)" "f x g1 = (Inr y, g')"
  using assms by (auto simp: g_bind_def split: prod.splits sum.splits)

lemma g_ret_eq [simp]: "g_ret x g = (r, g') \<longleftrightarrow> r = Inr x \<and> g' = g"
  by (auto simp: g_ret_def)

lemma g_raise_eq [simp]: "g_raise e g = (r, g') \<longleftrightarrow> r = Inl e \<and> g' = g"
  by (auto simp: g_raise_def)

text \<open>The exhaustive read is never truncated, so its state is known.\<close>

lemma timeline_loop_complete:
  "timeline_loop fetch False verified mp n page comments seen prv g = (Inr scan, g') \<Longrightarrow> \<not> tl_truncated scan"
proof (induction n arbitrary: page comments seen prv g)
  case 0
  then show ?case by simp
next
  case (Suc n)
  then show ?case
    by (auto simp: Let_def split: json.splits if_splits option.splits)
qed

lemma open_thread_complete:
  assumes "open_thread digest c owner repo number False g = (Inr th, g')"
  shows "\<not> th_truncated th \<and> th_coord_state th = Some (latest_state (th_history th))"
  using assms unfolding open_thread_def timeline_comment_pages_def
  by (auto simp: Let_def dest!: timeline_loop_complete split: if_splits option.splits)

lemma reconcile_event_result:
  assumes "reconcile_event digest c owner repo number txt key state g = (Inr res, g')"
  shows "\<exists>e. res = EventRead e True True \<and> he_request_key e = Some key \<and> same_event_payload e state txt"
proof -
  obtain r g1 where o1: "open_thread digest c owner repo number False g = (r, g1)"
    by (cases "open_thread digest c owner repo number False g")
  obtain th where r: "r = Inr th" using assms o1 by (cases r) (auto simp: reconcile_event_def Let_def)
  then obtain e where e: "event_entries key th = [e]" "same_event_payload e state txt" "res = EventRead e True True"
    using assms o1 by (auto simp: reconcile_event_def Let_def split: list.splits if_splits)
  then have "he_request_key e = Some key"
    using list.set_intros(1) [of e "[]"] unfolding e(1) [symmetric] event_entries_def by auto
  with e show ?thesis by blast
qed

lemma quiet_reconcile_event: "quiet (reconcile_event digest (logged c) owner repo number txt key state)"
  unfolding quiet_def
proof
  fix gl
  obtain r gl' where o1: "open_thread digest (logged c) owner repo number False gl = (r, gl')"
    by (cases "open_thread digest (logged c) owner repo number False gl")
  have "snd gl' = snd gl" by (rule quietD [OF quiet_open_thread o1])
  then show "snd (snd (reconcile_event digest (logged c) owner repo number txt key state gl)) = snd gl"
    using o1 by (auto simp: reconcile_event_def Let_def split: sum.split list.split)
qed

lemma write_event_refused:
  assumes "(\<exists>er. text_field txt0 ''message'' 6000 = Inl er) \<or> \<not> valid_key key \<or> state \<notin> set COORD_STATES"
  shows "\<exists>e. write_event digest c owner repo number txt0 key state actor g = (Inl e, g)"
  using assms
  by (cases "text_field txt0 ''message'' 6000"; cases "valid_key key") (auto simp: write_event_def validate_key_def g_raise_def)

lemma write_event_unread:
  assumes "text_field txt0 ''message'' 6000 = Inr msg" "valid_key key" "state \<in> set COORD_STATES"
    "open_thread digest c owner repo number False g = (Inl e, g')"
  shows "write_event digest c owner repo number txt0 key state actor g = (Inl e, g')"
  using assms by (simp add: write_event_def validate_key_def g_bind_def)

text \<open>A key the history knows: nothing is sent.\<close>

lemma write_event_replay:
  assumes "text_field txt0 ''message'' 6000 = Inr msg" "valid_key key" "state \<in> set COORD_STATES"
    "open_thread digest c owner repo number False g = (Inr thread, g')" "event_entries key thread \<noteq> []"
  shows "\<exists>res. write_event digest c owner repo number txt0 key state actor g = (res, g')
    \<and> ((\<exists>er. res = Inl er) \<or> (\<exists>e. res = Inr (EventRead e False False) \<and> he_request_key e = Some key \<and> same_event_payload e state msg))"
proof -
  obtain e es where es: "event_entries key thread = e # es" using assms(5) by (cases "event_entries key thread") auto
  then have "he_request_key e = Some key"
    using list.set_intros(1) [of e es] unfolding es [symmetric] event_entries_def by auto
  then show ?thesis
    using assms(1-4) es
    by (cases es) (auto simp: write_event_def validate_key_def g_bind_def g_ret_def g_raise_def)
qed

lemma event_verifiedD:
  "event_verified result key state txt \<Longrightarrow>
     \<exists>mk body. parse (jget result ''body'') ''event'' = Some mk \<and> mk_key mk = key \<and> mk_state mk = state
       \<and> jstr (jget_default result ''body'' (JStr [])) = Some body \<and> after_char newline body = txt"
  by (auto simp: event_verified_def split: option.splits)

text \<open>A new key: nothing is sent, or one comment after which no further mutation follows.\<close>

lemma write_event_new:
  assumes "text_field txt0 ''message'' 6000 = Inr msg" "valid_key key" "state \<in> set COORD_STATES"
    "open_thread digest (logged c) owner repo number False (g, []) = (Inr thread, (g1, []))" "event_entries key thread = []"
  shows "\<exists>res g2 posts. write_event digest (logged c) owner repo number txt0 key state actor (g, []) = (res, (g2, posts))
    \<and> (posts = [] \<and> (\<exists>er. res = Inl er)
       \<or> posts = [PostComment number (header_line ''event'' key [] state actor @ newline # msg)]
         \<and> transition_ok (latest_state (th_history thread)) state
         \<and> ((\<exists>er. res = Inl er)
            \<or> (\<exists>result. gc_create_comment c owner repo number (header_line ''event'' key [] state actor @ newline # msg) g1 = (Inr result, g2)
                 \<and> event_verified result key state msg \<and> res = Inr (EventCreated (jget result ''id'') state))
            \<or> (\<exists>e. res = Inr (EventRead e True True) \<and> he_request_key e = Some key \<and> same_event_payload e state msg)))"
proof (cases "transition_ok (latest_state (th_history thread)) state")
  case False
  then show ?thesis
    using assms open_thread_complete [OF assms(4)] by (simp add: write_event_def validate_key_def g_bind_def g_raise_def)
next
  case True
  let ?p = "header_line ''event'' key [] state actor @ newline # msg"
  obtain r2 g2 where post: "gc_create_comment c owner repo number ?p g1 = (r2, g2)"
    by (cases "gc_create_comment c owner repo number ?p g1")
  then have lp: "gc_create_comment (logged c) owner repo number ?p (g1, []) = (r2, (g2, [PostComment number ?p]))"
    by (simp add: logged_def lift_write_def)
  obtain r3 g3 where rec: "reconcile_event digest (logged c) owner repo number msg key state
      (g2, [PostComment number ?p]) = (r3, (g3, [PostComment number ?p]))"
    using quietD [OF quiet_reconcile_event, of digest c owner repo number msg key state "(g2, [PostComment number ?p])"]
    by (metis prod.collapse snd_conv)
  have "\<exists>e. r3 = Inr (EventRead e True True) \<and> he_request_key e = Some key \<and> same_event_payload e state msg"
    if "r3 = Inr x" for x
    using reconcile_event_result [OF rec [unfolded that]] that by blast
  then show ?thesis
    using assms open_thread_complete [OF assms(4)] True lp post rec
    by (cases r3) (auto simp: write_event_def validate_key_def g_bind_def split: sum.split)
qed

text \<open>C22: A write to a thread posts at most one comment, and only when the complete, freshly read history has
  no event with its key and its latest state admits the new one by the transition table (nothing
  follows \<open>resolved\<close>). A replay of a key posts nothing and is answered from the history, with the same state and
  text or an error. An event reported as created is the one the server returned for that comment, whose header
  carries the key and the state and whose text is the one sent.\<close>

theorem write_event_posts_once:
  "let (res, (g', posts)) = write_event digest (logged c) owner repo number txt0 key state actor (g, []) in
   (posts = [] \<or>
     (\<exists>thread g1 txt. open_thread digest (logged c) owner repo number False (g, []) = (Inr thread, (g1, []))
        \<and> event_entries key thread = [] \<and> transition_ok (latest_state (th_history thread)) state
        \<and> text_field txt0 ''message'' 6000 = Inr txt
        \<and> posts = [PostComment number (header_line ''event'' key [] state actor @ newline # txt)]))
   \<and> (case res of
        Inl _ \<Rightarrow> True
      | Inr (EventCreated i s) \<Rightarrow>
          s = state \<and> (\<exists>g1 g2 txt result mk body. posts = [PostComment number (header_line ''event'' key [] state actor @ newline # txt)]
            \<and> gc_create_comment c owner repo number (header_line ''event'' key [] state actor @ newline # txt) g1 = (Inr result, g2)
            \<and> i = jget result ''id'' \<and> parse (jget result ''body'') ''event'' = Some mk \<and> mk_key mk = key \<and> mk_state mk = state
            \<and> jstr (jget_default result ''body'' (JStr [])) = Some body \<and> after_char newline body = txt)
      | Inr (EventRead e created reconciled) \<Rightarrow>
          he_request_key e = Some key \<and> he_state e = Some state \<and> Inr (he_body e) = text_field txt0 ''message'' 6000
          \<and> created = reconciled \<and> (posts = [] \<or> created))"
proof -
  show ?thesis
  proof (cases "(\<exists>er. text_field txt0 ''message'' 6000 = Inl er) \<or> \<not> valid_key key \<or> state \<notin> set COORD_STATES")
    case True
    then obtain e where "write_event digest (logged c) owner repo number txt0 key state actor (g, []) = (Inl e, (g, []))"
      using write_event_refused [OF True, of digest "logged c" owner repo number actor "(g, [])"] by blast
    then show ?thesis by simp
  next
    case False
    then obtain msg where v: "text_field txt0 ''message'' 6000 = Inr msg" "valid_key key" "state \<in> set COORD_STATES"
      by (cases "text_field txt0 ''message'' 6000") auto
    obtain r g1 where o1: "open_thread digest (logged c) owner repo number False (g, []) = (r, (g1, []))"
      using quietD [OF quiet_open_thread, of digest c owner repo number False "(g, [])"] by (metis prod.collapse snd_conv)
    show ?thesis
    proof (cases r)
      case (Inl e)
      then show ?thesis using write_event_unread [OF v, of digest "logged c"] o1 by simp
    next
      case (Inr thread)
      note o1 = o1 [unfolded Inr]
      show ?thesis
      proof (cases "event_entries key thread = []")
        case True
        from write_event_new [OF v o1 True, of actor] show ?thesis
          using o1 True v(1) by (auto simp: same_event_payload_def) (blast dest: event_verifiedD)+
      next
        case False
        from write_event_replay [OF v o1 False, of actor] show ?thesis
          using v(1) by (auto simp: same_event_payload_def)
      qed
    qed
  qed
qed

end
