(* ===== verification/CoordClose.thy ===== *)
theory CoordClose
  imports Coordination
begin

text \<open>
  \<open>app/coordination_close.py\<close>: the explicit close of a thread. The state is the world of the Gitea client
  beside the journal of the issue: its receipt files by name (the hash of the request key), each a JSON
  object as written by \<open>_save\<close>. Replacing a file is atomic, but a save may raise \<open>OSError\<close> before it or after it (\<open>disk\<close>
  decides for each save), and the task may be cancelled in any call of the client; a file that is too long or not
  JSON is a \<open>receipt_file\<close> the reader refuses. \<open>lock_free\<close> is what the nonblocking \<open>flock\<close> answers. The audit callback may fail; it does not touch
  the journal.
\<close>

record receipt_file =
  rf_json :: "json option"
  rf_oversized :: bool

type_synonym journal = "(string \<times> receipt_file) list"

type_synonym 'g close_world = "'g \<times> journal"

definition api :: "('g, 'a) gitea \<Rightarrow> ('g close_world, 'a) gitea" where
  "api m w = (case m (fst w) of (r, g') \<Rightarrow> (r, (g', snd w)))"

definition hex_text :: "nat \<Rightarrow> string \<Rightarrow> bool" where
  "hex_text n s \<longleftrightarrow> rx_fullmatch no_flags (RRep True n (Some n) (RSet False HEX_CLASS)) s \<noteq> None"

text \<open>\<open>str(v)\<close> of the values that can look like a digest.\<close>

fun json_text :: "json \<Rightarrow> string" where
  "json_text (JStr s) = s"
| "json_text (JInt n) = (if 0 \<le> n then nat_str (nat n) else ''-'' @ nat_str (nat (- n)))"
| "json_text _ = ''None''"

definition receipt_ok :: "json \<Rightarrow> bool" where
  "receipt_ok r \<longleftrightarrow>
     is_obj r \<and> jget r ''version'' \<in> {JInt 1, JBool True, JFloat 1}
     \<and> jget r ''phase'' \<in> {JStr ''dispatched'', JStr ''confirmed'', JStr ''rejected''}
     \<and> list_all (\<lambda>k. hex_text 64 (json_text (jget r k))) [''payload_sha256'', ''content_sha256'', ''report_sha256'']
     \<and> (case jint (jget r ''resolution_event_id'') of None \<Rightarrow> False | Some n \<Rightarrow> 1 \<le> n)
     \<and> hex_text 16 (json_text (jget r ''actor''))"

definition read_receipt :: "string \<Rightarrow> ('g close_world, json option) gitea" where
  "read_receipt path w =
     (case map_of (snd w) path of
        None \<Rightarrow> (Inr None, w)
      | Some f \<Rightarrow>
          (case rf_json f of
             None \<Rightarrow> (Inl (CloseRefused ''RECEIPT_UNAVAILABLE'' ''Close receipt is unreadable''), w)
           | Some r \<Rightarrow>
               if rf_oversized f \<or> \<not> receipt_ok r
               then (Inl (CloseRefused ''RECEIPT_UNAVAILABLE'' ''Close receipt is invalid''), w)
               else (Inr (Some r), w)))"

datatype save_answer = Saved | SaveFailed | SavedThenFailed

type_synonym disk = "journal \<Rightarrow> string \<Rightarrow> json \<Rightarrow> save_answer"

definition stored :: "string \<Rightarrow> json \<Rightarrow> journal \<Rightarrow> journal" where
  "stored path r jr = AList.update path \<lparr>rf_json = Some r, rf_oversized = False\<rparr> jr"

definition save_receipt :: "disk \<Rightarrow> string \<Rightarrow> json \<Rightarrow> ('g close_world, unit) gitea" where
  "save_receipt disk path r w =
     (case disk (snd w) path r of
        Saved \<Rightarrow> (Inr (), (fst w, stored path r (snd w)))
      | SaveFailed \<Rightarrow> (Inl DiskError, w)
      | SavedThenFailed \<Rightarrow> (Inl DiskError, (fst w, stored path r (snd w))))"

definition set_phase :: "string \<Rightarrow> json \<Rightarrow> json" where
  "set_phase phase r = (case r of JObj d \<Rightarrow> JObj (AList.update ''phase'' (JStr phase) d) | _ \<Rightarrow> r)"

definition close_report :: "coord_thread \<Rightarrow> int \<Rightarrow> coord_error + history_entry" where
  "close_report thread event_id =
     (let states = filter state_entry (th_history thread) in
      if th_coord_state thread \<noteq> Some ''resolved'' \<or> states = []
         \<or> he_id (List.last states) \<noteq> JInt event_id \<or> he_state (List.last states) \<noteq> Some ''resolved''
         \<or> strip (he_body (List.last states)) = []
      then Inl (CloseRefused ''RESOLUTION_REQUIRED'' ''Review the latest trusted resolved report before closing'')
      else Inr (List.last states))"

definition close_confirmed :: "coord_thread \<Rightarrow> json \<Rightarrow> int \<Rightarrow> coord_error + bool" where
  "close_confirmed thread receipt event_id =
     (case close_report thread event_id of
        Inl e \<Rightarrow> Inl e
      | Inr _ \<Rightarrow>
          Inr (ti_state (th_item thread) = JStr ''closed''
               \<and> jget receipt ''content_sha256'' =
                   (case th_close_content_sha256 thread of None \<Rightarrow> JNull | Some h \<Rightarrow> JStr h)))"

definition g_lift :: "coord_error + 'a \<Rightarrow> ('g, 'a) gitea" where
  "g_lift r = (case r of Inl e \<Rightarrow> g_raise e | Inr x \<Rightarrow> g_ret x)"

definition history_json :: "history_entry \<Rightarrow> json" where
  "history_json e =
     (let opt = (\<lambda>x. case x of None \<Rightarrow> JNull | Some s \<Rightarrow> JStr s) in
      JObj [(''id'', he_id e), (''body'', JStr (he_body e)), (''state'', opt (he_state e)),
            (''request_key'', opt (he_request_key e)), (''caller'', opt (he_caller e)),
            (''created_at'', he_created_at e), (''author'', JStr (he_author e))])"

record close_result =
  cl_number :: int
  cl_url :: json
  cl_resolution_event_id :: int
  cl_request_key :: string
  cl_already_closed :: bool
  cl_reconciled :: bool

record close_args =
  ca_owner :: string
  ca_repo :: string
  ca_number :: int
  ca_event_id :: int
  ca_expected_state :: string
  ca_request_key :: string
  ca_reason :: string
  ca_actor :: string

definition check_close_args :: "close_args \<Rightarrow> coord_error + string" where
  "check_close_args a =
     (if \<not> valid_project (ca_owner a) \<or> \<not> valid_project (ca_repo a)
      then Inl (CoordValueError ''project must be a registered repository name'')
      else
        (case (validate_key (ca_request_key a), text_field (ca_reason a) ''reason'' 500) of
           (Inl e, _) \<Rightarrow> Inl e
         | (_, Inl e) \<Rightarrow> Inl e
         | (Inr _, Inr reason) \<Rightarrow>
             if ca_number a < 1 then Inl (CoordValueError ''issue_number must be a positive integer'')
             else if ca_event_id a < 1 then Inl (CoordValueError ''resolution_event_id must be a positive integer'')
             else if \<not> hex_text 64 (ca_expected_state a)
             then Inl (CoordValueError ''expected_state_sha256 must be a 64-character lowercase SHA-256'')
             else if \<not> hex_text 16 (ca_actor a) then Inl ApiPermissionError
             else Inr reason))"

definition payload_hash :: "(json \<Rightarrow> string) \<Rightarrow> close_args \<Rightarrow> string \<Rightarrow> string" where
  "payload_hash digest a reason =
     digest (JList [JStr (ca_owner a), JStr (ca_repo a), JInt (ca_number a), JInt (ca_event_id a),
       JStr (ca_expected_state a), JStr (ca_request_key a), JStr reason])"

definition receipt_path :: "(json \<Rightarrow> string) \<Rightarrow> close_args \<Rightarrow> string" where
  "receipt_path digest a = digest (JStr (ca_request_key a)) @ ''.json''"

text \<open>The loop over the other receipts: a dispatched one must be confirmed by the thread, and is marked.\<close>

fun settle_receipts :: "disk \<Rightarrow> coord_thread \<Rightarrow> string list \<Rightarrow> ('g close_world, unit) gitea" where
  "settle_receipts disk thread [] = g_ret ()"
| "settle_receipts disk thread (path # paths) =
     g_bind (read_receipt path) (\<lambda>other.
       case other of
         None \<Rightarrow> settle_receipts disk thread paths
       | Some r \<Rightarrow>
           if jget r ''phase'' \<noteq> JStr ''dispatched'' then settle_receipts disk thread paths
           else
             g_bind (g_lift (close_confirmed thread r (the (jint (jget r ''resolution_event_id''))))) (\<lambda>ok.
               if \<not> ok
               then g_raise (OutcomeUnknown ''An earlier close is unresolved; inspect the thread before any new operation'')
               else g_bind (save_receipt disk path (set_phase ''confirmed'' r)) (\<lambda>_. settle_receipts disk thread paths)))"

definition new_receipt ::
    "(json \<Rightarrow> string) \<Rightarrow> close_args \<Rightarrow> string \<Rightarrow> coord_thread \<Rightarrow> history_entry \<Rightarrow> json" where
  "new_receipt digest a payload thread report =
     JObj [(''version'', JInt 1), (''payload_sha256'', JStr payload),
           (''content_sha256'', case th_close_content_sha256 thread of None \<Rightarrow> JNull | Some h \<Rightarrow> JStr h),
           (''resolution_event_id'', JInt (ca_event_id a)), (''report_sha256'', JStr (digest (history_json report))),
           (''actor'', JStr (ca_actor a)),
           (''phase'', JStr (if ti_state (th_item thread) = JStr ''closed'' then ''confirmed'' else ''dispatched''))]"

text \<open>
  From the persisted receipt on: the PATCH, then the thread is read again. A permission error marks the
  receipt rejected and is raised, a cancellation ends the call; any other error of the PATCH is only noted.
\<close>

definition dispatch_close ::
    "disk \<Rightarrow> (json \<Rightarrow> string) \<Rightarrow> 'g gitea_client \<Rightarrow> ('g, unit) gitea \<Rightarrow> close_args \<Rightarrow> string \<Rightarrow> json
      \<Rightarrow> ('g close_world, bool) gitea" where
  "dispatch_close disk digest client audit_success a path receipt w =
     (case api (gc_close_issue client (ca_owner a) (ca_repo a) (ca_number a)) w of
        (Inl ApiPermissionError, w1) \<Rightarrow>
          g_bind (save_receipt disk path (set_phase ''rejected'' receipt)) (\<lambda>_. g_raise ApiPermissionError) w1
      | (Inl CallCancelled, w1) \<Rightarrow> (Inl CallCancelled, w1)
      | (patched, w1) \<Rightarrow>
          (let mutation_error = (case patched of Inl _ \<Rightarrow> True | Inr _ \<Rightarrow> False);
               (observed, w2) = api (open_thread digest client (ca_owner a) (ca_repo a) (ca_number a) False) w1;
               confirmed = (case observed of
                  Inl _ \<Rightarrow> False
                | Inr th \<Rightarrow> (case close_confirmed th receipt (ca_event_id a) of Inl _ \<Rightarrow> False | Inr b \<Rightarrow> b))
           in if observed = Inl CallCancelled then (Inl CallCancelled, w2)
              else if \<not> confirmed
              then (Inl (OutcomeUnknown ''Close outcome is not confirmed; inspect the thread, do not resend PATCH''), w2)
              else
                g_bind (save_receipt disk path (set_phase ''confirmed'' receipt))
                  (\<lambda>_ w3. (Inr mutation_error, snd (api audit_success w3))) w2))"

definition close_result_of :: "close_args \<Rightarrow> coord_thread \<Rightarrow> bool \<Rightarrow> bool \<Rightarrow> close_result" where
  "close_result_of a thread already reconciled =
     \<lparr>cl_number = ca_number a, cl_url = ti_url (th_item thread), cl_resolution_event_id = ca_event_id a,
      cl_request_key = ca_request_key a, cl_already_closed = already, cl_reconciled = reconciled\<rparr>"

text \<open>A key with a receipt: only the receipt may be marked.\<close>

definition close_replay ::
    "disk \<Rightarrow> close_args \<Rightarrow> string \<Rightarrow> coord_thread \<Rightarrow> json \<Rightarrow> ('g close_world, close_result) gitea" where
  "close_replay disk a path thread r =
     g_bind (g_lift (close_confirmed thread r (ca_event_id a))) (\<lambda>ok.
       if \<not> ok
       then g_raise (OutcomeUnknown ''Previous close is not confirmed; replay is read-only, inspect the thread'')
       else if jget r ''phase'' \<noteq> JStr ''confirmed''
       then g_bind (save_receipt disk path (set_phase ''confirmed'' r)) (\<lambda>_. g_ret (close_result_of a thread True True))
       else g_ret (close_result_of a thread True True))"

text \<open>A new key, once the other receipts are settled.\<close>

definition close_attempt ::
    "disk \<Rightarrow> (json \<Rightarrow> string) \<Rightarrow> 'g gitea_client \<Rightarrow> (string \<Rightarrow> ('g, unit) gitea) \<Rightarrow> close_args \<Rightarrow> string \<Rightarrow> coord_thread
      \<Rightarrow> json \<Rightarrow> ('g close_world, close_result) gitea" where
  "close_attempt disk digest client audit a path thread receipt =
     (if ti_state (th_item thread) = JStr ''closed''
      then g_bind (save_receipt disk path receipt) (\<lambda>_. g_ret (close_result_of a thread True False))
      else if ti_state (th_item thread) \<noteq> JStr ''open''
      then g_raise (CloseRefused ''STATE_MISMATCH'' ''Issue is neither open nor closed'')
      else
        g_bind (api (audit ''intent'')) (\<lambda>_.
        g_bind (api (open_thread digest client (ca_owner a) (ca_repo a) (ca_number a) False)) (\<lambda>fresh.
        g_bind (g_lift (close_report fresh (ca_event_id a))) (\<lambda>_.
          if th_close_state_sha256 fresh \<noteq> Some (ca_expected_state a)
          then g_raise (CloseRefused ''STATE_MISMATCH'' ''Issue changed before close; review it again'')
          else
            g_bind (save_receipt disk path receipt) (\<lambda>_.
            g_bind (dispatch_close disk digest client (audit ''success'') a path receipt) (\<lambda>err.
              g_ret (close_result_of a thread False err)))))))"

definition close_fresh ::
    "disk \<Rightarrow> (json \<Rightarrow> string) \<Rightarrow> 'g gitea_client \<Rightarrow> (string \<Rightarrow> ('g, unit) gitea) \<Rightarrow> close_args \<Rightarrow> string \<Rightarrow> string
      \<Rightarrow> coord_thread \<Rightarrow> history_entry \<Rightarrow> ('g close_world, close_result) gitea" where
  "close_fresh disk digest client audit a path payload thread report w =
     (if th_close_state_sha256 thread \<noteq> Some (ca_expected_state a)
      then (Inl (CloseRefused ''STATE_MISMATCH'' ''Issue or discussion changed; reopen and review the thread''), w)
      else if 100 < length (snd w)
      then (Inl (CloseRefused ''RECEIPT_UNAVAILABLE'' ''Close reconciliation window exceeded''), w)
      else
        g_bind (settle_receipts disk thread (map fst (snd w))) (\<lambda>_.
          close_attempt disk digest client audit a path thread (new_receipt digest a payload thread report)) w)"

definition close_thread ::
    "disk \<Rightarrow> (json \<Rightarrow> string) \<Rightarrow> 'g gitea_client \<Rightarrow> (string \<Rightarrow> ('g, unit) gitea) \<Rightarrow> bool \<Rightarrow> close_args
      \<Rightarrow> ('g close_world, close_result) gitea" where
  "close_thread disk digest client audit lock_free a =
     (case check_close_args a of
        Inl e \<Rightarrow> g_raise e
      | Inr reason \<Rightarrow>
          if \<not> lock_free then g_raise (CloseRefused ''CLOSE_BUSY'' ''Another close is active for this Issue'')
          else
            (let path = receipt_path digest a; payload = payload_hash digest a reason in
             g_bind (read_receipt path) (\<lambda>prior.
               if (case prior of None \<Rightarrow> False | Some r \<Rightarrow> jget r ''payload_sha256'' \<noteq> JStr payload)
               then g_raise (CloseRefused ''IDEMPOTENCY_CONFLICT'' ''request_key was used with a different close payload'')
               else
                 g_bind (api (open_thread digest client (ca_owner a) (ca_repo a) (ca_number a) False)) (\<lambda>thread.
                 g_bind (g_lift (close_report thread (ca_event_id a))) (\<lambda>report.
                   case prior of
                     Some r \<Rightarrow> close_replay disk a path thread r
                   | None \<Rightarrow> close_fresh disk digest client audit a path payload thread report)))))"

subsection \<open>At most one PATCH\<close>

text \<open>Computations that neither mutate at Gitea nor touch the journal.\<close>

definition reads_only :: "(('g \<times> mutation list) close_world, 'a) gitea \<Rightarrow> bool" where
  "reads_only m \<longleftrightarrow> (\<forall>g ms jr. \<exists>r g'. m ((g, ms), jr) = (r, ((g', ms), jr)))"

lemma reads_only_api: "quiet m \<Longrightarrow> reads_only (api m)"
  unfolding reads_only_def api_def
  by (auto split: prod.split) (metis prod.collapse quietD snd_conv)

lemma reads_only_read_receipt: "reads_only (read_receipt path)"
  by (auto simp: reads_only_def read_receipt_def split: option.split)

lemma reads_only_lift: "reads_only (g_lift r)"
  by (cases r) (auto simp: reads_only_def g_lift_def g_raise_def g_ret_def)

lemma read_bind:
  assumes "reads_only m"
    and "\<And>e g1. Q (Inl e, ((g1, ms), jr))" "\<And>x g1. m ((g, ms), jr) = (Inr x, ((g1, ms), jr)) \<Longrightarrow> Q (f x ((g1, ms), jr))"
  shows "Q (g_bind m f ((g, ms), jr))"
proof -
  obtain r g' where m: "m ((g, ms), jr) = (r, ((g', ms), jr))" using assms(1) unfolding reads_only_def by blast
  then show ?thesis using assms(2) assms(3) by (cases r) (simp_all add: g_bind_def)
qed

lemma save_bind: "g_bind (save_receipt disk path r) f (g, jr) =
    (case disk jr path r of
       Saved \<Rightarrow> f () (g, stored path r jr)
     | SaveFailed \<Rightarrow> (Inl DiskError, (g, jr))
     | SavedThenFailed \<Rightarrow> (Inl DiskError, (g, stored path r jr)))"
  by (simp add: g_bind_def save_receipt_def split: save_answer.split)

definition dispatched :: "receipt_file \<Rightarrow> bool" where
  "dispatched f \<longleftrightarrow> (case rf_json f of None \<Rightarrow> False | Some r \<Rightarrow> jget r ''phase'' = JStr ''dispatched'')"

definition open_attempts :: "journal \<Rightarrow> string set" where
  "open_attempts jr = {k. \<exists>f. map_of jr k = Some f \<and> dispatched f}"

definition receipt_names :: "journal \<Rightarrow> string set" where
  "receipt_names jr = {k. map_of jr k \<noteq> None}"

lemma set_phase_get: "is_obj r \<Longrightarrow> jget (set_phase ph r) ''phase'' = JStr ph"
  by (cases r) (simp_all add: set_phase_def)

lemma open_attempts_stored:
  "open_attempts (stored path r jr) = (if jget r ''phase'' = JStr ''dispatched'' then insert path (open_attempts jr) else open_attempts jr - {path})"
  by (auto simp: open_attempts_def stored_def dispatched_def)

lemma receipt_names_stored [simp]: "receipt_names (stored path r jr) = insert path (receipt_names jr)"
  by (auto simp: receipt_names_def stored_def)

lemma read_receipt_Some:
  "read_receipt path w = (Inr (Some r), w') \<Longrightarrow>
   w' = w \<and> is_obj r \<and> path \<in> receipt_names (snd w) \<and> (path \<in> open_attempts (snd w) \<longleftrightarrow> jget r ''phase'' = JStr ''dispatched'')"
  by (auto simp: read_receipt_def receipt_ok_def receipt_names_def open_attempts_def dispatched_def
      split: option.splits if_splits)

text \<open>Settling the other receipts opens no attempt; when it returns, none of those it looked at is open.\<close>

lemma settle_receipts_post:
  assumes "settle_receipts disk thread paths ((g, ms :: mutation list), jr) = (res, w')"
  shows "fst w' = (g, ms) \<and> receipt_names (snd w') = receipt_names jr \<and> open_attempts (snd w') \<subseteq> open_attempts jr
    \<and> (res = Inr () \<longrightarrow> open_attempts (snd w') \<inter> set paths = {})"
  using assms
proof (induction paths arbitrary: jr)
  case Nil
  then show ?case by auto
next
  case (Cons path paths)
  obtain r g1 where rd: "read_receipt path ((g, ms), jr) = (r, ((g1, ms), jr))"
    using reads_only_read_receipt [of path, unfolded reads_only_def] by metis
  then have g1: "g1 = g" by (auto simp: read_receipt_def split: option.splits if_splits)
  show ?case
  proof (cases r)
    case (Inl e)
    then show ?thesis using Cons.prems rd g1 by (auto simp: g_bind_def)
  next
    case (Inr other)
    have not_open: "path \<notin> open_attempts jr" if "other = None"
      using rd Inr that by (auto simp: read_receipt_def open_attempts_def split: option.splits if_splits)
    show ?thesis
    proof (cases "\<exists>q. other = Some q \<and> jget q ''phase'' = JStr ''dispatched''")
      case False
      have np: "path \<notin> open_attempts jr"
      proof (cases other)
        case None
        then show ?thesis by (rule not_open)
      next
        case (Some q)
        then show ?thesis using read_receipt_Some [of path "((g, ms), jr)" q] rd Inr False by auto
      qed
      have "settle_receipts disk thread paths ((g, ms), jr) = (res, w')"
      proof (cases other)
        case None
        with Cons.prems rd g1 Inr show ?thesis by (simp add: g_bind_def)
      next
        case (Some q)
        then have ph: "jget q ''phase'' \<noteq> JStr ''dispatched''" using False by blast
        have "settle_receipts disk thread (path # paths) ((g, ms), jr) = settle_receipts disk thread paths ((g, ms), jr)"
          unfolding settle_receipts.simps g_bind_def rd Inr Some g1 prod.case sum.case option.case if_P [OF ph] ..
        from this [symmetric] Cons.prems show ?thesis by (rule trans)
      qed
      from Cons.IH [OF this] np show ?thesis by auto
    next
      case True
      then obtain q where q: "other = Some q" "jget q ''phase'' = JStr ''dispatched''" by blast
      have rs: "is_obj q" "path \<in> receipt_names jr"
        using read_receipt_Some [of path "((g, ms), jr)" q] rd Inr q by auto
      let ?jr = "stored path (set_phase ''confirmed'' q) jr"
      have jr: "open_attempts ?jr = open_attempts jr - {path}" "receipt_names ?jr = receipt_names jr"
        using rs set_phase_get [of q "''confirmed''"] by (auto simp: open_attempts_stored)
      consider (stop) e where "res = Inl e" "w' = ((g, ms), jr) \<or> w' = ((g, ms), ?jr)"
        | (go) "settle_receipts disk thread paths ((g, ms), ?jr) = (res, w')"
      proof -
        let ?close = "close_confirmed thread q (the (jint (jget q ''resolution_event_id'')))"
        have "settle_receipts disk thread (path # paths) ((g, ms), jr) =
            g_bind (g_lift ?close) (\<lambda>ok.
               if \<not> ok
               then g_raise (OutcomeUnknown ''An earlier close is unresolved; inspect the thread before any new operation'')
               else g_bind (save_receipt disk path (set_phase ''confirmed'' q)) (\<lambda>_. settle_receipts disk thread paths)) ((g, ms), jr)"
          unfolding settle_receipts.simps g_bind_def rd Inr q(1) g1 prod.case sum.case option.case by (simp only: q(2) simp_thms if_False)
        note run = trans [OF this [symmetric] Cons.prems]
        consider e where "?close = Inl e" | "?close = Inr False" | "?close = Inr True" by (cases ?close) auto
        then show ?thesis
        proof cases
          case 1
          then show ?thesis using run stop by (auto simp: g_bind_def g_lift_def g_raise_def)
        next
          case 2
          then show ?thesis using run stop by (auto simp: g_bind_def g_lift_def g_raise_def g_ret_def)
        next
          case 3
          then have "g_bind (save_receipt disk path (set_phase ''confirmed'' q)) (\<lambda>_. settle_receipts disk thread paths) ((g, ms), jr) = (res, w')"
            using run by (simp add: g_bind_def g_lift_def g_ret_def)
          note run = this [unfolded save_bind]
          show ?thesis
          proof (cases "disk jr path (set_phase ''confirmed'' q)")
            case Saved
            show ?thesis by (rule go) (use run Saved in \<open>simp only: save_answer.case\<close>)
          next
            case SaveFailed
            have "(Inl DiskError, ((g, ms), jr)) = (res, w')" using run unfolding SaveFailed save_answer.case .
            then have "res = Inl DiskError" "w' = ((g, ms), jr)" by (elim Pair_inject, simp only:)+
            then show ?thesis by (rule stop [OF _ disjI1])
          next
            case SavedThenFailed
            have "(Inl DiskError, ((g, ms), ?jr)) = (res, w')" using run unfolding SavedThenFailed save_answer.case .
            then have "res = Inl DiskError" "w' = ((g, ms), ?jr)" by (elim Pair_inject, simp only:)+
            then show ?thesis by (rule stop [OF _ disjI2])
          qed
        qed
      qed
      then show ?thesis
      proof cases
        case stop
        have "fst w' = (g, ms) \<and> receipt_names (snd w') = receipt_names jr \<and> open_attempts (snd w') \<subseteq> open_attempts jr"
          using stop(2) by (elim disjE) (simp_all only: fst_conv snd_conv jr Diff_subset order_refl simp_thms)
        then show ?thesis using stop(1) by simp
      next
        case go
        from Cons.IH [OF go, unfolded jr] show ?thesis by auto
      qed
    qed
  qed
qed

text \<open>
  What a close may do: nothing at Gitea and no new open attempt; or, for a key without a receipt, store its receipt and
  then send at most one PATCH, with no other attempt open.
\<close>

definition close_post :: "string \<Rightarrow> int \<Rightarrow> mutation list \<Rightarrow> journal \<Rightarrow>
    (coord_error + 'a) \<times> ('g \<times> mutation list) close_world \<Rightarrow> bool" where
  "close_post path n ms jr rw \<longleftrightarrow>
     (case rw of (res, ((g, ms'), jr')) \<Rightarrow>
        receipt_names jr \<subseteq> receipt_names jr'
        \<and> (ms' = ms \<and> open_attempts jr' \<subseteq> open_attempts jr
           \<or> (ms' = ms \<or> ms' = ms @ [CloseIssue n]) \<and> path \<notin> receipt_names jr \<and> path \<in> receipt_names jr'
             \<and> open_attempts jr' \<subseteq> {path}))"

lemma close_post_same [simp]: "close_post path n ms jr (res, ((g, ms), jr))"
  by (simp add: close_post_def)

lemma new_receipt_obj: "is_obj (new_receipt digest a payload thread report)"
  by (simp add: new_receipt_def)

lemma save_phase_attempts:
  assumes "open_attempts jr \<subseteq> {path}" "is_obj r" "ph \<noteq> ''dispatched''" "path \<in> receipt_names jr"
  shows "open_attempts (stored path (set_phase ph r) jr) \<subseteq> {path}" "receipt_names (stored path (set_phase ph r) jr) = receipt_names jr"
  using assms set_phase_get [of r ph] by (auto simp: open_attempts_stored)

lemma dispatch_close_post:
  assumes jr: "open_attempts jr \<subseteq> {path}" "path \<in> receipt_names jr" and receipt: "is_obj receipt" and q: "quiet audit"
  shows "\<exists>res g' jr'. dispatch_close disk digest (logged c) audit a path receipt ((g, ms), jr) =
      (res, ((g', ms @ [CloseIssue (ca_number a)]), jr'))
    \<and> receipt_names jr' = receipt_names jr \<and> open_attempts jr' \<subseteq> {path}"
proof -
  let ?ms = "ms @ [CloseIssue (ca_number a)]"
  obtain r g1 where p: "gc_close_issue c (ca_owner a) (ca_repo a) (ca_number a) g = (r, g1)"
    by (cases "gc_close_issue c (ca_owner a) (ca_repo a) (ca_number a) g")
  then have patch: "api (gc_close_issue (logged c) (ca_owner a) (ca_repo a) (ca_number a)) ((g, ms), jr) = (r, ((g1, ?ms), jr))"
    by (simp add: api_def logged_def lift_write_def)
  obtain ob g2 where open1: "api (open_thread digest (logged c) (ca_owner a) (ca_repo a) (ca_number a) False) ((g1, ?ms), jr)
      = (ob, ((g2, ?ms), jr))"
    using reads_only_api [OF quiet_open_thread] unfolding reads_only_def by metis
  note phase = save_phase_attempts [OF jr(1) receipt _ jr(2)]
  obtain x g3 where succ: "api audit ((g2, ?ms), stored path (set_phase ''confirmed'' receipt) jr)
      = (x, ((g3, ?ms), stored path (set_phase ''confirmed'' receipt) jr))"
    using reads_only_api [OF q] unfolding reads_only_def by metis
  consider (denied) "r = Inl ApiPermissionError" | (cancelled) "r = Inl CallCancelled"
    | (go) "r \<noteq> Inl ApiPermissionError" "r \<noteq> Inl CallCancelled" by blast
  then show ?thesis
  proof cases
    case denied
    then show ?thesis
      using patch phase [of "''rejected''"] jr
      by (simp add: dispatch_close_def save_bind g_raise_def split: save_answer.split)
  next
    case cancelled
    then show ?thesis using patch jr by (simp add: dispatch_close_def)
  next
    case go
    let ?conf = "case ob of Inl _ \<Rightarrow> False | Inr th \<Rightarrow> (case close_confirmed th receipt (ca_event_id a) of Inl _ \<Rightarrow> False | Inr b \<Rightarrow> b)"
    have "dispatch_close disk digest (logged c) audit a path receipt ((g, ms), jr) =
        (if ob = Inl CallCancelled then (Inl CallCancelled, ((g2, ?ms), jr))
         else if \<not> ?conf
         then (Inl (OutcomeUnknown ''Close outcome is not confirmed; inspect the thread, do not resend PATCH''), ((g2, ?ms), jr))
         else case disk jr path (set_phase ''confirmed'' receipt) of
             Saved \<Rightarrow> (Inr (case r of Inl _ \<Rightarrow> True | Inr _ \<Rightarrow> False), ((g3, ?ms), stored path (set_phase ''confirmed'' receipt) jr))
           | SaveFailed \<Rightarrow> (Inl DiskError, ((g2, ?ms), jr))
           | SavedThenFailed \<Rightarrow> (Inl DiskError, ((g2, ?ms), stored path (set_phase ''confirmed'' receipt) jr)))"
      using patch open1 succ go
      by (cases r rule: sum.exhaust; simp add: dispatch_close_def save_bind Let_def split: coord_error.split save_answer.split)
    then show ?thesis
      using jr phase [of "''confirmed''"] by (auto split: if_splits save_answer.splits)
  qed
qed

lemma close_replay_post:
  assumes "is_obj r" "path \<in> receipt_names jr"
  shows "close_post path n ms jr (close_replay disk a path thread r ((g, ms), jr))"
  unfolding close_replay_def
proof (rule read_bind [OF reads_only_lift, where Q = "close_post path n ms jr"])
  fix ok g1
  show "close_post path n ms jr
     ((if \<not> ok then g_raise (OutcomeUnknown ''Previous close is not confirmed; replay is read-only, inspect the thread'')
       else if jget r ''phase'' \<noteq> JStr ''confirmed''
       then g_bind (save_receipt disk path (set_phase ''confirmed'' r)) (\<lambda>_. g_ret (close_result_of a thread True True))
       else g_ret (close_result_of a thread True True)) ((g1, ms), jr))"
    using assms set_phase_get [of r "''confirmed''"]
    by (auto simp: g_raise_def g_ret_def save_bind close_post_def open_attempts_stored split: save_answer.split)
qed simp

lemma close_attempt_post:
  assumes q: "\<And>ph. quiet (audit ph)" and jr: "open_attempts jr = {}" "path \<notin> receipt_names jr"
    and receipt: "receipt = new_receipt digest a payload thread report"
  shows "close_post path (ca_number a) ms jr (close_attempt disk digest (logged c) audit a path thread receipt ((g, ms), jr))"
proof -
  let ?Q = "close_post path (ca_number a) ms jr"
  have obj: "is_obj receipt" unfolding receipt by (rule new_receipt_obj)
  have closed: "jget receipt ''phase'' \<noteq> JStr ''dispatched''" if "ti_state (th_item thread) = JStr ''closed''"
    using that by (simp add: receipt new_receipt_def)
  let ?jr = "stored path receipt jr"
  have send: "?Q (g_bind (save_receipt disk path receipt) (\<lambda>_. g_bind (dispatch_close disk digest (logged c) (audit ''success'') a path receipt)
      (\<lambda>err. g_ret (close_result_of a thread False err))) ((g', ms), jr))" for g'
  proof -
    have "open_attempts ?jr \<subseteq> {path}" "path \<in> receipt_names ?jr" using jr(1) by (auto simp: open_attempts_stored)
    note jr' = this
    from dispatch_close_post [OF this obj q, where c = c and g = g' and ms = ms and a = a and digest = digest and disk = disk] obtain res g2 jr2
      where d: "dispatch_close disk digest (logged c) (audit ''success'') a path receipt ((g', ms), ?jr) =
        (res, ((g2, ms @ [CloseIssue (ca_number a)]), jr2))"
      "receipt_names jr2 = receipt_names ?jr" "open_attempts jr2 \<subseteq> {path}" by blast
    then show ?thesis
      unfolding save_bind using jr jr' by (cases res) (auto simp: g_bind_def g_ret_def close_post_def split: save_answer.split)
  qed
  consider "ti_state (th_item thread) = JStr ''closed''"
    | "ti_state (th_item thread) \<noteq> JStr ''closed''" "ti_state (th_item thread) \<noteq> JStr ''open''"
    | (open1) "ti_state (th_item thread) = JStr ''open''" by fastforce
  then show ?thesis
  proof cases
    case 1
    then show ?thesis
      using closed jr by (auto simp: close_attempt_def save_bind g_ret_def close_post_def open_attempts_stored split: save_answer.split)
  next
    case 2
    then show ?thesis by (simp add: close_attempt_def g_raise_def)
  next
    case open1
    then have e: "close_attempt disk digest (logged c) audit a path thread receipt =
        g_bind (api (audit ''intent'')) (\<lambda>_.
        g_bind (api (open_thread digest (logged c) (ca_owner a) (ca_repo a) (ca_number a) False)) (\<lambda>fresh.
        g_bind (g_lift (close_report fresh (ca_event_id a))) (\<lambda>_.
          if th_close_state_sha256 fresh \<noteq> Some (ca_expected_state a)
          then g_raise (CloseRefused ''STATE_MISMATCH'' ''Issue changed before close; review it again'')
          else
            g_bind (save_receipt disk path receipt) (\<lambda>_.
            g_bind (dispatch_close disk digest (logged c) (audit ''success'') a path receipt) (\<lambda>err.
              g_ret (close_result_of a thread False err))))))"
      by (simp add: close_attempt_def)
    show ?thesis unfolding e
    proof (rule read_bind [OF reads_only_api [OF q], where Q = ?Q],
        goal_cases)
      case (1 er g1)
      show ?case by simp
    next
      case (2 x g1)
      show ?case
      proof (rule read_bind [OF reads_only_api [OF quiet_open_thread], where Q = ?Q], goal_cases)
        case (1 er g2)
        show ?case by simp
      next
        case (2 fresh g2)
        show ?case
        proof (rule read_bind [OF reads_only_lift, where Q = ?Q], goal_cases)
          case (1 er g3)
          show ?case by simp
        next
          case (2 y g3)
          show ?case
          proof (cases "th_close_state_sha256 fresh \<noteq> Some (ca_expected_state a)")
            case True
            then show ?thesis by (simp add: g_raise_def)
          next
            case False
            then show ?thesis using send [of g3] by simp
          qed
        qed
      qed
    qed
  qed
qed

lemma close_fresh_post:
  assumes q: "\<And>ph. quiet (audit ph)" and path: "path \<notin> receipt_names jr"
  shows "close_post path (ca_number a) ms jr (close_fresh disk digest (logged c) audit a path payload thread report ((g, ms), jr))"
proof -
  obtain r w' where s: "settle_receipts disk thread (map fst jr) ((g, ms), jr) = (r, w')"
    by (cases "settle_receipts disk thread (map fst jr) ((g, ms), jr)")
  note post = settle_receipts_post [OF s]
  obtain jr' where w': "w' = ((g, ms), jr')" using post by (cases w') auto
  have frame: "receipt_names jr' = receipt_names jr" "open_attempts jr' \<subseteq> open_attempts jr" using post w' by auto
  consider (early) e where "close_fresh disk digest (logged c) audit a path payload thread report ((g, ms), jr) = (Inl e, ((g, ms), jr))"
    | (stop) e where "close_fresh disk digest (logged c) audit a path payload thread report ((g, ms), jr) = (Inl e, ((g, ms), jr'))"
    | (go) "r = Inr ()" "close_fresh disk digest (logged c) audit a path payload thread report ((g, ms), jr) =
        close_attempt disk digest (logged c) audit a path thread (new_receipt digest a payload thread report) ((g, ms), jr')"
  proof (cases "th_close_state_sha256 thread \<noteq> Some (ca_expected_state a) \<or> 100 < length jr")
    case True
    then obtain e where "close_fresh disk digest (logged c) audit a path payload thread report ((g, ms), jr) = (Inl e, ((g, ms), jr))"
      unfolding close_fresh_def by fastforce
    then show thesis by (rule early)
  next
    case False
    then show thesis using s w' stop go by (cases r) (auto simp: close_fresh_def g_bind_def)
  qed
  then show ?thesis
  proof cases
    case early
    then show ?thesis by simp
  next
    case stop
    then show ?thesis using frame by (simp add: close_post_def)
  next
    case go
    have "open_attempts jr' \<inter> set (map fst jr) = {}" using go(1) post w' by simp
    moreover have "open_attempts jr' \<subseteq> set (map fst jr)"
      using frame(2) by (force simp: open_attempts_def dest: map_of_SomeD)
    ultimately have none: "open_attempts jr' = {}" by blast
    have "path \<notin> receipt_names jr'" using path frame(1) by simp
    from close_attempt_post [where disk = disk and audit = audit and digest = digest and c = c and a = a and payload = payload and thread = thread
        and report = report and ms = ms and g = g, OF q none this refl]
    show ?thesis unfolding go(2) using frame none by (auto simp: close_post_def)
  qed
qed

lemma close_thread_post:
  assumes q: "\<And>ph. quiet (audit ph)"
  shows "close_post (receipt_path digest a) (ca_number a) ms jr
    (close_thread disk digest (logged c) audit lock_free a ((g, ms), jr))"
proof -
  let ?path = "receipt_path digest a"
  let ?Q = "close_post ?path (ca_number a) ms jr"
  let ?read = "api (open_thread digest (logged c) (ca_owner a) (ca_repo a) (ca_number a) False)"
  show ?thesis
  proof (cases "check_close_args a")
    case (Inl e)
    then show ?thesis by (simp add: close_thread_def g_raise_def)
  next
    case (Inr reason)
    show ?thesis
    proof (cases lock_free)
      case False
      then show ?thesis using Inr by (simp add: close_thread_def g_raise_def)
    next
      case True
      let ?payload = "payload_hash digest a reason"
      let ?go = "\<lambda>prior thread report. case prior of
          Some r \<Rightarrow> close_replay disk a ?path thread r
        | None \<Rightarrow> close_fresh disk digest (logged c) audit a ?path ?payload thread report"
      have e: "close_thread disk digest (logged c) audit lock_free a = g_bind (read_receipt ?path) (\<lambda>prior.
          if (case prior of None \<Rightarrow> False | Some r \<Rightarrow> jget r ''payload_sha256'' \<noteq> JStr ?payload)
          then g_raise (CloseRefused ''IDEMPOTENCY_CONFLICT'' ''request_key was used with a different close payload'')
          else g_bind ?read (\<lambda>thread. g_bind (g_lift (close_report thread (ca_event_id a))) (?go prior thread)))"
        using True by (simp add: close_thread_def Inr Let_def)
      show ?thesis unfolding e
      proof (rule read_bind [OF reads_only_read_receipt, where Q = ?Q], goal_cases)
        case (1 er g1)
        show ?case by simp
      next
        case (2 prior g1)
        have go: "?Q (?go prior thread report ((g', ms), jr))" for thread report g'
        proof (cases prior)
          case None
          then have "?path \<notin> receipt_names jr"
            using 2 by (auto simp: read_receipt_def receipt_names_def split: option.splits if_splits)
          then show ?thesis using close_fresh_post [OF q] None by simp
        next
          case (Some r)
          then show ?thesis using read_receipt_Some 2 close_replay_post by fastforce
        qed
        have rest: "?Q (g_bind ?read (\<lambda>thread. g_bind (g_lift (close_report thread (ca_event_id a))) (?go prior thread)) ((g1, ms), jr))"
          by (rule read_bind [OF reads_only_api [OF quiet_open_thread], where Q = ?Q], simp,
              rule read_bind [OF reads_only_lift, where Q = ?Q], simp, rule go)
        show ?case
        proof (cases "case prior of None \<Rightarrow> False | Some r \<Rightarrow> jget r ''payload_sha256'' \<noteq> JStr ?payload")
          case True
          then show ?thesis by (simp only: if_True g_raise_def close_post_same)
        next
          case False
          then show ?thesis using rest by (simp only: if_False)
        qed
      qed
    qed
  qed
qed

text \<open>
  Histories of closes of one issue: any calls of any caller, with Gitea changing freely in between. The list
  holds the receipt names of the calls that sent a PATCH.
\<close>

inductive close_history ::
    "(json \<Rightarrow> string) \<Rightarrow> 'g gitea_client \<Rightarrow> journal \<Rightarrow> string list \<Rightarrow> bool" for digest c where
  fresh: "close_history digest c [] []"
| closed: "close_history digest c jr sent \<Longrightarrow> (\<And>ph. quiet (audit ph)) \<Longrightarrow>
    close_thread disk digest (logged c) audit lock_free a ((g, []), jr) = (res, ((g', ms), jr')) \<Longrightarrow>
    close_history digest c jr' (map (\<lambda>_. receipt_path digest a) ms @ sent)"

text \<open>A client holding one reviewed thread, and a call that closes it.\<close>

definition demo_digest :: "json \<Rightarrow> string" where
  "demo_digest j = replicate 64 (CHR ''a'')"

definition demo_issue :: "bool \<Rightarrow> json" where
  "demo_issue shut = JObj [(''number'', JInt 7), (''state'', JStr (if shut then ''closed'' else ''open'')),
     (''body'', JStr (header_line ''issue'' ''thread-1'' ''repo'' ''open'' '''' @ newline # ''please''))]"

definition demo_event :: json where
  "demo_event = JObj [(''id'', JInt 3), (''type'', JStr ''comment''), (''user'', JObj [(''login'', JStr ''bot'')]),
     (''body'', JStr (header_line ''event'' ''report-1'' '''' ''resolved'' '''' @ newline # ''done''))]"

definition demo_client :: "bool gitea_client" where
  "demo_client =
     \<lparr>gc_list_issues = (\<lambda>owner repo page. g_ret (JList [])),
      gc_get_issue = (\<lambda>owner repo n shut. (Inr (demo_issue shut), shut)),
      gc_list_timeline = (\<lambda>owner repo n page. g_ret (JList [demo_event])),
      gc_get_user = g_ret (JObj [(''login'', JStr ''bot'')]),
      gc_create_issue = (\<lambda>owner repo title body. g_raise ApiError),
      gc_create_comment = (\<lambda>owner repo n body. g_raise ApiError),
      gc_close_issue = (\<lambda>owner repo n shut. (Inr JNull, True))\<rparr>"

definition demo_close :: close_args where
  "demo_close = \<lparr>ca_owner = ''me'', ca_repo = ''repo'', ca_number = 7, ca_event_id = 3,
     ca_expected_state = replicate 64 (CHR ''a''), ca_request_key = ''close-it-1'', ca_reason = ''done'',
     ca_actor = replicate 16 (CHR ''0'')\<rparr>"


lemma demo_issue_item: "issue_item (demo_issue shut) = Some \<lparr>ti_number = 7, ti_title = JStr [], ti_url = JNull,
    ti_source_project = ''repo'', ti_request_key = ''thread-1'', ti_created_by = [],
    ti_state = JStr (if shut then ''closed'' else ''open''), ti_updated_at = JNull\<rparr>"
  by (cases shut) code_simp+

lemma demo_scan: "fold (timeline_row False) [demo_event] \<lparr>ts_comments = [], ts_seen = [], ts_last = 0, ts_fresh = 0,
    ts_overlap = False, ts_invalid = False, ts_out_of_order = False\<rparr> = \<lparr>ts_comments = [demo_event], ts_seen = [3], ts_last = 3,
    ts_fresh = 1, ts_overlap = False, ts_invalid = False, ts_out_of_order = False\<rparr>"
  by code_simp

lemma demo_history: "history_entry_of ''bot'' demo_event = \<lparr>he_id = JInt 3, he_body = ''done'', he_state = Some ''resolved'',
    he_request_key = Some ''report-1'', he_caller = Some [], he_created_at = JNull, he_author = ''bot''\<rparr>"
  by code_simp

lemma demo_open: "open_thread demo_digest (logged demo_client) owner repo 7 False (shut, ms) =
   (Inr \<lparr>th_item = the (issue_item (demo_issue shut)), th_history = [history_entry_of ''bot'' demo_event],
     th_truncated = False, th_coord_state = Some ''resolved'', th_incomplete = None,
     th_close_content_sha256 = Some (replicate 64 (CHR ''a'')), th_close_state_sha256 = Some (replicate 64 (CHR ''a''))\<rparr>, (shut, ms))"
proof -
  have nc: "\<not> no_comments (demo_issue shut)" by (cases shut) code_simp+
  have reads: "gc_get_issue (logged demo_client) owner repo 7 (shut, ms) = (Inr (demo_issue shut), (shut, ms))"
    "gc_list_timeline (logged demo_client) owner repo 7 = (\<lambda>page. g_ret (JList [demo_event]))"
    "trusted_login (logged demo_client) (shut, ms) = (Inr ''bot'', (shut, ms))"
    by (auto simp: logged_def lift_read_def demo_client_def g_ret_def trusted_login_def g_bind_def fun_eq_iff)
  have tl: "timeline_comment_pages (\<lambda>page. g_ret (JList [demo_event])) WRITE_MAX_PAGES False False (shut, ms) =
      (Inr \<lparr>tl_comments = [demo_event], tl_truncated = False, tl_reason = None, tl_pages = 1\<rparr>, (shut, ms))"
    unfolding timeline_comment_pages_def WRITE_MAX_PAGES_def numeral_nat(2) timeline_loop.simps
    by (simp only: g_bind_def g_ret_def prod.case sum.case page_rows_def json.distinct simp_thms if_False json.case demo_scan Let_def)
      (simp add: PAGE_SIZE_def timeline_reason_def g_ret_def demo_event_def)
  show ?thesis
    by (simp add: open_thread_def g_bind_def reads tl [unfolded WRITE_MAX_PAGES_def] WRITE_MAX_PAGES_def nc tl demo_issue_item g_ret_def Let_def demo_history latest_state_def state_entry_def demo_digest_def)
qed

lemma demo_args: "check_close_args demo_close = Inr ''done''" by code_simp
lemma demo_sel: "ca_number demo_close = 7" "ca_event_id demo_close = 3" "ca_expected_state demo_close = replicate 64 (CHR ''a'')" "ca_actor demo_close = replicate 16 (CHR ''0'')"
  by (simp_all add: demo_close_def)
lemma demo_report: "close_report thread 3 = Inr r" if "th_coord_state thread = Some ''resolved''" "th_history thread = [r]" "r = history_entry_of ''bot'' demo_event"
  using that by (simp add: close_report_def demo_history state_entry_def, code_simp)

lemma demo_patch: "gc_close_issue (logged demo_client) owner repo n (shut, ms) = (Inr JNull, (True, ms @ [CloseIssue n]))"
  by (simp add: logged_def lift_write_def demo_client_def)
lemma demo_digest_hex: "demo_digest j = replicate 64 (CHR ''a'')" by (simp add: demo_digest_def)

lemma demo_close_sends:
  "\<exists>res g jr. close_thread (\<lambda>jr path r. Saved) demo_digest (logged demo_client) (\<lambda>ph. g_ret ()) True demo_close ((False, []), []) =
   (res, ((g, [CloseIssue 7]), jr))"
  by (simp add: close_thread_def demo_args Let_def demo_sel g_bind_def read_receipt_def api_def demo_open demo_report g_lift_def g_ret_def g_raise_def
    close_fresh_def close_attempt_def demo_issue_item save_receipt_def stored_def dispatch_close_def demo_patch new_receipt_def close_confirmed_def demo_digest_hex) blast

text \<open>C21: Over any history of close requests for an issue, with saves that fail before or after they took effect, calls
  that fail or are cancelled at any point, races at Gitea and replays, each request key sends at most one PATCH; a
  PATCH is sent only once its receipt is on disk, where it stays; and at most one attempt is ever unresolved.\<close>

theorem close_sends_one_patch:
  assumes "close_history digest c jr sent"
  shows "distinct sent \<and> set sent \<subseteq> receipt_names jr \<and> (\<exists>path. open_attempts jr \<subseteq> {path})"
  using assms
proof (induction rule: close_history.induct)
  case fresh
  then show ?case by (simp add: open_attempts_def)
next
  case (closed jr sent audit disk lock_free a g res g' ms jr')
  have p: "receipt_names jr \<subseteq> receipt_names jr'"
    "ms = [] \<and> open_attempts jr' \<subseteq> open_attempts jr
     \<or> (ms = [] \<or> ms = [CloseIssue (ca_number a)]) \<and> receipt_path digest a \<notin> receipt_names jr
       \<and> receipt_path digest a \<in> receipt_names jr' \<and> open_attempts jr' \<subseteq> {receipt_path digest a}"
    using close_thread_post [where audit = audit and digest = digest and a = a and ms = "[]" and jr = jr and c = c
        and disk = disk and lock_free = lock_free and g = g, OF closed.hyps(2)] closed.hyps(3)
    by (simp_all add: close_post_def)
  from p(2) show ?case
  proof
    assume "ms = [] \<and> open_attempts jr' \<subseteq> open_attempts jr"
    then show ?thesis using closed.IH p(1) by simp blast
  next
    assume "(ms = [] \<or> ms = [CloseIssue (ca_number a)]) \<and> receipt_path digest a \<notin> receipt_names jr
       \<and> receipt_path digest a \<in> receipt_names jr' \<and> open_attempts jr' \<subseteq> {receipt_path digest a}"
    then show ?thesis using closed.IH p(1) by auto
  qed
qed

lemma close_sends_one_patch_witness:
  "\<exists>jr. close_history demo_digest demo_client jr [receipt_path demo_digest demo_close]
    \<and> receipt_path demo_digest demo_close \<in> receipt_names jr"
proof -
  have "quiet (g_ret () :: (bool \<times> mutation list, unit) gitea)" by (rule quiet_ret)
  moreover obtain res g jr where
    "close_thread (\<lambda>jr path r. Saved) demo_digest (logged demo_client) (\<lambda>ph. g_ret ()) True demo_close ((False, []), []) =
      (res, ((g, [CloseIssue 7]), jr))"
    using demo_close_sends by blast
  ultimately have "close_history demo_digest demo_client jr (map (\<lambda>_. receipt_path demo_digest demo_close) [CloseIssue 7] @ [])"
    by (rule close_history.closed [OF close_history.fresh])
  then have h: "close_history demo_digest demo_client jr [receipt_path demo_digest demo_close]" by simp
  with close_sends_one_patch [OF h] show ?thesis by auto
qed

end
