(* ===== verification/SingleUse.thy ===== *)
theory SingleUse
  imports Main
begin

text \<open>
  The contract of the stores of one-time credentials (rotated refresh tokens, authorization codes, Docker
  confirmations): which keys can still be used in a state, and steps that use some of them and add new
  ones. The provider promises that a step uses only usable keys, each once, and that a used key is usable
  afterwards in no case, and another only if it was or is new. The client gets the bookkeeping of a
  whole history: \<open>seen\<close> holds all keys ever added and \<open>spent\<close> the list of those used.
\<close>

locale single_use =
  fixes live :: "'s \<Rightarrow> 'k set"
    and step :: "'s \<Rightarrow> 'k list \<Rightarrow> 'k set \<Rightarrow> 's \<Rightarrow> bool"
  assumes step_uses: "step s ks new s' \<Longrightarrow> distinct ks \<and> set ks \<subseteq> live s"
    and step_live: "step s ks new s' \<Longrightarrow> live s' \<subseteq> (live s - set ks) \<union> new"
begin

definition ledger :: "'s \<Rightarrow> 'k set \<Rightarrow> 'k list \<Rightarrow> bool" where
  "ledger s seen spent \<longleftrightarrow>
     live s \<subseteq> seen \<and> set spent \<subseteq> seen \<and> distinct spent \<and> set spent \<inter> live s = {}"

lemma ledger_init: "live s \<subseteq> seen \<Longrightarrow> ledger s seen []"
  by (simp add: ledger_def)

lemma ledger_step:
  assumes "ledger s seen spent" "step s ks new s'" "new \<inter> seen = {}"
  shows "ledger s' (seen \<union> new) (ks @ spent)"
proof -
  note uses = step_uses [OF assms(2)] and lv = step_live [OF assms(2)]
  have l: "live s \<subseteq> seen" "set spent \<subseteq> seen" "distinct spent" "set spent \<inter> live s = {}"
    using assms(1) by (auto simp: ledger_def)
  have "k \<notin> live s'" if k: "k \<in> set ks \<union> set spent" for k
  proof -
    have "k \<in> seen" "k \<notin> live s - set ks" using k uses l by blast+
    then show ?thesis using lv assms(3) by blast
  qed
  then have "set (ks @ spent) \<inter> live s' = {}" by auto
  moreover have "live s' \<subseteq> seen \<union> new" "set (ks @ spent) \<subseteq> seen \<union> new" 
    using uses lv l by auto
  moreover have "distinct (ks @ spent)" using uses l by auto
  ultimately show ?thesis by (simp add: ledger_def)
qed

lemma spent_once: "ledger s seen spent \<Longrightarrow> distinct spent"
  by (simp add: ledger_def)

lemma spent_dead: "ledger s seen spent \<Longrightarrow> k \<in> set spent \<Longrightarrow> k \<notin> live s"
  by (auto simp: ledger_def)

end

end
