(* ===== verification/TokenStore.thy ===== *)
theory TokenStore
  imports Prelude PyJson SingleUse "HOL-Library.Multiset"
begin

text \<open>
  \<open>examples/mcp_server/token_store.py\<close>: the persistent store of hashed bearer tokens. The state is the store
  file: missing, not JSON, or a JSON value. Every operation runs under the lock file, so it is one step
  on the file. The fields of an entry are JSON values, since nothing checks the types of what a file holds;
  \<open>None\<close> is \<open>JNull\<close>. \<open>epoch\<close> stands for \<open>datetime.fromisoformat(s).timestamp()\<close> (\<open>None\<close>: it raises \<open>ValueError\<close>
  or \<open>OSError\<close>), \<open>stamp\<close> is the text of the clock. A write replaces the file atomically; it may fail before
  or after the replacement.
\<close>

datatype token_error =
    TokenValueError string
  | TokenKeyError string
  | TokenTypeError
  | TokenWriteError

datatype token_file = NoFile | BadJson | JsonFile json

datatype write_outcome = Written | NotWritten | WrittenThenRaised

record token_entry =
  te_id :: json
  te_hash :: json
  te_name :: json
  te_profile :: json
  te_scopes :: json
  te_created :: json
  te_client :: json
  te_type :: json
  te_expires :: json
  te_revoked :: json
  te_last_used :: json

definition TOKEN_STORE_VERSION :: int where
  "TOKEN_STORE_VERSION = 2"

definition entry_fields :: "token_entry \<Rightarrow> (string \<times> json) list" where
  "entry_fields e =
     [(''id'', te_id e), (''token_hash'', te_hash e), (''name'', te_name e), (''profile'', te_profile e),
      (''scopes'', te_scopes e), (''created_at'', te_created e), (''client_id'', te_client e), (''type'', te_type e),
      (''expires_at'', te_expires e), (''revoked_at'', te_revoked e), (''last_used_at'', te_last_used e)]"

definition entry_to_dict :: "token_entry \<Rightarrow> json" where
  "entry_to_dict e = JObj (filter (\<lambda>(k, v). v \<noteq> JNull) (entry_fields e))"

definition REQUIRED_FIELDS :: "string list" where
  "REQUIRED_FIELDS = [''id'', ''token_hash'', ''name'', ''profile'', ''scopes'', ''created_at'']"

definition dict_to_entry :: "json \<Rightarrow> token_error + token_entry" where
  "dict_to_entry j =
     (case j of
        JObj d \<Rightarrow>
          (let ty = jget_default j ''type'' (JStr ''access'') in
           if ty \<noteq> JStr ''access'' \<and> ty \<noteq> JStr ''refresh''
           then Inl (TokenValueError ''Token store record has invalid token type'')
           else if ty = JStr ''refresh'' \<and> falsy (jget j ''client_id'')
           then Inl (TokenValueError ''OAuth refresh token store record is missing client_id'')
           else
             (case find (\<lambda>k. map_of d k = None) REQUIRED_FIELDS of
                Some k \<Rightarrow> Inl (TokenKeyError k)
              | None \<Rightarrow>
                  Inr \<lparr>te_id = jget j ''id'', te_hash = jget j ''token_hash'', te_name = jget j ''name'',
                       te_profile = jget j ''profile'', te_scopes = jget j ''scopes'', te_created = jget j ''created_at'',
                       te_client = jget_default j ''client_id'' (JStr ''mcp_static''), te_type = ty,
                       te_expires = jget j ''expires_at'', te_revoked = jget j ''revoked_at'',
                       te_last_used = jget j ''last_used_at''\<rparr>))
      | _ \<Rightarrow> Inl TokenTypeError)"

fun str_replace :: "string \<Rightarrow> string \<Rightarrow> string \<Rightarrow> string" where
  "str_replace old new [] = []"
| "str_replace old new (c # s) =
     (if old \<noteq> [] \<and> startswith (c # s) old then new @ str_replace old new (drop (length old - 1) s)
      else c # str_replace old new s)"

definition parse_expiry_epoch :: "(string \<Rightarrow> time option) \<Rightarrow> json \<Rightarrow> token_error + time option" where
  "parse_expiry_epoch epoch j =
     (case j of
        JNull \<Rightarrow> Inr None
      | JStr s \<Rightarrow>
          Inr (Some (case epoch (str_replace ''Z'' ''+00:00'' s) of None \<Rightarrow> 0 | Some t \<Rightarrow> t))
      | _ \<Rightarrow> Inl TokenTypeError)"

subsection \<open>Reading and writing\<close>

definition store_load :: "token_file \<Rightarrow> token_error + token_entry list" where
  "store_load f =
     (case f of
        NoFile \<Rightarrow> Inr []
      | BadJson \<Rightarrow> Inl (TokenValueError ''Token store contains invalid JSON'')
      | JsonFile j \<Rightarrow>
          if \<not> is_obj j then Inl TokenTypeError
          else
            (case py_iter (jget_default j ''tokens'' (JList [])) of
               None \<Rightarrow> Inl TokenTypeError
             | Some rows \<Rightarrow> traverse dict_to_entry rows))"

definition store_payload :: "token_entry list \<Rightarrow> json" where
  "store_payload es =
     JObj [(''version'', JInt TOKEN_STORE_VERSION), (''tokens'', JList (map entry_to_dict es))]"

definition store_write :: "write_outcome \<Rightarrow> token_entry list \<Rightarrow> token_file \<Rightarrow> (token_error + unit) \<times> token_file" where
  "store_write wo es f =
     (case wo of
        Written \<Rightarrow> (Inr (), JsonFile (store_payload es))
      | NotWritten \<Rightarrow> (Inl TokenWriteError, f)
      | WrittenThenRaised \<Rightarrow> (Inl TokenWriteError, JsonFile (store_payload es)))"

text \<open>Write, then return \<open>x\<close>.\<close>

definition writing :: "write_outcome \<Rightarrow> token_entry list \<Rightarrow> 'a \<Rightarrow> token_file \<Rightarrow> (token_error + 'a) \<times> token_file" where
  "writing wo es x f =
     (case store_write wo es f of (Inl e, f') \<Rightarrow> (Inl e, f') | (Inr _, f') \<Rightarrow> (Inr x, f'))"

subsection \<open>Operations\<close>

definition oauth_record_is_stale :: "(string \<Rightarrow> time option) \<Rightarrow> time \<Rightarrow> token_entry \<Rightarrow> token_error + bool" where
  "oauth_record_is_stale epoch now e =
     (if te_revoked e \<noteq> JNull then Inr True
      else
        (case parse_expiry_epoch epoch (te_expires e) of
           Inl er \<Rightarrow> Inl er
         | Inr None \<Rightarrow> Inr False
         | Inr (Some t) \<Rightarrow> Inr (t < now)))"

fun filter_stale_oauth ::
    "(string \<Rightarrow> time option) \<Rightarrow> time \<Rightarrow> token_entry list \<Rightarrow> token_error + token_entry list" where
  "filter_stale_oauth epoch now [] = Inr []"
| "filter_stale_oauth epoch now (e # es) =
     (case (if te_profile e = JStr ''oauth'' then oauth_record_is_stale epoch now e else Inr False) of
        Inl er \<Rightarrow> Inl er
      | Inr stale \<Rightarrow>
          (case filter_stale_oauth epoch now es of
             Inl er \<Rightarrow> Inl er
           | Inr kept \<Rightarrow> Inr (if stale then kept else e # kept)))"

definition compacted ::
    "(string \<Rightarrow> time option) \<Rightarrow> time option \<Rightarrow> token_entry list \<Rightarrow> token_error + token_entry list" where
  "compacted epoch compact_now es =
     (case compact_now of None \<Rightarrow> Inr es | Some now \<Rightarrow> filter_stale_oauth epoch now es)"

definition add_many ::
    "(string \<Rightarrow> time option) \<Rightarrow> write_outcome \<Rightarrow> token_entry list \<Rightarrow> time option
      \<Rightarrow> token_file \<Rightarrow> (token_error + unit) \<times> token_file" where
  "add_many epoch wo new compact_now f =
     (case store_load f of
        Inl er \<Rightarrow> (Inl er, f)
      | Inr current \<Rightarrow>
          (case compacted epoch compact_now current of
             Inl er \<Rightarrow> (Inl er, f)
           | Inr kept \<Rightarrow> store_write wo (kept @ new) f))"

fun revoke_first :: "(token_entry \<Rightarrow> bool) \<Rightarrow> string \<Rightarrow> token_entry list \<Rightarrow> (token_entry \<times> token_entry list) option" where
  "revoke_first P stamp [] = None"
| "revoke_first P stamp (e # es) =
     (if P e \<and> te_revoked e = JNull
      then Some (e\<lparr>te_revoked := JStr stamp\<rparr>, e\<lparr>te_revoked := JStr stamp\<rparr> # es)
      else map_option (\<lambda>(r, es'). (r, e # es')) (revoke_first P stamp es))"

definition rotate_token ::
    "(string \<Rightarrow> time option) \<Rightarrow> write_outcome \<Rightarrow> string \<Rightarrow> string \<Rightarrow> token_entry list \<Rightarrow> time option
      \<Rightarrow> token_file \<Rightarrow> (token_error + token_entry option) \<times> token_file" where
  "rotate_token epoch wo stamp revoke_hash new compact_now f =
     (case store_load f of
        Inl er \<Rightarrow> (Inl er, f)
      | Inr entries \<Rightarrow>
          (case revoke_first (\<lambda>e. te_hash e = JStr revoke_hash) stamp entries of
             None \<Rightarrow> (Inr None, f)
           | Some (revoked, entries') \<Rightarrow>
               (case compacted epoch compact_now entries' of
                  Inl er \<Rightarrow> (Inl er, f)
                | Inr kept \<Rightarrow> writing wo (kept @ new) (Some revoked) f)))"

definition revoke :: "write_outcome \<Rightarrow> string \<Rightarrow> json \<Rightarrow> token_file \<Rightarrow> (token_error + token_entry option) \<times> token_file" where
  "revoke wo stamp token_id f =
     (case store_load f of
        Inl er \<Rightarrow> (Inl er, f)
      | Inr entries \<Rightarrow>
          (case revoke_first (\<lambda>e. te_id e = token_id) stamp entries of
             None \<Rightarrow> (Inr None, f)
           | Some (revoked, entries') \<Rightarrow> writing wo entries' (Some revoked) f))"

definition find_by_hash :: "string \<Rightarrow> token_file \<Rightarrow> token_error + token_entry option" where
  "find_by_hash h f =
     (case store_load f of Inl er \<Rightarrow> Inl er | Inr es \<Rightarrow> Inr (find (\<lambda>e. te_hash e = JStr h) es))"

definition compact_expired_oauth ::
    "(string \<Rightarrow> time option) \<Rightarrow> write_outcome \<Rightarrow> time \<Rightarrow> token_file \<Rightarrow> (token_error + nat) \<times> token_file" where
  "compact_expired_oauth epoch wo now f =
     (case store_load f of
        Inl er \<Rightarrow> (Inl er, f)
      | Inr entries \<Rightarrow>
          (case filter_stale_oauth epoch now entries of
             Inl er \<Rightarrow> (Inl er, f)
           | Inr kept \<Rightarrow>
               let removed = length entries - length kept in
               if removed \<noteq> 0 then writing wo kept removed f else (Inr 0, f)))"

subsection \<open>Round trip of the file\<close>

lemma entry_fields_ok: "dict_ok (entry_fields e)"
  by (simp add: dict_ok_def entry_fields_def)

lemma entry_get: "map_of (filter (\<lambda>(k, v). v \<noteq> JNull) (entry_fields e)) k =
    (case map_of (entry_fields e) k of None \<Rightarrow> None | Some v \<Rightarrow> if v = JNull then None else Some v)"
  using dict_get_filter [OF entry_fields_ok, of "\<lambda>k v. v \<noteq> JNull" e k] by (simp split: option.split)

lemma entry_lookup:
  "map_of (entry_fields e) ''id'' = Some (te_id e)" "map_of (entry_fields e) ''token_hash'' = Some (te_hash e)"
  "map_of (entry_fields e) ''name'' = Some (te_name e)" "map_of (entry_fields e) ''profile'' = Some (te_profile e)"
  "map_of (entry_fields e) ''scopes'' = Some (te_scopes e)" "map_of (entry_fields e) ''created_at'' = Some (te_created e)"
  "map_of (entry_fields e) ''client_id'' = Some (te_client e)" "map_of (entry_fields e) ''type'' = Some (te_type e)"
  "map_of (entry_fields e) ''expires_at'' = Some (te_expires e)" "map_of (entry_fields e) ''revoked_at'' = Some (te_revoked e)"
  "map_of (entry_fields e) ''last_used_at'' = Some (te_last_used e)"
  by (simp_all add: entry_fields_def)

definition entry_ok :: "token_entry \<Rightarrow> bool" where
  "entry_ok e \<longleftrightarrow>
     JNull \<notin> {te_id e, te_hash e, te_name e, te_profile e, te_scopes e, te_created e, te_client e}
     \<and> (te_type e = JStr ''access'' \<or> te_type e = JStr ''refresh'' \<and> \<not> falsy (te_client e))"

lemma entry_get_null: "jget (entry_to_dict e) k = (case map_of (entry_fields e) k of None \<Rightarrow> JNull | Some v \<Rightarrow> v)"
  by (simp add: entry_to_dict_def entry_get split: option.split)

lemma entry_round_trip: "entry_ok e \<Longrightarrow> dict_to_entry (entry_to_dict e) = Inr e"
proof -
  assume ok: "entry_ok e"
  let ?d = "filter (\<lambda>(k, v). v \<noteq> JNull) (entry_fields e)"
  have all: "find (\<lambda>k. map_of ?d k = None) REQUIRED_FIELDS = None"
    using ok by (auto simp: find_None_iff REQUIRED_FIELDS_def entry_get entry_lookup entry_ok_def)
  have j: "entry_to_dict e = JObj ?d" by (simp add: entry_to_dict_def)
  have ty: "jget_default (JObj ?d) ''type'' (JStr ''access'') = te_type e"
    using ok by (auto simp: jget_default_def entry_get entry_lookup entry_ok_def)
  have cl: "jget_default (JObj ?d) ''client_id'' (JStr ''mcp_static'') = te_client e"
    using ok by (auto simp: jget_default_def entry_get entry_lookup entry_ok_def)
  have get: "jget (JObj ?d) k = (case map_of (entry_fields e) k of None \<Rightarrow> JNull | Some v \<Rightarrow> v)" for k
    using entry_get_null [of e k] by (simp only: j)
  show ?thesis
    using ok unfolding j dict_to_entry_def json.case Let_def ty cl get all option.case entry_lookup entry_ok_def by auto
qed

text \<open>Whatever was written, a record that reads back is the one written, but for the defaults.\<close>

lemma entry_reload:
  assumes "dict_to_entry (entry_to_dict e) = Inr e'"
  shows "te_hash e' = te_hash e \<and> te_revoked e' = te_revoked e \<and> te_profile e' = te_profile e
   \<and> te_scopes e' = te_scopes e \<and> te_expires e' = te_expires e"
proof -
  have "te_hash e' = jget (entry_to_dict e) ''token_hash'' \<and> te_revoked e' = jget (entry_to_dict e) ''revoked_at''
    \<and> te_profile e' = jget (entry_to_dict e) ''profile'' \<and> te_scopes e' = jget (entry_to_dict e) ''scopes''
    \<and> te_expires e' = jget (entry_to_dict e) ''expires_at''"
    using assms unfolding dict_to_entry_def Let_def entry_to_dict_def json.case
    by (auto simp del: jget.simps split: if_split_asm option.split_asm)
  then show ?thesis by (simp only: entry_get_null entry_lookup option.case)
qed

lemma payload_load: "store_load (JsonFile (store_payload es)) = traverse dict_to_entry (map entry_to_dict es)"
  by (simp add: store_load_def store_payload_def jget_default_def)

lemma store_round_trip: "list_all entry_ok es \<Longrightarrow> store_load (JsonFile (store_payload es)) = Inr es"
  unfolding payload_load by (rule traverse_map) (simp add: entry_round_trip list_all_iff)

subsection \<open>Each rotation consumes its token\<close>

text \<open>The hashes of the entries that are not revoked, in order; the tokens a rotation can consume.\<close>

definition active :: "token_entry list \<Rightarrow> json list" where
  "active es = map te_hash (filter (\<lambda>e. te_revoked e = JNull) es)"

definition live_hashes :: "token_file \<Rightarrow> string set" where
  "live_hashes f = (case store_load f of Inl _ \<Rightarrow> {} | Inr es \<Rightarrow> {h. JStr h \<in> set (active es)})"

definition unambiguous :: "token_file \<Rightarrow> bool" where
  "unambiguous f \<longleftrightarrow> (case store_load f of Inl _ \<Rightarrow> True | Inr es \<Rightarrow> distinct (active es))"

lemma active_simps [simp]:
  "active [] = []" "active (e # es) = (if te_revoked e = JNull then te_hash e # active es else active es)"
  "active (es @ es') = active es @ active es'"
  by (simp_all add: active_def)

lemma payload_active:
  assumes "store_load (JsonFile (store_payload es)) = Inr es'"
  shows "active es' = active es"
proof -
  from traverse_Inr [OF assms [unfolded payload_load]]
  have "list_all2 (\<lambda>e e'. dict_to_entry (entry_to_dict e) = Inr e') es es'"
    by (simp add: list.rel_map)
  then show ?thesis
    by (induction rule: list_all2_induct) (simp_all add: entry_reload)
qed

lemma store_write_file: "store_write wo es f = (r, f') \<Longrightarrow> f' = f \<or> f' = JsonFile (store_payload es)"
  by (cases wo) (auto simp: store_write_def)

lemma writing_file: "writing wo es x f = (r, f') \<Longrightarrow> f' = f \<and> (\<exists>e. r = Inl e) \<or> f' = JsonFile (store_payload es)"
  by (cases wo) (auto simp: writing_def store_write_def)

lemma writing_Inr: "writing wo es x f = (Inr y, f') \<Longrightarrow> y = x \<and> f' = JsonFile (store_payload es)"
  by (cases wo) (auto simp: writing_def store_write_def)

lemma filter_stale_oauth_eq:
  "filter_stale_oauth epoch now es = Inr kept \<Longrightarrow>
   kept = filter (\<lambda>e. te_profile e \<noteq> JStr ''oauth'' \<or> oauth_record_is_stale epoch now e \<noteq> Inr True) es"
  by (induction es arbitrary: kept) (auto split: sum.splits if_splits)

lemma active_filter: "mset (active (filter P es)) \<subseteq># mset (active es)"
proof -
  have "mset (active es) = mset (active (filter P es)) + mset (active (filter (\<lambda>e. \<not> P e) es))"
    by (induction es) auto
  then show ?thesis by simp
qed

lemma compacted_active: "compacted epoch c es = Inr kept \<Longrightarrow> mset (active kept) \<subseteq># mset (active es)"
  by (auto simp: compacted_def active_filter dest!: filter_stale_oauth_eq split: option.splits)

lemma revoke_first_Some:
  assumes "revoke_first P stamp es = Some (r, es')"
  obtains xs e ys where "es = xs @ e # ys" "P e" "te_revoked e = JNull" "r = e\<lparr>te_revoked := JStr stamp\<rparr>"
    "es' = xs @ e\<lparr>te_revoked := JStr stamp\<rparr> # ys"
proof -
  have "\<exists>xs e ys. es = xs @ e # ys \<and> P e \<and> te_revoked e = JNull \<and> r = e\<lparr>te_revoked := JStr stamp\<rparr>
      \<and> es' = xs @ e\<lparr>te_revoked := JStr stamp\<rparr> # ys"
    using assms
  proof (induction es arbitrary: es')
    case (Cons e es)
    show ?case
    proof (cases "P e \<and> te_revoked e = JNull")
      case True
      then show ?thesis using Cons.prems by (intro exI [of _ "[]"]) auto
    next
      case False
      then obtain es1 where e1: "revoke_first P stamp es = Some (r, es1)" "es' = e # es1"
        using Cons.prems by (auto split: if_splits)
      from Cons.IH [OF e1(1)] obtain xs e0 ys where "es = xs @ e0 # ys" "P e0" "te_revoked e0 = JNull"
        "r = e0\<lparr>te_revoked := JStr stamp\<rparr>" "es1 = xs @ e0\<lparr>te_revoked := JStr stamp\<rparr> # ys" by auto
      then show ?thesis using e1(2) by (intro exI [of _ "e # xs"]) auto
    qed
  qed simp
  then show thesis using that by blast
qed

text \<open>Operations of any process: the rotated tokens and the hashes of the new entries.\<close>

inductive token_op :: "(string \<Rightarrow> time option) \<Rightarrow> token_file \<Rightarrow> string list \<Rightarrow> string set \<Rightarrow> token_file \<Rightarrow> bool"
  for epoch where
  add: "add_many epoch wo new c f = (r, f') \<Longrightarrow> map te_hash new = map JStr hs \<Longrightarrow> distinct hs \<Longrightarrow>
    token_op epoch f [] (set hs) f'"
| rotate: "rotate_token epoch wo stamp h new c f = (r, f') \<Longrightarrow> map te_hash new = map JStr hs \<Longrightarrow> distinct hs \<Longrightarrow>
    token_op epoch f (case r of Inr (Some _) \<Rightarrow> [h] | _ \<Rightarrow> []) (set hs) f'"
| revoke: "revoke wo stamp i f = (r, f') \<Longrightarrow> token_op epoch f [] {} f'"
| compact: "compact_expired_oauth epoch wo now f = (r, f') \<Longrightarrow> token_op epoch f [] {} f'"

inductive token_history :: "(string \<Rightarrow> time option) \<Rightarrow> token_file \<Rightarrow> string set \<Rightarrow> string list \<Rightarrow> bool"
  for epoch where
  start: "unambiguous f \<Longrightarrow> live_hashes f \<subseteq> seen \<Longrightarrow> token_history epoch f seen []"
| step: "token_history epoch f seen spent \<Longrightarrow> token_op epoch f ks new f' \<Longrightarrow> new \<inter> seen = {} \<Longrightarrow>
    token_history epoch f' (seen \<union> new) (ks @ spent)"

lemma new_active: "map te_hash new = map JStr hs \<Longrightarrow> distinct hs \<Longrightarrow> mset (active new) \<subseteq># mset_set (JStr ` set hs)"
proof -
  assume e: "map te_hash new = map JStr hs" and d: "distinct hs"
  have "mset (map te_hash new) = mset_set (JStr ` set hs)"
    unfolding e using d by (simp add: mset_set_set distinct_map inj_on_def flip: set_map)
  moreover have "mset (active new) \<subseteq># mset (map te_hash new)"
    by (simp add: active_def image_mset_subseteq_mono)
  ultimately show ?thesis by simp
qed

lemma written_active:
  assumes "store_load f = Inr es" "f' = f \<or> f' = JsonFile (store_payload (kept @ new))" "store_load f' = Inr es'"
    "mset (active kept) \<subseteq># mset (active es)" "map te_hash new = map JStr hs" "distinct hs"
  shows "mset (active es') \<subseteq># mset (active es) + mset_set (JStr ` set hs)"
  using assms(2)
proof
  assume "f' = f"
  then show ?thesis using assms(1,3) by simp
next
  assume "f' = JsonFile (store_payload (kept @ new))"
  then have "active es' = active (kept @ new)" using assms(3) payload_active by blast
  then show ?thesis using assms(4) new_active [OF assms(5,6)] by (simp add: subset_mset.add_mono)
qed

lemma token_op_active:
  assumes "token_op epoch f ks new f'" "store_load f' = Inr es'"
  shows "\<exists>es. store_load f = Inr es \<and> mset (map JStr ks) \<subseteq># mset (active es)
    \<and> mset (active es') \<subseteq># (mset (active es) - mset (map JStr ks)) + mset_set (JStr ` new) \<and> finite new"
proof (cases "store_load f")
  case (Inl er)
  from assms(1) have "f' = f"
    by cases (use Inl in \<open>auto simp: add_many_def rotate_token_def revoke_def compact_expired_oauth_def\<close>)
  then show ?thesis using Inl assms(2) by simp
next
  case (Inr es)
  from assms(1) show ?thesis
  proof cases
    case (add wo new' c r hs)
    have "\<exists>kept. (f' = f \<or> f' = JsonFile (store_payload (kept @ new'))) \<and> mset (active kept) \<subseteq># mset (active es)"
      using add Inr by (auto simp: add_many_def split: sum.splits dest!: store_write_file dest: compacted_active)
    then show ?thesis using written_active [OF Inr _ assms(2)] add Inr by auto
  next
    case (rotate wo stamp h new' c r hs)
    show ?thesis
    proof (cases "revoke_first (\<lambda>e. te_hash e = JStr h) stamp es")
      case None
      then show ?thesis using rotate Inr assms(2) by (auto simp: rotate_token_def)
    next
      case (Some p)
      then obtain revoked es1 where rv: "revoke_first (\<lambda>e. te_hash e = JStr h) stamp es = Some (revoked, es1)" by (cases p) simp
      have h: "mset (active es) = add_mset (JStr h) (mset (active es1))"
        using rv by (rule revoke_first_Some) simp
      consider "f' = f" "ks = []"
        | kept where "f' = JsonFile (store_payload (kept @ new'))" "mset (active kept) \<subseteq># mset (active es1)" "ks = [] \<or> ks = [h]"
        using rotate rv Inr
        by (auto simp: rotate_token_def split: sum.splits option.splits dest!: writing_file dest: compacted_active)
      then show ?thesis
      proof cases
        case 1
        then show ?thesis using Inr assms(2) rotate by simp
      next
        case 2
        then have "active es' = active (kept @ new')" using assms(2) payload_active by blast
        then have "mset (active es') \<subseteq># mset (active es1) + mset_set (JStr ` new)"
          using 2(2) new_active [OF rotate(4,5)] rotate(2) by (simp add: subset_mset.add_mono)
        moreover have "mset (active es1) \<subseteq># mset (active es) - mset (map JStr ks)"
          using 2(3) h by auto
        ultimately have "mset (active es') \<subseteq># (mset (active es) - mset (map JStr ks)) + mset_set (JStr ` new)"
          by (meson subset_mset.add_right_mono subset_mset.order_trans)
        then show ?thesis using Inr 2(3) h rotate(2) by auto
      qed
    qed
  next
    case (revoke wo stamp i r)
    show ?thesis
    proof (cases "revoke_first (\<lambda>e. te_id e = i) stamp es")
      case None
      then show ?thesis using revoke Inr assms(2) by (auto simp: revoke_def)
    next
      case (Some p)
      then obtain revoked es1 where rv: "revoke_first (\<lambda>e. te_id e = i) stamp es = Some (revoked, es1)" by (cases p) simp
      have "mset (active es1) \<subseteq># mset (active es)" using rv by (rule revoke_first_Some) simp
      moreover have "f' = f \<or> f' = JsonFile (store_payload es1)"
        using revoke rv Inr by (auto simp: revoke_def dest!: writing_file)
      ultimately show ?thesis using Inr assms(2) revoke payload_active by auto
    qed
  next
    case (compact wo now r)
    have "f' = f \<or> (\<exists>kept. f' = JsonFile (store_payload kept) \<and> mset (active kept) \<subseteq># mset (active es))"
      using compact Inr filter_stale_oauth_eq [THEN arg_cong [of _ _ "\<lambda>es. mset (active es)"]] active_filter [of _ es]
      by (auto simp: compact_expired_oauth_def Let_def split: sum.splits if_splits dest!: writing_file)
    then show ?thesis using Inr assms(2) compact payload_active by auto
  qed
qed

lemma count_distinct: "distinct xs \<Longrightarrow> count (mset xs) x = (if x \<in> set xs then 1 else 0)"
  by (simp add: distinct_count_atmost_1)

lemma token_op_uses:
  assumes "token_op epoch f ks new f'"
  shows "ks = [] \<or> (\<exists>h. ks = [h] \<and> h \<in> live_hashes f)"
  using assms
proof cases
  case (rotate wo stamp h new' c r hs)
  show ?thesis
  proof (cases "\<exists>e. r = Inr (Some e)")
    case True
    then obtain e es p where "store_load f = Inr es" "revoke_first (\<lambda>e. te_hash e = JStr h) stamp es = Some p"
      using rotate by (auto simp: rotate_token_def split: sum.splits option.splits)
    moreover from this(2) have "JStr h \<in> set (active es)"
      by (cases p, simp, elim revoke_first_Some) simp
    ultimately show ?thesis using rotate by (auto simp: live_hashes_def split: sum.splits option.splits)
  next
    case False
    then show ?thesis using rotate by (auto split: sum.splits option.splits)
  qed
qed auto

lemma token_op_contract:
  assumes op: "token_op epoch f ks new f'" and u: "unambiguous f"
  shows "distinct ks" "set ks \<subseteq> live_hashes f" "live_hashes f' \<subseteq> (live_hashes f - set ks) \<union> new"
    "new \<inter> live_hashes f = {} \<Longrightarrow> unambiguous f'"
proof -
  show "distinct ks" "set ks \<subseteq> live_hashes f" using token_op_uses [OF op] by auto
  show "live_hashes f' \<subseteq> (live_hashes f - set ks) \<union> new"
  proof (cases "store_load f'")
    case (Inr es')
    from token_op_active [OF op Inr] obtain es where es: "store_load f = Inr es"
      "mset (active es') \<subseteq># (mset (active es) - mset (map JStr ks)) + mset_set (JStr ` new)" "finite new" by auto
    have d: "distinct (active es)" using u es(1) by (simp add: unambiguous_def)
    show ?thesis
    proof
      fix h assume "h \<in> live_hashes f'"
      then have "JStr h \<in># (mset (active es) - mset (map JStr ks)) + mset_set (JStr ` new)"
        using Inr es(2) by (auto simp: live_hashes_def dest: mset_subset_eqD)
      then have "h \<in> new \<or> count (mset (map JStr ks)) (JStr h) < count (mset (active es)) (JStr h)"
        using es(3) by (auto simp: in_diff_count)
      moreover have "h \<in> live_hashes f - set ks" if "count (mset (map JStr ks)) (JStr h) < count (mset (active es)) (JStr h)"
      proof -
        have "count (mset (active es)) (JStr h) \<le> 1" using d by (simp add: count_distinct)
        then have "count (mset (active es)) (JStr h) \<noteq> 0" "count (mset (map JStr ks)) (JStr h) = 0"
          using that by linarith+
        then have "JStr h \<in> set (active es)" "JStr h \<notin> set (map JStr ks)"
          using count_mset_0_iff by metis+
        then show ?thesis using es(1) by (auto simp: live_hashes_def)
      qed
      ultimately show "h \<in> (live_hashes f - set ks) \<union> new" by blast
    qed
  qed (simp add: live_hashes_def)
  show "unambiguous f'" if fresh: "new \<inter> live_hashes f = {}"
  proof (cases "store_load f'")
    case (Inr es')
    from token_op_active [OF op Inr] obtain es where es: "store_load f = Inr es"
      "mset (active es') \<subseteq># (mset (active es) - mset (map JStr ks)) + mset_set (JStr ` new)" "finite new" by auto
    have d: "distinct (active es)" using u es(1) by (simp add: unambiguous_def)
    have "count (mset (active es')) x \<le> 1" for x
    proof -
      have "count (mset (active es')) x \<le> count (mset (active es)) x + count (mset_set (JStr ` new)) x"
        using mset_subset_eq_count [OF es(2), of x] by simp
      also have "\<dots> \<le> 1"
      proof (cases "x \<in> JStr ` new")
        case True
        then have "x \<notin> set (active es)" using fresh es(1) by (auto simp: live_hashes_def)
        then show ?thesis using True d es(3) by (simp add: count_mset_set' count_distinct)
      next
        case False
        then show ?thesis using d by (simp add: count_distinct)
      qed
      finally show ?thesis .
    qed
    then have "distinct (active es')" unfolding distinct_count_atmost_1
      by (metis count_greater_zero_iff le_antisym less_one not_le set_mset_mset count_mset_0_iff)
    then show ?thesis using Inr by (simp add: unambiguous_def)
  qed (simp add: unambiguous_def)
qed

interpretation tokens: single_use live_hashes "\<lambda>f ks new f'. unambiguous f \<and> token_op epoch f ks new f'" for epoch
  by unfold_locales (auto dest: token_op_contract)

lemma token_history_ledger:
  "token_history epoch f seen spent \<Longrightarrow> unambiguous f \<and> tokens.ledger f seen spent"
proof (induction rule: token_history.induct)
  case (start f seen)
  then show ?case by (simp add: tokens.ledger_init)
next
  case (step f seen spent ks new f')
  have "new \<inter> live_hashes f = {}" using step by (auto simp: tokens.ledger_def)
  then show ?case
    using step token_op_contract(4) [OF step.hyps(2)] tokens.ledger_step [of f seen spent epoch ks new f'] by auto
qed

lemma rotate_dead:
  assumes "h \<notin> live_hashes f"
  shows "rotate_token epoch wo stamp h new c f = (Inr None, f) \<or> (\<exists>er. rotate_token epoch wo stamp h new c f = (Inl er, f))"
proof (cases "store_load f")
  case (Inr es)
  have "revoke_first (\<lambda>e. te_hash e = JStr h) stamp es = None"
  proof (rule ccontr)
    assume "revoke_first (\<lambda>e. te_hash e = JStr h) stamp es \<noteq> None"
    then obtain r es1 where "revoke_first (\<lambda>e. te_hash e = JStr h) stamp es = Some (r, es1)" by auto
    then have "JStr h \<in> set (active es)" by (rule revoke_first_Some) simp
    then show False using assms Inr by (simp add: live_hashes_def)
  qed
  then show ?thesis using Inr by (simp add: rotate_token_def)
qed (simp add: rotate_token_def)

text \<open>C18: Over all histories of the store, by any processes and with failing writes, a token is rotated
  at most once: once its rotation has returned, a later rotation of it changes nothing and appends no
  replacement pair.\<close>

theorem token_rotated_once:
  assumes "token_history epoch f seen spent"
  shows "distinct spent
    \<and> (h \<in> set spent \<longrightarrow> (\<exists>r. rotate_token epoch wo stamp h new c f = (r, f) \<and> (r = Inr None \<or> (\<exists>er. r = Inl er))))"
proof -
  have l: "tokens.ledger f seen spent" using token_history_ledger [OF assms] by simp
  then show ?thesis using tokens.spent_once tokens.spent_dead rotate_dead by metis
qed

definition demo_entry :: "string \<Rightarrow> token_entry" where
  "demo_entry h = \<lparr>te_id = JStr ''oauth_rt_1'', te_hash = JStr h, te_name = JStr ''oauth-refresh'', te_profile = JStr ''oauth'',
     te_scopes = JList [JStr ''mcp:read''], te_created = JStr ''2026-01-01T00:00:00Z'', te_client = JStr ''client'',
     te_type = JStr ''refresh'', te_expires = JNull, te_revoked = JNull, te_last_used = JNull\<rparr>"

lemma demo_entry_ok: "entry_ok (demo_entry h)"
  by (simp add: entry_ok_def demo_entry_def)

lemma token_rotated_once_witness:
  "let f = JsonFile (store_payload [demo_entry ''sha256:1'']);
       f' = snd (rotate_token (\<lambda>_. None) Written ''now'' ''sha256:1'' [demo_entry ''sha256:2''] (Some 5) f) in
   store_load f' = Inr [demo_entry ''sha256:2'']
   \<and> snd (rotate_token (\<lambda>_. None) Written ''later'' ''sha256:1'' [demo_entry ''sha256:3''] (Some 6) f') = f'"
proof -
  let ?f = "JsonFile (store_payload [demo_entry ''sha256:1''])"
  let ?f' = "JsonFile (store_payload [demo_entry ''sha256:2''])"
  have f: "store_load ?f = Inr [demo_entry ''sha256:1'']" by (rule store_round_trip) (simp add: demo_entry_ok)
  have f': "store_load ?f' = Inr [demo_entry ''sha256:2'']" by (rule store_round_trip) (simp add: demo_entry_ok)
  have rot: "rotate_token (\<lambda>_. None) Written ''now'' ''sha256:1'' [demo_entry ''sha256:2''] (Some 5) ?f
      = (Inr (Some ((demo_entry ''sha256:1'')\<lparr>te_revoked := JStr ''now''\<rparr>)), ?f')"
    by (simp add: rotate_token_def f writing_def store_write_def compacted_def oauth_record_is_stale_def) (simp add: demo_entry_def)
  have "token_history (\<lambda>_. None) ?f {''sha256:1''} []"
    by (rule token_history.start) (simp_all add: unambiguous_def live_hashes_def f, simp add: demo_entry_def)
  from token_history.step [OF this token_op.rotate [OF rot, of "[''sha256:2'']"]]
  have "token_history (\<lambda>_. None) ?f' ({''sha256:1''} \<union> {''sha256:2''}) [''sha256:1'']"
    by (simp add: demo_entry_def)
  from token_rotated_once [OF this, where h = "''sha256:1''" and wo = Written and stamp = "''later''"
      and new = "[demo_entry ''sha256:3'']" and c = "Some 6"] obtain r where
    "rotate_token (\<lambda>_. None) Written ''later'' ''sha256:1'' [demo_entry ''sha256:3''] (Some 6) ?f' = (r, ?f')" by auto
  then show ?thesis using rot f' by (simp add: Let_def)
qed

text \<open>What the retention sweep leaves of a file: operator records always, OAuth records while they are live.\<close>

definition retained :: "(string \<Rightarrow> time option) \<Rightarrow> time \<Rightarrow> token_entry \<Rightarrow> bool" where
  "retained epoch now e \<longleftrightarrow>
     te_profile e \<noteq> JStr ''oauth''
     \<or> te_revoked e = JNull \<and> (\<forall>t. parse_expiry_epoch epoch (te_expires e) = Inr (Some t) \<longrightarrow> now \<le> t)"

lemma filter_retained:
  assumes "filter_stale_oauth epoch now es = Inr kept"
  shows "kept = filter (retained epoch now) es"
proof -
  have "(te_profile e \<noteq> JStr ''oauth'' \<or> oauth_record_is_stale epoch now e \<noteq> Inr True) = retained epoch now e" if "e \<in> set es" for e
  proof -
    have "te_profile e = JStr ''oauth'' \<Longrightarrow> te_revoked e = JNull \<Longrightarrow> \<exists>t. parse_expiry_epoch epoch (te_expires e) = Inr t"
      using assms that
      by (induction es arbitrary: kept) (auto simp: oauth_record_is_stale_def split: sum.splits if_splits)
    then show ?thesis
      by (auto simp: retained_def oauth_record_is_stale_def split: sum.splits option.splits)
  qed
  then show ?thesis using filter_stale_oauth_eq [OF assms] by (simp cong: filter_cong)
qed

lemma written_ok: "list_all entry_ok es \<Longrightarrow> writing Written es x f = (r, f') \<Longrightarrow> r = Inr x \<and> store_load f' = Inr es"
  by (auto simp: writing_def store_write_def store_round_trip)

text \<open>The retention sweep, alone or within an issuance, removes exactly the revoked and expired OAuth
  records: the file then reads back as the other records in their order, every operator credential with its
  revoked history among them, followed by the new ones; the count it reports is the number removed.\<close>

theorem sweep_keeps_operator_records:
  assumes "store_load f = Inr es" "list_all entry_ok es" "list_all entry_ok new" "filter_stale_oauth epoch now es = Inr kept"
  shows "(case add_many epoch Written new (Some now) f of (r, f') \<Rightarrow>
      r = Inr () \<and> store_load f' = Inr (filter (retained epoch now) es @ new))
    \<and> (case compact_expired_oauth epoch Written now f of (r, f') \<Rightarrow>
      r = Inr (length (filter (\<lambda>e. \<not> retained epoch now e) es)) \<and> store_load f' = Inr (filter (retained epoch now) es))"
proof -
  have k: "kept = filter (retained epoch now) es" by (rule filter_retained [OF assms(4)])
  have n: "length (filter (\<lambda>e. \<not> retained epoch now e) es) = length es - length (filter (retained epoch now) es)"
    using sum_length_filter_compl [of "retained epoch now" es] by linarith
  have ok: "list_all entry_ok kept" using assms(2) unfolding k by (auto simp: list_all_iff)
  have "kept = es" if "length es - length kept = 0"
  proof -
    have "length es \<le> length (filter (retained epoch now) es)" using that unfolding k by simp
    then show ?thesis unfolding k by (metis filter_id_conv le_antisym length_filter_le length_filter_less less_irrefl)
  qed
  then have "(case compact_expired_oauth epoch Written now f of (r, f') \<Rightarrow>
      r = Inr (length es - length kept) \<and> store_load f' = Inr kept)"
    using assms(1,4) ok by (auto simp: compact_expired_oauth_def Let_def writing_def store_write_def store_round_trip)
  moreover have "(case add_many epoch Written new (Some now) f of (r, f') \<Rightarrow> r = Inr () \<and> store_load f' = Inr (kept @ new))"
    using assms(1,3,4) ok by (simp add: add_many_def compacted_def store_write_def store_round_trip)
  ultimately show ?thesis unfolding k n by blast
qed

definition demo_operator :: token_entry where
  "demo_operator = (demo_entry ''sha256:9'')\<lparr>te_profile := JStr ''operator'', te_revoked := JStr ''long ago''\<rparr>"

lemma sweep_keeps_operator_records_witness:
  "let f = JsonFile (store_payload [demo_operator, (demo_entry ''sha256:1'')\<lparr>te_revoked := JStr ''now''\<rparr>, demo_entry ''sha256:2'']) in
   fst (compact_expired_oauth (\<lambda>_. None) Written 7 f) = Inr 1"
proof -
  let ?es = "[demo_operator, (demo_entry ''sha256:1'')\<lparr>te_revoked := JStr ''now''\<rparr>, demo_entry ''sha256:2'']"
  have ok: "list_all entry_ok ?es" by (simp add: entry_ok_def demo_operator_def demo_entry_def)
  have f: "filter_stale_oauth (\<lambda>_. None) 7 ?es = Inr [demo_operator, demo_entry ''sha256:2'']"
    by (simp add: oauth_record_is_stale_def parse_expiry_epoch_def demo_operator_def demo_entry_def)
  have n: "length (filter (\<lambda>e. \<not> retained (\<lambda>_. None) 7 e) ?es) = 1"
    by (simp add: retained_def parse_expiry_epoch_def demo_operator_def demo_entry_def)
  show ?thesis
    using sweep_keeps_operator_records [OF store_round_trip [OF ok] ok _ f, of "[]"] n
    by (simp add: Let_def case_prod_beta)
qed

end
