(* ===== verification/ToolScopes.thy ===== *)
theory ToolScopes
  imports Prelude PyJson
begin

text \<open>
  \<open>examples/mcp_server/tool_scopes.py\<close>: which scopes a tool needs, which scopes an access profile grants, and
  the tool a JSON-RPC request calls. The parsed body is an argument (\<open>None\<close> when it is not JSON).
\<close>

definition ACCESS_PROFILES :: "(string \<times> string list) list" where
  "ACCESS_PROFILES =
     [(''viewer'', [''mcp:read'', ''mcp:repo'', ''mcp:docs'']),
      (''operator'', [''mcp:read'', ''mcp:project'', ''mcp:handoff'', ''mcp:repo'', ''mcp:docs'']),
      (''agent-runner'', [''mcp:read'', ''mcp:project'', ''mcp:handoff'', ''mcp:agent-run'', ''mcp:repo'', ''mcp:docs'']),
      (''infra'', [''mcp:read'', ''mcp:docker'', ''mcp:docker:admin'', ''mcp:postgres'', ''mcp:repo'']),
      (''mcp_client_safe'', [''mcp:read'', ''mcp:project'', ''mcp:repo'', ''mcp:docs'']),
      (''full'', [''mcp:read'', ''mcp:project'', ''mcp:handoff'', ''mcp:agent-run'', ''mcp:execute'', ''mcp:repo'', ''mcp:docker'', ''mcp:docker:admin'', ''mcp:postgres'', ''mcp:docs'', ''mcp:admin''])]"

definition TOOL_SCOPES :: "(string \<times> string list) list" where
  "TOOL_SCOPES =
     [(''health'', [''mcp:read'']), (''tools_manifest'', [''mcp:read'']), (''gateway_catalog'', [''mcp:read'']),
      (''gateway_skill'', [''mcp:read'']), (''project_list'', [''mcp:read'']),
      (''scan_command'', [''mcp:read'', ''mcp:project'']), (''scan_file'', [''mcp:read'', ''mcp:project'']),
      (''explain_pattern'', [''mcp:read'']), (''list_sessions'', [''mcp:read'']),
      (''session_health'', [''mcp:read'']), (''execute_restricted'', [''mcp:execute'']),
      (''execute_argv'', [''mcp:execute'']), (''job_status'', [''mcp:read'']), (''job_result'', [''mcp:read'']),
      (''job_cancel'', [''mcp:agent-run'']), (''wait_job'', [''mcp:read'']), (''job_wait'', [''mcp:read'']),
      (''repo_status'', [''mcp:read'']), (''self_test'', [''mcp:read'']), (''latency_report'', [''mcp:read'']),
      (''diagnostics_latency'', [''mcp:read'']), (''info'', [''mcp:read'', ''mcp:project'']),
      (''working_directory'', [''mcp:project'']), (''git_write_capabilities'', [''mcp:read'', ''mcp:project'']),
      (''git_status'', [''mcp:project'']), (''git_add'', [''mcp:project'']), (''git_set_gitlink'', [''mcp:project'']),
      (''git_commit'', [''mcp:project'']), (''git_create_branch'', [''mcp:project'']),
      (''git_fetch_ref'', [''mcp:project'']), (''git_refresh_branch_to_head'', [''mcp:project'']),
      (''git_update_branch_by_merge'', [''mcp:project'']), (''git_push'', [''mcp:project'']),
      (''recent_commits'', [''mcp:project'']), (''git_diff_stat'', [''mcp:project'']),
      (''git_diff'', [''mcp:project'']), (''git_diff_cached'', [''mcp:project'']),
      (''show_changes'', [''mcp:project'']), (''show_file_diff'', [''mcp:project'']),
      (''run_tests'', [''mcp:project'']), (''run_lint'', [''mcp:project'']), (''run_compileall'', [''mcp:project'']),
      (''run_pytest'', [''mcp:project'']), (''run_ruff'', [''mcp:project'']), (''run_mypy'', [''mcp:project'']),
      (''read_file'', [''mcp:project'']), (''search_text'', [''mcp:project'']), (''find_files'', [''mcp:project'']),
      (''list_files'', [''mcp:read'', ''mcp:project'']), (''tree'', [''mcp:project'']),
      (''list_tree'', [''mcp:read'', ''mcp:project'']), (''remotes'', [''mcp:project'']),
      (''current_branch'', [''mcp:project'']), (''commit_head'', [''mcp:project'']),
      (''apply_patch'', [''mcp:project'']), (''read_handoff'', [''mcp:handoff'']),
      (''show_handoff_status'', [''mcp:handoff'']), (''write_handoff_plan'', [''mcp:handoff'']),
      (''write_agent_task'', [''mcp:handoff'']), (''read_agent_status'', [''mcp:handoff'']),
      (''read_agent_report'', [''mcp:handoff'']), (''read_agent_diff'', [''mcp:handoff'']),
      (''read_agent_log'', [''mcp:handoff'']), (''read_agent_artifact'', [''mcp:handoff'']),
      (''agent_status'', [''mcp:handoff'']), (''inspect_agent_task'', [''mcp:handoff'']),
      (''list_agent_tasks'', [''mcp:handoff'']), (''cancel_agent_task'', [''mcp:agent-run'', ''mcp:handoff'']),
      (''retry_agent_task'', [''mcp:agent-run'', ''mcp:handoff'']), (''archive_agent_task'', [''mcp:handoff'']),
      (''supervisor_integrate_file'', [''mcp:admin'']), (''supervisor_recover_integrations'', [''mcp:admin'']),
      (''supervisor_register_project'', [''mcp:admin'']),
      (''supervisor_repair_project_git_metadata'', [''mcp:project'', ''mcp:admin'']),
      (''supervisor_reconcile_candidate_registry'', [''mcp:admin'']),
      (''supervisor_unregister_project'', [''mcp:admin'']),
      (''prepare_candidate_clone'', [''mcp:repo'', ''mcp:admin'']),
      (''candidate_adopt'', [''mcp:repo'', ''mcp:admin'']), (''candidate_cleanup'', [''mcp:repo'', ''mcp:admin'']),
      (''candidate_discard_untracked_file'', [''mcp:repo'', ''mcp:admin'']),
      (''candidate_cleanup_abort_legacy_prepared'', [''mcp:admin'']),
      (''candidate_orphan_finalize'', [''mcp:repo'', ''mcp:admin'']),
      (''fleet_status'', [''mcp:agent-run'', ''mcp:admin'']),
      (''fleet_reconcile_unbound'', [''mcp:agent-run'', ''mcp:admin'']), (''run_opencode'', [''mcp:agent-run'']),
      (''run_agent'', [''mcp:agent-run'']), (''run_agents'', [''mcp:agent-run'']), (''coord_inbox'', [''mcp:repo'']),
      (''coord_board'', [''mcp:repo'']), (''coord_open'', [''mcp:repo'']), (''coord_create'', [''mcp:repo'']),
      (''coord_reply'', [''mcp:repo'']), (''coord_accept'', [''mcp:repo'']), (''coord_update'', [''mcp:repo'']),
      (''coord_close'', [''mcp:repo'', ''mcp:admin'']), (''gitea_get_repo'', [''mcp:repo'']),
      (''gitea_list_branches'', [''mcp:repo'']), (''gitea_list_commits'', [''mcp:repo'']),
      (''gitea_list_commit_statuses'', [''mcp:repo'']), (''gitea_get_file'', [''mcp:repo'']),
      (''gitea_list_issues'', [''mcp:repo'']), (''gitea_get_issue'', [''mcp:repo'']),
      (''gitea_list_pull_requests'', [''mcp:repo'']), (''gitea_get_pull_request'', [''mcp:repo'']),
      (''gitea_get_branch_protection'', [''mcp:repo'']),
      (''gitea_create_pull_request'', [''mcp:repo'', ''mcp:admin'']),
      (''gitea_merge_pull_request'', [''mcp:repo'', ''mcp:admin'']),
      (''gitea_rerun_action_run'', [''mcp:repo'', ''mcp:admin'']),
      (''gitea_rerun_action_job'', [''mcp:repo'', ''mcp:admin'']),
      (''gitea_dispatch_workflow'', [''mcp:repo'', ''mcp:admin'']),
      (''gitea_workflow_dispatch_status'', [''mcp:repo'', ''mcp:admin'']),
      (''gitea_cancel_action_run'', [''mcp:repo'', ''mcp:admin'']),
      (''gitea_create_branch_at_sha'', [''mcp:repo'', ''mcp:admin'']),
      (''gitea_set_default_branch'', [''mcp:repo'', ''mcp:admin'']),
      (''gitea_set_branch_protection'', [''mcp:repo'', ''mcp:admin'']),
      (''gitea_delete_branch_protection'', [''mcp:repo'', ''mcp:admin'']),
      (''gitea_actions_secret_source_status'', [''mcp:repo'', ''mcp:admin'']),
      (''gitea_provision_actions_secret'', [''mcp:repo'', ''mcp:admin'']),
      (''gitea_close_issue'', [''mcp:repo'', ''mcp:admin'']),
      (''gitea_close_pull_request'', [''mcp:repo'', ''mcp:admin'']),
      (''gitea_delete_branch'', [''mcp:repo'', ''mcp:admin'']),
      (''gitea_materialize_task_candidate'', [''mcp:repo'', ''mcp:admin'']),
      (''gitea_push_local_ref'', [''mcp:repo'', ''mcp:admin'']),
      (''gitea_push_verified_commit'', [''mcp:repo'', ''mcp:admin'']), (''gitea_list_action_runs'', [''mcp:repo'']),
      (''gitea_get_action_run'', [''mcp:repo'']), (''gitea_list_action_run_artifacts'', [''mcp:repo'']),
      (''gitea_list_action_run_jobs'', [''mcp:repo'']), (''gitea_list_action_jobs'', [''mcp:repo'']),
      (''gitea_get_action_job_logs'', [''mcp:repo'']), (''gitea_list_workflows'', [''mcp:repo'']),
      (''github_get_repo'', [''mcp:repo'']), (''github_list_branches'', [''mcp:repo'']),
      (''github_list_commits'', [''mcp:repo'']), (''github_get_file'', [''mcp:repo'']),
      (''github_list_issues'', [''mcp:repo'']), (''github_get_issue'', [''mcp:repo'']),
      (''github_list_pull_requests'', [''mcp:repo'']), (''github_get_pull_request'', [''mcp:repo'']),
      (''docker_ps'', [''mcp:docker'']), (''docker_images'', [''mcp:docker'']),
      (''docker_inspect'', [''mcp:docker'']), (''docker_network_ls'', [''mcp:docker'']),
      (''docker_network_inspect'', [''mcp:docker'']), (''docker_logs'', [''mcp:docker'']),
      (''docker_stats'', [''mcp:docker'']), (''docker_site_audit_deploy_status'', [''mcp:docker'']),
      (''docker_site_audit_crm_ingress_readiness'', [''mcp:docker'']), (''docker_compose_ps'', [''mcp:docker'']),
      (''docker_compose_services'', [''mcp:docker'']), (''docker_start'', [''mcp:docker'']),
      (''docker_stop'', [''mcp:docker'']), (''docker_restart'', [''mcp:docker'']),
      (''docker_compose_up'', [''mcp:docker'']), (''docker_compose_restart'', [''mcp:docker'']),
      (''docker_compose_build'', [''mcp:docker'']), (''docker_compose_logs'', [''mcp:docker'']),
      (''docker_rm'', [''mcp:docker'']), (''docker_compose_down'', [''mcp:docker'']),
      (''docker_prune'', [''mcp:docker'']), (''confirm_operation'', [''mcp:docker'']),
      (''docker_pending_actions'', [''mcp:docker'']), (''docker_exec'', [''mcp:docker:admin'']),
      (''docker_run'', [''mcp:docker:admin'']), (''docker_rmi'', [''mcp:docker:admin'']),
      (''docker_volume_rm'', [''mcp:docker:admin'']), (''docker_deploy_contract'', [''mcp:docker:admin'']),
      (''docker_prepare_site_audit_lkg_recovery'', [''mcp:docker:admin'']),
      (''docker_deploy_site_audit'', [''mcp:docker:admin'']),
      (''docker_provision_site_audit_crm'', [''mcp:docker:admin'']),
      (''docker_deploy_xloud'', [''mcp:docker:admin'']), (''docker_recover_deployment'', [''mcp:docker:admin'']),
      (''docker_recovery_catalog'', [''mcp:docker'']), (''docker_deploy_content_harvester'', [''mcp:docker:admin'']),
      (''docker_migrate_content_harvester'', [''mcp:docker:admin'']), (''postgres_health'', [''mcp:postgres'']),
      (''postgres_list_schemas'', [''mcp:postgres'']), (''postgres_list_tables'', [''mcp:postgres'']),
      (''postgres_describe_table'', [''mcp:postgres'']), (''postgres_select'', [''mcp:postgres'']),
      (''postgres_vector_status'', [''mcp:postgres'']), (''resolve_library_id'', [''mcp:docs'']),
      (''query_docs'', [''mcp:docs'']), (''site_asset_transfer'', [''mcp:project'']),
      (''site_media_pipeline'', [''mcp:project'']), (''workspace_file_write'', [''mcp:project'']),
      (''workspace_file_edit'', [''mcp:project'']), (''workspace_apply_patch'', [''mcp:project'']),
      (''workspace_preview_write'', [''mcp:project'']), (''workspace_preview_edit'', [''mcp:project'']),
      (''workspace_preview_patch'', [''mcp:project'']), (''workspace_verify'', [''mcp:project'']),
      (''todo_backlog_upsert'', [''mcp:project''])]"

definition FLEET_ROUTE_SCOPES :: "(string \<times> string list) list" where
  "FLEET_ROUTE_SCOPES =
     [(''/mcp/gitea'', [''mcp:repo'']), (''/mcp/github'', [''mcp:repo'']), (''/mcp/docker'', [''mcp:docker'']),
      (''/mcp/postgres'', [''mcp:postgres'']), (''/mcp/context7'', [''mcp:docs''])]"

definition FAIL_CLOSED_SCOPE :: string where
  "FAIL_CLOSED_SCOPE = ''mcp:admin''"

definition get_required_scopes :: "string \<Rightarrow> string list" where
  "get_required_scopes tool =
     (case map_of TOOL_SCOPES tool of None \<Rightarrow> [FAIL_CLOSED_SCOPE] | Some ss \<Rightarrow> ss)"

text \<open>\<open>None\<close>: the \<open>ValueError\<close> of an unknown profile.\<close>

definition get_profile_scopes :: "string \<Rightarrow> string list option" where
  "get_profile_scopes profile = map_of ACCESS_PROFILES profile"

definition has_required_scope :: "string list \<Rightarrow> string \<Rightarrow> bool" where
  "has_required_scope scopes tool = list_all (\<lambda>s. s \<in> set scopes) (get_required_scopes tool)"

fun fleet_route :: "(string \<times> string list) list \<Rightarrow> string \<Rightarrow> string list \<Rightarrow> bool \<times> string option" where
  "fleet_route [] path scopes = (True, None)"
| "fleet_route ((prefix, required) # routes) path scopes =
     (if startswith path prefix
      then (let allowed = list_ex (\<lambda>s. s \<in> set scopes) required in
            (allowed, if allowed then None else Some (hd required)))
      else fleet_route routes path scopes)"

definition check_fleet_route :: "string \<Rightarrow> string list \<Rightarrow> bool \<times> string option" where
  "check_fleet_route path scopes = fleet_route FLEET_ROUTE_SCOPES path scopes"

text \<open>\<open>JNull\<close> is the \<open>None\<close> of a request that calls no tool.\<close>

definition extract_tool_from_body :: "json option \<Rightarrow> json" where
  "extract_tool_from_body body =
     (case body of
        None \<Rightarrow> JNull
      | Some data \<Rightarrow>
          if \<not> is_obj data \<or> jget data ''method'' \<noteq> JStr ''tools/call'' then JNull
          else if \<not> is_obj (jget data ''params'') then JNull
          else jget (jget data ''params'') ''name'')"

subsection \<open>What the profiles can call\<close>

lemma unknown_tool_needs_admin:
  "map_of TOOL_SCOPES tool = None \<Longrightarrow> has_required_scope scopes tool \<longleftrightarrow> ''mcp:admin'' \<in> set scopes"
  by (simp add: has_required_scope_def get_required_scopes_def FAIL_CLOSED_SCOPE_def)

lemma has_required_scope_mono:
  "has_required_scope ss tool \<Longrightarrow> set ss \<subseteq> set ts \<Longrightarrow> has_required_scope ts tool"
  by (auto simp: has_required_scope_def list_all_iff)

text \<open>Every tool of the table needs a scope, and only known ones.\<close>

lemma table_scopes: "list_all (\<lambda>(t, ss). ss \<noteq> [] \<and> list_all (\<lambda>s. s \<in> set (the (get_profile_scopes ''full''))) ss) TOOL_SCOPES"
  by code_simp

lemma required_nonempty: "get_required_scopes tool \<noteq> []"
proof (cases "map_of TOOL_SCOPES tool")
  case (Some ss)
  then show ?thesis using table_scopes by (auto simp: get_required_scopes_def list_all_iff dest!: map_of_SomeD)
qed (simp add: get_required_scopes_def)

lemma no_scope_no_tool: "\<not> has_required_scope [] tool"
  using required_nonempty [of tool] by (cases "get_required_scopes tool") (auto simp: has_required_scope_def)

definition profile_allows :: "string \<Rightarrow> string \<Rightarrow> bool" where
  "profile_allows profile tool \<longleftrightarrow>
     (case get_profile_scopes profile of None \<Rightarrow> False | Some scopes \<Rightarrow> has_required_scope scopes tool)"

lemma profile_scopes_chain:
  "set (the (get_profile_scopes ''viewer'')) \<subseteq> set (the (get_profile_scopes ''mcp_client_safe''))"
  "set (the (get_profile_scopes ''mcp_client_safe'')) \<subseteq> set (the (get_profile_scopes ''operator''))"
  "set (the (get_profile_scopes ''operator'')) \<subseteq> set (the (get_profile_scopes ''agent-runner''))"
  "set (the (get_profile_scopes ''agent-runner'')) \<subseteq> set (the (get_profile_scopes ''full''))"
  "set (the (get_profile_scopes ''infra'')) \<subseteq> set (the (get_profile_scopes ''full''))"
  by code_simp+

lemma profiles_known: "list_all (\<lambda>p. get_profile_scopes p \<noteq> None) [''viewer'', ''mcp_client_safe'', ''operator'', ''agent-runner'', ''infra'', ''full'']"
  by code_simp

lemma profile_allows_mono:
  "get_profile_scopes p \<noteq> None \<Longrightarrow> get_profile_scopes q \<noteq> None \<Longrightarrow>
   set (the (get_profile_scopes p)) \<subseteq> set (the (get_profile_scopes q)) \<Longrightarrow> profile_allows p tool \<Longrightarrow> profile_allows q tool"
  by (auto simp: profile_allows_def intro: has_required_scope_mono)

lemma only_full_admin: "list_all (\<lambda>(p, ss). ''mcp:admin'' \<in> set ss \<or> ''mcp:execute'' \<in> set ss \<longrightarrow> p = ''full'') ACCESS_PROFILES"
  by code_simp

text \<open>The access profiles are ordered, viewer, safe, operator, agent-runner, full, and infra below full: each can
  call every tool the one before it can. A tool that needs \<open>mcp:admin\<close> or \<open>mcp:execute\<close>, and any tool the table
  does not know, can be called with the full profile only.\<close>

theorem access_profiles_ordered:
  "(profile_allows ''viewer'' tool \<longrightarrow> profile_allows ''mcp_client_safe'' tool)
   \<and> (profile_allows ''mcp_client_safe'' tool \<longrightarrow> profile_allows ''operator'' tool)
   \<and> (profile_allows ''operator'' tool \<longrightarrow> profile_allows ''agent-runner'' tool)
   \<and> (profile_allows ''agent-runner'' tool \<longrightarrow> profile_allows ''full'' tool)
   \<and> (profile_allows ''infra'' tool \<longrightarrow> profile_allows ''full'' tool)
   \<and> (profile_allows profile tool \<and> (map_of TOOL_SCOPES tool = None \<or> ''mcp:admin'' \<in> set (get_required_scopes tool)
        \<or> ''mcp:execute'' \<in> set (get_required_scopes tool)) \<longrightarrow> profile = ''full'')"
proof -
  have k: "get_profile_scopes ''viewer'' \<noteq> None" "get_profile_scopes ''mcp_client_safe'' \<noteq> None" "get_profile_scopes ''operator'' \<noteq> None"
    "get_profile_scopes ''agent-runner'' \<noteq> None" "get_profile_scopes ''infra'' \<noteq> None" "get_profile_scopes ''full'' \<noteq> None"
    using profiles_known by simp_all
  have "profile = ''full''"
    if p: "profile_allows profile tool" "map_of TOOL_SCOPES tool = None \<or> ''mcp:admin'' \<in> set (get_required_scopes tool)
        \<or> ''mcp:execute'' \<in> set (get_required_scopes tool)"
  proof -
    obtain ss where ss: "map_of ACCESS_PROFILES profile = Some ss" "has_required_scope ss tool"
      using p(1) by (auto simp: profile_allows_def get_profile_scopes_def split: option.splits)
    have "''mcp:admin'' \<in> set ss \<or> ''mcp:execute'' \<in> set ss"
      using p(2) ss(2) unknown_tool_needs_admin [of tool ss] by (auto simp: has_required_scope_def list_all_iff)
    then show ?thesis using only_full_admin map_of_SomeD [OF ss(1)] by (auto simp: list_all_iff)
  qed
  then show ?thesis
    using profile_allows_mono [OF k(1,2) profile_scopes_chain(1)] profile_allows_mono [OF k(2,3) profile_scopes_chain(2)]
      profile_allows_mono [OF k(3,4) profile_scopes_chain(3)] profile_allows_mono [OF k(4,6) profile_scopes_chain(4)]
      profile_allows_mono [OF k(5,6) profile_scopes_chain(5)] by blast
qed

lemma access_profiles_ordered_witness:
  "profile_allows ''agent-runner'' ''run_agent'' \<and> profile_allows ''full'' ''run_agent'' \<and> \<not> profile_allows ''infra'' ''coord_close''"
proof -
  have "profile_allows ''agent-runner'' ''run_agent''" by code_simp
  moreover have "''mcp:admin'' \<in> set (get_required_scopes ''coord_close'')" by code_simp
  ultimately show ?thesis
    using access_profiles_ordered [of "''run_agent''" "''infra''"] access_profiles_ordered [of "''coord_close''" "''infra''"] by auto
qed

end
