(* ===== verification/OAuthProvider.thy ===== *)
theory OAuthProvider
  imports TokenStore ToolScopes
begin

text \<open>
  \<open>examples/mcp_server/oauth_provider.py\<close> with the persistent client store of \<open>client_store.py\<close>. The state
  is the provider's three dictionaries beside what is attached to it: the token store's file and the
  client store's content (\<open>None\<close>: not attached; a missing or broken client file is the empty list).
  Fresh random strings, the clock and the outcome of each write are arguments. Parameters of the model:
  \<open>sha\<close> (SHA-256 in hex), \<open>s256\<close> (the PKCE transform), \<open>iso\<close> (\<open>datetime.fromtimestamp(t, UTC).isoformat()\<close>)
  and \<open>epoch\<close> (its inverse, see TokenStore). An expiry of \<open>None\<close> is \<open>float("inf")\<close>.
\<close>

datatype oauth_error =
    OAuthValueError string
  | InvalidGrant string
  | OAuthRegistrationError string
  | NotConfigured
  | OAuthTypeError
  | StoreFailed token_error

record oauth_fns =
  of_sha :: "string \<Rightarrow> string"
  of_s256 :: "string \<Rightarrow> string"
  of_iso :: "time \<Rightarrow> string"
  of_epoch :: "string \<Rightarrow> time option"

definition hash_token :: "oauth_fns \<Rightarrow> string \<Rightarrow> string" where
  "hash_token fns t = ''sha256:'' @ of_sha fns t"

definition SUPPORTED_SCOPES :: "string list" where
  "SUPPORTED_SCOPES =
     [''mcp:read'', ''mcp:project'', ''mcp:handoff'', ''mcp:agent-run'', ''mcp:execute'', ''mcp:repo'',
      ''mcp:docker'', ''mcp:docker:admin'', ''mcp:postgres'', ''mcp:docs'', ''mcp:admin'']"

definition DEFAULT_SCOPES :: "string list" where
  "DEFAULT_SCOPES = SUPPORTED_SCOPES"

record stored_client =
  sc_id :: string
  sc_redirect_uris :: "string list"
  sc_name :: string
  sc_auth_method :: string
  sc_grant_types :: "string list"
  sc_response_types :: "string list"
  sc_scopes :: "string list"
  sc_created_at :: time

record stored_auth_code =
  ac_code :: string
  ac_client :: string
  ac_scopes :: "string list"
  ac_challenge :: string
  ac_redirect_uri :: string
  ac_state :: string
  ac_expires :: time
  ac_used :: bool

record stored_token =
  st_token :: string
  st_client :: json
  st_scopes :: "json list"
  st_expires :: "time option"
  st_type :: json

record oauth =
  oa_clients :: "(string \<times> stored_client) list"
  oa_codes :: "(string \<times> stored_auth_code) list"
  oa_tokens :: "(string \<times> stored_token) list"
  oa_store :: "token_file option"
  oa_client_store :: "stored_client list option"

definition new_provider :: oauth where
  "new_provider = \<lparr>oa_clients = [], oa_codes = [], oa_tokens = [], oa_store = None, oa_client_store = None\<rparr>"

subsection \<open>Helpers\<close>

definition parse_scopes :: "string option \<Rightarrow> oauth_error + string list" where
  "parse_scopes scope =
     (case scope of
        None \<Rightarrow> Inr DEFAULT_SCOPES
      | Some s \<Rightarrow>
          if s = [] then Inr DEFAULT_SCOPES
          else
            (let scopes = split_words [] (strip s) in
             case find (\<lambda>x. x \<notin> set SUPPORTED_SCOPES) scopes of
               Some x \<Rightarrow> Inl (OAuthValueError (''Unsupported scope: '' @ x))
             | None \<Rightarrow> Inr scopes))"

definition is_ascii :: "string \<Rightarrow> bool" where
  "is_ascii s \<longleftrightarrow> list_all (\<lambda>c. (of_char c :: nat) < 128) s"

text \<open>\<open>compare_digest\<close> raises \<open>TypeError\<close> on a string that is not ASCII.\<close>

definition verify_pkce :: "oauth_fns \<Rightarrow> string \<Rightarrow> string \<Rightarrow> oauth_error + bool" where
  "verify_pkce fns verifier challenge =
     (if py_len verifier < 43 \<or> 128 < py_len verifier
      then Inl (OAuthValueError ''code_verifier must be 43-128 characters'')
      else if \<not> is_ascii verifier then Inl (OAuthValueError ''ascii'')
      else if \<not> is_ascii challenge then Inl OAuthTypeError
      else Inr (of_s256 fns verifier = challenge))"

definition format_time :: "oauth_fns \<Rightarrow> time \<Rightarrow> string" where
  "format_time fns t = str_replace ''+00:00'' ''Z'' (of_iso fns t)"

definition parse_persisted_expiry :: "oauth_fns \<Rightarrow> json \<Rightarrow> token_error + time option" where
  "parse_persisted_expiry fns j = parse_expiry_epoch (of_epoch fns) j"

definition before_expiry :: "time \<Rightarrow> time option \<Rightarrow> bool" where
  "before_expiry now e = (case e of None \<Rightarrow> True | Some t \<Rightarrow> now \<le> t)"

subsection \<open>Loading\<close>

definition load_clients :: "oauth \<Rightarrow> nat \<times> oauth" where
  "load_clients s =
     (case oa_client_store s of
        None \<Rightarrow> (0, s)
      | Some cs \<Rightarrow>
          (length cs, s\<lparr>oa_clients := fold (\<lambda>c. AList.update (sc_id c) c) cs (oa_clients s)\<rparr>))"

definition register_hashed_token ::
    "json \<Rightarrow> json list \<Rightarrow> json \<Rightarrow> json \<Rightarrow> time option \<Rightarrow> (string \<times> stored_token) list
      \<Rightarrow> oauth_error + (string \<times> stored_token) list" where
  "register_hashed_token token_hash scopes client ty expires tokens =
     (case token_hash of
        JStr h \<Rightarrow>
          if \<not> startswith h ''sha256:'' then Inl (OAuthValueError (''token_hash must start with '' @ squote # ''sha256:'' @ [squote]))
          else Inr (AList.update h \<lparr>st_token = h, st_client = client, st_scopes = scopes, st_expires = expires, st_type = ty\<rparr> tokens)
      | _ \<Rightarrow> Inl OAuthTypeError)"

fun load_entries ::
    "oauth_fns \<Rightarrow> time \<Rightarrow> token_entry list \<Rightarrow> nat \<Rightarrow> (string \<times> stored_token) list
      \<Rightarrow> (oauth_error + nat) \<times> (string \<times> stored_token) list" where
  "load_entries fns now [] n tokens = (Inr n, tokens)"
| "load_entries fns now (e # es) n tokens =
     (if te_revoked e \<noteq> JNull then load_entries fns now es n tokens
      else
        (case parse_persisted_expiry fns (te_expires e) of
           Inl er \<Rightarrow> (Inl (StoreFailed er), tokens)
         | Inr expires \<Rightarrow>
             if \<not> before_expiry now expires then load_entries fns now es n tokens
             else
               (case py_iter (te_scopes e) of
                  None \<Rightarrow> (Inl OAuthTypeError, tokens)
                | Some scopes \<Rightarrow>
                    (case register_hashed_token (te_hash e) scopes (te_client e) (te_type e) expires tokens of
                       Inl er \<Rightarrow> (Inl er, tokens)
                     | Inr tokens' \<Rightarrow> load_entries fns now es (Suc n) tokens'))))"

definition load_tokens :: "oauth_fns \<Rightarrow> time \<Rightarrow> oauth \<Rightarrow> (oauth_error + nat) \<times> oauth" where
  "load_tokens fns now s =
     (case oa_store s of
        None \<Rightarrow> (Inr 0, s)
      | Some f \<Rightarrow>
          (case store_load f of
             Inl er \<Rightarrow> (Inl (StoreFailed er), s)
           | Inr es \<Rightarrow>
               (case load_entries fns now es 0 (oa_tokens s) of
                  (r, tokens) \<Rightarrow> (r, s\<lparr>oa_tokens := tokens\<rparr>))))"

definition register_static_token :: "oauth_fns \<Rightarrow> string \<Rightarrow> string \<Rightarrow> string \<Rightarrow> oauth \<Rightarrow> (oauth_error + string) \<times> oauth" where
  "register_static_token fns raw profile client s =
     (case get_profile_scopes profile of
        None \<Rightarrow> (Inl (OAuthValueError ''Unknown access profile''), s)
      | Some scopes \<Rightarrow>
          (let h = hash_token fns raw in
           (Inr h, s\<lparr>oa_tokens := AList.update h \<lparr>st_token = h, st_client = JStr client, st_scopes = map JStr scopes,
               st_expires = None, st_type = JStr ''access''\<rparr> (oa_tokens s)\<rparr>)))"

subsection \<open>Clients\<close>

definition client_store_add :: "stored_client \<Rightarrow> stored_client list \<Rightarrow> stored_client list" where
  "client_store_add client cs = filter (\<lambda>c. sc_id c \<noteq> sc_id client) cs @ [client]"

record registration =
  rn_redirect_uris :: "string list"
  rn_client_name :: string
  rn_auth_method :: string
  rn_scope :: "string option"

definition register_client :: "write_outcome \<Rightarrow> time \<Rightarrow> string \<Rightarrow> registration \<Rightarrow> oauth \<Rightarrow> (oauth_error + string) \<times> oauth" where
  "register_client wo now client_id info s =
     (if rn_redirect_uris info = []
      then (Inl (OAuthRegistrationError ''At least one redirect_uri required''), s)
      else
        (case parse_scopes (rn_scope info) of
           Inl er \<Rightarrow> (Inl er, s)
         | Inr scopes \<Rightarrow>
             (let client = \<lparr>sc_id = client_id, sc_redirect_uris = rn_redirect_uris info, sc_name = rn_client_name info,
                    sc_auth_method = (if rn_auth_method info = [] then ''none'' else rn_auth_method info),
                    sc_grant_types = [''authorization_code'', ''refresh_token''], sc_response_types = [''code''],
                    sc_scopes = scopes, sc_created_at = now\<rparr>;
                  exposed = s\<lparr>oa_clients := AList.update client_id client (oa_clients s)\<rparr> in
              case oa_client_store s of
                None \<Rightarrow> (Inr client_id, exposed)
              | Some cs \<Rightarrow>
                  (case wo of
                     Written \<Rightarrow> (Inr client_id, exposed\<lparr>oa_client_store := Some (client_store_add client cs)\<rparr>)
                   | NotWritten \<Rightarrow> (Inl (StoreFailed TokenWriteError), s)
                   | WrittenThenRaised \<Rightarrow>
                       (Inl (StoreFailed TokenWriteError), s\<lparr>oa_client_store := Some (client_store_add client cs)\<rparr>)))))"

text \<open>What a client may ask for.\<close>

definition allowed_scopes :: "stored_client \<Rightarrow> string list" where
  "allowed_scopes client = (if sc_scopes client = [] then DEFAULT_SCOPES else sc_scopes client)"

definition create_authorization_code ::
    "time \<Rightarrow> string \<Rightarrow> string \<Rightarrow> string \<Rightarrow> string \<Rightarrow> string \<Rightarrow> string list \<Rightarrow> oauth \<Rightarrow> (oauth_error + string) \<times> oauth" where
  "create_authorization_code now code client_id redirect_uri challenge state scopes s =
     (case map_of (oa_clients s) client_id of
        None \<Rightarrow> (Inl (OAuthValueError (''Unknown client: '' @ client_id)), s)
      | Some client \<Rightarrow>
          if redirect_uri \<notin> set (sc_redirect_uris client)
          then (Inl (OAuthValueError (''redirect_uri not registered: '' @ redirect_uri)), s)
          else
            (let requested = (if scopes = [] then DEFAULT_SCOPES else scopes) in
             if \<not> set requested \<subseteq> set (allowed_scopes client)
             then (Inl (OAuthValueError ''Requested scopes exceed client grants''), s)
             else (Inr code, s\<lparr>oa_codes := AList.update code
                     \<lparr>ac_code = code, ac_client = client_id, ac_scopes = requested, ac_challenge = challenge,
                      ac_redirect_uri = redirect_uri, ac_state = state, ac_expires = now + 300, ac_used = False\<rparr>
                     (oa_codes s)\<rparr>)))"

subsection \<open>Tokens for a code\<close>

record fresh_grant =
  fg_access :: string
  fg_refresh :: string
  fg_access_id :: string
  fg_refresh_id :: string

record token_response =
  tr_access_token :: string
  tr_refresh_token :: string
  tr_scope :: string

definition grant_entry :: "oauth_fns \<Rightarrow> time \<Rightarrow> string \<Rightarrow> string \<Rightarrow> stored_token \<Rightarrow> token_entry" where
  "grant_entry fns now i name t =
     \<lparr>te_id = JStr i, te_hash = JStr (st_token t), te_name = JStr name, te_profile = JStr ''oauth'',
      te_scopes = JList (st_scopes t), te_created = JStr (format_time fns now), te_client = st_client t,
      te_type = st_type t, te_expires = (case st_expires t of None \<Rightarrow> JNull | Some e \<Rightarrow> JStr (format_time fns e)),
      te_revoked = JNull, te_last_used = JNull\<rparr>"

definition grant_entries :: "oauth_fns \<Rightarrow> time \<Rightarrow> fresh_grant \<Rightarrow> stored_token \<Rightarrow> stored_token \<Rightarrow> token_entry list" where
  "grant_entries fns now g access refresh =
     [grant_entry fns now (fg_access_id g) ''oauth-access'' access,
      grant_entry fns now (fg_refresh_id g) ''oauth-refresh'' refresh]"

definition access_record :: "oauth_fns \<Rightarrow> time \<Rightarrow> fresh_grant \<Rightarrow> string \<Rightarrow> json list \<Rightarrow> stored_token" where
  "access_record fns now g client scopes =
     \<lparr>st_token = hash_token fns (fg_access g), st_client = JStr client, st_scopes = scopes,
      st_expires = Some (now + 7200), st_type = JStr ''access''\<rparr>"

definition refresh_record :: "oauth_fns \<Rightarrow> time \<Rightarrow> fresh_grant \<Rightarrow> string \<Rightarrow> json list \<Rightarrow> stored_token" where
  "refresh_record fns now g client scopes =
     \<lparr>st_token = hash_token fns (fg_refresh g), st_client = JStr client, st_scopes = scopes,
      st_expires = Some (now + 604800), st_type = JStr ''refresh''\<rparr>"

definition add_token :: "stored_token \<Rightarrow> (string \<times> stored_token) list \<Rightarrow> (string \<times> stored_token) list" where
  "add_token t tokens = AList.update (st_token t) t tokens"

definition persist_oauth_grant ::
    "oauth_fns \<Rightarrow> write_outcome \<Rightarrow> time \<Rightarrow> fresh_grant \<Rightarrow> stored_token \<Rightarrow> stored_token \<Rightarrow> oauth
      \<Rightarrow> (oauth_error + unit) \<times> oauth" where
  "persist_oauth_grant fns wo now g access refresh s =
     (case oa_store s of
        None \<Rightarrow> (Inl NotConfigured, s)
      | Some f \<Rightarrow>
          (case add_many (of_epoch fns) wo (grant_entries fns now g access refresh) (Some now) f of
             (Inl er, f') \<Rightarrow> (Inl (StoreFailed er), s\<lparr>oa_store := Some f'\<rparr>)
           | (Inr _, f') \<Rightarrow> (Inr (), s\<lparr>oa_store := Some f'\<rparr>)))"

text \<open>The checks of a code, in order.\<close>

definition code_check ::
    "oauth_fns \<Rightarrow> time \<Rightarrow> string \<Rightarrow> string \<Rightarrow> string \<Rightarrow> string \<Rightarrow> oauth \<Rightarrow> oauth_error + stored_auth_code" where
  "code_check fns now client_id code verifier redirect_uri s =
     (case map_of (oa_codes s) code of
        None \<Rightarrow> Inl (OAuthValueError ''Authorization code not found'')
      | Some ac \<Rightarrow>
          if ac_used ac then Inl (OAuthValueError ''Authorization code already used'')
          else if ac_client ac \<noteq> client_id then Inl (OAuthValueError ''Client ID mismatch'')
          else if ac_expires ac < now then Inl (OAuthValueError ''Authorization code expired'')
          else if redirect_uri \<noteq> [] \<and> ac_redirect_uri ac \<noteq> redirect_uri
          then Inl (OAuthValueError ''redirect_uri mismatch'')
          else if verifier = [] then Inr ac
          else
            (case verify_pkce fns verifier (ac_challenge ac) of
               Inl OAuthTypeError \<Rightarrow> Inl OAuthTypeError
             | Inl _ \<Rightarrow> Inl (OAuthValueError ''PKCE verification failed'')
             | Inr ok \<Rightarrow> if ok then Inr ac else Inl (OAuthValueError ''PKCE verification failed'')))"

definition exchange_code_for_token ::
    "oauth_fns \<Rightarrow> write_outcome \<Rightarrow> time \<Rightarrow> fresh_grant \<Rightarrow> string \<Rightarrow> string \<Rightarrow> string \<Rightarrow> string \<Rightarrow> oauth
      \<Rightarrow> (oauth_error + token_response) \<times> oauth" where
  "exchange_code_for_token fns wo now g client_id code verifier redirect_uri s =
     (case code_check fns now client_id code verifier redirect_uri s of
        Inl er \<Rightarrow> (Inl er, s)
      | Inr ac \<Rightarrow>
          (let s1 = s\<lparr>oa_codes := AList.update code (ac\<lparr>ac_used := True\<rparr>) (oa_codes s)\<rparr>;
               access = access_record fns now g client_id (map JStr (ac_scopes ac));
               refresh = refresh_record fns now g client_id (map JStr (ac_scopes ac)) in
           case persist_oauth_grant fns wo now g access refresh s1 of
             (Inl er, s2) \<Rightarrow> (Inl er, s2)
           | (Inr _, s2) \<Rightarrow>
               (Inr \<lparr>tr_access_token = fg_access g, tr_refresh_token = fg_refresh g, tr_scope = py_join '' '' (ac_scopes ac)\<rparr>,
                s2\<lparr>oa_tokens := add_token refresh (add_token access (oa_tokens s2))\<rparr>)))"

definition exchange_authorization_code ::
    "oauth_fns \<Rightarrow> write_outcome \<Rightarrow> time \<Rightarrow> fresh_grant \<Rightarrow> string \<Rightarrow> string \<Rightarrow> string \<Rightarrow> oauth
      \<Rightarrow> (oauth_error + token_response) \<times> oauth" where
  "exchange_authorization_code fns wo now g client_id code redirect_uri s =
     (if code = [] then (Inl (OAuthValueError ''Missing code''), s)
      else if map_of (oa_codes s) code = None then (Inl (OAuthValueError ''Authorization code not found''), s)
      else exchange_code_for_token fns wo now g client_id code [] redirect_uri s)"

definition load_authorization_code :: "time \<Rightarrow> string \<Rightarrow> oauth \<Rightarrow> stored_auth_code option \<times> oauth" where
  "load_authorization_code now code s =
     (case map_of (oa_codes s) code of
        None \<Rightarrow> (None, s)
      | Some ac \<Rightarrow>
          if ac_expires ac < now \<or> ac_used ac
          then (None, s\<lparr>oa_codes := AList.delete code (oa_codes s)\<rparr>)
          else (Some ac, s))"

subsection \<open>Refreshing\<close>

definition bad_refresh :: oauth_error where
  "bad_refresh = InvalidGrant ''refresh token is invalid''"

definition rotate_oauth_tokens ::
    "oauth_fns \<Rightarrow> write_outcome \<Rightarrow> string \<Rightarrow> time \<Rightarrow> fresh_grant \<Rightarrow> string \<Rightarrow> stored_token \<Rightarrow> stored_token \<Rightarrow> oauth
      \<Rightarrow> (oauth_error + unit) \<times> oauth" where
  "rotate_oauth_tokens fns wo stamp now g revoke_hash access refresh s =
     (case oa_store s of
        None \<Rightarrow> (Inr (), s)
      | Some f \<Rightarrow>
          (case rotate_token (of_epoch fns) wo stamp revoke_hash (grant_entries fns now g access refresh) (Some now) f of
             (Inl er, f') \<Rightarrow> (Inl (StoreFailed er), s\<lparr>oa_store := Some f'\<rparr>)
           | (Inr None, f') \<Rightarrow> (Inl bad_refresh, s\<lparr>oa_store := Some f'\<rparr>)
           | (Inr (Some _), f') \<Rightarrow> (Inr (), s\<lparr>oa_store := Some f'\<rparr>)))"

definition scope_text :: "json list \<Rightarrow> oauth_error + string" where
  "scope_text scopes =
     (case traverse (\<lambda>j. case jstr j of None \<Rightarrow> Inl OAuthTypeError | Some x \<Rightarrow> Inr x) scopes of
        Inl er \<Rightarrow> Inl er
      | Inr xs \<Rightarrow> Inr (py_join '' '' xs))"

definition refresh_access_token ::
    "oauth_fns \<Rightarrow> write_outcome \<Rightarrow> string \<Rightarrow> time \<Rightarrow> fresh_grant \<Rightarrow> string \<Rightarrow> string \<Rightarrow> oauth
      \<Rightarrow> (oauth_error + token_response) \<times> oauth" where
  "refresh_access_token fns wo stamp now g client_id token s =
     (let h = hash_token fns token in
      case map_of (oa_tokens s) h of
        None \<Rightarrow> (Inl bad_refresh, s)
      | Some t \<Rightarrow>
          if st_client t \<noteq> JStr client_id \<or> st_type t \<noteq> JStr ''refresh'' then (Inl bad_refresh, s)
          else if \<not> before_expiry now (st_expires t)
          then (Inl (InvalidGrant ''refresh token has expired''), s\<lparr>oa_tokens := AList.delete h (oa_tokens s)\<rparr>)
          else
            (let access = access_record fns now g client_id (st_scopes t);
                 refresh = refresh_record fns now g client_id (st_scopes t) in
             case rotate_oauth_tokens fns wo stamp now g h access refresh s of
               (Inl er, s1) \<Rightarrow> (Inl er, s1)
             | (Inr _, s1) \<Rightarrow>
                 (case scope_text (st_scopes t) of
                    Inl er \<Rightarrow> Inl er
                  | Inr scope \<Rightarrow> Inr \<lparr>tr_access_token = fg_access g, tr_refresh_token = fg_refresh g, tr_scope = scope\<rparr>,
                  s1\<lparr>oa_tokens := add_token refresh (add_token access (AList.delete h (oa_tokens s1)))\<rparr>)))"

definition exchange_refresh_token ::
    "oauth_fns \<Rightarrow> write_outcome \<Rightarrow> string \<Rightarrow> time \<Rightarrow> fresh_grant \<Rightarrow> string \<Rightarrow> string \<Rightarrow> oauth
      \<Rightarrow> (oauth_error + token_response) \<times> oauth" where
  "exchange_refresh_token fns wo stamp now g client_id token s =
     (if token = [] then (Inl bad_refresh, s) else refresh_access_token fns wo stamp now g client_id token s)"

definition load_refresh_token :: "oauth_fns \<Rightarrow> time \<Rightarrow> string \<Rightarrow> oauth \<Rightarrow> stored_token option \<times> oauth" where
  "load_refresh_token fns now token s =
     (let h = hash_token fns token in
      case map_of (oa_tokens s) h of
        None \<Rightarrow> (None, s)
      | Some t \<Rightarrow>
          if st_type t \<noteq> JStr ''refresh'' then (None, s)
          else if \<not> before_expiry now (st_expires t) then (None, s\<lparr>oa_tokens := AList.delete h (oa_tokens s)\<rparr>)
          else (Some t, s))"

subsection \<open>Revoking and verifying\<close>

text \<open>The stored entry of a hash, when it is not revoked yet, is revoked by its identifier.\<close>

definition revoke_stored :: "write_outcome \<Rightarrow> string \<Rightarrow> string \<Rightarrow> oauth \<Rightarrow> (oauth_error + unit) \<times> oauth" where
  "revoke_stored wo stamp h s =
     (case oa_store s of
        None \<Rightarrow> (Inr (), s)
      | Some f \<Rightarrow>
          (case find_by_hash h f of
             Inl er \<Rightarrow> (Inl (StoreFailed er), s)
           | Inr None \<Rightarrow> (Inr (), s)
           | Inr (Some e) \<Rightarrow>
               if te_revoked e \<noteq> JNull then (Inr (), s)
               else
                 (case revoke wo stamp (te_id e) f of
                    (Inl er, f') \<Rightarrow> (Inl (StoreFailed er), s\<lparr>oa_store := Some f'\<rparr>)
                  | (Inr _, f') \<Rightarrow> (Inr (), s\<lparr>oa_store := Some f'\<rparr>))))"

definition revoke_token :: "oauth_fns \<Rightarrow> write_outcome \<Rightarrow> string \<Rightarrow> string \<Rightarrow> oauth \<Rightarrow> (oauth_error + unit) \<times> oauth" where
  "revoke_token fns wo stamp token s =
     (let h = hash_token fns token in
      if map_of (oa_tokens s) h = None then (Inr (), s)
      else revoke_stored wo stamp h (s\<lparr>oa_tokens := AList.delete h (oa_tokens s)\<rparr>))"

definition revoke_client_token ::
    "oauth_fns \<Rightarrow> write_outcome \<Rightarrow> string \<Rightarrow> string \<Rightarrow> string \<Rightarrow> oauth \<Rightarrow> (oauth_error + unit) \<times> oauth" where
  "revoke_client_token fns wo stamp client_id token s =
     (case map_of (oa_tokens s) (hash_token fns token) of
        None \<Rightarrow> (Inr (), s)
      | Some t \<Rightarrow> if st_client t = JStr client_id then revoke_token fns wo stamp token s else (Inr (), s))"

definition load_access_token :: "oauth_fns \<Rightarrow> time \<Rightarrow> string \<Rightarrow> oauth \<Rightarrow> stored_token option \<times> oauth" where
  "load_access_token fns now token s =
     (let h = hash_token fns token in
      case map_of (oa_tokens s) h of
        None \<Rightarrow> (None, s)
      | Some t \<Rightarrow>
          if st_type t \<noteq> JStr ''access'' then (None, s)
          else if \<not> before_expiry now (st_expires t) then (None, s\<lparr>oa_tokens := AList.delete h (oa_tokens s)\<rparr>)
          else (Some t, s))"

subsection \<open>Startup\<close>

text \<open>
  \<open>mcp_infra/auth_setup.setup\<close>: a new process registers the configured tokens and loads what the stores
  hold. \<open>me_extra_tokens\<close> are the parsed entries of the extra-token variables (token, profile).
\<close>

record mcp_env =
  me_auth_mode :: string
  me_health_token :: string
  me_extra_tokens :: "(string \<times> string) list"
  me_public_token :: string

definition fixed_token :: "oauth_fns \<Rightarrow> string \<Rightarrow> string \<Rightarrow> string list \<Rightarrow> stored_token" where
  "fixed_token fns raw client scopes =
     \<lparr>st_token = hash_token fns raw, st_client = JStr client, st_scopes = map JStr scopes, st_expires = None,
      st_type = JStr ''access''\<rparr>"

fun extra_tokens ::
    "oauth_fns \<Rightarrow> (string \<times> string) list \<Rightarrow> (string \<times> stored_token) list \<Rightarrow> oauth_error + (string \<times> stored_token) list" where
  "extra_tokens fns [] tokens = Inr tokens"
| "extra_tokens fns ((raw, profile) # rest) tokens =
     (case get_profile_scopes profile of
        None \<Rightarrow> Inl (OAuthValueError ''Unknown access profile'')
      | Some scopes \<Rightarrow> extra_tokens fns rest (add_token (fixed_token fns raw (''mcp_extras_'' @ profile) scopes) tokens))"

definition fixed_tokens :: "oauth_fns \<Rightarrow> mcp_env \<Rightarrow> oauth_error + (string \<times> stored_token) list" where
  "fixed_tokens fns env =
     (if me_auth_mode env = ''oauth''
      then extra_tokens fns (me_extra_tokens env)
             (if me_health_token env = [] then []
              else add_token (fixed_token fns (me_health_token env) ''mcp_healthcheck'' [''mcp:read'']) [])
      else if me_auth_mode env = ''token''
      then (if me_public_token env = [] then Inl (OAuthValueError ''MCP_PUBLIC_TOKEN is required in token mode'')
            else Inr (add_token (fixed_token fns (me_public_token env) ''mcp_static_client'' DEFAULT_SCOPES) []))
      else Inl (OAuthValueError ''Invalid auth_mode''))"

definition setup_provider ::
    "oauth_fns \<Rightarrow> mcp_env \<Rightarrow> time \<Rightarrow> token_file \<Rightarrow> stored_client list \<Rightarrow> oauth_error + oauth" where
  "setup_provider fns env now f cs =
     (case fixed_tokens fns env of
        Inl er \<Rightarrow> Inl er
      | Inr tokens \<Rightarrow>
          (case load_tokens fns now (new_provider\<lparr>oa_tokens := tokens, oa_store := Some f\<rparr>) of
             (r, s) \<Rightarrow>
               if me_auth_mode env = ''oauth''
               then (case r of Inl er \<Rightarrow> Inl er | Inr _ \<Rightarrow> Inr (snd (load_clients (s\<lparr>oa_client_store := Some cs\<rparr>))))
               else Inr s))"

subsection \<open>Codes and refresh tokens are used once\<close>

definition live_codes :: "oauth \<Rightarrow> string set" where
  "live_codes s = {c. \<exists>ac. map_of (oa_codes s) c = Some ac \<and> \<not> ac_used ac}"

text \<open>
  One request, or a restart, or an operation of another process on the token file: the codes exchanged, the
  refresh tokens (by hash) replaced, the new codes and the new hashes.
\<close>

inductive oauth_op ::
    "oauth_fns \<Rightarrow> oauth \<Rightarrow> string list \<Rightarrow> string list \<Rightarrow> string set \<Rightarrow> string set \<Rightarrow> oauth \<Rightarrow> bool" for fns where
  register: "register_client wo now client_id info s = (r, s') \<Longrightarrow> map_of (oa_clients s) client_id = None \<Longrightarrow>
    oauth_op fns s [] [] {} {} s'"
| consent: "create_authorization_code now code client_id uri challenge state scopes s = (r, s') \<Longrightarrow>
    oauth_op fns s [] [] {code} {} s'"
| exchange: "exchange_code_for_token fns wo now g client_id code verifier uri s = (r, s') \<Longrightarrow>
    hash_token fns (fg_access g) \<noteq> hash_token fns (fg_refresh g) \<Longrightarrow>
    oauth_op fns s (case r of Inr _ \<Rightarrow> [code] | Inl _ \<Rightarrow> []) [] {}
      {hash_token fns (fg_access g), hash_token fns (fg_refresh g)} s'"
| refresh: "refresh_access_token fns wo stamp now g client_id token s = (r, s') \<Longrightarrow>
    hash_token fns (fg_access g) \<noteq> hash_token fns (fg_refresh g) \<Longrightarrow>
    oauth_op fns s [] (case r of Inr _ \<Rightarrow> [hash_token fns token] | Inl _ \<Rightarrow> []) {}
      {hash_token fns (fg_access g), hash_token fns (fg_refresh g)} s'"
| read_code: "load_authorization_code now code s = (c, s') \<Longrightarrow> oauth_op fns s [] [] {} {} s'"
| read_refresh: "load_refresh_token fns now token s = (t, s') \<Longrightarrow> oauth_op fns s [] [] {} {} s'"
| read_access: "load_access_token fns now token s = (t, s') \<Longrightarrow> oauth_op fns s [] [] {} {} s'"
| revoke: "revoke_token fns wo stamp token s = (r, s') \<Longrightarrow> oauth_op fns s [] [] {} {} s'"
| restart: "oa_store s = Some f \<Longrightarrow> oa_client_store s = Some cs \<Longrightarrow> setup_provider fns env now f cs = Inr s' \<Longrightarrow>
    me_auth_mode env = ''oauth'' \<Longrightarrow> oauth_op fns s [] [] {} {} s'"
| other: "oa_store s = Some f \<Longrightarrow> token_op (of_epoch fns) f ks new f' \<Longrightarrow>
    oauth_op fns s [] ks {} new (s\<lparr>oa_store := Some f'\<rparr>)"

inductive oauth_history ::
    "oauth_fns \<Rightarrow> oauth \<Rightarrow> string set \<Rightarrow> string list \<Rightarrow> string set \<Rightarrow> string list \<Rightarrow> bool" for fns where
  start: "setup_provider fns env now f cs = Inr s \<Longrightarrow> unambiguous f \<Longrightarrow> live_hashes f \<subseteq> hashes \<Longrightarrow>
    oauth_history fns s {} [] hashes []"
| step: "oauth_history fns s codes exchanged hashes refreshed \<Longrightarrow> oauth_op fns s cs rs nc nh s' \<Longrightarrow>
    nc \<inter> codes = {} \<Longrightarrow> nh \<inter> hashes = {} \<Longrightarrow>
    oauth_history fns s' (codes \<union> nc) (cs @ exchanged) (hashes \<union> nh) (rs @ refreshed)"

lemma load_tokens_keeps [simp]:
  "oa_store (snd (load_tokens fns now s)) = oa_store s" "oa_codes (snd (load_tokens fns now s)) = oa_codes s"
  "oa_clients (snd (load_tokens fns now s)) = oa_clients s"
  by (auto simp: load_tokens_def split: option.splits sum.splits prod.splits)

lemma load_clients_keeps [simp]:
  "oa_store (snd (load_clients s)) = oa_store s" "oa_codes (snd (load_clients s)) = oa_codes s"
  by (auto simp: load_clients_def split: option.splits)

lemma setup_provider_Inr:
  assumes "setup_provider fns env now f cs = Inr s"
  shows "oa_store s = Some f" "oa_codes s = []"
proof -
  obtain tokens where t: "fixed_tokens fns env = Inr tokens"
    using assms by (auto simp: setup_provider_def split: sum.splits)
  define s0 where "s0 = new_provider\<lparr>oa_tokens := tokens, oa_store := Some f\<rparr>"
  obtain r s1 where l: "load_tokens fns now s0 = (r, s1)" by (cases "load_tokens fns now s0")
  have k: "oa_store s1 = Some f" "oa_codes s1 = []"
    using load_tokens_keeps(1,2) [of fns now s0] unfolding l by (simp_all add: s0_def new_provider_def)
  show "oa_store s = Some f" "oa_codes s = []"
    using assms k by (auto simp: setup_provider_def t s0_def [symmetric] l split: sum.splits if_splits)
qed

lemma persist_codes [simp]: "oa_codes (snd (persist_oauth_grant fns wo now g a r s)) = oa_codes s"
  by (auto simp: persist_oauth_grant_def split: option.splits sum.splits prod.splits)

lemma rotate_codes [simp]: "oa_codes (snd (rotate_oauth_tokens fns wo stamp now g h a r s)) = oa_codes s"
  by (auto simp: rotate_oauth_tokens_def split: option.splits sum.splits prod.splits)

lemma revoke_stored_codes [simp]: "oa_codes (snd (revoke_stored wo stamp h s)) = oa_codes s"
  by (auto simp: revoke_stored_def split: option.splits sum.splits prod.splits)

lemma exchange_Inr:
  assumes "exchange_code_for_token fns wo now g client_id code verifier uri s = (Inr resp, s')"
  obtains ac f f' where "code_check fns now client_id code verifier uri s = Inr ac" "oa_store s = Some f"
    "add_many (of_epoch fns) wo (grant_entries fns now g
       (access_record fns now g client_id (map JStr (ac_scopes ac))) (refresh_record fns now g client_id (map JStr (ac_scopes ac))))
       (Some now) f = (Inr (), f')"
    "s' = s\<lparr>oa_codes := AList.update code (ac\<lparr>ac_used := True\<rparr>) (oa_codes s), oa_store := Some f',
       oa_tokens := add_token (refresh_record fns now g client_id (map JStr (ac_scopes ac)))
         (add_token (access_record fns now g client_id (map JStr (ac_scopes ac))) (oa_tokens s))\<rparr>"
    "resp = \<lparr>tr_access_token = fg_access g, tr_refresh_token = fg_refresh g, tr_scope = py_join '' '' (ac_scopes ac)\<rparr>"
  using assms
  by (auto simp: exchange_code_for_token_def persist_oauth_grant_def Let_def split: sum.splits option.splits prod.splits)

lemma code_check_live:
  "code_check fns now client_id code verifier uri s = Inr ac \<Longrightarrow>
   map_of (oa_codes s) code = Some ac \<and> \<not> ac_used ac \<and> ac_client ac = client_id \<and> now \<le> ac_expires ac"
  by (auto simp: code_check_def not_less split: option.splits if_splits sum.splits oauth_error.splits)

text \<open>On the token file every request is one operation of the store, or none.\<close>

definition file_step :: "oauth_fns \<Rightarrow> token_file \<Rightarrow> string list \<Rightarrow> string set \<Rightarrow> token_file \<Rightarrow> bool" where
  "file_step fns f rs nh f' \<longleftrightarrow>
     rs = [] \<and> f' = f \<or> (\<exists>ks. token_op (of_epoch fns) f ks nh f' \<and> (rs = [] \<or> rs = ks))"

lemma grant_hashes:
  "map te_hash (grant_entries fns now g (access_record fns n1 g c sc) (refresh_record fns n2 g c sc)) =
   map JStr [hash_token fns (fg_access g), hash_token fns (fg_refresh g)]"
  by (simp add: grant_entries_def grant_entry_def access_record_def refresh_record_def)

definition rotate_step ::
    "oauth_fns \<Rightarrow> write_outcome \<Rightarrow> string \<Rightarrow> time \<Rightarrow> fresh_grant \<Rightarrow> string \<Rightarrow> string \<Rightarrow> oauth \<Rightarrow> stored_token
      \<Rightarrow> oauth_error + token_response \<Rightarrow> oauth \<Rightarrow> bool" where
  "rotate_step fns wo stamp now g client_id token s t r s' \<longleftrightarrow>
     (let h = hash_token fns token; access = access_record fns now g client_id (st_scopes t);
          refresh = refresh_record fns now g client_id (st_scopes t) in
      map_of (oa_tokens s) h = Some t \<and> st_client t = JStr client_id \<and> st_type t = JStr ''refresh''
      \<and> before_expiry now (st_expires t)
      \<and> (case oa_store s of
           None \<Rightarrow> True
         | Some f \<Rightarrow>
             (case rotate_token (of_epoch fns) wo stamp h (grant_entries fns now g access refresh) (Some now) f of
                (Inr (Some _), f') \<Rightarrow>
                  s' = s\<lparr>oa_store := Some f', oa_tokens := add_token refresh (add_token access (AList.delete h (oa_tokens s)))\<rparr>
              | (x, f') \<Rightarrow> (\<exists>er. r = Inl er) \<and> s' = s\<lparr>oa_store := Some f'\<rparr>)))"

lemma refresh_cases:
  assumes "refresh_access_token fns wo stamp now g client_id token s = (r, s')"
  shows "(\<exists>er. r = Inl er) \<and> oa_store s' = oa_store s \<or> (\<exists>t. rotate_step fns wo stamp now g client_id token s t r s')"
proof (cases "map_of (oa_tokens s) (hash_token fns token)")
  case None
  then show ?thesis using assms by (auto simp: refresh_access_token_def)
next
  case (Some t)
  show ?thesis
  proof (cases "st_client t = JStr client_id \<and> st_type t = JStr ''refresh'' \<and> before_expiry now (st_expires t)")
    case False
    then show ?thesis using assms Some by (auto simp: refresh_access_token_def Let_def split: if_splits)
  next
    case True
    then have "rotate_step fns wo stamp now g client_id token s t r s'"
      using assms Some
      by (auto simp: refresh_access_token_def rotate_step_def rotate_oauth_tokens_def Let_def
          split: option.splits sum.splits prod.splits)
    then show ?thesis by blast
  qed
qed

lemma oauth_op_file:
  assumes "oauth_op fns s cs rs nc nh s'" "oa_store s = Some f"
  obtains f' where "oa_store s' = Some f'" "file_step fns f rs nh f'"
proof -
  have keep: "\<exists>f'. oa_store s' = Some f' \<and> file_step fns f [] X f'" if "oa_store s' = Some f" for X
    using that by (simp add: file_step_def)
  from assms(1) have "\<exists>f'. oa_store s' = Some f' \<and> file_step fns f rs nh f'"
  proof cases
    case (exchange wo now g client_id code verifier uri r)
    let ?h = "[hash_token fns (fg_access g), hash_token fns (fg_refresh g)]"
    show ?thesis
    proof (cases "code_check fns now client_id code verifier uri s")
      case (Inl er)
      then show ?thesis using exchange assms(2) keep by (simp add: exchange_code_for_token_def)
    next
      case (Inr ac)
      let ?a = "access_record fns now g client_id (map JStr (ac_scopes ac))"
      let ?r = "refresh_record fns now g client_id (map JStr (ac_scopes ac))"
      obtain x f' where am: "add_many (of_epoch fns) wo (grant_entries fns now g ?a ?r) (Some now) f = (x, f')"
        by (cases "add_many (of_epoch fns) wo (grant_entries fns now g ?a ?r) (Some now) f")
      have "token_op (of_epoch fns) f [] (set ?h) f'"
        by (rule token_op.add [OF am grant_hashes]) (use exchange in simp)
      moreover have "oa_store s' = Some f'"
        using exchange Inr am assms(2)
        by (auto simp: exchange_code_for_token_def persist_oauth_grant_def Let_def split: sum.splits)
      ultimately show ?thesis using exchange by (auto simp: file_step_def)
    qed
  next
    case (refresh wo stamp now g client_id token r)
    let ?h = "hash_token fns token"
    let ?hs = "[hash_token fns (fg_access g), hash_token fns (fg_refresh g)]"
    consider "oa_store s' = Some f" "\<exists>er. r = Inl er"
      | t where "rotate_step fns wo stamp now g client_id token s t r s'"
      using refresh assms(2) refresh_cases by metis
    then show ?thesis
    proof cases
      case 1
      then show ?thesis using refresh keep by auto
    next
      case (2 t)
      let ?a = "access_record fns now g client_id (st_scopes t)" and ?r = "refresh_record fns now g client_id (st_scopes t)"
      obtain x f' where rot: "rotate_token (of_epoch fns) wo stamp ?h (grant_entries fns now g ?a ?r) (Some now) f = (x, f')"
        by (cases "rotate_token (of_epoch fns) wo stamp ?h (grant_entries fns now g ?a ?r) (Some now) f")
      have "token_op (of_epoch fns) f (case x of Inr (Some _) \<Rightarrow> [?h] | _ \<Rightarrow> []) (set ?hs) f'"
        by (rule token_op.rotate [OF rot grant_hashes]) (use refresh in simp)
      moreover have "oa_store s' = Some f' \<and> ((\<exists>er. r = Inl er) \<or> (\<exists>e. x = Inr (Some e)))"
        using 2 rot assms(2) by (auto simp: rotate_step_def Let_def split: sum.splits option.splits)
      ultimately show ?thesis using refresh by (auto simp: file_step_def split: sum.splits)
    qed
  next
    case (revoke wo stamp token r)
    have "\<exists>f'. oa_store s' = Some f' \<and> (f' = f \<or> (\<exists>i x. TokenStore.revoke wo stamp i f = (x, f')))"
      using revoke assms(2)
      by (auto simp: revoke_token_def revoke_stored_def Let_def split: if_splits sum.splits option.splits prod.splits)
    then show ?thesis using revoke token_op.revoke by (fastforce simp: file_step_def)
  next
    case (other f0 f')
    then show ?thesis using assms(2) by (auto simp: file_step_def)
  next
    case (restart f0 c env now)
    then show ?thesis using assms(2) keep setup_provider_Inr by auto
  qed (use assms(2) keep in \<open>auto simp: register_client_def create_authorization_code_def load_authorization_code_def
      load_refresh_token_def load_access_token_def Let_def split: if_splits sum.splits option.splits write_outcome.splits\<close>)
  then show thesis using that by blast
qed

lemma refresh_keeps:
  assumes "refresh_access_token fns wo stamp now g client_id token s = (r, s')"
  shows "oa_codes s' = oa_codes s \<and> oa_clients s' = oa_clients s"
  using assms
  by (auto simp: refresh_access_token_def rotate_oauth_tokens_def Let_def
      split: option.splits sum.splits prod.splits if_splits)

lemma revoke_keeps:
  assumes "revoke_token fns wo stamp token s = (r, s')"
  shows "oa_codes s' = oa_codes s \<and> oa_clients s' = oa_clients s"
  using assms
  by (auto simp: revoke_token_def revoke_stored_def Let_def split: if_splits sum.splits option.splits prod.splits)

text \<open>A code that is exchanged was live and is dead, and no other code comes alive but a new one.\<close>

lemma oauth_op_codes:
  assumes "oauth_op fns s cs rs nc nh s'"
  shows "distinct cs \<and> set cs \<subseteq> live_codes s \<and> live_codes s' \<subseteq> (live_codes s - set cs) \<union> nc"
  using assms
proof cases
  case (exchange wo now g client_id code verifier uri r)
  show ?thesis
  proof (cases "code_check fns now client_id code verifier uri s")
    case (Inl er)
    then show ?thesis using exchange by (auto simp: exchange_code_for_token_def)
  next
    case (Inr ac)
    have "oa_codes s' = AList.update code (ac\<lparr>ac_used := True\<rparr>) (oa_codes s)"
    proof -
      define s1 where "s1 = s\<lparr>oa_codes := AList.update code (ac\<lparr>ac_used := True\<rparr>) (oa_codes s)\<rparr>"
      obtain x s2 where p: "persist_oauth_grant fns wo now g (access_record fns now g client_id (map JStr (ac_scopes ac)))
          (refresh_record fns now g client_id (map JStr (ac_scopes ac))) s1 = (x, s2)" by (cases "persist_oauth_grant fns wo now g
          (access_record fns now g client_id (map JStr (ac_scopes ac))) (refresh_record fns now g client_id (map JStr (ac_scopes ac))) s1")
      have "oa_codes s2 = oa_codes s1" using persist_codes [of fns wo now g _ _ s1] p by (metis snd_conv)
      moreover have "oa_codes s' = oa_codes s2"
        using exchange Inr p by (auto simp: exchange_code_for_token_def Let_def s1_def [symmetric] split: sum.splits)
      ultimately show ?thesis by (simp add: s1_def)
    qed
    then show ?thesis
      using exchange code_check_live [OF Inr] by (auto simp: live_codes_def split: sum.splits if_splits)
  qed
next
  case (refresh wo stamp now g client_id token r)
  have "oa_codes s' = oa_codes s" using refresh refresh_keeps by blast
  then show ?thesis using refresh by (auto simp: live_codes_def)
next
  case (revoke wo stamp token r)
  have "oa_codes s' = oa_codes s" using revoke revoke_keeps by blast
  then show ?thesis using revoke by (auto simp: live_codes_def)
next
  case (restart f c env now)
  then show ?thesis using setup_provider_Inr by (auto simp: live_codes_def)
qed (auto simp: register_client_def create_authorization_code_def load_authorization_code_def live_codes_def
      load_refresh_token_def load_access_token_def Let_def split: if_splits sum.splits option.splits write_outcome.splits)

interpretation codes: single_use live_codes "\<lambda>s cs nc s'. \<exists>rs nh. oauth_op fns s cs rs nc nh s'" for fns
  by unfold_locales (auto dest!: oauth_op_codes)

text \<open>The store of a file, when more hashes are known or fewer count as spent.\<close>

lemma ledger_weaken:
  "tokens.ledger f seen (ks @ spent) \<Longrightarrow> tokens.ledger f seen spent"
  "tokens.ledger f seen spent \<Longrightarrow> tokens.ledger f (seen \<union> new) spent"
  by (auto simp: tokens.ledger_def)

lemma file_step_ledger:
  assumes "file_step fns f rs nh f'" "unambiguous f" "tokens.ledger f hashes refreshed" "nh \<inter> hashes = {}"
  shows "unambiguous f' \<and> tokens.ledger f' (hashes \<union> nh) (rs @ refreshed)"
  using assms(1) unfolding file_step_def
proof
  assume "rs = [] \<and> f' = f"
  then show ?thesis using assms ledger_weaken(2) by auto
next
  assume "\<exists>ks. token_op (of_epoch fns) f ks nh f' \<and> (rs = [] \<or> rs = ks)"
  then obtain ks where op: "token_op (of_epoch fns) f ks nh f'" "rs = [] \<or> rs = ks" by blast
  have "nh \<inter> live_hashes f = {}" using assms(3,4) by (auto simp: tokens.ledger_def)
  then have u: "unambiguous f'" by (rule token_op_contract(4) [OF op(1) assms(2)])
  have "tokens.ledger f' (hashes \<union> nh) (ks @ refreshed)"
    by (rule tokens.ledger_step [OF assms(3) _ assms(4)]) (use op(1) assms(2) in blast)
  then show ?thesis using u op(2) ledger_weaken(1) by auto
qed

lemma oauth_history_inv:
  assumes "oauth_history fns s codes exchanged hashes refreshed"
  shows "(\<exists>f. oa_store s = Some f \<and> unambiguous f \<and> tokens.ledger f hashes refreshed) \<and> codes.ledger s codes exchanged"
  using assms
proof (induction rule: oauth_history.induct)
  case (start env now f cs s hashes)
  have "live_codes s = {}" using setup_provider_Inr [OF start(1)] by (simp add: live_codes_def)
  then show ?case
    using setup_provider_Inr [OF start(1)] start tokens.ledger_init codes.ledger_init [of s "{}"] by simp
next
  case (step s codes exchanged hashes refreshed cs rs nc nh s')
  then obtain f where f: "oa_store s = Some f" "unambiguous f" "tokens.ledger f hashes refreshed" by auto
  from oauth_op_file [OF step.hyps(2) f(1)] obtain f' where f': "oa_store s' = Some f'" "file_step fns f rs nh f'" .
  have "codes.ledger s' (codes \<union> nc) (cs @ exchanged)"
    by (rule codes.ledger_step [OF _ _ step.hyps(3)]) (use step in blast)+
  then show ?case using f' file_step_ledger [OF f'(2) f(2,3) step.hyps(4)] by auto
qed

lemma dead_code_refused:
  assumes "code \<notin> live_codes s"
  shows "\<exists>er. exchange_code_for_token fns wo now g client_id code verifier uri s = (Inl er, s)"
proof (cases "code_check fns now client_id code verifier uri s")
  case (Inl er)
  then show ?thesis by (simp add: exchange_code_for_token_def)
next
  case (Inr ac)
  then show ?thesis using assms code_check_live [OF Inr] by (auto simp: live_codes_def)
qed

lemma dead_refresh_refused:
  assumes "oa_store s = Some f" "hash_token fns token \<notin> live_hashes f"
  shows "\<exists>er. fst (refresh_access_token fns wo stamp now g client_id token s) = Inl er"
proof -
  obtain r s' where e: "refresh_access_token fns wo stamp now g client_id token s = (r, s')"
    by (cases "refresh_access_token fns wo stamp now g client_id token s")
  from refresh_cases [OF e] show ?thesis
  proof
    assume "\<exists>t. rotate_step fns wo stamp now g client_id token s t r s'"
    then obtain t where t: "rotate_step fns wo stamp now g client_id token s t r s'" by blast
    show ?thesis
      using t assms(1) rotate_dead [OF assms(2), of "of_epoch fns" wo stamp
          "grant_entries fns now g (access_record fns now g client_id (st_scopes t)) (refresh_record fns now g client_id (st_scopes t))" "Some now"]
      by (auto simp: rotate_step_def Let_def e split: sum.splits option.splits)
  qed (simp add: e)
qed

text \<open>C16: Over all histories of the provider, with restarts, failing writes and other processes at the token
  file, an authorization code is exchanged for tokens at most once and a refresh token is replaced at most
  once; a replay of either is refused, and a replayed code changes nothing.\<close>

theorem oauth_single_use:
  assumes "oauth_history fns s codes exchanged hashes refreshed"
  shows "distinct exchanged \<and> distinct refreshed
    \<and> (code \<in> set exchanged \<longrightarrow>
        (\<exists>er. exchange_code_for_token fns wo now g client_id code verifier uri s = (Inl er, s)))
    \<and> (hash_token fns token \<in> set refreshed \<longrightarrow>
        (\<exists>er. fst (refresh_access_token fns wo stamp now g client_id token s) = Inl er))"
proof -
  from oauth_history_inv [OF assms] obtain f where f: "oa_store s = Some f" "tokens.ledger f hashes refreshed"
    and c: "codes.ledger s codes exchanged" by blast
  show ?thesis
    using codes.spent_once [OF c] tokens.spent_once [OF f(2)] dead_code_refused [OF codes.spent_dead [OF c]]
      dead_refresh_refused [OF f(1) tokens.spent_dead [OF f(2)]] by blast
qed

subsection \<open>Scopes\<close>

text \<open>Every code belongs to a registered client and asks for no more than it may.\<close>

definition code_granted :: "oauth \<Rightarrow> stored_auth_code \<Rightarrow> bool" where
  "code_granted s ac \<longleftrightarrow>
     (\<exists>client. map_of (oa_clients s) (ac_client ac) = Some client \<and> set (ac_scopes ac) \<subseteq> set (allowed_scopes client))"

definition codes_granted :: "oauth \<Rightarrow> bool" where
  "codes_granted s \<longleftrightarrow> (\<forall>code ac. map_of (oa_codes s) code = Some ac \<longrightarrow> code_granted s ac)"

lemma exchange_keeps:
  assumes "exchange_code_for_token fns wo now g client_id code verifier uri s = (r, s')"
  shows "oa_clients s' = oa_clients s \<and> (oa_codes s' = oa_codes s
    \<or> (\<exists>ac. map_of (oa_codes s) code = Some ac \<and> oa_codes s' = AList.update code (ac\<lparr>ac_used := True\<rparr>) (oa_codes s)))"
proof (cases "code_check fns now client_id code verifier uri s")
  case (Inl er)
  then show ?thesis using assms by (auto simp: exchange_code_for_token_def)
next
  case (Inr ac)
  then show ?thesis
    using assms code_check_live [OF Inr]
    by (auto simp: exchange_code_for_token_def persist_oauth_grant_def Let_def split: sum.splits option.splits prod.splits)
qed

lemma codes_granted_frame:
  "oa_clients s' = oa_clients s \<Longrightarrow> oa_codes s' = oa_codes s \<Longrightarrow> codes_granted s' = codes_granted s"
  by (simp add: codes_granted_def code_granted_def)

lemma codes_granted_update:
  assumes "codes_granted s" "code_granted s ac" "oa_clients s' = oa_clients s" "oa_codes s' = AList.update code ac (oa_codes s)"
  shows "codes_granted s'"
  unfolding codes_granted_def
proof (intro allI impI)
  fix c a assume "map_of (oa_codes s') c = Some a"
  then have "code_granted s a" using assms by (auto simp: codes_granted_def split: if_splits)
  then show "code_granted s' a" using assms(3) by (simp add: code_granted_def)
qed

lemma oauth_op_granted:
  assumes "oauth_op fns s cs rs nc nh s'" "codes_granted s"
  shows "codes_granted s'"
  using assms(1)
proof cases
  case (register wo now client_id info r)
  then have "oa_codes s' = oa_codes s \<and> (oa_clients s' = oa_clients s \<or> (\<exists>c. oa_clients s' = AList.update client_id c (oa_clients s)))"
    by (auto simp: register_client_def Let_def split: if_splits sum.splits option.splits write_outcome.splits)
  moreover have "ac_client ac \<noteq> client_id" if "map_of (oa_codes s) code = Some ac" for code ac
  proof -
    have "code_granted s ac" using assms(2) that by (auto simp: codes_granted_def)
    then show ?thesis using register by (auto simp: code_granted_def)
  qed
  ultimately show ?thesis using assms(2) by (auto simp: codes_granted_def code_granted_def)
next
  case (consent now code client_id uri challenge state scopes r)
  then show ?thesis using assms(2)
    by (auto simp: create_authorization_code_def Let_def codes_granted_def code_granted_def split: if_splits option.splits)
next
  case (exchange wo now g client_id code verifier uri r)
  then have k: "oa_clients s' = oa_clients s" "oa_codes s' = oa_codes s
      \<or> (\<exists>ac. map_of (oa_codes s) code = Some ac \<and> oa_codes s' = AList.update code (ac\<lparr>ac_used := True\<rparr>) (oa_codes s))"
    using exchange_keeps by blast+
  from k(2) show ?thesis
  proof
    assume "oa_codes s' = oa_codes s"
    then show ?thesis using assms(2) k(1) codes_granted_frame by blast
  next
    assume "\<exists>ac. map_of (oa_codes s) code = Some ac \<and> oa_codes s' = AList.update code (ac\<lparr>ac_used := True\<rparr>) (oa_codes s)"
    then obtain ac where ac: "map_of (oa_codes s) code = Some ac" "oa_codes s' = AList.update code (ac\<lparr>ac_used := True\<rparr>) (oa_codes s)"
      by blast
    have "code_granted s (ac\<lparr>ac_used := True\<rparr>)" using assms(2) ac(1) by (auto simp: codes_granted_def code_granted_def)
    then show ?thesis by (rule codes_granted_update [OF assms(2) _ k(1) ac(2)])
  qed
next
  case (refresh wo stamp now g client_id token r)
  then show ?thesis using assms(2) refresh_keeps codes_granted_frame by blast
next
  case (read_code now code c)
  then show ?thesis using assms(2)
    by (auto simp: load_authorization_code_def codes_granted_def code_granted_def split: if_splits option.splits)
next
  case (revoke wo stamp token r)
  then show ?thesis using assms(2) revoke_keeps codes_granted_frame by blast
next
  case (restart f c env now)
  then show ?thesis using setup_provider_Inr by (auto simp: codes_granted_def)
qed (use assms(2) in \<open>auto simp: load_refresh_token_def load_access_token_def Let_def codes_granted_def code_granted_def
      split: if_splits option.splits\<close>)

lemma oauth_history_granted: "oauth_history fns s codes exchanged hashes refreshed \<Longrightarrow> codes_granted s"
proof (induction rule: oauth_history.induct)
  case (start env now f cs s hashes)
  then show ?case using setup_provider_Inr by (simp add: codes_granted_def)
qed (blast intro: oauth_op_granted)

definition holds_token :: "oauth \<Rightarrow> string \<Rightarrow> string \<Rightarrow> json list \<Rightarrow> bool" where
  "holds_token s h client scopes \<longleftrightarrow>
     (\<exists>t. map_of (oa_tokens s) h = Some t \<and> st_client t = JStr client \<and> st_scopes t = scopes)"

lemma grant_held:
  assumes "oa_tokens s' = add_token (refresh_record fns n1 g client sc) (add_token (access_record fns n2 g client sc) tokens)"
  shows "holds_token s' (hash_token fns (fg_access g)) client sc \<and> holds_token s' (hash_token fns (fg_refresh g)) client sc"
  using assms by (auto simp: holds_token_def add_token_def access_record_def refresh_record_def)

text \<open>C19: In every reachable state the tokens issued for a code carry exactly the scopes of that code, which
  its client may ask for, for that client and before the code expires; a refresh needs a live refresh token of
  the same client and passes its scopes on unchanged.\<close>

theorem oauth_scopes_bounded:
  assumes "oauth_history fns s codes exchanged hashes refreshed"
  shows "(exchange_code_for_token fns wo now g client_id code verifier uri s = (Inr resp, s') \<longrightarrow>
      (\<exists>ac client. map_of (oa_codes s) code = Some ac \<and> \<not> ac_used ac \<and> ac_client ac = client_id \<and> now \<le> ac_expires ac
        \<and> map_of (oa_clients s) client_id = Some client \<and> set (ac_scopes ac) \<subseteq> set (allowed_scopes client)
        \<and> holds_token s' (hash_token fns (tr_access_token resp)) client_id (map JStr (ac_scopes ac))
        \<and> holds_token s' (hash_token fns (tr_refresh_token resp)) client_id (map JStr (ac_scopes ac))))
    \<and> (refresh_access_token fns wo stamp now g client_id token s = (Inr resp, s') \<longrightarrow>
      (\<exists>t. map_of (oa_tokens s) (hash_token fns token) = Some t \<and> st_type t = JStr ''refresh''
        \<and> st_client t = JStr client_id \<and> before_expiry now (st_expires t)
        \<and> holds_token s' (hash_token fns (tr_access_token resp)) client_id (st_scopes t)
        \<and> holds_token s' (hash_token fns (tr_refresh_token resp)) client_id (st_scopes t)))"
proof (intro conjI impI)
  assume e: "exchange_code_for_token fns wo now g client_id code verifier uri s = (Inr resp, s')"
  then obtain ac where ac: "code_check fns now client_id code verifier uri s = Inr ac"
    "oa_tokens s' = add_token (refresh_record fns now g client_id (map JStr (ac_scopes ac)))
       (add_token (access_record fns now g client_id (map JStr (ac_scopes ac))) (oa_tokens s))"
    "tr_access_token resp = fg_access g" "tr_refresh_token resp = fg_refresh g"
    by (elim exchange_Inr) auto
  have c: "map_of (oa_codes s) code = Some ac \<and> \<not> ac_used ac \<and> ac_client ac = client_id \<and> now \<le> ac_expires ac"
    by (rule code_check_live [OF ac(1)])
  then have "code_granted s ac" using oauth_history_granted [OF assms] by (auto simp: codes_granted_def)
  then show "\<exists>ac client. map_of (oa_codes s) code = Some ac \<and> \<not> ac_used ac \<and> ac_client ac = client_id \<and> now \<le> ac_expires ac
        \<and> map_of (oa_clients s) client_id = Some client \<and> set (ac_scopes ac) \<subseteq> set (allowed_scopes client)
        \<and> holds_token s' (hash_token fns (tr_access_token resp)) client_id (map JStr (ac_scopes ac))
        \<and> holds_token s' (hash_token fns (tr_refresh_token resp)) client_id (map JStr (ac_scopes ac))"
    using c grant_held [OF ac(2)] ac(3,4) by (auto simp: code_granted_def)
next
  assume e: "refresh_access_token fns wo stamp now g client_id token s = (Inr resp, s')"
  obtain f where f: "oa_store s = Some f" using oauth_history_inv [OF assms] by blast
  from refresh_cases [OF e] obtain t where t: "rotate_step fns wo stamp now g client_id token s t (Inr resp) s'" by auto
  have r: "tr_access_token resp = fg_access g" "tr_refresh_token resp = fg_refresh g"
    using e by (auto simp: refresh_access_token_def Let_def split: option.splits sum.splits prod.splits if_splits)
  have "oa_tokens s' = add_token (refresh_record fns now g client_id (st_scopes t))
      (add_token (access_record fns now g client_id (st_scopes t)) (AList.delete (hash_token fns token) (oa_tokens s)))"
  proof -
    obtain x f1 where x: "rotate_token (of_epoch fns) wo stamp (hash_token fns token) (grant_entries fns now g
        (access_record fns now g client_id (st_scopes t)) (refresh_record fns now g client_id (st_scopes t))) (Some now) f = (x, f1)"
      by (cases "rotate_token (of_epoch fns) wo stamp (hash_token fns token) (grant_entries fns now g
        (access_record fns now g client_id (st_scopes t)) (refresh_record fns now g client_id (st_scopes t))) (Some now) f")
    then obtain e where "x = Inr (Some e)" using t f by (cases x; cases "projr x") (auto simp: rotate_step_def Let_def)
    then show ?thesis using t f x by (auto simp: rotate_step_def Let_def)
  qed
  from grant_held [OF this] show "\<exists>t. map_of (oa_tokens s) (hash_token fns token) = Some t \<and> st_type t = JStr ''refresh''
        \<and> st_client t = JStr client_id \<and> before_expiry now (st_expires t)
        \<and> holds_token s' (hash_token fns (tr_access_token resp)) client_id (st_scopes t)
        \<and> holds_token s' (hash_token fns (tr_refresh_token resp)) client_id (st_scopes t)"
    using t r by (auto simp: rotate_step_def Let_def)
qed

subsection \<open>A concrete run\<close>

definition demo_fns :: oauth_fns where
  "demo_fns = \<lparr>of_sha = (\<lambda>s. s), of_s256 = (\<lambda>s. s), of_iso = (\<lambda>_. ''2026-01-01T00:00:00+00:00''), of_epoch = (\<lambda>_. Some 9)\<rparr>"

definition demo_oauth_client :: stored_client where
  "demo_oauth_client = \<lparr>sc_id = ''cl'', sc_redirect_uris = [''https://app/cb''], sc_name = ''app'', sc_auth_method = ''none'',
     sc_grant_types = [], sc_response_types = [''code''], sc_scopes = [''mcp:read'', ''mcp:repo''], sc_created_at = 0\<rparr>"

definition demo_env :: mcp_env where
  "demo_env = \<lparr>me_auth_mode = ''oauth'', me_health_token = [], me_extra_tokens = [], me_public_token = []\<rparr>"

definition demo_grant :: "string \<Rightarrow> fresh_grant" where
  "demo_grant n = \<lparr>fg_access = ''at'' @ n, fg_refresh = ''rt'' @ n, fg_access_id = ''ia'' @ n, fg_refresh_id = ''ir'' @ n\<rparr>"

definition demo_start :: oauth where
  "demo_start = new_provider\<lparr>oa_clients := [(''cl'', demo_oauth_client)], oa_store := Some NoFile,
     oa_client_store := Some [demo_oauth_client]\<rparr>"

definition demo_coded :: oauth where
  "demo_coded = snd (create_authorization_code 0 ''c1'' ''cl'' ''https://app/cb'' ''ch'' ''st'' [''mcp:read''] demo_start)"

definition demo_exchange :: "oauth \<Rightarrow> (oauth_error + token_response) \<times> oauth" where
  "demo_exchange s = exchange_code_for_token demo_fns Written 1 (demo_grant ''1'') ''cl'' ''c1'' [] ''https://app/cb'' s"

lemma demo_exchange_ok:
  "fst (demo_exchange demo_coded) = Inr \<lparr>tr_access_token = ''at1'', tr_refresh_token = ''rt1'', tr_scope = ''mcp:read''\<rparr>"
  by code_simp

lemma demo_coded_reach: "oauth_history demo_fns demo_coded {''c1''} [] {} []"
proof -
  have "setup_provider demo_fns demo_env 0 NoFile [demo_oauth_client] = Inr demo_start"
    by (simp add: setup_provider_def fixed_tokens_def demo_env_def load_tokens_def store_load_def load_clients_def
        demo_start_def new_provider_def demo_oauth_client_def)
  then have h: "oauth_history demo_fns demo_start {} [] {} []"
    by (rule oauth_history.start) (simp_all add: unambiguous_def live_hashes_def store_load_def)
  have "create_authorization_code 0 ''c1'' ''cl'' ''https://app/cb'' ''ch'' ''st'' [''mcp:read''] demo_start =
      (fst (create_authorization_code 0 ''c1'' ''cl'' ''https://app/cb'' ''ch'' ''st'' [''mcp:read''] demo_start), demo_coded)"
    by (simp add: demo_coded_def)
  from oauth_history.step [OF h oauth_op.consent [OF this]] show ?thesis by simp
qed

lemma oauth_single_use_witness:
  "\<exists>er. demo_exchange (snd (demo_exchange demo_coded)) = (Inl er, snd (demo_exchange demo_coded))"
proof -
  let ?g = "demo_grant ''1''"
  have e: "exchange_code_for_token demo_fns Written 1 ?g ''cl'' ''c1'' [] ''https://app/cb'' demo_coded =
      (Inr \<lparr>tr_access_token = ''at1'', tr_refresh_token = ''rt1'', tr_scope = ''mcp:read''\<rparr>, snd (demo_exchange demo_coded))"
    using demo_exchange_ok by (simp add: demo_exchange_def prod_eq_iff)
  have "hash_token demo_fns (fg_access ?g) \<noteq> hash_token demo_fns (fg_refresh ?g)" by code_simp
  from oauth_history.step [OF demo_coded_reach oauth_op.exchange [OF e this]]
  have "oauth_history demo_fns (snd (demo_exchange demo_coded)) ({''c1''} \<union> {}) ([''c1''] @ [])
      ({} \<union> {hash_token demo_fns (fg_access ?g), hash_token demo_fns (fg_refresh ?g)}) ([] @ [])" by simp
  from oauth_single_use [OF this, where code = "''c1''"] show ?thesis by (simp add: demo_exchange_def)
qed

lemma oauth_scopes_bounded_witness:
  "\<exists>ac client. map_of (oa_codes demo_coded) ''c1'' = Some ac \<and> map_of (oa_clients demo_coded) ''cl'' = Some client
    \<and> set (ac_scopes ac) \<subseteq> set (allowed_scopes client)"
proof -
  have e: "exchange_code_for_token demo_fns Written 1 (demo_grant ''1'') ''cl'' ''c1'' [] ''https://app/cb'' demo_coded =
      (Inr \<lparr>tr_access_token = ''at1'', tr_refresh_token = ''rt1'', tr_scope = ''mcp:read''\<rparr>, snd (demo_exchange demo_coded))"
    using demo_exchange_ok by (simp add: demo_exchange_def prod_eq_iff)
  from oauth_scopes_bounded [OF demo_coded_reach] e show ?thesis by blast
qed

text \<open>Without a scope a client gets every scope, \<open>mcp:admin\<close> included, though the comment says it does not.\<close>

lemma default_scopes_are_all: "parse_scopes None = Inr SUPPORTED_SCOPES \<and> ''mcp:admin'' \<in> set SUPPORTED_SCOPES"
  by (simp add: parse_scopes_def DEFAULT_SCOPES_def SUPPORTED_SCOPES_def)

end
