(* ===== verification/McpProxy.thy ===== *)
theory McpProxy
  imports OAuthProvider
begin

text \<open>
  The access control of \<open>examples/mcp_client_remote/server.py\<close>, the public proxy of the MCP server: the
  middleware that asks for a credential, the scope check of a tool call, the forwarding, and the consent form
  that creates authorization codes. The provider lives in the same process. The module settings are a
  \<open>proxy_config\<close>; a request is what the handlers read of it, its body already parsed (\<open>None\<close>: not JSON).
  The transport to the internal server is not modelled: a forwarded request is a result.
\<close>

record proxy_config =
  pc_auth_mode :: string
  pc_enforcement :: string
  pc_public_token :: string
  pc_default_profile :: string
  pc_safe_mode :: bool
  pc_authorize_password :: string

record proxy_request =
  rq_path :: string
  rq_authorization :: "string option"
  rq_mcp_token :: string
  rq_body :: "json option"

datatype proxy_result =
    Denied nat string
  | ServerError
  | Forwarded string "string option"

definition OAUTH_PUBLIC_PREFIXES :: "string list" where
  "OAUTH_PUBLIC_PREFIXES = [''/.well-known/'', ''/oauth/'']"

definition OAUTH_PUBLIC_EXACT_OR_NESTED :: "string list" where
  "OAUTH_PUBLIC_EXACT_OR_NESTED = [''/authorize'', ''/token'', ''/register'', ''/health'']"

definition is_oauth_public_path :: "string \<Rightarrow> bool" where
  "is_oauth_public_path path \<longleftrightarrow>
     list_ex (startswith path) OAUTH_PUBLIC_PREFIXES
     \<or> list_ex (\<lambda>p. path = p \<or> startswith path (p @ ''/'')) OAUTH_PUBLIC_EXACT_OR_NESTED"

subsection \<open>The middleware\<close>

definition bearer_of :: "proxy_request \<Rightarrow> string option" where
  "bearer_of rq =
     (case rq_authorization rq of
        None \<Rightarrow> None
      | Some h \<Rightarrow> if startswith h ''Bearer '' then Some (drop 7 h) else None)"

text \<open>\<open>Inr\<close>: the request goes on, with the token put in its state, if any.\<close>

definition dispatch :: "proxy_config \<Rightarrow> proxy_request \<Rightarrow> proxy_result + string option" where
  "dispatch cfg rq =
     (if is_oauth_public_path (rq_path rq) then Inr None
      else if pc_auth_mode cfg = ''oauth''
      then (case bearer_of rq of
              Some t \<Rightarrow> Inr (Some t)
            | None \<Rightarrow>
                if rq_mcp_token rq \<noteq> [] then Inl (Denied 401 ''mcp_token is not accepted in oauth mode'')
                else Inl (Denied 401 ''Missing Authorization: Bearer header''))
      else (case bearer_of rq of
              Some t \<Rightarrow>
                if t = pc_public_token cfg then Inr (Some t) else Inl (Denied 403 ''invalid Bearer token'')
            | None \<Rightarrow>
                if rq_mcp_token rq \<noteq> []
                then (if rq_mcp_token rq = pc_public_token cfg then Inr (Some (rq_mcp_token rq))
                      else Inl (Denied 403 ''invalid mcp_token''))
                else Inl (Denied 401 ''Missing Authorization header or mcp_token'')))"

subsection \<open>Scopes\<close>

definition default_access_profile :: "proxy_config \<Rightarrow> string" where
  "default_access_profile cfg = (if pc_safe_mode cfg then ''mcp_client_safe'' else pc_default_profile cfg)"

text \<open>
  What \<open>load_access_token\<close> returns holds only if its fields are strings: otherwise the SDK's model raises,
  and the exception is swallowed.
\<close>

definition token_scopes :: "stored_token \<Rightarrow> string list option" where
  "token_scopes t =
     (if jstr (st_client t) = None then None
      else (case traverse (\<lambda>j. case jstr j of None \<Rightarrow> Inl () | Some x \<Rightarrow> Inr x) (st_scopes t) of
              Inl _ \<Rightarrow> None
            | Inr xs \<Rightarrow> Some xs))"

definition get_token_scopes ::
    "proxy_config \<Rightarrow> oauth_fns \<Rightarrow> time \<Rightarrow> string option \<Rightarrow> oauth \<Rightarrow> string list option \<times> oauth" where
  "get_token_scopes cfg fns now auth_token s =
     (case auth_token of
        None \<Rightarrow> (Some [], s)
      | Some t \<Rightarrow>
          if t = [] then (Some [], s)
          else
            (case load_access_token fns now t s of
               (info, s') \<Rightarrow>
                 (case (case info of None \<Rightarrow> None | Some st \<Rightarrow> token_scopes st) of
                    Some scopes \<Rightarrow> (Some scopes, s')
                  | None \<Rightarrow>
                      if pc_public_token cfg \<noteq> [] \<and> t = pc_public_token cfg
                      then (get_profile_scopes (default_access_profile cfg), s')
                      else (Some [], s'))))"

text \<open>\<open>None\<close> lets the request pass. A tool name that cannot be a dictionary key raises.\<close>

definition tool_block :: "proxy_config \<Rightarrow> string list \<Rightarrow> json \<Rightarrow> proxy_result option" where
  "tool_block cfg scopes tool_name =
     (if falsy tool_name then None
      else
        (case tool_name of
           JList _ \<Rightarrow> Some ServerError
         | JObj _ \<Rightarrow> Some ServerError
         | _ \<Rightarrow>
             (let granted = (case tool_name of JStr t \<Rightarrow> has_required_scope scopes t | _ \<Rightarrow> FAIL_CLOSED_SCOPE \<in> set scopes) in
              if granted then None
              else if pc_enforcement cfg = ''enforce'' then Some (Denied 403 ''insufficient_scope'')
              else None)))"

definition check_tool_scope ::
    "proxy_config \<Rightarrow> oauth_fns \<Rightarrow> time \<Rightarrow> string option \<Rightarrow> string \<Rightarrow> json option \<Rightarrow> oauth \<Rightarrow> proxy_result option \<times> oauth" where
  "check_tool_scope cfg fns now auth_token path body s =
     (if pc_enforcement cfg = ''off'' then (None, s)
      else
        (case get_token_scopes cfg fns now auth_token s of
           (None, s') \<Rightarrow> (Some ServerError, s')
         | (Some scopes, s') \<Rightarrow>
             if \<not> fst (check_fleet_route path scopes)
             then (if pc_enforcement cfg = ''enforce'' then Some (Denied 403 ''insufficient_scope'') else None, s')
             else (tool_block cfg scopes (extract_tool_from_body body), s')))"

definition proxy_request_handler ::
    "proxy_config \<Rightarrow> oauth_fns \<Rightarrow> time \<Rightarrow> proxy_request \<Rightarrow> string option \<Rightarrow> oauth \<Rightarrow> proxy_result \<times> oauth" where
  "proxy_request_handler cfg fns now rq auth_token s =
     (case check_tool_scope cfg fns now auth_token (rq_path rq) (rq_body rq) s of
        (Some block, s') \<Rightarrow> (block, s')
      | (None, s') \<Rightarrow>
          (Forwarded (if rq_path rq = ''/'' then ''/mcp'' else rq_path rq)
             (case rq_authorization rq of
                Some h \<Rightarrow> Some h
              | None \<Rightarrow>
                  (case auth_token of
                     None \<Rightarrow> None
                   | Some t \<Rightarrow> if t = [] then None else Some (''Bearer '' @ t))), s'))"

definition serve :: "proxy_config \<Rightarrow> oauth_fns \<Rightarrow> time \<Rightarrow> proxy_request \<Rightarrow> oauth \<Rightarrow> proxy_result \<times> oauth" where
  "serve cfg fns now rq s =
     (case dispatch cfg rq of
        Inl refusal \<Rightarrow> (refusal, s)
      | Inr auth_token \<Rightarrow> proxy_request_handler cfg fns now rq auth_token s)"

subsection \<open>The consent form\<close>

record consent_form =
  cf_password :: string
  cf_client :: string
  cf_redirect_uri :: string
  cf_scope :: string
  cf_state :: string
  cf_challenge :: string

datatype consent_result =
    ConsentRetry string
  | ConsentUnavailable
  | ConsentRaised
  | ConsentCode string

definition consent_post ::
    "proxy_config \<Rightarrow> time \<Rightarrow> string \<Rightarrow> consent_form \<Rightarrow> oauth option \<Rightarrow> consent_result \<times> oauth option" where
  "consent_post cfg now code form prov =
     (if cf_password form \<noteq> [] \<and> (\<not> is_ascii (cf_password form) \<or> \<not> is_ascii (pc_authorize_password cfg))
      then (ConsentRaised, prov)
      else if cf_password form = [] \<or> cf_password form \<noteq> pc_authorize_password cfg
      then (ConsentRetry ''Invalid password. Try again.'', prov)
      else
        (case prov of
           None \<Rightarrow> (ConsentUnavailable, None)
         | Some s \<Rightarrow>
             (case parse_scopes (Some (cf_scope form)) of
                Inl _ \<Rightarrow> (ConsentRaised, prov)
              | Inr scopes \<Rightarrow>
                  (case create_authorization_code now code (cf_client form) (cf_redirect_uri form) (cf_challenge form)
                          (cf_state form) scopes s of
                     (Inl _, s') \<Rightarrow> (ConsentRetry ''Requested scopes not allowed'', Some s')
                   | (Inr c, s') \<Rightarrow> (ConsentCode c, Some s')))))"

subsection \<open>Properties\<close>

lemma consent_needs_password:
  "consent_post cfg now code form prov = (ConsentCode c, prov') \<Longrightarrow>
   cf_password form = pc_authorize_password cfg \<and> cf_password form \<noteq> []
   \<and> (\<exists>s client. prov = Some s \<and> map_of (oa_clients s) (cf_client form) = Some client
        \<and> cf_redirect_uri form \<in> set (sc_redirect_uris client))"
  by (auto simp: consent_post_def create_authorization_code_def Let_def split: if_splits option.splits sum.splits prod.splits)

text \<open>A scope outside the table is not answered by the form but raises out of the handler.\<close>

lemma consent_unknown_scope_raises:
  "pc_authorize_password cfg = ''pw'' \<Longrightarrow>
   fst (consent_post cfg now code \<lparr>cf_password = ''pw'', cf_client = ''cl'', cf_redirect_uri = ''u'', cf_scope = ''mcp:rm'',
      cf_state = [], cf_challenge = []\<rparr> (Some s)) = ConsentRaised"
proof -
  have "is_ascii ''pw''" "\<exists>er. parse_scopes (Some ''mcp:rm'') = Inl er" by code_simp (rule exI, code_simp)
  then show "pc_authorize_password cfg = ''pw'' \<Longrightarrow> ?thesis" by (auto simp: consent_post_def)
qed

text \<open>A JSON array, a batch of calls, names no tool: the scopes of the calls in it are not checked.\<close>

lemma batch_not_scoped: "extract_tool_from_body (Some (JList calls)) = JNull"
  by (simp add: extract_tool_from_body_def)

text \<open>
  The token the middleware lets through: the bearer, or in token mode the query parameter, which then is the
  configured token.
\<close>

definition presented :: "proxy_config \<Rightarrow> proxy_request \<Rightarrow> string \<Rightarrow> bool" where
  "presented cfg rq t \<longleftrightarrow>
     \<not> is_oauth_public_path (rq_path rq)
     \<and> (bearer_of rq = Some t \<or> pc_auth_mode cfg \<noteq> ''oauth'' \<and> bearer_of rq = None \<and> rq_mcp_token rq = t)
     \<and> (pc_auth_mode cfg \<noteq> ''oauth'' \<longrightarrow> t = pc_public_token cfg)"

lemma dispatch_presented: "dispatch cfg rq = Inr (Some t) \<Longrightarrow> presented cfg rq t"
  by (auto simp: dispatch_def presented_def split: if_splits option.splits)

lemma token_scopes_some:
  "token_scopes t = Some xs \<Longrightarrow> st_scopes t = map JStr xs"
proof -
  assume "token_scopes t = Some xs"
  then have "traverse (\<lambda>j. case jstr j of None \<Rightarrow> Inl () | Some x \<Rightarrow> Inr x) (st_scopes t) = Inr xs"
    by (auto simp: token_scopes_def split: if_splits sum.splits)
  from traverse_Inr [OF this] show ?thesis
  proof (induction rule: list_all2_induct)
    case (Cons j js x xs)
    then show ?case by (cases j) auto
  qed simp
qed

text \<open>Where scopes come from: a live access token that was presented, or the default profile for the shared one.\<close>

definition entitled :: "proxy_config \<Rightarrow> oauth_fns \<Rightarrow> time \<Rightarrow> string \<Rightarrow> oauth \<Rightarrow> string list \<Rightarrow> bool" where
  "entitled cfg fns now t s scopes \<longleftrightarrow>
     t \<noteq> []
     \<and> ((\<exists>st. map_of (oa_tokens s) (hash_token fns t) = Some st \<and> st_type st = JStr ''access''
           \<and> before_expiry now (st_expires st) \<and> st_scopes st = map JStr scopes)
        \<or> t = pc_public_token cfg \<and> get_profile_scopes (default_access_profile cfg) = Some scopes)"

lemma get_token_scopes_entitled:
  assumes "get_token_scopes cfg fns now auth_token s = (Some scopes, s')" "scopes \<noteq> []"
  shows "\<exists>t. auth_token = Some t \<and> entitled cfg fns now t s scopes"
proof -
  obtain t where t: "auth_token = Some t" "t \<noteq> []"
    using assms by (auto simp: get_token_scopes_def split: option.splits if_splits)
  obtain info s1 where l: "load_access_token fns now t s = (info, s1)" by (cases "load_access_token fns now t s")
  show ?thesis
  proof (cases "\<exists>st xs. info = Some st \<and> token_scopes st = Some xs")
    case True
    then obtain st xs where st: "info = Some st" "token_scopes st = Some xs" by blast
    then have "scopes = xs" using assms t l by (auto simp: get_token_scopes_def)
    then show ?thesis using t l st token_scopes_some [OF st(2)]
      by (auto simp: entitled_def load_access_token_def Let_def split: option.splits if_splits)
  next
    case False
    then show ?thesis using assms t l
      by (auto simp: get_token_scopes_def entitled_def split: option.splits if_splits)
  qed
qed

text \<open>C17: In enforce mode the proxy forwards a call of a tool only if the request presented a credential the
  middleware accepts on a path that is not public, and that credential is a live access token of the provider or the
  shared token, whose scopes include every scope the tool needs.\<close>

theorem proxy_enforces_tool_scopes:
  assumes "pc_enforcement cfg = ''enforce''" "extract_tool_from_body (rq_body rq) = JStr tool" "tool \<noteq> []"
    "serve cfg fns now rq s = (Forwarded path auth, s')"
  shows "\<exists>t scopes. presented cfg rq t \<and> entitled cfg fns now t s scopes \<and> has_required_scope scopes tool"
proof -
  obtain tok where d: "dispatch cfg rq = Inr tok"
    using assms(4) by (auto simp: serve_def dispatch_def split: sum.splits option.splits if_splits)
  have c: "fst (check_tool_scope cfg fns now tok (rq_path rq) (rq_body rq) s) = None"
    using assms(4) d
    by (auto simp: serve_def proxy_request_handler_def check_tool_scope_def tool_block_def Let_def
        split: prod.splits option.splits if_splits json.splits)
  obtain scopes s1 where g: "get_token_scopes cfg fns now tok s = (Some scopes, s1)"
    using c assms(1) by (auto simp: check_tool_scope_def split: prod.splits option.splits)
  have h: "has_required_scope scopes tool"
    using c g assms(1-3)
    by (auto simp: check_tool_scope_def tool_block_def Let_def split: if_splits)
  then have "scopes \<noteq> []" using no_scope_no_tool by auto
  from get_token_scopes_entitled [OF g this] obtain t where "tok = Some t" "entitled cfg fns now t s scopes" by blast
  then show ?thesis using dispatch_presented d h by blast
qed

definition demo_proxy :: "string \<Rightarrow> proxy_config" where
  "demo_proxy enforcement = \<lparr>pc_auth_mode = ''oauth'', pc_enforcement = enforcement, pc_public_token = [],
     pc_default_profile = ''operator'', pc_safe_mode = False, pc_authorize_password = ''pw''\<rparr>"

definition demo_call :: "string \<Rightarrow> proxy_request" where
  "demo_call tool = \<lparr>rq_path = ''/mcp'', rq_authorization = Some ''Bearer at1'', rq_mcp_token = [],
     rq_body = Some (JObj [(''method'', JStr ''tools/call''), (''params'', JObj [(''name'', JStr tool)])])\<rparr>"

definition demo_logged_in :: oauth where
  "demo_logged_in = new_provider\<lparr>oa_tokens := [(''sha256:at1'', \<lparr>st_token = ''sha256:at1'', st_client = JStr ''cl'',
     st_scopes = [JStr ''mcp:read''], st_expires = Some 50, st_type = JStr ''access''\<rparr>)]\<rparr>"

lemma proxy_enforces_tool_scopes_witness:
  "fst (serve (demo_proxy ''enforce'') demo_fns 9 (demo_call ''git_push'') demo_logged_in) = Denied 403 ''insufficient_scope''
   \<and> (\<exists>t scopes. presented (demo_proxy ''enforce'') (demo_call ''health'') t
        \<and> entitled (demo_proxy ''enforce'') demo_fns 9 t demo_logged_in scopes \<and> has_required_scope scopes ''health'')"
proof
  show "fst (serve (demo_proxy ''enforce'') demo_fns 9 (demo_call ''git_push'') demo_logged_in) = Denied 403 ''insufficient_scope''"
    by code_simp
  have "fst (serve (demo_proxy ''enforce'') demo_fns 9 (demo_call ''health'') demo_logged_in) = Forwarded ''/mcp'' (Some ''Bearer at1'')"
    by code_simp
  then have e: "serve (demo_proxy ''enforce'') demo_fns 9 (demo_call ''health'') demo_logged_in =
      (Forwarded ''/mcp'' (Some ''Bearer at1''), snd (serve (demo_proxy ''enforce'') demo_fns 9 (demo_call ''health'') demo_logged_in))"
    by (simp add: prod_eq_iff)
  show "\<exists>t scopes. presented (demo_proxy ''enforce'') (demo_call ''health'') t
        \<and> entitled (demo_proxy ''enforce'') demo_fns 9 t demo_logged_in scopes \<and> has_required_scope scopes ''health''"
    by (rule proxy_enforces_tool_scopes [OF _ _ _ e])
      (simp_all add: demo_proxy_def demo_call_def extract_tool_from_body_def)
qed

text \<open>
  In token mode the startup registers the shared token with every scope, so neither the default profile nor
  the safe mode limits it: \<open>default_access_profile\<close> is never reached for it.
\<close>

lemma token_mode_ignores_profile:
  assumes "me_auth_mode env = ''token''" "me_public_token env = tok" "tok \<noteq> []"
    and s: "setup_provider fns env now NoFile cs = Inr s"
  shows "get_token_scopes cfg fns now (Some tok) s = (Some SUPPORTED_SCOPES, s)"
proof -
  have m: "map_of (oa_tokens s) (hash_token fns tok) = Some (fixed_token fns tok ''mcp_static_client'' DEFAULT_SCOPES)"
    using assms by (auto simp: setup_provider_def fixed_tokens_def load_tokens_def store_load_def new_provider_def
        add_token_def fixed_token_def)
  have "traverse (\<lambda>j. case jstr j of None \<Rightarrow> Inl () | Some x \<Rightarrow> Inr x) (map JStr DEFAULT_SCOPES) = Inr DEFAULT_SCOPES"
    by (rule traverse_map) simp
  then have "token_scopes (fixed_token fns tok ''mcp_static_client'' DEFAULT_SCOPES) = Some SUPPORTED_SCOPES"
    by (simp add: token_scopes_def fixed_token_def DEFAULT_SCOPES_def)
  then show ?thesis
    using m assms(3) by (simp add: get_token_scopes_def load_access_token_def Let_def fixed_token_def before_expiry_def)
qed

end
