(* ===== verification/ConfirmStore.thy ===== *)
theory ConfirmStore
  imports Prelude PyJson SingleUse
begin

text \<open>
  \<open>examples/mcp_server/docker_confirm.py\<close>: the in-memory store of dangerous Docker operations waiting for a
  confirmation, and \<open>confirm_operation\<close> of \<open>mcp_infra/adapters/docker.py\<close>, the only caller that executes one. The clock
  (\<open>time.monotonic\<close>), the fresh identifier and token and the authenticated caller are arguments.
\<close>

definition CONFIRM_TTL_SECONDS :: time where
  "CONFIRM_TTL_SECONDS = 60"

datatype confirm_status = ConfirmOk | ConfirmInvalid | ConfirmExpired | ConfirmConsumed

fun confirm_status_value :: "confirm_status \<Rightarrow> string" where
  "confirm_status_value ConfirmOk = ''ok''"
| "confirm_status_value ConfirmInvalid = ''invalid''"
| "confirm_status_value ConfirmExpired = ''expired''"
| "confirm_status_value ConfirmConsumed = ''consumed''"

record docker_action =
  cn_id :: string
  cn_tool :: string
  cn_kwargs :: json
  cn_token :: string
  cn_summary :: string
  cn_risk :: string
  cn_required_scope :: string
  cn_owner :: "string option"
  cn_created :: time
  cn_consumed :: bool

record confirm_store =
  cs_actions :: "(string \<times> docker_action) list"
  cs_token_map :: "(string \<times> string) list"

definition new_confirm_store :: confirm_store where
  "new_confirm_store = \<lparr>cs_actions = [], cs_token_map = []\<rparr>"

definition create_action ::
    "time \<Rightarrow> string \<Rightarrow> string \<Rightarrow> string \<Rightarrow> json \<Rightarrow> string \<Rightarrow> string \<Rightarrow> string \<Rightarrow> string option \<Rightarrow> confirm_store
      \<Rightarrow> docker_action \<times> confirm_store" where
  "create_action now action_id token tool kwargs summary risk scope owner s =
     (let a = \<lparr>cn_id = action_id, cn_tool = tool, cn_kwargs = kwargs, cn_token = token, cn_summary = summary, cn_risk = risk,
             cn_required_scope = scope, cn_owner = owner, cn_created = now, cn_consumed = False\<rparr> in
      (a, \<lparr>cs_actions = AList.update action_id a (cs_actions s),
           cs_token_map = AList.update token action_id (cs_token_map s)\<rparr>))"

definition action_stale :: "time \<Rightarrow> docker_action \<Rightarrow> bool" where
  "action_stale now a \<longleftrightarrow> CONFIRM_TTL_SECONDS < now - cn_created a"

definition peek_action_id :: "time \<Rightarrow> string \<Rightarrow> confirm_store \<Rightarrow> docker_action option \<times> confirm_status" where
  "peek_action_id now action_id s =
     (case map_of (cs_actions s) action_id of
        None \<Rightarrow> (None, ConfirmInvalid)
      | Some a \<Rightarrow>
          if cn_consumed a then (None, ConfirmConsumed)
          else if action_stale now a then (None, ConfirmExpired)
          else (Some a, ConfirmOk))"

text \<open>
  The token map, then a search over the actions. \<open>compare_digest\<close> raises on a token that is not ASCII when
  there is an action to compare with: the outer \<open>None\<close>.
\<close>

definition find_action_id :: "string \<Rightarrow> confirm_store \<Rightarrow> (string option \<times> confirm_store) option" where
  "find_action_id token s =
     (case map_of (cs_token_map s) token of
        Some i \<Rightarrow> Some (Some i, s)
      | None \<Rightarrow>
          if cs_actions s \<noteq> [] \<and> \<not> list_all (\<lambda>c. (of_char c :: nat) < 128) token then None
          else
            (case find (\<lambda>(i, a). cn_token a = token) (cs_actions s) of
               None \<Rightarrow> Some (None, s)
             | Some (i, a) \<Rightarrow> Some (Some i, s\<lparr>cs_token_map := AList.update token i (cs_token_map s)\<rparr>)))"

definition peek_action ::
    "time \<Rightarrow> string \<Rightarrow> confirm_store \<Rightarrow> ((docker_action option \<times> confirm_status) \<times> confirm_store) option" where
  "peek_action now token s =
     (case find_action_id token s of
        None \<Rightarrow> None
      | Some (None, s') \<Rightarrow> Some ((None, ConfirmInvalid), s')
      | Some (Some i, s') \<Rightarrow> Some (peek_action_id now i s', s'))"

definition mark_consumed :: "string \<Rightarrow> docker_action \<Rightarrow> confirm_store \<Rightarrow> confirm_store" where
  "mark_consumed i a s = s\<lparr>cs_actions := AList.update i (a\<lparr>cn_consumed := True\<rparr>) (cs_actions s)\<rparr>"

text \<open>The returned object is the stored one, so it reads as consumed.\<close>

definition confirm_action ::
    "time \<Rightarrow> string \<Rightarrow> confirm_store \<Rightarrow> ((docker_action option \<times> confirm_status) \<times> confirm_store) option" where
  "confirm_action now token s =
     (case peek_action now token s of
        None \<Rightarrow> None
      | Some ((Some a, ConfirmOk), s') \<Rightarrow> Some ((Some (a\<lparr>cn_consumed := True\<rparr>), ConfirmOk), mark_consumed (cn_id a) a s')
      | Some r \<Rightarrow> Some r)"

definition consume_action :: "string \<Rightarrow> confirm_store \<Rightarrow> bool \<times> confirm_store" where
  "consume_action i s =
     (case map_of (cs_actions s) i of
        None \<Rightarrow> (False, s)
      | Some a \<Rightarrow> if cn_consumed a then (False, s) else (True, mark_consumed i a s))"

record pending_action =
  pd_id :: string
  pd_tool :: string
  pd_summary :: string
  pd_risk :: string
  pd_expires_in :: int
  pd_token_preview :: string

definition list_pending :: "time \<Rightarrow> confirm_store \<Rightarrow> pending_action list" where
  "list_pending now s =
     map (\<lambda>(i, a). \<lparr>pd_id = cn_id a, pd_tool = cn_tool a, pd_summary = cn_summary a, pd_risk = cn_risk a,
            pd_expires_in = max 0 \<lfloor>CONFIRM_TTL_SECONDS - (now - cn_created a)\<rfloor>,
            pd_token_preview = take 6 (cn_token a) @ ''...''\<rparr>)
       (filter (\<lambda>(i, a). \<not> cn_consumed a \<and> \<not> action_stale now a) (cs_actions s))"

definition drop_action :: "string \<Rightarrow> confirm_store \<Rightarrow> confirm_store" where
  "drop_action i s =
     (case map_of (cs_actions s) i of
        None \<Rightarrow> s
      | Some a \<Rightarrow> \<lparr>cs_actions = AList.delete i (cs_actions s), cs_token_map = AList.delete (cn_token a) (cs_token_map s)\<rparr>)"

definition cleanup_confirmations :: "time \<Rightarrow> confirm_store \<Rightarrow> nat \<times> confirm_store" where
  "cleanup_confirmations now s =
     (let expired = map fst (filter (\<lambda>(i, a). action_stale now a) (cs_actions s)) in
      (length expired, fold drop_action expired s))"

subsection \<open>The confirmation of an operation\<close>

text \<open>The caller: the access token and the client of the request, hashed to a fingerprint; none without both.\<close>

definition confirmation_owner :: "(string \<Rightarrow> string) \<Rightarrow> (string \<times> string) option \<Rightarrow> string option" where
  "confirmation_owner sha access =
     (case access of
        None \<Rightarrow> None
      | Some (token, client) \<Rightarrow> if token = [] \<or> client = [] then None else Some (sha (client @ CHR 0x00 # token)))"

text \<open>The answer that asks for a confirmation binds the action to its caller.\<close>

definition bind_owner :: "string \<Rightarrow> string option \<Rightarrow> confirm_store \<Rightarrow> confirm_store" where
  "bind_owner i owner s =
     (case map_of (cs_actions s) i of
        None \<Rightarrow> s
      | Some a \<Rightarrow> if cn_owner a = None then s\<lparr>cs_actions := AList.update i (a\<lparr>cn_owner := owner\<rparr>) (cs_actions s)\<rparr> else s)"

definition CONFIRM_HANDLERS :: "string list" where
  "CONFIRM_HANDLERS =
     [''docker_start'', ''docker_stop'', ''docker_restart'', ''docker_rm'', ''docker_compose_down'', ''docker_compose_up'',
      ''docker_compose_restart'', ''docker_compose_build'', ''docker_prune'', ''docker_exec'', ''docker_run'', ''docker_rmi'',
      ''docker_volume_rm'', ''docker_deploy_contract'', ''docker_prepare_site_audit_lkg_recovery'', ''docker_deploy_site_audit'',
      ''docker_provision_site_audit_crm'', ''docker_deploy_xloud'', ''docker_recover_deployment'',
      ''docker_deploy_content_harvester'', ''docker_migrate_content_harvester'']"

text \<open>Exactly one of the secret token and the public identifier.\<close>

definition is_given :: "string option \<Rightarrow> bool" where
  "is_given x \<longleftrightarrow> x \<noteq> None \<and> x \<noteq> Some []"

fun peek_error :: "bool \<Rightarrow> confirm_status \<Rightarrow> string" where
  "peek_error by_id ConfirmInvalid = (if by_id then ''INVALID_INPUT'' else ''CONFIRM_TOKEN_INVALID'')"
| "peek_error by_id ConfirmExpired = ''CONFIRM_TOKEN_EXPIRED''"
| "peek_error by_id ConfirmConsumed = ''CONFIRM_TOKEN_CONSUMED''"
| "peek_error by_id ConfirmOk = ''INTERNAL_ERROR''"

text \<open>The checks between the look at the action and its use.\<close>

definition confirm_error :: "bool \<Rightarrow> string option \<Rightarrow> string list \<Rightarrow> docker_action \<Rightarrow> string option" where
  "confirm_error by_id owner scopes a =
     (if by_id \<and> (owner = None \<or> cn_owner a = None) then Some ''AUTH_ERROR''
      else if by_id \<and> owner \<noteq> cn_owner a then Some ''PERMISSION_DENIED''
      else if cn_tool a \<notin> set CONFIRM_HANDLERS then Some ''INTERNAL_ERROR''
      else if cn_required_scope a \<noteq> ''mcp:docker'' \<and> cn_required_scope a \<notin> set scopes then Some ''CONFIRM_SCOPE_DENIED''
      else None)"

text \<open>The action that is executed, or an error code; the outer \<open>None\<close> is the exception of \<open>compare_digest\<close>.\<close>

definition confirm_operation ::
    "time \<Rightarrow> string option \<Rightarrow> string option \<Rightarrow> string option \<Rightarrow> string list \<Rightarrow> confirm_store
      \<Rightarrow> ((string + docker_action) \<times> confirm_store) option" where
  "confirm_operation now token action_id owner scopes s =
     (if is_given token \<longleftrightarrow> is_given action_id then Some (Inl ''INVALID_INPUT'', s)
      else
        (case (case action_id of
                 Some i \<Rightarrow> Some (peek_action_id now i s, s)
               | None \<Rightarrow> peek_action now (case token of Some t \<Rightarrow> t | None \<Rightarrow> []) s) of
           None \<Rightarrow> None
         | Some ((None, st), s') \<Rightarrow> Some (Inl (peek_error (action_id \<noteq> None) st), s')
         | Some ((Some a, st), s') \<Rightarrow>
             (case confirm_error (action_id \<noteq> None) owner scopes a of
                Some code \<Rightarrow> Some (Inl code, s')
              | None \<Rightarrow>
                  (case consume_action (cn_id a) s' of
                     (False, s'') \<Rightarrow> Some (Inl ''CONFIRM_TOKEN_CONSUMED'', s'')
                   | (True, s'') \<Rightarrow> Some (Inr (a\<lparr>cn_consumed := True\<rparr>), s'')))))"

subsection \<open>The store over its histories\<close>

definition store_ids :: "confirm_store \<Rightarrow> string set" where
  "store_ids s = fst ` set (cs_actions s) \<union> snd ` set (cs_token_map s)"

definition confirm_ok :: "confirm_store \<Rightarrow> bool" where
  "confirm_ok s \<longleftrightarrow>
     dict_ok (cs_actions s) \<and> (\<forall>i a. map_of (cs_actions s) i = Some a \<longrightarrow> cn_id a = i)
     \<and> (\<forall>t i a. map_of (cs_token_map s) t = Some i \<longrightarrow> map_of (cs_actions s) i = Some a \<longrightarrow> cn_token a = t)"

definition awaiting :: "confirm_store \<Rightarrow> string set" where
  "awaiting s = {i. \<exists>a. map_of (cs_actions s) i = Some a \<and> \<not> cn_consumed a}"

text \<open>One call: the actions it releases for execution and the identifiers it adds.\<close>

inductive confirm_op :: "confirm_store \<Rightarrow> string list \<Rightarrow> string set \<Rightarrow> confirm_store \<Rightarrow> bool" where
  create: "create_action now i token tool kwargs summary risk scope owner s = (a, s') \<Longrightarrow> confirm_op s [] {i} s'"
| confirm: "confirm_action now token s = Some ((r, st), s') \<Longrightarrow>
    confirm_op s (case r of Some a \<Rightarrow> [cn_id a] | None \<Rightarrow> []) {} s'"
| peek: "peek_action now token s = Some (r, s') \<Longrightarrow> confirm_op s [] {} s'"
| consume: "consume_action i s = (b, s') \<Longrightarrow> confirm_op s (if b then [i] else []) {} s'"
| cleanup: "cleanup_confirmations now s = (n, s') \<Longrightarrow> confirm_op s [] {} s'"
| bind: "confirm_op s [] {} (bind_owner i owner s)"
| operation: "confirm_operation now token action_id owner scopes s = Some (r, s') \<Longrightarrow>
    confirm_op s (case r of Inl code \<Rightarrow> [] | Inr a \<Rightarrow> [cn_id a]) {} s'"

inductive confirm_history :: "confirm_store \<Rightarrow> string set \<Rightarrow> string list \<Rightarrow> bool" where
  start: "confirm_history new_confirm_store {} []"
| step: "confirm_history s seen released \<Longrightarrow> confirm_op s ids new s' \<Longrightarrow> new \<inter> seen = {} \<Longrightarrow>
    confirm_history s' (seen \<union> new) (ids @ released)"

lemma dict_update_subset: "set (AList.update k v d) \<subseteq> insert (k, v) (set d)"
  by (induction d) auto

lemma dict_delete_subset: "set (AList.delete k d) \<subseteq> set d"
  by (auto simp: AList.delete_eq)

lemma find_action_id_frame:
  assumes "find_action_id token s = Some (r, s')" "confirm_ok s"
  shows "cs_actions s' = cs_actions s" "confirm_ok s'" "store_ids s' \<subseteq> store_ids s"
    "\<And>i a. r = Some i \<Longrightarrow> map_of (cs_actions s) i = Some a \<Longrightarrow> cn_token a = token"
proof -
  have d: "dict_ok (cs_actions s)" using assms(2) by (simp add: confirm_ok_def)
  consider (same) "s' = s" "r = map_of (cs_token_map s) token"
    | (found) i a where "(i, a) \<in> set (cs_actions s)" "cn_token a = token" "r = Some i"
        "s' = s\<lparr>cs_token_map := AList.update token i (cs_token_map s)\<rparr>"
  proof (cases "map_of (cs_token_map s) token")
    case (Some i)
    then show thesis using assms(1) same by (simp add: find_action_id_def)
  next
    case None
    show thesis
    proof (cases "find (\<lambda>(i, a). cn_token a = token) (cs_actions s)")
      case None
      then show thesis using assms(1) same \<open>map_of (cs_token_map s) token = None\<close>
        by (simp add: find_action_id_def split: if_splits)
    next
      case (Some p)
      obtain i a where p: "p = (i, a)" by (cases p)
      have "(i, a) \<in> set (cs_actions s) \<and> cn_token a = token"
        using Some unfolding p by (auto simp: find_Some_iff in_set_conv_nth)
      then show thesis using assms(1) found Some \<open>map_of (cs_token_map s) token = None\<close>
        by (simp add: find_action_id_def p split: if_splits)
    qed
  qed
  then have "cs_actions s' = cs_actions s \<and> confirm_ok s' \<and> store_ids s' \<subseteq> store_ids s
      \<and> (\<forall>i a. r = Some i \<longrightarrow> map_of (cs_actions s) i = Some a \<longrightarrow> cn_token a = token)"
  proof cases
    case same
    then show ?thesis using assms(2) by (auto simp: confirm_ok_def)
  next
    case found
    then have "map_of (cs_actions s) i = Some a" using d by (simp add: dict_get_Some_iff)
    moreover have "store_ids s' \<subseteq> store_ids s"
      using found(1) dict_update_subset [of token i "cs_token_map s"] unfolding found(4) store_ids_def by force
    ultimately show ?thesis using found assms(2) by (auto simp: confirm_ok_def split: if_splits)
  qed
  then show "cs_actions s' = cs_actions s" "confirm_ok s'" "store_ids s' \<subseteq> store_ids s"
    "\<And>i a. r = Some i \<Longrightarrow> map_of (cs_actions s) i = Some a \<Longrightarrow> cn_token a = token" by auto
qed

lemma mark_consumed_frame:
  assumes "map_of (cs_actions s) i = Some a" "confirm_ok s"
  shows "confirm_ok (mark_consumed i a s)" "store_ids (mark_consumed i a s) \<subseteq> store_ids s"
    "awaiting (mark_consumed i a s) = awaiting s - {i}"
proof -
  show "confirm_ok (mark_consumed i a s)" using assms by (auto simp: confirm_ok_def mark_consumed_def)
  have "i \<in> fst ` set (cs_actions s)" using assms(1) by (force dest: map_of_SomeD)
  then show "store_ids (mark_consumed i a s) \<subseteq> store_ids s"
    using dict_update_subset [of i "a\<lparr>cn_consumed := True\<rparr>" "cs_actions s"] by (force simp: store_ids_def mark_consumed_def)
  show "awaiting (mark_consumed i a s) = awaiting s - {i}" by (auto simp: awaiting_def mark_consumed_def)
qed

lemma peek_action_frame:
  assumes "peek_action now token s = Some ((r, st), s')" "confirm_ok s"
  shows "cs_actions s' = cs_actions s" "confirm_ok s'" "store_ids s' \<subseteq> store_ids s"
    "\<And>a. r = Some a \<Longrightarrow> st = ConfirmOk \<and> cn_token a = token \<and> \<not> cn_consumed a \<and> \<not> action_stale now a
       \<and> map_of (cs_actions s) (cn_id a) = Some a"
proof -
  obtain i where f: "find_action_id token s = Some (i, s')"
    using assms(1) by (auto simp: peek_action_def split: option.splits)
  note fr = find_action_id_frame [OF f assms(2)]
  show "cs_actions s' = cs_actions s" "confirm_ok s'" "store_ids s' \<subseteq> store_ids s" by (rule fr)+
  fix a assume r: "r = Some a"
  then obtain k where k: "i = Some k" "map_of (cs_actions s) k = Some a" "st = ConfirmOk" "\<not> cn_consumed a" "\<not> action_stale now a"
    using assms(1) f fr(1) by (auto simp: peek_action_def peek_action_id_def split: option.splits if_splits)
  moreover have "cn_id a = k" using k(2) assms(2) by (auto simp: confirm_ok_def)
  ultimately show "st = ConfirmOk \<and> cn_token a = token \<and> \<not> cn_consumed a \<and> \<not> action_stale now a
       \<and> map_of (cs_actions s) (cn_id a) = Some a" using fr(4) by auto
qed

lemma confirm_action_cases:
  assumes "confirm_action now token s = Some ((r, st), s')" "confirm_ok s"
  obtains (refused) s1 where "r = None" "s' = s1" "cs_actions s1 = cs_actions s" "confirm_ok s1" "store_ids s1 \<subseteq> store_ids s"
    | (released) a s1 where "r = Some (a\<lparr>cn_consumed := True\<rparr>)" "st = ConfirmOk" "s' = mark_consumed (cn_id a) a s1"
      "cs_actions s1 = cs_actions s" "confirm_ok s1" "store_ids s1 \<subseteq> store_ids s" "cn_token a = token"
      "\<not> cn_consumed a" "\<not> action_stale now a" "map_of (cs_actions s) (cn_id a) = Some a"
proof -
  obtain r0 st0 s1 where p: "peek_action now token s = Some ((r0, st0), s1)"
    using assms(1) by (auto simp: confirm_action_def split: option.splits prod.splits)
  note fr = peek_action_frame [OF p assms(2)]
  show thesis
  proof (cases r0)
    case None
    then show thesis using assms(1) p fr refused by (auto simp: confirm_action_def)
  next
    case (Some a)
    then show thesis using assms(1) p fr(1-3) fr(4) [OF Some] released by (auto simp: confirm_action_def)
  qed
qed

lemma confirm_operation_cases:
  assumes "confirm_operation now token action_id owner scopes s = Some (r, s')" "confirm_ok s"
  obtains (refused) code s1 where "r = Inl code" "s' = s1" "cs_actions s1 = cs_actions s" "confirm_ok s1" "store_ids s1 \<subseteq> store_ids s"
    | (executed) a s1 where "r = Inr (a\<lparr>cn_consumed := True\<rparr>)" "s' = mark_consumed (cn_id a) a s1" "cs_actions s1 = cs_actions s"
      "confirm_ok s1" "store_ids s1 \<subseteq> store_ids s" "\<not> cn_consumed a" "\<not> action_stale now a" "map_of (cs_actions s) (cn_id a) = Some a"
      "action_id = None \<and> token = Some (cn_token a) \<or> action_id = Some (cn_id a)"
      "confirm_error (action_id \<noteq> None) owner scopes a = None"
proof (cases "is_given token \<longleftrightarrow> is_given action_id")
  case True
  then show thesis using assms refused [of "''INVALID_INPUT''" s] by (simp add: confirm_operation_def)
next
  case False
  let ?peek = "case action_id of Some i \<Rightarrow> Some (peek_action_id now i s, s)
               | None \<Rightarrow> peek_action now (case token of Some t \<Rightarrow> t | None \<Rightarrow> []) s"
  obtain p st s1 where p: "?peek = Some ((p, st), s1)"
    using assms(1) False by (auto simp: confirm_operation_def split: option.splits prod.splits)
  have s1: "cs_actions s1 = cs_actions s \<and> confirm_ok s1 \<and> store_ids s1 \<subseteq> store_ids s
      \<and> (\<forall>a. p = Some a \<longrightarrow> \<not> cn_consumed a \<and> \<not> action_stale now a \<and> map_of (cs_actions s) (cn_id a) = Some a
           \<and> (action_id = None \<and> token = Some (cn_token a) \<or> action_id = Some (cn_id a)))"
  proof (cases action_id)
    case None
    then obtain t where t: "token = Some t" using False by (cases token) (auto simp: is_given_def)
    then have "peek_action now t s = Some ((p, st), s1)" using p None by simp
    from peek_action_frame [OF this assms(2)] show ?thesis using None t by auto
  next
    case (Some i)
    then have "peek_action_id now i s = (p, st)" "s1 = s" using p by auto
    then show ?thesis using assms(2) Some by (auto simp: peek_action_id_def confirm_ok_def split: option.splits if_splits)
  qed
  show thesis
  proof (cases p)
    case None
    then have "r = Inl (peek_error (action_id \<noteq> None) st)" "s' = s1"
      using assms(1) False p by (auto simp: confirm_operation_def)
    then show thesis using s1 refused by blast
  next
    case (Some a)
    show thesis
    proof (cases "confirm_error (action_id \<noteq> None) owner scopes a")
      case None
      have "consume_action (cn_id a) s1 = (True, mark_consumed (cn_id a) a s1)" using s1 Some by (simp add: consume_action_def)
      then have "r = Inr (a\<lparr>cn_consumed := True\<rparr>)" "s' = mark_consumed (cn_id a) a s1"
        using assms(1) False p Some None by (auto simp: confirm_operation_def)
      then show thesis using s1 Some None executed by blast
    next
      case (Some code)
      then have "r = Inl code" "s' = s1" using assms(1) False p \<open>p = Some a\<close> by (auto simp: confirm_operation_def)
      then show thesis using s1 refused by blast
    qed
  qed
qed

lemma delete_absent: "map_of d k = None \<Longrightarrow> AList.delete k d = d"
  by (induction d) (auto split: if_splits)

lemma drop_action_actions [simp]: "cs_actions (drop_action i s) = AList.delete i (cs_actions s)"
  by (simp add: drop_action_def delete_absent split: option.split)

lemma drop_action_frame:
  assumes "confirm_ok s"
  shows "confirm_ok (drop_action i s)" "store_ids (drop_action i s) \<subseteq> store_ids s" "awaiting (drop_action i s) \<subseteq> awaiting s"
proof -
  show "confirm_ok (drop_action i s)"
    using assms by (auto simp: drop_action_def confirm_ok_def split: option.splits if_splits)
  have "set (cs_token_map (drop_action i s)) \<subseteq> set (cs_token_map s)"
    by (auto simp: drop_action_def split: option.split dest: subsetD [OF dict_delete_subset])
  moreover have "set (cs_actions (drop_action i s)) \<subseteq> set (cs_actions s)"
    using dict_delete_subset by force
  ultimately show "store_ids (drop_action i s) \<subseteq> store_ids s" unfolding store_ids_def by (intro Un_mono image_mono)
  show "awaiting (drop_action i s) \<subseteq> awaiting s" by (auto simp: awaiting_def split: if_splits)
qed

lemma drop_actions_frame:
  "confirm_ok s \<Longrightarrow> confirm_ok (fold drop_action ids s) \<and> store_ids (fold drop_action ids s) \<subseteq> store_ids s
     \<and> awaiting (fold drop_action ids s) \<subseteq> awaiting s \<and> cs_actions (fold drop_action ids s) = fold AList.delete ids (cs_actions s)"
proof (induction ids arbitrary: s)
  case (Cons i ids)
  note fr = drop_action_frame [OF Cons.prems, of i]
  from Cons.IH [OF fr(1)] fr(2,3) show ?case by auto
qed simp

lemma cleanup_actions:
  "confirm_ok s \<Longrightarrow> cs_actions (snd (cleanup_confirmations t s)) = filter (\<lambda>e. \<not> action_stale t (snd e)) (cs_actions s)"
  using delete_keys_filter [of "cs_actions s" "\<lambda>(i, a). action_stale t a"] drop_actions_frame [of s]
  by (simp add: cleanup_confirmations_def confirm_ok_def split_def)

interpretation pending: expiring_store confirm_ok cs_actions "\<lambda>t e. action_stale t (snd e)" "\<lambda>t s. snd (cleanup_confirmations t s)"
  proof unfold_locales
  fix s t assume "confirm_ok s"
  then show "confirm_ok (snd (cleanup_confirmations t s))" by (simp add: cleanup_confirmations_def Let_def drop_actions_frame)
qed (auto simp: cleanup_actions action_stale_def)

lemma confirm_op_contract:
  assumes "confirm_op s ids new s'" "confirm_ok s"
  shows "distinct ids" "set ids \<subseteq> awaiting s" "awaiting s' \<subseteq> (awaiting s - set ids) \<union> new"
    "store_ids s' \<subseteq> store_ids s \<union> new" "new \<inter> store_ids s = {} \<Longrightarrow> confirm_ok s'"
proof -
  from assms(1) have "distinct ids \<and> set ids \<subseteq> awaiting s \<and> awaiting s' \<subseteq> (awaiting s - set ids) \<union> new
    \<and> store_ids s' \<subseteq> store_ids s \<union> new \<and> (new \<inter> store_ids s = {} \<longrightarrow> confirm_ok s')"
  proof cases
    case (create now i token tool kwargs summary risk scope owner a)
    have "cs_actions s' = AList.update i a (cs_actions s)" "cs_token_map s' = AList.update token i (cs_token_map s)"
      "cn_id a = i" "cn_token a = token" "\<not> cn_consumed a"
      using create by (auto simp: create_action_def Let_def)
    note e = this
    have "store_ids s' \<subseteq> store_ids s \<union> {i}"
      unfolding store_ids_def e using dict_update_subset [of i a "cs_actions s"] dict_update_subset [of token i "cs_token_map s"] by force
    moreover have "confirm_ok s'" if "i \<notin> store_ids s"
    proof -
      have "k \<noteq> i" if "map_of (cs_token_map s) t = Some k" for t k
        using that \<open>i \<notin> store_ids s\<close> by (force simp: store_ids_def dest: map_of_SomeD)
      then show ?thesis using assms(2) e by (auto simp: confirm_ok_def)
    qed
    ultimately show ?thesis using create e by (auto simp: awaiting_def)
  next
    case (confirm now token r st)
    from confirm(3) assms(2) show ?thesis
    proof (cases rule: confirm_action_cases)
      case (refused s1)
      then show ?thesis using confirm by (auto simp: awaiting_def)
    next
      case (released a s1)
      have m: "map_of (cs_actions s1) (cn_id a) = Some a" using released by simp
      have "awaiting s1 = awaiting s" using released by (simp add: awaiting_def)
      moreover have "cn_id a \<in> awaiting s" using released by (auto simp: awaiting_def)
      ultimately show ?thesis
        using confirm released mark_consumed_frame [OF m released(5)] by auto
    qed
  next
    case (peek now token r)
    then show ?thesis using peek_action_frame [of now token s "fst r" "snd r" s'] assms(2) by (auto simp: awaiting_def)
  next
    case (consume i b)
    show ?thesis
    proof (cases "\<exists>a. map_of (cs_actions s) i = Some a \<and> \<not> cn_consumed a")
      case True
      then obtain a where a: "map_of (cs_actions s) i = Some a" "\<not> cn_consumed a" by blast
      then have "i \<in> awaiting s" by (auto simp: awaiting_def)
      then show ?thesis using consume a mark_consumed_frame [OF a(1) assms(2)] by (auto simp: consume_action_def)
    next
      case False
      then show ?thesis using consume assms(2) by (auto simp: consume_action_def split: option.splits)
    qed
  next
    case (cleanup now n)
    then show ?thesis using drop_actions_frame [OF assms(2)] by (auto simp: cleanup_confirmations_def Let_def)
  next
    case (bind i owner)
    have "store_ids (bind_owner i owner s) \<subseteq> store_ids s"
    proof (cases "map_of (cs_actions s) i")
      case (Some a)
      then have "i \<in> fst ` set (cs_actions s)" by (force dest: map_of_SomeD)
      then show ?thesis using Some by (auto simp: bind_owner_def store_ids_def AList.dom_update insert_absorb)
    qed (simp add: bind_owner_def)
    moreover have "awaiting (bind_owner i owner s) = awaiting s" "confirm_ok (bind_owner i owner s)"
      using assms(2) by (auto simp: bind_owner_def awaiting_def confirm_ok_def split: option.split)
    ultimately show ?thesis using bind by auto
  next
    case (operation now token action_id owner scopes r)
    from operation(3) assms(2) show ?thesis
    proof (cases rule: confirm_operation_cases)
      case (refused code s1)
      then show ?thesis using operation by (auto simp: awaiting_def)
    next
      case (executed a s1)
      have m: "map_of (cs_actions s1) (cn_id a) = Some a" using executed by simp
      have "awaiting s1 = awaiting s" using executed by (simp add: awaiting_def)
      moreover have "cn_id a \<in> awaiting s" using executed by (auto simp: awaiting_def)
      ultimately show ?thesis using operation executed mark_consumed_frame [OF m executed(4)] by auto
    qed
  qed
  then show "distinct ids" "set ids \<subseteq> awaiting s" "awaiting s' \<subseteq> (awaiting s - set ids) \<union> new"
    "store_ids s' \<subseteq> store_ids s \<union> new" "new \<inter> store_ids s = {} \<Longrightarrow> confirm_ok s'" by blast+
qed

interpretation actions: single_use awaiting "\<lambda>s ids new s'. confirm_ok s \<and> confirm_op s ids new s'"
  by unfold_locales (auto dest: confirm_op_contract)

lemma confirm_history_inv:
  "confirm_history s seen released \<Longrightarrow> confirm_ok s \<and> store_ids s \<subseteq> seen \<and> actions.ledger s seen released"
proof (induction rule: confirm_history.induct)
  case start
  have "awaiting new_confirm_store = {}" by (simp add: awaiting_def new_confirm_store_def)
  then have "actions.ledger new_confirm_store {} []" by (simp add: actions.ledger_init)
  then show ?case by (simp add: confirm_ok_def new_confirm_store_def store_ids_def)
next
  case (step s seen released ids new s')
  then have "actions.ledger s' (seen \<union> new) (ids @ released)" by (blast intro: actions.ledger_step)
  moreover have "new \<inter> store_ids s = {}" using step by blast
  ultimately show ?case using step confirm_op_contract(4,5) [OF step.hyps(2)] by blast
qed

text \<open>C20: Over all histories of the store each dangerous operation is executed at most once; one that is executed was
  asked for with its own secret token, or by its public identifier and then by the authenticated caller to whom it is
  bound, within its sixty seconds, with the scope it requires and a handler for its tool; a refusal uses no action up.\<close>

theorem confirmed_once:
  assumes "confirm_history s seen executed" "confirm_operation now token action_id owner scopes s = Some (r, s')"
  shows "distinct executed
    \<and> (case r of
        Inl code \<Rightarrow> cs_actions s' = cs_actions s
      | Inr a \<Rightarrow> cn_id a \<notin> set executed \<and> cn_id a \<notin> awaiting s' \<and> now - cn_created a \<le> CONFIRM_TTL_SECONDS
          \<and> (action_id = None \<and> token = Some (cn_token a) \<or> action_id = Some (cn_id a) \<and> owner \<noteq> None \<and> owner = cn_owner a)
          \<and> cn_tool a \<in> set CONFIRM_HANDLERS \<and> (cn_required_scope a = ''mcp:docker'' \<or> cn_required_scope a \<in> set scopes))"
proof -
  note inv = confirm_history_inv [OF assms(1)]
  from assms(2) conjunct1 [OF inv] show ?thesis
  proof (cases rule: confirm_operation_cases)
    case (refused code s1)
    then show ?thesis using inv actions.spent_once by auto
  next
    case (executed a s1)
    have "cn_id a \<in> awaiting s" using executed by (auto simp: awaiting_def)
    moreover have m: "map_of (cs_actions s1) (cn_id a) = Some a" using executed by simp
    moreover have "(action_id \<noteq> None \<longrightarrow> owner \<noteq> None \<and> owner = cn_owner a) \<and> cn_tool a \<in> set CONFIRM_HANDLERS
        \<and> (cn_required_scope a = ''mcp:docker'' \<or> cn_required_scope a \<in> set scopes)"
      using executed(10) by (auto simp: confirm_error_def split: if_splits)
    moreover have "distinct executed" "cn_id a \<notin> set executed"
      using inv actions.spent_once actions.spent_dead \<open>cn_id a \<in> awaiting s\<close> by blast+
    moreover have "cn_id a \<notin> awaiting s'" unfolding executed(2) mark_consumed_frame(3) [OF m executed(4)] by simp
    ultimately show ?thesis
      using executed(1,7,9) by (simp add: action_stale_def) blast
  qed
qed

definition demo_confirm :: confirm_store where
  "demo_confirm = snd (create_action 0 ''a1'' ''tok'' ''docker_rm'' JNull ''rm x'' ''high'' ''mcp:docker'' None new_confirm_store)"

text \<open>The action is confirmed by its token; a second time, or by another caller, it is refused.\<close>

lemma confirmed_once_witness:
  "\<exists>a s'. confirm_operation 59 (Some ''tok'') None None [] demo_confirm = Some (Inr a, s') \<and> cn_token a = ''tok'' \<and> cn_id a \<notin> awaiting s'
    \<and> map_option fst (confirm_operation 59 (Some ''tok'') None None [] s') = Some (Inl ''CONFIRM_TOKEN_CONSUMED'')
    \<and> map_option fst (confirm_operation 59 None (Some ''a1'') (Some ''other'') [] (bind_owner ''a1'' (Some ''me'') demo_confirm))
        = Some (Inl ''PERMISSION_DENIED'')"
proof -
  have "create_action 0 ''a1'' ''tok'' ''docker_rm'' JNull ''rm x'' ''high'' ''mcp:docker'' None new_confirm_store =
      (fst (create_action 0 ''a1'' ''tok'' ''docker_rm'' JNull ''rm x'' ''high'' ''mcp:docker'' None new_confirm_store), demo_confirm)"
    by (simp add: demo_confirm_def)
  from confirm_history.step [OF confirm_history.start confirm_op.create [OF this]]
  have h: "confirm_history demo_confirm ({} \<union> {''a1''}) ([] @ [])" by simp
  obtain a s' where c: "confirm_operation 59 (Some ''tok'') None None [] demo_confirm = Some (Inr a, s')"
      "map_option fst (confirm_operation 59 (Some ''tok'') None None [] s') = Some (Inl ''CONFIRM_TOKEN_CONSUMED'')"
  proof -
    have "(case confirm_operation 59 (Some ''tok'') None None [] demo_confirm of
        Some (Inr a, s') \<Rightarrow> map_option fst (confirm_operation 59 (Some ''tok'') None None [] s') = Some (Inl ''CONFIRM_TOKEN_CONSUMED'')
      | _ \<Rightarrow> False)" by code_simp
    then show thesis using that by (auto split: option.splits prod.splits sum.splits)
  qed
  moreover have "map_option fst (confirm_operation 59 None (Some ''a1'') (Some ''other'') [] (bind_owner ''a1'' (Some ''me'') demo_confirm))
      = Some (Inl ''PERMISSION_DENIED'')" by code_simp
  ultimately show ?thesis using confirmed_once [OF h c(1)] by auto
qed

end
