(* ===== verification/PyNet.thy ===== *)
theory PyNet
  imports Prelude
begin

text \<open>
  What the program uses of the Python library for addresses and URLs: \<open>ipaddress.ip_address\<close> with the
  membership test of networks, and \<open>urllib.parse\<close> up to the host name (CPython 3.12). An address
  is the natural number its class keeps; \<open>None\<close> stands for \<open>ValueError\<close>.
\<close>

unbundle bit_operations_syntax

datatype ip_addr =
    IPv4Address nat
  | IPv6Address nat "string option"

datatype ip_net =
    IPv4Network nat nat
  | IPv6Network nat nat

definition ipv4 :: "nat \<Rightarrow> nat \<Rightarrow> nat \<Rightarrow> nat \<Rightarrow> nat" where
  "ipv4 a b c d = ((a * 256 + b) * 256 + c) * 256 + d"

definition ip_netmask :: "nat \<Rightarrow> nat \<Rightarrow> nat" where
  "ip_netmask width prefix = push_bit (width - prefix) (mask prefix)"

text \<open>\<open>_BaseNetwork.__contains__\<close>: an address of another version is in no network.\<close>

fun in_network :: "ip_addr \<Rightarrow> ip_net \<Rightarrow> bool" where
  "in_network (IPv4Address a) (IPv4Network net p) \<longleftrightarrow> a AND ip_netmask 32 p = net"
| "in_network (IPv6Address a _) (IPv6Network net p) \<longleftrightarrow> a AND ip_netmask 128 p = net"
| "in_network _ _ \<longleftrightarrow> False"

definition dec_value :: "string \<Rightarrow> nat" where
  "dec_value s = foldl (\<lambda>n c. 10 * n + (of_char c - 48)) 0 s"

definition parse_octet :: "string \<Rightarrow> nat option" where
  "parse_octet s =
     (if s \<noteq> [] \<and> list_all is_ascii_digit s \<and> length s \<le> 3 \<and> (s = ''0'' \<or> hd s \<noteq> CHR ''0'') \<and> dec_value s \<le> 255
      then Some (dec_value s) else None)"

definition parse_ipv4 :: "string \<Rightarrow> nat option" where
  "parse_ipv4 s =
     (let octets = split_char CHR ''.'' s in
      if CHR ''/'' \<in> set s \<or> length octets \<noteq> 4 then None
      else map_option (foldl (\<lambda>n d. 256 * n + d) 0) (those (map parse_octet octets)))"

definition is_hex_digit :: "char \<Rightarrow> bool" where
  "is_hex_digit c \<longleftrightarrow> is_ascii_digit c \<or> c \<in> set ''abcdefABCDEF''"

definition hex_digit_value :: "char \<Rightarrow> nat" where
  "hex_digit_value c =
     (let n = of_char c :: nat in if n \<le> 57 then n - 48 else if n \<le> 70 then n - 55 else n - 87)"

definition parse_hextet :: "string \<Rightarrow> nat option" where
  "parse_hextet s =
     (if s \<noteq> [] \<and> list_all is_hex_digit s \<and> length s \<le> 4
      then Some (foldl (\<lambda>n c. 16 * n + hex_digit_value c) 0 s) else None)"

definition hextet_str :: "nat \<Rightarrow> string" where
  "hextet_str n = map (\<lambda>d. (''0123456789abcdef'') ! d) [n div 4096 mod 16, n div 256 mod 16, n div 16 mod 16, n mod 16]"

text \<open>A dotted quad at the end stands for two groups.\<close>

definition ipv6_groups :: "string \<Rightarrow> string list option" where
  "ipv6_groups s =
     (let groups = split_char CHR '':'' s in
      if length groups < 3 then None
      else if CHR ''.'' \<in> set (last groups) then
        map_option (\<lambda>v. butlast groups @ [hextet_str (v div 65536), hextet_str (v mod 65536)])
          (parse_ipv4 (last groups))
      else Some groups)"

text \<open>
  \<open>_ip_int_from_string\<close>: an empty group inside is the place of the left out zeros; an empty first or
  last group must stand next to it.
\<close>

definition ipv6_fill :: "string list \<Rightarrow> string list option" where
  "ipv6_fill groups =
     (if 9 < length groups then None
      else
        (case filter (\<lambda>i. groups ! i = []) [1..<length groups - 1] of
           [] \<Rightarrow> (if length groups = 8 \<and> hd groups \<noteq> [] \<and> last groups \<noteq> [] then Some groups else None)
         | [skip] \<Rightarrow>
             (let lo = length groups - skip - 1;
                  hi' = (if hd groups = [] then skip - 1 else skip);
                  lo' = (if last groups = [] then lo - 1 else lo) in
              if hd groups = [] \<and> hi' \<noteq> 0 \<or> last groups = [] \<and> lo' \<noteq> 0 \<or> 8 \<le> hi' + lo' then None
              else Some (take hi' groups @ replicate (8 - (hi' + lo')) ''0'' @ drop (length groups - lo') groups))
         | _ \<Rightarrow> None))"

definition parse_ipv6 :: "string \<Rightarrow> nat option" where
  "parse_ipv6 s =
     (case Option.bind (ipv6_groups s) ipv6_fill of
        None \<Rightarrow> None
      | Some groups \<Rightarrow> map_option (foldl (\<lambda>n d. 65536 * n + d) 0) (those (map parse_hextet groups)))"

definition parse_scoped_ipv6 :: "string \<Rightarrow> ip_addr option" where
  "parse_scoped_ipv6 s =
     (let addr = before_char CHR ''%'' s; scope = after_char CHR ''%'' s in
      if CHR ''/'' \<in> set s then None
      else if CHR ''%'' \<notin> set s then map_option (\<lambda>n. IPv6Address n None) (parse_ipv6 addr)
      else if scope = [] \<or> CHR ''%'' \<in> set scope then None
      else map_option (\<lambda>n. IPv6Address n (Some scope)) (parse_ipv6 addr))"

definition ip_address :: "string \<Rightarrow> ip_addr option" where
  "ip_address s =
     (case parse_ipv4 s of
        Some n \<Rightarrow> Some (IPv4Address n)
      | None \<Rightarrow> parse_scoped_ipv6 s)"

text \<open>
  \<open>ip_network(..., strict=False)\<close>: a prefix length, or for IPv4 a net mask or its complement; the host
  bits are cleared.
\<close>

definition prefix_length :: "nat \<Rightarrow> string \<Rightarrow> nat option" where
  "prefix_length width s =
     (if s \<noteq> [] \<and> list_all is_ascii_digit s \<and> dec_value s \<le> width then Some (dec_value s) else None)"

definition mask_length :: "string \<Rightarrow> nat option" where
  "mask_length s =
     (case parse_ipv4 s of
        None \<Rightarrow> None
      | Some n \<Rightarrow>
          (case find (\<lambda>p. ip_netmask 32 p = n) [0..<33] of
             Some p \<Rightarrow> Some p
           | None \<Rightarrow> find (\<lambda>p. ip_netmask 32 p = 2 ^ 32 - 1 - n) [0..<33]))"

definition ipv4_prefix :: "string option \<Rightarrow> nat option" where
  "ipv4_prefix s =
     (case s of
        None \<Rightarrow> Some 32
      | Some p \<Rightarrow> (case prefix_length 32 p of Some n \<Rightarrow> Some n | None \<Rightarrow> mask_length p))"

definition ipv6_prefix :: "string option \<Rightarrow> nat option" where
  "ipv6_prefix s = (case s of None \<Rightarrow> Some 128 | Some p \<Rightarrow> prefix_length 128 p)"

definition ip_network :: "string \<Rightarrow> ip_net option" where
  "ip_network s =
     (let parts = split_char CHR ''/'' s; mask_text = (if length parts = 2 then Some (parts ! 1) else None) in
      if 2 < length parts then None
      else
        (case (parse_ipv4 (hd parts), ipv4_prefix mask_text) of
           (Some n, Some p) \<Rightarrow> Some (IPv4Network (n AND ip_netmask 32 p) p)
         | _ \<Rightarrow>
             (case (parse_scoped_ipv6 (hd parts), ipv6_prefix mask_text) of
                (Some (IPv6Address n scope), Some p) \<Rightarrow> Some (IPv6Network (n AND ip_netmask 128 p) p)
              | _ \<Rightarrow> None)))"

subsection \<open>URLs\<close>

definition scheme_char :: "char \<Rightarrow> bool" where
  "scheme_char c \<longleftrightarrow> is_ascii_alnum c \<or> c \<in> set ''+-.''"

text \<open>\<open>urlsplit\<close> drops leading control characters and blanks, and tabs and line breaks anywhere.\<close>

definition url_clean :: "string \<Rightarrow> string" where
  "url_clean url =
     filter (\<lambda>c. c \<notin> {CHR 0x09, CHR 0x0A, CHR 0x0D}) (dropWhile (\<lambda>c. (of_char c :: nat) \<le> 32) url)"

definition url_scheme :: "string \<Rightarrow> string \<times> string" where
  "url_scheme url =
     (let s = before_char CHR '':'' url in
      if CHR '':'' \<in> set url \<and> s \<noteq> [] \<and> (is_ascii_lower (hd s) \<or> is_ascii_upper (hd s)) \<and> list_all scheme_char s
      then (lower s, after_char CHR '':'' url) else ([], url))"

definition url_netloc :: "string \<Rightarrow> string" where
  "url_netloc rest =
     (if startswith rest ''//'' then takeWhile (\<lambda>c. c \<notin> set ''/?#'') (drop 2 rest) else [])"

definition ip_future :: "string \<Rightarrow> bool" where
  "ip_future h \<longleftrightarrow>
     (let hex = takeWhile is_hex_digit (tl h); rest = dropWhile is_hex_digit (tl h) in
      hex \<noteq> [] \<and> startswith rest ''.'' \<and> 1 < length rest)"

definition bracketed_ok :: "string \<Rightarrow> bool" where
  "bracketed_ok h \<longleftrightarrow>
     (if startswith h ''v'' then ip_future h
      else (case ip_address h of Some (IPv6Address _ _) \<Rightarrow> True | _ \<Rightarrow> False))"

text \<open>\<open>nfkc_ok\<close> is the check of a host that is not ASCII against the Unicode tables.\<close>

definition url_split :: "(string \<Rightarrow> bool) \<Rightarrow> string \<Rightarrow> (string \<times> string) option" where
  "url_split nfkc_ok url =
     (let (scheme, rest) = url_scheme (url_clean url); netloc = url_netloc rest in
      if (CHR ''['' \<in> set netloc) \<noteq> (CHR '']'' \<in> set netloc) then None
      else if CHR ''['' \<in> set netloc \<and> \<not> bracketed_ok (before_char CHR '']'' (after_char CHR ''['' netloc)) then None
      else if \<not> list_all (\<lambda>c. (of_char c :: nat) < 128) netloc \<and> \<not> nfkc_ok netloc then None
      else Some (scheme, netloc))"

text \<open>\<open>SplitResult.hostname\<close>; the zone of a scoped address keeps its case.\<close>

definition url_hostname :: "string \<Rightarrow> string option" where
  "url_hostname netloc =
     (let hostinfo = (if CHR ''@'' \<in> set netloc then rev (before_char CHR ''@'' (rev netloc)) else netloc);
          h = (if CHR ''['' \<in> set hostinfo then before_char CHR '']'' (after_char CHR ''['' hostinfo)
               else before_char CHR '':'' hostinfo) in
      if h = [] then None else Some (lower (before_char CHR ''%'' h) @ drop (length (before_char CHR ''%'' h)) h))"

subsection \<open>Lemmas\<close>

text \<open>A network is a block of consecutive addresses.\<close>

lemma and_netmask:
  fixes a :: nat
  assumes "a < 2 ^ w" "p \<le> w"
  shows "a AND ip_netmask w p = a div 2 ^ (w - p) * 2 ^ (w - p)"
proof -
  have "a AND ip_netmask w p = push_bit (w - p) (drop_bit (w - p) a)"
  proof (rule bit_eqI)
    fix n
    have "n < w" if "bit a n"
      using that assms(1) by (metis bit_take_bit_iff take_bit_nat_eq_self)
    then show "bit (a AND ip_netmask w p) n = bit (push_bit (w - p) (drop_bit (w - p) a)) n"
      using assms(2)
      by (auto simp: ip_netmask_def bit_and_iff bit_push_bit_iff_nat bit_mask_iff bit_drop_bit_eq)
  qed
  then show ?thesis by (simp add: push_bit_nat_def drop_bit_nat_def)
qed

lemma netmask_block:
  fixes a :: nat
  assumes "a < 2 ^ w" "p \<le> w" "2 ^ (w - p) dvd net"
  shows "a AND ip_netmask w p = net \<longleftrightarrow> net \<le> a \<and> a < net + 2 ^ (w - p)"
proof -
  obtain q where q: "net = 2 ^ (w - p) * q" using assms(3) by blast
  have pos: "0 < (2::nat) ^ (w - p)" by simp
  have "a div 2 ^ (w - p) = q \<longleftrightarrow> net \<le> a \<and> a < net + 2 ^ (w - p)"
    using div_nat_eqI [of "2 ^ (w - p)" q a] q pos
    by (auto simp: algebra_simps dividend_less_times_div div_times_less_eq_dividend times_div_less_eq_dividend)
  then show ?thesis
    using q pos by (simp add: and_netmask [OF assms(1,2)] algebra_simps)
qed

lemma those_map_Some: "those (map f xs) = Some ys \<longleftrightarrow> list_all2 (\<lambda>x y. f x = Some y) xs ys"
  by (induction xs arbitrary: ys) (auto split: option.splits simp: list_all2_Cons1)

lemma foldl_digits_bound:
  fixes b :: nat
  assumes "list_all (\<lambda>d. d < b) ds"
  shows "foldl (\<lambda>n d. b * n + d) n ds < (n + 1) * b ^ length ds"
  using assms
proof (induction ds arbitrary: n)
  case (Cons d ds)
  then have "foldl (\<lambda>n d. b * n + d) n (d # ds) < (b * n + d + 1) * b ^ length ds" by simp
  also have "\<dots> \<le> (b * n + b) * b ^ length ds" using Cons.prems by (intro mult_right_mono) auto
  also have "\<dots> = (n + 1) * b ^ length (d # ds)" by (simp add: algebra_simps)
  finally show ?case .
qed simp

lemma parse_octet_bound: "parse_octet s = Some n \<Longrightarrow> n < 256"
  by (auto simp: parse_octet_def split: if_splits)

lemma parse_ipv4_bound:
  assumes "parse_ipv4 s = Some n"
  shows "n < 2 ^ 32"
proof -
  obtain ds where ds: "list_all2 (\<lambda>x y. parse_octet x = Some y) (split_char CHR ''.'' s) ds"
      "length (split_char CHR ''.'' s) = 4" "n = foldl (\<lambda>n d. 256 * n + d) 0 ds"
    using assms by (auto simp: parse_ipv4_def Let_def those_map_Some split: if_splits)
  then have "list_all (\<lambda>d. d < 256) ds" "length ds = 4"
    by (auto simp: list_all_length list_all2_conv_all_nth intro: parse_octet_bound)
  then show ?thesis using foldl_digits_bound [of 256 ds 0] ds(3) by simp
qed

lemma hex_digit_bound: "is_hex_digit c \<Longrightarrow> hex_digit_value c < 16"
  by (auto simp: is_hex_digit_def is_ascii_digit_def hex_digit_value_def Let_def)

lemma parse_hextet_bound:
  assumes "parse_hextet s = Some n"
  shows "n < 65536"
proof -
  have s: "list_all is_hex_digit s" "length s \<le> 4" "n = foldl (\<lambda>n d. 16 * n + d) 0 (map hex_digit_value s)"
    using assms by (auto simp: parse_hextet_def foldl_map split: if_splits)
  then have "n < 16 ^ length s"
    using foldl_digits_bound [of 16 "map hex_digit_value s" 0] by (auto simp: list_all_iff hex_digit_bound)
  also have "\<dots> \<le> 16 ^ 4" using s(2) by (intro power_increasing) auto
  finally show ?thesis by simp
qed

lemma ipv6_fill_length:
  assumes "ipv6_fill groups = Some gs"
  shows "length gs = 8"
proof -
  have "k < length groups - 1" if "filter (\<lambda>i. groups ! i = []) [1..<length groups - 1] = [k]" for k
    using arg_cong [OF that, of set] by auto
  then show ?thesis
    using assms by (auto simp: ipv6_fill_def Let_def split: if_splits list.splits)
qed

lemma parse_ipv6_bound:
  assumes "parse_ipv6 s = Some n"
  shows "n < 2 ^ 128"
proof -
  obtain gs ds where ds: "list_all2 (\<lambda>x y. parse_hextet x = Some y) gs ds" "length gs = 8"
      "n = foldl (\<lambda>n d. 65536 * n + d) 0 ds"
    using assms by (auto simp: parse_ipv6_def those_map_Some bind_eq_Some_conv ipv6_fill_length split: option.splits)
  then have "list_all (\<lambda>d. d < 65536) ds" "length ds = 8"
    by (auto simp: list_all_length list_all2_conv_all_nth intro: parse_hextet_bound)
  then show ?thesis using foldl_digits_bound [of 65536 ds 0] ds(3) by simp
qed

fun addr_value :: "ip_addr \<Rightarrow> nat" where
  "addr_value (IPv4Address n) = n"
| "addr_value (IPv6Address n _) = n"

lemma ip_address_bound:
  "ip_address s = Some (IPv4Address n) \<Longrightarrow> n < 2 ^ 32"
  "ip_address s = Some (IPv6Address n z) \<Longrightarrow> n < 2 ^ 128"
  by (auto simp: ip_address_def parse_scoped_ipv6_def Let_def dest: parse_ipv4_bound parse_ipv6_bound
      split: option.splits if_splits)

end
