(* ===== verification/HookSecurity.thy ===== *)
theory HookSecurity
  imports PyNet
begin

text \<open>
  \<open>app/event_hook_security.py\<close>: which webhook addresses are allowed, the signature of a payload and the
  masking of headers. The name resolution, the Unicode tables, the text of a parse error and the MAC
  are arguments.
\<close>

datatype getaddr = Infos "string list" | GaiError string | ResolveRaised string

record net_lib =
  nl_nfkc_ok :: "string \<Rightarrow> bool"
  nl_parse_error :: "string \<Rightarrow> string"
  nl_getaddrinfo :: "string \<Rightarrow> getaddr"

definition SENSITIVE_HEADERS :: "string list" where
  "SENSITIVE_HEADERS = [''authorization'', ''x-api-key'', ''cookie'', ''set-cookie'', ''x-webhook-signature'']"

text \<open>The networks with their text.\<close>

definition BLOCKED_NETWORKS :: "(string \<times> ip_net) list" where
  "BLOCKED_NETWORKS =
     [(''127.0.0.0/8'', IPv4Network (ipv4 127 0 0 0) 8),
      (''::1/128'', IPv6Network 1 128),
      (''10.0.0.0/8'', IPv4Network (ipv4 10 0 0 0) 8),
      (''172.16.0.0/12'', IPv4Network (ipv4 172 16 0 0) 12),
      (''192.168.0.0/16'', IPv4Network (ipv4 192 168 0 0) 16),
      (''169.254.0.0/16'', IPv4Network (ipv4 169 254 0 0) 16),
      (''fe80::/10'', IPv6Network (0xFE80 * 2 ^ 112) 10),
      (''224.0.0.0/4'', IPv4Network (ipv4 224 0 0 0) 4),
      (''ff00::/8'', IPv6Network (0xFF00 * 2 ^ 112) 8),
      (''169.254.169.254/32'', IPv4Network (ipv4 169 254 169 254) 32)]"

record url_validation =
  uv_valid :: bool
  uv_reason :: string

definition url_valid :: url_validation where
  "url_valid = \<lparr>uv_valid = True, uv_reason = []\<rparr>"

definition url_invalid :: "string \<Rightarrow> url_validation" where
  "url_invalid reason = \<lparr>uv_valid = False, uv_reason = reason\<rparr>"

definition blocking_network :: "ip_addr \<Rightarrow> (string \<times> ip_net) option" where
  "blocking_network a = find (\<lambda>(t, net). in_network a net) BLOCKED_NETWORKS"

fun check_addresses :: "ip_addr list \<Rightarrow> url_validation" where
  "check_addresses [] = url_valid"
| "check_addresses (a # as) =
     (case blocking_network a of
        Some (t, net) \<Rightarrow> url_invalid (''Blocked IP range: '' @ t)
      | None \<Rightarrow> check_addresses as)"

text \<open>The addresses of a host; \<open>ip_address\<close> raises on an answer it cannot read.\<close>

definition host_addresses :: "net_lib \<Rightarrow> string \<Rightarrow> string + (url_validation + ip_addr list)" where
  "host_addresses lib host =
     (case ip_address host of
        Some a \<Rightarrow> Inr (Inr [a])
      | None \<Rightarrow>
          (case nl_getaddrinfo lib host of
             GaiError exc \<Rightarrow> Inr (Inl (url_invalid (''Could not resolve hostname: '' @ exc)))
           | ResolveRaised exc \<Rightarrow> Inl exc
           | Infos infos \<Rightarrow>
               (case those (map ip_address (dedup_by id [] infos)) of
                  None \<Rightarrow> Inl ''ValueError''
                | Some [] \<Rightarrow> Inr (Inl (url_invalid (''Could not resolve hostname: '' @ host)))
                | Some as \<Rightarrow> Inr (Inr as))))"

definition validate_webhook_url :: "net_lib \<Rightarrow> string \<Rightarrow> bool \<Rightarrow> string + url_validation" where
  "validate_webhook_url lib url allow_http =
     (if url = [] then Inr (url_invalid ''URL is empty'')
      else
        (case url_split (nl_nfkc_ok lib) url of
           None \<Rightarrow> Inr (url_invalid (''URL parse error: '' @ nl_parse_error lib url))
         | Some (scheme, netloc) \<Rightarrow>
             if scheme = ''http'' \<and> \<not> allow_http then Inr (url_invalid ''HTTP not allowed, use HTTPS'')
             else if scheme \<notin> {''http'', ''https''} then Inr (url_invalid (''Scheme not allowed: '' @ scheme))
             else
               (case url_hostname netloc of
                  None \<Rightarrow> Inr (url_invalid ''No hostname in URL'')
                | Some host \<Rightarrow>
                    (case host_addresses lib host of
                       Inl exc \<Rightarrow> Inl exc
                     | Inr (Inl bad) \<Rightarrow> Inr bad
                     | Inr (Inr addrs) \<Rightarrow> Inr (check_addresses addrs)))))"

definition validate_destination_ip :: "string \<Rightarrow> url_validation" where
  "validate_destination_ip host =
     (case ip_address host of
        None \<Rightarrow> url_invalid (''Not a valid IP: '' @ host)
      | Some addr \<Rightarrow>
          (case blocking_network addr of
             Some (t, net) \<Rightarrow> url_invalid (''Blocked IP range: '' @ t)
           | None \<Rightarrow> url_valid))"

text \<open>The payload is ASCII (\<open>json.dumps\<close> escapes the rest), so decoding it changes nothing.\<close>

definition sign_payload :: "(string \<Rightarrow> string \<Rightarrow> string) \<Rightarrow> string option \<Rightarrow> string \<Rightarrow> string \<Rightarrow> string option" where
  "sign_payload hmac_sha256 secret payload timestamp =
     (case secret of
        None \<Rightarrow> None
      | Some key \<Rightarrow>
          if key = [] then None
          else Some (''sha256='' @ hmac_sha256 key (timestamp @ ''.'' @ payload)))"

definition mask_sensitive_headers :: "(string \<times> string) list option \<Rightarrow> (string \<times> string) list" where
  "mask_sensitive_headers headers =
     (case headers of
        None \<Rightarrow> []
      | Some hs \<Rightarrow> map (\<lambda>(k, v). (k, if lower k \<in> set SENSITIVE_HEADERS then ''****'' else v)) hs)"

subsection \<open>Lemmas\<close>

text \<open>The blocked addresses as ranges of numbers.\<close>

fun blocked_range :: "ip_addr \<Rightarrow> bool" where
  "blocked_range (IPv4Address n) \<longleftrightarrow>
     ipv4 127 0 0 0 \<le> n \<and> n \<le> ipv4 127 255 255 255
     \<or> ipv4 10 0 0 0 \<le> n \<and> n \<le> ipv4 10 255 255 255
     \<or> ipv4 172 16 0 0 \<le> n \<and> n \<le> ipv4 172 31 255 255
     \<or> ipv4 192 168 0 0 \<le> n \<and> n \<le> ipv4 192 168 255 255
     \<or> ipv4 169 254 0 0 \<le> n \<and> n \<le> ipv4 169 254 255 255
     \<or> ipv4 224 0 0 0 \<le> n \<and> n \<le> ipv4 239 255 255 255"
| "blocked_range (IPv6Address n z) \<longleftrightarrow>
     n = 1 \<or> 0xFE80 * 2 ^ 112 \<le> n \<and> n < 0xFEC0 * 2 ^ 112 \<or> 0xFF00 * 2 ^ 112 \<le> n"

fun addr_ok :: "ip_addr \<Rightarrow> bool" where
  "addr_ok (IPv4Address n) \<longleftrightarrow> n < 2 ^ 32"
| "addr_ok (IPv6Address n z) \<longleftrightarrow> n < 2 ^ 128"

lemma ip_address_ok: "ip_address s = Some a \<Longrightarrow> addr_ok a"
  by (cases a) (auto dest: ip_address_bound)

lemma blocking_network_None:
  "blocking_network a = None \<longleftrightarrow> (\<forall>(t, net) \<in> set BLOCKED_NETWORKS. \<not> in_network a net)"
  by (auto simp: blocking_network_def find_None_iff)

lemma blocking_network_range:
  assumes "addr_ok a"
  shows "blocking_network a = None \<longleftrightarrow> \<not> blocked_range a"
proof (cases a)
  case (IPv4Address n)
  then have n: "n < 2 ^ 32" using assms by simp
  note blk = netmask_block [OF n]
  show ?thesis
    using n by (simp add: blocking_network_None IPv4Address BLOCKED_NETWORKS_def ipv4_def blk) linarith
next
  case (IPv6Address n z)
  then have n: "n < 2 ^ 128" using assms by simp
  note blk = netmask_block [OF n]
  show ?thesis
    using n by (simp add: blocking_network_None IPv6Address BLOCKED_NETWORKS_def ipv4_def blk) linarith
qed

lemma check_addresses_valid:
  "uv_valid (check_addresses as) \<longleftrightarrow> (\<forall>a \<in> set as. blocking_network a = None)"
  by (induction as) (auto simp: url_valid_def url_invalid_def split: option.splits)

lemma destination_valid:
  "uv_valid (validate_destination_ip host) \<longleftrightarrow> (\<exists>a. ip_address host = Some a \<and> \<not> blocked_range a)"
  by (auto simp: validate_destination_ip_def url_valid_def url_invalid_def ip_address_ok
      blocking_network_range [symmetric] split: option.splits)

end
