(* ===== verification/HookDelivery.thy ===== *)
theory HookDelivery
  imports HookSecurity PyJson
begin

text \<open>
  \<open>app/event_hook_delivery.py\<close>: the outbox of webhook deliveries, its worker and the network checks before
  and while a payload is sent. The table is a dictionary by primary key. The clock, the jitter, the new
  identifiers, the rows a \<open>select\<close> without an order returns and the HTTP client are arguments.
\<close>

record delivery =
  dl_id :: string
  dl_event_id :: string
  dl_hook_id :: string
  dl_event_type :: string
  dl_url :: string
  dl_payload_json :: string
  dl_headers_json :: "string option"
  dl_status :: string
  dl_attempts :: "nat option"
  dl_next_retry_at :: "time option"
  dl_last_error :: "string option"
  dl_http_status :: "int option"
  dl_leased_by :: "string option"
  dl_leased_at :: "time option"
  dl_created_at :: "time option"
  dl_updated_at :: "time option"

type_synonym delivery_table = "(string \<times> delivery) list"

text \<open>The arguments of \<open>start\<close> that the worker uses, and the instance it runs in.\<close>

record delivery_config =
  dc_instance :: string
  dc_max_attempts :: nat
  dc_retry_base_sec :: rat
  dc_retry_max_sec :: rat
  dc_lease_ttl :: rat

definition compute_retry_at :: "time \<Rightarrow> rat \<Rightarrow> nat \<Rightarrow> rat \<Rightarrow> rat \<Rightarrow> time" where
  "compute_retry_at now uniform attempts base_sec max_sec =
     (let delay = min (base_sec * 2 ^ attempts) max_sec in now + delay * uniform)"

subsection \<open>The checks of a destination\<close>

text \<open>\<open>_ValidatedWebhookResolver.resolve\<close>: one blocked answer refuses them all.\<close>

fun resolve_validated :: "string list \<Rightarrow> string + string list" where
  "resolve_validated [] = Inr []"
| "resolve_validated (host # hosts) =
     (let validation = validate_destination_ip host in
      if \<not> uv_valid validation then Inl (''Blocked destination ('' @ uv_reason validation @ '')'')
      else map_sum id ((#) host) (resolve_validated hosts))"

text \<open>The outer \<open>None\<close>: \<open>urlparse\<close> raises.\<close>

definition blocked_literal_destination_reason :: "net_lib \<Rightarrow> string \<Rightarrow> string option option" where
  "blocked_literal_destination_reason lib url =
     (case url_split (nl_nfkc_ok lib) url of
        None \<Rightarrow> None
      | Some (scheme, netloc) \<Rightarrow>
          Some (case url_hostname netloc of
             None \<Rightarrow> Some ''no hostname''
           | Some host \<Rightarrow>
               if ip_address host = None then None
               else (let validation = validate_destination_ip host in
                     if uv_valid validation then None else Some (uv_reason validation))))"

subsection \<open>The outbox\<close>

definition enqueue ::
    "time \<Rightarrow> string \<Rightarrow> string \<Rightarrow> string \<Rightarrow> string \<Rightarrow> string \<Rightarrow> string \<Rightarrow> string option \<Rightarrow> delivery_table \<Rightarrow> delivery_table" where
  "enqueue now delivery_id event_id hook_id event_type url payload_json headers_json tbl =
     AList.update delivery_id
       \<lparr>dl_id = delivery_id, dl_event_id = event_id, dl_hook_id = hook_id, dl_event_type = event_type, dl_url = url,
        dl_payload_json = payload_json, dl_headers_json = headers_json, dl_status = ''pending'', dl_attempts = Some 0,
        dl_next_retry_at = None, dl_last_error = None, dl_http_status = None, dl_leased_by = None, dl_leased_at = None,
        dl_created_at = Some now, dl_updated_at = Some now\<rparr> tbl"

text \<open>\<open>select ... where status in (...) limit n\<close>: any \<open>n\<close> of the rows, all of them when there are fewer.\<close>

definition undelivered :: "delivery \<Rightarrow> bool" where
  "undelivered d \<longleftrightarrow> dl_status d \<in> {''pending'', ''failed''}"

definition selected :: "nat \<Rightarrow> delivery_table \<Rightarrow> string list \<Rightarrow> bool" where
  "selected limit tbl picked \<longleftrightarrow>
     distinct picked \<and> (\<forall>i \<in> set picked. \<exists>d. map_of tbl i = Some d \<and> undelivered d)
     \<and> length picked = min limit (length (filter (undelivered \<circ> snd) tbl))"

definition foreign_lease :: "delivery_config \<Rightarrow> time \<Rightarrow> delivery \<Rightarrow> bool" where
  "foreign_lease c now d \<longleftrightarrow>
     (case dl_leased_by d of
        None \<Rightarrow> False
      | Some owner \<Rightarrow>
          owner \<noteq> [] \<and> owner \<noteq> dc_instance c
          \<and> (case dl_leased_at d of None \<Rightarrow> False | Some t \<Rightarrow> now - dc_lease_ttl c < t))"

text \<open>Whether the worker takes a row; \<open>None\<close>: the assertion on \<open>created_at\<close> fails.\<close>

definition claim_decision :: "delivery_config \<Rightarrow> time \<Rightarrow> delivery \<Rightarrow> bool option" where
  "claim_decision c now d =
     (if foreign_lease c now d then Some False
      else if dl_status d = ''pending'' then
        (case dl_created_at d of
           None \<Rightarrow> None
         | Some created \<Rightarrow> Some (2 \<le> now - created))
      else if dl_status d = ''failed'' then
        Some (case dl_next_retry_at d of None \<Rightarrow> True | Some t \<Rightarrow> t \<le> now)
      else Some True)"

definition leased :: "delivery_config \<Rightarrow> time \<Rightarrow> delivery \<Rightarrow> delivery" where
  "leased c now d = d\<lparr>dl_leased_by := Some (dc_instance c), dl_leased_at := Some now\<rparr>"

text \<open>A failed assertion ends the claim before the commit: \<open>None\<close>.\<close>

fun claim_rows :: "delivery_config \<Rightarrow> time \<Rightarrow> string list \<Rightarrow> delivery_table \<Rightarrow> (string list \<times> delivery_table) option" where
  "claim_rows c now [] tbl = Some ([], tbl)"
| "claim_rows c now (i # is) tbl =
     (case map_of tbl i of
        None \<Rightarrow> claim_rows c now is tbl
      | Some d \<Rightarrow>
          (case claim_decision c now d of
             None \<Rightarrow> None
           | Some False \<Rightarrow> claim_rows c now is tbl
           | Some True \<Rightarrow>
               map_option (map_prod ((#) i) id) (claim_rows c now is (AList.update i (leased c now d) tbl))))"

definition claim_deliveries ::
    "delivery_config \<Rightarrow> time \<Rightarrow> string list \<Rightarrow> delivery_table \<Rightarrow> (delivery list \<times> delivery_table) option" where
  "claim_deliveries c now picked tbl =
     map_option (\<lambda>(ids, tbl'). (map (the \<circ> map_of tbl') ids, tbl')) (claim_rows c now picked tbl)"

definition complete_delivery :: "time \<Rightarrow> string \<Rightarrow> int \<Rightarrow> delivery_table \<Rightarrow> bool \<times> delivery_table" where
  "complete_delivery now delivery_id http_status tbl =
     (case map_of tbl delivery_id of
        None \<Rightarrow> (False, tbl)
      | Some d \<Rightarrow>
          (True, AList.update delivery_id
             (d\<lparr>dl_status := ''sent'', dl_http_status := Some http_status, dl_leased_by := None, dl_leased_at := None,
               dl_updated_at := Some now\<rparr>) tbl))"

text \<open>One failure of a row; the retry time is computed after the attempt is counted.\<close>

definition failed_row :: "delivery_config \<Rightarrow> time \<Rightarrow> rat \<Rightarrow> string \<Rightarrow> delivery \<Rightarrow> delivery" where
  "failed_row c now uniform last_error d =
     (let n = (case dl_attempts d of Some a \<Rightarrow> a | None \<Rightarrow> 0) + 1;
          d' = d\<lparr>dl_attempts := Some n, dl_last_error := Some (take 1024 last_error), dl_leased_by := None,
                 dl_leased_at := None, dl_updated_at := Some now\<rparr> in
      if dc_max_attempts c \<le> n then d'\<lparr>dl_status := ''dead'', dl_next_retry_at := None\<rparr>
      else d'\<lparr>dl_status := ''failed'',
              dl_next_retry_at := Some (compute_retry_at now uniform n (dc_retry_base_sec c) (dc_retry_max_sec c))\<rparr>)"

text \<open>The result carries the dead letters that the gauge is set to, when it is set.\<close>

definition fail_delivery ::
    "delivery_config \<Rightarrow> time \<Rightarrow> rat \<Rightarrow> string \<Rightarrow> string \<Rightarrow> delivery_table \<Rightarrow> bool \<times> nat option \<times> delivery_table" where
  "fail_delivery c now uniform delivery_id last_error tbl =
     (case map_of tbl delivery_id of
        None \<Rightarrow> (False, None, tbl)
      | Some d \<Rightarrow>
          (let d' = failed_row c now uniform last_error d; tbl' = AList.update delivery_id d' tbl in
           (True,
            (if dl_status d' = ''dead'' then Some (length (filter (\<lambda>(i, e). dl_status e = ''dead'') tbl')) else None),
            tbl')))"

definition cleanup_old :: "time \<Rightarrow> nat \<Rightarrow> nat \<Rightarrow> delivery_table \<Rightarrow> nat \<times> delivery_table" where
  "cleanup_old now sent_days dead_days tbl =
     (let old = (\<lambda>status days (i, d). dl_status d = status
             \<and> (case dl_updated_at d of None \<Rightarrow> False | Some t \<Rightarrow> t < now - 86400 * of_nat days));
          gone = (\<lambda>e. old ''sent'' sent_days e \<or> old ''dead'' dead_days e) in
      (length (filter gone tbl), filter (\<lambda>e. \<not> gone e) tbl))"

definition get_record :: "string \<Rightarrow> delivery_table \<Rightarrow> delivery option" where
  "get_record delivery_id tbl = map_of tbl delivery_id"

subsection \<open>Sending\<close>

text \<open>
  What the HTTP client answers: a status, or an exception with its text. The request is the one call of
  \<open>_http_session.post\<close>: its URL, body and headers, the resolver the session was built with, redirects off.
\<close>

datatype post_result = HttpStatus int | PostRaised string

record post_request =
  pq_url :: string
  pq_data :: string
  pq_headers :: json
  pq_allow_redirects :: bool

definition delivery_headers :: "(string \<Rightarrow> json option) \<Rightarrow> delivery \<Rightarrow> json" where
  "delivery_headers json_loads d =
     (let default = JObj [(''Content-Type'', JStr ''application/json'')] in
      case dl_headers_json d of
        None \<Rightarrow> default
      | Some h \<Rightarrow> if h = [] then default else (case json_loads h of None \<Rightarrow> default | Some hs \<Rightarrow> hs))"

definition post_request_of :: "(string \<Rightarrow> json option) \<Rightarrow> delivery \<Rightarrow> post_request" where
  "post_request_of json_loads d =
     \<lparr>pq_url = dl_url d, pq_data = dl_payload_json d, pq_headers = delivery_headers json_loads d,
      pq_allow_redirects = False\<rparr>"

text \<open>What is done after an answer: the row is completed, or has failed with this text.\<close>

datatype send_result = SendOk int | SendFailed string | SendCrashed

definition answer_result :: "(int \<Rightarrow> string) \<Rightarrow> post_result \<Rightarrow> send_result" where
  "answer_result str_int r =
     (case r of
        HttpStatus status \<Rightarrow>
          if 200 \<le> status \<and> status < 300 then SendOk status
          else if status = 429 \<or> 500 \<le> status then SendFailed (''HTTP '' @ str_int status)
          else SendFailed (''HTTP '' @ str_int status @ '' (non-retryable)'')
      | PostRaised exc \<Rightarrow> SendFailed (take 1024 exc))"

text \<open>
  The first half of \<open>_send_delivery\<close>: the request, if one is made, and the result. A URL that does not
  parse raises before the \<open>try\<close>, so the row is neither completed nor failed.
\<close>

definition send_request ::
    "net_lib \<Rightarrow> (string \<Rightarrow> json option) \<Rightarrow> (int \<Rightarrow> string) \<Rightarrow> (post_request \<Rightarrow> post_result) \<Rightarrow> delivery
      \<Rightarrow> post_request option \<times> send_result" where
  "send_request lib json_loads str_int http_post d =
     (case blocked_literal_destination_reason lib (dl_url d) of
        None \<Rightarrow> (None, SendCrashed)
      | Some (Some reason) \<Rightarrow> (None, SendFailed (''Blocked destination ('' @ reason @ '')''))
      | Some None \<Rightarrow>
          (let rq = post_request_of json_loads d in (Some rq, answer_result str_int (http_post rq))))"

text \<open>The second half: the row is written.\<close>

definition settle_delivery ::
    "delivery_config \<Rightarrow> time \<Rightarrow> rat \<Rightarrow> string \<Rightarrow> send_result \<Rightarrow> delivery_table \<Rightarrow> delivery_table" where
  "settle_delivery c now uniform delivery_id r tbl =
     (case r of
        SendOk status \<Rightarrow> snd (complete_delivery now delivery_id status tbl)
      | SendFailed err \<Rightarrow> snd (snd (fail_delivery c now uniform delivery_id err tbl))
      | SendCrashed \<Rightarrow> tbl)"

text \<open>
  One turn of \<open>_worker_loop\<close> whose sends end before the next one: when it starts, the rows the database
  returns, and for each delivery the jitter, the time its answer is written and the answer. An exception of
  the claim is logged.
\<close>

record worker_turn =
  wt_now :: time
  wt_picked :: "string list"
  wt_uniform :: "string \<Rightarrow> rat"
  wt_done :: "string \<Rightarrow> time"
  wt_post :: "post_request \<Rightarrow> post_result"

definition worker_send ::
    "net_lib \<Rightarrow> (string \<Rightarrow> json option) \<Rightarrow> (int \<Rightarrow> string) \<Rightarrow> delivery_config \<Rightarrow> worker_turn \<Rightarrow> delivery
      \<Rightarrow> delivery_table \<Rightarrow> delivery_table" where
  "worker_send lib json_loads str_int c t d tbl =
     settle_delivery c (wt_done t (dl_id d)) (wt_uniform t (dl_id d)) (dl_id d)
       (snd (send_request lib json_loads str_int (wt_post t) d)) tbl"

definition worker_turn_step ::
    "net_lib \<Rightarrow> (string \<Rightarrow> json option) \<Rightarrow> (int \<Rightarrow> string) \<Rightarrow> delivery_config \<Rightarrow> worker_turn \<Rightarrow> delivery_table
      \<Rightarrow> delivery_table" where
  "worker_turn_step lib json_loads str_int c t tbl =
     (case claim_deliveries c (wt_now t) (wt_picked t) tbl of
        None \<Rightarrow> tbl
      | Some (ds, tbl') \<Rightarrow> fold (worker_send lib json_loads str_int c t) ds tbl')"

subsection \<open>Destinations\<close>

lemma resolve_validated_public:
  "resolve_validated hosts = Inr hs \<Longrightarrow> hs = hosts \<and> (\<forall>h \<in> set hs. uv_valid (validate_destination_ip h))"
proof (induction hosts arbitrary: hs)
  case (Cons h hosts)
  then show ?case by (cases "resolve_validated hosts") (auto simp: Let_def split: if_splits)
qed simp

lemma literal_destination_public:
  assumes "blocked_literal_destination_reason lib url = Some None"
    "url_split (nl_nfkc_ok lib) url = Some (scheme, netloc)" "url_hostname netloc = Some host" "ip_address host \<noteq> None"
  shows "uv_valid (validate_destination_ip host)"
  using assms by (auto simp: blocked_literal_destination_reason_def Let_def split: if_splits)

text \<open>
  What the code relies on in aiohttp: a request that follows no redirects connects to the host of its URL
  when that is a literal address, and otherwise only to addresses its resolver returned.
\<close>

definition aiohttp_connects ::
    "net_lib \<Rightarrow> ((string \<Rightarrow> string + string list) \<Rightarrow> post_request \<Rightarrow> post_result \<times> string list) \<Rightarrow> bool" where
  "aiohttp_connects lib aio \<longleftrightarrow>
     (\<forall>resolver rq. \<forall>a \<in> set (snd (aio resolver rq)). \<not> pq_allow_redirects rq \<longrightarrow>
        (\<exists>scheme netloc host. url_split (nl_nfkc_ok lib) (pq_url rq) = Some (scheme, netloc)
           \<and> url_hostname netloc = Some host
           \<and> (a = host \<and> ip_address host \<noteq> None \<or> (\<exists>as. resolver host = Inr as \<and> a \<in> set as))))"

text \<open>For a client that connects only to a host written as an address literal or to what its resolver
  returned, a delivery connects to no address in the blocked ranges (loopback, RFC 1918, link-local, multicast).
  The premise is not part of the documentation of aiohttp: a client that takes a numeric host such as
  \<open>127.1\<close> itself, past the resolver, is outside it. An IPv4-mapped IPv6 literal of a blocked address is
  in none of the ranges, which are compared by version, and passes (\<open>mapped_loopback_passes\<close>).\<close>

theorem deliveries_avoid_blocked_networks:
  assumes "aiohttp_connects lib aio"
    and "send_request lib json_loads str_int (\<lambda>rq. fst (aio (resolve_validated \<circ> dns) rq)) d = (Some rq, r)"
    and "a \<in> set (snd (aio (resolve_validated \<circ> dns) rq))"
  shows "\<exists>x. ip_address a = Some x \<and> \<not> blocked_range x"
proof -
  have rq: "rq = post_request_of json_loads d" and lit: "blocked_literal_destination_reason lib (dl_url d) = Some None"
    using assms(2) by (auto simp: send_request_def Let_def split: option.splits)
  then have "\<not> pq_allow_redirects rq" "pq_url rq = dl_url d" by (simp_all add: post_request_of_def)
  then obtain scheme netloc host where url: "url_split (nl_nfkc_ok lib) (dl_url d) = Some (scheme, netloc)"
      "url_hostname netloc = Some host"
      "a = host \<and> ip_address host \<noteq> None \<or> (\<exists>as. (resolve_validated \<circ> dns) host = Inr as \<and> a \<in> set as)"
    using assms(1,3) unfolding aiohttp_connects_def by metis
  then have "uv_valid (validate_destination_ip a)"
    using literal_destination_public [OF lit url(1,2)] resolve_validated_public by fastforce
  then show ?thesis by (simp add: destination_valid)
qed

subsection \<open>The worker\<close>

lemma settle_row_keys [simp]: "map_of tbl i \<noteq> None \<Longrightarrow> map fst (AList.update i d tbl) = map fst tbl"
  by (auto simp: AList.update_keys map_of_eq_None_iff)

lemma claim_rows_all:
  assumes "distinct is" "\<forall>i \<in> set is. \<exists>d. map_of tbl i = Some d \<and> claim_decision c now d = Some True"
  shows "\<exists>tbl'. claim_rows c now is tbl = Some (is, tbl') \<and> map fst tbl' = map fst tbl
    \<and> (\<forall>k. map_of tbl' k = (if k \<in> set is then map_option (leased c now) (map_of tbl k) else map_of tbl k))"
  using assms
proof (induction "is" arbitrary: tbl)
  case (Cons i "is")
  then obtain d where d: "map_of tbl i = Some d" "claim_decision c now d = Some True" by auto
  let ?tbl = "AList.update i (leased c now d) tbl"
  have "\<forall>j \<in> set is. \<exists>d. map_of ?tbl j = Some d \<and> claim_decision c now d = Some True"
    using Cons.prems by (auto simp: update_Some_unfold)
  then obtain tbl' where "claim_rows c now is ?tbl = Some (is, tbl')" "map fst tbl' = map fst ?tbl"
      "\<forall>k. map_of tbl' k = (if k \<in> set is then map_option (leased c now) (map_of ?tbl k) else map_of ?tbl k)"
    using Cons.IH [of ?tbl] Cons.prems(1) by auto
  then show ?case using Cons.prems(1) d by (auto simp: update_conv')
qed simp

text \<open>What a settled row looks like.\<close>

definition settled_row :: "delivery_config \<Rightarrow> time \<Rightarrow> rat \<Rightarrow> send_result \<Rightarrow> delivery \<Rightarrow> delivery" where
  "settled_row c now uniform r d =
     (case r of
        SendOk status \<Rightarrow>
          d\<lparr>dl_status := ''sent'', dl_http_status := Some status, dl_leased_by := None, dl_leased_at := None,
            dl_updated_at := Some now\<rparr>
      | SendFailed err \<Rightarrow> failed_row c now uniform err d
      | SendCrashed \<Rightarrow> d)"

lemma settle_delivery_rows:
  "map_of (settle_delivery c now u i r tbl) = (map_of tbl)(i := map_option (settled_row c now u r) (map_of tbl i))"
  "map_of tbl i \<noteq> None \<Longrightarrow> map fst (settle_delivery c now u i r tbl) = map fst tbl"
  by (cases r; cases "map_of tbl i";
      auto simp: settle_delivery_def settled_row_def complete_delivery_def fail_delivery_def Let_def update_conv')+

definition turn_row ::
    "net_lib \<Rightarrow> (string \<Rightarrow> json option) \<Rightarrow> (int \<Rightarrow> string) \<Rightarrow> delivery_config \<Rightarrow> worker_turn \<Rightarrow> delivery \<Rightarrow> delivery" where
  "turn_row lib json_loads str_int c t d =
     settled_row c (wt_done t (dl_id d)) (wt_uniform t (dl_id d)) (snd (send_request lib json_loads str_int (wt_post t) d)) d"

lemma worker_send_rows:
  assumes "map_of tbl (dl_id d) = Some d"
  shows "map_of (worker_send lib js si c t d tbl) = (map_of tbl)(dl_id d := Some (turn_row lib js si c t d))"
    "map fst (worker_send lib js si c t d tbl) = map fst tbl"
  using assms by (simp_all add: worker_send_def turn_row_def settle_delivery_rows)

lemma worker_sends_rows:
  assumes "distinct (map dl_id ds)" "\<forall>d \<in> set ds. map_of tbl (dl_id d) = Some d"
  shows "map fst (fold (worker_send lib js si c t) ds tbl) = map fst tbl
    \<and> (\<forall>k. map_of (fold (worker_send lib js si c t) ds tbl) k =
         (if k \<in> dl_id ` set ds then map_option (turn_row lib js si c t) (map_of tbl k) else map_of tbl k))"
  using assms
proof (induction ds arbitrary: tbl)
  case (Cons d ds)
  let ?tbl = "worker_send lib js si c t d tbl"
  have d: "map_of tbl (dl_id d) = Some d" "dl_id d \<notin> dl_id ` set ds" using Cons.prems by simp_all
  note step = worker_send_rows [OF d(1)]
  have ds: "\<forall>e \<in> set ds. map_of ?tbl (dl_id e) = Some e"
    using Cons.prems(2) d(2) unfolding step(1) by (metis fun_upd_other image_eqI list.set_intros(2))
  have IH: "map fst (fold (worker_send lib js si c t) ds ?tbl) = map fst ?tbl"
    "map_of (fold (worker_send lib js si c t) ds ?tbl) k =
       (if k \<in> dl_id ` set ds then map_option (turn_row lib js si c t) (map_of ?tbl k) else map_of ?tbl k)" for k
    using Cons.IH [OF _ ds] Cons.prems(1) by auto
  have "map_of (fold (worker_send lib js si c t) ds ?tbl) k =
      (if k \<in> dl_id ` set (d # ds) then map_option (turn_row lib js si c t) (map_of tbl k) else map_of tbl k)" for k
    unfolding IH(2) using d by (auto simp: step(1))
  then show ?case using IH(1) step(2) [of lib js si c t] by simp
qed simp

text \<open>A table whose unfinished rows can all be taken.\<close>

definition outbox_ready :: "net_lib \<Rightarrow> delivery_config \<Rightarrow> time \<Rightarrow> delivery_table \<Rightarrow> bool" where
  "outbox_ready lib c now tbl \<longleftrightarrow>
     dict_ok tbl \<and> length (filter (undelivered \<circ> snd) tbl) \<le> 20
     \<and> (\<forall>i d. map_of tbl i = Some d \<longrightarrow> dl_id d = i \<and>
          (undelivered d \<longrightarrow> claim_decision c now d = Some True \<and> blocked_literal_destination_reason lib (dl_url d) \<noteq> None))"

lemma selected_all:
  assumes "dict_ok tbl" "selected limit tbl picked" "length (filter (undelivered \<circ> snd) tbl) \<le> limit"
  shows "set picked = {i. \<exists>d. map_of tbl i = Some d \<and> undelivered d}"
proof -
  let ?ids = "map fst (filter (undelivered \<circ> snd) tbl)"
  have ids: "set ?ids = {i. \<exists>d. map_of tbl i = Some d \<and> undelivered d}"
    using assms(1) by (force simp: dict_ok_def)
  have dis: "distinct ?ids" using assms(1) by (simp add: dict_ok_def distinct_map_filter)
  have sub: "set picked \<subseteq> set ?ids" using assms(2) unfolding ids by (auto simp: selected_def)
  have "card (set picked) = card (set ?ids)"
    using assms(2,3) distinct_card [OF dis] by (simp add: selected_def distinct_card)
  then show ?thesis using card_subset_eq [OF _ sub] ids by simp
qed

lemma leased_send: "send_request lib js si post (leased c now d) = send_request lib js si post d"
  by (simp add: send_request_def leased_def post_request_of_def delivery_headers_def cong: option.case_cong)

lemma worker_turn_rows:
  assumes "outbox_ready lib c (wt_now t) tbl" "selected 20 tbl (wt_picked t)"
  shows "map fst (worker_turn_step lib js si c t tbl) = map fst tbl"
    "map_of (worker_turn_step lib js si c t tbl) k =
       map_option (\<lambda>d. if undelivered d then turn_row lib js si c t (leased c (wt_now t) d) else d) (map_of tbl k)"
proof -
  have ready: "dict_ok tbl" "length (filter (undelivered \<circ> snd) tbl) \<le> 20"
    and rows: "\<And>i d. map_of tbl i = Some d \<Longrightarrow> dl_id d = i"
      "\<And>i d. map_of tbl i = Some d \<Longrightarrow> undelivered d \<Longrightarrow> claim_decision c (wt_now t) d = Some True"
    using assms(1) unfolding outbox_ready_def by blast+
  note picked = selected_all [OF ready(1) assms(2) ready(2)]
  have dist: "distinct (wt_picked t)" using assms(2) by (simp add: selected_def)
  have "\<forall>i \<in> set (wt_picked t). \<exists>d. map_of tbl i = Some d \<and> claim_decision c (wt_now t) d = Some True"
    using rows(2) picked by blast
  from claim_rows_all [OF dist this] obtain tbl' where claimed:
      "claim_rows c (wt_now t) (wt_picked t) tbl = Some (wt_picked t, tbl')" "map fst tbl' = map fst tbl"
      "\<And>k. map_of tbl' k = (if k \<in> set (wt_picked t) then map_option (leased c (wt_now t)) (map_of tbl k) else map_of tbl k)"
    by blast
  let ?ds = "map (the \<circ> map_of tbl') (wt_picked t)"
  have row: "dl_id (the (map_of tbl' i)) = i \<and> map_of tbl' i = Some (the (map_of tbl' i))" if "i \<in> set (wt_picked t)" for i
    using that picked rows(1) by (auto simp: claimed(3) leased_def)
  then have ids: "map dl_id ?ds = wt_picked t" by (simp add: map_idI)
  have "\<forall>d \<in> set ?ds. map_of tbl' (dl_id d) = Some d" using row by auto
  from worker_sends_rows [OF _ this, of lib js si c t] dist ids
  have sent: "map fst (fold (worker_send lib js si c t) ?ds tbl') = map fst tbl'"
      "map_of (fold (worker_send lib js si c t) ?ds tbl') k =
       (if k \<in> dl_id ` set ?ds then map_option (turn_row lib js si c t) (map_of tbl' k) else map_of tbl' k)"
    by auto
  have step: "worker_turn_step lib js si c t tbl = fold (worker_send lib js si c t) ?ds tbl'"
    by (simp add: worker_turn_step_def claim_deliveries_def claimed(1))
  show "map fst (worker_turn_step lib js si c t tbl) = map fst tbl"
    using sent(1) claimed(2) step by simp
  have "dl_id ` set ?ds = set (wt_picked t)" using arg_cong [OF ids, of set] by (simp only: set_map)
  then show "map_of (worker_turn_step lib js si c t tbl) k =
       map_option (\<lambda>d. if undelivered d then turn_row lib js si c t (leased c (wt_now t) d) else d) (map_of tbl k)"
    unfolding step sent(2) using picked by (cases "map_of tbl k") (auto simp: claimed(3))
qed

definition attempts_of :: "delivery \<Rightarrow> nat" where
  "attempts_of d = (case dl_attempts d of Some a \<Rightarrow> a | None \<Rightarrow> 0)"

definition delivery_settled :: "delivery_config \<Rightarrow> delivery \<Rightarrow> bool" where
  "delivery_settled c d \<longleftrightarrow>
     dl_status d = ''sent'' \<and> (\<exists>status. dl_http_status d = Some status \<and> 200 \<le> status \<and> status < 300)
     \<or> dl_status d = ''dead'' \<and> dc_max_attempts c \<le> attempts_of d"

lemma settled_not_undelivered: "delivery_settled c d \<Longrightarrow> \<not> undelivered d"
  by (auto simp: delivery_settled_def undelivered_def)

lemma send_request_result:
  assumes "blocked_literal_destination_reason lib (dl_url d) \<noteq> None"
  shows "(\<exists>status. snd (send_request lib js si post d) = SendOk status \<and> 200 \<le> status \<and> status < 300)
    \<or> (\<exists>err. snd (send_request lib js si post d) = SendFailed err)"
  using assms
  by (auto simp: send_request_def answer_result_def Let_def split: option.splits post_result.splits)

text \<open>After a turn a row is settled, or has failed once more and waits for at most three halves of the cap.\<close>

lemma turn_row_cases:
  assumes "blocked_literal_destination_reason lib (dl_url d) \<noteq> None" "dl_id d = i"
    "0 \<le> wt_uniform t i" "wt_uniform t i \<le> 3 / 2" "0 \<le> dc_retry_max_sec c"
    "e = turn_row lib js si c t (leased c now d)"
  shows "dl_id e = i \<and> dl_url e = dl_url d
    \<and> (delivery_settled c e
       \<or> dl_status e = ''failed'' \<and> attempts_of e = attempts_of d + 1 \<and> attempts_of e < dc_max_attempts c
         \<and> dl_leased_by e = None \<and> (\<exists>r. dl_next_retry_at e = Some r \<and> r \<le> wt_done t i + 3 / 2 * dc_retry_max_sec c))"
proof -
  have delay: "min x (dc_retry_max_sec c) * wt_uniform t i \<le> 3 / 2 * dc_retry_max_sec c" for x
  proof -
    have "min x (dc_retry_max_sec c) * wt_uniform t i \<le> dc_retry_max_sec c * wt_uniform t i"
      using assms(3) by (intro mult_right_mono) auto
    also have "\<dots> \<le> dc_retry_max_sec c * (3 / 2)" using assms(4,5) by (intro mult_left_mono) auto
    finally show ?thesis by simp
  qed
  have e: "e = settled_row c (wt_done t i) (wt_uniform t i) (snd (send_request lib js si (wt_post t) d)) (leased c now d)"
    using assms(2,6) unfolding turn_row_def leased_send by (simp add: leased_def)
  from send_request_result [OF assms(1), of js si "wt_post t"] show ?thesis
  proof (elim disjE exE conjE)
    fix status assume "snd (send_request lib js si (wt_post t) d) = SendOk status" "200 \<le> status" "status < 300"
    then show ?thesis using assms(2) e by (simp add: settled_row_def leased_def delivery_settled_def)
  next
    fix err assume r: "snd (send_request lib js si (wt_post t) d) = SendFailed err"
    show ?thesis
      using assms(2) delay [of "dc_retry_base_sec c * 2 ^ attempts_of e"] e unfolding r
      by (auto simp: settled_row_def leased_def failed_row_def Let_def delivery_settled_def attempts_of_def
          compute_retry_at_def split: if_splits)
  qed
qed

definition turn_bounds :: "worker_turn \<Rightarrow> bool" where
  "turn_bounds t \<longleftrightarrow> (\<forall>i. 0 \<le> wt_uniform t i \<and> wt_uniform t i \<le> 3 / 2)"

text \<open>
  A run of the worker: the database returns up to 20 rows, a turn starts when the retry times set in the
  turn before are over, and the jitter is the one of \<open>random.uniform(0.5, 1.5)\<close>.
\<close>

fun turns_ok ::
    "net_lib \<Rightarrow> (string \<Rightarrow> json option) \<Rightarrow> (int \<Rightarrow> string) \<Rightarrow> delivery_config \<Rightarrow> worker_turn list \<Rightarrow> delivery_table \<Rightarrow> bool" where
  "turns_ok lib js si c [] tbl \<longleftrightarrow> True"
| "turns_ok lib js si c (t # ts) tbl \<longleftrightarrow>
     selected 20 tbl (wt_picked t) \<and> turn_bounds t
     \<and> (ts = [] \<or> (\<forall>i. wt_done t i + 3 / 2 * dc_retry_max_sec c \<le> wt_now (hd ts)))
     \<and> turns_ok lib js si c ts (worker_turn_step lib js si c t tbl)"

lemma filter_snd_map_of:
  assumes "map fst a = map fst b" "distinct (map fst a)"
    "\<And>k x. map_of a k = Some x \<Longrightarrow> P x \<Longrightarrow> \<exists>y. map_of b k = Some y \<and> P y"
  shows "length (filter (P \<circ> snd) a) \<le> length (filter (P \<circ> snd) b)"
proof -
  let ?ids = "\<lambda>l. map fst (filter (P \<circ> snd) l)"
  have "set (?ids a) \<subseteq> set (?ids b)"
  proof
    fix k assume "k \<in> set (?ids a)"
    then obtain x where "(k, x) \<in> set a" "P x" by auto
    then obtain y where "map_of b k = Some y" "P y" using assms(2,3) by force
    then show "k \<in> set (?ids b)" by (force dest: map_of_SomeD)
  qed
  moreover have "distinct (?ids a)" "distinct (?ids b)" using assms(1,2) by (simp_all add: distinct_map_filter)
  ultimately show ?thesis using card_mono [of "set (?ids b)" "set (?ids a)"]
    by (metis List.finite_set distinct_card length_map)
qed

lemma turn_ready:
  assumes "outbox_ready lib c (wt_now t) tbl" "selected 20 tbl (wt_picked t)" "turn_bounds t" "0 \<le> dc_retry_max_sec c"
    "\<forall>i. wt_done t i + 3 / 2 * dc_retry_max_sec c \<le> now"
  shows "outbox_ready lib c now (worker_turn_step lib js si c t tbl)"
proof -
  let ?tbl = "worker_turn_step lib js si c t tbl"
  note rows = worker_turn_rows [OF assms(1,2), of js si]
  have ok: "dict_ok tbl" "length (filter (undelivered \<circ> snd) tbl) \<le> 20"
    and old: "\<And>i d. map_of tbl i = Some d \<Longrightarrow> dl_id d = i"
      "\<And>i d. map_of tbl i = Some d \<Longrightarrow> undelivered d \<Longrightarrow> blocked_literal_destination_reason lib (dl_url d) \<noteq> None"
    using assms(1) unfolding outbox_ready_def by blast+
  have row: "dl_id e = i \<and> (undelivered e \<longrightarrow> claim_decision c now e = Some True
      \<and> blocked_literal_destination_reason lib (dl_url e) \<noteq> None \<and> (\<exists>d. map_of tbl i = Some d \<and> undelivered d))"
    if e0: "map_of ?tbl i = Some e" for i e
  proof -
    obtain d where d: "map_of tbl i = Some d"
        "e = (if undelivered d then turn_row lib js si c t (leased c (wt_now t) d) else d)"
      using e0 unfolding rows(2) map_option_eq_Some by blast
    show ?thesis
    proof (cases "undelivered d")
      case True
      have "0 \<le> wt_uniform t i" "wt_uniform t i \<le> 3 / 2" using assms(3) by (auto simp: turn_bounds_def)
      note e = turn_row_cases [OF old(2) [OF d(1) True] old(1) [OF d(1)] this assms(4), of e js si "wt_now t"]
      have le: "wt_done t i + 3 / 2 * dc_retry_max_sec c \<le> now" using assms(5) by blast
      show ?thesis
        using e True d old(2) [OF d(1) True] le settled_not_undelivered [of c e]
        by (auto simp: claim_decision_def foreign_lease_def)
    next
      case False
      then show ?thesis using d old(1) by auto
    qed
  qed
  have "length (filter (undelivered \<circ> snd) ?tbl) \<le> length (filter (undelivered \<circ> snd) tbl)"
    using ok(1) row by (intro filter_snd_map_of) (auto simp: rows(1) dict_ok_def)
  then show ?thesis
    using ok row unfolding outbox_ready_def by (auto simp: dict_ok_def rows(1))
qed

abbreviation run_turns ::
    "net_lib \<Rightarrow> (string \<Rightarrow> json option) \<Rightarrow> (int \<Rightarrow> string) \<Rightarrow> delivery_config \<Rightarrow> worker_turn list \<Rightarrow> delivery_table \<Rightarrow> delivery_table" where
  "run_turns lib js si c \<equiv> fold (worker_turn_step lib js si c)"

lemma settled_row_stays:
  assumes "outbox_ready lib c (wt_now (hd ts)) tbl" "turns_ok lib js si c ts tbl" "0 \<le> dc_retry_max_sec c"
    "map_of tbl i = Some d" "\<not> undelivered d"
  shows "map_of (run_turns lib js si c ts tbl) i = Some d"
  using assms
proof (induction ts arbitrary: tbl)
  case (Cons t ts)
  have step: "map_of (worker_turn_step lib js si c t tbl) i = Some d"
    using worker_turn_rows(2) [of lib c t tbl js si i] Cons.prems by auto
  show ?case
  proof (cases ts)
    case (Cons t' ts')
    then have "outbox_ready lib c (wt_now (hd ts)) (worker_turn_step lib js si c t tbl)"
      using Cons.prems(1-3) by (intro turn_ready) auto
    then show ?thesis using Cons.IH [OF _ _ Cons.prems(3) step Cons.prems(5)] Cons.prems(2) by simp
  qed (simp add: step)
qed simp

lemma delivery_settles:
  assumes "outbox_ready lib c (wt_now (hd ts)) tbl" "turns_ok lib js si c ts tbl" "0 \<le> dc_retry_max_sec c" "ts \<noteq> []"
    "map_of tbl i = Some d" "undelivered d" "dc_max_attempts c \<le> attempts_of d + length ts"
  shows "\<exists>e. map_of (run_turns lib js si c ts tbl) i = Some e \<and> delivery_settled c e"
  using assms
proof (induction ts arbitrary: tbl d)
  case (Cons t ts)
  let ?tbl = "worker_turn_step lib js si c t tbl" and ?e = "turn_row lib js si c t (leased c (wt_now t) d)"
  have step: "map_of ?tbl i = Some ?e"
    using worker_turn_rows(2) [of lib c t tbl js si i] Cons.prems by auto
  have "blocked_literal_destination_reason lib (dl_url d) \<noteq> None" "dl_id d = i" "0 \<le> wt_uniform t i" "wt_uniform t i \<le> 3 / 2"
    using Cons.prems(1,2,5,6) by (auto simp: outbox_ready_def turn_bounds_def)
  note e = turn_row_cases [OF this Cons.prems(3) refl, of js si "wt_now t"]
  have ready: "outbox_ready lib c (wt_now (hd ts)) ?tbl" if "ts \<noteq> []"
    using that Cons.prems(1-3) by (intro turn_ready) auto
  have ok: "turns_ok lib js si c ts ?tbl" using Cons.prems(2) by simp
  show ?case
  proof (cases "delivery_settled c ?e")
    case True
    then show ?thesis
      using settled_row_stays [OF ready ok Cons.prems(3) step] settled_not_undelivered [OF True] step
      by (cases ts) auto
  next
    case False
    then have f: "undelivered ?e" "attempts_of ?e = attempts_of d + 1" "attempts_of ?e < dc_max_attempts c"
      using e by (auto simp: undelivered_def)
    then have "ts \<noteq> []" using Cons.prems(7) by auto
    then show ?thesis using Cons.IH [OF ready ok Cons.prems(3) _ step f(1)] f(2) Cons.prems(7) by simp
  qed
qed simp

text \<open>C25: Every delivery of the outbox is decided: whatever the receivers answer, after \<open>max_attempts\<close> turns of the
  worker (and after one when that is 0) each row that was pending or had failed is \<open>sent\<close>, with the 2xx status
  of the answer, or \<open>dead\<close> with all attempts used, and a row that was decided before is not touched. The turns
  start when the retry times of the one before are over; at most 20 rows are open.\<close>

theorem deliveries_settle:
  assumes "outbox_ready lib c (wt_now (hd ts)) tbl" "turns_ok lib json_loads str_int c ts tbl" "0 \<le> dc_retry_max_sec c"
    and "length ts = max 1 (dc_max_attempts c)" "map_of tbl i = Some d"
  shows "\<exists>e. map_of (fold (worker_turn_step lib json_loads str_int c) ts tbl) i = Some e
    \<and> (if undelivered d then delivery_settled c e else e = d)"
proof (cases "undelivered d")
  case True
  have "ts \<noteq> []" "dc_max_attempts c \<le> attempts_of d + length ts" using assms(4) by auto
  from delivery_settles [OF assms(1-3) this(1) assms(5) True this(2)] show ?thesis using True by simp
next
  case False
  from settled_row_stays [OF assms(1-3,5) this] show ?thesis using False by simp
qed

text \<open>
  A lease of the instance's own is no obstacle: a delivery whose answer is still awaited is taken again by the
  next turn, and a failure of the second request after the success of the first reopens the row.
\<close>

lemma own_lease_reclaimed:
  assumes "dl_status d = ''pending''" "dl_created_at d = Some created" "2 \<le> now - created"
  shows "claim_decision c now (leased c t0 d) = Some True"
  using assms by (simp add: claim_decision_def foreign_lease_def leased_def)

lemma late_failure_reopens:
  assumes "attempts_of d + 1 < dc_max_attempts c"
  shows "undelivered (settled_row c t2 u (SendFailed err) (settled_row c t1 u (SendOk status) d))"
  using assms by (simp add: settled_row_def failed_row_def Let_def undelivered_def attempts_of_def)

text \<open>An answer called non-retryable is retried like any other.\<close>

lemma non_retryable_is_retried:
  assumes "attempts_of d + 1 < dc_max_attempts c" "answer_result str_int (HttpStatus 404) = SendFailed err"
  shows "dl_status (failed_row c now u err d) = ''failed''" "err = ''HTTP '' @ str_int 404 @ '' (non-retryable)''"
  using assms by (auto simp: failed_row_def Let_def attempts_of_def answer_result_def)

subsection \<open>Concrete instances\<close>

definition demo_net :: net_lib where
  "demo_net = \<lparr>nl_nfkc_ok = \<lambda>_. True, nl_parse_error = \<lambda>_. [], nl_getaddrinfo = \<lambda>_. Infos []\<rparr>"

definition demo_delivery :: delivery where
  "demo_delivery =
     \<lparr>dl_id = ''d1'', dl_event_id = ''e1'', dl_hook_id = ''h1'', dl_event_type = ''command.completed'',
      dl_url = ''https://8.8.8.8/hook'', dl_payload_json = ''{}'', dl_headers_json = None, dl_status = ''pending'',
      dl_attempts = Some 0, dl_next_retry_at = None, dl_last_error = None, dl_http_status = None, dl_leased_by = None,
      dl_leased_at = None, dl_created_at = Some 0, dl_updated_at = Some 0\<rparr>"

definition demo_delivery_config :: delivery_config where
  "demo_delivery_config =
     \<lparr>dc_instance = ''i1'', dc_max_attempts = 2, dc_retry_base_sec = 2, dc_retry_max_sec = 300, dc_lease_ttl = 30\<rparr>"

definition demo_turn :: "time \<Rightarrow> int \<Rightarrow> worker_turn" where
  "demo_turn now status =
     \<lparr>wt_now = now, wt_picked = [''d1''], wt_uniform = \<lambda>_. 1, wt_done = \<lambda>_. now + 1, wt_post = \<lambda>_. HttpStatus status\<rparr>"

lemma demo_ip: "ip_address ''8.8.8.8'' = Some (IPv4Address 134744072)"
  by (simp add: ip_address_def parse_ipv4_def parse_octet_def dec_value_def is_ascii_digit_def)

lemma demo_destination: "uv_valid (validate_destination_ip ''8.8.8.8'')"
  by (simp add: destination_valid demo_ip ipv4_def)

lemma demo_url:
  "url_split nfkc ''https://8.8.8.8/hook'' = Some (''https'', ''8.8.8.8'')"
  "url_hostname ''8.8.8.8'' = Some ''8.8.8.8''"
  by (simp_all add: url_split_def url_clean_def url_scheme_def url_netloc_def url_hostname_def Let_def before_char_def
      after_char_def scheme_char_def is_ascii_alnum_def is_ascii_lower_def is_ascii_upper_def is_ascii_digit_def lower_def
      char_lower_def startswith_def)

lemma demo_reason: "blocked_literal_destination_reason demo_net ''https://8.8.8.8/hook'' = Some None"
  by (simp add: blocked_literal_destination_reason_def demo_url demo_ip demo_destination)

lemma demo_outbox_ready: "outbox_ready demo_net demo_delivery_config 10 [(''d1'', demo_delivery)]"
  by (simp add: outbox_ready_def dict_ok_def demo_delivery_def demo_reason claim_decision_def foreign_lease_def undelivered_def)

lemma demo_first_turn:
  "worker_turn_step demo_net json_loads str_int demo_delivery_config (demo_turn 10 503) [(''d1'', demo_delivery)] =
     [(''d1'', demo_delivery\<lparr>dl_attempts := Some 1, dl_last_error := Some (take 1024 (''HTTP '' @ str_int 503)),
        dl_updated_at := Some 11, dl_status := ''failed'', dl_next_retry_at := Some 15\<rparr>)]"
  by (simp add: worker_turn_step_def claim_deliveries_def demo_turn_def demo_delivery_def claim_decision_def foreign_lease_def
      demo_delivery_config_def leased_def worker_send_def settle_delivery_def send_request_def demo_reason answer_result_def
      fail_delivery_def failed_row_def compute_retry_at_def)

lemma demo_turns_ok:
  "turns_ok demo_net json_loads str_int demo_delivery_config [demo_turn 10 503, demo_turn 1000 200] [(''d1'', demo_delivery)]"
  by (simp add: demo_first_turn selected_def undelivered_def turn_bounds_def, 
      simp add: demo_turn_def demo_delivery_def demo_delivery_config_def)

lemma deliveries_settle_witness:
  "\<exists>e. map_of (fold (worker_turn_step demo_net (\<lambda>_. None) (\<lambda>_. []) demo_delivery_config)
       [demo_turn 10 503, demo_turn 1000 200] [(''d1'', demo_delivery)]) ''d1'' = Some e
     \<and> (if undelivered demo_delivery then delivery_settled demo_delivery_config e else e = demo_delivery)"
  by (rule deliveries_settle [OF _ demo_turns_ok])
    (simp_all add: demo_outbox_ready demo_turn_def demo_delivery_config_def [THEN arg_cong [of _ _ dc_max_attempts]]
      demo_delivery_config_def [THEN arg_cong [of _ _ dc_retry_max_sec]])

text \<open>A client that connects to the literal host of the one URL it knows.\<close>

definition demo_aio :: "(string \<Rightarrow> string + string list) \<Rightarrow> post_request \<Rightarrow> post_result \<times> string list" where
  "demo_aio resolver rq =
     (if pq_url rq = ''https://8.8.8.8/hook'' then (HttpStatus 200, [''8.8.8.8'']) else (PostRaised ''refused'', []))"

lemma demo_aio_connects: "aiohttp_connects demo_net demo_aio"
  by (auto simp: aiohttp_connects_def demo_aio_def demo_url demo_ip)

lemma deliveries_avoid_blocked_networks_witness:
  "\<exists>x. ip_address ''8.8.8.8'' = Some x \<and> \<not> blocked_range x"
proof -
  let ?rq = "post_request_of (\<lambda>_. None) demo_delivery"
  have "send_request demo_net (\<lambda>_. None) (\<lambda>_. []) (\<lambda>rq. fst (demo_aio (resolve_validated \<circ> (\<lambda>_. [])) rq)) demo_delivery =
      (Some ?rq, SendOk 200)"
    by (simp add: send_request_def demo_delivery_def demo_reason post_request_of_def demo_aio_def answer_result_def)
  from deliveries_avoid_blocked_networks [OF demo_aio_connects this] show ?thesis
    by (simp add: demo_aio_def post_request_of_def demo_delivery_def)
qed

text \<open>
  An IPv4 address written as an IPv6 address, the unspecified address and the unique local addresses are
  in none of the networks.
\<close>

lemma mapped_groups:
  "ipv6_groups ''::ffff:127.0.0.1'' = Some [[], [], ''ffff'', ''7f00'', ''0001'']"
  "ipv6_fill [[], [], ''ffff'', ''7f00'', ''0001''] =
     Some [''0'', ''0'', ''0'', ''0'', ''0'', ''ffff'', ''7f00'', ''0001'']"
  by (simp add: ipv6_groups_def parse_ipv4_def parse_octet_def dec_value_def is_ascii_digit_def hextet_str_def,
      simp add: ipv6_fill_def upt_conv_Cons Let_def numeral_eq_Suc)

lemma mapped_parsed: "parse_ipv6 ''::ffff:127.0.0.1'' = Some 281472812449793"
  by (simp add: parse_ipv6_def mapped_groups parse_hextet_def is_hex_digit_def hex_digit_value_def is_ascii_digit_def)

lemma mapped_loopback_passes: "uv_valid (validate_destination_ip ''::ffff:127.0.0.1'')"
  by (simp add: destination_valid ip_address_def parse_ipv4_def parse_octet_def is_ascii_digit_def parse_scoped_ipv6_def
      before_char_def mapped_parsed)

end
