(* ===== verification/SecurityUtils.thy ===== *)
theory SecurityUtils
  imports PyNet PyJson PyRegex PyShlex
begin

text \<open>
  \<open>app/security.py\<close>: the blocklist of commands, the check of remote paths, the redaction of secrets, the
  filter of addresses and the validation of a target host. The loop over a Python \<open>set\<close> has no order, so
  an error names all entries that match instead of the first one met.
\<close>

subsection \<open>Commands\<close>

definition DANGEROUS_COMMANDS :: "string list" where
  "DANGEROUS_COMMANDS =
     [''rm -rf /'', ''rm -rf /*'', ''rm -rf ~'', ''rm -rf /root'', '':(){ :|:& };:'', ''fork bomb'',
      ''dd if=/dev/zero of=/dev/sda'', ''mkfs.ext4 /dev/sda'', ''mkfs.ext3 /dev/sda'', ''mkfs /dev/sda'',
      ''> /dev/sda'', ''mv / /dev/null'', ''wget http'', ''curl http'', ''nc -e'', ''bash -i'',
      ''python -c '' @ [dquote] @ ''import socket'', ''python3 -c '' @ [dquote] @ ''import socket'',
      ''perl -e '' @ [dquote] @ ''use Socket'', ''chmod -R 777 /'', ''chmod 777 /'']"

abbreviation rspaces :: rx where
  "rspaces \<equiv> rstar rspace"

abbreviation ranys :: rx where
  "ranys \<equiv> rstar RDot"

definition DANGEROUS_PATTERNS :: "rx list" where
  "DANGEROUS_PATTERNS =
     [rcats [RLit '';'', rspaces, RLit ''rm'', rplus rspace, RLit ''-rf''],
      rcats [RLit ''&&'', rspaces, RLit ''rm'', rplus rspace, RLit ''-rf''],
      rcats [RLit ''|'', rspaces, RLit ''bash''],
      rcats [RLit ''|'', rspaces, RLit ''sh'', rplus rspace, RLit ''-c''],
      rcats [RLit ''curl'', rplus rspace, ranys, RLit ''|'', rspaces, RLit ''bash''],
      rcats [RLit ''wget'', rplus rspace, ranys, RLit ''|'', rspaces, RLit ''bash''],
      rcats [RLit ''nc'', rplus rspace, RLit ''-'', RSet False (chars ''lpe'')],
      rcats [RLit ''mkfifo'', rplus rspace, ranys, RLit ''|'', rspaces, RLit ''bash''],
      RLit ''/dev/tcp/'',
      RLit ''/dev/udp/'']"

datatype command_error = DangerousText "string list" | DangerousPattern

definition sanitize_command :: "string \<Rightarrow> command_error + string" where
  "sanitize_command command =
     (let command_lower = strip (lower command);
          found = filter (\<lambda>d. str_in (lower d) command_lower) DANGEROUS_COMMANDS in
      if found \<noteq> [] then Inl (DangerousText found)
      else if \<exists>r \<in> set DANGEROUS_PATTERNS. rx_search no_flags r command_lower \<noteq> None then Inl DangerousPattern
      else Inr command)"

subsection \<open>Paths\<close>

definition FORBIDDEN_PATHS :: "string list" where
  "FORBIDDEN_PATHS =
     [''/etc/passwd'', ''/etc/shadow'', ''/etc/hosts'', ''/etc/crontab'', ''/var/spool/cron'', ''/root/.ssh'',
      ''/root/.bash_history'', ''/var/log/auth.log'', ''/var/log/secure'', ''/usr/bin'', ''/proc'', ''/sys'', ''/dev'',
      ''/boot'']"

datatype path_error = PathTraversal | PathForbidden "string list" | PathOutsideBase

text \<open>\<open>resolve\<close> gives the parts of a resolved path of the gateway's own file system.\<close>

definition validate_path :: "(string \<Rightarrow> string list) \<Rightarrow> string \<Rightarrow> string option \<Rightarrow> path_error + string" where
  "validate_path resolve path0 base_path =
     (let path = strip path0; found = filter (\<lambda>f. str_in f path) FORBIDDEN_PATHS in
      if CHR ''~'' \<in> set path \<or> ''..'' \<in> set (split_char CHR ''/'' path) then Inl PathTraversal
      else if found \<noteq> [] then Inl (PathForbidden found)
      else
        (case base_path of
           None \<Rightarrow> Inr path
         | Some b \<Rightarrow>
             if b \<noteq> [] \<and> take (length (resolve b)) (resolve path) \<noteq> resolve b then Inl PathOutsideBase
             else Inr path))"

subsection \<open>Secrets\<close>

definition REDACTED :: string where
  "REDACTED = ''[REDACTED]''"

abbreviation rdigit :: citem where
  "rdigit \<equiv> CR CHR ''0'' CHR ''9''"

definition rsep :: rx where
  "rsep = ropt (RSet False (chars ''_-''))"

definition rkey :: "string \<Rightarrow> string \<Rightarrow> rx" where
  "rkey a b = rcats [RLit a, rsep, RLit b]"

definition bearer_token :: rx where
  "bearer_token = RSet False (alphas @ [rdigit] @ chars ''._~+/=-'')"

definition id_chars :: "citem list" where
  "id_chars = alphas @ [rdigit] @ chars ''_-''"

definition secret_words :: rx where
  "secret_words = ralts
     [rkey ''api'' ''key'', RLit ''token'', rkey ''access'' ''token'', rkey ''refresh'' ''token'', RLit ''secret'',
      RLit ''password'', RLit ''passwd'', RLit ''pwd'', rkey ''private'' ''key'', rkey ''client'' ''secret'',
      rkey ''webhook'' ''secret'']"

definition assigned_value :: rx where
  "assigned_value = rcats
     [RWordB, rspaces, RSet False (chars '':=''), rspaces,
      RGrp 2 (rplus (RSet True [CSpace, CI dquote, CI squote]))]"

definition url_scheme_rx :: rx where
  "url_scheme_rx = RGrp 1 (rcats
     [ralts [RCat (RLit ''http'') (ropt (RLit ''s'')), rplus (RSet False [CR CHR ''a'' CHR ''z''])], RLit ''://''])"

definition SECRET_PATTERNS :: "(rflags \<times> rx \<times> rpiece list) list" where
  "SECRET_PATTERNS =
     [(ignorecase,
       RCat (RGrp 1 (rcats [RLit ''authorization'', rspaces, RLit '':'', rspaces, RLit ''bearer'', rplus rspace]))
         (rplus bearer_token), [RRef 1, RText REDACTED]),
      (ignorecase, rcats [RWordB, RGrp 1 (RCat (RLit ''bearer'') (rplus rspace)), RRep True 16 None bearer_token],
       [RRef 1, RText REDACTED]),
      (dotall,
       rcats [RLit ''-----BEGIN '', rstar (RSet False [CR CHR ''A'' CHR ''Z'', CI CHR '' '']), RLit ''PRIVATE KEY-----'',
         RRep False 0 None RDot, RLit ''-----END '', rstar (RSet False [CR CHR ''A'' CHR ''Z'', CI CHR '' '']),
         RLit ''PRIVATE KEY-----''], [RText REDACTED]),
      (ignorecase,
       RCat (RGrp 1 (rcats [RLit ''sshpass'', rplus rspace, RLit ''-p'', rplus rspace])) (RGrp 2 (rplus rnonspace)),
       [RRef 1, RText REDACTED]),
      (no_flags,
       RCat (RGrp 1 (rcats [RLit ''http'', ropt (RLit ''s''), RLit ''://api.telegram.org/bot'']))
         (RGrp 2 (RRep True 20 None (RSet False (id_chars @ [CI CHR '':''])))), [RRef 1, RText REDACTED]),
      (no_flags,
       rcats [RGrp 1 (RLit ''/bot''),
         RGrp 2 (rcats [RRep True 6 None (RSet False [rdigit]), RLit '':'', RRep True 30 None (RSet False id_chars)]),
         RGrp 3 (RSet False [CI CHR ''/'', CSpace, CI dquote, CI squote])], [RRef 1, RText REDACTED, RRef 3]),
      (no_flags,
       rcats [RWordB, RLit ''eyJ'', RRep True 10 None (RSet False id_chars), RLit ''.eyJ'',
         RRep True 10 None (RSet False id_chars), RLit ''.'', RRep True 10 None (RSet False id_chars), RWordB],
       [RText REDACTED]),
      (ignorecase, rcats [RWordB, RGrp 1 secret_words, assigned_value], [RRef 1, RText (''='' @ REDACTED)]),
      (ignorecase, rcats [RLit ''_'', RGrp 1 secret_words, assigned_value],
       [RText ''_'', RRef 1, RText (''='' @ REDACTED)]),
      (no_flags,
       rcats [url_scheme_rx, RGrp 2 (rstar (RSet True [CI CHR ''@'', CSpace, CI CHR ''/''])), RLit '':'',
         RGrp 3 (rplus (RSet True [CI CHR ''@'', CSpace])), RLit ''@''],
       [RRef 1, RText (REDACTED @ '':'' @ REDACTED @ ''@'')]),
      (no_flags, rcats [url_scheme_rx, RGrp 2 (rplus (RSet False id_chars)), RLit ''@''],
       [RRef 1, RText (REDACTED @ ''@'')])]"

definition redact_text :: "string \<Rightarrow> string" where
  "redact_text s = fold (\<lambda>(fl, r, template) t. rx_sub fl r template t) SECRET_PATTERNS s"

text \<open>The keys of a dictionary whose value is dropped whatever it is.\<close>

definition secret_key_rx :: rx where
  "secret_key_rx = ralts
     [rkey ''api'' ''key'', RLit ''token'', RLit ''secret'', RLit ''password'', RLit ''passwd'', RLit ''pwd'',
      RLit ''authorization'', rkey ''private'' ''key'']"

definition secret_key :: "string \<Rightarrow> bool" where
  "secret_key key \<longleftrightarrow> rx_search ignorecase secret_key_rx key \<noteq> None"

fun redact_secrets :: "json \<Rightarrow> json" where
  "redact_secrets (JStr s) = JStr (redact_text s)"
| "redact_secrets (JObj d) =
     JObj (map (\<lambda>(k, v). (k, if secret_key k then JStr REDACTED else redact_secrets v)) d)"
| "redact_secrets (JList xs) = JList (map redact_secrets xs)"
| "redact_secrets v = v"

text \<open>The word of a command that the audit log records.\<close>

definition audit_command_root :: "string \<Rightarrow> string" where
  "audit_command_root command =
     (let parts = (case shlex_split command of Some ps \<Rightarrow> ps | None \<Rightarrow> split_words [] command) in
      case parts of
        [] \<Rightarrow> ''?''
      | p # ps \<Rightarrow> (if strip p = ''sudo'' \<and> ps \<noteq> [] then strip (hd ps) else strip p))"

subsection \<open>Addresses\<close>

record ip_filter =
  ipf_whitelist :: "string set"
  ipf_blacklist :: "string set"

definition new_ip_filter :: ip_filter where
  "new_ip_filter = \<lparr>ipf_whitelist = {}, ipf_blacklist = {}\<rparr>"

definition add_to_whitelist :: "string \<Rightarrow> ip_filter \<Rightarrow> ip_filter" where
  "add_to_whitelist ip f = f\<lparr>ipf_whitelist := insert ip (ipf_whitelist f)\<rparr>"

definition add_to_blacklist :: "string \<Rightarrow> ip_filter \<Rightarrow> ip_filter" where
  "add_to_blacklist ip f = f\<lparr>ipf_blacklist := insert ip (ipf_blacklist f)\<rparr>"

definition ip_filter_allowed :: "string \<Rightarrow> ip_filter \<Rightarrow> bool" where
  "ip_filter_allowed ip f \<longleftrightarrow>
     ip \<notin> ipf_blacklist f \<and> (ipf_whitelist f = {} \<or> ip \<in> ipf_whitelist f)"

text \<open>\<open>None\<close>: \<open>ip_network\<close> raises.\<close>

definition parse_networks :: "string option \<Rightarrow> ip_net list option" where
  "parse_networks raw =
     those (map ip_network (filter (\<lambda>i. i \<noteq> [])
       (map strip (split_char CHR '','' (case raw of None \<Rightarrow> [] | Some r \<Rightarrow> r)))))"

datatype host_error = Unresolved string | BadAddress | DeniedIp string ip_addr | NotAllowedIp string ip_addr | BadNetworks

text \<open>\<open>getaddrinfo\<close> answers \<open>None\<close> for a \<open>gaierror\<close>.\<close>

definition resolve_host_ips :: "(string \<Rightarrow> string list option) \<Rightarrow> string \<Rightarrow> host_error + ip_addr list" where
  "resolve_host_ips getaddrinfo host =
     (case ip_address host of
        Some a \<Rightarrow> Inr [a]
      | None \<Rightarrow>
          (case getaddrinfo host of
             None \<Rightarrow> Inl (Unresolved host)
           | Some infos \<Rightarrow>
               (case those (map ip_address (dedup_by id [] infos)) of
                  None \<Rightarrow> Inl BadAddress
                | Some [] \<Rightarrow> Inl (Unresolved host)
                | Some ips \<Rightarrow> Inr ips)))"

fun check_target_ips :: "string \<Rightarrow> ip_net list \<Rightarrow> ip_net list \<Rightarrow> ip_addr list \<Rightarrow> host_error option" where
  "check_target_ips host allowed denied [] = None"
| "check_target_ips host allowed denied (ip # ips) =
     (if list_ex (in_network ip) denied then Some (DeniedIp host ip)
      else if allowed \<noteq> [] \<and> \<not> list_ex (in_network ip) allowed then Some (NotAllowedIp host ip)
      else check_target_ips host allowed denied ips)"

definition validate_target_host ::
    "(string \<Rightarrow> string list option) \<Rightarrow> string \<Rightarrow> string option \<Rightarrow> string option \<Rightarrow> host_error + ip_addr list" where
  "validate_target_host getaddrinfo host allowed_cidrs denied_cidrs =
     (case resolve_host_ips getaddrinfo host of
        Inl e \<Rightarrow> Inl e
      | Inr ips \<Rightarrow>
          (case (parse_networks allowed_cidrs, parse_networks denied_cidrs) of
             (Some allowed, Some denied) \<Rightarrow>
               (case check_target_ips host allowed denied ips of
                  Some e \<Rightarrow> Inl e
                | None \<Rightarrow> Inr ips)
           | _ \<Rightarrow> Inl BadNetworks))"

subsection \<open>Lemmas\<close>

text \<open>A host that is let through has only addresses the operator's lists admit.\<close>

lemma check_target_ips_None:
  "check_target_ips host allowed denied ips = None \<longleftrightarrow>
     (\<forall>ip \<in> set ips. (\<forall>net \<in> set denied. \<not> in_network ip net)
        \<and> (allowed = [] \<or> (\<exists>net \<in> set allowed. in_network ip net)))"
  by (induction ips) (auto simp: list_ex_iff)

lemma resolve_host_ips_nonempty: "resolve_host_ips ga host = Inr ips \<Longrightarrow> ips \<noteq> []"
  by (auto simp: resolve_host_ips_def split: option.splits list.splits)

lemma target_host_admitted:
  assumes "validate_target_host ga host allowed_cidrs denied_cidrs = Inr ips"
  shows "ips \<noteq> [] \<and> (\<exists>allowed denied. parse_networks allowed_cidrs = Some allowed \<and> parse_networks denied_cidrs = Some denied
    \<and> (\<forall>ip \<in> set ips. (\<forall>net \<in> set denied. \<not> in_network ip net)
        \<and> (allowed = [] \<or> (\<exists>net \<in> set allowed. in_network ip net))))"
  using assms
  by (auto simp: validate_target_host_def check_target_ips_None resolve_host_ips_nonempty split: sum.splits option.splits)

text \<open>How a POSIX system follows a path from a directory, links aside.\<close>

fun walk_path :: "string list \<Rightarrow> string list \<Rightarrow> string list" where
  "walk_path cwd [] = cwd"
| "walk_path cwd (s # ss) =
     (if s = [] \<or> s = ''.'' then walk_path cwd ss
      else if s = ''..'' then walk_path (butlast cwd) ss
      else walk_path (cwd @ [s]) ss)"

lemma walk_path_down:
  "''..'' \<notin> set ss \<Longrightarrow> walk_path cwd ss = cwd @ filter (\<lambda>s. s \<noteq> [] \<and> s \<noteq> ''.'') ss"
  by (induction ss arbitrary: cwd) auto

lemma validate_path_Inr:
  assumes "validate_path resolve path0 base_path = Inr path"
  shows "path = strip path0" "CHR ''~'' \<notin> set path" "''..'' \<notin> set (split_char CHR ''/'' path)"
    "\<forall>f \<in> set FORBIDDEN_PATHS. \<not> str_in f path"
  using assms by (auto simp: validate_path_def Let_def filter_empty_conv split: if_splits option.splits)

lemma validated_path_stays_below:
  assumes "validate_path resolve path0 base_path = Inr path"
  shows "walk_path cwd (split_char CHR ''/'' path) =
    cwd @ filter (\<lambda>s. s \<noteq> [] \<and> s \<noteq> ''.'') (split_char CHR ''/'' path)"
  using validate_path_Inr(3) [OF assms] by (rule walk_path_down)

text \<open>The forbidden paths are compared as text: another spelling of the same file passes.\<close>

lemma forbidden_path_respelled:
  "validate_path resolve ''/etc//shadow'' None = Inr ''/etc//shadow''"
  "walk_path [] (split_char CHR ''/'' ''/etc//shadow'') = walk_path [] (split_char CHR ''/'' ''/etc/shadow'')"
  by (simp_all add: validate_path_def FORBIDDEN_PATHS_def strip_def lstrip_def rstrip_def py_space_def startswith_def)

text \<open>After redaction no value of a secret key is left, at any depth.\<close>

fun secrets_hidden :: "json \<Rightarrow> bool" where
  "secrets_hidden (JObj d) \<longleftrightarrow>
     (\<forall>(k, v) \<in> set d. if secret_key k then v = JStr REDACTED else secrets_hidden v)"
| "secrets_hidden (JList xs) \<longleftrightarrow> (\<forall>x \<in> set xs. secrets_hidden x)"
| "secrets_hidden _ \<longleftrightarrow> True"

lemma redact_secrets_hidden: "secrets_hidden (redact_secrets j)"
  by (induction j rule: redact_secrets.induct) auto

text \<open>A quoted value is not recognized as one.\<close>

lemma quoted_password_kept: "redact_text (''password='' @ [dquote] @ ''x'' @ [dquote]) = ''password='' @ [dquote] @ ''x'' @ [dquote]"
  by code_simp

end
