(* ===== verification/EventHooks.thy ===== *)
theory EventHooks
  imports HookDelivery SecurityUtils
begin

text \<open>
  \<open>app/event_hook_store.py\<close>, \<open>app/event_hook_emitter.py\<close> and the endpoints of \<open>app/routers/event_hooks.py\<close>
  that change hooks. The clock, the identifiers, \<open>json.dumps\<close>, the cipher of the secret manager and the
  conversions of numbers to text are arguments.
\<close>

record event_hook =
  eh_id :: string
  eh_url :: string
  eh_events :: "string list option"
  eh_session_id :: "string option"
  eh_headers_encrypted :: "string option"
  eh_secret_encrypted :: "string option"
  eh_include_output :: bool
  eh_is_active :: bool
  eh_created_at :: time
  eh_updated_at :: time

type_synonym hook_store = "(string \<times> event_hook) list"

definition create_hook ::
    "time \<Rightarrow> string \<Rightarrow> string \<Rightarrow> string list \<Rightarrow> string option \<Rightarrow> string option \<Rightarrow> string option \<Rightarrow> bool \<Rightarrow> hook_store
      \<Rightarrow> event_hook \<times> hook_store" where
  "create_hook now hook_id url events session_id headers_encrypted secret_encrypted include_output s =
     (let h = \<lparr>eh_id = hook_id, eh_url = url, eh_events = Some events, eh_session_id = session_id,
               eh_headers_encrypted = headers_encrypted, eh_secret_encrypted = secret_encrypted,
               eh_include_output = include_output, eh_is_active = True, eh_created_at = now, eh_updated_at = now\<rparr> in
      (h, AList.update hook_id h s))"

definition list_hooks :: "hook_store \<Rightarrow> event_hook list" where
  "list_hooks s = sort_key eh_created_at (map snd s)"

definition get_hook :: "string \<Rightarrow> hook_store \<Rightarrow> event_hook option" where
  "get_hook hook_id s = map_of s hook_id"

definition set_if :: "'a option \<Rightarrow> 'a \<Rightarrow> 'a" where
  "set_if new old = (case new of None \<Rightarrow> old | Some v \<Rightarrow> v)"

definition set_some :: "'a option \<Rightarrow> 'a option \<Rightarrow> 'a option" where
  "set_some new old = (case new of None \<Rightarrow> old | Some v \<Rightarrow> Some v)"

definition update_hook ::
    "time \<Rightarrow> string \<Rightarrow> string option \<Rightarrow> string list option \<Rightarrow> string option \<Rightarrow> string option \<Rightarrow> string option \<Rightarrow> bool option
      \<Rightarrow> bool option \<Rightarrow> hook_store \<Rightarrow> event_hook option \<times> hook_store" where
  "update_hook now hook_id url events session_id headers_encrypted secret_encrypted include_output is_active s =
     (case map_of s hook_id of
        None \<Rightarrow> (None, s)
      | Some h \<Rightarrow>
          (let h' = h\<lparr>eh_url := set_if url (eh_url h), eh_events := set_some events (eh_events h),
                 eh_session_id := set_some session_id (eh_session_id h),
                 eh_headers_encrypted := set_some headers_encrypted (eh_headers_encrypted h),
                 eh_secret_encrypted := set_some secret_encrypted (eh_secret_encrypted h),
                 eh_include_output := set_if include_output (eh_include_output h),
                 eh_is_active := set_if is_active (eh_is_active h), eh_updated_at := now\<rparr> in
           (Some h', AList.update hook_id h' s)))"

definition delete_hook :: "string \<Rightarrow> hook_store \<Rightarrow> bool \<times> hook_store" where
  "delete_hook hook_id s =
     (case map_of s hook_id of
        None \<Rightarrow> (False, s)
      | Some h \<Rightarrow> (True, AList.delete hook_id s))"

definition hook_matches :: "string \<Rightarrow> string \<Rightarrow> event_hook \<Rightarrow> bool" where
  "hook_matches event_type session_id h \<longleftrightarrow>
     eh_is_active h \<and> (case eh_events h of None \<Rightarrow> False | Some es \<Rightarrow> event_type \<in> set es)
     \<and> (case eh_session_id h of None \<Rightarrow> True | Some sid \<Rightarrow> sid = [] \<or> sid = session_id)"

definition find_matching :: "string \<Rightarrow> string \<Rightarrow> hook_store \<Rightarrow> event_hook list" where
  "find_matching event_type session_id s = filter (hook_matches event_type session_id) (map snd s)"

subsection \<open>The endpoints\<close>

datatype hook_error = HookRejected nat string | HookRaised string

text \<open>\<open>encrypt\<close> is the secret manager, when there is one; \<open>Inl\<close> is the text of its exception.\<close>

definition encrypt_field :: "(string \<Rightarrow> string + string) option \<Rightarrow> string \<Rightarrow> string option \<Rightarrow> hook_error + string option" where
  "encrypt_field encrypt what plain =
     (case (encrypt, plain) of
        (Some enc, Some p) \<Rightarrow>
          (case enc p of
             Inl exc \<Rightarrow> Inl (HookRejected 500 (''Failed to encrypt '' @ what @ '': '' @ exc))
           | Inr c \<Rightarrow> Inr (Some c))
      | _ \<Rightarrow> Inr None)"

definition nonempty :: "string option \<Rightarrow> string option" where
  "nonempty x = (case x of None \<Rightarrow> None | Some s \<Rightarrow> if s = [] then None else Some s)"

text \<open>The headers of the body are given as the text \<open>json.dumps\<close> makes of them, none for an empty object.\<close>

record hook_body =
  hb_url :: string
  hb_events :: "string list"
  hb_session_id :: "string option"
  hb_headers :: "string option"
  hb_secret :: "string option"
  hb_include_output :: bool

definition create_event_hook ::
    "net_lib \<Rightarrow> (string \<Rightarrow> string + string) option \<Rightarrow> nat \<Rightarrow> time \<Rightarrow> string \<Rightarrow> hook_body \<Rightarrow> hook_store option
      \<Rightarrow> (hook_error + event_hook) \<times> hook_store option" where
  "create_event_hook lib encrypt hooks_max now hook_id body store =
     (case store of
        None \<Rightarrow> (Inl (HookRejected 503 ''Event hook store not available''), None)
      | Some s \<Rightarrow>
          (case validate_webhook_url lib (hb_url body) False of
             Inl exc \<Rightarrow> (Inl (HookRaised exc), Some s)
           | Inr v \<Rightarrow>
               if \<not> uv_valid v then (Inl (HookRejected 422 (''Invalid URL: '' @ uv_reason v)), Some s)
               else if hooks_max \<le> length (list_hooks s) then (Inl (HookRejected 409 ''Max event hooks reached''), Some s)
               else
                 (case encrypt_field encrypt ''headers'' (hb_headers body) of
                    Inl e \<Rightarrow> (Inl e, Some s)
                  | Inr headers \<Rightarrow>
                      (case encrypt_field encrypt ''secret'' (nonempty (hb_secret body)) of
                         Inl e \<Rightarrow> (Inl e, Some s)
                       | Inr secret \<Rightarrow>
                           map_prod Inr Some
                             (create_hook now hook_id (hb_url body) (hb_events body) (hb_session_id body) headers secret
                               (hb_include_output body) s)))))"

record hook_patch =
  hp_url :: "string option"
  hp_events :: "string list option"
  hp_session_id :: "string option"
  hp_headers :: "string option"
  hp_secret :: "string option"
  hp_include_output :: "bool option"
  hp_is_active :: "bool option"

definition checked_url :: "net_lib \<Rightarrow> string option \<Rightarrow> hook_error option" where
  "checked_url lib url =
     (case url of
        None \<Rightarrow> None
      | Some u \<Rightarrow>
          (case validate_webhook_url lib u False of
             Inl exc \<Rightarrow> Some (HookRaised exc)
           | Inr v \<Rightarrow> if uv_valid v then None else Some (HookRejected 422 (''Invalid URL: '' @ uv_reason v))))"

definition update_event_hook ::
    "net_lib \<Rightarrow> (string \<Rightarrow> string + string) option \<Rightarrow> time \<Rightarrow> string \<Rightarrow> hook_patch \<Rightarrow> hook_store option
      \<Rightarrow> (hook_error + event_hook) \<times> hook_store option" where
  "update_event_hook lib encrypt now hook_id body store =
     (case store of
        None \<Rightarrow> (Inl (HookRejected 503 ''Event hook store not available''), None)
      | Some s \<Rightarrow>
          if map_of s hook_id = None then (Inl (HookRejected 404 (''Event hook not found: '' @ hook_id)), Some s)
          else
            (case checked_url lib (hp_url body) of
               Some e \<Rightarrow> (Inl e, Some s)
             | None \<Rightarrow>
                 (case encrypt_field encrypt ''headers'' (hp_headers body) of
                    Inl e \<Rightarrow> (Inl e, Some s)
                  | Inr headers \<Rightarrow>
                      (case encrypt_field encrypt ''secret'' (hp_secret body) of
                         Inl e \<Rightarrow> (Inl e, Some s)
                       | Inr secret \<Rightarrow>
                           (case update_hook now hook_id (hp_url body) (hp_events body) (hp_session_id body) headers secret
                                (hp_include_output body) (hp_is_active body) s of
                              (None, s') \<Rightarrow> (Inl (HookRaised ''AttributeError''), Some s')
                            | (Some h, s') \<Rightarrow> (Inr h, Some s'))))))"

definition delete_event_hook :: "string \<Rightarrow> hook_store option \<Rightarrow> (hook_error + unit) \<times> hook_store option" where
  "delete_event_hook hook_id store =
     (case store of
        None \<Rightarrow> (Inl (HookRejected 503 ''Event hook store not available''), None)
      | Some s \<Rightarrow>
          (case delete_hook hook_id s of
             (False, s') \<Rightarrow> (Inl (HookRejected 404 (''Event hook not found: '' @ hook_id)), Some s')
           | (True, s') \<Rightarrow> (Inr (), Some s')))"

subsection \<open>The emitter\<close>

definition EVENT_VERSION :: int where
  "EVENT_VERSION = 1"

definition SESSION_EVENTS :: "string list" where
  "SESSION_EVENTS = [''session.connected'', ''session.disconnected'']"

definition COMMAND_EVENTS :: "string list" where
  "COMMAND_EVENTS = [''command.started'', ''command.completed'', ''command.failed'']"

record hook_event =
  ev_event :: string
  ev_session_id :: string
  ev_host :: string
  ev_port :: int
  ev_username :: string
  ev_command :: string
  ev_exit_code :: "int option"
  ev_duration :: "rat option"
  ev_stdout :: "string option"
  ev_stderr :: "string option"
  ev_reason :: string
  ev_connected_seconds :: "rat option"

text \<open>
  What one delivery takes from its surroundings: the identifiers, the time as text and as seconds, \<open>round\<close>,
  \<open>json.dumps\<close>, the MAC, the cipher (\<open>None\<close>: it raises) and the parser of the custom headers.
\<close>

record emit_env =
  ee_event_id :: string
  ee_delivery_header :: string
  ee_delivery_id :: string
  ee_now :: time
  ee_iso :: string
  ee_timestamp :: string
  ee_round :: "rat \<Rightarrow> nat \<Rightarrow> rat"
  ee_dumps :: "json \<Rightarrow> string"
  ee_hmac :: "string \<Rightarrow> string \<Rightarrow> string"
  ee_decrypt :: "(string \<Rightarrow> string option) option"
  ee_loads :: "string \<Rightarrow> json option"

definition OUTPUT_LIMIT :: nat where
  "OUTPUT_LIMIT = 65536"

text \<open>One stream of the output; an earlier mark of truncation stays.\<close>

definition add_output :: "string \<Rightarrow> string option \<Rightarrow> (string \<times> json) list \<Rightarrow> (string \<times> json) list" where
  "add_output field text extra =
     (case text of
        None \<Rightarrow> extra
      | Some t \<Rightarrow>
          if t = [] then extra
          else
            (let extra' = AList.update field (JStr (take OUTPUT_LIMIT t)) extra in
             if falsy (jget (JObj extra') ''output_truncated'')
             then AList.update ''output_truncated'' (JBool (OUTPUT_LIMIT < length t)) extra'
             else extra'))"

definition event_extra :: "emit_env \<Rightarrow> bool \<Rightarrow> hook_event \<Rightarrow> (string \<times> json) list" where
  "event_extra env include_output e =
     (let place = [(''host'', JStr (ev_host e)), (''port'', JInt (ev_port e)), (''username'', JStr (ev_username e))] in
      if ev_event e \<in> set SESSION_EVENTS then
        place @
          (if ev_event e = ''session.disconnected'' then
             (''reason'', JStr (ev_reason e)) #
               (case ev_connected_seconds e of
                  None \<Rightarrow> []
                | Some t \<Rightarrow> [(''connected_seconds'', JFloat (ee_round env t 1))])
           else [])
      else if ev_event e \<in> set COMMAND_EVENTS then
        (let started = [(''command'', JStr (ev_command e))] in
         if ev_event e \<in> {''command.completed'', ''command.failed''} then
           (let ended = started @ place
                  @ (case ev_exit_code e of None \<Rightarrow> [] | Some c \<Rightarrow> [(''exit_code'', JInt c)])
                  @ (case ev_duration e of None \<Rightarrow> [] | Some t \<Rightarrow> [(''duration'', JFloat (ee_round env t 2))]) in
            if include_output then add_output ''stderr'' (ev_stderr e) (add_output ''stdout'' (ev_stdout e) ended)
            else ended)
         else started)
      else [])"

definition build_payload :: "emit_env \<Rightarrow> hook_event \<Rightarrow> (string \<times> json) list \<Rightarrow> (string \<times> json) list" where
  "build_payload env e extra =
     fold (\<lambda>(k, v). AList.update k v) (filter (\<lambda>(k, v). v \<noteq> JNull) extra)
       [(''event'', JStr (ev_event e)), (''event_id'', JStr (ee_event_id env)), (''event_version'', JInt EVENT_VERSION),
        (''timestamp'', JStr (ee_iso env)), (''session_id'', JStr (ev_session_id e))]"

definition hook_payload :: "emit_env \<Rightarrow> hook_event \<Rightarrow> event_hook \<Rightarrow> json" where
  "hook_payload env e h = redact_secrets (JObj (build_payload env e (event_extra env (eh_include_output h) e)))"

text \<open>The secret of a hook; one that cannot be decrypted leaves the delivery unsigned.\<close>

definition decrypted :: "emit_env \<Rightarrow> string option \<Rightarrow> string option" where
  "decrypted env c =
     (case (nonempty c, ee_decrypt env) of
        (Some t, Some dec) \<Rightarrow> dec t
      | _ \<Rightarrow> None)"

definition custom_headers :: "emit_env \<Rightarrow> event_hook \<Rightarrow> (string \<times> json) list" where
  "custom_headers env h =
     (case Option.bind (decrypted env (eh_headers_encrypted h)) (ee_loads env) of
        Some (JObj d) \<Rightarrow> d
      | _ \<Rightarrow> [])"

definition hook_headers :: "emit_env \<Rightarrow> event_hook \<Rightarrow> json \<Rightarrow> (string \<times> json) list" where
  "hook_headers env h payload =
     (let signature = sign_payload (ee_hmac env) (decrypted env (eh_secret_encrypted h)) (ee_dumps env payload) (ee_timestamp env);
          base = [(''Content-Type'', JStr ''application/json'')]
            @ (case signature of
                 None \<Rightarrow> []
               | Some sig \<Rightarrow> [(''X-Webhook-Signature'', JStr sig), (''X-Webhook-Timestamp'', JStr (ee_timestamp env))])
            @ [(''X-Event-Id'', jget payload ''event_id''), (''X-Delivery-Id'', JStr (ee_delivery_header env))] in
      fold (\<lambda>(k, v). AList.update k v) (custom_headers env h) base)"

definition enqueue_hook :: "emit_env \<Rightarrow> hook_event \<Rightarrow> event_hook \<Rightarrow> delivery_table \<Rightarrow> delivery_table" where
  "enqueue_hook env e h tbl =
     (let payload = hook_payload env e h;
          event_id = (case jstr (jget payload ''event_id'') of Some i \<Rightarrow> i | None \<Rightarrow> []) in
      enqueue (ee_now env) (ee_delivery_id env) event_id (eh_id h) (ev_event e) (eh_url h) (ee_dumps env payload)
        (Some (ee_dumps env (JObj (hook_headers env h payload)))) tbl)"

text \<open>\<open>emit_event\<close> with a store and a delivery service; each hook has its environment.\<close>

definition emit_event :: "(string \<Rightarrow> emit_env) \<Rightarrow> hook_event \<Rightarrow> hook_store \<Rightarrow> delivery_table \<Rightarrow> delivery_table" where
  "emit_event env e store tbl =
     fold (\<lambda>h. enqueue_hook (env (eh_id h)) e h) (find_matching (ev_event e) (ev_session_id e) store) tbl"

subsection \<open>Lemmas\<close>

lemma hook_payload_hidden: "secrets_hidden (hook_payload env e h)"
  unfolding hook_payload_def by (rule redact_secrets_hidden)

lemma update_fresh: "k \<notin> fst ` set al \<Longrightarrow> AList.update k v al = al @ [(k, v)]"
  by (induction al) auto

text \<open>The row an event makes for a hook.\<close>

definition emitted_row :: "hook_event \<Rightarrow> emit_env \<Rightarrow> event_hook \<Rightarrow> delivery \<Rightarrow> bool" where
  "emitted_row e env h d \<longleftrightarrow>
     dl_id d = ee_delivery_id env \<and> dl_status d = ''pending'' \<and> dl_attempts d = Some 0
     \<and> dl_hook_id d = eh_id h \<and> dl_url d = eh_url h \<and> dl_event_type d = ev_event e
     \<and> dl_payload_json d = ee_dumps env (hook_payload env e h)"

lemma enqueue_hook_new:
  assumes "ee_delivery_id env \<notin> fst ` set tbl"
  obtains d where "enqueue_hook env e h tbl = tbl @ [(ee_delivery_id env, d)]" "emitted_row e env h d"
  using assms by (auto simp: enqueue_hook_def enqueue_def Let_def update_fresh emitted_row_def)

lemma emitted_fold:
  assumes "distinct (map (\<lambda>h. ee_delivery_id (env (eh_id h))) hs)"
    "\<forall>h \<in> set hs. ee_delivery_id (env (eh_id h)) \<notin> fst ` set tbl"
  shows "\<exists>ds. fold (\<lambda>h. enqueue_hook (env (eh_id h)) e h) hs tbl = tbl @ map (\<lambda>d. (dl_id d, d)) ds
    \<and> list_all2 (\<lambda>h. emitted_row e (env (eh_id h)) h) hs ds"
  using assms
proof (induction hs arbitrary: tbl)
  case (Cons h hs)
  obtain d where d: "enqueue_hook (env (eh_id h)) e h tbl = tbl @ [(ee_delivery_id (env (eh_id h)), d)]"
      "emitted_row e (env (eh_id h)) h d"
    using Cons.prems(2) by (auto intro: enqueue_hook_new)
  have "\<forall>h' \<in> set hs. ee_delivery_id (env (eh_id h')) \<notin> fst ` set (enqueue_hook (env (eh_id h)) e h tbl)"
    using Cons.prems by (auto simp: d(1)) (metis image_eqI)
  from Cons.IH [OF _ this] Cons.prems(1) obtain ds where
      "fold (\<lambda>h. enqueue_hook (env (eh_id h)) e h) hs (enqueue_hook (env (eh_id h)) e h tbl) =
         enqueue_hook (env (eh_id h)) e h tbl @ map (\<lambda>d. (dl_id d, d)) ds"
      "list_all2 (\<lambda>h. emitted_row e (env (eh_id h)) h) hs ds"
    by auto
  moreover have "dl_id d = ee_delivery_id (env (eh_id h))" using d(2) by (simp add: emitted_row_def)
  ultimately show ?case using d by (intro exI [of _ "d # ds"]) simp
qed simp

lemma output_needs_consent:
  "map_of (event_extra env False e) ''stdout'' = None" "map_of (event_extra env False e) ''stderr'' = None"
  by (auto simp: event_extra_def Let_def split: option.split)

lemma map_of_redacted:
  "map_of (map (\<lambda>(k, v). (k, f k v)) d) k = map_option (f k) (map_of d k)"
  by (induction d) auto

lemma map_of_fold_update_None:
  "map_of (fold (\<lambda>(k, v). AList.update k v) xs d) k = None \<longleftrightarrow> map_of xs k = None \<and> map_of d k = None"
proof (induction xs arbitrary: d)
  case (Cons x xs)
  then show ?case by (cases x) (auto simp: update_conv')
qed simp

lemma map_of_filter_None: "map_of d k = None \<Longrightarrow> map_of (filter P d) k = None"
  by (auto simp: map_of_eq_None_iff)

text \<open>An event reaches exactly the active hooks that subscribe to it for the session: one pending delivery
  each, to the hook's URL, is added at the end of the outbox and nothing else changes. Its payload contains
  the output streams only when the hook asks for them, and no value under a secret-named key. The keys that
  the code builds are none of these, so that the redaction acts only on the payload's nested values; text
  is not searched for secrets.\<close>

theorem event_reaches_its_hooks:
  assumes "distinct (map (\<lambda>h. ee_delivery_id (env (eh_id h))) (find_matching (ev_event e) (ev_session_id e) store))"
    and "\<forall>h \<in> set (find_matching (ev_event e) (ev_session_id e) store). ee_delivery_id (env (eh_id h)) \<notin> fst ` set tbl"
  shows "\<exists>ds. emit_event env e store tbl = tbl @ map (\<lambda>d. (dl_id d, d)) ds
    \<and> list_all2 (\<lambda>h d. emitted_row e (env (eh_id h)) h d
          \<and> secrets_hidden (hook_payload (env (eh_id h)) e h)
          \<and> (\<not> eh_include_output h \<longrightarrow> jget (hook_payload (env (eh_id h)) e h) ''stdout'' = JNull
               \<and> jget (hook_payload (env (eh_id h)) e h) ''stderr'' = JNull))
        (filter (hook_matches (ev_event e) (ev_session_id e)) (map snd store)) ds"
proof -
  have quiet: "jget (hook_payload env' e h) f = JNull"
    if "\<not> eh_include_output h" "f \<in> {''stdout'', ''stderr''}" for env' h f
  proof -
    have "map_of (event_extra env' False e) f = None" using that(2) output_needs_consent [of env' e] by auto
    then have "map_of (build_payload env' e (event_extra env' False e)) f = None"
      using that(2) unfolding build_payload_def map_of_fold_update_None by (auto simp: map_of_filter_None)
    moreover have "jget (hook_payload env' e h) f =
        (case map_option (\<lambda>v. if secret_key f then JStr REDACTED else redact_secrets v)
             (map_of (build_payload env' e (event_extra env' False e)) f) of None \<Rightarrow> JNull | Some v \<Rightarrow> v)"
      using that(1) unfolding hook_payload_def redact_secrets.simps jget.simps map_of_redacted by simp
    ultimately show ?thesis by simp
  qed
  from emitted_fold [OF assms] show ?thesis
    unfolding emit_event_def find_matching_def
    by (auto elim!: list_all2_mono simp: hook_payload_hidden quiet)
qed

definition demo_hook :: event_hook where
  "demo_hook =
     \<lparr>eh_id = ''h1'', eh_url = ''https://8.8.8.8/hook'', eh_events = Some [''command.completed''], eh_session_id = None,
      eh_headers_encrypted = None, eh_secret_encrypted = None, eh_include_output = False, eh_is_active = True,
      eh_created_at = 0, eh_updated_at = 0\<rparr>"

definition demo_event :: hook_event where
  "demo_event =
     \<lparr>ev_event = ''command.completed'', ev_session_id = ''s1'', ev_host = ''db'', ev_port = 22, ev_username = ''ops'',
      ev_command = ''ls'', ev_exit_code = Some 0, ev_duration = None, ev_stdout = Some ''secret'', ev_stderr = None,
      ev_reason = [], ev_connected_seconds = None\<rparr>"

definition demo_emit_env :: "string \<Rightarrow> emit_env" where
  "demo_emit_env i =
     \<lparr>ee_event_id = ''e1'', ee_delivery_header = ''x1'', ee_delivery_id = ''d'' @ i, ee_now = 5, ee_iso = ''t'', ee_timestamp = ''5'',
      ee_round = \<lambda>x n. x, ee_dumps = \<lambda>_. ''{}'', ee_hmac = \<lambda>_ _. [], ee_decrypt = None, ee_loads = \<lambda>_. None\<rparr>"

lemma demo_matching: "find_matching (ev_event demo_event) (ev_session_id demo_event) [(''h1'', demo_hook)] = [demo_hook]"
  by (simp add: find_matching_def hook_matches_def demo_hook_def demo_event_def)

lemma event_reaches_its_hooks_witness:
  "\<exists>ds. emit_event demo_emit_env demo_event [(''h1'', demo_hook)] [] = [] @ map (\<lambda>d. (dl_id d, d)) ds
    \<and> list_all2 (\<lambda>h d. emitted_row demo_event (demo_emit_env (eh_id h)) h d
          \<and> secrets_hidden (hook_payload (demo_emit_env (eh_id h)) demo_event h)
          \<and> (\<not> eh_include_output h \<longrightarrow> jget (hook_payload (demo_emit_env (eh_id h)) demo_event h) ''stdout'' = JNull
               \<and> jget (hook_payload (demo_emit_env (eh_id h)) demo_event h) ''stderr'' = JNull))
        (filter (hook_matches (ev_event demo_event) (ev_session_id demo_event)) (map snd [(''h1'', demo_hook)])) ds"
  by (rule event_reaches_its_hooks) (simp_all add: demo_matching)

end
