(* ===== verification/DistributedLock.thy ===== *)
theory DistributedLock
  imports Prelude
begin

text \<open>
  \<open>app/distributed_lock.py\<close>: locks kept as Redis keys with a time to live, and the watchdog that renews them.
  The Redis server is a record of its commands over a state of its own; what the code relies on is
  \<open>redis_laws\<close>. Tokens are fresh identifiers, given as arguments, and so is the clock.
\<close>

record 'r redis =
  rd_set_nx_ex :: "time \<Rightarrow> string \<Rightarrow> string \<Rightarrow> int \<Rightarrow> 'r \<Rightarrow> bool option \<times> 'r"
  rd_get :: "time \<Rightarrow> string \<Rightarrow> 'r \<Rightarrow> string option"
  rd_del :: "time \<Rightarrow> string \<Rightarrow> 'r \<Rightarrow> int \<times> 'r"
  rd_expire :: "time \<Rightarrow> string \<Rightarrow> int \<Rightarrow> 'r \<Rightarrow> int \<times> 'r"
  rd_ttl :: "time \<Rightarrow> string \<Rightarrow> 'r \<Rightarrow> int"

definition lock_key :: "string \<Rightarrow> string" where
  "lock_key resource = ''ssh_gateway:lock:'' @ resource"

text \<open>The two scripts, which the server runs as one step.\<close>

definition release_script :: "'r redis \<Rightarrow> time \<Rightarrow> string \<Rightarrow> string \<Rightarrow> 'r \<Rightarrow> int \<times> 'r" where
  "release_script R now key token r =
     (if rd_get R now key r = Some token then rd_del R now key r else (0, r))"

definition extend_script :: "'r redis \<Rightarrow> time \<Rightarrow> string \<Rightarrow> string \<Rightarrow> int \<Rightarrow> 'r \<Rightarrow> int \<times> 'r" where
  "extend_script R now key token ttl r =
     (if rd_get R now key r = Some token then rd_expire R now key ttl r else (0, r))"

text \<open>\<open>extend\<close>: the reply as a truth value.\<close>

definition extend_lock :: "'r redis \<Rightarrow> time \<Rightarrow> string \<Rightarrow> string \<Rightarrow> int \<Rightarrow> 'r \<Rightarrow> bool \<times> 'r" where
  "extend_lock R now resource token ttl r =
     map_prod (\<lambda>n. n \<noteq> 0) id (extend_script R now (lock_key resource) token ttl r)"

definition is_locked :: "'r redis \<Rightarrow> time \<Rightarrow> string \<Rightarrow> 'r \<Rightarrow> bool" where
  "is_locked R now resource r \<longleftrightarrow> rd_get R now (lock_key resource) r \<noteq> None"

record lock_info =
  li_resource :: string
  li_token :: string
  li_ttl_remaining :: int

definition get_lock_info :: "'r redis \<Rightarrow> time \<Rightarrow> string \<Rightarrow> 'r \<Rightarrow> lock_info option" where
  "get_lock_info R now resource r =
     (case rd_get R now (lock_key resource) r of
        None \<Rightarrow> None
      | Some token \<Rightarrow>
          if token = [] then None
          else Some \<lparr>li_resource = resource, li_token = take 8 token @ ''...'',
                     li_ttl_remaining = rd_ttl R now (lock_key resource) r\<rparr>)"

definition renew_interval :: "int \<Rightarrow> int" where
  "renew_interval ttl = max 1 (ttl div 3)"

subsection \<open>The loop of acquire\<close>















subsection \<open>The server\<close>

text \<open>
  The documented behaviour of the commands, over the value and the deadline a key has. A key whose deadline is
  over is not seen; \<open>SET\<close> refuses a time to live that is not positive, \<open>EXPIRE\<close> then deletes the key.
\<close>

definition live_value :: "time \<Rightarrow> (string \<times> time) option \<Rightarrow> string option" where
  "live_value now e = (case e of None \<Rightarrow> None | Some (v, d) \<Rightarrow> if now < d then Some v else None)"

definition redis_laws :: "'r redis \<Rightarrow> ('r \<Rightarrow> string \<Rightarrow> (string \<times> time) option) \<Rightarrow> bool" where
  "redis_laws R view \<longleftrightarrow>
     (\<forall>now k r. rd_get R now k r = live_value now (view r k))
     \<and> (\<forall>now k v ttl r b r'. rd_set_nx_ex R now k v ttl r = (b, r') \<longrightarrow>
          b = (if ttl \<le> 0 then None else Some (live_value now (view r k) = None))
          \<and> view r' = (if b = Some True then (view r)(k \<mapsto> (v, now + of_int ttl)) else view r))
     \<and> (\<forall>now k r n r'. rd_del R now k r = (n, r') \<longrightarrow>
          n = (if live_value now (view r k) = None then 0 else 1) \<and> view r' = (view r)(k := None))
     \<and> (\<forall>now k ttl r n r'. rd_expire R now k ttl r = (n, r') \<longrightarrow>
          (case live_value now (view r k) of
             None \<Rightarrow> n = 0 \<and> view r' = view r
           | Some v \<Rightarrow> n = 1 \<and> view r' = (view r)(k := (if ttl \<le> 0 then None else Some (v, now + of_int ttl)))))"

lemma redis_getD: "redis_laws R view \<Longrightarrow> rd_get R now k r = live_value now (view r k)"
  by (simp add: redis_laws_def)

lemma redis_setD:
  "redis_laws R view \<Longrightarrow> rd_set_nx_ex R now k v ttl r = (b, r') \<Longrightarrow>
   b = (if ttl \<le> 0 then None else Some (live_value now (view r k) = None))
   \<and> view r' = (if b = Some True then (view r)(k \<mapsto> (v, now + of_int ttl)) else view r)"
  unfolding redis_laws_def by blast

lemma redis_delD:
  assumes "redis_laws R view" "rd_del R now k r = (n, r')" "live_value now (view r k) = Some v"
  shows "n = 1 \<and> view r' = (view r)(k := None)"
proof -
  have "n = (if live_value now (view r k) = None then 0 else 1) \<and> view r' = (view r)(k := None)"
    using assms(1,2) unfolding redis_laws_def by blast
  then show ?thesis using assms(3) by simp
qed

lemma redis_expireD:
  assumes "redis_laws R view" "rd_expire R now k ttl r = (n, r')" "live_value now (view r k) = Some v"
  shows "n = 1 \<and> view r' = (view r)(k := (if ttl \<le> 0 then None else Some (v, now + of_int ttl)))"
proof -
  have "case live_value now (view r k) of
      None \<Rightarrow> n = 0 \<and> view r' = view r
    | Some v \<Rightarrow> n = 1 \<and> view r' = (view r)(k := (if ttl \<le> 0 then None else Some (v, now + of_int ttl)))"
    using assms(1,2) unfolding redis_laws_def by blast
  then show ?thesis using assms(3) by simp
qed

subsection \<open>Managers over one server\<close>

text \<open>
  The managers are numbered. Each keeps \<open>_renewal_tasks\<close>, a resource with the token its watchdog renews; \<open>running\<close>
  are the watchdogs that have not ended. A call that waits for the server has been executed there and not
  yet been answered: \<open>granted\<close> and \<open>deleted\<close> hold those calls. The leases record for every grant until when it was
  last extended and whether it was given back.
\<close>

record lease =
  le_resource :: string
  le_token :: string
  le_until :: time
  le_released :: bool

record watchdog =
  wd_manager :: nat
  wd_resource :: string
  wd_token :: string
  wd_ttl :: int

record 'r lock_world =
  lw_now :: time
  lw_redis :: 'r
  lw_tasks :: "nat \<Rightarrow> (string \<times> string) list"
  lw_running :: "watchdog list"
  lw_granted :: "watchdog list"
  lw_deleted :: "(nat \<times> string) list"
  lw_leases :: "lease list"

definition try_acquire :: "'r redis \<Rightarrow> watchdog \<Rightarrow> 'r lock_world \<Rightarrow> 'r lock_world" where
  "try_acquire R c w =
     (case rd_set_nx_ex R (lw_now w) (lock_key (wd_resource c)) (wd_token c) (wd_ttl c) (lw_redis w) of
        (Some True, r') \<Rightarrow>
          w\<lparr>lw_redis := r', lw_granted := c # lw_granted w,
            lw_leases := \<lparr>le_resource = wd_resource c, le_token = wd_token c, le_until = lw_now w + of_int (wd_ttl c),
                          le_released = False\<rparr> # lw_leases w\<rparr>
      | (_, r') \<Rightarrow> w\<lparr>lw_redis := r'\<rparr>)"

text \<open>The rest of \<open>acquire\<close>: the watchdog starts and takes the place of an earlier one.\<close>

definition acquired :: "watchdog \<Rightarrow> 'r lock_world \<Rightarrow> 'r lock_world" where
  "acquired c w =
     w\<lparr>lw_granted := remove1 c (lw_granted w), lw_running := c # lw_running w,
       lw_tasks := (lw_tasks w)(wd_manager c := AList.update (wd_resource c) (wd_token c) (lw_tasks w (wd_manager c)))\<rparr>"

definition held_by :: "string \<Rightarrow> string \<Rightarrow> lease \<Rightarrow> bool" where
  "held_by resource token l \<longleftrightarrow> le_resource l = resource \<and> le_token l = token"

definition try_release :: "'r redis \<Rightarrow> nat \<Rightarrow> string \<Rightarrow> string \<Rightarrow> 'r lock_world \<Rightarrow> 'r lock_world" where
  "try_release R m resource token w =
     (case release_script R (lw_now w) (lock_key resource) token (lw_redis w) of
        (n, r') \<Rightarrow>
          if n = 0 then w\<lparr>lw_redis := r'\<rparr>
          else w\<lparr>lw_redis := r', lw_deleted := (m, resource) # lw_deleted w,
                 lw_leases := map (\<lambda>l. if held_by resource token l then l\<lparr>le_released := True\<rparr> else l) (lw_leases w)\<rparr>)"

text \<open>The rest of \<open>release\<close>: the entry of the resource goes, and the watchdog it names is cancelled.\<close>

definition released :: "nat \<times> string \<Rightarrow> 'r lock_world \<Rightarrow> 'r lock_world" where
  "released c w =
     (case c of (m, resource) \<Rightarrow>
        w\<lparr>lw_deleted := remove1 c (lw_deleted w),
          lw_tasks := (lw_tasks w)(m := AList.delete resource (lw_tasks w m)),
          lw_running := (case map_of (lw_tasks w m) resource of
             None \<Rightarrow> lw_running w
           | Some token \<Rightarrow> filter (\<lambda>c. \<not> (wd_manager c = m \<and> wd_resource c = resource \<and> wd_token c = token)) (lw_running w))\<rparr>)"

definition extended :: "'r redis \<Rightarrow> string \<Rightarrow> string \<Rightarrow> int \<Rightarrow> 'r lock_world \<Rightarrow> bool \<times> 'r lock_world" where
  "extended R resource token ttl w =
     (case extend_lock R (lw_now w) resource token ttl (lw_redis w) of
        (ok, r') \<Rightarrow>
          (ok, w\<lparr>lw_redis := r',
                 lw_leases := (if ok then map (\<lambda>l. if held_by resource token l
                     then l\<lparr>le_until := lw_now w + of_int (max 0 ttl)\<rparr> else l) (lw_leases w) else lw_leases w)\<rparr>))"

text \<open>One round of a watchdog: it ends when the lock is not its own any more.\<close>

definition renew :: "'r redis \<Rightarrow> watchdog \<Rightarrow> 'r lock_world \<Rightarrow> 'r lock_world" where
  "renew R c w =
     (case extended R (wd_resource c) (wd_token c) (wd_ttl c) w of
        (ok, w') \<Rightarrow> if ok then w' else w'\<lparr>lw_running := remove1 c (lw_running w')\<rparr>)"

definition disconnect_manager :: "nat \<Rightarrow> 'r lock_world \<Rightarrow> 'r lock_world" where
  "disconnect_manager m w =
     w\<lparr>lw_tasks := (lw_tasks w)(m := []),
       lw_running := filter (\<lambda>c. \<not> (wd_manager c = m \<and> (wd_resource c, wd_token c) \<in> set (lw_tasks w m))) (lw_running w)\<rparr>"

inductive lock_step :: "'r redis \<Rightarrow> 'r lock_world \<Rightarrow> 'r lock_world \<Rightarrow> bool" for R where
  tick: "0 \<le> dt \<Longrightarrow> lock_step R w (w\<lparr>lw_now := lw_now w + dt\<rparr>)"
| attempt: "wd_token c \<notin> le_token ` set (lw_leases w) \<Longrightarrow> lock_step R w (try_acquire R c w)"
| acquired: "c \<in> set (lw_granted w) \<Longrightarrow> lock_step R w (acquired c w)"
| release: "lock_step R w (try_release R m resource token w)"
| released: "c \<in> set (lw_deleted w) \<Longrightarrow> lock_step R w (released c w)"
| extend: "lock_step R w (snd (extended R resource token ttl w))"
| renew: "c \<in> set (lw_running w) \<Longrightarrow> lock_step R w (renew R c w)"
| disconnect: "lock_step R w (disconnect_manager m w)"

inductive_cases lock_stepE: "lock_step R w w'"

inductive lock_reach :: "'r redis \<Rightarrow> 'r lock_world \<Rightarrow> bool" for R where
  init: "lw_leases w = [] \<Longrightarrow> lock_reach R w"
| step: "lock_reach R w \<Longrightarrow> lock_step R w w' \<Longrightarrow> lock_reach R w'"

text \<open>A lease that is in force: not given back and its time not over.\<close>

definition in_force :: "time \<Rightarrow> lease \<Rightarrow> bool" where
  "in_force now l \<longleftrightarrow> \<not> le_released l \<and> now < le_until l"

definition lock_inv :: "('r \<Rightarrow> string \<Rightarrow> (string \<times> time) option) \<Rightarrow> 'r lock_world \<Rightarrow> bool" where
  "lock_inv view w \<longleftrightarrow>
     distinct (map le_token (lw_leases w))
     \<and> (\<forall>l \<in> set (lw_leases w). in_force (lw_now w) l \<longrightarrow>
          view (lw_redis w) (lock_key (le_resource l)) = Some (le_token l, le_until l))"

lemma lock_key_inj [simp]: "lock_key a = lock_key b \<longleftrightarrow> a = b"
  by (simp add: lock_key_def)

lemma in_force_value:
  "lock_inv view w \<Longrightarrow> l \<in> set (lw_leases w) \<Longrightarrow> in_force (lw_now w) l \<Longrightarrow>
   live_value (lw_now w) (view (lw_redis w) (lock_key (le_resource l))) = Some (le_token l)"
  by (auto simp: lock_inv_def live_value_def in_force_def)

lemma lock_inv_frame:
  "lock_inv view w \<Longrightarrow> lw_leases w' = lw_leases w \<Longrightarrow> lw_now w' = lw_now w \<Longrightarrow> view (lw_redis w') = view (lw_redis w) \<Longrightarrow>
   lock_inv view w'"
  by (simp add: lock_inv_def)

lemma lock_inv_try:
  assumes "redis_laws R view" "lock_inv view w" "wd_token c \<notin> le_token ` set (lw_leases w)"
  shows "lock_inv view (try_acquire R c w)"
proof -
  obtain b r' where set: "rd_set_nx_ex R (lw_now w) (lock_key (wd_resource c)) (wd_token c) (wd_ttl c) (lw_redis w) = (b, r')"
    by (cases "rd_set_nx_ex R (lw_now w) (lock_key (wd_resource c)) (wd_token c) (wd_ttl c) (lw_redis w)")
  have b: "b = (if wd_ttl c \<le> 0 then None else Some (live_value (lw_now w) (view (lw_redis w) (lock_key (wd_resource c))) = None))"
    and view: "view r' = (if b = Some True then (view (lw_redis w))(lock_key (wd_resource c) \<mapsto> (wd_token c, lw_now w + of_int (wd_ttl c)))
        else view (lw_redis w))"
    using redis_setD [OF assms(1) set] by auto
  show ?thesis
  proof (cases "b = Some True")
    case True
    then have "live_value (lw_now w) (view (lw_redis w) (lock_key (wd_resource c))) = None"
      using b by (auto split: if_splits)
    then have "le_resource l \<noteq> wd_resource c" if "l \<in> set (lw_leases w)" "in_force (lw_now w) l" for l
      using in_force_value [OF assms(2) that] by auto
    then show ?thesis
      using assms(2,3) True view unfolding lock_inv_def try_acquire_def set by auto
  next
    case False
    then have "try_acquire R c w = w\<lparr>lw_redis := r'\<rparr>"
      unfolding try_acquire_def set by (auto split: option.split bool.split)
    then show ?thesis using False view assms(2) by (auto intro: lock_inv_frame)
  qed
qed

lemma token_lease_unique:
  assumes "lock_inv view w" "l \<in> set (lw_leases w)" "l' \<in> set (lw_leases w)" "le_token l = le_token l'"
  shows "l = l'"
  using assms unfolding lock_inv_def distinct_map by (auto dest: inj_onD)

text \<open>A change of the leases that one token holds, when the server agrees that it holds the key.\<close>

lemma lock_inv_holder:
  assumes inv: "lock_inv view w" and held: "live_value (lw_now w) (view (lw_redis w) (lock_key resource)) = Some token"
    and view: "view r' = (view (lw_redis w))(lock_key resource := v)"
    and f: "\<And>l. le_token (f l) = le_token l \<and> le_resource (f l) = le_resource l"
    and val: "\<And>l. held_by resource token l \<Longrightarrow> in_force (lw_now w) (f l) \<Longrightarrow> v = Some (token, le_until (f l))"
  shows "lock_inv view (w\<lparr>lw_redis := r',
      lw_leases := map (\<lambda>l. if held_by resource token l then f l else l) (lw_leases w)\<rparr>)"
proof -
  let ?g = "\<lambda>l. if held_by resource token l then f l else l"
  have tok: "le_token (?g l) = le_token l" "le_resource (?g l) = le_resource l" for l using f by auto
  have dist: "distinct (map le_token (map ?g (lw_leases w)))"
    using inv tok by (simp add: lock_inv_def o_def)
  have "view r' (lock_key (le_resource l)) = Some (le_token (?g l), le_until (?g l))"
    if l: "l \<in> set (lw_leases w)" "in_force (lw_now w) (?g l)" for l
  proof (cases "le_resource l = resource")
    case True
    show ?thesis
    proof (cases "held_by resource token l")
      case h: True
      then show ?thesis using val [OF h] l(2) True tok [of l] view by (auto simp: held_by_def)
    next
      case False
      then have "live_value (lw_now w) (view (lw_redis w) (lock_key resource)) = Some (le_token l)"
        using in_force_value [OF inv l(1)] l(2) True by simp
      then show ?thesis using held False True by (simp add: held_by_def)
    qed
  next
    case False
    then have "\<not> held_by resource token l" by (simp add: held_by_def)
    then show ?thesis using inv l False view by (simp add: lock_inv_def)
  qed
  then have "view r' (lock_key (le_resource k)) = Some (le_token k, le_until k)"
    if "k \<in> ?g ` set (lw_leases w)" "in_force (lw_now w) k" for k
    using that tok by (metis (no_types, lifting) imageE)
  then show ?thesis using dist by (simp add: lock_inv_def)
qed

lemma lock_inv_release:
  assumes "redis_laws R view" "lock_inv view w"
  shows "lock_inv view (try_release R m resource token w)"
proof (cases "rd_get R (lw_now w) (lock_key resource) (lw_redis w) = Some token")
  case True
  obtain n r' where del: "rd_del R (lw_now w) (lock_key resource) (lw_redis w) = (n, r')"
    by (cases "rd_del R (lw_now w) (lock_key resource) (lw_redis w)")
  have held: "live_value (lw_now w) (view (lw_redis w) (lock_key resource)) = Some token"
    using True redis_getD [OF assms(1)] by simp
  have "n = 1" "view r' = (view (lw_redis w))(lock_key resource := None)"
    using redis_delD [OF assms(1) del held] by auto
  note inv = lock_inv_holder [OF assms(2) held this(2), of "\<lambda>l. l\<lparr>le_released := True\<rparr>"]
  have "lock_inv view (w\<lparr>lw_redis := r', lw_leases :=
      map (\<lambda>l. if held_by resource token l then l\<lparr>le_released := True\<rparr> else l) (lw_leases w)\<rparr>)"
    by (rule inv) (auto simp: in_force_def)
  then have "lock_inv view (w\<lparr>lw_redis := r', lw_deleted := (m, resource) # lw_deleted w, lw_leases :=
      map (\<lambda>l. if held_by resource token l then l\<lparr>le_released := True\<rparr> else l) (lw_leases w)\<rparr>)"
    by (rule lock_inv_frame) auto
  then show ?thesis using True \<open>n = 1\<close> by (simp add: try_release_def release_script_def del)
next
  case False
  then show ?thesis using assms(2) by (auto simp: try_release_def release_script_def intro: lock_inv_frame)
qed

lemma lock_inv_extended:
  assumes "redis_laws R view" "lock_inv view w"
  shows "lock_inv view (snd (extended R resource token ttl w))"
proof (cases "rd_get R (lw_now w) (lock_key resource) (lw_redis w) = Some token")
  case True
  obtain n r' where ex: "rd_expire R (lw_now w) (lock_key resource) ttl (lw_redis w) = (n, r')"
    by (cases "rd_expire R (lw_now w) (lock_key resource) ttl (lw_redis w)")
  have held: "live_value (lw_now w) (view (lw_redis w) (lock_key resource)) = Some token"
    using True redis_getD [OF assms(1)] by simp
  then have n: "n = 1" and view: "view r' = (view (lw_redis w))(lock_key resource :=
      (if ttl \<le> 0 then None else Some (token, lw_now w + of_int ttl)))"
    using redis_expireD [OF assms(1) ex held] by auto
  have "lock_inv view (w\<lparr>lw_redis := r', lw_leases :=
      map (\<lambda>l. if held_by resource token l then l\<lparr>le_until := lw_now w + of_int (max 0 ttl)\<rparr> else l) (lw_leases w)\<rparr>)"
    by (rule lock_inv_holder [OF assms(2) held view]) (auto simp: in_force_def max_def split: if_splits)
  then show ?thesis using True n by (simp add: extended_def extend_lock_def extend_script_def ex)
next
  case False
  then show ?thesis
    using assms(2) by (auto simp: extended_def extend_lock_def extend_script_def intro: lock_inv_frame)
qed

lemma lock_inv_step:
  assumes "redis_laws R view" "lock_inv view w" "lock_step R w w'"
  shows "lock_inv view w'"
  using assms(3)
proof (cases rule: lock_step.cases)
  case (tick dt)
  then show ?thesis using assms(2) by (auto simp: lock_inv_def in_force_def)
next
  case (attempt c)
  then show ?thesis using lock_inv_try [OF assms(1,2)] by simp
next
  case (acquired c)
  then show ?thesis using assms(2) by (auto simp: acquired_def intro: lock_inv_frame)
next
  case (release m resource token)
  then show ?thesis using lock_inv_release [OF assms(1,2)] by simp
next
  case (released c)
  then show ?thesis using assms(2) by (cases c) (auto simp: released_def intro: lock_inv_frame)
next
  case (extend resource token ttl)
  then show ?thesis using lock_inv_extended [OF assms(1,2)] by simp
next
  case (renew c)
  then show ?thesis
    using lock_inv_extended [OF assms(1,2), of "wd_resource c" "wd_token c" "wd_ttl c"]
    by (auto simp: renew_def intro: lock_inv_frame split: prod.split)
next
  case (disconnect m)
  then show ?thesis using assms(2) by (auto simp: disconnect_manager_def intro: lock_inv_frame)
qed

lemma lock_inv_reach:
  assumes "lock_reach R w" "redis_laws R view"
  shows "lock_inv view w"
  using assms
proof (induction rule: lock_reach.induct)
  case (init w)
  then show ?case by (simp add: lock_inv_def)
next
  case (step w w')
  then show ?case by (blast intro: lock_inv_step)
qed

text \<open>C26: Mutual exclusion of the locks: in every history of any number of managers over one Redis server, with
  acquisitions, renewals, releases with right and wrong tokens, extensions and disconnections interleaved in
  any order, at most one lease of a resource is in force: not given back, and its time to live since the grant
  or the last extension not over.\<close>

theorem lock_exclusive:
  assumes "redis_laws R view" "lock_reach R w" "a \<in> set (lw_leases w)" "b \<in> set (lw_leases w)"
    and "le_resource a = le_resource b" "in_force (lw_now w) a" "in_force (lw_now w) b"
  shows "a = b"
proof -
  have inv: "lock_inv view w" using assms(2,1) by (rule lock_inv_reach)
  then have "le_token a = le_token b"
    using in_force_value [OF inv assms(3,6)] in_force_value [OF inv assms(4,7)] assms(5) by simp
  then show ?thesis using token_lease_unique [OF inv assms(3,4)] by simp
qed

subsection \<open>Concrete instances\<close>

text \<open>A server whose state is the table of the keys with their deadlines.\<close>

definition demo_redis :: "(string \<Rightarrow> (string \<times> time) option) redis" where
  "demo_redis =
     \<lparr>rd_set_nx_ex = \<lambda>now k v ttl r.
        if ttl \<le> 0 then (None, r)
        else if live_value now (r k) = None then (Some True, r(k \<mapsto> (v, now + of_int ttl))) else (Some False, r),
      rd_get = \<lambda>now k r. live_value now (r k),
      rd_del = \<lambda>now k r. (if live_value now (r k) = None then 0 else 1, r(k := None)),
      rd_expire = \<lambda>now k ttl r.
        (case live_value now (r k) of
           None \<Rightarrow> (0, r)
         | Some v \<Rightarrow> (1, r(k := (if ttl \<le> 0 then None else Some (v, now + of_int ttl))))),
      rd_ttl = \<lambda>now k r. 0\<rparr>"

lemma demo_redis_laws: "redis_laws demo_redis (\<lambda>r. r)"
  by (auto simp: redis_laws_def demo_redis_def split: option.split if_splits)

definition demo_lock_world :: "(string \<Rightarrow> (string \<times> time) option) lock_world" where
  "demo_lock_world =
     \<lparr>lw_now = 0, lw_redis = (\<lambda>_. None), lw_tasks = (\<lambda>_. []), lw_running = [], lw_granted = [], lw_deleted = [], lw_leases = []\<rparr>"

abbreviation demo_call :: "string \<Rightarrow> watchdog" where
  "demo_call token \<equiv> \<lparr>wd_manager = 0, wd_resource = ''f'', wd_token = token, wd_ttl = 30\<rparr>"

definition demo_locked :: "(string \<Rightarrow> (string \<times> time) option) lock_world" where
  "demo_locked = acquired (demo_call ''a'') (try_acquire demo_redis (demo_call ''a'') demo_lock_world)"

lemma demo_granted: "lw_granted (try_acquire demo_redis (demo_call ''a'') demo_lock_world) = [demo_call ''a'']"
  by (simp add: try_acquire_def demo_redis_def demo_lock_world_def live_value_def)

lemma demo_locked_reach: "lock_reach demo_redis demo_locked"
  unfolding demo_locked_def
proof (rule lock_reach.step [OF lock_reach.step [OF lock_reach.init]])
  show "lw_leases demo_lock_world = []" by (simp add: demo_lock_world_def)
  show "lock_step demo_redis demo_lock_world (try_acquire demo_redis (demo_call ''a'') demo_lock_world)"
    by (rule lock_step.attempt) (simp add: demo_lock_world_def)
  show "lock_step demo_redis (try_acquire demo_redis (demo_call ''a'') demo_lock_world)
     (acquired (demo_call ''a'') (try_acquire demo_redis (demo_call ''a'') demo_lock_world))"
    by (rule lock_step.acquired) (simp add: demo_granted)
qed

text \<open>A second lease, granted when the first was given back, is the one in force.\<close>

definition demo_relocked :: "(string \<Rightarrow> (string \<times> time) option) lock_world" where
  "demo_relocked =
     acquired (demo_call ''b'') (try_acquire demo_redis (demo_call ''b'') (try_release demo_redis 0 ''f'' ''a'' demo_locked))"

lemmas demo_lock_simps = demo_relocked_def demo_locked_def acquired_def try_acquire_def try_release_def release_script_def
  demo_redis_def demo_lock_world_def live_value_def lock_key_def held_by_def in_force_def

lemma demo_relocked_reach: "lock_reach demo_redis demo_relocked"
proof -
  let ?w = "try_release demo_redis 0 ''f'' ''a'' demo_locked"
  have "lock_reach demo_redis ?w" by (rule lock_reach.step [OF demo_locked_reach lock_step.release])
  then have "lock_reach demo_redis (try_acquire demo_redis (demo_call ''b'') ?w)"
    by (rule lock_reach.step) (rule lock_step.attempt, simp add: demo_lock_simps)
  then show ?thesis
    unfolding demo_relocked_def by (rule lock_reach.step) (rule lock_step.acquired, simp add: demo_lock_simps)
qed

lemma lock_exclusive_witness:
  "\<exists>l. l \<in> set (lw_leases demo_relocked) \<and> in_force (lw_now demo_relocked) l \<and> le_token l = ''b''
     \<and> (\<forall>k. \<not> (k \<in> set (lw_leases demo_relocked) \<and> le_resource k = ''f'' \<and> in_force (lw_now demo_relocked) k \<and> k \<noteq> l))"
proof -
  let ?l = "\<lparr>le_resource = ''f'', le_token = ''b'', le_until = 30, le_released = False\<rparr>"
  have l: "?l \<in> set (lw_leases demo_relocked)" "in_force (lw_now demo_relocked) ?l"
    by (simp_all add: demo_lock_simps)
  have "k = ?l" if "k \<in> set (lw_leases demo_relocked)" "le_resource k = ''f''" "in_force (lw_now demo_relocked) k" for k
    using lock_exclusive [OF demo_redis_laws demo_relocked_reach that(1) l(1) _ that(3) l(2)] that(2) by simp
  moreover have "le_token ?l = ''b''" by simp
  ultimately show ?thesis using l by blast
qed

text \<open>
  The watchdog of a new holder can be cancelled by the release before it: when the answer to the release is
  handled after the lock was taken again, \<open>release\<close> removes the entry that the new holder has just made and cancels its
  watchdog. The lock then expires while it is held.
\<close>

lemma late_release_cancels_new_watchdog:
  "lw_running demo_relocked = [demo_call ''b'', demo_call ''a'']"
  "lw_deleted demo_relocked = [(0, ''f'')]"
  "lw_running (released (0, ''f'') demo_relocked) = [demo_call ''a'']"
  "rd_get demo_redis 0 (lock_key ''f'') (lw_redis (released (0, ''f'') demo_relocked)) = Some ''b''"
  by (simp_all add: demo_lock_simps released_def)

text \<open>With a time to live of one second the watchdog wakes up when the lock is already over.\<close>

lemma short_lock_not_renewed:
  assumes "redis_laws R view" "view r (lock_key resource) = Some (token, t + of_int 1)" "renew_interval 1 = i"
  shows "fst (extend_lock R (t + of_int i) resource token 1 r) = False"
  using assms by (simp add: renew_interval_def extend_lock_def extend_script_def redis_getD live_value_def)

end
