(* ===== verification/PatchApply.thy ===== *)
theory PatchApply
  imports Prelude
begin

text \<open>
  \<open>app/patch_apply.py\<close>: parsing, validation and application of unified diffs. The parser is the library
  \<open>unidiff\<close>, an argument (\<open>None\<close>: it raises). A hunk is the library's: its four numbers and its lines with their
  values. The texts of the errors are the constructors with their data.
\<close>

datatype diff_line =
    Added string
  | Removed string
  | Context string
  | NoNewline string

record hunk =
  hk_source_start :: nat
  hk_source_length :: nat
  hk_target_start :: nat
  hk_target_length :: nat
  hk_lines :: "diff_line list"

record patched_file =
  pf_source_file :: string
  pf_target_file :: string
  pf_is_rename :: bool
  pf_is_copy :: bool
  pf_is_device_file :: bool
  pf_added :: nat
  pf_removed :: nat
  pf_hunks :: "hunk list"

type_synonym unidiff = "string \<Rightarrow> patched_file list option"

record file_info =
  fi_path :: string
  fi_hunks :: "hunk list"
  fi_hunk_count :: nat
  fi_is_rename :: bool
  fi_is_copy :: bool
  fi_is_delete :: bool
  fi_is_device_file :: bool
  fi_added :: nat
  fi_removed :: nat

datatype patch_error =
    PatchParseError
  | TooManyFiles nat
  | TooManyHunks nat
  | PatchTooLarge nat
  | RenameNotSupported
  | DevNullNotSupported
  | HashMismatchError string string string
  | LineOutOfRange string nat nat
  | ContextMismatch string nat string string
  | EscapesRoot string
  | FileTooLarge string nat
  | DeleteMissing string

definition MAX_FILES :: nat where
  "MAX_FILES = 20"

definition MAX_HUNKS :: nat where
  "MAX_HUNKS = 100"

definition MAX_PATCH_SIZE :: nat where
  "MAX_PATCH_SIZE = 1048576"

definition MAX_FILE_SIZE :: nat where
  "MAX_FILE_SIZE = 10 * 1024 * 1024"

definition strip_path :: "nat \<Rightarrow> string \<Rightarrow> string" where
  "strip_path n source_file =
     (let parts = split_char CHR ''/'' source_file in
      if 0 < n \<and> n < length parts then py_join ''/'' (drop n parts)
      else if startswith source_file ''a/'' then drop 2 source_file
      else source_file)"

definition parse_file :: "nat \<Rightarrow> patched_file \<Rightarrow> file_info" where
  "parse_file n pf =
     \<lparr>fi_path = strip_path n (pf_source_file pf), fi_hunks = pf_hunks pf, fi_hunk_count = length (pf_hunks pf),
      fi_is_rename = pf_is_rename pf, fi_is_copy = pf_is_copy pf, fi_is_delete = (pf_target_file pf = ''/dev/null''),
      fi_is_device_file = pf_is_device_file pf, fi_added = pf_added pf, fi_removed = pf_removed pf\<rparr>"

definition parse_patch :: "unidiff \<Rightarrow> string \<Rightarrow> nat \<Rightarrow> patch_error + file_info list" where
  "parse_patch unidiff patch_text n =
     (case unidiff patch_text of
        None \<Rightarrow> Inl PatchParseError
      | Some pfs \<Rightarrow> Inr (map (parse_file n) pfs))"

definition validate_file_count :: "nat \<Rightarrow> patch_error option" where
  "validate_file_count n = (if MAX_FILES < n then Some (TooManyFiles n) else None)"

definition validate_hunk_count :: "nat \<Rightarrow> patch_error option" where
  "validate_hunk_count n = (if MAX_HUNKS < n then Some (TooManyHunks n) else None)"

definition validate_patch_size :: "nat \<Rightarrow> patch_error option" where
  "validate_patch_size n = (if MAX_PATCH_SIZE < n then Some (PatchTooLarge n) else None)"

fun validate_no_forbidden_ops :: "file_info list \<Rightarrow> patch_error option" where
  "validate_no_forbidden_ops [] = None"
| "validate_no_forbidden_ops (f # fs) =
     (if fi_is_rename f then Some RenameNotSupported
      else if fi_is_copy f then Some RenameNotSupported
      else if fi_is_device_file f then Some DevNullNotSupported
      else if fi_path f = ''/dev/null'' \<or> endswith (fi_path f) ''/dev/null'' then Some DevNullNotSupported
      else validate_no_forbidden_ops fs)"

definition compute_sha256 :: "(string \<Rightarrow> string) \<Rightarrow> string \<Rightarrow> string" where
  "compute_sha256 sha256 content = ''sha256:'' @ sha256 content"

definition check_hash :: "(string \<Rightarrow> string) \<Rightarrow> string \<Rightarrow> string \<Rightarrow> string \<Rightarrow> patch_error option" where
  "check_hash sha256 path content expected =
     (let actual = compute_sha256 sha256 content in
      if actual \<noteq> expected then Some (HashMismatchError path expected actual) else None)"

text \<open>\<open>s.rstrip("\n")\<close>\<close>

definition chomp :: "string \<Rightarrow> string" where
  "chomp s = rev (dropWhile (\<lambda>c. c = newline) (rev s))"

definition check_line_matches :: "string \<Rightarrow> string list \<Rightarrow> nat \<Rightarrow> string \<Rightarrow> patch_error option" where
  "check_line_matches path lines source_idx expected =
     (if length lines \<le> source_idx then Some (LineOutOfRange path (source_idx + 1) (length lines))
      else if chomp (lines ! source_idx) \<noteq> chomp expected
      then Some (ContextMismatch path (source_idx + 1) (chomp expected) (chomp (lines ! source_idx)))
      else None)"

text \<open>The lines of the result so far and the index of the next source line.\<close>

fun apply_line :: "string \<Rightarrow> string list \<Rightarrow> diff_line \<Rightarrow> string list \<times> nat \<Rightarrow> patch_error + string list \<times> nat" where
  "apply_line path lines (Added v) (out, idx) = Inr (out @ [v], idx)"
| "apply_line path lines (Removed v) (out, idx) =
     (case check_line_matches path lines idx v of Some e \<Rightarrow> Inl e | None \<Rightarrow> Inr (out, idx + 1))"
| "apply_line path lines (Context v) (out, idx) =
     (case check_line_matches path lines idx v of Some e \<Rightarrow> Inl e | None \<Rightarrow> Inr (out @ [v], idx + 1))"
| "apply_line path lines (NoNewline v) (out, idx) = Inr (out, idx)"

fun apply_lines :: "string \<Rightarrow> string list \<Rightarrow> diff_line list \<Rightarrow> string list \<times> nat \<Rightarrow> patch_error + string list \<times> nat" where
  "apply_lines path lines [] st = Inr st"
| "apply_lines path lines (l # ls) st =
     (case apply_line path lines l st of Inl e \<Rightarrow> Inl e | Inr st' \<Rightarrow> apply_lines path lines ls st')"

text \<open>The lines before the hunk, then its lines.\<close>

definition apply_hunk :: "string \<Rightarrow> string list \<Rightarrow> hunk \<Rightarrow> string list \<times> nat \<Rightarrow> patch_error + string list \<times> nat" where
  "apply_hunk path lines h st =
     (case st of (out, idx) \<Rightarrow>
        let upto = max idx (min (hk_source_start h - 1) (length lines)) in
        apply_lines path lines (hk_lines h) (out @ take (upto - idx) (drop idx lines), upto))"

fun apply_hunks :: "string \<Rightarrow> string list \<Rightarrow> hunk list \<Rightarrow> string list \<times> nat \<Rightarrow> patch_error + string list" where
  "apply_hunks path lines [] (out, idx) = Inr (out @ drop idx lines)"
| "apply_hunks path lines (h # hs) st =
     (case apply_hunk path lines h st of Inl e \<Rightarrow> Inl e | Inr st' \<Rightarrow> apply_hunks path lines hs st')"

fun line_text :: "diff_line \<Rightarrow> string" where
  "line_text (Added v) = CHR ''+'' # v"
| "line_text (Removed v) = CHR ''-'' # v"
| "line_text (Context v) = CHR '' '' # v"
| "line_text (NoNewline v) = bslash # v"

definition hunk_text :: "hunk \<Rightarrow> string list" where
  "hunk_text h =
     (''@@ -'' @ nat_str (hk_source_start h) @ '','' @ nat_str (hk_source_length h) @ '' +'' @ nat_str (hk_target_start h)
        @ '','' @ nat_str (hk_target_length h) @ '' @@'') # map (chomp \<circ> line_text) (hk_lines h)"

definition rebuild_patch_for_file :: "file_info \<Rightarrow> string" where
  "rebuild_patch_for_file f =
     py_join [newline] ([''--- a/'' @ fi_path f, ''+++ b/'' @ fi_path f] @ concat (map hunk_text (fi_hunks f))) @ [newline]"

text \<open>\<open>splitlines(keepends=True)\<close> on ASCII boundaries; \<open>cur\<close> is the line read so far, reversed.\<close>

fun splitlines_keep_from :: "string \<Rightarrow> string \<Rightarrow> string list" where
  "splitlines_keep_from cur [] = (if cur = [] then [] else [rev cur])"
| "splitlines_keep_from cur [c] = [rev (c # cur)]"
| "splitlines_keep_from cur (c # d # cs) =
     (if c = CHR 0x0D \<and> d = newline then rev (d # c # cur) # splitlines_keep_from [] cs
      else if line_break c then rev (c # cur) # splitlines_keep_from [] (d # cs)
      else splitlines_keep_from (c # cur) (d # cs))"

definition splitlines_keep :: "string \<Rightarrow> string list" where
  "splitlines_keep s = splitlines_keep_from [] s"

definition apply_in_memory :: "unidiff \<Rightarrow> string \<Rightarrow> file_info \<Rightarrow> patch_error + string" where
  "apply_in_memory unidiff original f =
     (case unidiff (rebuild_patch_for_file f) of
        None \<Rightarrow> Inl PatchParseError
      | Some [] \<Rightarrow> Inr original
      | Some (pf # _) \<Rightarrow>
          map_sum id concat (apply_hunks (fi_path f) (splitlines_keep original) (pf_hunks pf) ([], 0)))"

subsection \<open>What a hunk says\<close>

fun source_of :: "diff_line list \<Rightarrow> string list" where
  "source_of [] = []"
| "source_of (Removed v # ls) = v # source_of ls"
| "source_of (Context v # ls) = v # source_of ls"
| "source_of (_ # ls) = source_of ls"

fun target_of :: "diff_line list \<Rightarrow> string list" where
  "target_of [] = []"
| "target_of (Added v # ls) = v # target_of ls"
| "target_of (Context v # ls) = v # target_of ls"
| "target_of (_ # ls) = target_of ls"

text \<open>The lines of the file from \<open>idx\<close> on are, up to final newlines, the ones the hunk expects.\<close>

definition matches_at :: "string list \<Rightarrow> nat \<Rightarrow> string list \<Rightarrow> bool" where
  "matches_at lines idx src \<longleftrightarrow>
     idx + length src \<le> length lines \<and> (\<forall>i < length src. chomp (lines ! (idx + i)) = chomp (src ! i))"

lemma matches_at_Nil [simp]: "matches_at lines idx [] \<longleftrightarrow> idx \<le> length lines"
  by (simp add: matches_at_def)

lemma matches_at_Cons:
  "matches_at lines idx (v # src) \<longleftrightarrow>
     idx < length lines \<and> chomp (lines ! idx) = chomp v \<and> matches_at lines (Suc idx) src"
  by (auto simp: matches_at_def less_Suc_eq_0_disj nth_Cons split: nat.split)

lemma apply_lines_consume:
  "apply_lines path lines (Removed v # ls) (out, idx) = Inr st \<longleftrightarrow>
     idx < length lines \<and> chomp (lines ! idx) = chomp v \<and> apply_lines path lines ls (out, Suc idx) = Inr st"
  "apply_lines path lines (Context v # ls) (out, idx) = Inr st \<longleftrightarrow>
     idx < length lines \<and> chomp (lines ! idx) = chomp v \<and> apply_lines path lines ls (out @ [v], Suc idx) = Inr st"
  by (auto simp: check_line_matches_def)

lemma apply_lines_Inr:
  assumes "idx \<le> length lines"
  shows "apply_lines path lines ls (out, idx) = Inr st \<longleftrightarrow>
    matches_at lines idx (source_of ls) \<and> st = (out @ target_of ls, idx + length (source_of ls))"
  using assms
proof (induction ls arbitrary: out idx)
  case Nil
  then show ?case by auto
next
  case (Cons l ls)
  show ?case
  proof (cases l)
    case (Removed v)
    then show ?thesis
      using Cons.IH [of "Suc idx"] unfolding Removed apply_lines_consume
      by (cases "idx < length lines") (simp_all add: matches_at_Cons Suc_le_eq)
  next
    case (Context v)
    then show ?thesis
      using Cons.IH [of "Suc idx"] unfolding Context apply_lines_consume
      by (cases "idx < length lines") (simp_all add: matches_at_Cons Suc_le_eq)
  qed (use Cons in auto)
qed

text \<open>
  The contract of a patch over lines: between the hunks the lines of the file are kept, and each hunk
  stands at its line, or where the one before it ended, and replaces the lines it expects.
\<close>

definition hunk_place :: "string list \<Rightarrow> nat \<Rightarrow> hunk \<Rightarrow> nat" where
  "hunk_place lines idx h = max idx (min (hk_source_start h - 1) (length lines))"

fun patched :: "string list \<Rightarrow> nat \<Rightarrow> hunk list \<Rightarrow> string list option" where
  "patched lines idx [] = Some (drop idx lines)"
| "patched lines idx (h # hs) =
     (let s = hunk_place lines idx h; src = source_of (hk_lines h) in
      if matches_at lines s src then
        map_option (\<lambda>rest. take (s - idx) (drop idx lines) @ target_of (hk_lines h) @ rest)
          (patched lines (s + length src) hs)
      else None)"

lemma hunk_place_le: "idx \<le> length lines \<Longrightarrow> hunk_place lines idx h \<le> length lines"
  by (simp add: hunk_place_def)

lemma apply_hunks_patched:
  assumes "idx \<le> length lines"
  shows "apply_hunks path lines hs (out, idx) = Inr res \<longleftrightarrow> (\<exists>rest. patched lines idx hs = Some rest \<and> res = out @ rest)"
  using assms
proof (induction hs arbitrary: out idx)
  case (Cons h hs)
  let ?s = "hunk_place lines idx h"
  have s: "?s \<le> length lines" using Cons.prems by (rule hunk_place_le)
  have hunk: "apply_hunk path lines h (out, idx) = Inr st \<longleftrightarrow> matches_at lines ?s (source_of (hk_lines h))
      \<and> st = (out @ take (?s - idx) (drop idx lines) @ target_of (hk_lines h), ?s + length (source_of (hk_lines h)))" for st
    using apply_lines_Inr [OF s, of path "hk_lines h" "out @ take (?s - idx) (drop idx lines)" st]
    by (simp add: apply_hunk_def Let_def hunk_place_def)
  show ?case
  proof (cases "matches_at lines ?s (source_of (hk_lines h))")
    case True
    then have le: "?s + length (source_of (hk_lines h)) \<le> length lines" by (simp add: matches_at_def)
    have "apply_hunk path lines h (out, idx) =
        Inr (out @ take (?s - idx) (drop idx lines) @ target_of (hk_lines h), ?s + length (source_of (hk_lines h)))"
      using hunk True by blast
    then show ?thesis using True Cons.IH [OF le] by (auto simp: Let_def)
  next
    case False
    then have "\<exists>e. apply_hunk path lines h (out, idx) = Inl e"
      using hunk by (cases "apply_hunk path lines h (out, idx)") auto
    then show ?thesis using False by (auto simp: Let_def)
  qed
qed auto

text \<open>The patch that takes the changes back.\<close>

fun reverse_line :: "diff_line \<Rightarrow> diff_line" where
  "reverse_line (Added v) = Removed v"
| "reverse_line (Removed v) = Added v"
| "reverse_line l = l"

definition reverse_hunk :: "hunk \<Rightarrow> hunk" where
  "reverse_hunk h =
     \<lparr>hk_source_start = hk_target_start h, hk_source_length = hk_target_length h, hk_target_start = hk_source_start h,
      hk_target_length = hk_source_length h, hk_lines = map reverse_line (hk_lines h)\<rparr>"

definition reverse_file :: "file_info \<Rightarrow> file_info" where
  "reverse_file f = f\<lparr>fi_hunks := map reverse_hunk (fi_hunks f)\<rparr>"

lemma source_of_reverse: "source_of (map reverse_line ls) = target_of ls"
  "target_of (map reverse_line ls) = source_of ls"
proof -
  show "source_of (map reverse_line ls) = target_of ls"
  proof (induction ls)
    case (Cons l ls)
    then show ?case by (cases l) auto
  qed simp
  show "target_of (map reverse_line ls) = source_of ls"
  proof (induction ls)
    case (Cons l ls)
    then show ?case by (cases l) auto
  qed simp
qed

text \<open>
  A diff of a file: the hunks follow each other, each at the line its header names, in the file and in the
  result, and the lines it removes or keeps are the file's.
\<close>

fun hunks_fit :: "string list \<Rightarrow> nat \<Rightarrow> nat \<Rightarrow> hunk list \<Rightarrow> bool" where
  "hunks_fit lines idx pos [] \<longleftrightarrow> True"
| "hunks_fit lines idx pos (h # hs) \<longleftrightarrow>
     (let s = hk_source_start h - 1; t = hk_target_start h - 1; src = source_of (hk_lines h) in
      idx \<le> s \<and> s \<le> length lines \<and> t = pos + (s - idx) \<and> take (length src) (drop s lines) = src
      \<and> hunks_fit lines (s + length src) (t + length (target_of (hk_lines h))) hs)"

lemma matches_at_exact:
  assumes "take (length src) (drop s lines) = src" "s \<le> length lines"
  shows "matches_at lines s src"
proof -
  have len: "length src \<le> length lines - s" using arg_cong [OF assms(1), of length] by simp
  have "lines ! (s + i) = src ! i" if "i < length src" for i
  proof -
    have "src ! i = take (length src) (drop s lines) ! i" using assms(1) by simp
    also have "\<dots> = lines ! (s + i)" using that len by simp
    finally show ?thesis by simp
  qed
  then show ?thesis using len assms(2) by (simp add: matches_at_def)
qed

lemma patched_fits:
  assumes "hunks_fit lines idx pos hs"
  shows "\<exists>rest. patched lines idx hs = Some rest"
  using assms
proof (induction hs arbitrary: idx pos)
  case (Cons h hs)
  let ?src = "source_of (hk_lines h)" and ?s = "hk_source_start h - 1"
  have fit: "idx \<le> ?s" "?s \<le> length lines" "take (length ?src) (drop ?s lines) = ?src"
    "hunks_fit lines (?s + length ?src) (hk_target_start h - 1 + length (target_of (hk_lines h))) hs"
    using Cons.prems unfolding hunks_fit.simps Let_def by blast+
  have place: "hunk_place lines idx h = ?s" using fit(1,2) by (simp add: hunk_place_def)
  obtain rest where "patched lines (?s + length ?src) hs = Some rest" using Cons.IH [OF fit(4)] by blast
  then show ?case using matches_at_exact [OF fit(3,2)] unfolding patched.simps Let_def place by simp
qed simp

lemma patched_reverse:
  assumes "hunks_fit lines idx pos hs" "patched lines idx hs = Some rest" "length pre = pos" "idx \<le> length lines"
  shows "patched (pre @ rest) pos (map reverse_hunk hs) = Some (drop idx lines)"
  using assms
proof (induction hs arbitrary: idx pos pre rest)
  case (Cons h hs)
  define s where "s = hk_source_start h - 1"
  define t where "t = hk_target_start h - 1"
  let ?src = "source_of (hk_lines h)" and ?tgt = "target_of (hk_lines h)"
  have fit: "idx \<le> s" "s \<le> length lines" "t = pos + (s - idx)" "take (length ?src) (drop s lines) = ?src"
    "hunks_fit lines (s + length ?src) (t + length ?tgt) hs"
    using Cons.prems(1) unfolding hunks_fit.simps Let_def s_def t_def by blast+
  have place: "hunk_place lines idx h = s" using fit(1,2) by (simp add: hunk_place_def s_def)
  have le: "s + length ?src \<le> length lines" using matches_at_exact [OF fit(4,2)] by (simp add: matches_at_def)
  obtain rest' where rest: "patched lines (s + length ?src) hs = Some rest'"
      "rest = take (s - idx) (drop idx lines) @ ?tgt @ rest'"
    using Cons.prems(2) by (auto simp: Let_def place split: if_splits)
  let ?mid = "take (s - idx) (drop idx lines)"
  have mid: "length ?mid = s - idx" using fit(1,2) by simp
  have IH: "patched ((pre @ ?mid @ ?tgt) @ rest') (t + length ?tgt) (map reverse_hunk hs) = Some (drop (s + length ?src) lines)"
    using Cons.prems(3) fit(1-3) mid le by (intro Cons.IH [OF fit(5) rest(1)]) simp_all
  have rplace: "hunk_place (pre @ rest) pos (reverse_hunk h) = t"
  proof -
    have "hk_source_start (reverse_hunk h) - 1 = t" by (simp add: reverse_hunk_def t_def)
    moreover have "pos \<le> t" "t \<le> length (pre @ rest)" using Cons.prems(3) fit(3) mid rest(2) by simp_all
    ultimately show ?thesis unfolding hunk_place_def by simp
  qed
  have at_t: "drop t (pre @ rest) = ?tgt @ rest'" using Cons.prems(3) fit(3) mid rest(2) by simp
  have match: "matches_at (pre @ rest) t ?tgt"
    by (rule matches_at_exact) (use at_t Cons.prems(3) fit(3) mid rest(2) in simp_all)
  have before: "take (t - pos) (drop pos (pre @ rest)) = ?mid" using Cons.prems(3) fit(3) mid rest(2) by simp
  have glue: "?mid @ ?src @ drop (s + length ?src) lines = drop idx lines"
  proof -
    have "?src @ drop (s + length ?src) lines = drop s lines"
      using fit(4) by (metis append_take_drop_id drop_drop add.commute)
    moreover have "?mid @ drop s lines = drop idx lines"
      using fit(1) by (metis append_take_drop_id drop_drop le_add_diff_inverse2)
    ultimately show ?thesis by simp
  qed
  have lines: "source_of (hk_lines (reverse_hunk h)) = ?tgt" "target_of (hk_lines (reverse_hunk h)) = ?src"
    by (simp_all add: reverse_hunk_def source_of_reverse)
  have "patched (pre @ rest) (t + length ?tgt) (map reverse_hunk hs) = Some (drop (s + length ?src) lines)"
    using IH by (simp add: rest(2))
  then show ?case
    by (simp only: list.map patched.simps Let_def rplace lines match before if_True option.map glue)
qed simp

subsection \<open>Texts\<close>

text \<open>A line as diffs have them: it ends with a line feed and holds no other line boundary.\<close>

definition proper_line :: "string \<Rightarrow> bool" where
  "proper_line l \<longleftrightarrow> l \<noteq> [] \<and> last l = newline \<and> list_all (\<lambda>c. \<not> line_break c) (butlast l)"

lemma newline_break [simp]: "line_break newline"
  by (simp add: line_break_def newline_def)

lemma splitlines_keep_body:
  assumes "list_all (\<lambda>c. \<not> line_break c) b"
  shows "splitlines_keep_from cur (b @ newline # rest) = rev (newline # rev b @ cur) # splitlines_keep rest"
  using assms
proof (induction b arbitrary: cur)
  case Nil
  then show ?case
    by (cases rest) (auto simp: splitlines_keep_def newline_def line_break_def)
next
  case (Cons c b)
  have "c \<noteq> CHR 0x0D" using Cons.prems by (auto simp: line_break_def)
  then show ?case using Cons by (cases b) auto
qed

lemma splitlines_keep_concat: "list_all proper_line ls \<Longrightarrow> splitlines_keep (concat ls) = ls"
proof (induction ls)
  case Nil
  then show ?case by (simp add: splitlines_keep_def)
next
  case (Cons l ls)
  then have l: "l = butlast l @ [newline]" "list_all (\<lambda>c. \<not> line_break c) (butlast l)"
    using append_butlast_last_id [of l] by (auto simp: proper_line_def)
  have "splitlines_keep (concat (l # ls)) = splitlines_keep_from [] (butlast l @ newline # concat ls)"
    using l(1) by (metis append.assoc append_Cons append_Nil concat.simps(2) splitlines_keep_def)
  also have "\<dots> = l # splitlines_keep (concat ls)"
    using l(1) by (simp add: splitlines_keep_body [OF l(2)])
  finally show ?case using Cons by simp
qed

lemma concat_splitlines_from: "concat (splitlines_keep_from cur s) = rev cur @ s"
  by (induction cur s rule: splitlines_keep_from.induct) auto

lemma concat_splitlines: "concat (splitlines_keep s) = s"
  by (simp add: splitlines_keep_def concat_splitlines_from)

fun added_of :: "diff_line list \<Rightarrow> string list" where
  "added_of [] = []"
| "added_of (Added v # ls) = v # added_of ls"
| "added_of (_ # ls) = added_of ls"

lemma target_lines: "set (target_of ls) \<subseteq> set (added_of ls) \<union> set (source_of ls)"
proof (induction ls)
  case (Cons l ls)
  then show ?case by (cases l) auto
qed simp

lemma patched_lines:
  assumes "hunks_fit lines idx pos hs" "patched lines idx hs = Some rest"
  shows "set rest \<subseteq> set lines \<union> (\<Union>h \<in> set hs. set (added_of (hk_lines h)))"
  using assms
proof (induction hs arbitrary: idx pos rest)
  case Nil
  then show ?case using set_drop_subset by fastforce
next
  case (Cons h hs)
  let ?src = "source_of (hk_lines h)" and ?s = "hunk_place lines idx h"
  have src: "set ?src \<subseteq> set lines"
  proof -
    have "take (length ?src) (drop (hk_source_start h - 1) lines) = ?src"
      using Cons.prems(1) by (simp add: Let_def)
    then show ?thesis by (metis set_drop_subset set_take_subset subset_trans)
  qed
  have place: "?s = hk_source_start h - 1" using Cons.prems(1) by (auto simp: hunk_place_def Let_def)
  obtain rest' where rest: "patched lines (?s + length ?src) hs = Some rest'"
      "rest = take (?s - idx) (drop idx lines) @ target_of (hk_lines h) @ rest'"
    using Cons.prems(2) by (auto simp: Let_def split: if_splits)
  have "set rest' \<subseteq> set lines \<union> (\<Union>h \<in> set hs. set (added_of (hk_lines h)))"
  proof -
    have "hunks_fit lines (hk_source_start h - 1 + length ?src) (hk_target_start h - 1 + length (target_of (hk_lines h))) hs"
      using Cons.prems(1) unfolding hunks_fit.simps Let_def by blast
    from Cons.IH [OF this] show ?thesis using rest(1) place by simp
  qed
  moreover have "set (take (?s - idx) (drop idx lines)) \<subseteq> set lines"
    by (metis set_drop_subset set_take_subset subset_trans)
  moreover have "set (target_of (hk_lines h)) \<subseteq> set lines \<union> set (added_of (hk_lines h))"
    using target_lines [of "hk_lines h"] src by blast
  ultimately show ?case unfolding rest(2) by auto
qed

text \<open>The parser reads the text that is rebuilt for a file as the hunks it was rebuilt from.\<close>

definition reads_back :: "unidiff \<Rightarrow> file_info \<Rightarrow> bool" where
  "reads_back unidiff f \<longleftrightarrow> (\<exists>pf pfs. unidiff (rebuild_patch_for_file f) = Some (pf # pfs) \<and> pf_hunks pf = fi_hunks f)"

lemma apply_in_memory_patched:
  assumes "reads_back unidiff f"
  shows "apply_in_memory unidiff original f = Inr new \<longleftrightarrow>
    (\<exists>ls. patched (splitlines_keep original) 0 (fi_hunks f) = Some ls \<and> new = concat ls)"
proof -
  obtain pf pfs where "unidiff (rebuild_patch_for_file f) = Some (pf # pfs)" "pf_hunks pf = fi_hunks f"
    using assms unfolding reads_back_def by blast
  then have "apply_in_memory unidiff original f =
      map_sum id concat (apply_hunks (fi_path f) (splitlines_keep original) (fi_hunks f) ([], 0))"
    by (simp add: apply_in_memory_def)
  moreover have "map_sum id concat x = Inr new \<longleftrightarrow> (\<exists>ls. x = Inr ls \<and> new = concat ls)" for x :: "patch_error + string list"
    by (cases x) auto
  moreover have "apply_hunks (fi_path f) (splitlines_keep original) (fi_hunks f) ([], 0) = Inr ls \<longleftrightarrow>
      patched (splitlines_keep original) 0 (fi_hunks f) = Some ls" for ls
    using apply_hunks_patched [of 0 "splitlines_keep original" "fi_path f" "fi_hunks f" "[]" ls] by simp
  ultimately show ?thesis by simp
qed

text \<open>C34: A patch can be taken back: when the hunks of a file are a diff of its text (each at the line its header names,
  with the lines it removes and keeps) and all lines end with a line feed, applying it succeeds, and applying
  the reversed hunks to the result gives back the original text, byte for byte.\<close>

theorem patch_reverse_round_trip:
  assumes "reads_back unidiff f" "reads_back unidiff (reverse_file f)"
    and "hunks_fit (splitlines_keep original) 0 0 (fi_hunks f)"
    and "list_all proper_line (splitlines_keep original)"
    and "\<forall>h \<in> set (fi_hunks f). list_all proper_line (added_of (hk_lines h))"
  shows "\<exists>new. apply_in_memory unidiff original f = Inr new
    \<and> apply_in_memory unidiff new (reverse_file f) = Inr original"
proof -
  let ?lines = "splitlines_keep original"
  obtain ls where ls: "patched ?lines 0 (fi_hunks f) = Some ls"
    using patched_fits [OF assms(3)] by blast
  have "list_all proper_line ls"
    using patched_lines [OF assms(3) ls] assms(4,5) by (fastforce simp: list_all_iff)
  then have split: "splitlines_keep (concat ls) = ls" by (rule splitlines_keep_concat)
  have "patched ls 0 (map reverse_hunk (fi_hunks f)) = Some ?lines"
    using patched_reverse [OF assms(3) ls, of "[]"] by simp
  then have "apply_in_memory unidiff (concat ls) (reverse_file f) = Inr original"
    unfolding apply_in_memory_patched [OF assms(2)] split
    by (simp add: reverse_file_def concat_splitlines)
  moreover have "apply_in_memory unidiff original f = Inr (concat ls)"
    unfolding apply_in_memory_patched [OF assms(1)] using ls by blast
  ultimately show ?thesis by blast
qed

text \<open>Nothing is changed silently: where a hunk does not match, the patch of the file is refused.\<close>

lemma mismatch_refused:
  assumes "reads_back unidiff f" "patched (splitlines_keep original) 0 (fi_hunks f) = None"
  shows "\<exists>e. apply_in_memory unidiff original f = Inl e"
  using apply_in_memory_patched [OF assms(1), of original] assms(2)
  by (cases "apply_in_memory unidiff original f") auto

text \<open>
  A hunk with an empty source names the line it follows; the loop stops one line early and inserts before that line.
\<close>

lemma insertion_before_its_line:
  "apply_hunks path [''a'', ''b''] [\<lparr>hk_source_start = 2, hk_source_length = 0, hk_target_start = 3, hk_target_length = 1,
      hk_lines = [Added ''x'']\<rparr>] ([], 0) = Inr [''a'', ''x'', ''b'']"
  by (simp add: apply_hunk_def)

text \<open>The source of a patch that creates a file is \<open>/dev/null\<close>; with one component stripped it is not recognized.\<close>

lemma new_file_path_stripped:
  "strip_path 1 ''/dev/null'' = ''dev/null''" "strip_path 2 ''/dev/null'' = ''null''"
  "validate_no_forbidden_ops [f\<lparr>fi_path := strip_path 1 ''/dev/null'', fi_is_rename := False, fi_is_copy := False,
     fi_is_device_file := False\<rparr>] = None"
  by (simp_all add: strip_path_def endswith_def)

subsection \<open>A concrete patch\<close>

definition demo_hunk :: hunk where
  "demo_hunk = \<lparr>hk_source_start = 1, hk_source_length = 2, hk_target_start = 1, hk_target_length = 2,
     hk_lines = [Context [CHR ''a'', newline], Removed [CHR ''b'', newline], Added [CHR ''c'', newline]]\<rparr>"

definition demo_file :: file_info where
  "demo_file = \<lparr>fi_path = ''f'', fi_hunks = [demo_hunk], fi_hunk_count = 1, fi_is_rename = False, fi_is_copy = False,
     fi_is_delete = False, fi_is_device_file = False, fi_added = 1, fi_removed = 1\<rparr>"

text \<open>A parser that knows the two texts of the patch and its reverse.\<close>

definition demo_unidiff :: unidiff where
  "demo_unidiff t =
     (let pf = (\<lambda>f. \<lparr>pf_source_file = ''a/f'', pf_target_file = ''b/f'', pf_is_rename = False, pf_is_copy = False,
             pf_is_device_file = False, pf_added = 1, pf_removed = 1, pf_hunks = fi_hunks f\<rparr>) in
      if t = rebuild_patch_for_file demo_file then Some [pf demo_file]
      else if t = rebuild_patch_for_file (reverse_file demo_file) then Some [pf (reverse_file demo_file)]
      else None)"

lemma demo_texts_differ: "rebuild_patch_for_file demo_file \<noteq> rebuild_patch_for_file (reverse_file demo_file)"
  by (simp add: rebuild_patch_for_file_def demo_file_def reverse_file_def demo_hunk_def reverse_hunk_def hunk_text_def
      chomp_def newline_def)

lemma demo_reads_back: "reads_back demo_unidiff demo_file" "reads_back demo_unidiff (reverse_file demo_file)"
  using demo_texts_differ by (auto simp: reads_back_def demo_unidiff_def Let_def)

definition demo_text :: string where
  "demo_text = [CHR ''a'', newline, CHR ''b'', newline]"

lemma demo_lines: "splitlines_keep demo_text = [[CHR ''a'', newline], [CHR ''b'', newline]]"
  by (simp add: splitlines_keep_def demo_text_def line_break_def newline_def)

lemma patch_reverse_round_trip_witness:
  "\<exists>new. apply_in_memory demo_unidiff demo_text demo_file = Inr new
    \<and> apply_in_memory demo_unidiff new (reverse_file demo_file) = Inr demo_text"
proof (rule patch_reverse_round_trip [OF demo_reads_back])
  show "hunks_fit (splitlines_keep demo_text) 0 0 (fi_hunks demo_file)"
    by (simp add: demo_lines demo_file_def demo_hunk_def)
  show "list_all proper_line (splitlines_keep demo_text)"
    by (simp add: demo_lines proper_line_def line_break_def)
  show "\<forall>h \<in> set (fi_hunks demo_file). list_all proper_line (added_of (hk_lines h))"
    by (simp add: demo_file_def demo_hunk_def proper_line_def line_break_def)
qed

end
