(* ===== verification/PyFiles.thy ===== *)
theory PyFiles
  imports Prelude "HOL-Library.Sublist"
begin

text \<open>
  The part of \<open>pathlib\<close>, \<open>os\<close> and \<open>fnmatch\<close> that the file tools use, over a file system with symbolic links. A path
  of the file system is the list of its components; a node is a file with its permission bits, a directory or a
  link. \<open>walk\<close> is the kernel's resolution of a path (at most 40 links), \<open>joinrealpath\<close> the algorithm of
  \<open>os.path.realpath\<close>, which \<open>Path.resolve\<close> uses. The process may search every directory.
\<close>

type_synonym path = "string list"

datatype fnode =
    File nat string
  | Directory
  | Symlink string

type_synonym file_system = "path \<Rightarrow> fnode option"

lemma map_sum_Inr [simp]: "map_sum id f x = Inr y \<longleftrightarrow> (\<exists>z. x = Inr z \<and> y = f z)"
  by (cases x) auto

subsection \<open>Pure paths\<close>

definition path_parts :: "string \<Rightarrow> path" where
  "path_parts s = filter (\<lambda>c. c \<noteq> [] \<and> c \<noteq> ''.'') (split_char CHR ''/'' s)"

abbreviation is_absolute :: "string \<Rightarrow> bool" where
  "is_absolute s \<equiv> startswith s ''/''"

text \<open>\<open>Path(base) / rel\<close>: an absolute path replaces the base.\<close>

definition join_path :: "path \<Rightarrow> string \<Rightarrow> path" where
  "join_path base rel = (if is_absolute rel then path_parts rel else base @ path_parts rel)"

definition path_name :: "path \<Rightarrow> string" where
  "path_name p = (if p = [] then [] else last p)"

definition is_relative_to :: "path \<Rightarrow> path \<Rightarrow> bool" where
  "is_relative_to p base \<longleftrightarrow> prefix base p"

text \<open>\<open>p.relative_to(base)\<close>\<close>

definition relative_to :: "path \<Rightarrow> path \<Rightarrow> path option" where
  "relative_to p base = (if prefix base p then Some (drop (length base) p) else None)"

definition posix :: "path \<Rightarrow> string" where
  "posix p = (if p = [] then ''.'' else py_join ''/'' p)"

definition abs_str :: "path \<Rightarrow> string" where
  "abs_str p = CHR ''/'' # py_join ''/'' p"

subsection \<open>fnmatch\<close>

text \<open>A class \<open>[...]\<close> as the list of its ranges, read from left to right.\<close>

fun class_ranges :: "string \<Rightarrow> (char \<times> char) list" where
  "class_ranges (a # b # c # cs) =
     (if b = CHR ''-'' then (a, c) # class_ranges cs else (a, a) # class_ranges (b # c # cs))"
| "class_ranges (a # cs) = (a, a) # class_ranges cs"
| "class_ranges [] = []"

definition in_pattern_class :: "char \<Rightarrow> string \<Rightarrow> bool" where
  "in_pattern_class x s =
     (let inside = (\<lambda>s. list_ex (\<lambda>(a, b). (of_char a :: nat) \<le> of_char x \<and> (of_char x :: nat) \<le> of_char b) (class_ranges s)) in
      if startswith s ''!'' then \<not> inside (drop 1 s) else inside s)"

text \<open>The text of the class and what follows the closing bracket; one directly after \<open>[\<close> or \<open>[!\<close> is a member.\<close>

definition class_end :: "string \<Rightarrow> (string \<times> string) option" where
  "class_end s =
     (let i = (if startswith s ''!'' then 1 else 0);
          j = (if startswith (drop i s) '']'' then i + 1 else i);
          rest = dropWhile (\<lambda>c. c \<noteq> CHR '']'') (drop j s) in
      if rest = [] then None else Some (take (length s - length rest) s, drop 1 rest))"

lemma class_end_shorter: "class_end s = Some (cls, rest) \<Longrightarrow> length rest < length s"
proof -
  assume "class_end s = Some (cls, rest)"
  then obtain j where "dropWhile (\<lambda>c. c \<noteq> CHR '']'') (drop j s) \<noteq> []"
      "rest = drop 1 (dropWhile (\<lambda>c. c \<noteq> CHR '']'') (drop j s))"
    by (auto simp: class_end_def Let_def split: if_splits)
  then show ?thesis
    using length_dropWhile_le [of "\<lambda>c. c \<noteq> CHR '']''" "drop j s"]
    by (cases "dropWhile (\<lambda>c. c \<noteq> CHR '']'') (drop j s)") auto
qed

function (sequential) fnmatch_chars :: "string \<Rightarrow> string \<Rightarrow> bool" where
  "fnmatch_chars [] s = (s = [])"
| "fnmatch_chars (p # ps) [] = (p = CHR ''*'' \<and> fnmatch_chars ps [])"
| "fnmatch_chars (p # ps) (c # s) =
     (if p = CHR ''*'' then fnmatch_chars ps (c # s) \<or> fnmatch_chars (p # ps) s
      else if p = CHR ''?'' then fnmatch_chars ps s
      else
        (case (if p = CHR ''['' then class_end ps else None) of
           Some (cls, rest) \<Rightarrow> in_pattern_class c cls \<and> fnmatch_chars rest s
         | None \<Rightarrow> p = c \<and> fnmatch_chars ps s))"
  by pat_completeness auto
termination
  by (relation "measure (\<lambda>(ps, s). length ps + length s)") (auto dest!: class_end_shorter split: if_splits)

definition fnmatch :: "string \<Rightarrow> string \<Rightarrow> bool" where
  "fnmatch name pat = fnmatch_chars pat name"

lemma fnmatch_literal: "set pat \<inter> set ''*?['' = {} \<Longrightarrow> fnmatch name pat \<longleftrightarrow> name = pat"
  unfolding fnmatch_def by (induction pat name rule: fnmatch_chars.induct) auto

lemma fnmatch_star: "fnmatch_chars (CHR ''*'' # ps) s \<longleftrightarrow> (\<exists>a b. s = a @ b \<and> fnmatch_chars ps b)"
proof (induction s)
  case (Cons c s)
  show ?case
  proof
    assume "fnmatch_chars (CHR ''*'' # ps) (c # s)"
    then consider "fnmatch_chars ps (c # s)" | "fnmatch_chars (CHR ''*'' # ps) s" by auto
    then show "\<exists>a b. c # s = a @ b \<and> fnmatch_chars ps b"
    proof cases
      case 1
      then show ?thesis by (metis append_Nil)
    next
      case 2
      then obtain a b where "s = a @ b" "fnmatch_chars ps b" using Cons.IH by blast
      then show ?thesis by (metis append_Cons)
    qed
  next
    assume "\<exists>a b. c # s = a @ b \<and> fnmatch_chars ps b"
    then show "fnmatch_chars (CHR ''*'' # ps) (c # s)" using Cons.IH by (auto simp: Cons_eq_append_conv)
  qed
qed simp

subsection \<open>UTF-8\<close>

text \<open>How many bytes the character at the front takes; \<open>None\<close> where \<open>decode("utf-8")\<close> raises.\<close>

definition byte_in :: "nat \<Rightarrow> nat \<Rightarrow> nat \<Rightarrow> string \<Rightarrow> bool" where
  "byte_in i lo hi s \<longleftrightarrow> i < length s \<and> lo \<le> of_char (s ! i) \<and> of_char (s ! i) \<le> hi"

definition utf8_width :: "string \<Rightarrow> nat option" where
  "utf8_width s =
     (if byte_in 0 0 0x7F s then Some 1
      else if byte_in 0 0xC2 0xDF s \<and> byte_in 1 0x80 0xBF s then Some 2
      else if (byte_in 0 0xE0 0xE0 s \<and> byte_in 1 0xA0 0xBF s \<or> byte_in 0 0xE1 0xEC s \<and> byte_in 1 0x80 0xBF s
               \<or> byte_in 0 0xED 0xED s \<and> byte_in 1 0x80 0x9F s \<or> byte_in 0 0xEE 0xEF s \<and> byte_in 1 0x80 0xBF s)
              \<and> byte_in 2 0x80 0xBF s then Some 3
      else if (byte_in 0 0xF0 0xF0 s \<and> byte_in 1 0x90 0xBF s \<or> byte_in 0 0xF1 0xF3 s \<and> byte_in 1 0x80 0xBF s
               \<or> byte_in 0 0xF4 0xF4 s \<and> byte_in 1 0x80 0x8F s)
              \<and> byte_in 2 0x80 0xBF s \<and> byte_in 3 0x80 0xBF s then Some 4
      else None)"

lemma utf8_width_bounds: "utf8_width s = Some k \<Longrightarrow> 0 < k \<and> k \<le> 4 \<and> k \<le> length s"
  by (auto simp: utf8_width_def byte_in_def Suc_le_eq split: if_splits)

function utf8_valid :: "string \<Rightarrow> bool" where
  "utf8_valid s = (s = [] \<or> (case utf8_width s of None \<Rightarrow> False | Some k \<Rightarrow> utf8_valid (drop k s)))"
  by auto
termination
  by (relation "measure length") (auto dest: utf8_width_bounds)

declare utf8_valid.simps [simp del]

subsection \<open>The kernel: resolving a path\<close>

text \<open>From a directory along components, with the number of links that may still be followed.\<close>

definition link_base :: "path \<Rightarrow> string \<Rightarrow> path" where
  "link_base dir target = (if is_absolute target then [] else dir)"

function (sequential) walk :: "file_system \<Rightarrow> nat \<Rightarrow> path \<Rightarrow> path \<Rightarrow> (path \<times> nat) option" where
  "walk fs n dir [] = Some (dir, n)"
| "walk fs n dir (c # cs) =
     (if fs dir \<noteq> Some Directory then None
      else if c = [] \<or> c = ''.'' then walk fs n dir cs
      else if c = ''..'' then walk fs n (butlast dir) cs
      else
        (case fs (dir @ [c]) of
           None \<Rightarrow> None
         | Some (Symlink t) \<Rightarrow> if n = 0 then None else walk fs (n - 1) (link_base dir t) (path_parts t @ cs)
         | Some _ \<Rightarrow> walk fs n (dir @ [c]) cs))"
  by pat_completeness auto
termination
  by (relation "measures [\<lambda>(fs, n, dir, cs). n, \<lambda>(fs, n, dir, cs). length cs]") auto

definition MAXSYMLINKS :: nat where
  "MAXSYMLINKS = 40"

definition locate :: "file_system \<Rightarrow> path \<Rightarrow> path option" where
  "locate fs p = map_option fst (walk fs MAXSYMLINKS [] p)"

definition path_exists :: "file_system \<Rightarrow> path \<Rightarrow> bool" where
  "path_exists fs p \<longleftrightarrow> locate fs p \<noteq> None"

definition is_dir :: "file_system \<Rightarrow> path \<Rightarrow> bool" where
  "is_dir fs p \<longleftrightarrow> (case locate fs p of None \<Rightarrow> False | Some q \<Rightarrow> fs q = Some Directory)"

definition file_at :: "file_system \<Rightarrow> path \<Rightarrow> (nat \<times> string) option" where
  "file_at fs p =
     (case locate fs p of
        None \<Rightarrow> None
      | Some q \<Rightarrow> (case fs q of Some (File m c) \<Rightarrow> Some (m, c) | _ \<Rightarrow> None))"

text \<open>The entry a path names, without following a link in its last component.\<close>

definition entry_of :: "file_system \<Rightarrow> path \<Rightarrow> path option" where
  "entry_of fs p =
     (if p = [] then Some []
      else (case locate fs (butlast p) of
              None \<Rightarrow> None
            | Some d \<Rightarrow> if fs d = Some Directory then Some (d @ [last p]) else None))"

definition is_symlink :: "file_system \<Rightarrow> path \<Rightarrow> bool" where
  "is_symlink fs p \<longleftrightarrow> (case entry_of fs p of None \<Rightarrow> False | Some q \<Rightarrow> (case fs q of Some (Symlink t) \<Rightarrow> True | _ \<Rightarrow> False))"

subsection \<open>realpath\<close>

text \<open>
  \<open>posixpath._joinrealpath\<close>: \<open>seen\<close> holds the links met so far, \<open>Some None\<close> while a link is being resolved. The flag
  tells whether there was no loop.
\<close>

type_synonym seen_links = "path \<Rightarrow> path option option"

partial_function (option) joinrealpath ::
    "file_system \<Rightarrow> path \<Rightarrow> path \<Rightarrow> seen_links \<Rightarrow> (path \<times> bool \<times> seen_links) option" where
  "joinrealpath fs dir rest seen =
     (case rest of
        [] \<Rightarrow> Some (dir, True, seen)
      | c # cs \<Rightarrow>
          if c = [] \<or> c = ''.'' then joinrealpath fs dir cs seen
          else if c = ''..'' then joinrealpath fs (butlast dir) cs seen
          else
            (case fs (dir @ [c]) of
               Some (Symlink t) \<Rightarrow>
                 (case seen (dir @ [c]) of
                    Some (Some p) \<Rightarrow> joinrealpath fs p cs seen
                  | Some None \<Rightarrow> Some (dir @ c # cs, False, seen)
                  | None \<Rightarrow>
                      Option.bind (joinrealpath fs (link_base dir t) (path_parts t) (seen(dir @ [c] \<mapsto> None)))
                        (\<lambda>r. if \<not> fst (snd r) then Some (fst r @ cs, False, snd (snd r))
                             else joinrealpath fs (fst r) cs ((snd (snd r))(dir @ [c] \<mapsto> Some (fst r)))))
             | _ \<Rightarrow> joinrealpath fs (dir @ [c]) cs seen))"

text \<open>\<open>Path.resolve()\<close>; a loop of links raises.\<close>

definition resolve :: "file_system \<Rightarrow> path \<Rightarrow> path option" where
  "resolve fs p =
     (case joinrealpath fs [] p (\<lambda>_. None) of
        Some (q, True, _) \<Rightarrow> Some q
      | _ \<Rightarrow> None)"

subsection \<open>File trees\<close>

definition proper_name :: "string \<Rightarrow> bool" where
  "proper_name c \<longleftrightarrow> c \<noteq> [] \<and> c \<noteq> ''.'' \<and> c \<noteq> ''..''"

text \<open>The parent of every node is a directory.\<close>

definition file_tree :: "file_system \<Rightarrow> bool" where
  "file_tree fs \<longleftrightarrow>
     fs [] = Some Directory \<and> (\<forall>p c. fs (p @ [c]) \<noteq> None \<longrightarrow> fs p = Some Directory \<and> proper_name c)"

text \<open>A node that is not a link: in a file tree its path leads through no link either.\<close>

definition real_node :: "file_system \<Rightarrow> path \<Rightarrow> bool" where
  "real_node fs p \<longleftrightarrow> (case fs p of None \<Rightarrow> False | Some (Symlink t) \<Rightarrow> False | Some _ \<Rightarrow> True)"

lemma file_treeD:
  assumes "file_tree fs"
  shows "fs [] = Some Directory" "fs (p @ [c]) \<noteq> None \<Longrightarrow> fs p = Some Directory" "fs (p @ [c]) \<noteq> None \<Longrightarrow> proper_name c"
  using assms unfolding file_tree_def by blast+

lemma real_node_dir [simp]: "fs p = Some Directory \<Longrightarrow> real_node fs p"
  by (simp add: real_node_def)

lemma real_node_exists: "real_node fs p \<Longrightarrow> fs p \<noteq> None"
  by (auto simp: real_node_def split: option.splits)

lemma tree_prefix_dir: "file_tree fs \<Longrightarrow> fs (p @ q) \<noteq> None \<Longrightarrow> q \<noteq> [] \<Longrightarrow> fs p = Some Directory"
proof (induction q rule: rev_induct)
  case (snoc c q)
  then have "fs (p @ q) = Some Directory" using file_treeD(2) [of fs "p @ q" c] by simp
  then show ?case using snoc by (cases q) auto
qed simp

lemma butlast_dir: "file_tree fs \<Longrightarrow> fs dir = Some Directory \<Longrightarrow> fs (butlast dir) = Some Directory"
  by (cases dir rule: rev_cases) (auto dest: file_treeD(2))

lemma walk_append: "walk fs n dir (xs @ ys) = (case walk fs n dir xs of None \<Rightarrow> None | Some (d, m) \<Rightarrow> walk fs m d ys)"
proof (induction fs n dir xs rule: walk.induct)
  case (2 fs n dir c cs)
  then show ?case by (auto split: option.splits fnode.splits)
qed simp

lemma walk_real:
  assumes "file_tree fs" "walk fs n dir cs = Some (q, m)" "real_node fs dir"
  shows "real_node fs q \<and> m \<le> n"
  using assms
proof (induction fs n dir cs rule: walk.induct)
  case (2 fs n dir c cs)
  then have d: "fs dir = Some Directory" by (auto split: if_splits)
  have base: "real_node fs (link_base dir t)" for t
    using d file_treeD(1) [OF "2.prems"(1)] by (simp add: link_base_def)
  show ?case
    using 2 d base butlast_dir [OF "2.prems"(1) d]
    by (auto simp: real_node_def split: option.splits fnode.splits if_splits)
qed simp

lemma walk_itself: "file_tree fs \<Longrightarrow> real_node fs (dir @ cs) \<Longrightarrow> walk fs n dir cs = Some (dir @ cs, n)"
proof (induction cs arbitrary: dir)
  case (Cons c cs)
  have ex: "fs (dir @ c # cs) \<noteq> None" using Cons.prems(2) by (rule real_node_exists)
  have dir: "fs dir = Some Directory" using tree_prefix_dir [OF Cons.prems(1) ex] by simp
  have node: "fs (dir @ [c]) = Some Directory \<or> cs = []"
    using tree_prefix_dir [of fs "dir @ [c]" cs] Cons.prems(1) ex by auto
  then have "fs (dir @ [c]) \<noteq> None" using ex by auto
  then have "proper_name c" by (rule file_treeD(3) [OF Cons.prems(1)])
  then show ?case using Cons dir node
    by (auto simp: proper_name_def real_node_def split: option.splits fnode.splits)
qed simp

lemma locate_itself: "file_tree fs \<Longrightarrow> real_node fs p \<Longrightarrow> locate fs p = Some p"
  using walk_itself [of fs "[]" p] by (simp add: locate_def)

lemma locate_real: "file_tree fs \<Longrightarrow> locate fs p = Some q \<Longrightarrow> real_node fs q"
  using walk_real [of fs MAXSYMLINKS "[]" p q] by (auto simp: locate_def file_treeD(1))

text \<open>Where no component is a link, the kernel stays on the path as it is written.\<close>

lemma walk_linkless:
  assumes "walk fs n dir cs = Some (q, m)" "list_all proper_name cs"
    and "\<And>xs. prefix xs cs \<Longrightarrow> xs \<noteq> [] \<Longrightarrow> (case fs (dir @ xs) of Some (Symlink t) \<Rightarrow> False | _ \<Rightarrow> True)"
  shows "q = dir @ cs \<and> m = n"
  using assms
proof (induction cs arbitrary: dir)
  case (Cons c cs)
  have c: "case fs (dir @ [c]) of Some (Symlink t) \<Rightarrow> False | _ \<Rightarrow> True"
    using Cons.prems(3) [of "[c]"] by simp
  have "walk fs n (dir @ [c]) cs = Some (q, m)"
    using Cons.prems(1,2) c by (auto simp: proper_name_def split: if_splits option.splits fnode.splits)
  moreover have "case fs ((dir @ [c]) @ xs) of Some (Symlink t) \<Rightarrow> False | _ \<Rightarrow> True" if "prefix xs cs" for xs
    using Cons.prems(3) [of "c # xs"] that by simp
  ultimately show ?case using Cons.IH [of "dir @ [c]"] Cons.prems(2) by simp
qed simp

subsection \<open>realpath agrees with the kernel\<close>

text \<open>Resolving the target of the link at \<open>l\<close> takes \<open>k\<close> further links and ends at \<open>p\<close>.\<close>

definition link_leads :: "file_system \<Rightarrow> path \<Rightarrow> nat \<Rightarrow> path \<Rightarrow> bool" where
  "link_leads fs l k p \<longleftrightarrow>
     (case fs l of
        Some (Symlink t) \<Rightarrow> walk fs k (link_base (butlast l) t) (path_parts t) = Some (p, 0)
      | _ \<Rightarrow> False)"

lemma walk_more: "walk fs n dir cs = Some (q, m) \<Longrightarrow> walk fs (n + k) dir cs = Some (q, m + k)"
proof (induction fs n dir cs rule: walk.induct)
  case (2 fs n dir c cs)
  then show ?case by (auto split: option.splits fnode.splits if_splits)
qed simp

lemma walk_budget: "walk fs n dir cs = Some (q, m) \<Longrightarrow> m \<le> n"
proof (induction fs n dir cs rule: walk.induct)
  case (2 fs n dir c cs)
  then show ?case by (auto split: option.splits fnode.splits if_splits)
qed simp

lemma walk_less: "walk fs n dir cs = Some (q, m) \<Longrightarrow> k \<le> m \<Longrightarrow> walk fs (n - k) dir cs = Some (q, m - k)"
proof (induction fs n dir cs rule: walk.induct)
  case (2 fs n dir c cs)
  show ?case
  proof (cases "\<exists>t. fs (dir @ [c]) = Some (Symlink t) \<and> proper_name c \<and> fs dir = Some Directory")
    case True
    then obtain t where t: "fs (dir @ [c]) = Some (Symlink t)" "proper_name c" "fs dir = Some Directory" by blast
    with "2.prems"(1) have step: "n \<noteq> 0" "walk fs (n - 1) (link_base dir t) (path_parts t @ cs) = Some (q, m)"
      by (auto simp: proper_name_def split: if_splits)
    then have "m \<le> n - 1" by (auto dest: walk_budget)
    then have "n - k \<noteq> 0" "n - k - 1 = n - 1 - k" using "2.prems"(2) step(1) by auto
    then show ?thesis using 2 t step by (auto simp: proper_name_def)
  next
    case False
    then show ?thesis using 2 by (auto simp: proper_name_def split: option.splits fnode.splits if_splits)
  qed
qed simp

lemma walk_exact: "walk fs n dir cs = Some (q, m) \<Longrightarrow> walk fs (n - m) dir cs = Some (q, 0)"
  using walk_less [of fs n dir cs q m m] by simp

lemma walk_cost_unique:
  assumes "walk fs n dir cs = Some (q, 0)" "walk fs n' dir cs = Some (q', 0)"
  shows "n = n' \<and> q = q'"
proof (cases "n \<le> n'")
  case True
  then show ?thesis using walk_more [OF assms(1), of "n' - n"] assms(2) by simp
next
  case False
  then show ?thesis using walk_more [OF assms(2), of "n - n'"] assms(1) by simp
qed

lemma link_leads_unique: "link_leads fs l k p \<Longrightarrow> link_leads fs l k' p' \<Longrightarrow> k = k' \<and> p = p'"
  by (auto simp: link_leads_def dest: walk_cost_unique split: option.splits fnode.splits)

text \<open>
  While \<open>k\<close> links are still to be followed: a resolved entry is right, and a link being resolved takes at least as
  many, so that it is not met again.
\<close>

definition seen_ok :: "file_system \<Rightarrow> nat \<Rightarrow> seen_links \<Rightarrow> bool" where
  "seen_ok fs k seen \<longleftrightarrow>
     (\<forall>l p. seen l = Some (Some p) \<longrightarrow> (\<exists>j. link_leads fs l j p))
     \<and> (\<forall>l. seen l = Some None \<longrightarrow> (\<exists>j p. link_leads fs l j p \<and> k \<le> j))"

lemma seen_ok_less: "seen_ok fs k seen \<Longrightarrow> j \<le> k \<Longrightarrow> seen_ok fs j seen"
  unfolding seen_ok_def by (meson le_trans)

definition open_links :: "seen_links \<Rightarrow> path set" where
  "open_links seen = {l. seen l = Some None}"

lemma seen_ok_open:
  assumes "seen_ok fs k seen" "seen_ok fs 0 seen'" "open_links seen' = open_links seen"
  shows "seen_ok fs k seen'"
  using assms unfolding seen_ok_def open_links_def by blast

lemma joinrealpath_walk:
  assumes "walk fs k dir rest = Some (q, 0)" "seen_ok fs k seen"
  shows "\<exists>seen'. joinrealpath fs dir rest seen = Some (q, True, seen') \<and> seen_ok fs 0 seen'
    \<and> open_links seen' = open_links seen"
  using assms
proof (induction k arbitrary: dir rest seen q rule: less_induct)
  case (less k)
  show ?case
    using less.prems
  proof (induction rest arbitrary: dir seen)
    case Nil
    then show ?case by (subst joinrealpath.simps) (auto intro: seen_ok_less)
  next
    case (Cons c cs)
    show ?case
    proof (cases "\<exists>t. fs (dir @ [c]) = Some (Symlink t) \<and> proper_name c")
      case False
      then show ?thesis using Cons
        by (subst joinrealpath.simps) (auto simp: proper_name_def split: if_splits option.splits fnode.splits)
    next
      case True
      then obtain t where t: "fs (dir @ [c]) = Some (Symlink t)" "proper_name c" by blast
      let ?l = "dir @ [c]"
      have k: "k \<noteq> 0" "walk fs (k - 1) (link_base dir t) (path_parts t @ cs) = Some (q, 0)"
        using Cons.prems(1) t by (auto simp: proper_name_def split: if_splits)
      obtain p m where p: "walk fs (k - 1) (link_base dir t) (path_parts t) = Some (p, m)" "walk fs m p cs = Some (q, 0)"
        using k(2) by (auto simp: walk_append split: option.splits)
      have m: "m \<le> k - 1" using p(1) by (rule walk_budget)
      have leads: "link_leads fs ?l (k - 1 - m) p" using walk_exact [OF p(1)] t by (simp add: link_leads_def)
      have rest: "\<exists>seen'. joinrealpath fs p cs s = Some (q, True, seen') \<and> seen_ok fs 0 seen' \<and> open_links seen' = open_links s"
        if "seen_ok fs m s" for s
        using less.IH [of m p cs q s] that p(2) m k(1) by simp
      show ?thesis
      proof (cases "seen ?l")
        case None
        have "seen_ok fs (k - 1 - m) (seen(?l \<mapsto> None))"
          using seen_ok_less [OF Cons.prems(2), of "k - 1 - m"] leads unfolding seen_ok_def by (auto split: if_splits)
        moreover have "walk fs (k - 1 - m) (link_base dir t) (path_parts t) = Some (p, 0)" using p(1) by (rule walk_exact)
        ultimately obtain s where s: "joinrealpath fs (link_base dir t) (path_parts t) (seen(?l \<mapsto> None)) = Some (p, True, s)"
            "seen_ok fs 0 s" "open_links s = open_links (seen(?l \<mapsto> None))"
          using less.IH [of "k - 1 - m" "link_base dir t" "path_parts t" p "seen(?l \<mapsto> None)"] k(1) by (auto simp del: fun_upd_apply)
        have op: "open_links (s(?l \<mapsto> Some p)) = open_links seen"
          using s(3) None unfolding open_links_def by (auto split: if_splits)
        have "seen_ok fs 0 (s(?l \<mapsto> Some p))" using s(2) leads unfolding seen_ok_def by (auto split: if_splits)
        then have "seen_ok fs m (s(?l \<mapsto> Some p))"
          using seen_ok_open [OF seen_ok_less [OF Cons.prems(2)] _ op] m by simp
        from rest [OF this] show ?thesis
          using t s(1) None op by (subst joinrealpath.simps) (auto simp: proper_name_def)
      next
        case (Some st)
        show ?thesis
        proof (cases st)
          case None
          then obtain j p' where "link_leads fs ?l j p'" "k \<le> j"
            using Some Cons.prems(2) unfolding seen_ok_def by blast
          then show ?thesis using link_leads_unique [OF leads] k(1) by fastforce
        next
          case (Some p')
          then obtain j where "link_leads fs ?l j p'"
            using \<open>seen ?l = Some st\<close> Cons.prems(2) unfolding seen_ok_def by blast
          then have "p' = p" using link_leads_unique [OF leads] by blast
          moreover have "seen_ok fs m seen" using seen_ok_less [OF Cons.prems(2), of m] m by simp
          ultimately show ?thesis
            using rest [of seen] t Some \<open>seen ?l = Some st\<close> by (subst joinrealpath.simps) (auto simp: proper_name_def)
        qed
      qed
    qed
  qed
qed

text \<open>\<open>resolve\<close> of an existing path is where the kernel finds it.\<close>

theorem resolve_locates: "locate fs p = Some q \<Longrightarrow> resolve fs p = Some q"
proof -
  assume "locate fs p = Some q"
  then obtain m where "walk fs MAXSYMLINKS [] p = Some (q, m)" by (auto simp: locate_def)
  then have "walk fs (MAXSYMLINKS - m) [] p = Some (q, 0)" by (rule walk_exact)
  moreover have "seen_ok fs (MAXSYMLINKS - m) (\<lambda>_. None)" by (simp add: seen_ok_def)
  ultimately show ?thesis using joinrealpath_walk by (fastforce simp: resolve_def)
qed

subsection \<open>realpath returns\<close>

definition fresh_link :: "file_system \<Rightarrow> seen_links \<Rightarrow> path \<Rightarrow> bool" where
  "fresh_link fs seen l \<longleftrightarrow> (case fs l of Some (Symlink t) \<Rightarrow> seen l = None | _ \<Rightarrow> False)"

lemma joinrealpath_returns:
  assumes "finite {l. \<exists>t. fs l = Some (Symlink t)}"
  shows "\<exists>q ok seen'. joinrealpath fs dir rest seen = Some (q, ok, seen') \<and> dom seen \<subseteq> dom seen'"
proof (induction "card ({l. \<exists>t. fs l = Some (Symlink t)} - dom seen)" arbitrary: dir rest seen rule: less_induct)
  case less
  let ?links = "{l. \<exists>t. fs l = Some (Symlink t)}"
  show ?case
    using less
  proof (induction rest arbitrary: dir seen)
    case Nil
    then show ?case by (subst joinrealpath.simps) auto
  next
    case (Cons c cs)
    let ?l = "dir @ [c]"
    have later: "\<exists>q ok s'. joinrealpath fs d r s = Some (q, ok, s') \<and> dom s \<subseteq> dom s'"
      if "insert ?l (dom seen) \<subseteq> dom s" "?l \<in> ?links" "?l \<notin> dom seen" for d r s
    proof (rule Cons.prems)
      show "card (?links - dom s) < card (?links - dom seen)"
        using that assms by (intro psubset_card_mono) auto
    qed
    show ?case
    proof (cases "fresh_link fs seen ?l \<and> proper_name c")
      case True
      then obtain t where t: "fs ?l = Some (Symlink t)" "seen ?l = None" "proper_name c"
        by (auto simp: fresh_link_def split: option.splits fnode.splits)
      obtain p ok s where s: "joinrealpath fs (link_base dir t) (path_parts t) (seen(?l \<mapsto> None)) = Some (p, ok, s)"
          "insert ?l (dom seen) \<subseteq> dom s"
        using later [of "seen(?l \<mapsto> None)" "link_base dir t" "path_parts t"] t by (auto simp: domIff)
      then have "insert ?l (dom seen) \<subseteq> dom (s(?l \<mapsto> Some p))" by auto
      then obtain q ok' s' where s': "joinrealpath fs p cs (s(?l \<mapsto> Some p)) = Some (q, ok', s')" "insert ?l (dom s) \<subseteq> dom s'"
        using later [of "s(?l \<mapsto> Some p)" p cs] t by (auto simp: domIff subset_insertI2)
      have "dom seen \<subseteq> dom s" "dom seen \<subseteq> dom s'" using s(2) s'(2) by auto
      then show ?thesis using t s(1) s'(1) by (subst joinrealpath.simps) (simp add: proper_name_def, blast)
    next
      case False
      then show ?thesis
        using Cons.IH Cons.prems
        by (subst joinrealpath.simps) (auto simp: proper_name_def fresh_link_def split: option.splits fnode.splits)
    qed
  qed
qed

end
