(* ===== verification/ProjectPatch.thy ===== *)
theory ProjectPatch
  imports PatchApply PyFiles
begin

text \<open>
  \<open>app/services/project_patch.py\<close>: a patch of several files as a transaction with backups. The file system maps
  resolved paths (their components) to contents; which of its operations fail is an argument, as are the
  symbolic links (\<open>resolve\<close>, the resolution of a path), the decoding of UTF-8 and SHA-256.
\<close>

type_synonym fs_path = "string list"
type_synonym fs = "fs_path \<Rightarrow> string option"

definition resolve_within_root :: "(fs_path \<Rightarrow> fs_path) \<Rightarrow> fs_path \<Rightarrow> string \<Rightarrow> patch_error + fs_path" where
  "resolve_within_root canon proot rel =
     (let full = canon (join_path proot rel); resolved_root = canon proot in
      if full \<noteq> resolved_root \<and> take (length resolved_root) full \<noteq> resolved_root then Inl (EscapesRoot rel)
      else Inr full)"

text \<open>\<open>read_text\<close> opens in text mode, which turns every line end into a line feed.\<close>

fun universal_newlines :: "string \<Rightarrow> string" where
  "universal_newlines [] = []"
| "universal_newlines [c] = [if c = CHR 0x0D then newline else c]"
| "universal_newlines (c # d # s) =
     (if c = CHR 0x0D \<and> d = newline then newline # universal_newlines s
      else (if c = CHR 0x0D then newline else c) # universal_newlines (d # s))"

record patch_env =
  pe_unidiff :: unidiff
  pe_resolve :: "fs_path \<Rightarrow> fs_path"
  pe_decode :: "string \<Rightarrow> string"
  pe_sha256 :: "string \<Rightarrow> string"

definition read_text :: "patch_env \<Rightarrow> fs \<Rightarrow> fs_path \<Rightarrow> string" where
  "read_text env fs p = (case fs p of None \<Rightarrow> [] | Some c \<Rightarrow> universal_newlines (pe_decode env c))"

record prepared =
  pr_path :: fs_path
  pr_original :: string
  pr_new :: string
  pr_hunks :: nat
  pr_is_delete :: bool

text \<open>The checks of one file; the size is that of the file on disk.\<close>

definition file_checks :: "patch_env \<Rightarrow> (string \<times> string) list \<Rightarrow> fs \<Rightarrow> file_info \<Rightarrow> fs_path \<Rightarrow> patch_error option" where
  "file_checks env expected fs f full =
     (case fs full of
        None \<Rightarrow> (if fi_is_delete f then Some (DeleteMissing (fi_path f)) else None)
      | Some c \<Rightarrow>
          if MAX_FILE_SIZE < length c then Some (FileTooLarge (fi_path f) (length c))
          else
            (case map_of expected (fi_path f) of
               None \<Rightarrow> None
             | Some hash \<Rightarrow> check_hash (pe_sha256 env) (fi_path f) (read_text env fs full) hash))"

definition prepare_file :: "patch_env \<Rightarrow> fs_path \<Rightarrow> (string \<times> string) list \<Rightarrow> fs \<Rightarrow> file_info \<Rightarrow> patch_error + prepared" where
  "prepare_file env proot expected fs f =
     (case resolve_within_root (pe_resolve env) proot (fi_path f) of
        Inl e \<Rightarrow> Inl e
      | Inr full \<Rightarrow>
          (case file_checks env expected fs f full of
             Some e \<Rightarrow> Inl e
           | None \<Rightarrow>
               map_sum id (\<lambda>new. \<lparr>pr_path = full, pr_original = read_text env fs full, pr_new = new,
                    pr_hunks = fi_hunk_count f, pr_is_delete = fi_is_delete f\<rparr>)
                 (apply_in_memory (pe_unidiff env) (read_text env fs full) f)))"

fun prepare_files ::
    "patch_env \<Rightarrow> fs_path \<Rightarrow> (string \<times> string) list \<Rightarrow> fs \<Rightarrow> file_info list \<Rightarrow> patch_error + prepared list" where
  "prepare_files env proot expected fs [] = Inr []"
| "prepare_files env proot expected fs (f # files) =
     (case prepare_file env proot expected fs f of
        Inl e \<Rightarrow> Inl e
      | Inr p \<Rightarrow> map_sum id ((#) p) (prepare_files env proot expected fs files))"

subsection \<open>Writing\<close>

definition scratch_name :: "string \<Rightarrow> string \<Rightarrow> fs_path \<Rightarrow> fs_path" where
  "scratch_name ext rid p = butlast p @ [''.'' @ last p @ ''.mcp-patch-'' @ rid @ ext]"

abbreviation backup_path :: "string \<Rightarrow> fs_path \<Rightarrow> fs_path" where
  "backup_path \<equiv> scratch_name ''.bak''"

abbreviation tmp_path :: "string \<Rightarrow> fs_path \<Rightarrow> fs_path" where
  "tmp_path \<equiv> scratch_name ''.tmp''"

text \<open>Which system calls for a file succeed, and what a failed copy or write leaves behind.\<close>

record file_io =
  io_copy :: bool
  io_remove :: bool
  io_write :: bool
  io_fsync :: bool
  io_rename :: bool
  io_left :: "string option"
  io_rollback :: bool

definition write_one :: "string \<Rightarrow> file_io \<Rightarrow> prepared \<Rightarrow> fs \<Rightarrow> bool \<times> fs" where
  "write_one rid io p fs =
     (let full = pr_path p; backup = backup_path rid full; tmp = tmp_path rid full; existed = fs full \<noteq> None in
      if existed \<and> \<not> io_copy io then (False, fs(backup := io_left io))
      else
        (let fs1 = (if existed then fs(backup := fs full) else fs) in
         if pr_is_delete p then
           (if existed \<and> io_remove io then (True, fs1(full := None)) else (False, fs1))
         else if \<not> io_write io then (False, fs1(tmp := io_left io))
         else
           (let fs2 = fs1(tmp := Some (pr_new p)) in
            if \<not> io_fsync io \<or> \<not> io_rename io then (False, fs2)
            else (True, fs2(full := Some (pr_new p), tmp := None)))))"

text \<open>The files written so far, with whether they existed.\<close>

type_synonym completed = "(fs_path \<times> bool) list"

definition rollback_one :: "string \<Rightarrow> (fs_path \<Rightarrow> file_io) \<Rightarrow> fs_path \<times> bool \<Rightarrow> fs_path list \<times> fs \<Rightarrow> fs_path list \<times> fs" where
  "rollback_one rid io c st =
     (case (c, st) of
        ((full, existed), (errors, fs)) \<Rightarrow>
          let backup = backup_path rid full in
          if existed then
            (if io_rollback (io full) \<and> fs backup \<noteq> None then (errors, fs(full := fs backup, backup := None))
             else (errors @ [full], fs))
          else
            (if io_rollback (io full) \<and> fs full \<noteq> None then (errors, fs(full := None))
             else (errors @ [full], fs)))"

definition rollback :: "string \<Rightarrow> (fs_path \<Rightarrow> file_io) \<Rightarrow> completed \<Rightarrow> fs \<Rightarrow> fs_path list \<times> fs" where
  "rollback rid io cs fs =
     (case fold (rollback_one rid io) cs ([], fs) of
        (errors, fs') \<Rightarrow> (errors, fold (\<lambda>(full, e) g. g(tmp_path rid full := None)) cs fs'))"

text \<open>The loop: \<open>Inr\<close> the files written; \<open>Inl\<close> the file that failed, with the errors of the rollback.\<close>

fun write_files ::
    "string \<Rightarrow> (fs_path \<Rightarrow> file_io) \<Rightarrow> prepared list \<Rightarrow> completed \<Rightarrow> fs \<Rightarrow> (fs_path \<times> fs_path list + completed) \<times> fs" where
  "write_files rid io [] cs fs = (Inr cs, fs)"
| "write_files rid io (p # ps) cs fs =
     (case write_one rid (io (pr_path p)) p fs of
        (True, fs') \<Rightarrow> write_files rid io ps (cs @ [(pr_path p, fs (pr_path p) \<noteq> None)]) fs'
      | (False, fs') \<Rightarrow>
          (case rollback rid io cs fs' of
             (errors, fs'') \<Rightarrow> (Inl (pr_path p, errors), fs'')))"

definition clean_backups :: "string \<Rightarrow> completed \<Rightarrow> fs \<Rightarrow> fs" where
  "clean_backups rid cs fs =
     fold (\<lambda>(full, existed) g. g(backup_path rid full := None, tmp_path rid full := None)) cs fs"

datatype patch_status = PatchApplied | PatchFailed | PatchDryRun

record patch_response =
  pp_success :: bool
  pp_files_applied :: nat
  pp_files_failed :: nat
  pp_hunks_applied :: nat
  pp_preview :: "string option"
  pp_files :: "(string \<times> patch_status \<times> nat) list"

datatype patch_outcome =
    PatchRefused patch_error
  | ProjectNotFound
  | RollbackFailed fs_path "fs_path list"
  | PatchResponse patch_response

definition relative_name :: "fs_path \<Rightarrow> fs_path \<Rightarrow> string" where
  "relative_name proot p = py_join ''/'' (drop (length proot) p)"

subsection \<open>The service\<close>

text \<open>The preview of one file: nothing when it does not change.\<close>

definition preview_file :: "patch_env \<Rightarrow> fs_path \<Rightarrow> fs \<Rightarrow> file_info \<Rightarrow> patch_error + string list" where
  "preview_file env proot fs f =
     (case resolve_within_root (pe_resolve env) proot (fi_path f) of
        Inl e \<Rightarrow> Inl e
      | Inr full \<Rightarrow>
          (let original = read_text env fs full in
           if fi_is_delete f then
             Inr [''--- '' @ fi_path f @ [newline] @ ''+++ /dev/null'' @ [newline] @ original]
           else
             map_sum id (\<lambda>new. if original \<noteq> new
                 then [''--- '' @ fi_path f @ [newline] @ ''+++ '' @ fi_path f @ [newline] @ new] else [])
               (apply_in_memory (pe_unidiff env) original f)))"

fun preview_files :: "patch_env \<Rightarrow> fs_path \<Rightarrow> fs \<Rightarrow> file_info list \<Rightarrow> patch_error + string list" where
  "preview_files env proot fs [] = Inr []"
| "preview_files env proot fs (f # files) =
     (case preview_file env proot fs f of
        Inl e \<Rightarrow> Inl e
      | Inr parts \<Rightarrow> map_sum id ((@) parts) (preview_files env proot fs files))"

definition patch_limits :: "string \<Rightarrow> file_info list \<Rightarrow> patch_error option" where
  "patch_limits patch files =
     (case validate_file_count (length files) of
        Some e \<Rightarrow> Some e
      | None \<Rightarrow>
          (case validate_hunk_count (sum_list (map fi_hunk_count files)) of
             Some e \<Rightarrow> Some e
           | None \<Rightarrow> validate_no_forbidden_ops files))"

definition dry_run_patch :: "patch_env \<Rightarrow> fs_path \<Rightarrow> fs \<Rightarrow> file_info list \<Rightarrow> patch_outcome" where
  "dry_run_patch env proot fs files =
     (case preview_files env proot fs files of
        Inl e \<Rightarrow> PatchRefused e
      | Inr parts \<Rightarrow>
          PatchResponse \<lparr>pp_success = True, pp_files_applied = length files, pp_files_failed = 0,
             pp_hunks_applied = sum_list (map fi_hunk_count files), pp_preview = Some (py_join [newline] parts),
             pp_files = map (\<lambda>f. (fi_path f, PatchDryRun, fi_hunk_count f)) files\<rparr>)"

definition write_patch :: "string \<Rightarrow> fs_path \<Rightarrow> (fs_path \<Rightarrow> file_io) \<Rightarrow> prepared list \<Rightarrow> fs \<Rightarrow> patch_outcome \<times> fs" where
  "write_patch rid proot io ps fs =
     (case write_files rid io ps [] fs of
        (Inr cs, fs') \<Rightarrow>
          (PatchResponse \<lparr>pp_success = True, pp_files_applied = length ps, pp_files_failed = 0,
             pp_hunks_applied = sum_list (map pr_hunks ps), pp_preview = None,
             pp_files = map (\<lambda>p. (relative_name proot (pr_path p), PatchApplied, pr_hunks p)) ps\<rparr>,
           clean_backups rid cs fs')
      | (Inl (full, errors), fs') \<Rightarrow>
          if errors \<noteq> [] then (RollbackFailed full errors, fs')
          else
            (PatchResponse \<lparr>pp_success = False, pp_files_applied = 0, pp_files_failed = 1, pp_hunks_applied = 0,
               pp_preview = None, pp_files = [(relative_name proot full, PatchFailed, 0)]\<rparr>, fs'))"

text \<open>\<open>proot\<close> is what the registry knows of the project.\<close>

definition apply_project_patch ::
    "patch_env \<Rightarrow> string \<Rightarrow> fs_path option \<Rightarrow> string \<Rightarrow> nat \<Rightarrow> (string \<times> string) list \<Rightarrow> bool \<Rightarrow> (fs_path \<Rightarrow> file_io) \<Rightarrow> fs
      \<Rightarrow> patch_outcome \<times> fs" where
  "apply_project_patch env rid proot patch n expected_hashes dry_run io fs =
     (case validate_patch_size (length patch) of
        Some e \<Rightarrow> (PatchRefused e, fs)
      | None \<Rightarrow>
          (case parse_patch (pe_unidiff env) patch n of
             Inl e \<Rightarrow> (PatchRefused e, fs)
           | Inr files \<Rightarrow>
               (case patch_limits patch files of
                  Some e \<Rightarrow> (PatchRefused e, fs)
                | None \<Rightarrow>
                    (case proot of
                       None \<Rightarrow> (ProjectNotFound, fs)
                     | Some r \<Rightarrow>
                         if dry_run then (dry_run_patch env r fs files, fs)
                         else
                           (case prepare_files env r expected_hashes fs files of
                              Inl e \<Rightarrow> (PatchRefused e, fs)
                            | Inr ps \<Rightarrow> write_patch rid r io ps fs)))))"

subsection \<open>Lemmas\<close>

lemma scratch_name_eq [simp]:
  assumes "p \<noteq> []" "q \<noteq> []"
  shows "scratch_name ext rid p = scratch_name ext rid q \<longleftrightarrow> p = q"
proof
  assume "scratch_name ext rid p = scratch_name ext rid q"
  then have "butlast p = butlast q" "last p = last q" by (simp_all add: scratch_name_def)
  then show "p = q" using assms by (metis append_butlast_last_id)
qed simp

lemma scratch_kinds [simp]: "backup_path rid p \<noteq> tmp_path rid q" "tmp_path rid q \<noteq> backup_path rid p"
proof -
  have "a @ ''.bak'' \<noteq> b @ ''.tmp''" for a b :: string
    using arg_cong [where f = last, of "a @ ''.bak''" "b @ ''.tmp''"] by auto
  then show "backup_path rid p \<noteq> tmp_path rid q" by (simp add: scratch_name_def)
  then show "tmp_path rid q \<noteq> backup_path rid p" by simp
qed

definition scratch_of :: "string \<Rightarrow> fs_path set \<Rightarrow> fs_path set" where
  "scratch_of rid P = backup_path rid ` P \<union> tmp_path rid ` P"

text \<open>The paths of a transaction: different files, none of them a scratch name of another.\<close>

definition names_ok :: "string \<Rightarrow> fs_path list \<Rightarrow> bool" where
  "names_ok rid paths \<longleftrightarrow> distinct paths \<and> [] \<notin> set paths \<and> set paths \<inter> scratch_of rid (set paths) = {}"

lemma names_okD:
  assumes "names_ok rid paths" "p \<in> set paths" "q \<in> set paths"
  shows "p \<noteq> []" "p \<noteq> backup_path rid q" "p \<noteq> tmp_path rid q" "backup_path rid q \<noteq> p" "tmp_path rid q \<noteq> p"
  using assms unfolding names_ok_def scratch_of_def by blast+

lemma write_one_True:
  assumes "write_one rid io p fs = (True, fs')"
  shows "fs' = (if fs (pr_path p) \<noteq> None then fs(backup_path rid (pr_path p) := fs (pr_path p)) else fs)
      (pr_path p := (if pr_is_delete p then None else Some (pr_new p)))
    \<or> fs' = ((if fs (pr_path p) \<noteq> None then fs(backup_path rid (pr_path p) := fs (pr_path p)) else fs)
      (tmp_path rid (pr_path p) := Some (pr_new p), pr_path p := Some (pr_new p), tmp_path rid (pr_path p) := None))
      \<and> \<not> pr_is_delete p"
  using assms by (auto simp: write_one_def Let_def split: if_splits)

lemma write_one_False:
  assumes "write_one rid io p fs = (False, fs')" "x \<noteq> backup_path rid (pr_path p)" "x \<noteq> tmp_path rid (pr_path p)"
  shows "fs' x = fs x"
  using assms by (auto simp: write_one_def Let_def split: if_splits)

text \<open>How far a transaction has come: what is done is written and backed up, the rest is as it was.\<close>

definition in_progress :: "string \<Rightarrow> fs \<Rightarrow> prepared list \<Rightarrow> completed \<Rightarrow> fs \<Rightarrow> bool" where
  "in_progress rid fs0 qs cs fs \<longleftrightarrow>
     cs = map (\<lambda>q. (pr_path q, fs0 (pr_path q) \<noteq> None)) qs
     \<and> (\<forall>q \<in> set qs. fs (pr_path q) = (if pr_is_delete q then None else Some (pr_new q))
          \<and> (fs0 (pr_path q) \<noteq> None \<longrightarrow> fs (backup_path rid (pr_path q)) = fs0 (pr_path q)))
     \<and> (\<forall>x. x \<notin> pr_path ` set qs \<union> scratch_of rid (pr_path ` set qs) \<longrightarrow> fs x = fs0 x)"

lemma in_progress_step:
  assumes "names_ok rid (map pr_path (qs @ p # ps))" "in_progress rid fs0 qs cs fs" "write_one rid io p fs = (True, fs')"
  shows "in_progress rid fs0 (qs @ [p]) (cs @ [(pr_path p, fs (pr_path p) \<noteq> None)]) fs'"
proof -
  let ?p = "pr_path p"
  have ne: "?p \<noteq> pr_path q" "?p \<noteq> backup_path rid (pr_path q)" "?p \<noteq> tmp_path rid (pr_path q)"
    "pr_path q \<noteq> backup_path rid ?p" "pr_path q \<noteq> tmp_path rid ?p" "pr_path q \<noteq> []" if "q \<in> set qs" for q
    using that assms(1) names_okD [OF assms(1), of ?p "pr_path q"] names_okD [OF assms(1), of "pr_path q" ?p]
    by (auto simp: names_ok_def)
  have p: "?p \<noteq> []" "?p \<noteq> backup_path rid ?p" "?p \<noteq> tmp_path rid ?p"
    using names_okD [OF assms(1), of ?p ?p] by auto
  have "?p \<notin> pr_path ` set qs \<union> scratch_of rid (pr_path ` set qs)"
    using ne(1-3) unfolding scratch_of_def by blast
  then have old: "fs ?p = fs0 ?p" using assms(2) unfolding in_progress_def by blast
  have prog: "cs = map (\<lambda>q. (pr_path q, fs0 (pr_path q) \<noteq> None)) qs"
    "\<And>q. q \<in> set qs \<Longrightarrow> fs (pr_path q) = (if pr_is_delete q then None else Some (pr_new q))"
    "\<And>q. q \<in> set qs \<Longrightarrow> fs0 (pr_path q) \<noteq> None \<Longrightarrow> fs (backup_path rid (pr_path q)) = fs0 (pr_path q)"
    "\<And>x. x \<notin> pr_path ` set qs \<union> scratch_of rid (pr_path ` set qs) \<Longrightarrow> fs x = fs0 x"
    using assms(2) unfolding in_progress_def by blast+
  have same: "fs' x = fs x" if "x \<noteq> ?p" "x \<noteq> backup_path rid ?p" "x \<noteq> tmp_path rid ?p" for x
    using write_one_True [OF assms(3)] that by auto
  have self: "fs' ?p = (if pr_is_delete p then None else Some (pr_new p))"
    "fs0 ?p \<noteq> None \<longrightarrow> fs' (backup_path rid ?p) = fs0 ?p"
    using write_one_True [OF assms(3)] p old by (auto split: if_splits)
  have kept: "fs' (pr_path q) = fs (pr_path q)" "fs' (backup_path rid (pr_path q)) = fs (backup_path rid (pr_path q))"
    if q: "q \<in> set qs" for q
  proof -
    show "fs' (pr_path q) = fs (pr_path q)" using ne(1,4,5) [OF q] by (intro same) auto
    show "fs' (backup_path rid (pr_path q)) = fs (backup_path rid (pr_path q))"
      using ne(1,2,6) [OF q] p(1) by (intro same) auto
  qed
  have "fs' x = fs0 x"
    if "x \<notin> pr_path ` set (qs @ [p]) \<union> scratch_of rid (pr_path ` set (qs @ [p]))" for x
    using that same [of x] prog(4) [of x] by (auto simp: scratch_of_def)
  then show ?thesis
    using prog(1-3) old self kept unfolding in_progress_def by auto
qed

lemma rollback_fold:
  assumes "fold (rollback_one rid io) cs (e, g) = ([], g')" "names_ok rid (map fst cs)"
  shows "e = [] \<and> (\<forall>(p, existed) \<in> set cs. g' p = (if existed then g (backup_path rid p) else None))
    \<and> (\<forall>x. x \<notin> fst ` set cs \<union> backup_path rid ` fst ` set cs \<longrightarrow> g' x = g x)"
  using assms
proof (induction cs arbitrary: e g)
  case (Cons c cs)
  obtain p existed where c: "c = (p, existed)" by (cases c)
  obtain e1 g1 where st: "rollback_one rid io c (e, g) = (e1, g1)" by (cases "rollback_one rid io c (e, g)")
  have names: "names_ok rid (map fst cs)" using Cons.prems(2) by (auto simp: names_ok_def scratch_of_def)
  have IH: "e1 = []" "\<And>q ex. (q, ex) \<in> set cs \<Longrightarrow> g' q = (if ex then g1 (backup_path rid q) else None)"
    "\<And>x. x \<notin> fst ` set cs \<union> backup_path rid ` fst ` set cs \<Longrightarrow> g' x = g1 x"
    using Cons.IH [of e1 g1] Cons.prems(1) st names by auto
  have one: "e = []" "g1 = (if existed then g(p := g (backup_path rid p), backup_path rid p := None) else g(p := None))"
    using st IH(1) by (auto simp: rollback_one_def c Let_def split: if_splits)
  have ne: "p \<noteq> q" "p \<noteq> backup_path rid q" "q \<noteq> backup_path rid p" "backup_path rid p \<noteq> backup_path rid q"
    if "q \<in> fst ` set cs" for q
    using that Cons.prems(2) names_okD [OF Cons.prems(2), of p q] names_okD [OF Cons.prems(2), of q p] c
    by (auto simp: names_ok_def)
  have p: "p \<noteq> backup_path rid p" using names_okD [OF Cons.prems(2), of p p] c by auto
  have "g' p = g1 p" using ne by (intro IH(3)) auto
  then have "g' p = (if existed then g (backup_path rid p) else None)" using one(2) p by auto
  moreover have "g' q = (if ex then g (backup_path rid q) else None)" if "(q, ex) \<in> set cs" for q ex
    using IH(2) [OF that] one(2) ne [of q] that by (force split: if_splits)
  moreover have "g' x = g x" if "x \<notin> fst ` set (c # cs) \<union> backup_path rid ` fst ` set (c # cs)" for x
    using IH(3) [of x] that one(2) c by auto
  ultimately show ?case using one(1) c by auto
qed simp

lemma tmp_cleanup_fold: "x \<notin> tmp_path rid ` fst ` set cs \<Longrightarrow> fold (\<lambda>(full, e) g. g(tmp_path rid full := None)) cs g x = g x"
  by (induction cs arbitrary: g) auto

lemma clean_backups_same: "x \<notin> scratch_of rid (fst ` set cs) \<Longrightarrow> clean_backups rid cs g x = g x"
  unfolding clean_backups_def
proof (induction cs arbitrary: g)
  case (Cons c cs)
  then show ?case by (cases c) (auto simp: scratch_of_def)
qed simp

text \<open>A rollback without errors restores every file.\<close>

lemma rollback_restores:
  assumes "rollback rid io cs g = ([], g')" "names_ok rid (map pr_path (qs @ p # ps))" "in_progress rid fs0 qs cs fs"
    and "\<And>x. x \<noteq> backup_path rid (pr_path p) \<Longrightarrow> x \<noteq> tmp_path rid (pr_path p) \<Longrightarrow> g x = fs x"
    and x: "x \<notin> scratch_of rid (set (map pr_path (qs @ p # ps)))"
  shows "g' x = fs0 x"
proof -
  have cs: "cs = map (\<lambda>q. (pr_path q, fs0 (pr_path q) \<noteq> None)) qs" "map fst cs = map pr_path qs"
    and saved: "\<And>q. q \<in> set qs \<Longrightarrow> fs0 (pr_path q) \<noteq> None \<Longrightarrow> fs (backup_path rid (pr_path q)) = fs0 (pr_path q)"
    and rest: "\<And>x. x \<notin> pr_path ` set qs \<union> scratch_of rid (pr_path ` set qs) \<Longrightarrow> fs x = fs0 x"
    using assms(3) unfolding in_progress_def by (auto simp: o_def)
  obtain g1 where g1: "fold (rollback_one rid io) cs ([], g) = ([], g1)"
      "g' = fold (\<lambda>(full, e) g. g(tmp_path rid full := None)) cs g1"
    using assms(1) by (auto simp: rollback_def split: prod.splits)
  have names: "names_ok rid (map fst cs)" using assms(2) unfolding cs(2) by (auto simp: names_ok_def scratch_of_def)
  note fold = rollback_fold [OF g1(1) names]
  have "x \<notin> tmp_path rid ` fst ` set cs" using x cs(2) by (auto simp: scratch_of_def cs(1))
  then have "g' x = g1 x" unfolding g1(2) by (rule tmp_cleanup_fold)
  also have "\<dots> = fs0 x"
  proof (cases "x \<in> pr_path ` set qs")
    case True
    then obtain q where q: "q \<in> set qs" "x = pr_path q" by blast
    have "pr_path p \<notin> pr_path ` set qs" using assms(2) by (auto simp: names_ok_def)
    then have "pr_path q \<noteq> pr_path p" using q by (metis imageI)
    then have "backup_path rid x \<noteq> backup_path rid (pr_path p)"
      using q assms(2) names_okD [OF assms(2), of x "pr_path p"] names_okD [OF assms(2), of "pr_path p" x]
      by (auto simp: names_ok_def)
    then have "g (backup_path rid x) = fs (backup_path rid x)" by (intro assms(4)) auto
    moreover have "g1 x = (if fs0 x \<noteq> None then g (backup_path rid x) else None)"
      using fold q by (force simp: cs(1))
    ultimately show ?thesis using saved [OF q(1)] q(2) by auto
  next
    case False
    have "fst ` set cs = pr_path ` set qs" by (simp add: cs(1) image_image)
    then have "g1 x = g x" using fold x False by (auto simp: scratch_of_def)
    also have "\<dots> = fs x" using x by (intro assms(4)) (auto simp: scratch_of_def)
    also have "\<dots> = fs0 x" using False x by (intro rest) (auto simp: scratch_of_def)
    finally show ?thesis .
  qed
  finally show ?thesis .
qed

lemma write_files_result:
  assumes "names_ok rid (map pr_path (qs @ ps))" "in_progress rid fs0 qs cs fs" "write_files rid io ps cs fs = (res, fs')"
  shows "case res of
      Inr cs' \<Rightarrow> in_progress rid fs0 (qs @ ps) cs' fs'
    | Inl (p, errors) \<Rightarrow> errors = [] \<longrightarrow> (\<forall>x. x \<notin> scratch_of rid (set (map pr_path (qs @ ps))) \<longrightarrow> fs' x = fs0 x)"
  using assms
proof (induction ps arbitrary: qs cs fs)
  case (Cons p ps)
  obtain ok g where one: "write_one rid (io (pr_path p)) p fs = (ok, g)" by (cases "write_one rid (io (pr_path p)) p fs")
  show ?case
  proof (cases ok)
    case True
    with one have one': "write_one rid (io (pr_path p)) p fs = (True, g)" by simp
    have "names_ok rid (map pr_path ((qs @ [p]) @ ps))" using Cons.prems(1) by simp
    from Cons.IH [OF this in_progress_step [OF Cons.prems(1,2) one']] show ?thesis
      using Cons.prems(3) one' by (simp only: append_assoc append_Cons append_Nil write_files.simps prod.case bool.case)
  next
    case False
    with one have one': "write_one rid (io (pr_path p)) p fs = (False, g)" by simp
    obtain errors g' where rb: "rollback rid io cs g = (errors, g')" by (cases "rollback rid io cs g")
    then have res: "res = Inl (pr_path p, errors)" "fs' = g'" using Cons.prems(3) one' by simp_all
    show ?thesis
    proof (cases "errors = []")
      case True
      note restored = rollback_restores [OF rb [unfolded True] Cons.prems(1,2) write_one_False [OF one']]
      show ?thesis using restored res True by auto
    qed (simp add: res)
  qed
next
  case Nil
  then show ?case by (cases res) auto
qed

lemma prepare_file_inside:
  assumes "prepare_file env proot expected fs f = Inr p"
  shows "take (length (pe_resolve env proot)) (pr_path p) = pe_resolve env proot"
proof -
  obtain full where "resolve_within_root (pe_resolve env) proot (fi_path f) = Inr full" "pr_path p = full"
    using assms by (cases "apply_in_memory (pe_unidiff env) (read_text env fs (pe_resolve env (join_path proot (fi_path f)))) f")
      (auto simp: prepare_file_def resolve_within_root_def Let_def split: sum.splits option.splits if_splits)
  then show ?thesis by (auto simp: resolve_within_root_def Let_def split: if_splits)
qed

lemma prepare_files_inside:
  "prepare_files env proot expected fs files = Inr ps \<Longrightarrow> p \<in> set ps \<Longrightarrow>
   take (length (pe_resolve env proot)) (pr_path p) = pe_resolve env proot"
proof (induction files arbitrary: ps)
  case (Cons f files)
  then obtain q where q: "prepare_file env proot expected fs f = Inr q" by (auto split: sum.splits)
  then obtain qs where "prepare_files env proot expected fs files = Inr qs" "ps = q # qs"
    using Cons.prems(1) by (cases "prepare_files env proot expected fs files") auto
  then show ?case using Cons.IH Cons.prems(2) prepare_file_inside [OF q] by auto
qed simp

text \<open>C32: A project patch whose files are different, none of them a backup or temporary name of another, is all or
  nothing, whichever of its system calls fail: an answer of success means every file has its new text (or is gone,
  where the patch deletes it), an answer of failure that every file is as it was before, and a refused patch changes
  nothing at all. Only backup and temporary names are exempt, and the only other outcome is the reported failure of
  the rollback itself. All files written are inside the project. (A patch that names a file twice is accepted, and for
  it this fails.)\<close>

theorem patch_all_or_nothing:
  assumes "parse_patch (pe_unidiff env) patch n = Inr files"
    and "prepare_files env proot expected fs files = Inr ps" "names_ok rid (map pr_path ps)"
    and "apply_project_patch env rid (Some proot) patch n expected False io fs = (outcome, fs')"
    and "x \<notin> scratch_of rid (pr_path ` set ps)"
  shows "case outcome of
      PatchResponse r \<Rightarrow>
        (if pp_success r
         then (\<forall>p \<in> set ps. x = pr_path p \<longrightarrow> fs' x = (if pr_is_delete p then None else Some (pr_new p))
                 \<and> take (length (pe_resolve env proot)) x = pe_resolve env proot)
              \<and> (x \<notin> pr_path ` set ps \<longrightarrow> fs' x = fs x)
         else fs' x = fs x)
    | RollbackFailed p errors \<Rightarrow> errors \<noteq> []
    | _ \<Rightarrow> fs' = fs"
proof (cases "validate_patch_size (length patch) = None \<and> patch_limits patch files = None")
  case False
  then show ?thesis using assms(1,4) by (auto simp: apply_project_patch_def split: option.splits)
next
  case True
  then have run: "write_patch rid proot io ps fs = (outcome, fs')"
    using assms(1,2,4) by (simp add: apply_project_patch_def)
  obtain res g where wf: "write_files rid io ps [] fs = (res, g)" by (cases "write_files rid io ps [] fs")
  have "in_progress rid fs [] [] fs" by (simp add: in_progress_def)
  from write_files_result [of rid "[]", OF _ this wf] assms(3)
  have result: "case res of
      Inr cs' \<Rightarrow> in_progress rid fs ps cs' g
    | Inl (p, errors) \<Rightarrow> errors = [] \<longrightarrow> (\<forall>x. x \<notin> scratch_of rid (set (map pr_path ps)) \<longrightarrow> g x = fs x)"
    by (simp only: append_Nil)
  show ?thesis
  proof (cases res)
    case (Inl failed)
    then show ?thesis
      using run wf result assms(5) by (cases failed) (auto simp: write_patch_def split: if_splits)
  next
    case (Inr cs)
    then obtain r where out: "outcome = PatchResponse r" "pp_success r" "fs' = clean_backups rid cs g"
      using run wf by (auto simp: write_patch_def)
    have prog: "in_progress rid fs ps cs g" using result Inr by simp
    then have "fst ` set cs = pr_path ` set ps" by (auto simp: in_progress_def image_image)
    then have same: "fs' x = g x" using clean_backups_same [of x rid cs g] assms(5) out(3) by simp
    have "fs' x = (if pr_is_delete p then None else Some (pr_new p))
        \<and> take (length (pe_resolve env proot)) x = pe_resolve env proot" if "p \<in> set ps" "x = pr_path p" for p
      using that prog same prepare_files_inside [OF assms(2) that(1)] unfolding in_progress_def by simp
    moreover have "x \<notin> pr_path ` set ps \<Longrightarrow> fs' x = fs x"
      using prog same assms(5) unfolding in_progress_def by simp
    ultimately show ?thesis unfolding out(1) using out(2) by simp
  qed
qed

subsection \<open>A concrete transaction\<close>

definition demo_env :: patch_env where
  "demo_env = \<lparr>pe_unidiff = demo_unidiff, pe_resolve = id, pe_decode = id, pe_sha256 = id\<rparr>"

definition demo_fs :: fs where
  "demo_fs = [[''r'', ''f''] \<mapsto> demo_text, [''r'', ''g''] \<mapsto> ''g'']"

definition demo_io :: "fs_path \<Rightarrow> file_io" where
  "demo_io p = \<lparr>io_copy = True, io_remove = True, io_write = True, io_fsync = True, io_rename = True, io_left = None,
     io_rollback = True\<rparr>"

definition demo_new :: string where
  "demo_new = [CHR ''a'', newline, CHR ''c'', newline]"

abbreviation demo_patch :: string where
  "demo_patch \<equiv> rebuild_patch_for_file demo_file"

definition demo_prepared :: prepared where
  "demo_prepared = \<lparr>pr_path = [''r'', ''f''], pr_original = demo_text, pr_new = demo_new, pr_hunks = 1,
     pr_is_delete = False\<rparr>"

lemma demo_parsed: "parse_patch (pe_unidiff demo_env) demo_patch 0 = Inr [demo_file]"
  by (simp add: demo_env_def parse_patch_def demo_unidiff_def Let_def parse_file_def strip_path_def demo_file_def)

lemma demo_prepares: "prepare_files demo_env [''r''] [] demo_fs [demo_file] = Inr [demo_prepared]"
proof -
  have read: "read_text demo_env demo_fs [''r'', ''f''] = demo_text"
    by (simp add: read_text_def demo_env_def demo_fs_def demo_text_def newline_def)
  have "apply_in_memory demo_unidiff demo_text demo_file = Inr demo_new"
    by (simp add: apply_in_memory_def demo_unidiff_def demo_lines)
       (simp add: demo_file_def demo_hunk_def apply_hunk_def check_line_matches_def chomp_def newline_def demo_new_def)
  moreover have "resolve_within_root (pe_resolve demo_env) [''r''] (fi_path demo_file) = Inr [''r'', ''f'']"
    by (simp add: resolve_within_root_def demo_env_def demo_file_def join_path_def path_parts_def startswith_def)
  moreover have "file_checks demo_env [] demo_fs demo_file [''r'', ''f''] = None"
    by (simp add: file_checks_def demo_fs_def demo_text_def MAX_FILE_SIZE_def)
  ultimately show ?thesis
    by (simp add: prepare_file_def read demo_prepared_def demo_file_def) (simp add: demo_env_def)
qed

lemma demo_names: "names_ok ''id'' (map pr_path [demo_prepared])"
  by (simp add: names_ok_def scratch_of_def scratch_name_def demo_prepared_def)

lemma demo_run:
  "\<exists>r fs'. apply_project_patch demo_env ''id'' (Some [''r'']) demo_patch 0 [] False demo_io demo_fs = (PatchResponse r, fs')
     \<and> pp_success r"
proof -
  have "validate_patch_size (length demo_patch) = None" "patch_limits demo_patch [demo_file] = None"
    by (simp_all add: validate_patch_size_def MAX_PATCH_SIZE_def rebuild_patch_for_file_def demo_file_def demo_hunk_def
        hunk_text_def patch_limits_def validate_file_count_def MAX_FILES_def validate_hunk_count_def MAX_HUNKS_def
        endswith_def chomp_def newline_def nat_str.simps)
  moreover obtain cs g where "write_files ''id'' demo_io [demo_prepared] [] demo_fs = (Inr cs, g)"
    by (simp add: write_one_def demo_io_def demo_prepared_def Let_def split: prod.splits)
  ultimately show ?thesis
    by (simp add: apply_project_patch_def demo_parsed demo_prepares write_patch_def
        del: prepare_files.simps write_files.simps)
qed

lemma patch_all_or_nothing_witness:
  "snd (apply_project_patch demo_env ''id'' (Some [''r'']) demo_patch 0 [] False demo_io demo_fs) [''r'', ''f'']
   = Some demo_new"
proof -
  obtain r fs' where run:
    "apply_project_patch demo_env ''id'' (Some [''r'']) demo_patch 0 [] False demo_io demo_fs = (PatchResponse r, fs')"
    "pp_success r"
    using demo_run by blast
  have "[''r'', ''f''] \<notin> scratch_of ''id'' (pr_path ` set [demo_prepared])"
    by (simp add: scratch_of_def scratch_name_def demo_prepared_def)
  from patch_all_or_nothing [OF demo_parsed demo_prepares demo_names run(1) this] show ?thesis
    using run by (simp add: demo_prepared_def)
qed

end
