(* ===== verification/WorkspacePolicy.thy ===== *)
theory WorkspacePolicy
  imports PyFiles
begin

text \<open>
  \<open>app/workspace/policy.py\<close>: the policy that every file tool of a project asks. A check is a function of the file system
  as it is at that moment; the texts of the errors are the constructors with their data.
\<close>

datatype policy_error =
    ScopeDenied string
  | UnknownProject string
  | RootMissing path
  | TraversalRejected string
  | SystemPath string
  | OutsideAllowed path
  | SymlinkEscape path
  | NotUnderRoot
  | HiddenPath string
  | LinkLoop

definition scope_implies :: "string \<Rightarrow> string list" where
  "scope_implies s =
     (if s = ''project:docker'' then [''project:execute'', ''project:write'', ''project:read'']
      else if s = ''project:execute'' then [''project:write'', ''project:read'']
      else if s = ''project:write'' then [''project:read'']
      else [])"

definition HIDDEN_DIR_PATTERNS :: "string list" where
  "HIDDEN_DIR_PATTERNS =
     [''.env'', ''.env.*'', ''.env.local'', ''.env.production'', ''.git'', ''.ssh'', ''.gnupg'', ''.config'']"

definition SECRET_FILE_PATTERNS :: "string list" where
  "SECRET_FILE_PATTERNS =
     [''.env'', ''.env.*'', ''*.pem'', ''*.key'', ''*.p12'', ''*.pfx'', ''*.jks'', ''id_rsa*'', ''id_ed25519*'', ''id_ecdsa*'',
      ''*.kdbx'', ''*.keychain'']"

definition hidden_parts :: "path \<Rightarrow> bool" where
  "hidden_parts parts \<longleftrightarrow>
     list_ex (\<lambda>part. list_ex (fnmatch part) HIDDEN_DIR_PATTERNS) parts
     \<or> list_ex (fnmatch (path_name parts)) SECRET_FILE_PATTERNS"

text \<open>An absolute path has the root as a further part, which no pattern matches.\<close>

definition is_hidden_or_secret_path :: "string \<Rightarrow> bool" where
  "is_hidden_or_secret_path relative = hidden_parts (path_parts relative)"

definition SYSTEM_FORBIDDEN :: "string list" where
  "SYSTEM_FORBIDDEN =
     [''/etc/passwd'', ''/etc/shadow'', ''/etc/sudoers'', ''/root/.ssh'', ''/root/.gnupg'', ''/proc'', ''/sys'', ''/dev'']"

record workspace_policy =
  project_roots :: "(string \<times> path) list"
  allowed_roots :: "path list"
  granted_scopes :: "string list"

text \<open>The roots are resolved once, when the policy is made.\<close>

fun resolve_all :: "file_system \<Rightarrow> path list \<Rightarrow> path list option" where
  "resolve_all fs [] = Some []"
| "resolve_all fs (p # ps) =
     (case resolve fs p of
        None \<Rightarrow> None
      | Some q \<Rightarrow> map_option ((#) q) (resolve_all fs ps))"

definition new_policy ::
    "file_system \<Rightarrow> (string \<times> path) list \<Rightarrow> path list \<Rightarrow> string list \<Rightarrow> workspace_policy option" where
  "new_policy fs roots allowed granted =
     (case resolve_all fs (map snd roots) of
        None \<Rightarrow> None
      | Some rs \<Rightarrow>
          map_option (\<lambda>as. \<lparr>project_roots = zip (map fst roots) rs, allowed_roots = as, granted_scopes = granted\<rparr>)
            (resolve_all fs allowed))"

definition expand_scopes :: "string list \<Rightarrow> string list" where
  "expand_scopes scopes = scopes @ concat (map scope_implies scopes)"

definition require_workspace_scope :: "workspace_policy \<Rightarrow> string \<Rightarrow> policy_error option" where
  "require_workspace_scope pol required =
     (if required \<in> set (expand_scopes (granted_scopes pol)) then None else Some (ScopeDenied required))"

definition resolve_project_root :: "workspace_policy \<Rightarrow> file_system \<Rightarrow> string \<Rightarrow> policy_error + path" where
  "resolve_project_root pol fs project_id =
     (case map_of (project_roots pol) project_id of
        None \<Rightarrow> Inl (UnknownProject project_id)
      | Some proot \<Rightarrow> if path_exists fs proot then Inr proot else Inl (RootMissing proot))"

definition check_traversal :: "string \<Rightarrow> policy_error option" where
  "check_traversal relative =
     (if relative = [] \<or> is_absolute relative \<or> startswith relative ''~'' \<or> ''..'' \<in> set (path_parts relative)
      then Some (TraversalRejected relative) else None)"

fun check_system_forbidden_in :: "string list \<Rightarrow> path \<Rightarrow> policy_error option" where
  "check_system_forbidden_in [] resolved = None"
| "check_system_forbidden_in (f # fs) resolved =
     (if abs_str resolved = f \<or> startswith (abs_str resolved) (f @ ''/'') then Some (SystemPath f)
      else check_system_forbidden_in fs resolved)"

definition check_system_forbidden :: "path \<Rightarrow> policy_error option" where
  "check_system_forbidden = check_system_forbidden_in SYSTEM_FORBIDDEN"

definition check_allowed_roots :: "workspace_policy \<Rightarrow> path \<Rightarrow> policy_error option" where
  "check_allowed_roots pol resolved =
     (if list_ex (is_relative_to resolved) (allowed_roots pol) then None else Some (OutsideAllowed resolved))"

fun linked_component :: "file_system \<Rightarrow> path \<Rightarrow> path \<Rightarrow> policy_error option" where
  "linked_component fs partial [] = None"
| "linked_component fs partial (part # parts) =
     (let partial' = partial @ [part] in
      if path_exists fs partial' \<and> is_symlink fs partial' then Some (SymlinkEscape partial')
      else linked_component fs partial' parts)"

definition check_no_symlink_components :: "file_system \<Rightarrow> path \<Rightarrow> path \<Rightarrow> policy_error option" where
  "check_no_symlink_components fs p proot =
     (case relative_to p proot of
        None \<Rightarrow> Some NotUnderRoot
      | Some parts \<Rightarrow> linked_component fs proot parts)"

definition check_symlink_escape :: "workspace_policy \<Rightarrow> file_system \<Rightarrow> path \<Rightarrow> path \<Rightarrow> policy_error + path" where
  "check_symlink_escape pol fs p proot =
     (case resolve fs p of
        None \<Rightarrow> Inl LinkLoop
      | Some resolved \<Rightarrow>
          if \<not> is_relative_to resolved proot then Inl (SymlinkEscape p)
          else
            (case check_allowed_roots pol resolved of
               Some e \<Rightarrow> Inl e
             | None \<Rightarrow> Inr resolved))"

text \<open>What an existing path must satisfy: its real place is in the project, allowed and not the system's.\<close>

definition check_existing :: "workspace_policy \<Rightarrow> file_system \<Rightarrow> path \<Rightarrow> path \<Rightarrow> policy_error option" where
  "check_existing pol fs full proot =
     (if path_exists fs full then
        (case check_symlink_escape pol fs full proot of
           Inl e \<Rightarrow> Some e
         | Inr resolved \<Rightarrow> check_system_forbidden resolved)
      else None)"

text \<open>The scope, the shape of the path and the root, in this order.\<close>

definition checked_root :: "workspace_policy \<Rightarrow> file_system \<Rightarrow> string \<Rightarrow> string \<Rightarrow> string \<Rightarrow> policy_error + path" where
  "checked_root pol fs scope project_id relative =
     (case require_workspace_scope pol scope of
        Some e \<Rightarrow> Inl e
      | None \<Rightarrow>
          (case check_traversal relative of
             Some e \<Rightarrow> Inl e
           | None \<Rightarrow> resolve_project_root pol fs project_id))"

definition validate_read :: "workspace_policy \<Rightarrow> file_system \<Rightarrow> string \<Rightarrow> string \<Rightarrow> policy_error + path" where
  "validate_read pol fs project_id relative =
     (case checked_root pol fs ''project:read'' project_id relative of
        Inl e \<Rightarrow> Inl e
      | Inr proot \<Rightarrow>
          (let full = join_path proot relative in
           case check_existing pol fs full proot of
             Some e \<Rightarrow> Inl e
           | None \<Rightarrow>
               if path_exists fs full \<and> is_hidden_or_secret_path relative then Inl (HiddenPath relative) else Inr full))"

definition validate_write :: "workspace_policy \<Rightarrow> file_system \<Rightarrow> string \<Rightarrow> string \<Rightarrow> policy_error + path" where
  "validate_write pol fs project_id relative =
     (case checked_root pol fs ''project:write'' project_id relative of
        Inl e \<Rightarrow> Inl e
      | Inr proot \<Rightarrow>
          (let full = join_path proot relative; parent = butlast full in
           case check_no_symlink_components fs full proot of
             Some e \<Rightarrow> Inl e
           | None \<Rightarrow>
               (case check_existing pol fs full proot of
                  Some e \<Rightarrow> Inl e
                | None \<Rightarrow>
                    if is_hidden_or_secret_path relative then Inl (HiddenPath relative)
                    else if path_exists fs parent then map_sum id (\<lambda>_. full) (check_symlink_escape pol fs parent proot)
                    else Inr full)))"

definition validate_execute ::
    "workspace_policy \<Rightarrow> file_system \<Rightarrow> string \<Rightarrow> string option \<Rightarrow> policy_error + path option" where
  "validate_execute pol fs project_id relative =
     (case relative of
        None \<Rightarrow>
          (case require_workspace_scope pol ''project:execute'' of
             Some e \<Rightarrow> Inl e
           | None \<Rightarrow>
               (case resolve_project_root pol fs project_id of
                  Inl e \<Rightarrow> Inl e
                | Inr proot \<Rightarrow> (case check_allowed_roots pol proot of Some e \<Rightarrow> Inl e | None \<Rightarrow> Inr None)))
      | Some rel \<Rightarrow>
          (case checked_root pol fs ''project:execute'' project_id rel of
             Inl e \<Rightarrow> Inl e
           | Inr proot \<Rightarrow>
               (let full = join_path proot rel in
                case check_existing pol fs full proot of Some e \<Rightarrow> Inl e | None \<Rightarrow> Inr (Some full))))"

definition validate_docker :: "workspace_policy \<Rightarrow> file_system \<Rightarrow> string \<Rightarrow> policy_error + path" where
  "validate_docker pol fs project_id =
     (case require_workspace_scope pol ''project:docker'' of
        Some e \<Rightarrow> Inl e
      | None \<Rightarrow>
          (case resolve_project_root pol fs project_id of
             Inl e \<Rightarrow> Inl e
           | Inr proot \<Rightarrow> (case check_allowed_roots pol proot of Some e \<Rightarrow> Inl e | None \<Rightarrow> Inr proot)))"

definition validate_search :: "workspace_policy \<Rightarrow> file_system \<Rightarrow> string \<Rightarrow> string \<Rightarrow> policy_error + path" where
  "validate_search pol fs project_id relative =
     (case checked_root pol fs ''project:read'' project_id relative of
        Inl e \<Rightarrow> Inl e
      | Inr proot \<Rightarrow>
          (let full = join_path proot relative in
           case check_existing pol fs full proot of Some e \<Rightarrow> Inl e | None \<Rightarrow> Inr full))"

subsection \<open>Lemmas\<close>

lemma abs_str_prefix: "prefix p q \<Longrightarrow> p \<noteq> [] \<Longrightarrow> abs_str q = abs_str p \<or> startswith (abs_str q) (abs_str p @ ''/'')"
proof (induction p arbitrary: q)
  case (Cons c p)
  then obtain r where q: "q = c # r" "prefix p r" by (cases q) auto
  show ?case
  proof (cases p)
    case Nil
    then show ?thesis using q by (cases r) (auto simp: abs_str_def startswith_iff)
  next
    case (Cons d p')
    with q have "r \<noteq> []" by auto
    then show ?thesis using Cons.IH [OF q(2)] Cons q(1) by (cases r) (auto simp: abs_str_def startswith_iff)
  qed
qed simp

lemma system_forbidden_paths: "f \<in> set SYSTEM_FORBIDDEN \<Longrightarrow> abs_str (path_parts f) = f \<and> path_parts f \<noteq> []"
  by (auto simp: SYSTEM_FORBIDDEN_def abs_str_def path_parts_def)

lemma check_system_forbidden_in_None:
  "check_system_forbidden_in fs q = None \<longleftrightarrow> (\<forall>f \<in> set fs. abs_str q \<noteq> f \<and> \<not> startswith (abs_str q) (f @ ''/''))"
  by (induction fs) auto

lemma check_system_forbidden_None:
  assumes "check_system_forbidden q = None" "f \<in> set SYSTEM_FORBIDDEN"
  shows "\<not> prefix (path_parts f) q"
  using assms abs_str_prefix [of "path_parts f" q] system_forbidden_paths [OF assms(2)]
  by (auto simp: check_system_forbidden_def check_system_forbidden_in_None)

text \<open>What a real place of a project is.\<close>

definition in_project :: "workspace_policy \<Rightarrow> path \<Rightarrow> path \<Rightarrow> bool" where
  "in_project pol proot q \<longleftrightarrow>
     prefix proot q \<and> (\<exists>a \<in> set (allowed_roots pol). prefix a q)
     \<and> (\<forall>f \<in> set SYSTEM_FORBIDDEN. \<not> prefix (path_parts f) q)"

lemma check_existing_inside:
  assumes "check_existing pol fs full proot = None" "locate fs full = Some q"
  shows "in_project pol proot q"
proof -
  have "resolve fs full = Some q" using assms(2) by (rule resolve_locates)
  then have "check_symlink_escape pol fs full proot = Inr q" "check_system_forbidden q = None"
    using assms by (auto simp: check_existing_def path_exists_def check_symlink_escape_def split: sum.splits option.splits if_splits)
  then show ?thesis using check_system_forbidden_None
    by (auto simp: in_project_def check_symlink_escape_def check_allowed_roots_def is_relative_to_def list_ex_iff
        split: option.splits if_splits)
qed

lemma checked_rootD:
  assumes "checked_root pol fs scope project_id relative = Inr proot"
  shows "scope \<in> set (expand_scopes (granted_scopes pol))" "check_traversal relative = None"
    "map_of (project_roots pol) project_id = Some proot" "path_exists fs proot"
  using assms by (auto simp: checked_root_def require_workspace_scope_def resolve_project_root_def split: option.splits if_splits)

lemma join_path_checked: "check_traversal relative = None \<Longrightarrow> join_path proot relative = proot @ path_parts relative"
  by (auto simp: check_traversal_def join_path_def split: if_splits)

lemma path_parts_proper: "check_traversal relative = None \<Longrightarrow> list_all proper_name (path_parts relative)"
  by (auto simp: check_traversal_def list_all_iff proper_name_def path_parts_def split: if_splits)

text \<open>C35: Reading stays in the project, whatever links there are: a path that \<open>validate_read\<close> accepts, when the
  kernel resolves it to an existing place, leads into the root of that project, into an allowed root, to none of
  the system paths, and its own components are not hidden or secret; the scope was granted.\<close>

theorem read_stays_inside:
  assumes "validate_read pol fs project_id relative = Inr full" "locate fs full = Some q"
  shows "\<exists>proot. map_of (project_roots pol) project_id = Some proot \<and> in_project pol proot q
    \<and> full = proot @ path_parts relative \<and> \<not> hidden_parts (path_parts relative)
    \<and> ''project:read'' \<in> set (expand_scopes (granted_scopes pol))"
proof -
  obtain proot where r: "checked_root pol fs ''project:read'' project_id relative = Inr proot"
    using assms(1) by (auto simp: validate_read_def split: sum.splits)
  note root = checked_rootD [OF r]
  have full: "full = proot @ path_parts relative" "check_existing pol fs full proot = None" "\<not> is_hidden_or_secret_path relative"
    using assms r join_path_checked [OF root(2)]
    by (auto simp: validate_read_def Let_def path_exists_def split: option.splits if_splits)
  then show ?thesis using root check_existing_inside [OF full(2) assms(2)] by (auto simp: is_hidden_or_secret_path_def)
qed

text \<open>The same containment for the other operations.\<close>

lemma search_stays_inside:
  assumes "validate_search pol fs project_id relative = Inr full" "locate fs full = Some q"
  shows "\<exists>proot. map_of (project_roots pol) project_id = Some proot \<and> in_project pol proot q"
proof -
  obtain proot where r: "checked_root pol fs ''project:read'' project_id relative = Inr proot"
    using assms(1) by (auto simp: validate_search_def split: sum.splits)
  then have "check_existing pol fs full proot = None"
    using assms(1) by (auto simp: validate_search_def Let_def split: option.splits)
  then show ?thesis using checked_rootD(3) [OF r] check_existing_inside assms(2) by blast
qed

lemma execute_stays_inside:
  assumes "validate_execute pol fs project_id (Some relative) = Inr (Some full)" "locate fs full = Some q"
  shows "\<exists>proot. map_of (project_roots pol) project_id = Some proot \<and> in_project pol proot q"
proof -
  obtain proot where r: "checked_root pol fs ''project:execute'' project_id relative = Inr proot"
    using assms(1) by (auto simp: validate_execute_def split: sum.splits)
  then have "check_existing pol fs full proot = None"
    using assms(1) by (auto simp: validate_execute_def Let_def split: option.splits)
  then show ?thesis using checked_rootD(3) [OF r] check_existing_inside assms(2) by blast
qed

lemma linked_component_None:
  assumes "linked_component fs base parts = None" "prefix xs parts" "xs \<noteq> []"
  shows "\<not> (path_exists fs (base @ xs) \<and> is_symlink fs (base @ xs))"
  using assms
proof (induction parts arbitrary: base xs)
  case (Cons p ps)
  then obtain ys where ys: "xs = p # ys" "prefix ys ps" by (cases xs) auto
  show ?case
  proof (cases ys)
    case Nil
    then show ?thesis using Cons.prems(1) ys by (auto simp: Let_def split: if_splits)
  next
    case (Cons y ys')
    then show ?thesis
      using Cons.IH [of "base @ [p]" ys] Cons.prems(1) ys by (auto simp: Let_def split: if_splits)
  qed
qed simp

lemma validate_writeD:
  assumes "validate_write pol fs project_id relative = Inr full"
  shows "\<exists>proot. resolve_project_root pol fs project_id = Inr proot \<and> map_of (project_roots pol) project_id = Some proot
    \<and> full = proot @ path_parts relative \<and> list_all proper_name (path_parts relative)
    \<and> \<not> hidden_parts (path_parts relative)
    \<and> ''project:write'' \<in> set (expand_scopes (granted_scopes pol))
    \<and> check_existing pol fs full proot = None"
proof -
  obtain proot where r: "checked_root pol fs ''project:write'' project_id relative = Inr proot"
    using assms by (auto simp: validate_write_def split: sum.splits)
  note root = checked_rootD [OF r]
  have "resolve_project_root pol fs project_id = Inr proot" using r by (auto simp: checked_root_def split: option.splits)
  moreover have "full = proot @ path_parts relative" "\<not> is_hidden_or_secret_path relative" "check_existing pol fs full proot = None"
    using assms r join_path_checked [OF root(2)]
    by (auto simp: validate_write_def Let_def split: option.splits if_splits sum.splits)
  ultimately show ?thesis using root path_parts_proper [OF root(2)] by (auto simp: is_hidden_or_secret_path_def)
qed

text \<open>A write through an existing link is refused.\<close>

lemma write_through_link_refused:
  assumes "resolve_project_root pol fs project_id = Inr proot" "check_traversal relative = None"
    "require_workspace_scope pol ''project:write'' = None" "prefix xs (path_parts relative)" "xs \<noteq> []"
    "path_exists fs (proot @ xs)" "is_symlink fs (proot @ xs)"
  shows "\<exists>p. validate_write pol fs project_id relative = Inl (SymlinkEscape p)"
proof -
  have only: "linked_component fs base parts = Some e \<Longrightarrow> \<exists>p. e = SymlinkEscape p" for base parts e
    by (induction parts arbitrary: base) (auto simp: Let_def split: if_splits)
  have "linked_component fs proot (path_parts relative) \<noteq> None"
    using linked_component_None [OF _ assms(4,5)] assms(6,7) by blast
  then obtain p where "linked_component fs proot (path_parts relative) = Some (SymlinkEscape p)"
    using only by blast
  then show ?thesis
    using assms(1-3) join_path_checked [OF assms(2), of proot]
    by (simp add: validate_write_def checked_root_def check_no_symlink_components_def relative_to_def Let_def)
qed

text \<open>The inclusion of the scopes.\<close>

lemma scope_chain:
  "''project:docker'' \<in> set gs \<Longrightarrow> {''project:execute'', ''project:write'', ''project:read''} \<subseteq> set (expand_scopes gs)"
  "''project:execute'' \<in> set gs \<Longrightarrow> {''project:write'', ''project:read''} \<subseteq> set (expand_scopes gs)"
  "''project:write'' \<in> set gs \<Longrightarrow> ''project:read'' \<in> set (expand_scopes gs)"
  by (auto simp: expand_scopes_def scope_implies_def intro: bexI)

subsection \<open>A concrete project\<close>

text \<open>A project with a secret file, a link to it under a harmless name, a link out of the project and a dangling link.\<close>

definition demo_tree :: file_system where
  "demo_tree =
     [[] \<mapsto> Directory, [''w''] \<mapsto> Directory, [''w'', ''p''] \<mapsto> Directory, [''etc''] \<mapsto> Directory,
      [''etc'', ''passwd''] \<mapsto> File 420 ''users'', [''w'', ''p'', ''a.txt''] \<mapsto> File 384 ''hello'',
      [''w'', ''p'', ''.env''] \<mapsto> File 384 ''secret'', [''w'', ''p'', ''notes.txt''] \<mapsto> Symlink ''.env'',
      [''w'', ''p'', ''out''] \<mapsto> Symlink ''../../etc'', [''w'', ''p'', ''gone''] \<mapsto> Symlink ''/tmp/x'']"

definition demo_policy :: workspace_policy where
  "demo_policy = \<lparr>project_roots = [(''p'', [''w'', ''p''])], allowed_roots = [[''w'']], granted_scopes = [''project:write'']\<rparr>"

lemmas demo_tree_walk = locate_def MAXSYMLINKS_def path_exists_def demo_tree_def link_base_def path_parts_def

lemma demo_tree_located:
  "locate demo_tree [''w'', ''p''] = Some [''w'', ''p'']"
  "locate demo_tree [''w'', ''p'', ''a.txt''] = Some [''w'', ''p'', ''a.txt'']"
  "locate demo_tree [''w'', ''p'', ''notes.txt''] = Some [''w'', ''p'', ''.env'']"
  "locate demo_tree [''w'', ''p'', ''out''] = Some [''etc'']"
  "locate demo_tree [''w'', ''p'', ''gone''] = None"
  by (simp_all add: demo_tree_walk)

lemma demo_tree_root: "checked_root demo_policy demo_tree ''project:read'' ''p'' relative
    = (case check_traversal relative of Some e \<Rightarrow> Inl e | None \<Rightarrow> Inr [''w'', ''p''])"
  using demo_tree_located(1)
  by (simp add: checked_root_def require_workspace_scope_def expand_scopes_def scope_implies_def demo_policy_def
      resolve_project_root_def path_exists_def split: option.split)

lemma demo_tree_inside: "check_existing demo_policy demo_tree p [''w'', ''p''] = None"
  if "locate demo_tree p = Some [''w'', ''p'', f]" for p f
  using that resolve_locates [OF that]
  by (simp add: check_existing_def path_exists_def check_symlink_escape_def is_relative_to_def check_allowed_roots_def
      demo_policy_def check_system_forbidden_def SYSTEM_FORBIDDEN_def abs_str_def)

lemmas demo_name_simps = path_parts_def hidden_parts_def HIDDEN_DIR_PATTERNS_def SECRET_FILE_PATTERNS_def path_name_def
  fnmatch_def class_end_def

lemma demo_tree_reads:
  "validate_read demo_policy demo_tree ''p'' ''a.txt'' = Inr [''w'', ''p'', ''a.txt'']"
  "validate_read demo_policy demo_tree ''p'' ''notes.txt'' = Inr [''w'', ''p'', ''notes.txt'']"
  using demo_tree_inside [OF demo_tree_located(2)] demo_tree_inside [OF demo_tree_located(3)]
  by (simp_all add: validate_read_def demo_tree_root check_traversal_def join_path_def is_hidden_or_secret_path_def demo_name_simps)

text \<open>
  The names are checked as they are written, not where they lead: a link inside the project makes a secret file
  readable.
\<close>

lemma link_reveals_secret:
  "validate_read demo_policy demo_tree ''p'' ''notes.txt'' = Inr [''w'', ''p'', ''notes.txt'']"
  "locate demo_tree [''w'', ''p'', ''notes.txt''] = Some [''w'', ''p'', ''.env'']"
  "is_hidden_or_secret_path ''.env''"
  by (simp_all add: demo_tree_reads demo_tree_located is_hidden_or_secret_path_def demo_name_simps)

lemma read_stays_inside_witness: "in_project demo_policy [''w'', ''p''] [''w'', ''p'', ''a.txt'']"
proof -
  obtain proot where "map_of (project_roots demo_policy) ''p'' = Some proot" "in_project demo_policy proot [''w'', ''p'', ''a.txt'']"
    using read_stays_inside [OF demo_tree_reads(1) demo_tree_located(2)] by blast
  then show ?thesis by (simp add: demo_policy_def)
qed

text \<open>\<open>validate_write\<close> itself lets a dangling link through, which does not exist for it; its callers look again.\<close>

lemma dangling_link_passes:
  "check_no_symlink_components demo_tree [''w'', ''p'', ''gone''] [''w'', ''p''] = None"
  "is_symlink demo_tree [''w'', ''p'', ''gone'']"
  using demo_tree_located
  by (simp_all add: check_no_symlink_components_def relative_to_def path_exists_def is_symlink_def entry_of_def demo_tree_def)

end
