(* ===== verification/WorkspaceEdit.thy ===== *)
theory WorkspaceEdit
  imports WorkspacePolicy PatchApply
begin

text \<open>
  \<open>app/workspace/edit.py\<close> and \<open>app/workspace/receipts.py\<close>: writing, editing and patching one file of a project. Which
  system calls fail is an argument, as are SHA-256 and the two functions of \<open>difflib\<close>. Text is held as its UTF-8
  bytes. A file carries its permission bits.
\<close>

definition WRITE_MAX_BYTES :: nat where
  "WRITE_MAX_BYTES = 1000000"

definition CREATE_PARENTS_MAX_DEPTH :: nat where
  "CREATE_PARENTS_MAX_DEPTH = 16"

definition CREATE_PARENTS_MAX_COMPONENT_BYTES :: nat where
  "CREATE_PARENTS_MAX_COMPONENT_BYTES = 255"

text \<open>\<open>OSRaised\<close> is an error of the system that no handler turns into one of the tool.\<close>

datatype write_error =
    Refused policy_error
  | MissingFile
  | IsDirectory
  | BinaryContent
  | FileTooBig nat nat
  | NotUtf8
  | ContentTooBig nat
  | ParentMissing
  | ParentTooDeep
  | ParentNameTooLong
  | ParentNotDirectory
  | ParentCreationFailed
  | WriteFailed
  | VerificationFailed
  | EmptyOldString
  | OldStringNotFound
  | NoHunks
  | HunkStartOutOfRange nat
  | HunkLineOutOfRange nat nat
  | HunkMismatch nat nat string string
  | OSRaised

record write_io =
  wi_tmp :: string
  wi_open :: bool
  wi_write :: bool
  wi_partial :: string
  wi_chmod :: bool
  wi_replace :: bool
  wi_unlink :: bool
  wi_read :: bool
  wi_mkdir :: "path \<Rightarrow> bool"

definition chunk_binary :: "string \<Rightarrow> bool" where
  "chunk_binary content \<longleftrightarrow> CHR 0x00 \<in> set (take 512 content)"

definition is_binary_path :: "write_io \<Rightarrow> file_system \<Rightarrow> path \<Rightarrow> bool" where
  "is_binary_path io fs p \<longleftrightarrow>
     (case file_at fs p of
        Some (m, c) \<Rightarrow> wi_read io \<and> chunk_binary c
      | None \<Rightarrow> False)"

definition exact_read :: "write_io \<Rightarrow> file_system \<Rightarrow> path \<Rightarrow> nat \<Rightarrow> write_error + string" where
  "exact_read io fs p max_bytes =
     (if \<not> path_exists fs p then Inl MissingFile
      else if is_dir fs p then Inl IsDirectory
      else if is_binary_path io fs p then Inl BinaryContent
      else
        (case file_at fs p of
           None \<Rightarrow> Inl OSRaised
         | Some (m, content) \<Rightarrow>
             if max_bytes < length content then Inl (FileTooBig (length content) max_bytes)
             else if \<not> wi_read io then Inl OSRaised
             else if \<not> utf8_valid content then Inl NotUtf8
             else Inr content))"

fun linked_part :: "file_system \<Rightarrow> path \<Rightarrow> path \<Rightarrow> policy_error option" where
  "linked_part fs partial [] = None"
| "linked_part fs partial (part # parts) =
     (let partial' = partial @ [part] in
      if is_symlink fs partial' then Some (SymlinkEscape partial') else linked_part fs partial' parts)"

definition symlink_safe_preflight :: "file_system \<Rightarrow> path \<Rightarrow> path \<Rightarrow> policy_error option" where
  "symlink_safe_preflight fs target proot =
     (case relative_to target proot of
        None \<Rightarrow> Some NotUnderRoot
      | Some parts \<Rightarrow> linked_part fs proot parts)"

definition validate_parent_creation_parts :: "path \<Rightarrow> write_error option" where
  "validate_parent_creation_parts parts =
     (if CREATE_PARENTS_MAX_DEPTH < length parts then Some ParentTooDeep
      else if list_ex (\<lambda>part. CREATE_PARENTS_MAX_COMPONENT_BYTES < length part) parts then Some ParentNameTooLong
      else None)"

text \<open>\<open>mkdir\<close>: the parent must be a directory and the name free.\<close>

definition mkdir :: "file_system \<Rightarrow> path \<Rightarrow> file_system option" where
  "mkdir fs p =
     (case entry_of fs p of
        None \<Rightarrow> None
      | Some e \<Rightarrow> if fs e = None then Some (fs(e \<mapsto> Directory)) else None)"

text \<open>The loop over the components; the directories made so far stay when it fails.\<close>

fun make_parents ::
    "write_io \<Rightarrow> path \<Rightarrow> path \<Rightarrow> path list \<Rightarrow> file_system \<Rightarrow> (write_error + path list) \<times> file_system" where
  "make_parents io current [] created fs = (Inr created, fs)"
| "make_parents io current (part # parts) created fs =
     (let current' = current @ [part] in
      if is_symlink fs current' then (Inl (Refused (SymlinkEscape current')), fs)
      else if path_exists fs current' then
        (if \<not> is_dir fs current' then (Inl ParentNotDirectory, fs) else make_parents io current' parts created fs)
      else
        (case (if wi_mkdir io current' then mkdir fs current' else None) of
           None \<Rightarrow> (Inl ParentCreationFailed, fs)
         | Some fs' \<Rightarrow> make_parents io current' parts (created @ [current']) fs'))"

definition create_parent_directories ::
    "write_io \<Rightarrow> file_system \<Rightarrow> path \<Rightarrow> path \<Rightarrow> (write_error + path list) \<times> file_system" where
  "create_parent_directories io fs target proot =
     (case relative_to (butlast target) proot of
        None \<Rightarrow> (Inl (Refused NotUnderRoot), fs)
      | Some parts \<Rightarrow>
          (case validate_parent_creation_parts parts of
             Some e \<Rightarrow> (Inl e, fs)
           | None \<Rightarrow>
               (case make_parents io proot parts [] fs of
                  (Inl e, fs') \<Rightarrow> (Inl e, fs')
                | (Inr created, fs') \<Rightarrow>
                    (case symlink_safe_preflight fs' target proot of
                       Some e \<Rightarrow> (Inl (Refused e), fs')
                     | None \<Rightarrow> (Inr created, fs')))))"

subsection \<open>The atomic write\<close>

definition tmp_name :: "write_io \<Rightarrow> path \<Rightarrow> path" where
  "tmp_name io target = butlast target @ [path_name target @ ''.'' @ wi_tmp io @ ''.tmp'']"

text \<open>The handler: what was made of the temporary file is removed, the error becomes one of the tool.\<close>

definition write_cleanup :: "write_io \<Rightarrow> path \<Rightarrow> file_system \<Rightarrow> write_error option \<times> file_system" where
  "write_cleanup io t fs = (if wi_unlink io then (Some WriteFailed, fs(t := None)) else (Some OSRaised, fs))"

definition DEFAULT_MODE :: nat where
  "DEFAULT_MODE = 420"

definition PRIVATE_MODE :: nat where
  "PRIVATE_MODE = 384"

definition replace_target :: "write_io \<Rightarrow> file_system \<Rightarrow> path \<Rightarrow> path \<Rightarrow> write_error option \<times> file_system" where
  "replace_target io fs t target =
     (case entry_of fs target of
        None \<Rightarrow> write_cleanup io t fs
      | Some e \<Rightarrow>
          if \<not> wi_replace io \<or> fs e = Some Directory then write_cleanup io t fs
          else (None, fs(e := fs t, t := None)))"

definition atomic_write :: "write_io \<Rightarrow> file_system \<Rightarrow> path \<Rightarrow> string \<Rightarrow> write_error option \<times> file_system" where
  "atomic_write io fs target content =
     (if \<not> path_exists fs (butlast target) then (Some ParentMissing, fs)
      else if \<not> is_dir fs (butlast target) then (Some OSRaised, fs)
      else
        (let mode = (case file_at fs target of Some (m, c) \<Rightarrow> m | None \<Rightarrow> DEFAULT_MODE) in
         case entry_of fs (tmp_name io target) of
           None \<Rightarrow> (Some WriteFailed, fs)
         | Some t \<Rightarrow>
             if \<not> wi_open io \<or> fs t \<noteq> None then (Some WriteFailed, fs)
             else if \<not> wi_write io then write_cleanup io t (fs(t \<mapsto> File PRIVATE_MODE (wi_partial io)))
             else if \<not> wi_chmod io then write_cleanup io t (fs(t \<mapsto> File PRIVATE_MODE content))
             else replace_target io (fs(t \<mapsto> File mode content)) t target))"

subsection \<open>Receipts\<close>

record change_receipt =
  rc_receipt_id :: string
  rc_snapshot_id :: "string option"
  rc_project_id :: string
  rc_relative_path :: string
  rc_operation :: string
  rc_file_exists_before :: bool
  rc_before_hash :: "string option"
  rc_after_hash :: string
  rc_size_before :: nat
  rc_size_after :: nat
  rc_changed :: bool
  rc_verified :: bool
  rc_diff_summary :: string
  rc_error :: "string option"

definition with_snapshot_id :: "change_receipt \<Rightarrow> string \<Rightarrow> change_receipt" where
  "with_snapshot_id r sid = r\<lparr>rc_snapshot_id := Some sid\<rparr>"

text \<open>
  What the functions are given from outside: SHA-256, decoding with \<open>errors="replace"\<close>, \<open>difflib.unified_diff\<close> of two lists of lines with their labels,
  and the opcodes of \<open>difflib.SequenceMatcher\<close>.
\<close>

datatype diff_tag = Equal | Delete | Insert | Replace

record edit_lib =
  el_sha256 :: "string \<Rightarrow> string"
  el_decode_replace :: "string \<Rightarrow> string"
  el_unified_diff :: "string list \<Rightarrow> string list \<Rightarrow> string \<Rightarrow> string \<Rightarrow> string list"
  el_opcodes :: "string list \<Rightarrow> string list \<Rightarrow> (diff_tag \<times> nat \<times> nat \<times> nat \<times> nat) list"

definition hash_text :: "edit_lib \<Rightarrow> string \<Rightarrow> string" where
  "hash_text lib content = ''sha256:'' @ el_sha256 lib content"

text \<open>The file tools read what they verify without limits of their own for text; \<open>max_bytes\<close> is ten million.\<close>

definition HASH_MAX_BYTES :: nat where
  "HASH_MAX_BYTES = 10000000"

definition read_file_bytes :: "write_io \<Rightarrow> file_system \<Rightarrow> path \<Rightarrow> string option" where
  "read_file_bytes io fs p =
     (case file_at fs p of
        None \<Rightarrow> None
      | Some (m, c) \<Rightarrow> if HASH_MAX_BYTES < length c \<or> \<not> wi_read io then None else Some c)"

definition compute_file_hash :: "edit_lib \<Rightarrow> write_io \<Rightarrow> file_system \<Rightarrow> path \<Rightarrow> string option" where
  "compute_file_hash lib io fs p = map_option (hash_text lib) (read_file_bytes io fs p)"

definition verify_readback :: "edit_lib \<Rightarrow> write_io \<Rightarrow> file_system \<Rightarrow> path \<Rightarrow> string \<Rightarrow> bool \<times> string option" where
  "verify_readback lib io fs p expected =
     (case compute_file_hash lib io fs p of
        None \<Rightarrow> (False, Some ''File not readable after write'')
      | Some actual \<Rightarrow>
          if actual \<noteq> expected then (False, Some (''Hash mismatch: expected '' @ expected @ '', got '' @ actual))
          else (True, None))"

fun diff_counts :: "(diff_tag \<times> nat \<times> nat \<times> nat \<times> nat) list \<Rightarrow> nat \<times> nat \<Rightarrow> nat \<times> nat" where
  "diff_counts [] st = st"
| "diff_counts ((tag, i1, i2, j1, j2) # ops) (added, removed) =
     (case tag of
        Equal \<Rightarrow> diff_counts ops (added, removed)
      | Delete \<Rightarrow> diff_counts ops (added, removed + (i2 - i1))
      | Insert \<Rightarrow> diff_counts ops (added + (j2 - j1), removed)
      | Replace \<Rightarrow> diff_counts ops (added + (j2 - j1), removed + (i2 - i1)))"

definition make_diff_summary :: "edit_lib \<Rightarrow> string option \<Rightarrow> string \<Rightarrow> string \<Rightarrow> string" where
  "make_diff_summary lib old new operation =
     (case old of
        None \<Rightarrow>
          ''created ('' @ nat_str (count_list new newline
             + (if new \<noteq> [] \<and> \<not> endswith new [newline] then 1 else 0)) @ '' lines)''
      | Some o' \<Rightarrow>
          (case diff_counts (el_opcodes lib (splitlines o') (splitlines new)) (0, 0) of
             (added, removed) \<Rightarrow> operation @ '': +'' @ nat_str added @ ''/-'' @ nat_str removed @ '' lines''))"

definition make_receipt ::
    "edit_lib \<Rightarrow> write_io \<Rightarrow> string \<Rightarrow> string \<Rightarrow> string \<Rightarrow> string \<Rightarrow> file_system \<Rightarrow> path \<Rightarrow> string option \<Rightarrow> string \<Rightarrow> bool
      \<Rightarrow> change_receipt" where
  "make_receipt lib io rid project_id relative operation fs p before after deleted =
     (let base = \<lparr>rc_receipt_id = rid, rc_snapshot_id = None, rc_project_id = project_id, rc_relative_path = relative,
        rc_operation = operation, rc_file_exists_before = (before \<noteq> None), rc_before_hash = map_option (hash_text lib) before,
        rc_after_hash = [], rc_size_before = (case before of None \<Rightarrow> 0 | Some b \<Rightarrow> length b), rc_size_after = 0,
        rc_changed = (before \<noteq> None), rc_verified = True, rc_diff_summary = [], rc_error = None\<rparr>
      in
      if deleted then
        (let gone = before = None \<or> \<not> path_exists fs p in
         base\<lparr>rc_verified := gone, rc_diff_summary := make_diff_summary lib before [] operation,
           rc_error := (if gone then None else Some ''File still exists after delete'')\<rparr>)
      else
        (let changed = before \<noteq> Some after;
             check = (if changed then verify_readback lib io fs p (hash_text lib after) else (True, None)) in
         base\<lparr>rc_after_hash := hash_text lib after, rc_size_after := length after, rc_changed := changed,
           rc_verified := fst check, rc_diff_summary := make_diff_summary lib before after operation,
           rc_error := snd check\<rparr>))"

subsection \<open>The confirmation after a write\<close>

text \<open>The hash of the file, or the error; where the file was to be deleted, whether it is gone.\<close>

definition post_write_confirmation ::
    "edit_lib \<Rightarrow> write_io \<Rightarrow> file_system \<Rightarrow> path \<Rightarrow> string \<Rightarrow> write_error + string" where
  "post_write_confirmation lib io fs target expected =
     (case file_at fs target of
        None \<Rightarrow> Inl VerificationFailed
      | Some (m, current) \<Rightarrow>
          if \<not> wi_read io then Inl VerificationFailed
          else if hash_text lib current \<noteq> hash_text lib expected then Inl VerificationFailed
          else Inr (hash_text lib current))"

subsection \<open>Writing a file\<close>

record write_result =
  wr_size :: nat
  wr_created :: "path list"
  wr_created_verified :: bool
  wr_hash :: string
  wr_receipt :: "change_receipt option"

definition parent_parts :: "string \<Rightarrow> path" where
  "parent_parts relative = (if is_absolute relative then [''/''] else []) @ butlast (path_parts relative)"

text \<open>The checks before anything is written: the place and the root.\<close>

definition write_target :: "workspace_policy \<Rightarrow> file_system \<Rightarrow> string \<Rightarrow> string \<Rightarrow> write_error + path \<times> path" where
  "write_target pol fs project_id relative =
     (case validate_write pol fs project_id relative of
        Inl e \<Rightarrow> Inl (Refused e)
      | Inr full \<Rightarrow>
          (case resolve_project_root pol fs project_id of
             Inl e \<Rightarrow> Inl (Refused e)
           | Inr proot \<Rightarrow>
               (case symlink_safe_preflight fs full proot of
                  Some e \<Rightarrow> Inl (Refused e)
                | None \<Rightarrow> Inr (full, proot))))"

definition content_error :: "string \<Rightarrow> nat \<Rightarrow> write_error option" where
  "content_error content max_bytes =
     (if max_bytes < length content then Some (ContentTooBig max_bytes)
      else if CHR 0x00 \<in> set content then Some BinaryContent
      else None)"

definition ensure_parent ::
    "write_io \<Rightarrow> bool \<Rightarrow> path \<Rightarrow> path \<Rightarrow> file_system \<Rightarrow> (write_error + path list) \<times> file_system" where
  "ensure_parent io create_parents full proot fs =
     (if path_exists fs (butlast full) then (Inr [], fs)
      else if \<not> create_parents then (Inl ParentMissing, fs)
      else create_parent_directories io fs full proot)"

definition is_directory_target :: "workspace_policy \<Rightarrow> file_system \<Rightarrow> string \<Rightarrow> string \<Rightarrow> bool" where
  "is_directory_target pol fs project_id relative =
     (case validate_write pol fs project_id relative of
        Inr full \<Rightarrow> is_dir fs full
      | Inl e \<Rightarrow> False)"

definition write_prepared ::
    "edit_lib \<Rightarrow> write_io \<Rightarrow> string \<Rightarrow> string \<Rightarrow> string \<Rightarrow> string \<Rightarrow> bool \<Rightarrow> path \<Rightarrow> path list \<Rightarrow> file_system
      \<Rightarrow> (write_error + write_result) \<times> file_system" where
  "write_prepared lib io rid project_id relative content safe full created fs =
     (let before = (if safe then map_option (el_decode_replace lib) (read_file_bytes io fs full) else None) in
      case atomic_write io fs full content of
        (Some e, fs') \<Rightarrow> (Inl e, fs')
      | (None, fs') \<Rightarrow>
          (case post_write_confirmation lib io fs' full content of
             Inl e \<Rightarrow> (Inl e, fs')
           | Inr h \<Rightarrow>
               (Inr \<lparr>wr_size = length content, wr_created = created,
                  wr_created_verified = list_all (\<lambda>p. is_dir fs' p \<and> \<not> is_symlink fs' p) created, wr_hash = h,
                  wr_receipt = (if safe then Some (make_receipt lib io rid project_id relative ''write'' fs' full before content False)
                                else None)\<rparr>, fs')))"

definition project_file_write ::
    "edit_lib \<Rightarrow> write_io \<Rightarrow> workspace_policy \<Rightarrow> string \<Rightarrow> string \<Rightarrow> string \<Rightarrow> string \<Rightarrow> nat \<Rightarrow> bool \<Rightarrow> bool \<Rightarrow> file_system
      \<Rightarrow> (write_error + write_result) \<times> file_system" where
  "project_file_write lib io pol rid project_id relative content max_bytes safe create_parents fs =
     (case (if create_parents then validate_parent_creation_parts (parent_parts relative) else None) of
        Some e \<Rightarrow> (Inl e, fs)
      | None \<Rightarrow>
          if is_directory_target pol fs project_id relative then (Inl IsDirectory, fs)
          else
            (case write_target pol fs project_id relative of
               Inl e \<Rightarrow> (Inl e, fs)
             | Inr (full, proot) \<Rightarrow>
                 (case content_error content max_bytes of
                    Some e \<Rightarrow> (Inl e, fs)
                  | None \<Rightarrow>
                      (case ensure_parent io create_parents full proot fs of
                         (Inl e, fs') \<Rightarrow> (Inl e, fs')
                       | (Inr created, fs') \<Rightarrow>
                           write_prepared lib io rid project_id relative content safe full created fs'))))"

subsection \<open>Editing a file\<close>

record edit_result =
  er_size :: nat
  er_diff :: string
  er_replaced :: bool
  er_hash :: string
  er_receipt :: "change_receipt option"

text \<open>\<open>s.replace(old, new, 1)\<close> for a text \<open>old\<close> that is not empty.\<close>

fun replace_first :: "string \<Rightarrow> string \<Rightarrow> string \<Rightarrow> string" where
  "replace_first old new [] = []"
| "replace_first old new (c # s) =
     (if startswith (c # s) old then new @ drop (length old) (c # s) else c # replace_first old new s)"

definition make_diff :: "edit_lib \<Rightarrow> string \<Rightarrow> string \<Rightarrow> string \<Rightarrow> string" where
  "make_diff lib old new label =
     concat (el_unified_diff lib (splitlines_keep old) (splitlines_keep new)
       (if label = [] then [] else ''a/'' @ label) (if label = [] then [] else ''b/'' @ label))"

text \<open>The receipt of an edit that changes nothing is a reduced one.\<close>

definition unchanged_receipt :: "edit_lib \<Rightarrow> string \<Rightarrow> change_receipt" where
  "unchanged_receipt lib content =
     \<lparr>rc_receipt_id = [], rc_snapshot_id = None, rc_project_id = [], rc_relative_path = [], rc_operation = [],
      rc_file_exists_before = True, rc_before_hash = Some (hash_text lib content), rc_after_hash = hash_text lib content,
      rc_size_before = length content, rc_size_after = length content, rc_changed = False, rc_verified = True,
      rc_diff_summary = ''edit: no change'', rc_error = None\<rparr>"

definition edit_content ::
    "edit_lib \<Rightarrow> write_io \<Rightarrow> string \<Rightarrow> string \<Rightarrow> string \<Rightarrow> string \<Rightarrow> string \<Rightarrow> nat \<Rightarrow> bool \<Rightarrow> path \<Rightarrow> string \<Rightarrow> file_system
      \<Rightarrow> (write_error + edit_result) \<times> file_system" where
  "edit_content lib io rid project_id relative old new max_bytes safe full old_content fs =
     (if \<not> str_in old old_content then (Inl OldStringNotFound, fs)
      else if old = new then
        (map_sum id (\<lambda>h. \<lparr>er_size = length old_content, er_diff = [], er_replaced = False, er_hash = h,
             er_receipt = (if safe then Some (unchanged_receipt lib old_content) else None)\<rparr>)
           (post_write_confirmation lib io fs full old_content), fs)
      else
        (let new_content = replace_first old new old_content in
         if max_bytes < length new_content then (Inl (ContentTooBig max_bytes), fs)
         else
           (case atomic_write io fs full new_content of
              (Some e, fs') \<Rightarrow> (Inl e, fs')
            | (None, fs') \<Rightarrow>
                (map_sum id (\<lambda>h. \<lparr>er_size = length new_content, er_diff = make_diff lib old_content new_content relative,
                     er_replaced = True, er_hash = h,
                     er_receipt = (if safe then Some (make_receipt lib io rid project_id relative ''edit'' fs' full
                       (Some old_content) new_content False) else None)\<rparr>)
                   (post_write_confirmation lib io fs' full new_content), fs'))))"

definition project_file_edit ::
    "edit_lib \<Rightarrow> write_io \<Rightarrow> workspace_policy \<Rightarrow> string \<Rightarrow> string \<Rightarrow> string \<Rightarrow> string \<Rightarrow> string \<Rightarrow> nat \<Rightarrow> bool \<Rightarrow> file_system
      \<Rightarrow> (write_error + edit_result) \<times> file_system" where
  "project_file_edit lib io pol rid project_id relative old new max_bytes safe fs =
     (if old = [] then (Inl EmptyOldString, fs)
      else
        (case write_target pol fs project_id relative of
           Inl e \<Rightarrow> (Inl e, fs)
         | Inr (full, proot) \<Rightarrow>
             (case exact_read io fs full max_bytes of
                Inl e \<Rightarrow> (Inl e, fs)
              | Inr old_content \<Rightarrow>
                  edit_content lib io rid project_id relative old new max_bytes safe full old_content fs)))"

subsection \<open>Where the tools write\<close>

definition not_link :: "file_system \<Rightarrow> path \<Rightarrow> bool" where
  "not_link fs p \<longleftrightarrow> (case fs p of Some (Symlink t) \<Rightarrow> False | _ \<Rightarrow> True)"

definition no_links :: "file_system \<Rightarrow> path \<Rightarrow> path \<Rightarrow> bool" where
  "no_links fs proot parts \<longleftrightarrow> (\<forall>xs. prefix xs parts \<longrightarrow> xs \<noteq> [] \<longrightarrow> not_link fs (proot @ xs))"

lemma entry_in_dir: "file_tree fs \<Longrightarrow> fs d = Some Directory \<Longrightarrow> entry_of fs (d @ [c]) = Some (d @ [c])"
  using locate_itself [of fs d] by (simp add: entry_of_def)

lemma linked_part_None: "linked_part fs base parts = None \<Longrightarrow> prefix xs parts \<Longrightarrow> xs \<noteq> [] \<Longrightarrow> \<not> is_symlink fs (base @ xs)"
proof (induction parts arbitrary: base xs)
  case (Cons p ps)
  then obtain ys where ys: "xs = p # ys" "prefix ys ps" by (cases xs) auto
  then show ?case
    using Cons.IH [of "base @ [p]" ys] Cons.prems(1) by (cases ys) (auto simp: Let_def split: if_splits)
qed simp

lemma is_symlink_in_dir: "file_tree fs \<Longrightarrow> fs d = Some Directory \<Longrightarrow> is_symlink fs (d @ [c]) \<longleftrightarrow> \<not> not_link fs (d @ [c])"
  by (simp add: is_symlink_def not_link_def entry_in_dir split: option.split fnode.split)

lemma preflight_no_links:
  assumes "file_tree fs" "symlink_safe_preflight fs (proot @ parts) proot = None"
  shows "no_links fs proot parts"
  unfolding no_links_def
proof (intro allI impI)
  fix xs assume xs: "prefix xs parts" "xs \<noteq> []"
  then obtain ys c where ys: "xs = ys @ [c]" by (cases xs rule: rev_cases) auto
  show "not_link fs (proot @ xs)"
  proof (rule ccontr)
    assume link: "\<not> not_link fs (proot @ xs)"
    then have "fs (proot @ ys) = Some Directory"
      using file_treeD(2) [OF assms(1), of "proot @ ys" c] ys by (auto simp: not_link_def split: option.splits)
    then have "is_symlink fs (proot @ xs)" using is_symlink_in_dir [OF assms(1), of "proot @ ys" c] link ys by simp
    moreover have "linked_part fs proot parts = None"
      using assms(2) by (simp add: symlink_safe_preflight_def relative_to_def)
    ultimately show False using linked_part_None xs by blast
  qed
qed

lemma write_targetD:
  assumes "write_target pol fs project_id relative = Inr (full, proot)" "file_tree fs"
  shows "full = proot @ path_parts relative" "list_all proper_name (path_parts relative)" "no_links fs proot (path_parts relative)"
    "\<not> hidden_parts (path_parts relative)" "''project:write'' \<in> set (expand_scopes (granted_scopes pol))"
    "map_of (project_roots pol) project_id = Some proot"
proof -
  have w: "validate_write pol fs project_id relative = Inr full" "resolve_project_root pol fs project_id = Inr proot"
    "symlink_safe_preflight fs full proot = None"
    using assms(1) by (auto simp: write_target_def split: sum.splits option.splits)
  from validate_writeD [OF w(1)] w(2) have d: "full = proot @ path_parts relative" "list_all proper_name (path_parts relative)"
    "\<not> hidden_parts (path_parts relative)" "''project:write'' \<in> set (expand_scopes (granted_scopes pol))"
    "map_of (project_roots pol) project_id = Some proot"
    by auto
  then show "full = proot @ path_parts relative" "list_all proper_name (path_parts relative)"
    "\<not> hidden_parts (path_parts relative)" "''project:write'' \<in> set (expand_scopes (granted_scopes pol))"
    "map_of (project_roots pol) project_id = Some proot"
    by simp_all
  show "no_links fs proot (path_parts relative)" using preflight_no_links [OF assms(2)] w(3) d(1) by simp
qed

lemma no_links_prefix: "no_links fs proot parts \<Longrightarrow> prefix xs parts \<Longrightarrow> no_links fs proot xs"
  unfolding no_links_def using prefix_order.trans by blast

lemma locate_linkless:
  assumes "file_tree fs" "fs proot = Some Directory" "no_links fs proot parts" "list_all proper_name parts"
    "locate fs (proot @ parts) = Some q"
  shows "q = proot @ parts"
proof -
  obtain m where "walk fs MAXSYMLINKS [] (proot @ parts) = Some (q, m)" using assms(5) by (auto simp: locate_def)
  then have "walk fs MAXSYMLINKS proot parts = Some (q, m)"
    using walk_itself [OF assms(1), of "[]" proot MAXSYMLINKS] assms(2) by (simp add: walk_append)
  then show ?thesis
    using walk_linkless [of fs MAXSYMLINKS proot parts q m] assms(3,4) by (auto simp: no_links_def not_link_def)
qed

lemma is_dir_linkless:
  assumes "file_tree fs" "fs proot = Some Directory" "no_links fs proot parts" "list_all proper_name parts"
  shows "is_dir fs (proot @ parts) \<longleftrightarrow> fs (proot @ parts) = Some Directory"
  using locate_linkless [OF assms] locate_itself [OF assms(1), of "proot @ parts"]
  by (auto simp: is_dir_def split: option.splits)

lemma file_at_linkless:
  assumes "file_tree fs" "fs proot = Some Directory" "no_links fs proot parts" "list_all proper_name parts"
  shows "file_at fs (proot @ parts) = (case fs (proot @ parts) of Some (File m c) \<Rightarrow> Some (m, c) | _ \<Rightarrow> None)"
proof (cases "locate fs (proot @ parts)")
  case None
  have "fs (proot @ parts) \<noteq> Some (File m c)" for m c
    using locate_itself [OF assms(1), of "proot @ parts"] None by (auto simp: real_node_def)
  then show ?thesis using None by (auto simp: file_at_def split: option.split fnode.split)
next
  case (Some q)
  then show ?thesis using locate_linkless [OF assms Some] by (simp add: file_at_def)
qed

lemma file_tree_put:
  assumes "file_tree fs" "fs d = Some Directory" "proper_name c" "fs (d @ [c]) \<noteq> Some Directory"
  shows "file_tree (fs(d @ [c] \<mapsto> node))"
proof -
  have "d @ [c] \<noteq> []" by simp
  moreover have "fs ((d @ [c]) @ [x]) = None" for x using file_treeD(2) [OF assms(1), of "d @ [c]" x] assms(4) by blast
  ultimately show ?thesis using assms unfolding file_tree_def by (auto split: if_splits)
qed

lemma file_tree_remove:
  assumes "file_tree fs" "fs p \<noteq> Some Directory" "p \<noteq> []"
  shows "file_tree (fs(p := None))"
proof -
  have "fs (p @ [x]) = None" for x using file_treeD(2) [OF assms(1), of p x] assms(2) by blast
  then show ?thesis using assms unfolding file_tree_def by (auto split: if_splits)
qed

lemma tmp_name_in: "tmp_name io (d @ [c]) = d @ [c @ ''.'' @ wi_tmp io @ ''.tmp'']"
  by (simp add: tmp_name_def path_name_def)

definition kept_mode :: "file_system \<Rightarrow> path \<Rightarrow> nat" where
  "kept_mode fs p = (case fs p of Some (File m c) \<Rightarrow> m | _ \<Rightarrow> DEFAULT_MODE)"

text \<open>A temporary file that could not be removed.\<close>

definition spilled :: "file_system \<Rightarrow> path \<Rightarrow> file_system \<Rightarrow> bool" where
  "spilled fs t fs' \<longleftrightarrow> fs t = None \<and> (\<exists>m x. fs' = fs(t \<mapsto> File m x))"

lemma spilledI [intro]: "fs t = None \<Longrightarrow> spilled fs t (fs(t \<mapsto> File m x))"
  unfolding spilled_def by blast

text \<open>
  The effect of the atomic write on a target without links: on success the file has the new content and its old
  mode and nothing else has changed; on failure nothing has changed, unless the temporary file could not be
  removed.
\<close>

lemma atomic_write_effect:
  assumes "file_tree fs" "fs proot = Some Directory" "no_links fs proot parts" "list_all proper_name parts" "parts \<noteq> []"
    and "atomic_write io fs (proot @ parts) content = (res, fs')"
  shows "case res of
      None \<Rightarrow> fs (butlast (proot @ parts)) = Some Directory \<and> fs (proot @ parts) \<noteq> Some Directory
        \<and> fs' = fs(proot @ parts \<mapsto> File (kept_mode fs (proot @ parts)) content)
    | Some e \<Rightarrow> fs' = fs \<or> e = OSRaised \<and> fs (butlast (proot @ parts)) = Some Directory \<and> spilled fs (tmp_name io (proot @ parts)) fs'"
proof (cases "path_exists fs (butlast (proot @ parts)) \<and> is_dir fs (butlast (proot @ parts))")
  case False
  then show ?thesis using assms(6) by (auto simp: atomic_write_def split: if_splits)
next
  case True
  obtain ds c where parts: "parts = ds @ [c]" using assms(5) by (cases parts rule: rev_cases) auto
  let ?d = "proot @ ds" and ?t = "proot @ parts"
  let ?tmp = "tmp_name io ?t"
  have tgt: "?t = ?d @ [c]" "butlast ?t = ?d" using parts by (simp_all add: butlast_append)
  have "prefix ds parts" using parts by simp
  then have d: "fs ?d = Some Directory"
    using True is_dir_linkless [OF assms(1,2) no_links_prefix [OF assms(3)], of ds] assms(4) parts tgt(2) by simp
  have c: "proper_name c" using assms(4) parts by simp
  have tmp: "?tmp = ?d @ [c @ ''.'' @ wi_tmp io @ ''.tmp'']" "?tmp \<noteq> ?t" "?tmp \<noteq> ?d"
    unfolding tgt(1) tmp_name_in by simp_all
  have tmp_proper: "proper_name (c @ ''.'' @ wi_tmp io @ ''.tmp'')"
    using arg_cong [where f = length] by (fastforce simp: proper_name_def)
  have mode: "(case file_at fs ?t of Some (m, x) \<Rightarrow> m | None \<Rightarrow> DEFAULT_MODE) = kept_mode fs ?t"
    unfolding file_at_linkless [OF assms(1-4)] kept_mode_def by (simp split: option.split fnode.split)
  have entry: "entry_of fs ?tmp = Some ?tmp" using entry_in_dir [OF assms(1) d] tmp(1) by simp
  show ?thesis
  proof (cases "wi_open io \<and> fs ?tmp = None \<and> wi_write io \<and> wi_chmod io")
    case False
    then show ?thesis
      using assms(6) True entry d unfolding atomic_write_def
      by (auto simp: write_cleanup_def tgt(2) Let_def fun_upd_idem split: if_splits)
  next
    case ok: True
    let ?fs1 = "fs(?tmp \<mapsto> File (kept_mode fs ?t) content)"
    have "file_tree ?fs1" unfolding tmp(1) using assms(1) d tmp_proper
      by (rule file_tree_put) (use ok tmp(1) in simp)
    then have "entry_of ?fs1 ?t = Some ?t"
      using entry_in_dir [of ?fs1 ?d c] d tmp(3) tgt(1) by simp
    moreover have "replace_target io ?fs1 ?tmp ?t = (res, fs')"
      using assms(6) True entry ok unfolding atomic_write_def mode by (simp add: Let_def)
    ultimately show ?thesis
      using ok d tmp(2) by (auto simp: replace_target_def write_cleanup_def tgt(2) fun_upd_twist fun_upd_idem split: if_splits)
  qed
qed

subsection \<open>What the tools change\<close>

definition made_dirs :: "file_system \<Rightarrow> file_system \<Rightarrow> path \<Rightarrow> path \<Rightarrow> bool" where
  "made_dirs fs fs' base parts \<longleftrightarrow>
     (\<forall>p. fs' p \<noteq> fs p \<longrightarrow> fs p = None \<and> fs' p = Some Directory \<and> (\<exists>xs. prefix xs parts \<and> xs \<noteq> [] \<and> p = base @ xs))"

lemma made_dirs_refl [simp]: "made_dirs fs fs base parts"
  by (simp add: made_dirs_def)

lemma made_dirs_Cons: "made_dirs fs fs' (base @ [c]) parts \<Longrightarrow> made_dirs fs fs' base (c # parts)"
  unfolding made_dirs_def by (metis append_Cons append_Nil append_assoc list.distinct(1) prefix_Cons)

lemma made_dirs_make:
  assumes "made_dirs (fs(base @ [c] \<mapsto> Directory)) fs' (base @ [c]) parts" "fs (base @ [c]) = None"
  shows "made_dirs fs fs' base (c # parts)"
  unfolding made_dirs_def
proof (intro allI impI)
  fix p assume diff: "fs' p \<noteq> fs p"
  show "fs p = None \<and> fs' p = Some Directory \<and> (\<exists>xs. prefix xs (c # parts) \<and> xs \<noteq> [] \<and> p = base @ xs)"
  proof (cases "p = base @ [c]")
    case True
    have "fs' p = Some Directory"
      using assms(1) True unfolding made_dirs_def by (metis fun_upd_same option.distinct(1))
    then show ?thesis using assms(2) True by (auto intro!: exI [of _ "[c]"])
  next
    case False
    then have "fs' p \<noteq> (fs(base @ [c] \<mapsto> Directory)) p" using diff by simp
    then show ?thesis using made_dirs_Cons [OF assms(1)] False unfolding made_dirs_def by (metis fun_upd_other)
  qed
qed

lemma make_parents_effect:
  assumes "make_parents io current parts created fs = (res, fs')" "file_tree fs" "fs current = Some Directory"
    "list_all proper_name parts"
  shows "file_tree fs' \<and> made_dirs fs fs' current parts
    \<and> (\<forall>cr. res = Inr cr \<longrightarrow> fs' (current @ parts) = Some Directory \<and> set cr = set created \<union> {p. fs' p \<noteq> fs p})"
  using assms
proof (induction parts arbitrary: current created fs)
  case (Cons c parts)
  let ?c = "current @ [c]"
  note tree = Cons.prems(2) and dir = Cons.prems(3)
  have entry: "entry_of fs ?c = Some ?c" using tree dir by (rule entry_in_dir)
  have proper: "proper_name c" "list_all proper_name parts" using Cons.prems(4) by simp_all
  show ?case
  proof (cases "is_symlink fs ?c \<or> path_exists fs ?c \<and> \<not> is_dir fs ?c")
    case True
    then show ?thesis using Cons.prems(1,2) by (auto simp: Let_def split: if_splits)
  next
    case False
    then have nl: "not_link fs ?c" using is_symlink_in_dir [OF tree dir] by simp
    show ?thesis
    proof (cases "path_exists fs ?c")
      case True
      have "no_links fs current [c]" using nl by (auto simp: no_links_def prefix_Cons)
      then have "fs ?c = Some Directory"
        using is_dir_linkless [OF tree dir, of "[c]"] proper(1) True False by simp
      then show ?thesis
        using Cons.IH [of ?c created fs] Cons.prems(1) True False tree proper(2) made_dirs_Cons by (auto simp: Let_def)
    next
      case absent: False
      show ?thesis
      proof (cases "wi_mkdir io ?c \<and> fs ?c = None")
        case True
        have tree': "file_tree (fs(?c \<mapsto> Directory))" using file_tree_put [OF tree dir proper(1)] True by simp
        have run: "make_parents io ?c parts (created @ [?c]) (fs(?c \<mapsto> Directory)) = (res, fs')"
          using Cons.prems(1) True False absent entry by (simp add: Let_def mkdir_def)
        have "(fs(?c \<mapsto> Directory)) ?c = Some Directory" by simp
        note IH = Cons.IH [OF run tree' this proper(2)]
        then have made: "made_dirs fs fs' current (c # parts)" using True by (intro made_dirs_make) blast+
        have "fs' ?c = Some Directory"
          using IH True unfolding made_dirs_def by (metis fun_upd_same option.distinct(1))
        then have "{p. fs' p \<noteq> fs p} = insert ?c {p. fs' p \<noteq> (fs(?c \<mapsto> Directory)) p}" using True by auto
        then show ?thesis using IH made by auto
      next
        case no: False
        then show ?thesis using Cons.prems(1,2) False absent entry by (auto simp: Let_def mkdir_def split: if_splits)
      qed
    qed
  qed
qed auto

lemma create_parents_effect:
  assumes "create_parent_directories io fs (proot @ parts) proot = (res, fs')" "file_tree fs" "fs proot = Some Directory"
    "list_all proper_name parts" "parts \<noteq> []"
  shows "file_tree fs' \<and> made_dirs fs fs' proot (butlast parts)
    \<and> (\<forall>cr. res = Inr cr \<longrightarrow> fs' (butlast (proot @ parts)) = Some Directory \<and> set cr = {p. fs' p \<noteq> fs p}
         \<and> no_links fs' proot parts)"
proof -
  have but: "butlast (proot @ parts) = proot @ butlast parts" using assms(5) by (simp add: butlast_append)
  have proper: "list_all proper_name (butlast parts)" using assms(4) by (auto simp: list_all_iff dest: in_set_butlastD)
  show ?thesis
  proof (cases "validate_parent_creation_parts (butlast parts)")
    case (Some e)
    then show ?thesis using assms(1,2) by (auto simp: create_parent_directories_def relative_to_def but)
  next
    case None
    obtain r g where run: "make_parents io proot (butlast parts) [] fs = (r, g)" by fastforce
    note eff = make_parents_effect [OF run assms(2,3) proper]
    have "no_links g proot parts" if "symlink_safe_preflight g (proot @ parts) proot = None"
      using preflight_no_links eff that by blast
    then show ?thesis
      using assms(1) None run eff
      by (auto simp: create_parent_directories_def relative_to_def but split: sum.splits option.splits)
  qed
qed

lemma made_dirs_outside: "made_dirs fs fs' base parts \<Longrightarrow> length base + length parts < length p \<Longrightarrow> fs' p = fs p"
  unfolding made_dirs_def by (metis add_le_cancel_left length_append not_less prefix_length_le)

lemma length_tmp_name [simp]: "p \<noteq> [] \<Longrightarrow> length (tmp_name io p) = length p"
  by (simp add: tmp_name_def)

lemma tmp_name_other: "p \<noteq> [] \<Longrightarrow> tmp_name io p \<noteq> p"
  by (cases p rule: rev_cases) (simp_all add: tmp_name_in)

lemma tmp_name_below: "parts \<noteq> [] \<Longrightarrow> strict_prefix proot (tmp_name io (proot @ parts))"
  by (auto simp: tmp_name_def butlast_append strict_prefix_def)

text \<open>What a tool that writes one file of a project may have done to the file system.\<close>

definition write_contained :: "write_io \<Rightarrow> path \<Rightarrow> path \<Rightarrow> bool \<Rightarrow> file_system \<Rightarrow> file_system \<Rightarrow> bool" where
  "write_contained io proot parts create fs fs' \<longleftrightarrow>
     (\<forall>p. fs' p \<noteq> fs p \<longrightarrow> strict_prefix proot p
        \<and> (p = proot @ parts \<or> p = tmp_name io (proot @ parts)
           \<or> create \<and> strict_prefix p (proot @ parts) \<and> fs p = None \<and> fs' p = Some Directory))"

lemma write_contained_refl [simp]: "write_contained io proot parts create fs fs"
  by (simp add: write_contained_def)

lemma made_dirs_contained:
  assumes "made_dirs fs fs' proot (butlast parts)" "parts \<noteq> []"
  shows "write_contained io proot parts True fs fs'"
  unfolding write_contained_def
proof (intro allI impI)
  fix p assume "fs' p \<noteq> fs p"
  then obtain xs where xs: "fs p = None" "fs' p = Some Directory" "prefix xs (butlast parts)" "xs \<noteq> []" "p = proot @ xs"
    using assms(1) unfolding made_dirs_def by blast
  have "prefix (butlast parts) parts" "length (butlast parts) < length parts"
    using assms(2) by (auto simp: prefixeq_butlast)
  then have "strict_prefix xs parts" using xs(3) prefix_length_le [OF xs(3)]
    by (metis leD prefix_order.trans strict_prefixI)
  then show "strict_prefix proot p \<and> (p = proot @ parts \<or> p = tmp_name io (proot @ parts)
      \<or> True \<and> strict_prefix p (proot @ parts) \<and> fs p = None \<and> fs' p = Some Directory)"
    using xs by (auto simp: strict_prefix_def)
qed

lemma atomic_contained:
  assumes "write_contained io proot parts create fs g" "g' = g(proot @ parts \<mapsto> node) \<or> spilled g (tmp_name io (proot @ parts)) g'"
    and "parts \<noteq> []"
  shows "write_contained io proot parts create fs g'"
  using assms tmp_name_below [OF assms(3), of proot io] unfolding write_contained_def spilled_def
  by (auto simp: strict_prefix_def split: if_splits)

lemma post_write_confirmation_error: "post_write_confirmation lib io fs p c = Inl e \<Longrightarrow> e = VerificationFailed"
  by (auto simp: post_write_confirmation_def split: option.splits if_splits)

lemma kept_mode_cong: "fs p = g p \<Longrightarrow> kept_mode fs p = kept_mode g p"
  by (simp add: kept_mode_def)

text \<open>An atomic write followed by the confirmation, from a state in which parents may have been made.\<close>

lemma confirmed_write_effect:
  assumes "file_tree g" "g proot = Some Directory" "no_links g proot parts" "list_all proper_name parts" "parts \<noteq> []"
    and "atomic_write io g (proot @ parts) content = (r, fs')"
    and "r = None \<longrightarrow> (case res of Inl e \<Rightarrow> e = VerificationFailed | Inr _ \<Rightarrow> True)" "\<forall>e. r = Some e \<longrightarrow> res = Inl e"
    and "write_contained io proot parts create fs g" "g (proot @ parts) = fs (proot @ parts)"
    and "g (tmp_name io (proot @ parts)) = fs (tmp_name io (proot @ parts))"
  shows "write_contained io proot parts create fs fs'
    \<and> (let full = proot @ parts; written = Some (File (kept_mode fs full) content) in
       case res of
         Inr _ \<Rightarrow> fs' full = written \<and> fs' (tmp_name io full) = fs (tmp_name io full)
       | Inl e \<Rightarrow> fs' full = fs full \<or> e = VerificationFailed \<and> fs' full = written)"
proof -
  let ?full = "proot @ parts"
  note eff = atomic_write_effect [OF assms(1-6)]
  have other: "tmp_name io ?full \<noteq> ?full" using assms(5) by (intro tmp_name_other) simp
  show ?thesis
  proof (cases r)
    case None
    then have fs': "fs' = g(?full \<mapsto> File (kept_mode g ?full) content)" using eff by simp
    then have "write_contained io proot parts create fs fs'" using atomic_contained [OF assms(9) _ assms(5)] by blast
    then show ?thesis
      using fs' other None assms(7,10,11) kept_mode_cong [of g ?full fs] by (cases res) (auto simp: Let_def)
  next
    case (Some e)
    then have fs': "fs' = g \<or> spilled g (tmp_name io ?full) fs'" using eff by auto
    then have "write_contained io proot parts create fs fs'" using atomic_contained [OF assms(9) _ assms(5)] assms(9) by blast
    moreover have "fs' ?full = fs ?full" using fs' other assms(10) by (auto simp: spilled_def)
    ultimately show ?thesis using Some assms(8) by (simp add: Let_def)
  qed
qed

lemma ensure_parent_effect:
  assumes "ensure_parent io create (proot @ parts) proot fs = (r, g)" "file_tree fs" "fs proot = Some Directory"
    "no_links fs proot parts" "list_all proper_name parts" "parts \<noteq> []"
  shows "file_tree g \<and> g proot = Some Directory \<and> (\<forall>cr. r = Inr cr \<longrightarrow> no_links g proot parts)
    \<and> write_contained io proot parts create fs g \<and> g (proot @ parts) = fs (proot @ parts)
    \<and> g (tmp_name io (proot @ parts)) = fs (tmp_name io (proot @ parts))"
proof (cases "\<not> path_exists fs (butlast (proot @ parts)) \<and> create")
  case False
  then show ?thesis using assms by (auto simp: ensure_parent_def split: if_splits)
next
  case True
  then have "create_parent_directories io fs (proot @ parts) proot = (r, g)" using assms(1) by (simp add: ensure_parent_def)
  note eff = create_parents_effect [OF this assms(2,3,5,6)]
  then have made: "made_dirs fs g proot (butlast parts)" by blast
  have "length (butlast parts) < length parts" using assms(6) by simp
  then have "g (proot @ parts) = fs (proot @ parts)" "g (tmp_name io (proot @ parts)) = fs (tmp_name io (proot @ parts))"
    using assms(6) by (auto intro!: made_dirs_outside [OF made])
  moreover have "g proot = Some Directory" using made assms(3) unfolding made_dirs_def by (metis option.distinct(1))
  moreover have "write_contained io proot parts create fs g" using made_dirs_contained [OF made assms(6)] True by simp
  ultimately show ?thesis using eff by blast
qed

lemma project_file_write_run:
  assumes "file_tree fs" "map_of (project_roots pol) project_id = Some proot" "fs proot = Some Directory"
    and "project_file_write lib io pol rid project_id relative content max_bytes safe create_parents fs = (res, fs')"
    and "\<not> (\<exists>e. res = Inl e \<and> fs' = fs)"
  obtains r g where "path_parts relative \<noteq> []" "list_all proper_name (path_parts relative)"
    "no_links fs proot (path_parts relative)" "\<not> hidden_parts (path_parts relative)"
    "''project:write'' \<in> set (expand_scopes (granted_scopes pol))" "fs (proot @ path_parts relative) \<noteq> Some Directory"
    "length content \<le> max_bytes" "ensure_parent io create_parents (proot @ path_parts relative) proot fs = (r, g)"
    "case r of Inl e \<Rightarrow> res = Inl e \<and> fs' = g
      | Inr created \<Rightarrow>
          write_prepared lib io rid project_id relative content safe (proot @ path_parts relative) created g = (res, fs')"
proof -
  obtain full pr r g where run: "\<not> is_directory_target pol fs project_id relative"
      "write_target pol fs project_id relative = Inr (full, pr)" "content_error content max_bytes = None"
      "ensure_parent io create_parents full pr fs = (r, g)"
      "case r of Inl e \<Rightarrow> res = Inl e \<and> fs' = g
        | Inr created \<Rightarrow> write_prepared lib io rid project_id relative content safe full created g = (res, fs')"
    using assms(4,5) by (auto simp: project_file_write_def split: option.splits if_splits sum.splits prod.splits)
  note target = write_targetD [OF run(2) assms(1)]
  have pr: "pr = proot" "full = proot @ path_parts relative" using target(1,6) assms(2) by auto
  have "validate_write pol fs project_id relative = Inr full"
    using run(2) by (auto simp: write_target_def split: sum.splits option.splits)
  then have "\<not> is_dir fs full" using run(1) by (simp add: is_directory_target_def)
  then have "path_parts relative \<noteq> []" "fs full \<noteq> Some Directory"
    using assms(1,3) pr(2) locate_itself [of fs proot] locate_itself [of fs full] by (auto simp: is_dir_def)
  moreover have "length content \<le> max_bytes" using run(3) by (auto simp: content_error_def split: if_splits)
  ultimately show thesis using target run(4,5) unfolding pr by (intro that)
qed

lemma write_prepared_outcome:
  assumes "write_prepared lib io rid project_id relative content safe full created g = (res, fs')"
  shows "\<exists>a. atomic_write io g full content = (a, fs')
    \<and> (a = None \<longrightarrow> (case res of Inl e \<Rightarrow> e = VerificationFailed | Inr r \<Rightarrow> True))
    \<and> (\<forall>e. a = Some e \<longrightarrow> res = Inl e)
    \<and> (\<forall>r. res = Inr r \<longrightarrow> wr_hash r = hash_text lib content)"
proof -
  obtain a g' where aw: "atomic_write io g full content = (a, g')" by fastforce
  have hash: "post_write_confirmation lib io g' full content = Inr h \<Longrightarrow> h = hash_text lib content" for h
    by (auto simp: post_write_confirmation_def split: option.splits if_splits)
  show ?thesis
  proof (cases a)
    case None
    then show ?thesis
      using assms aw hash post_write_confirmation_error [of lib io g' full content]
      by (cases "post_write_confirmation lib io g' full content") (auto simp: write_prepared_def Let_def)
  next
    case (Some e)
    then show ?thesis using assms aw by (auto simp: write_prepared_def Let_def)
  qed
qed

text \<open>C36: Writing a file of a project changes nothing outside of it: whatever the content, the path and the links in the
  file system, and whichever system calls fail, everything that \<open>project_file_write\<close> changes is below the root of the
  project, namely the file itself, missing parent directories that were asked for and, when even its removal
  failed, its temporary file; names that are hidden or secret are refused. On success the file has exactly the
  content, with the mode it had before; on failure it is as it was, unless only the reading back failed.\<close>

theorem project_write_contained:
  assumes "file_tree fs" "map_of (project_roots pol) project_id = Some proot" "fs proot = Some Directory"
    and "project_file_write lib io pol rid project_id relative content max_bytes safe create_parents fs = (res, fs')"
  shows "write_contained io proot (path_parts relative) create_parents fs fs'
    \<and> (fs' \<noteq> fs \<longrightarrow> \<not> hidden_parts (path_parts relative) \<and> ''project:write'' \<in> set (expand_scopes (granted_scopes pol)))
    \<and> (let full = proot @ path_parts relative; written = Some (File (kept_mode fs full) content) in
       case res of
         Inr r \<Rightarrow> fs' full = written \<and> length content \<le> max_bytes \<and> fs' (tmp_name io full) = fs (tmp_name io full)
       | Inl e \<Rightarrow> fs' full = fs full \<or> e = VerificationFailed \<and> fs' full = written)"
proof (cases "\<exists>e. res = Inl e \<and> fs' = fs")
  case True
  then show ?thesis by (auto simp: Let_def)
next
  case False
  let ?parts = "path_parts relative"
  from project_file_write_run [OF assms False]
  obtain r g where run: "?parts \<noteq> []" "list_all proper_name ?parts" "no_links fs proot ?parts" "\<not> hidden_parts ?parts"
      "''project:write'' \<in> set (expand_scopes (granted_scopes pol))" "length content \<le> max_bytes"
      "ensure_parent io create_parents (proot @ ?parts) proot fs = (r, g)"
      "case r of Inl e \<Rightarrow> res = Inl e \<and> fs' = g
        | Inr created \<Rightarrow> write_prepared lib io rid project_id relative content safe (proot @ ?parts) created g = (res, fs')" .
  note parent = ensure_parent_effect [OF run(7) assms(1,3) run(3,2,1)]
  show ?thesis
  proof (cases r)
    case (Inl e)
    then show ?thesis using run parent by (auto simp: Let_def)
  next
    case (Inr created)
    then obtain a where aw: "atomic_write io g (proot @ ?parts) content = (a, fs')"
      "a = None \<longrightarrow> (case res of Inl e \<Rightarrow> e = VerificationFailed | Inr _ \<Rightarrow> True)" "\<forall>e. a = Some e \<longrightarrow> res = Inl e"
      using run(8) write_prepared_outcome by force
    have g: "file_tree g" "g proot = Some Directory" "no_links g proot ?parts"
      "write_contained io proot ?parts create_parents fs g" "g (proot @ ?parts) = fs (proot @ ?parts)"
      "g (tmp_name io (proot @ ?parts)) = fs (tmp_name io (proot @ ?parts))"
      using parent Inr by blast+
    note eff = confirmed_write_effect [OF g(1-3) run(2,1) aw g(4-6)]
    then show ?thesis using run(4-6) by (auto simp: Let_def split: sum.splits)
  qed
qed

text \<open>The tree stays a tree.\<close>

lemma atomic_write_tree:
  assumes "file_tree fs" "fs proot = Some Directory" "no_links fs proot parts" "list_all proper_name parts" "parts \<noteq> []"
    and "atomic_write io fs (proot @ parts) content = (res, fs')"
  shows "file_tree fs'"
proof -
  obtain ds c where parts: "parts = ds @ [c]" using assms(5) by (cases parts rule: rev_cases) auto
  have "proper_name (c @ ''.'' @ wi_tmp io @ ''.tmp'')"
    using arg_cong [where f = length] by (fastforce simp: proper_name_def)
  then have "file_tree fs'" if "spilled fs (tmp_name io (proot @ parts)) fs'" "fs (proot @ ds) = Some Directory"
    using that file_tree_put [OF assms(1) that(2), of "c @ ''.'' @ wi_tmp io @ ''.tmp''"]
    unfolding spilled_def parts append_assoc [symmetric] tmp_name_in by auto
  then show ?thesis
    using atomic_write_effect [OF assms] assms(1,4) parts file_tree_put [OF assms(1), of "proot @ ds" c]
    by (cases res) (auto simp: butlast_append)
qed

lemma project_file_write_tree:
  assumes "file_tree fs" "map_of (project_roots pol) project_id = Some proot" "fs proot = Some Directory"
    and "project_file_write lib io pol rid project_id relative content max_bytes safe create_parents fs = (res, fs')"
  shows "file_tree fs'"
proof (cases "\<exists>e. res = Inl e \<and> fs' = fs")
  case False
  let ?parts = "path_parts relative"
  from project_file_write_run [OF assms False]
  obtain r g where run: "?parts \<noteq> []" "list_all proper_name ?parts" "no_links fs proot ?parts"
      "ensure_parent io create_parents (proot @ ?parts) proot fs = (r, g)"
      "case r of Inl e \<Rightarrow> res = Inl e \<and> fs' = g
        | Inr created \<Rightarrow> write_prepared lib io rid project_id relative content safe (proot @ ?parts) created g = (res, fs')" .
  note parent = ensure_parent_effect [OF run(4) assms(1,3) run(3,2,1)]
  show ?thesis
  proof (cases r)
    case (Inl e)
    then show ?thesis using run(5) parent by simp
  next
    case (Inr created)
    then obtain a where "atomic_write io g (proot @ ?parts) content = (a, fs')"
      using run(5) write_prepared_outcome by force
    then show ?thesis using atomic_write_tree [OF _ _ _ run(2,1)] parent Inr by blast
  qed
qed (use assms(1) in auto)

subsection \<open>What an edit does\<close>

lemma replace_first_split:
  assumes "str_in old s" "old \<noteq> []"
  shows "\<exists>a b. s = a @ old @ b \<and> replace_first old new s = a @ new @ b
    \<and> (\<forall>a' b'. s = a' @ old @ b' \<longrightarrow> length a \<le> length a')"
  using assms(1)
proof (induction s)
  case Nil
  then show ?case using assms(2) by (simp add: str_in_iff)
next
  case (Cons c s)
  show ?case
  proof (cases "startswith (c # s) old")
    case True
    then obtain r where r: "c # s = old @ r" by (auto simp: startswith_iff)
    have "replace_first old new (c # s) = new @ drop (length old) (c # s)" using True by simp
    then have "replace_first old new (c # s) = new @ r" unfolding r by simp
    then show ?thesis using r by (intro exI [of _ "[]"] exI [of _ r]) auto
  next
    case False
    have first: "a \<noteq> []" if "c # s = a @ old @ b" for a b using False that by (auto simp: startswith_iff)
    obtain a0 b0 where ab0: "c # s = a0 @ old @ b0" using Cons.prems by (auto simp: str_in_iff)
    then have "str_in old s" using first [OF ab0] by (cases a0) (auto simp: str_in_iff)
    then obtain a b where ab: "s = a @ old @ b" "replace_first old new s = a @ new @ b"
        "\<And>a' b'. s = a' @ old @ b' \<Longrightarrow> length a \<le> length a'"
      using Cons.IH by blast
    have "length (c # a) \<le> length a'" if "c # s = a' @ old @ b'" for a' b'
      using first [OF that] that ab(3) by (cases a') auto
    then show ?thesis using ab False by (intro exI [of _ "c # a"] exI [of _ b]) auto
  qed
qed

lemma exact_read_linkless:
  assumes "exact_read io fs (proot @ parts) max_bytes = Inr c" "file_tree fs" "fs proot = Some Directory"
    "no_links fs proot parts" "list_all proper_name parts"
  shows "parts \<noteq> [] \<and> length c \<le> max_bytes \<and> utf8_valid c \<and> fs (proot @ parts) = Some (File (kept_mode fs (proot @ parts)) c)"
proof -
  obtain m where m: "file_at fs (proot @ parts) = Some (m, c)" "length c \<le> max_bytes" "utf8_valid c"
    using assms(1) by (auto simp: exact_read_def split: if_splits option.splits)
  then have "fs (proot @ parts) = Some (File m c)"
    unfolding file_at_linkless [OF assms(2-5)] by (auto split: option.splits fnode.splits)
  then show ?thesis using m assms(3) by (cases parts) (auto simp: kept_mode_def)
qed

text \<open>An edit that is reported as done has replaced exactly the first occurrence of the old text by the new one, in a
  valid text within the size limit: the file keeps its mode, and nothing else in the file system has changed
  (nothing at all when the two texts are equal).\<close>

theorem edit_replaces_first_occurrence:
  assumes "file_tree fs" "map_of (project_roots pol) project_id = Some proot" "fs proot = Some Directory"
    and "project_file_edit lib io pol rid project_id relative old new max_bytes safe fs = (Inr r, fs')"
  shows "\<exists>m a b. fs (proot @ path_parts relative) = Some (File m (a @ old @ b))
    \<and> (\<forall>a' b'. a @ old @ b = a' @ old @ b' \<longrightarrow> length a \<le> length a')
    \<and> (if old = new then fs' = fs
       else fs' = fs(proot @ path_parts relative \<mapsto> File m (a @ new @ b)) \<and> length (a @ new @ b) \<le> max_bytes)
    \<and> er_replaced r = (old \<noteq> new) \<and> er_size r = length (a @ new @ b)
    \<and> \<not> hidden_parts (path_parts relative)"
proof -
  obtain full pr c where run: "old \<noteq> []" "write_target pol fs project_id relative = Inr (full, pr)"
      "exact_read io fs full max_bytes = Inr c"
      "edit_content lib io rid project_id relative old new max_bytes safe full c fs = (Inr r, fs')"
    using assms(4) by (auto simp: project_file_edit_def split: if_splits sum.splits)
  note target = write_targetD [OF run(2) assms(1)]
  let ?full = "proot @ path_parts relative"
  have pr: "pr = proot" "full = ?full" using target(1,6) assms(2) by auto
  note read = exact_read_linkless [OF run(3) [unfolded pr] assms(1,3) target(3) [unfolded pr] target(2)]
  have occ: "str_in old c" using run(4) by (auto simp: edit_content_def split: if_splits)
  obtain a b where ab: "c = a @ old @ b" "replace_first old new c = a @ new @ b"
      "\<forall>a' b'. c = a' @ old @ b' \<longrightarrow> length a \<le> length a'"
    using replace_first_split [OF occ run(1)] by blast
  show ?thesis
  proof (cases "old = new")
    case True
    then have "fs' = fs" "er_replaced r = False" "er_size r = length c"
      using run(4) occ by (auto simp: edit_content_def)
    then show ?thesis using read ab True target(4) by (intro exI [of _ a] exI [of _ b] exI) auto
  next
    case False
    then obtain aw where aw: "atomic_write io fs ?full (a @ new @ b) = (aw, fs')" "aw = None"
        "er_replaced r" "er_size r = length (a @ new @ b)" "length (a @ new @ b) \<le> max_bytes"
      using run(4) occ ab(2) pr(2) by (auto simp: edit_content_def Let_def split: if_splits option.splits prod.splits)
    then have "fs' = fs(?full \<mapsto> File (kept_mode fs ?full) (a @ new @ b))"
      using atomic_write_effect [OF assms(1,3) target(3) [unfolded pr] target(2) _ aw(1)] read by simp
    then show ?thesis using read ab False aw(3-) target(4) by (intro exI [of _ a] exI [of _ b] exI) auto
  qed
qed

subsection \<open>Concrete calls\<close>

definition demo_write_io :: write_io where
  "demo_write_io = \<lparr>wi_tmp = ''id'', wi_open = True, wi_write = True, wi_partial = [], wi_chmod = True, wi_replace = True,
     wi_unlink = True, wi_read = True, wi_mkdir = (\<lambda>_. True)\<rparr>"

definition demo_edit_lib :: edit_lib where
  "demo_edit_lib = \<lparr>el_sha256 = id, el_decode_replace = id, el_unified_diff = (\<lambda>_ _ _ _. []), el_opcodes = (\<lambda>_ _. [])\<rparr>"

lemma demo_file_tree: "file_tree demo_tree"
  by (auto simp: file_tree_def demo_tree_def proper_name_def Cons_eq_append_conv append_eq_Cons_conv split: if_splits)

lemma demo_tree_dirs: "map_of (project_roots demo_policy) ''p'' = Some [''w'', ''p'']" "demo_tree [''w'', ''p''] = Some Directory"
  by (simp_all add: demo_policy_def demo_tree_def)

text \<open>A write along the link out of the project leaves the file of the system as it is.\<close>

lemma project_write_contained_witness:
  "snd (project_file_write demo_edit_lib demo_write_io demo_policy ''id'' ''p'' ''out/passwd'' ''evil'' 10 False False demo_tree)
     [''etc'', ''passwd''] = Some (File 420 ''users'')"
proof -
  obtain res fs' where run:
    "project_file_write demo_edit_lib demo_write_io demo_policy ''id'' ''p'' ''out/passwd'' ''evil'' 10 False False demo_tree = (res, fs')"
    by fastforce
  have "write_contained demo_write_io [''w'', ''p''] (path_parts ''out/passwd'') False demo_tree fs'"
    using project_write_contained [OF demo_file_tree demo_tree_dirs run] by blast
  moreover have "\<not> strict_prefix [''w'', ''p''] [''etc'', ''passwd'']" by (simp add: strict_prefix_def)
  ultimately have "fs' [''etc'', ''passwd''] = demo_tree [''etc'', ''passwd'']"
    unfolding write_contained_def by blast
  then show ?thesis unfolding run by (simp add: demo_tree_def)
qed

text \<open>The tree with other content in the file of the project.\<close>

definition demo_with :: "string \<Rightarrow> file_system" where
  "demo_with c = demo_tree([''w'', ''p'', ''a.txt''] \<mapsto> File 384 c)"

lemma demo_with_hello: "demo_with ''hello'' = demo_tree"
  unfolding demo_with_def by (rule fun_upd_idem) (simp add: demo_tree_def)

lemma demo_with_file: "demo_with c [''w'', ''p'', ''a.txt''] = Some (File 384 c)" "demo_with c [''w'', ''p''] = Some Directory"
  by (simp_all add: demo_with_def demo_tree_def)

lemma demo_with_tree: "file_tree (demo_with c)"
proof -
  have "demo_tree ([''w'', ''p''] @ [''a.txt'']) \<noteq> Some Directory" "proper_name ''a.txt''"
    by (simp_all add: demo_tree_def proper_name_def)
  then show ?thesis
    using file_tree_put [OF demo_file_tree demo_tree_dirs(2), of "''a.txt''" "File 384 c"] by (simp add: demo_with_def)
qed

lemma demo_with_located:
  "locate (demo_with c) [''w'', ''p''] = Some [''w'', ''p'']"
  "locate (demo_with c) [''w'', ''p'', ''a.txt''] = Some [''w'', ''p'', ''a.txt'']"
  using locate_itself [OF demo_with_tree] demo_with_file by (simp_all add: real_node_def)

lemma demo_with_at:
  "path_exists (demo_with c) [''w'', ''p'']" "is_dir (demo_with c) [''w'', ''p'']"
  "path_exists (demo_with c) [''w'', ''p'', ''a.txt'']" "\<not> is_dir (demo_with c) [''w'', ''p'', ''a.txt'']"
  "file_at (demo_with c) [''w'', ''p'', ''a.txt''] = Some (384, c)"
  using demo_with_located demo_with_file by (simp_all add: path_exists_def is_dir_def file_at_def)

lemma demo_write_target: "write_target demo_policy (demo_with c) ''p'' ''a.txt'' = Inr ([''w'', ''p'', ''a.txt''], [''w'', ''p''])"
  and demo_validate_write: "validate_write demo_policy (demo_with c) ''p'' ''a.txt'' = Inr [''w'', ''p'', ''a.txt'']"
proof -
  let ?fs = "demo_with c" and ?full = "[''w'', ''p'', ''a.txt'']"
  have parts: "path_parts ''a.txt'' = [''a.txt'']" by (simp add: path_parts_def)
  have proot: "resolve_project_root demo_policy ?fs ''p'' = Inr [''w'', ''p'']"
    using demo_with_at(1) by (simp add: resolve_project_root_def demo_policy_def)
  then have root: "checked_root demo_policy ?fs ''project:write'' ''p'' ''a.txt'' = Inr [''w'', ''p'']"
    by (simp add: checked_root_def require_workspace_scope_def expand_scopes_def demo_policy_def check_traversal_def path_parts_def)
  have "not_link ?fs ?full" by (simp add: not_link_def demo_with_file)
  then have link: "\<not> is_symlink ?fs ?full"
    using is_symlink_in_dir [OF demo_with_tree demo_with_file(2), of c "''a.txt''"] by simp
  have inside: "check_existing demo_policy ?fs ?full [''w'', ''p''] = None"
    using resolve_locates [OF demo_with_located(2)] demo_with_at(3)
    by (simp add: check_existing_def check_symlink_escape_def is_relative_to_def check_allowed_roots_def
        demo_policy_def check_system_forbidden_def SYSTEM_FORBIDDEN_def abs_str_def)
  show valid: "validate_write demo_policy ?fs ''p'' ''a.txt'' = Inr ?full"
    using link parts root inside resolve_locates [OF demo_with_located(1)] demo_with_at(1,3)
    by (simp add: validate_write_def join_path_def check_no_symlink_components_def relative_to_def
        is_hidden_or_secret_path_def demo_name_simps check_symlink_escape_def is_relative_to_def check_allowed_roots_def
        demo_policy_def)
  show "write_target demo_policy ?fs ''p'' ''a.txt'' = Inr (?full, [''w'', ''p''])"
    using link valid proot by (simp add: write_target_def symlink_safe_preflight_def relative_to_def)
qed

lemma demo_io_ok:
  "wi_open demo_write_io" "wi_write demo_write_io" "wi_chmod demo_write_io" "wi_replace demo_write_io" "wi_read demo_write_io"
  by (simp_all add: demo_write_io_def)

lemma demo_read:
  "utf8_valid c \<Longrightarrow> CHR 0x00 \<notin> set c \<Longrightarrow> length c \<le> limit
    \<Longrightarrow> exact_read demo_write_io (demo_with c) [''w'', ''p'', ''a.txt''] limit = Inr c"
  using demo_with_at by (auto simp: exact_read_def is_binary_path_def chunk_binary_def demo_write_io_def dest: in_set_takeD)

lemma demo_atomic_write: "atomic_write demo_write_io (demo_with c) [''w'', ''p'', ''a.txt''] x = (None, demo_with x)"
proof -
  let ?full = "[''w'', ''p'', ''a.txt'']" and ?dir = "[''w'', ''p'']"
  let ?tmp = "tmp_name demo_write_io ?full"
  let ?fs1 = "(demo_with c)(?tmp \<mapsto> File 384 x)"
  have entry: "entry_of (demo_with c) ?tmp = Some ?tmp" "?tmp = ?dir @ [''a.txt.id.tmp'']"
    using entry_in_dir [OF demo_with_tree demo_with_file(2)] by (simp_all add: tmp_name_def path_name_def demo_write_io_def)
  have tmp: "demo_with c ?tmp = None" "?tmp \<noteq> ?full" "?tmp \<noteq> ?dir" by (simp_all add: entry(2) demo_with_def demo_tree_def)
  have "file_tree ?fs1" unfolding entry(2) using demo_with_tree demo_with_file(2)
    by (rule file_tree_put) (use tmp(1) entry(2) in \<open>simp_all add: proper_name_def\<close>)
  then have "entry_of ?fs1 (?dir @ [''a.txt'']) = Some (?dir @ [''a.txt''])"
    using demo_with_file(2) tmp(3) by (intro entry_in_dir) simp_all
  then have "atomic_write demo_write_io (demo_with c) ?full x = (None, ?fs1(?full := ?fs1 ?tmp, ?tmp := None))"
    using demo_with_at entry(1) tmp(1,2) demo_with_file
    by (simp add: atomic_write_def replace_target_def Let_def demo_io_ok)
  moreover have "?fs1(?full := ?fs1 ?tmp, ?tmp := None) = demo_with x" using tmp by (auto simp: demo_with_def)
  ultimately show ?thesis by simp
qed

lemma demo_utf8: "utf8_valid ''hello''" "utf8_valid ''new''"
  by (simp_all add: utf8_valid.simps utf8_width_def byte_in_def)

lemma demo_edit:
  "\<exists>r fs'. project_file_edit demo_edit_lib demo_write_io demo_policy ''id'' ''p'' ''a.txt'' ''l'' ''LL'' 100 False demo_tree = (Inr r, fs')"
  using demo_write_target [of "''hello''"] demo_read [OF demo_utf8(1), of 100] demo_atomic_write [of "''hello''"] demo_with_at(5)
  by (simp add: demo_with_hello project_file_edit_def edit_content_def post_write_confirmation_def demo_io_ok Let_def)

lemma edit_replaces_first_occurrence_witness:
  "snd (project_file_edit demo_edit_lib demo_write_io demo_policy ''id'' ''p'' ''a.txt'' ''l'' ''LL'' 100 False demo_tree)
     [''w'', ''p'', ''a.txt''] = Some (File 384 ''heLLlo'')"
proof -
  obtain r fs' where run:
    "project_file_edit demo_edit_lib demo_write_io demo_policy ''id'' ''p'' ''a.txt'' ''l'' ''LL'' 100 False demo_tree = (Inr r, fs')"
    using demo_edit by blast
  have parts: "path_parts ''a.txt'' = [''a.txt'']" by (simp add: path_parts_def)
  obtain m a b where ab: "demo_tree [''w'', ''p'', ''a.txt''] = Some (File m (a @ ''l'' @ b))"
      "\<And>a' b'. a @ ''l'' @ b = a' @ ''l'' @ b' \<Longrightarrow> length a \<le> length a'"
      "fs' [''w'', ''p'', ''a.txt''] = Some (File m (a @ ''LL'' @ b))"
    using edit_replaces_first_occurrence [OF demo_file_tree demo_tree_dirs run] by (auto simp: parts)
  have hello: "a @ ''l'' @ b = ''hello''" "m = 384" using ab(1) by (simp_all add: demo_tree_def)
  then have "length a \<le> 2" using ab(2) [of "''he''" "''lo''"] by simp
  then have "a = ''he'' \<and> b = ''lo''" using hello(1) by (auto simp: append_eq_Cons_conv)
  then show ?thesis unfolding run using ab(3) hello(2) by simp
qed

end
