(* ===== verification/WorkspacePatch.thy ===== *)
theory WorkspacePatch
  imports WorkspaceEdit
begin

text \<open>
  The patch tool of \<open>app/workspace/edit.py\<close>: parsing a unified diff of one file, applying its hunks to the lines of the
  file, deleting the file where the diff says so.
\<close>

subsection \<open>Patching a file\<close>

record text_hunk =
  th_old_start :: nat
  th_old_lines :: "string list"
  th_new_lines :: "string list"
  th_removed :: "string list"
  th_added :: "string list"
  th_context :: "string list"

definition digits_value :: "string \<Rightarrow> nat" where
  "digits_value ds = fold (\<lambda>d v. v * 10 + (of_char d - 48)) ds 0"

text \<open>A number and what follows it.\<close>

definition read_number :: "string \<Rightarrow> (nat \<times> string) option" where
  "read_number s =
     (let ds = takeWhile is_ascii_digit s in
      if ds = [] then None else Some (digits_value ds, dropWhile is_ascii_digit s))"

text \<open>\<open>(\d+)(?:,\d+)?\<close>\<close>

definition read_range :: "string \<Rightarrow> (nat \<times> string) option" where
  "read_range s =
     (case read_number s of
        None \<Rightarrow> None
      | Some (n, r) \<Rightarrow>
          if startswith r '','' then (case read_number (drop 1 r) of None \<Rightarrow> Some (n, r) | Some (k, r') \<Rightarrow> Some (n, r'))
          else Some (n, r))"

text \<open>The start of the old side, when the line is the header of a hunk.\<close>

definition hunk_header :: "string \<Rightarrow> nat option" where
  "hunk_header line =
     (if \<not> startswith line ''@@ -'' then None
      else
        (case read_range (drop 4 line) of
           None \<Rightarrow> None
         | Some (n, r) \<Rightarrow>
             if \<not> startswith r '' +'' then None
             else
               (case read_range (drop 2 r) of
                  None \<Rightarrow> None
                | Some (k, r') \<Rightarrow> if startswith r' '' @@'' then Some n else None)))"

definition empty_hunk :: "nat \<Rightarrow> text_hunk" where
  "empty_hunk n = \<lparr>th_old_start = n, th_old_lines = [], th_new_lines = [], th_removed = [], th_added = [], th_context = []\<rparr>"

definition add_line :: "string \<Rightarrow> text_hunk \<Rightarrow> text_hunk" where
  "add_line line h =
     (if startswith line ''-'' then
        h\<lparr>th_old_lines := th_old_lines h @ [drop 1 line], th_removed := th_removed h @ [drop 1 line]\<rparr>
      else if startswith line ''+'' then
        h\<lparr>th_new_lines := th_new_lines h @ [drop 1 line], th_added := th_added h @ [drop 1 line]\<rparr>
      else if startswith line '' '' \<or> line = [] then
        h\<lparr>th_old_lines := th_old_lines h @ [drop 1 line], th_new_lines := th_new_lines h @ [drop 1 line],
          th_context := th_context h @ [drop 1 line]\<rparr>
      else h)"

fun parse_hunk_lines :: "string list \<Rightarrow> text_hunk option \<Rightarrow> text_hunk list" where
  "parse_hunk_lines [] current = (case current of None \<Rightarrow> [] | Some h \<Rightarrow> [h])"
| "parse_hunk_lines (line # lines) current =
     (case hunk_header line of
        Some n \<Rightarrow>
          (case current of None \<Rightarrow> [] | Some h \<Rightarrow> [h]) @ parse_hunk_lines lines (Some (empty_hunk n))
      | None \<Rightarrow> parse_hunk_lines lines (map_option (add_line line) current))"

definition parse_unified_diff :: "string \<Rightarrow> text_hunk list" where
  "parse_unified_diff patch = parse_hunk_lines (splitlines patch) None"

text \<open>The first line of a hunk that does not match; \<open>j\<close> counts from 1.\<close>

fun hunk_conflict :: "string list \<Rightarrow> nat \<Rightarrow> nat \<Rightarrow> nat \<Rightarrow> string list \<Rightarrow> write_error option" where
  "hunk_conflict result i at_line j [] = None"
| "hunk_conflict result i at_line j (expected # es) =
     (if length result \<le> at_line then Some (HunkLineOutOfRange i j)
      else if result ! at_line \<noteq> expected then Some (HunkMismatch i j expected (result ! at_line))
      else hunk_conflict result i (at_line + 1) (j + 1) es)"

fun apply_text_hunks :: "string list \<Rightarrow> nat \<Rightarrow> int \<Rightarrow> text_hunk list \<Rightarrow> write_error + string list" where
  "apply_text_hunks result i offset [] = Inr result"
| "apply_text_hunks result i offset (h # hs) =
     (let start = int (th_old_start h) - 1 + offset in
      if start < 0 \<or> int (length result) < start then Inl (HunkStartOutOfRange i)
      else
        (case hunk_conflict result i (nat start) 1 (th_old_lines h) of
           Some e \<Rightarrow> Inl e
         | None \<Rightarrow>
             apply_text_hunks
               (take (nat start) result @ th_new_lines h @ drop (nat start + length (th_old_lines h)) result)
               (i + 1) (offset + int (length (th_new_lines h)) - int (length (th_old_lines h))) hs))"

definition is_deletion_patch :: "string \<Rightarrow> bool" where
  "is_deletion_patch patch =
     list_ex (\<lambda>line. startswith line ''+++'' \<and> strip (drop 3 line) = ''/dev/null'') (splitlines patch)"

definition crlf :: string where
  "crlf = [CHR 0x0D, newline]"

text \<open>The lines joined with the terminator of the file.\<close>

definition join_lines :: "string \<Rightarrow> string list \<Rightarrow> string" where
  "join_lines old_content new_lines =
     (let nl = (if str_in crlf old_content then crlf else [newline]); joined = py_join nl new_lines in
      if endswith old_content [newline] \<and> \<not> endswith joined [newline] then joined @ nl else joined)"

record patch_result =
  pt_size :: nat
  pt_deleted :: bool
  pt_verified :: bool
  pt_backup_hash :: string
  pt_hash :: "string option"
  pt_receipt :: "change_receipt option"

definition unlink :: "file_system \<Rightarrow> path \<Rightarrow> file_system option" where
  "unlink fs p =
     (case entry_of fs p of
        None \<Rightarrow> None
      | Some e \<Rightarrow> if fs e = None \<or> fs e = Some Directory then None else Some (fs(e := None)))"

definition delete_file ::
    "edit_lib \<Rightarrow> write_io \<Rightarrow> string \<Rightarrow> string \<Rightarrow> string \<Rightarrow> bool \<Rightarrow> path \<Rightarrow> string \<Rightarrow> file_system
      \<Rightarrow> (write_error + patch_result) \<times> file_system" where
  "delete_file lib io rid project_id relative safe full old_content fs =
     (case (if wi_unlink io then unlink fs full else None) of
        None \<Rightarrow> (Inl OSRaised, fs)
      | Some fs' \<Rightarrow>
          (Inr \<lparr>pt_size = 0, pt_deleted = True, pt_verified = (\<not> path_exists fs' full), pt_backup_hash = hash_text lib old_content,
             pt_hash = None,
             pt_receipt = (if safe then Some (make_receipt lib io rid project_id relative ''patch'' fs' full
               (Some old_content) [] True) else None)\<rparr>, fs'))"

definition patch_file ::
    "edit_lib \<Rightarrow> write_io \<Rightarrow> string \<Rightarrow> string \<Rightarrow> string \<Rightarrow> string \<Rightarrow> nat \<Rightarrow> bool \<Rightarrow> path \<Rightarrow> string \<Rightarrow> file_system
      \<Rightarrow> (write_error + patch_result) \<times> file_system" where
  "patch_file lib io rid project_id relative patch max_bytes safe full old_content fs =
     (case parse_unified_diff patch of
        [] \<Rightarrow> (Inl NoHunks, fs)
      | hunks \<Rightarrow>
          (case apply_text_hunks (splitlines old_content) 1 0 hunks of
             Inl e \<Rightarrow> (Inl e, fs)
           | Inr new_lines \<Rightarrow>
               (let new_content = join_lines old_content new_lines in
                if max_bytes < length new_content then (Inl (ContentTooBig max_bytes), fs)
                else
                  (case atomic_write io fs full new_content of
                     (Some e, fs') \<Rightarrow> (Inl e, fs')
                   | (None, fs') \<Rightarrow>
                       (map_sum id (\<lambda>h. \<lparr>pt_size = length new_content, pt_deleted = False, pt_verified = True,
                            pt_backup_hash = hash_text lib old_content, pt_hash = Some h,
                            pt_receipt = (if safe then Some (make_receipt lib io rid project_id relative ''patch'' fs' full
                              (Some old_content) new_content False) else None)\<rparr>)
                          (post_write_confirmation lib io fs' full new_content), fs')))))"

definition project_apply_patch ::
    "edit_lib \<Rightarrow> write_io \<Rightarrow> workspace_policy \<Rightarrow> string \<Rightarrow> string \<Rightarrow> string \<Rightarrow> string \<Rightarrow> nat \<Rightarrow> bool \<Rightarrow> file_system
      \<Rightarrow> (write_error + patch_result) \<times> file_system" where
  "project_apply_patch lib io pol rid project_id relative patch max_bytes safe fs =
     (case write_target pol fs project_id relative of
        Inl e \<Rightarrow> (Inl e, fs)
      | Inr (full, proot) \<Rightarrow>
          (case exact_read io fs full max_bytes of
             Inl e \<Rightarrow> (Inl e, fs)
           | Inr old_content \<Rightarrow>
               if is_deletion_patch patch then delete_file lib io rid project_id relative safe full old_content fs
               else patch_file lib io rid project_id relative patch max_bytes safe full old_content fs))"

subsection \<open>Printing a diff\<close>

text \<open>
  The reference: a diff is a list of pieces, each the lines kept before a hunk and the lines of the hunk, and the rest
  of the file. By the convention of the format a side without lines names the line before it.
\<close>

type_synonym diff_piece = "string list \<times> diff_line list"

fun diff_source :: "diff_piece list \<Rightarrow> string list \<Rightarrow> string list" where
  "diff_source [] rest = rest"
| "diff_source ((keep, body) # ps) rest = keep @ source_of body @ diff_source ps rest"

fun diff_target :: "diff_piece list \<Rightarrow> string list \<Rightarrow> string list" where
  "diff_target [] rest = rest"
| "diff_target ((keep, body) # ps) rest = keep @ target_of body @ diff_target ps rest"

definition header_text :: "nat \<Rightarrow> nat \<Rightarrow> nat \<Rightarrow> nat \<Rightarrow> string" where
  "header_text s l t m =
     ''@@ -'' @ nat_str s @ '','' @ nat_str l @ '' +'' @ nat_str t @ '','' @ nat_str m @ '' @@''"

definition side_start :: "nat \<Rightarrow> string list \<Rightarrow> nat" where
  "side_start before side = (if side = [] then before else before + 1)"

fun diff_lines :: "nat \<Rightarrow> nat \<Rightarrow> diff_piece list \<Rightarrow> string list" where
  "diff_lines i j [] = []"
| "diff_lines i j ((keep, body) # ps) =
     header_text (side_start (i + length keep) (source_of body)) (length (source_of body))
       (side_start (j + length keep) (target_of body)) (length (target_of body))
     # map line_text body
     @ diff_lines (i + length keep + length (source_of body)) (j + length keep + length (target_of body)) ps"

definition unlines :: "string list \<Rightarrow> string" where
  "unlines ls = concat (map (\<lambda>l. l @ [newline]) ls)"

definition plain_line :: "string \<Rightarrow> bool" where
  "plain_line l \<longleftrightarrow> list_all (\<lambda>c. \<not> line_break c) l"

lemma splitlines_plain: "plain_line l \<Longrightarrow> splitlines_from cur (l @ newline # rest) = rev (rev l @ cur) # splitlines rest"
proof (induction l arbitrary: cur)
  case Nil
  then show ?case by (cases rest) (auto simp: splitlines_def newline_def line_break_def)
next
  case (Cons c l)
  then have "c \<noteq> CHR 0x0D" "\<not> line_break c" by (auto simp: line_break_def plain_line_def)
  then show ?case using Cons by (cases l) (auto simp: plain_line_def)
qed

lemma splitlines_unlines: "list_all plain_line ls \<Longrightarrow> splitlines (unlines ls) = ls"
proof (induction ls)
  case Nil
  then show ?case by (simp add: unlines_def splitlines_def)
next
  case (Cons l ls)
  have "splitlines (unlines (l # ls)) = splitlines_from [] (l @ newline # unlines ls)"
    by (simp add: splitlines_def unlines_def)
  then show ?case using Cons splitlines_plain [of l "[]" "unlines ls"] by simp
qed

lemma unlines_join: "ls \<noteq> [] \<Longrightarrow> unlines ls = py_join [newline] ls @ [newline]"
proof (induction ls)
  case (Cons l ls)
  then show ?case by (cases ls) (simp_all add: unlines_def)
qed simp

lemma unlines_no_crlf: "list_all plain_line ls \<Longrightarrow> \<not> str_in crlf (unlines ls)"
proof
  assume plain: "list_all plain_line ls" and "str_in crlf (unlines ls)"
  from this(2) have "CHR 0x0D \<in> set (unlines ls)" by (auto simp: str_in_iff crlf_def)
  moreover have "line_break CHR 0x0D" "CHR 0x0D \<noteq> newline" by (simp_all add: line_break_def newline_def)
  ultimately show False using plain by (auto simp: unlines_def plain_line_def list_all_iff split: if_splits)
qed

lemma endswith_last: "endswith s [c] \<longleftrightarrow> s \<noteq> [] \<and> last s = c"
  by (cases s rule: rev_cases) (auto simp: endswith_def)

lemma join_last: "ls \<noteq> [] \<Longrightarrow> last ls \<noteq> [] \<Longrightarrow> py_join sep ls \<noteq> [] \<and> last (py_join sep ls) = last (last ls)"
proof (induction ls)
  case (Cons l ls)
  then show ?case by (cases ls) auto
qed simp

subsection \<open>Reading it back\<close>

lemma digits_value_snoc: "digits_value (ds @ [d]) = digits_value ds * 10 + (of_char d - 48)"
  by (simp add: digits_value_def)

lemma digit_char_value: "n < 10 \<Longrightarrow> is_ascii_digit (digit_char n) \<and> of_char (digit_char n) = (48 + n :: nat)"
  by (simp add: digit_char_def is_ascii_digit_def)

lemma nat_str_digits: "digits_value (nat_str n) = n \<and> list_all is_ascii_digit (nat_str n) \<and> nat_str n \<noteq> []"
proof (induction n rule: nat_str.induct)
  case (1 n)
  show ?case
  proof (cases "n < 10")
    case True
    then show ?thesis using digit_char_value [OF True] by (subst (1 2 3) nat_str.simps) (simp add: digits_value_def)
  next
    case False
    have "n mod 10 < 10" by simp
    then show ?thesis using 1 False digit_char_value [of "n mod 10"]
      by (subst (1 2 3) nat_str.simps) (simp add: digits_value_snoc)
  qed
qed

lemma read_number_nat_str: "r = [] \<or> \<not> is_ascii_digit (hd r) \<Longrightarrow> read_number (nat_str n @ r) = Some (n, r)"
proof -
  assume r: "r = [] \<or> \<not> is_ascii_digit (hd r)"
  have d: "\<forall>c \<in> set (nat_str n). is_ascii_digit c" "nat_str n \<noteq> []" "digits_value (nat_str n) = n"
    using nat_str_digits [of n] by (auto simp: list_all_iff)
  have "takeWhile is_ascii_digit (nat_str n @ r) = nat_str n" "dropWhile is_ascii_digit (nat_str n @ r) = r"
    using d(1) r by (cases r; simp)+
  then show ?thesis using d(2,3) by (simp add: read_number_def)
qed

lemma read_range_text: "\<not> is_ascii_digit c \<Longrightarrow> read_range (nat_str n @ CHR '','' # nat_str k @ c # r) = Some (n, c # r)"
  using read_number_nat_str [of "CHR '','' # nat_str k @ c # r" n] read_number_nat_str [of "c # r" k]
  by (simp add: read_range_def is_ascii_digit_def)

lemma header_read: "hunk_header (header_text s l t m) = Some s"
  using read_range_text [of "CHR '' ''" s l "CHR ''+'' # nat_str t @ '','' @ nat_str m @ '' @@''"]
    read_range_text [of "CHR '' ''" t m "''@@''"]
  by (simp add: header_text_def hunk_header_def is_ascii_digit_def)

lemma body_not_header: "hunk_header (line_text l) = None"
  by (cases l) (auto simp: hunk_header_def bslash_def)

fun diff_hunks :: "nat \<Rightarrow> diff_piece list \<Rightarrow> text_hunk list" where
  "diff_hunks i [] = []"
| "diff_hunks i ((keep, body) # ps) =
     fold (\<lambda>l. add_line (line_text l)) body (empty_hunk (side_start (i + length keep) (source_of body)))
     # diff_hunks (i + length keep + length (source_of body)) ps"

lemma parse_body:
  "parse_hunk_lines (map line_text body @ rest) (Some h) = parse_hunk_lines rest (Some (fold (\<lambda>l. add_line (line_text l)) body h))"
  by (induction body arbitrary: h) (simp_all add: body_not_header)

lemma parse_diff:
  "parse_hunk_lines (diff_lines i j ps) current = (case current of None \<Rightarrow> [] | Some h \<Rightarrow> [h]) @ diff_hunks i ps"
proof (induction ps arbitrary: i j current)
  case (Cons p ps)
  then show ?case by (cases p) (simp add: header_read parse_body)
qed (simp split: option.split)

lemma parse_preamble:
  "list_all (\<lambda>l. hunk_header l = None) pre \<Longrightarrow> parse_hunk_lines (pre @ ls) None = parse_hunk_lines ls None"
  by (induction pre) simp_all

lemma add_body [simp]:
  "th_old_start (fold (\<lambda>l. add_line (line_text l)) body h) = th_old_start h"
  "th_old_lines (fold (\<lambda>l. add_line (line_text l)) body h) = th_old_lines h @ source_of body"
  "th_new_lines (fold (\<lambda>l. add_line (line_text l)) body h) = th_new_lines h @ target_of body"
proof (induction body arbitrary: h)
  case (Cons l body)
  {
    case 1
    then show ?case using Cons by (cases l) (simp_all add: add_line_def bslash_def)
  next
    case 2
    then show ?case using Cons by (cases l) (simp_all add: add_line_def bslash_def)
  next
    case 3
    then show ?case using Cons by (cases l) (simp_all add: add_line_def bslash_def)
  }
qed simp_all

lemma no_hunk_conflict: "hunk_conflict (pre @ es @ post) k (length pre) j es = None"
proof (induction es arbitrary: pre j)
  case (Cons e es)
  then show ?case using Cons.IH [of "pre @ [e]" "j + 1"] by (simp add: nth_append)
qed simp

lemma apply_one_hunk:
  assumes "int (th_old_start h) - 1 + off = int (length pre)" "th_old_lines h = src"
  shows "apply_text_hunks (pre @ src @ post) k off (h # hs)
    = apply_text_hunks (pre @ th_new_lines h @ post) (k + 1) (off + int (length (th_new_lines h)) - int (length src)) hs"
  using assms no_hunk_conflict [of pre src post k 1] by simp

lemma apply_diff:
  assumes "list_all (\<lambda>(keep, body). source_of body \<noteq> []) ps"
  shows "apply_text_hunks (new @ diff_source ps rest) k (int (length new) - int i) (diff_hunks i ps) = Inr (new @ diff_target ps rest)"
  using assms
proof (induction ps arbitrary: new i k)
  case (Cons p ps)
  obtain keep body where p: "p = (keep, body)" by (cases p)
  let ?src = "source_of body" and ?tgt = "target_of body"
  let ?pre = "new @ keep"
  have start: "int (i + length keep + 1) - 1 + (int (length new) - int i) = int (length ?pre)" by simp
  have whole: "new @ diff_source (p # ps) rest = ?pre @ ?src @ diff_source ps rest" using p by simp
  have "apply_text_hunks (?pre @ ?src @ diff_source ps rest) k (int (length new) - int i) (diff_hunks i (p # ps))
      = apply_text_hunks (?pre @ ?tgt @ diff_source ps rest) (k + 1)
          (int (length new) - int i + int (length ?tgt) - int (length ?src)) (diff_hunks (i + length keep + length ?src) ps)"
    unfolding p diff_hunks.simps using Cons.prems p start
    by (subst apply_one_hunk) (simp_all add: side_start_def empty_hunk_def)
  also have "int (length new) - int i + int (length ?tgt) - int (length ?src)
      = int (length (?pre @ ?tgt)) - int (i + length keep + length ?src)" by simp
  also have "apply_text_hunks (?pre @ ?tgt @ diff_source ps rest) (k + 1) \<dots> (diff_hunks (i + length keep + length ?src) ps)
      = apply_text_hunks ((?pre @ ?tgt) @ diff_source ps rest) (k + 1) \<dots> (diff_hunks (i + length keep + length ?src) ps)"
    by simp
  also have "\<dots> = Inr ((?pre @ ?tgt) @ diff_target ps rest)" using Cons.prems by (intro Cons.IH) simp
  finally show ?case using whole p by simp
qed simp

text \<open>C37: A patch does what a diff says: for a file and a target of ordinary lines, the unified diff between them, with
  any lines before its first hunk, is parsed back, its hunks apply to the lines of the file, and the text
  written is exactly the target (the last line of which is not empty); every hunk has some line of the file,
  as diffs with context do.\<close>

theorem patch_applies_diff:
  assumes "list_all plain_line (diff_source ps rest)" "list_all plain_line (pre @ diff_lines 0 0 ps)"
    and "list_all (\<lambda>l. hunk_header l = None) pre" "list_all (\<lambda>(keep, body). source_of body \<noteq> []) ps"
    and "diff_target ps rest \<noteq> []" "last (diff_target ps rest) \<noteq> []" "diff_source ps rest \<noteq> []"
    and "list_all plain_line (diff_target ps rest)"
  shows "\<exists>new. apply_text_hunks (splitlines (unlines (diff_source ps rest))) 1 0
        (parse_unified_diff (unlines (pre @ diff_lines 0 0 ps))) = Inr new
    \<and> join_lines (unlines (diff_source ps rest)) new = unlines (diff_target ps rest)"
proof (intro exI conjI)
  show "apply_text_hunks (splitlines (unlines (diff_source ps rest))) 1 0
      (parse_unified_diff (unlines (pre @ diff_lines 0 0 ps))) = Inr (diff_target ps rest)"
    using apply_diff [OF assms(4), of "[]" rest 1 0]
    by (simp add: parse_unified_diff_def splitlines_unlines [OF assms(1)] splitlines_unlines [OF assms(2)]
        parse_preamble [OF assms(3)] parse_diff)
  have "\<not> endswith (py_join [newline] (diff_target ps rest)) [newline]"
  proof -
    have "last (diff_target ps rest) \<in> set (diff_target ps rest)" "last (last (diff_target ps rest)) \<in> set (last (diff_target ps rest))"
      using assms(5,6) by simp_all
    then have "\<not> line_break (last (last (diff_target ps rest)))"
      using assms(8) unfolding list_all_iff plain_line_def by blast
    then show ?thesis using join_last [OF assms(5,6)] by (auto simp: endswith_last)
  qed
  moreover have "endswith (unlines (diff_source ps rest)) [newline]"
    using unlines_join [OF assms(7)] by (simp add: endswith_def)
  ultimately show "join_lines (unlines (diff_source ps rest)) (diff_target ps rest) = unlines (diff_target ps rest)"
    using unlines_no_crlf [OF assms(1)] unlines_join [OF assms(5)] by (simp add: join_lines_def Let_def)
qed

definition demo_pieces :: "diff_piece list" where
  "demo_pieces = [([''a''], [Context ''b'', Removed ''c'', Added ''d''])]"

lemma patch_applies_diff_witness:
  "\<exists>new. apply_text_hunks (splitlines (unlines [''a'', ''b'', ''c'', ''e''])) 1 0
        (parse_unified_diff (unlines [''--- a/f'', ''+++ b/f'', ''@@ -2,2 +2,2 @@'', '' b'', ''-c'', ''+d''])) = Inr new
    \<and> join_lines (unlines [''a'', ''b'', ''c'', ''e'']) new = unlines [''a'', ''b'', ''d'', ''e'']"
proof -
  have two: "nat_str (Suc (Suc 0)) = ''2''" by code_simp
  have diff: "diff_source demo_pieces [''e''] = [''a'', ''b'', ''c'', ''e'']"
      "diff_target demo_pieces [''e''] = [''a'', ''b'', ''d'', ''e'']"
      "[''--- a/f'', ''+++ b/f''] @ diff_lines 0 0 demo_pieces
        = [''--- a/f'', ''+++ b/f'', ''@@ -2,2 +2,2 @@'', '' b'', ''-c'', ''+d'']"
    using two by (simp_all add: demo_pieces_def header_text_def side_start_def)
  show ?thesis
    using patch_applies_diff [of demo_pieces "[''e'']" "[''--- a/f'', ''+++ b/f'']"]
    unfolding diff
    by (simp add: plain_line_def line_break_def hunk_header_def demo_pieces_def)
qed

subsection \<open>Where a patch goes wrong\<close>

text \<open>The header of a deletion is looked for in all lines: adding a line with that text deletes the file.\<close>

lemma added_line_deletes_file:
  "is_deletion_patch (unlines [''@@ -1,1 +1,2 @@'', '' a'', ''+++ /dev/null''])"
  "add_line ''+++ /dev/null'' (empty_hunk 1) = (empty_hunk 1)\<lparr>th_new_lines := [''++ /dev/null''], th_added := [''++ /dev/null'']\<rparr>"
  by (simp_all add: is_deletion_patch_def splitlines_unlines plain_line_def line_break_def strip_def lstrip_def rstrip_def
      py_space_def add_line_def empty_hunk_def)

text \<open>An empty last line is lost, since the joined text then ends with a line feed already.\<close>

lemma trailing_blank_line_lost:
  "splitlines (unlines [''a'', []]) = [''a'', []]" "join_lines (unlines [''a'', []]) [''a'', []] = unlines [''a'']"
  by (simp_all add: splitlines_unlines plain_line_def line_break_def)
     (simp add: join_lines_def unlines_def crlf_def newline_def endswith_def)

text \<open>Line boundaries other than the line feed are replaced by it, in lines the patch does not touch.\<close>

lemma form_feed_rewritten:
  "join_lines [CHR ''a'', CHR 0x0C, CHR ''b'', newline] (splitlines [CHR ''a'', CHR 0x0C, CHR ''b'', newline])
   = unlines [''a'', ''b'']"
  by (simp add: join_lines_def unlines_def crlf_def newline_def endswith_def splitlines_def line_break_def)

text \<open>Lines added after line 1 by a hunk without context, \<open>@@ -1,0 +2 @@\<close>, land before it.\<close>

lemma insertion_one_line_early:
  "apply_text_hunks [''a'', ''b''] 1 0 [(empty_hunk 1)\<lparr>th_new_lines := [''x'']\<rparr>] = Inr [''x'', ''a'', ''b'']"
  by (simp add: empty_hunk_def)

subsection \<open>What a patch changes\<close>

lemma delete_file_cases:
  assumes "delete_file lib io rid project_id relative safe full c fs = (res, fs')" "entry_of fs full = Some e"
  shows "(\<exists>x. res = Inl x) \<and> fs' = fs \<or> fs' = fs(e := None) \<and> (\<exists>r. res = Inr r \<and> pt_deleted r)"
proof (cases "if wi_unlink io then unlink fs full else None")
  case None
  then show ?thesis using assms(1) by (simp only: delete_file_def option.case prod.inject) blast
next
  case (Some g)
  then have "g = fs(e := None)" using assms(2) by (simp add: unlink_def split: if_splits)
  then show ?thesis using assms(1) Some by (simp only: delete_file_def option.case prod.inject) force
qed

lemma patch_file_cases:
  assumes "patch_file lib io rid project_id relative patch max_bytes safe full c fs = (res, fs')"
  shows "(\<exists>e. res = Inl e \<and> fs' = fs) \<or>
    (\<exists>lines aw. apply_text_hunks (splitlines c) 1 0 (parse_unified_diff patch) = Inr lines
       \<and> length (join_lines c lines) \<le> max_bytes \<and> atomic_write io fs full (join_lines c lines) = (aw, fs')
       \<and> (aw = None \<longrightarrow> (case res of Inl e \<Rightarrow> e = VerificationFailed | Inr r \<Rightarrow> \<not> pt_deleted r))
       \<and> (\<forall>e. aw = Some e \<longrightarrow> res = Inl e))"
proof (cases "parse_unified_diff patch")
  case Nil
  then show ?thesis using assms by (auto simp: patch_file_def)
next
  case (Cons h hs)
  show ?thesis
  proof (cases "apply_text_hunks (splitlines c) 1 0 (h # hs)")
    case (Inl e)
    then show ?thesis using assms Cons by (auto simp: patch_file_def simp del: apply_text_hunks.simps)
  next
    case (Inr lines)
    obtain aw g where aw: "atomic_write io fs full (join_lines c lines) = (aw, g)" by fastforce
    show ?thesis
    proof (cases "max_bytes < length (join_lines c lines)")
      case True
      then show ?thesis using assms Cons Inr by (auto simp: patch_file_def simp del: apply_text_hunks.simps)
    next
      case False
      then show ?thesis
        using assms Cons Inr aw post_write_confirmation_error
        by (cases aw; cases "post_write_confirmation lib io g full (join_lines c lines)")
          (auto simp: patch_file_def Let_def simp del: apply_text_hunks.simps)
    qed
  qed
qed

text \<open>The patch tool changes at most the one file: on success the file is gone or holds exactly the text the hunks give,
  with its mode, and nothing else in the file system has changed; on any failure, also of the system, nothing
  has changed except for a temporary file that could not be removed, or the reading back failed.\<close>

lemma patch_changes_one_file:
  assumes "file_tree fs" "map_of (project_roots pol) project_id = Some proot" "fs proot = Some Directory"
    and "project_apply_patch lib io pol rid project_id relative patch max_bytes safe fs = (res, fs')"
  shows "let full = proot @ path_parts relative in
    (fs' = fs \<and> (\<exists>e. res = Inl e)) \<or>
    (\<exists>m c. fs full = Some (File m c) \<and> \<not> hidden_parts (path_parts relative) \<and>
      (if is_deletion_patch patch then fs' = fs(full := None) \<and> (\<exists>r. res = Inr r \<and> pt_deleted r)
       else
         (\<exists>lines. apply_text_hunks (splitlines c) 1 0 (parse_unified_diff patch) = Inr lines
            \<and> length (join_lines c lines) \<le> max_bytes
            \<and> (case res of
                 Inr r \<Rightarrow> fs' = fs(full \<mapsto> File m (join_lines c lines)) \<and> \<not> pt_deleted r
               | Inl e \<Rightarrow> e = VerificationFailed \<and> fs' = fs(full \<mapsto> File m (join_lines c lines))
                   \<or> e = OSRaised \<and> spilled fs (tmp_name io full) fs'))))"
proof (cases "\<exists>e. res = Inl e \<and> fs' = fs")
  case True
  then show ?thesis by (auto simp: Let_def)
next
  case False
  let ?parts = "path_parts relative" and ?full = "proot @ path_parts relative"
  obtain full pr c where run: "write_target pol fs project_id relative = Inr (full, pr)"
      "exact_read io fs full max_bytes = Inr c"
      "(if is_deletion_patch patch then delete_file lib io rid project_id relative safe full c fs
        else patch_file lib io rid project_id relative patch max_bytes safe full c fs) = (res, fs')"
    using assms(4) False by (auto simp: project_apply_patch_def split: sum.splits)
  note target = write_targetD [OF run(1) assms(1)]
  have pr: "pr = proot" "full = ?full" using target(1,6) assms(2) by auto
  note read = exact_read_linkless [OF run(2) [unfolded pr] assms(1,3) target(3) [unfolded pr] target(2)]
  show ?thesis
  proof (cases "is_deletion_patch patch")
    case True
    obtain ds d where parts: "?parts = ds @ [d]" using read by (cases ?parts rule: rev_cases) auto
    have "fs (proot @ ds) = Some Directory" using file_treeD(2) [OF assms(1), of "proot @ ds" d] read parts by simp
    then have "entry_of fs ?full = Some ?full" using entry_in_dir [OF assms(1), of "proot @ ds" d] parts by simp
    then have "fs' = fs(?full := None) \<and> (\<exists>r. res = Inr r \<and> pt_deleted r)"
      using delete_file_cases [of lib io rid project_id relative safe ?full c fs res fs' ?full] run(3) True pr(2) False by auto
    then show ?thesis using True read target(4) by (auto simp: Let_def)
  next
    case deletes: False
    then have "patch_file lib io rid project_id relative patch max_bytes safe ?full c fs = (res, fs')"
      using run(3) pr(2) by simp
    from patch_file_cases [OF this] False
    obtain lines aw where patched: "apply_text_hunks (splitlines c) 1 0 (parse_unified_diff patch) = Inr lines"
        "length (join_lines c lines) \<le> max_bytes" "atomic_write io fs ?full (join_lines c lines) = (aw, fs')"
        "aw = None \<longrightarrow> (case res of Inl e \<Rightarrow> e = VerificationFailed | Inr r \<Rightarrow> \<not> pt_deleted r)"
        "\<forall>e. aw = Some e \<longrightarrow> res = Inl e"
      by blast
    note eff = atomic_write_effect [OF assms(1,3) target(3) [unfolded pr] target(2) _ patched(3)]
    then have "case res of
         Inr r \<Rightarrow> fs' = fs(?full \<mapsto> File (kept_mode fs ?full) (join_lines c lines)) \<and> \<not> pt_deleted r
       | Inl e \<Rightarrow> e = VerificationFailed \<and> fs' = fs(?full \<mapsto> File (kept_mode fs ?full) (join_lines c lines))
           \<or> e = OSRaised \<and> spilled fs (tmp_name io ?full) fs'"
      using read patched(4,5) False by (cases aw; cases res) auto
    then show ?thesis using deletes read patched(1,2) target(4) by (auto simp: Let_def)
  qed
qed

end
