(* ===== verification/WorkspaceSnapshot.thy ===== *)
theory WorkspaceSnapshot
  imports WorkspacePatch
begin

text \<open>
  \<open>app/workspace/snapshot.py\<close>: the bounded store of file states for taking changes back. The dictionaries keep their
  insertion order; the time of a capture and a generated identifier are arguments.
\<close>

record snapshot =
  sn_receipt_id :: string
  sn_project_id :: string
  sn_relative_path :: string
  sn_content :: "string option"
  sn_size :: nat
  sn_before_hash :: "string option"
  sn_expected_hash :: "string option"
  sn_existed :: bool
  sn_timestamp :: time
  sn_operation :: string

type_synonym project_snapshots = "(string \<times> snapshot) list"

record snapshot_store =
  ss_max_per_project :: nat
  ss_max_total :: nat
  ss_stores :: "(string \<times> project_snapshots) list"
  ss_total :: int

definition new_snapshot_store :: "nat \<Rightarrow> nat \<Rightarrow> snapshot_store" where
  "new_snapshot_store per cap = \<lparr>ss_max_per_project = per, ss_max_total = cap, ss_stores = [], ss_total = 0\<rparr>"

definition project_store :: "snapshot_store \<Rightarrow> string \<Rightarrow> project_snapshots" where
  "project_store st pid = (case map_of (ss_stores st) pid of None \<Rightarrow> [] | Some s \<Rightarrow> s)"

text \<open>\<open>_get_store\<close>; the empty entry that a mere lookup leaves behind is left out.\<close>

definition put_store :: "string \<Rightarrow> project_snapshots \<Rightarrow> snapshot_store \<Rightarrow> snapshot_store" where
  "put_store pid s st = st\<lparr>ss_stores := AList.update pid s (ss_stores st)\<rparr>"

definition sizes :: "project_snapshots \<Rightarrow> int" where
  "sizes s = int (sum_list (map (sn_size \<circ> snd) s))"

subsection \<open>Eviction\<close>

text \<open>\<open>popitem(last=False)\<close> until the project is within its cap.\<close>

fun evict_project :: "nat \<Rightarrow> project_snapshots \<Rightarrow> int \<Rightarrow> project_snapshots \<times> int" where
  "evict_project cap [] bytes = ([], bytes)"
| "evict_project cap ((k, sn) # s) bytes =
     (if cap < length ((k, sn) # s) then evict_project cap s (bytes - int (sn_size sn)) else ((k, sn) # s, bytes))"

text \<open>The first snapshot of a project with the least time, the earlier project where they are equal.\<close>

fun oldest_in :: "(string \<times> project_snapshots) list \<Rightarrow> (string \<times> string \<times> snapshot) option \<Rightarrow> (string \<times> string \<times> snapshot) option" where
  "oldest_in [] best = best"
| "oldest_in ((pid, []) # ps) best = oldest_in ps best"
| "oldest_in ((pid, (k, sn) # s) # ps) best =
     oldest_in ps
       (case best of
          None \<Rightarrow> Some (pid, k, sn)
        | Some (bp, bk, bs) \<Rightarrow> if sn_timestamp sn < sn_timestamp bs then Some (pid, k, sn) else best)"

definition pop_snapshot :: "string \<Rightarrow> string \<Rightarrow> (string \<times> project_snapshots) list \<Rightarrow> (string \<times> project_snapshots) list" where
  "pop_snapshot pid key stores = map (\<lambda>(p, s). (p, if p = pid then AList.delete key s else s)) stores"

definition snapshot_count :: "(string \<times> project_snapshots) list \<Rightarrow> nat" where
  "snapshot_count stores = sum_list (map (length \<circ> snd) stores)"

lemma oldest_in_mem:
  assumes "oldest_in stores best = Some (p, k, sn)"
  shows "best = Some (p, k, sn) \<or> (\<exists>s. (p, (k, sn) # s) \<in> set stores)"
  using assms
proof (induction stores best rule: oldest_in.induct)
  case (3 pid k' sn' s ps best)
  then show ?case by (cases best) (auto split: if_splits)
qed auto

lemma delete_length_le: "length (AList.delete k s) \<le> length s"
  by (simp add: AList.delete_eq)

lemma pop_snapshot_le: "snapshot_count (pop_snapshot p k stores) \<le> snapshot_count stores"
  unfolding snapshot_count_def pop_snapshot_def
  by (induction stores) (auto intro!: add_mono simp: delete_length_le)

lemma pop_snapshot_count:
  "(p, (k, sn) # s) \<in> set stores \<Longrightarrow> snapshot_count (pop_snapshot p k stores) < snapshot_count stores"
proof (induction stores)
  case (Cons q stores)
  obtain p' s' where q: "q = (p', s')" by (cases q)
  have count: "snapshot_count (pop_snapshot p k (q # stores))
      = length (if p' = p then AList.delete k s' else s') + snapshot_count (pop_snapshot p k stores)"
    by (simp add: snapshot_count_def pop_snapshot_def q)
  show ?case
  proof (cases "q = (p, (k, sn) # s)")
    case True
    then have "length (AList.delete k s') < length s'" using q by (simp add: AList.delete_eq le_imp_less_Suc)
    then show ?thesis using count True q pop_snapshot_le [of p k stores] by (simp add: snapshot_count_def)
  next
    case False
    then have "snapshot_count (pop_snapshot p k stores) < snapshot_count stores" using Cons by simp
    moreover have "length (if p' = p then AList.delete k s' else s') \<le> length s'" by (simp add: delete_length_le)
    ultimately show ?thesis using count q by (simp add: snapshot_count_def)
  qed
qed simp

function evict_global :: "nat \<Rightarrow> (string \<times> project_snapshots) list \<Rightarrow> int \<Rightarrow> (string \<times> project_snapshots) list \<times> int" where
  "evict_global cap stores bytes =
     (if bytes \<le> int cap then (stores, bytes)
      else
        (case oldest_in stores None of
           None \<Rightarrow> (stores, bytes)
         | Some (p, k, sn) \<Rightarrow> evict_global cap (pop_snapshot p k stores) (bytes - int (sn_size sn))))"
  by auto
termination
  by (relation "measure (\<lambda>(cap, stores, bytes). snapshot_count stores)")
     (auto dest: oldest_in_mem intro: pop_snapshot_count)

declare evict_global.simps [simp del]

definition evict :: "string \<Rightarrow> snapshot_store \<Rightarrow> snapshot_store" where
  "evict pid st =
     (case evict_project (ss_max_per_project st) (project_store st pid) (ss_total st) of
        (s, bytes) \<Rightarrow>
          (case evict_global (ss_max_total st) (ss_stores (put_store pid s st)) bytes of
             (stores, bytes') \<Rightarrow> st\<lparr>ss_stores := stores, ss_total := bytes'\<rparr>))"

subsection \<open>Capture\<close>

definition new_snapshot ::
    "edit_lib \<Rightarrow> string \<Rightarrow> time \<Rightarrow> string \<Rightarrow> string \<Rightarrow> string option \<Rightarrow> string \<Rightarrow> bool \<Rightarrow> string option \<Rightarrow> string option
      \<Rightarrow> snapshot" where
  "new_snapshot lib fresh now pid rel content operation existed receipt_id file_hash =
     (let before = map_option (hash_text lib) content in
      \<lparr>sn_receipt_id = (case receipt_id of Some r \<Rightarrow> if r = [] then fresh else r | None \<Rightarrow> fresh),
       sn_project_id = pid, sn_relative_path = rel, sn_content = content,
       sn_size = (case content of None \<Rightarrow> 0 | Some c \<Rightarrow> length c), sn_before_hash = before,
       sn_expected_hash =
         (if file_hash \<noteq> None then file_hash else if existed \<and> content \<noteq> None then before else None),
       sn_existed = existed, sn_timestamp = now, sn_operation = operation\<rparr>)"

text \<open>An earlier snapshot of the file is replaced, in its old place in the order.\<close>

definition capture_snapshot :: "snapshot \<Rightarrow> snapshot_store \<Rightarrow> snapshot_store" where
  "capture_snapshot sn st =
     (let pid = sn_project_id sn; rel = sn_relative_path sn; s = project_store st pid;
          freed = (case map_of s rel of None \<Rightarrow> 0 | Some old \<Rightarrow> int (sn_size old)) in
      evict pid ((put_store pid (AList.update rel sn s) st)\<lparr>ss_total := ss_total st - freed + int (sn_size sn)\<rparr>))"

subsection \<open>Rollback\<close>

datatype rollback_error =
    NoSnapshot
  | StaleSnapshot "string option" "string option"
  | RollbackRefused write_error

record rollback_result =
  rr_size :: nat
  rr_before_hash :: "string option"
  rr_after_hash :: "string option"
  rr_receipt_id :: string

definition snapshot_file_hash :: "edit_lib \<Rightarrow> write_io \<Rightarrow> file_system \<Rightarrow> path \<Rightarrow> write_error + string option" where
  "snapshot_file_hash lib io fs p =
     (if \<not> path_exists fs p then Inr None
      else map_sum id (\<lambda>c. Some (hash_text lib c)) (exact_read io fs p WRITE_MAX_BYTES))"

text \<open>The snapshot is dropped after it was used.\<close>

definition drop_snapshot :: "string \<Rightarrow> string \<Rightarrow> snapshot \<Rightarrow> snapshot_store \<Rightarrow> snapshot_store" where
  "drop_snapshot pid rel sn st =
     (put_store pid (AList.delete rel (project_store st pid)) st)\<lparr>ss_total := ss_total st - int (sn_size sn)\<rparr>"

definition stale :: "snapshot \<Rightarrow> string \<Rightarrow> bool" where
  "stale sn current \<longleftrightarrow> (case sn_expected_hash sn of None \<Rightarrow> False | Some h \<Rightarrow> current \<noteq> h)"

text \<open>The file as it was: removed when it was new, its old content written otherwise; with the hash afterwards.\<close>

definition undo_file ::
    "edit_lib \<Rightarrow> write_io \<Rightarrow> snapshot \<Rightarrow> path \<Rightarrow> string option \<Rightarrow> file_system \<Rightarrow> (rollback_error + string option) \<times> file_system" where
  "undo_file lib io sn full current fs =
     (case current of
        None \<Rightarrow> if sn_existed sn then (Inl (StaleSnapshot (sn_expected_hash sn) None), fs) else (Inr None, fs)
      | Some h \<Rightarrow>
          if stale sn h then (Inl (StaleSnapshot (sn_expected_hash sn) (Some h)), fs)
          else if \<not> sn_existed sn then
            (case (if wi_unlink io then unlink fs full else None) of
               None \<Rightarrow> (Inl (RollbackRefused OSRaised), fs)
             | Some fs' \<Rightarrow> (Inr None, fs'))
          else
            (case (case sn_content sn of None \<Rightarrow> (None, fs) | Some c \<Rightarrow> atomic_write io fs full c) of
               (Some e, fs') \<Rightarrow> (Inl (RollbackRefused e), fs')
             | (None, fs') \<Rightarrow> (map_sum RollbackRefused id (snapshot_file_hash lib io fs' full), fs')))"

definition rollback_snapshot ::
    "edit_lib \<Rightarrow> write_io \<Rightarrow> workspace_policy \<Rightarrow> string \<Rightarrow> string \<Rightarrow> snapshot_store \<Rightarrow> file_system
      \<Rightarrow> (rollback_error + rollback_result) \<times> snapshot_store \<times> file_system" where
  "rollback_snapshot lib io pol pid rel st fs =
     (case map_of (project_store st pid) rel of
        None \<Rightarrow> (Inl NoSnapshot, st, fs)
      | Some sn \<Rightarrow>
          (case write_target pol fs pid rel of
             Inl e \<Rightarrow> (Inl (RollbackRefused e), st, fs)
           | Inr (full, proot) \<Rightarrow>
               (case snapshot_file_hash lib io fs full of
                  Inl e \<Rightarrow> (Inl (RollbackRefused e), st, fs)
                | Inr current \<Rightarrow>
                    (case undo_file lib io sn full current fs of
                       (Inl e, fs') \<Rightarrow> (Inl e, st, fs')
                     | (Inr after, fs') \<Rightarrow>
                         (Inr \<lparr>rr_size = (if current = None then 0 else sn_size sn), rr_before_hash = current,
                            rr_after_hash = after, rr_receipt_id = sn_receipt_id sn\<rparr>,
                          drop_snapshot pid rel sn st, fs')))))"

definition has_snapshot :: "snapshot_store \<Rightarrow> string \<Rightarrow> string \<Rightarrow> bool" where
  "has_snapshot st pid rel \<longleftrightarrow> map_of (project_store st pid) rel \<noteq> None"

definition get_snapshot :: "snapshot_store \<Rightarrow> string \<Rightarrow> string \<Rightarrow> snapshot option" where
  "get_snapshot st pid rel = map_of (project_store st pid) rel"

definition total_snapshots :: "snapshot_store \<Rightarrow> nat" where
  "total_snapshots st = snapshot_count (ss_stores st)"

definition list_snapshots :: "snapshot_store \<Rightarrow> string \<Rightarrow> snapshot list" where
  "list_snapshots st pid = map snd (project_store st pid)"

definition clear_snapshots :: "string \<Rightarrow> snapshot_store \<Rightarrow> snapshot_store" where
  "clear_snapshots pid st =
     (if pid \<noteq> [] then
        (case map_of (ss_stores st) pid of
           None \<Rightarrow> st
         | Some s \<Rightarrow> st\<lparr>ss_stores := AList.delete pid (ss_stores st), ss_total := ss_total st - sizes s\<rparr>)
      else st\<lparr>ss_stores := [], ss_total := 0\<rparr>)"

subsection \<open>The store stays within its bounds\<close>

definition all_sizes :: "(string \<times> project_snapshots) list \<Rightarrow> int" where
  "all_sizes stores = sum_list (map (sizes \<circ> snd) stores)"

text \<open>The counter is the sum of the sizes, no project is over its cap, the total is not over the limit.\<close>

definition snapshots_ok :: "snapshot_store \<Rightarrow> bool" where
  "snapshots_ok st \<longleftrightarrow>
     dict_ok (ss_stores st) \<and> (\<forall>(p, s) \<in> set (ss_stores st). dict_ok s \<and> length s \<le> ss_max_per_project st)
     \<and> ss_total st = all_sizes (ss_stores st) \<and> ss_total st \<le> int (ss_max_total st)"

lemma sizes_nonneg: "0 \<le> sizes s"
  by (simp add: sizes_def)

lemma sizes_delete: "dict_ok s \<Longrightarrow> map_of s k = Some sn \<Longrightarrow> sizes (AList.delete k s) = sizes s - int (sn_size sn)"
  by (induction s) (auto simp: sizes_def dict_ok_def split: if_splits)

lemma sizes_update:
  "dict_ok s \<Longrightarrow> sizes (AList.update k sn s) =
    sizes s - (case map_of s k of None \<Rightarrow> 0 | Some old \<Rightarrow> int (sn_size old)) + int (sn_size sn)"
  by (induction s) (auto simp: sizes_def dict_ok_def split: option.splits)

lemma all_sizes_update:
  "dict_ok stores \<Longrightarrow> all_sizes (AList.update p s stores) =
    all_sizes stores - sizes (case map_of stores p of None \<Rightarrow> [] | Some s \<Rightarrow> s) + sizes s"
  by (induction stores) (auto simp: all_sizes_def dict_ok_def sizes_def split: option.splits)

lemma evict_project_spec:
  "evict_project cap s bytes = (s', bytes') \<Longrightarrow> dict_ok s \<Longrightarrow>
    dict_ok s' \<and> length s' \<le> cap \<and> bytes' - sizes s' = bytes - sizes s \<and> (\<exists>n. s' = drop n s)"
proof (induction cap s bytes rule: evict_project.induct)
  case (2 cap k sn s bytes)
  show ?case
  proof (cases "cap < length ((k, sn) # s)")
    case True
    then obtain n where "dict_ok s' \<and> length s' \<le> cap \<and> bytes' - sizes s' = bytes - int (sn_size sn) - sizes s \<and> s' = drop n s"
      using 2 by (auto simp: dict_ok_def)
    then show ?thesis by (auto simp: sizes_def intro!: exI [of _ "Suc n"])
  next
    case False
    then show ?thesis using 2(2,3) by (auto intro: exI [of _ 0])
  qed
qed auto

lemma all_sizes_pop:
  assumes "dict_ok stores" "(p, (k, sn) # s) \<in> set stores" "\<forall>(p, s) \<in> set stores. dict_ok s"
  shows "all_sizes (pop_snapshot p k stores) = all_sizes stores - int (sn_size sn)"
  using assms
proof (induction stores)
  case (Cons q stores)
  obtain p' s' where q: "q = (p', s')" by (cases q)
  show ?case
  proof (cases "p' = p")
    case True
    then have here: "s' = (k, sn) # s" using Cons.prems(1,2) q by (force simp: dict_ok_def)
    have "pop_snapshot p k stores = stores"
      unfolding pop_snapshot_def using Cons.prems(1) q True by (intro map_idI) (force simp: dict_ok_def)
    moreover have "sizes (AList.delete k s') = sizes s' - int (sn_size sn)"
      using Cons.prems(3) q here by (intro sizes_delete) auto
    moreover have "all_sizes (pop_snapshot p k (q # stores)) = sizes (AList.delete k s') + all_sizes (pop_snapshot p k stores)"
      using True q by (simp add: pop_snapshot_def all_sizes_def)
    ultimately show ?thesis by (simp add: q all_sizes_def)
  next
    case False
    then have "all_sizes (pop_snapshot p k stores) = all_sizes stores - int (sn_size sn)"
      using Cons q by (auto simp: dict_ok_def)
    then show ?thesis using False q by (simp add: pop_snapshot_def all_sizes_def)
  qed
qed simp

lemma pop_snapshot_ok:
  "dict_ok stores \<Longrightarrow> \<forall>(p, s) \<in> set stores. dict_ok s \<and> length s \<le> cap \<Longrightarrow>
    dict_ok (pop_snapshot p k stores) \<and> (\<forall>(p, s) \<in> set (pop_snapshot p k stores). dict_ok s \<and> length s \<le> cap)"
  using delete_length_le le_trans
  by (fastforce simp: pop_snapshot_def dict_ok_def comp_def case_prod_unfold distinct_delete)

lemma oldest_in_some: "oldest_in stores best = None \<Longrightarrow> best = None"
  by (induction stores best rule: oldest_in.induct) (auto split: option.splits prod.splits if_splits)

lemma oldest_in_None: "oldest_in stores None = None \<Longrightarrow> all_sizes stores = 0"
proof (induction stores)
  case (Cons q stores)
  note Cons_None = Cons.prems
  obtain p s where q: "q = (p, s)" by (cases q)
  show ?case
  proof (cases s)
    case Nil
    then show ?thesis using Cons q by (simp add: all_sizes_def sizes_def)
  next
    case (Cons e s')
    obtain k sn where "e = (k, sn)" by (cases e)
    then have "oldest_in stores (Some (p, k, sn)) = None" using Cons Cons_None q by simp
    from oldest_in_some [OF this] show ?thesis by simp
  qed
qed (simp add: all_sizes_def)

lemma evict_global_spec:
  assumes "evict_global cap stores bytes = (stores', bytes')" "dict_ok stores" "bytes = all_sizes stores"
    "\<forall>(p, s) \<in> set stores. dict_ok s \<and> length s \<le> per"
  shows "dict_ok stores' \<and> (\<forall>(p, s) \<in> set stores'. dict_ok s \<and> length s \<le> per) \<and> bytes' = all_sizes stores'
    \<and> bytes' \<le> int cap"
  using assms
proof (induction cap stores bytes rule: evict_global.induct)
  case (1 cap stores bytes)
  show ?case
  proof (cases "bytes \<le> int cap")
    case True
    then show ?thesis using 1(2-) by (subst (asm) evict_global.simps) auto
  next
    case False
    show ?thesis
    proof (cases "oldest_in stores None")
      case None
      then show ?thesis using oldest_in_None [OF None] 1(4) False by simp
    next
      case (Some best)
      obtain p k sn where best: "best = (p, k, sn)" by (cases best)
      then obtain s where mem: "(p, (k, sn) # s) \<in> set stores" using oldest_in_mem Some by blast
      have run: "evict_global cap (pop_snapshot p k stores) (bytes - int (sn_size sn)) = (stores', bytes')"
        using 1(2) False Some best by (subst (asm) evict_global.simps) simp
      have "all_sizes (pop_snapshot p k stores) = all_sizes stores - int (sn_size sn)"
        using 1(3,5) mem by (intro all_sizes_pop) auto
      then show ?thesis
        using 1(1) [OF False Some best [symmetric] refl run] pop_snapshot_ok [OF 1(3,5), of p k] 1(4) by simp
    qed
  qed
qed

lemma project_store_ok:
  "snapshots_ok st \<Longrightarrow> dict_ok (project_store st pid) \<and> length (project_store st pid) \<le> ss_max_per_project st"
  unfolding snapshots_ok_def project_store_def
  by (auto split: option.split dest!: map_of_SomeD)

lemma update_all: "\<forall>(p, s) \<in> set stores. P s \<Longrightarrow> P s' \<Longrightarrow> \<forall>(p, s) \<in> set (AList.update pid s' stores). P s"
  by (induction stores) auto

lemma alist_update_twice: "AList.update k v (AList.update k w al) = AList.update k v al"
  by (induction al) auto

lemma capture_ok:
  assumes "snapshots_ok st"
  shows "snapshots_ok (capture_snapshot sn st)"
proof -
  let ?pid = "sn_project_id sn" and ?s = "AList.update (sn_relative_path sn) sn (project_store st (sn_project_id sn))"
  define bytes where "bytes = ss_total st - (case map_of (project_store st ?pid) (sn_relative_path sn) of None \<Rightarrow> 0
    | Some old \<Rightarrow> int (sn_size old)) + int (sn_size sn)"
  define st1 where "st1 = (put_store ?pid ?s st)\<lparr>ss_total := bytes\<rparr>"
  have ok: "dict_ok (ss_stores st)" "\<forall>(p, s) \<in> set (ss_stores st). dict_ok s \<and> length s \<le> ss_max_per_project st"
    "ss_total st = all_sizes (ss_stores st)"
    using assms by (auto simp: snapshots_ok_def)
  have s: "dict_ok ?s" using project_store_ok [OF assms] by simp
  have store1: "project_store st1 ?pid = ?s" by (simp add: st1_def put_store_def project_store_def)
  obtain s' b where ev: "evict_project (ss_max_per_project st) ?s bytes = (s', b)" by fastforce
  have proj: "dict_ok s'" "length s' \<le> ss_max_per_project st" "b - sizes s' = bytes - sizes ?s"
    using evict_project_spec [OF ev s] by auto
  have old: "(case map_of (ss_stores st) ?pid of None \<Rightarrow> [] | Some s \<Rightarrow> s) = project_store st ?pid"
    by (simp add: project_store_def)
  have "bytes - sizes ?s = all_sizes (ss_stores st) - sizes (project_store st ?pid)"
    using sizes_update [of "project_store st ?pid" "sn_relative_path sn" sn] project_store_ok [OF assms] ok(3)
    by (simp add: bytes_def)
  then have b: "b = all_sizes (AList.update ?pid s' (ss_stores st))"
    using all_sizes_update [OF ok(1), of ?pid s'] proj(3) old by simp
  have stores: "ss_stores (put_store ?pid s' st1) = AList.update ?pid s' (ss_stores st)"
    by (simp add: put_store_def st1_def alist_update_twice)
  obtain stores' b' where glob: "evict_global (ss_max_total st) (AList.update ?pid s' (ss_stores st)) b = (stores', b')"
    by fastforce
  have "\<forall>(p, s) \<in> set (AList.update ?pid s' (ss_stores st)). dict_ok s \<and> length s \<le> ss_max_per_project st"
    using ok(2) proj(1,2) by (intro update_all) simp_all
  note fin = evict_global_spec [OF glob _ b this]
  have "capture_snapshot sn st = st1\<lparr>ss_stores := stores', ss_total := b'\<rparr>"
    using ev glob stores store1
    by (simp add: capture_snapshot_def evict_def Let_def bytes_def [symmetric] st1_def [symmetric])
      (simp add: st1_def put_store_def)
  then show ?thesis using fin ok(1) by (auto simp: snapshots_ok_def st1_def put_store_def)
qed

lemma drop_snapshot_ok:
  assumes "snapshots_ok st" "map_of (project_store st pid) rel = Some sn"
  shows "snapshots_ok (drop_snapshot pid rel sn st)"
proof -
  let ?s = "project_store st pid"
  have ok: "dict_ok (ss_stores st)" "\<forall>(p, s) \<in> set (ss_stores st). dict_ok s \<and> length s \<le> ss_max_per_project st"
    "ss_total st = all_sizes (ss_stores st)" "ss_total st \<le> int (ss_max_total st)"
    using assms by (auto simp: snapshots_ok_def)
  note s = project_store_ok [OF assms(1), of pid]
  have "length (AList.delete rel ?s) \<le> ss_max_per_project st" by (rule le_trans [OF delete_length_le]) (use s in simp)
  then have "\<forall>(p, s) \<in> set (AList.update pid (AList.delete rel ?s) (ss_stores st)). dict_ok s \<and> length s \<le> ss_max_per_project st"
    using ok(2) s by (intro update_all) simp_all
  moreover have "all_sizes (AList.update pid (AList.delete rel ?s) (ss_stores st)) = ss_total st - int (sn_size sn)"
    using all_sizes_update [OF ok(1), of pid "AList.delete rel ?s"] sizes_delete [of ?s rel sn] s assms(2) ok(3)
    by (simp add: project_store_def)
  ultimately show ?thesis using ok by (simp add: snapshots_ok_def drop_snapshot_def put_store_def)
qed

lemma clear_snapshots_ok: "snapshots_ok st \<Longrightarrow> snapshots_ok (clear_snapshots pid st)"
proof -
  assume ok: "snapshots_ok st"
  have del: "all_sizes (AList.delete pid stores) = all_sizes stores - sizes s" if "dict_ok stores" "map_of stores pid = Some s" for stores s
    using that by (induction stores) (auto simp: all_sizes_def dict_ok_def split: if_splits)
  show ?thesis
  proof (cases "map_of (ss_stores st) pid")
    case None
    then show ?thesis using ok by (simp add: clear_snapshots_def snapshots_ok_def all_sizes_def dict_ok_def)
  next
    case (Some s)
    then show ?thesis
      using ok del [OF _ Some] sizes_nonneg [of s]
      by (auto simp: clear_snapshots_def snapshots_ok_def all_sizes_def dict_ok_def AList.delete_eq distinct_keys_filter)
  qed
qed

text \<open>All histories of the store.\<close>

inductive snapshot_reach :: "nat \<Rightarrow> nat \<Rightarrow> snapshot_store \<Rightarrow> bool" for per cap where
  new: "snapshot_reach per cap (new_snapshot_store per cap)"
| captured: "snapshot_reach per cap st \<Longrightarrow> snapshot_reach per cap (capture_snapshot sn st)"
| rolled_back: "snapshot_reach per cap st \<Longrightarrow> rollback_snapshot lib io pol pid rel st fs = (res, st', fs')
    \<Longrightarrow> snapshot_reach per cap st'"
| cleared: "snapshot_reach per cap st \<Longrightarrow> snapshot_reach per cap (clear_snapshots pid st)"

lemma rollback_store:
  assumes "rollback_snapshot lib io pol pid rel st fs = (res, st', fs')"
  shows "st' = st \<or> (\<exists>sn. map_of (project_store st pid) rel = Some sn \<and> st' = drop_snapshot pid rel sn st)"
  using assms by (auto simp: rollback_snapshot_def split: option.splits sum.splits prod.splits)

lemma evict_caps: "ss_max_per_project (evict pid st) = ss_max_per_project st" "ss_max_total (evict pid st) = ss_max_total st"
  by (simp_all add: evict_def put_store_def split: prod.split)

lemma store_caps:
  "snapshot_reach per cap st \<Longrightarrow> ss_max_per_project st = per \<and> ss_max_total st = cap"
proof (induction rule: snapshot_reach.induct)
  case (rolled_back st lib io pol pid rel fs res st' fs')
  then show ?case using rollback_store [OF rolled_back(2)] by (auto simp: drop_snapshot_def put_store_def)
next
  case (cleared st pid)
  then show ?case by (simp add: clear_snapshots_def split: option.split)
qed (simp_all add: new_snapshot_store_def capture_snapshot_def Let_def put_store_def evict_caps)

text \<open>C38: The snapshot store is bounded: after every history of captures (of any size), rollbacks and clearings the byte
  counter is exactly the sum of the sizes of the stored contents and not over the limit, and no project
  has more snapshots than its cap.\<close>

theorem snapshot_store_bounded:
  assumes "snapshot_reach per cap st"
  shows "ss_total st = all_sizes (ss_stores st) \<and> 0 \<le> ss_total st \<and> ss_total st \<le> int cap
    \<and> length (project_store st pid) \<le> per"
proof -
  have "snapshots_ok st"
    using assms
  proof (induction rule: snapshot_reach.induct)
    case new
    then show ?case by (simp add: new_snapshot_store_def snapshots_ok_def all_sizes_def)
  next
    case (rolled_back st lib io pol pid rel fs res st' fs')
    then show ?case using rollback_store [OF rolled_back(2)] drop_snapshot_ok by blast
  qed (simp_all add: capture_ok clear_snapshots_ok)
  moreover have "0 \<le> all_sizes stores" for stores
    unfolding all_sizes_def by (intro sum_list_nonneg) (auto simp: sizes_nonneg)
  ultimately show ?thesis
    using project_store_ok [of st pid] store_caps [OF assms] by (auto simp: snapshots_ok_def)
qed

subsection \<open>Taking a change back\<close>

lemma snapshot_hash_linkless:
  assumes "snapshot_file_hash lib io fs (proot @ parts) = Inr current" "file_tree fs" "fs proot = Some Directory"
    "no_links fs proot parts" "list_all proper_name parts"
  shows "case current of
      None \<Rightarrow> \<not> path_exists fs (proot @ parts)
    | Some h \<Rightarrow> parts \<noteq> [] \<and> (\<exists>m c. fs (proot @ parts) = Some (File m c) \<and> h = hash_text lib c)"
proof (cases "path_exists fs (proot @ parts)")
  case False
  then show ?thesis using assms(1) by (simp add: snapshot_file_hash_def)
next
  case True
  then obtain c where "exact_read io fs (proot @ parts) WRITE_MAX_BYTES = Inr c" "current = Some (hash_text lib c)"
    using assms(1) by (auto simp: snapshot_file_hash_def)
  then show ?thesis using exact_read_linkless [OF _ assms(2-5)] by fastforce
qed

text \<open>A rollback takes back only what it knows: it changes the file system only when the file exists with the content the
  snapshot expects (by its hash), and then the file alone: it is removed if the change had created it,
  and gets its old content back, with its mode, otherwise. A rollback that is refused leaves the snapshot in the store.\<close>

lemma rollback_takes_back_own_change:
  assumes "file_tree fs" "map_of (project_roots pol) pid = Some proot" "fs proot = Some Directory"
    and "rollback_snapshot lib io pol pid rel st fs = (res, st', fs')" "map_of (project_store st pid) rel = Some sn"
  shows "let full = proot @ path_parts rel in
    (case res of
       Inl e \<Rightarrow> st' = st \<and> (fs' = fs \<or> spilled fs (tmp_name io full) fs' \<or> sn_existed sn)
     | Inr r \<Rightarrow> st' = drop_snapshot pid rel sn st)
    \<and> (fs' \<noteq> fs \<longrightarrow>
         (\<exists>m c. fs full = Some (File m c) \<and> (\<forall>h. sn_expected_hash sn = Some h \<longrightarrow> hash_text lib c = h)
           \<and> (spilled fs (tmp_name io full) fs'
              \<or> fs' = (if sn_existed sn then fs(full \<mapsto> File m (the (sn_content sn))) else fs(full := None)))))"
proof (cases "\<exists>e. res = Inl e \<and> fs' = fs \<and> st' = st")
  case True
  then show ?thesis by (auto simp: Let_def)
next
  case False
  let ?parts = "path_parts rel" and ?full = "proot @ path_parts rel"
  obtain full pr current after where run: "write_target pol fs pid rel = Inr (full, pr)"
      "snapshot_file_hash lib io fs full = Inr current" "undo_file lib io sn full current fs = (after, fs')"
      "case after of Inl e \<Rightarrow> (\<exists>e. res = Inl e) \<and> st' = st | Inr h \<Rightarrow> (\<exists>r. res = Inr r) \<and> st' = drop_snapshot pid rel sn st"
    using assms(4,5) False by (auto simp: rollback_snapshot_def split: sum.splits prod.splits)
  note target = write_targetD [OF run(1) assms(1)]
  have pr: "pr = proot" "full = ?full" using target(1,6) assms(2) by auto
  note hash = snapshot_hash_linkless [OF run(2) [unfolded pr] assms(1,3) target(3) [unfolded pr] target(2)]
  show ?thesis
  proof (cases "fs' = fs")
    case True
    then show ?thesis using run(4) by (auto simp: Let_def split: sum.splits)
  next
    case changed: False
    then obtain h where h: "current = Some h" "\<not> stale sn h"
      using run(3) by (auto simp: undo_file_def split: option.splits if_splits)
    then obtain m c where found: "?parts \<noteq> []" "fs ?full = Some (File m c)" "h = hash_text lib c" using hash by auto
    have expected: "\<forall>h'. sn_expected_hash sn = Some h' \<longrightarrow> hash_text lib c = h'"
      using h(2) found(3) by (auto simp: stale_def)
    show ?thesis
    proof (cases "sn_existed sn")
      case True
      then obtain old aw where aw: "sn_content sn = Some old" "atomic_write io fs ?full old = (aw, fs')"
        using run(3) h pr(2) changed by (auto simp: undo_file_def split: option.splits prod.splits)
      have "spilled fs (tmp_name io ?full) fs' \<or> fs' = fs(?full \<mapsto> File m old)"
        using atomic_write_effect [OF assms(1,3) target(3) [unfolded pr] target(2) found(1) aw(2)] changed found(2)
        by (cases aw) (auto simp: kept_mode_def)
      then show ?thesis using run(4) True found(2) expected aw(1) by (auto simp: Let_def split: sum.splits)
    next
      case False
      then have "unlink fs ?full = Some fs'" "\<exists>x. after = Inr x"
        using run(3) h pr(2) changed by (auto simp: undo_file_def split: option.splits if_splits)
      moreover obtain ds d where parts: "?parts = ds @ [d]" using found(1) by (cases ?parts rule: rev_cases) auto
      then have "fs (proot @ ds) = Some Directory" using file_treeD(2) [OF assms(1), of "proot @ ds" d] found(2) by simp
      then have "entry_of fs ?full = Some ?full" using entry_in_dir [OF assms(1), of "proot @ ds" d] parts by simp
      ultimately have "fs' = fs(?full := None)" by (auto simp: unlink_def split: if_splits)
      then show ?thesis using run(4) False found(2) expected \<open>\<exists>x. after = Inr x\<close> by (auto simp: Let_def)
    qed
  qed
qed

text \<open>A rollback that succeeds has restored the file.\<close>

lemma rollback_restored:
  assumes "file_tree fs" "map_of (project_roots pol) pid = Some proot" "fs proot = Some Directory"
    and "rollback_snapshot lib io pol pid rel st fs = (Inr r, st', fs')" "map_of (project_store st pid) rel = Some sn"
    and "fs (proot @ path_parts rel) = Some (File m c)" "sn_existed sn \<longrightarrow> sn_content sn = Some old"
  shows "fs' = (if sn_existed sn then fs(proot @ path_parts rel \<mapsto> File m old) else fs(proot @ path_parts rel := None))"
proof -
  let ?parts = "path_parts rel" and ?full = "proot @ path_parts rel"
  obtain full pr current after where run: "write_target pol fs pid rel = Inr (full, pr)"
      "snapshot_file_hash lib io fs full = Inr current" "undo_file lib io sn full current fs = (Inr after, fs')"
    using assms(4,5) by (auto simp: rollback_snapshot_def split: sum.splits prod.splits)
  note target = write_targetD [OF run(1) assms(1)]
  have pr: "pr = proot" "full = ?full" using target(1,6) assms(2) by auto
  have "real_node fs ?full" using assms(6) by (simp add: real_node_def)
  then have "path_exists fs ?full" using locate_itself [OF assms(1)] by (simp add: path_exists_def)
  then obtain h where h: "current = Some h" "?parts \<noteq> []"
    using snapshot_hash_linkless [OF run(2) [unfolded pr] assms(1,3) target(3) [unfolded pr] target(2)] by (cases current) auto
  have fresh: "\<not> stale sn h" using run(3) h(1) by (auto simp: undo_file_def split: if_splits)
  show ?thesis
  proof (cases "sn_existed sn")
    case True
    then obtain aw where "atomic_write io fs ?full old = (aw, fs')" "aw = None"
      using run(3) h(1) pr(2) fresh assms(7) by (auto simp: undo_file_def split: option.splits prod.splits)
    then show ?thesis
      using True assms(6) atomic_write_effect [OF assms(1,3) target(3) [unfolded pr] target(2) h(2), of io old aw fs']
      by (simp add: kept_mode_def)
  next
    case False
    then have "unlink fs ?full = Some fs'"
      using run(3) h(1) pr(2) fresh by (auto simp: undo_file_def split: option.splits if_splits)
    moreover obtain ds d where parts: "?parts = ds @ [d]" using h(2) by (cases ?parts rule: rev_cases) auto
    then have "fs (proot @ ds) = Some Directory" using file_treeD(2) [OF assms(1), of "proot @ ds" d] assms(6) by simp
    then have "entry_of fs ?full = Some ?full" using entry_in_dir [OF assms(1), of "proot @ ds" d] parts by simp
    ultimately show ?thesis using False by (auto simp: unlink_def split: if_splits)
  qed
qed

text \<open>What a successful write without new parents did.\<close>

lemma write_exact:
  assumes "file_tree fs" "map_of (project_roots pol) project_id = Some proot" "fs proot = Some Directory"
    and "project_file_write lib io pol rid project_id relative content max_bytes safe False fs = (Inr r, fs')"
  shows "fs' = fs(proot @ path_parts relative \<mapsto> File (kept_mode fs (proot @ path_parts relative)) content)
    \<and> wr_hash r = hash_text lib content
    \<and> (fs (proot @ path_parts relative) = None \<or> (\<exists>m c. fs (proot @ path_parts relative) = Some (File m c)))"
proof -
  let ?parts = "path_parts relative" and ?full = "proot @ path_parts relative"
  have "\<not> (\<exists>e. Inr r = (Inl e :: write_error + write_result) \<and> fs' = fs)" by simp
  from project_file_write_run [OF assms this]
  obtain p g where run: "?parts \<noteq> []" "list_all proper_name ?parts" "no_links fs proot ?parts" "fs ?full \<noteq> Some Directory"
      "ensure_parent io False ?full proot fs = (p, g)"
      "case p of Inl e \<Rightarrow> Inr r = (Inl e :: write_error + write_result) \<and> fs' = g
        | Inr created \<Rightarrow> write_prepared lib io rid project_id relative content safe ?full created g = (Inr r, fs')" .
  obtain created where "p = Inr created" "g = fs" using run(5,6) by (auto simp: ensure_parent_def split: if_splits)
  then obtain a where "atomic_write io fs ?full content = (a, fs')" "a = None" "wr_hash r = hash_text lib content"
    using run(6) write_prepared_outcome [of lib io rid project_id relative content safe ?full created fs "Inr r" fs'] by auto
  moreover have "not_link fs ?full" using run(1,3) by (auto simp: no_links_def)
  then have "fs ?full = None \<or> (\<exists>m c. fs ?full = Some (File m c))"
    using run(4) by (auto simp: not_link_def split: option.splits fnode.splits)
  ultimately show ?thesis
    using atomic_write_effect [OF assms(1,3) run(3,2,1), of io content a fs'] by simp
qed

text \<open>C39: A write that is not asked to create parent directories and its rollback are inverse: when the file written was
  captured with its old content, and nobody has changed it since, a rollback that succeeds restores the file system
  exactly, whatever else the store holds: content and mode of an existing file, the absence of a new one. (A rollback
  removes no directories: those that a write with \<open>create_parents\<close> has made stay.)\<close>

theorem rollback_undoes_write:
  assumes "file_tree fs" "map_of (project_roots pol) pid = Some proot" "fs proot = Some Directory"
    and "project_file_write lib io pol rid pid rel content max_bytes safe False fs = (Inr r, fs1)"
    and "before = (case fs (proot @ path_parts rel) of Some (File m c) \<Rightarrow> Some c | _ \<Rightarrow> None)"
    and "map_of (project_store st pid) rel
      = Some (new_snapshot lib fresh now pid rel before ''write'' (before \<noteq> None) receipt (Some (wr_hash r)))"
    and "rollback_snapshot lib io' pol pid rel st fs1 = (Inr rr, st', fs2)"
  shows "fs2 = fs"
proof -
  let ?full = "proot @ path_parts rel"
  note w = write_exact [OF assms(1-4)]
  have "file_tree fs1" using project_file_write_tree [OF assms(1-4)] .
  moreover have "fs1 proot = Some Directory" using w assms(3) by (metis fun_upd_apply fnode.distinct(1) option.distinct(1) option.inject)
  moreover have "fs1 ?full = Some (File (kept_mode fs ?full) content)" using w by simp
  ultimately have fs2: "fs2 = (if before \<noteq> None then fs1(?full \<mapsto> File (kept_mode fs ?full) (the before)) else fs1(?full := None))"
    using rollback_restored [OF _ assms(2) _ assms(7,6), where m = "kept_mode fs ?full" and c = content and old = "the before"]
    by (auto simp: new_snapshot_def Let_def)
  show ?thesis
  proof (cases "fs ?full")
    case None
    then show ?thesis using fs2 w assms(5) by (simp add: fun_upd_idem)
  next
    case (Some node)
    then obtain m c where "fs ?full = Some (File m c)" using w by auto
    then show ?thesis using fs2 w assms(5) by (simp add: kept_mode_def fun_upd_idem)
  qed
qed

subsection \<open>Concrete calls\<close>

definition demo_snapshot :: snapshot where
  "demo_snapshot = new_snapshot demo_edit_lib ''id'' 0 ''p'' ''a.txt'' (Some ''hello'') ''write'' True None (Some ''sha256:new'')"

lemma snapshot_store_bounded_witness:
  "ss_total (clear_snapshots ''q'' (capture_snapshot demo_snapshot (new_snapshot_store 5 4))) \<le> 4"
  using snapshot_store_bounded [of 5 4 "clear_snapshots ''q'' (capture_snapshot demo_snapshot (new_snapshot_store 5 4))" "''p''"]
  by (simp add: snapshot_reach.intros)

lemma demo_write:
  "\<exists>r. project_file_write demo_edit_lib demo_write_io demo_policy ''id'' ''p'' ''a.txt'' ''new'' 100 False False demo_tree
    = (Inr r, demo_with ''new'') \<and> wr_hash r = ''sha256:new''"
  using demo_write_target [of "''hello''"] demo_validate_write [of "''hello''"] demo_atomic_write [of "''hello''"]
    demo_with_at [of "''hello''"] demo_with_at(5) [of "''new''"]
  by (simp add: demo_with_hello project_file_write_def is_directory_target_def content_error_def ensure_parent_def
      write_prepared_def post_write_confirmation_def demo_io_ok Let_def hash_text_def demo_edit_lib_def)

lemma demo_rollback:
  "\<exists>rr st'. rollback_snapshot demo_edit_lib demo_write_io demo_policy ''p'' ''a.txt''
     (new_snapshot_store 5 100\<lparr>ss_stores := [(''p'', [(''a.txt'', demo_snapshot)])]\<rparr>) (demo_with ''new'')
    = (Inr rr, st', demo_with ''hello'')"
  using demo_write_target [of "''new''"] demo_read [OF demo_utf8(2), of WRITE_MAX_BYTES] demo_atomic_write [of "''new''" "''hello''"]
    demo_with_at(3) [of "''new''"] demo_with_at(3) [of "''hello''"] demo_read [OF demo_utf8(1), of WRITE_MAX_BYTES]
  by (simp add: rollback_snapshot_def project_store_def new_snapshot_store_def snapshot_file_hash_def WRITE_MAX_BYTES_def
      undo_file_def stale_def demo_snapshot_def new_snapshot_def hash_text_def demo_edit_lib_def)

text \<open>The file before the write and after the rollback.\<close>

lemma rollback_undoes_write_witness:
  "snd (snd (rollback_snapshot demo_edit_lib demo_write_io demo_policy ''p'' ''a.txt''
     (new_snapshot_store 5 100\<lparr>ss_stores := [(''p'', [(''a.txt'', demo_snapshot)])]\<rparr>) (demo_with ''new''))) = demo_tree"
proof -
  let ?st = "new_snapshot_store 5 100\<lparr>ss_stores := [(''p'', [(''a.txt'', demo_snapshot)])]\<rparr>"
  obtain r where w: "project_file_write demo_edit_lib demo_write_io demo_policy ''id'' ''p'' ''a.txt'' ''new'' 100 False False demo_tree
    = (Inr r, demo_with ''new'')" "wr_hash r = ''sha256:new''"
    using demo_write by blast
  obtain rr st' fs2 where rb: "rollback_snapshot demo_edit_lib demo_write_io demo_policy ''p'' ''a.txt'' ?st (demo_with ''new'') = (Inr rr, st', fs2)"
    using demo_rollback by blast
  have old: "Some ''hello'' = (case demo_tree ([''w'', ''p''] @ path_parts ''a.txt'') of Some (File m c) \<Rightarrow> Some c | _ \<Rightarrow> None)"
    by (simp add: path_parts_def demo_tree_def)
  have stored: "map_of (project_store ?st ''p'') ''a.txt''
      = Some (new_snapshot demo_edit_lib ''id'' 0 ''p'' ''a.txt'' (Some ''hello'') ''write'' (Some ''hello'' \<noteq> None) None (Some (wr_hash r)))"
    by (simp add: project_store_def demo_snapshot_def w(2))
  from rollback_undoes_write [OF demo_file_tree demo_tree_dirs w(1) old stored rb] show ?thesis by (simp add: rb)
qed

end
