(* ===== verification/WorkspaceTools.thy ===== *)
theory WorkspaceTools
  imports WorkspaceSnapshot
begin

text \<open>
  The tools of \<open>app/workspace\<close> that change files, in any order: every call of one of them is a step of the file
  system, with arguments, faults and a snapshot store that are arbitrary in each step.
\<close>

inductive tool_step :: "workspace_policy \<Rightarrow> file_system \<Rightarrow> file_system \<Rightarrow> bool" for pol where
  write_step: "project_file_write lib io pol rid pid rel content limit safe create fs = (wr, fs') \<Longrightarrow> tool_step pol fs fs'"
| edit_step: "project_file_edit lib io pol rid pid rel old new limit safe fs = (er, fs') \<Longrightarrow> tool_step pol fs fs'"
| patch_step: "project_apply_patch lib io pol rid pid rel patch limit safe fs = (pr, fs') \<Longrightarrow> tool_step pol fs fs'"
| rollback_step: "rollback_snapshot lib io pol pid rel st fs = (rr, st', fs') \<Longrightarrow> tool_step pol fs fs'"

text \<open>What changes is below the root and was no directory.\<close>

definition changes_inside :: "path \<Rightarrow> file_system \<Rightarrow> file_system \<Rightarrow> bool" where
  "changes_inside proot fs fs' \<longleftrightarrow> (\<forall>p. fs' p \<noteq> fs p \<longrightarrow> strict_prefix proot p \<and> fs p \<noteq> Some Directory)"

lemma changes_inside_refl [simp]: "changes_inside proot fs fs"
  by (simp add: changes_inside_def)

lemma changes_inside_trans: "changes_inside proot fs g \<Longrightarrow> changes_inside proot g h \<Longrightarrow> changes_inside proot fs h"
  unfolding changes_inside_def by metis

lemma changes_inside_put:
  "parts \<noteq> [] \<Longrightarrow> fs (proot @ parts) \<noteq> Some Directory \<Longrightarrow> changes_inside proot fs (fs(proot @ parts := node))"
  by (auto simp: changes_inside_def strict_prefix_def split: if_splits)

lemma changes_inside_spilled:
  "parts \<noteq> [] \<Longrightarrow> spilled fs (tmp_name io (proot @ parts)) fs' \<Longrightarrow> changes_inside proot fs fs'"
  using tmp_name_below [of parts proot io] by (auto simp: changes_inside_def spilled_def split: if_splits)

lemma changes_inside_dirs: "made_dirs fs fs' proot parts \<Longrightarrow> changes_inside proot fs fs'"
  unfolding changes_inside_def made_dirs_def by (fastforce simp: strict_prefix_def)

lemma atomic_write_inside:
  assumes "file_tree fs" "fs proot = Some Directory" "no_links fs proot parts" "list_all proper_name parts" "parts \<noteq> []"
    and "atomic_write io fs (proot @ parts) content = (res, fs')"
  shows "file_tree fs' \<and> changes_inside proot fs fs'"
proof (intro conjI atomic_write_tree [OF assms])
  show "changes_inside proot fs fs'"
    using atomic_write_effect [OF assms] changes_inside_put [OF assms(5), of fs proot]
      changes_inside_spilled [OF assms(5), of fs io proot fs']
    by (cases res) auto
qed

lemma unlink_inside:
  assumes "file_tree fs" "fs (proot @ parts) = Some (File m c)" "parts \<noteq> []" "unlink fs (proot @ parts) = Some fs'"
  shows "file_tree fs' \<and> changes_inside proot fs fs'"
proof -
  obtain ds d where parts: "parts = ds @ [d]" using assms(3) by (cases parts rule: rev_cases) auto
  have "fs (proot @ ds) = Some Directory" using file_treeD(2) [OF assms(1), of "proot @ ds" d] parts assms(2) by simp
  then have "entry_of fs (proot @ parts) = Some (proot @ parts)"
    using entry_in_dir [OF assms(1), of "proot @ ds" d] parts by simp
  then have "fs' = fs(proot @ parts := None)" using assms(2,4) by (simp add: unlink_def)
  then show ?thesis
    using assms(2,3) file_tree_remove [OF assms(1), of "proot @ parts"] changes_inside_put [OF assms(3), of fs proot None] by simp
qed

lemma write_inside:
  assumes "file_tree fs" "map_of (project_roots pol) pid = Some proot" "fs proot = Some Directory"
    and "project_file_write lib io pol rid pid rel content limit safe create fs = (res, fs')"
  shows "file_tree fs' \<and> changes_inside proot fs fs'"
proof (cases "\<exists>e. res = Inl e \<and> fs' = fs")
  case False
  let ?parts = "path_parts rel"
  from project_file_write_run [OF assms False]
  obtain r g where run: "?parts \<noteq> []" "list_all proper_name ?parts" "no_links fs proot ?parts"
      "ensure_parent io create (proot @ ?parts) proot fs = (r, g)"
      "case r of Inl e \<Rightarrow> res = Inl e \<and> fs' = g
        | Inr created \<Rightarrow> write_prepared lib io rid pid rel content safe (proot @ ?parts) created g = (res, fs')" .
  note parent = ensure_parent_effect [OF run(4) assms(1,3) run(3,2,1)]
  have made: "changes_inside proot fs g"
  proof (cases "\<not> path_exists fs (butlast (proot @ ?parts)) \<and> create")
    case True
    then have "create_parent_directories io fs (proot @ ?parts) proot = (r, g)" using run(4) by (simp add: ensure_parent_def)
    from create_parents_effect [OF this assms(1,3) run(2,1)] show ?thesis using changes_inside_dirs by blast
  next
    case False
    then have "g = fs" using run(4) by (auto simp: ensure_parent_def split: if_splits)
    then show ?thesis by simp
  qed
  show ?thesis
  proof (cases r)
    case (Inl e)
    then show ?thesis using run(5) made parent by simp
  next
    case (Inr created)
    then obtain a where "atomic_write io g (proot @ ?parts) content = (a, fs')"
      using run(5) write_prepared_outcome [of lib io rid pid rel content safe "proot @ ?parts" created g res fs'] by auto
    from atomic_write_inside [OF _ _ _ run(2,1) this] show ?thesis
      using parent Inr made changes_inside_trans by blast
  qed
qed (use assms(1) in auto)

text \<open>A tool that works on the file as it is.\<close>

lemma target_inside:
  assumes "write_target pol fs pid rel = Inr (full, pr)" "file_tree fs" "fs proot = Some Directory"
    "map_of (project_roots pol) pid = Some proot" "fs full = Some (File m c)" "pr \<noteq> full"
    and "atomic_write io fs full content = (res, fs') \<or> unlink fs full = Some fs'"
  shows "file_tree fs' \<and> changes_inside proot fs fs'"
proof -
  note target = write_targetD [OF assms(1,2)]
  have pr: "pr = proot" "full = proot @ path_parts rel" using target(1,6) assms(4) by auto
  then have "path_parts rel \<noteq> []" using assms(6) by auto
  then show ?thesis
    using assms(5,7) pr target(2,3) atomic_write_inside [OF assms(2,3), of "path_parts rel" io content res fs']
      unlink_inside [OF assms(2), of proot "path_parts rel" m c fs'] by auto
qed

lemma read_target:
  assumes "write_target pol fs pid rel = Inr (full, pr)" "file_tree fs" "fs pr = Some Directory" "exact_read io fs full limit = Inr c"
  shows "pr \<noteq> full \<and> (\<exists>m. fs full = Some (File m c))"
proof -
  note target = write_targetD [OF assms(1,2)]
  show ?thesis using exact_read_linkless [OF assms(4) [unfolded target(1)] assms(2,3) target(3,2)] target(1) by auto
qed

lemma edit_inside:
  assumes "file_tree fs" "map_of (project_roots pol) pid = Some proot" "fs proot = Some Directory"
    and "project_file_edit lib io pol rid pid rel old new limit safe fs = (res, fs')"
  shows "file_tree fs' \<and> changes_inside proot fs fs'"
proof (cases "fs' = fs")
  case False
  then obtain full pr c where run: "write_target pol fs pid rel = Inr (full, pr)" "exact_read io fs full limit = Inr c"
      "edit_content lib io rid pid rel old new limit safe full c fs = (res, fs')"
    using assms(4) by (auto simp: project_file_edit_def split: if_splits sum.splits)
  have "pr = proot" using write_targetD(6) [OF run(1) assms(1)] assms(2) by simp
  then obtain m where "pr \<noteq> full" "fs full = Some (File m c)" using read_target [OF run(1) assms(1) _ run(2)] assms(3) by blast
  moreover obtain r where "atomic_write io fs full (replace_first old new c) = (r, fs')"
    using run(3) False by (auto simp: edit_content_def Let_def split: if_splits option.splits prod.splits)
  ultimately show ?thesis using target_inside [OF run(1) assms(1,3,2)] by blast
qed (use assms(1) in simp)

lemma patch_inside:
  assumes "file_tree fs" "map_of (project_roots pol) pid = Some proot" "fs proot = Some Directory"
    and "project_apply_patch lib io pol rid pid rel patch limit safe fs = (res, fs')"
  shows "file_tree fs' \<and> changes_inside proot fs fs'"
proof (cases "fs' = fs")
  case False
  then obtain full pr c where run: "write_target pol fs pid rel = Inr (full, pr)" "exact_read io fs full limit = Inr c"
      "(if is_deletion_patch patch then delete_file lib io rid pid rel safe full c fs
        else patch_file lib io rid pid rel patch limit safe full c fs) = (res, fs')"
    using assms(4) by (auto simp: project_apply_patch_def split: sum.splits)
  have "pr = proot" using write_targetD(6) [OF run(1) assms(1)] assms(2) by simp
  then obtain m where found: "pr \<noteq> full" "fs full = Some (File m c)" using read_target [OF run(1) assms(1) _ run(2)] assms(3) by blast
  have "unlink fs full = Some fs' \<or> (\<exists>a text'. atomic_write io fs full text' = (a, fs'))"
  proof (cases "is_deletion_patch patch")
    case True
    then show ?thesis using run(3) False by (auto simp: delete_file_def split: option.splits if_splits)
  next
    case no: False
    then show ?thesis using run(3) False patch_file_cases [of lib io rid pid rel patch limit safe full c fs res fs'] by auto
  qed
  then show ?thesis using target_inside [OF run(1) assms(1,3,2) found(2,1)] by blast
qed (use assms(1) in simp)

lemma rollback_inside:
  assumes "file_tree fs" "map_of (project_roots pol) pid = Some proot" "fs proot = Some Directory"
    and "rollback_snapshot lib io pol pid rel st fs = (res, st', fs')"
  shows "file_tree fs' \<and> changes_inside proot fs fs'"
proof (cases "fs' = fs")
  case False
  then obtain sn full pr current after where run: "write_target pol fs pid rel = Inr (full, pr)"
      "snapshot_file_hash lib io fs full = Inr current" "undo_file lib io sn full current fs = (after, fs')"
    using assms(4) by (auto simp: rollback_snapshot_def split: option.splits sum.splits prod.splits)
  note target = write_targetD [OF run(1) assms(1)]
  have pr: "pr = proot" "full = proot @ path_parts rel" using target(1,6) assms(2) by auto
  obtain h where "current = Some h" and undone: "(\<exists>a x. atomic_write io fs full x = (a, fs')) \<or> unlink fs full = Some fs'"
    using run(3) False by (auto simp: undo_file_def split: option.splits if_splits prod.splits)
  then obtain m c where found: "pr \<noteq> full" "fs full = Some (File m c)"
    using snapshot_hash_linkless [OF run(2) [unfolded pr] assms(1,3) target(3) [unfolded pr] target(2)] pr by auto
  show ?thesis using target_inside [OF run(1) assms(1,3,2) found(2,1)] undone by blast
qed (use assms(1) in simp)

text \<open>A call for a project that is not registered changes nothing.\<close>

lemma unknown_project:
  assumes "map_of (project_roots pol) pid = None"
  shows "\<exists>e. write_target pol fs pid rel = Inl e"
  using assms by (auto simp: write_target_def validate_write_def checked_root_def resolve_project_root_def split: sum.splits option.splits)

lemma unknown_project_unchanged:
  assumes "map_of (project_roots pol) pid = None"
  shows "project_file_write lib io pol rid pid rel content limit safe create fs = (wr, fs') \<Longrightarrow> fs' = fs"
    and "project_file_edit lib io pol rid pid rel old new limit safe fs = (er, fs') \<Longrightarrow> fs' = fs"
    and "project_apply_patch lib io pol rid pid rel patch limit safe fs = (pr, fs') \<Longrightarrow> fs' = fs"
    and "rollback_snapshot lib io pol pid rel st fs = (rr, st', fs') \<Longrightarrow> fs' = fs"
  using unknown_project [OF assms, of fs rel]
  by (auto simp: project_file_write_def project_file_edit_def project_apply_patch_def rollback_snapshot_def split: if_splits option.splits)

definition roots_ok :: "workspace_policy \<Rightarrow> file_system \<Rightarrow> bool" where
  "roots_ok pol fs \<longleftrightarrow> (\<forall>pid proot. map_of (project_roots pol) pid = Some proot \<longrightarrow> fs proot = Some Directory)"

lemma tool_step_inside:
  assumes "tool_step pol fs fs'" "file_tree fs" "roots_ok pol fs"
  shows "fs' = fs \<or> (\<exists>pid proot. map_of (project_roots pol) pid = Some proot \<and> file_tree fs' \<and> changes_inside proot fs fs')"
proof -
  have known: "map_of (project_roots pol) pid = Some proot \<Longrightarrow> fs proot = Some Directory" for pid proot
    using assms(3) by (simp add: roots_ok_def)
  have ?thesis if "map_of (project_roots pol) pid = None \<Longrightarrow> fs' = fs"
      "\<And>proot. map_of (project_roots pol) pid = Some proot \<Longrightarrow> file_tree fs' \<and> changes_inside proot fs fs'" for pid
    using that by (cases "map_of (project_roots pol) pid") blast+
  note either = this
  from assms(1) show ?thesis
  proof (cases rule: tool_step.cases)
    case (write_step lib io rid pid rel content limit safe create wr)
    show ?thesis
      by (rule either [of pid]) (rule unknown_project_unchanged(1) [OF _ write_step] write_inside [OF assms(2) _ known write_step], assumption+)+
  next
    case (edit_step lib io rid pid rel old new limit safe er)
    show ?thesis
      by (rule either [of pid]) (rule unknown_project_unchanged(2) [OF _ edit_step] edit_inside [OF assms(2) _ known edit_step], assumption+)+
  next
    case (patch_step lib io rid pid rel patch limit safe pr)
    show ?thesis
      by (rule either [of pid]) (rule unknown_project_unchanged(3) [OF _ patch_step] patch_inside [OF assms(2) _ known patch_step], assumption+)+
  next
    case (rollback_step lib io pid rel st rr st')
    show ?thesis
      by (rule either [of pid]) (rule unknown_project_unchanged(4) [OF _ rollback_step] rollback_inside [OF assms(2) _ known rollback_step], assumption+)+
  qed
qed

text \<open>C40: The file system stays a tree whatever the tools do: after every sequence of writes, edits, patches and rollbacks,
  with any arguments and any failing system calls, every entry has a proper name in a directory, every directory that was
  there is still a directory, the roots of the projects among them, and whatever has changed lies below the root of
  some registered project.\<close>

theorem tools_keep_the_tree:
  assumes "(tool_step pol)\<^sup>*\<^sup>* fs fs'" "file_tree fs" "roots_ok pol fs"
  shows "file_tree fs' \<and> roots_ok pol fs' \<and> (\<forall>p. fs p = Some Directory \<longrightarrow> fs' p = Some Directory)
    \<and> (\<forall>p. fs' p \<noteq> fs p \<longrightarrow> (\<exists>pid proot. map_of (project_roots pol) pid = Some proot \<and> strict_prefix proot p))"
  using assms(1)
proof (induction rule: rtranclp_induct)
  case base
  then show ?case using assms(2,3) by simp
next
  case (step g h)
  then have g: "file_tree g" "roots_ok pol g" by simp_all
  from tool_step_inside [OF step.hyps(2) this]
  show ?case
  proof (elim disjE exE conjE)
    fix pid proot assume h: "map_of (project_roots pol) pid = Some proot" "file_tree h" "changes_inside proot g h"
    then have dirs: "g p = Some Directory \<Longrightarrow> h p = Some Directory" for p by (metis changes_inside_def)
    moreover have "roots_ok pol h" using g(2) dirs by (simp add: roots_ok_def)
    moreover have "h p \<noteq> fs p \<Longrightarrow> \<exists>pid proot. map_of (project_roots pol) pid = Some proot \<and> strict_prefix proot p" for p
      using h(1,3) step.IH by (metis changes_inside_def)
    ultimately show ?case using h(2) step.IH by blast
  qed (use step.IH in simp)
qed

text \<open>An edit and then a write along a link out of the project.\<close>

lemma tools_keep_the_tree_witness:
  "snd (project_file_write demo_edit_lib demo_write_io demo_policy ''id'' ''p'' ''out/passwd'' ''evil'' 10 False False
     (snd (project_file_edit demo_edit_lib demo_write_io demo_policy ''id'' ''p'' ''a.txt'' ''l'' ''LL'' 100 False demo_tree)))
     [''etc'', ''passwd''] = Some (File 420 ''users'')"
proof -
  obtain er g where edit:
    "project_file_edit demo_edit_lib demo_write_io demo_policy ''id'' ''p'' ''a.txt'' ''l'' ''LL'' 100 False demo_tree = (er, g)"
    by fastforce
  obtain wr h where writes:
    "project_file_write demo_edit_lib demo_write_io demo_policy ''id'' ''p'' ''out/passwd'' ''evil'' 10 False False g = (wr, h)"
    by fastforce
  have "(tool_step demo_policy)\<^sup>*\<^sup>* demo_tree h"
    using edit_step [OF edit] write_step [OF writes] by (meson r_into_rtranclp rtranclp_trans)
  moreover have "roots_ok demo_policy demo_tree" by (simp add: roots_ok_def demo_policy_def demo_tree_def)
  moreover have "\<not> strict_prefix [''w'', ''p''] [''etc'', ''passwd'']" by (simp add: strict_prefix_def)
  ultimately have "h [''etc'', ''passwd''] = demo_tree [''etc'', ''passwd'']"
    using tools_keep_the_tree [OF _ demo_file_tree, of demo_policy h] by (auto simp: demo_policy_def split: if_splits)
  then have "h [''etc'', ''passwd''] = Some (File 420 ''users'')" by (simp add: demo_tree_def)
  then show ?thesis by (simp only: edit writes snd_conv)
qed

end
