(* ===== verification/JobQueue.thy ===== *)
theory JobQueue
  imports PyJson
begin

text \<open>
  \<open>app/redis_queue.py\<close>: jobs kept in Redis. A value is the JSON it parses to; a key has the time at which it expires,
  and may be evicted before. Scripts run as one step of the server. Times of the clients (\<open>now\<close>) and of the
  server (\<open>clock\<close>) are separate arguments; the prefixes of the keys are left out, each kind of key has a table.
\<close>

type_synonym 'v keys = "(string \<times> 'v \<times> time) list"
type_synonym zset = "(string \<times> rat) list"

record job_redis =
  jr_jobs :: "json keys"
  jr_subs :: "json keys"
  jr_leases :: "string keys"
  jr_queue :: zset
  jr_processing :: zset
  jr_completed :: zset
  jr_dead :: zset

definition no_jobs :: job_redis where
  "no_jobs = \<lparr>jr_jobs = [], jr_subs = [], jr_leases = [], jr_queue = [], jr_processing = [], jr_completed = [], jr_dead = []\<rparr>"

subsection \<open>Commands of the server\<close>

definition kv_get :: "time \<Rightarrow> string \<Rightarrow> 'v keys \<Rightarrow> 'v option" where
  "kv_get clock k t = (case map_of t k of None \<Rightarrow> None | Some (v, e) \<Rightarrow> if clock < e then Some v else None)"

definition kv_set :: "time \<Rightarrow> string \<Rightarrow> 'v \<Rightarrow> rat \<Rightarrow> 'v keys \<Rightarrow> 'v keys" where
  "kv_set clock k v ttl t = AList.update k (v, clock + ttl) t"

definition kv_set_nx :: "time \<Rightarrow> string \<Rightarrow> 'v \<Rightarrow> rat \<Rightarrow> 'v keys \<Rightarrow> bool \<times> 'v keys" where
  "kv_set_nx clock k v ttl t = (if kv_get clock k t = None then (True, kv_set clock k v ttl t) else (False, t))"

definition zadd :: "string \<Rightarrow> rat \<Rightarrow> zset \<Rightarrow> zset" where
  "zadd m score z = AList.update m score z"

definition zrem :: "string \<Rightarrow> zset \<Rightarrow> zset" where
  "zrem m z = AList.delete m z"

text \<open>The order of a sorted set: by score, then by member.\<close>

definition zsorted :: "zset \<Rightarrow> zset" where
  "zsorted z = sort_key snd (sort_key fst z)"

definition zrange_by_score :: "rat \<Rightarrow> rat \<Rightarrow> zset \<Rightarrow> string list" where
  "zrange_by_score lo hi z = map fst (filter (\<lambda>(m, s). lo \<le> s \<and> s \<le> hi) (zsorted z))"

text \<open>
  A table of a script: a missing key is \<open>nil\<close>, but a JSON null becomes \<open>cjson.null\<close>, which is true in a condition.
  A comparison of a number with something else stops the script, and so does a command with such an argument.
\<close>

fun lua_get :: "json \<Rightarrow> string \<Rightarrow> json option" where
  "lua_get (JObj d) k = map_of d k"
| "lua_get _ k = None"

fun lua_set :: "string \<Rightarrow> json \<Rightarrow> json \<Rightarrow> json" where
  "lua_set k v (JObj d) = JObj (AList.update k v d)"
| "lua_set k v j = j"

definition lua_true :: "json option \<Rightarrow> bool" where
  "lua_true v \<longleftrightarrow> v \<noteq> None \<and> v \<noteq> Some (JBool False)"

definition lua_num :: "json option \<Rightarrow> rat option" where
  "lua_num v = (case v of Some (JInt n) \<Rightarrow> Some (of_int n) | Some (JFloat x) \<Rightarrow> Some x | _ \<Rightarrow> None)"

definition lua_str :: "json option \<Rightarrow> string option" where
  "lua_str v = (case v of Some (JStr s) \<Rightarrow> Some s | _ \<Rightarrow> None)"

text \<open>Whether a command reaches the server and its answer the client; \<open>None\<close> is a \<open>RedisError\<close>.\<close>

datatype net = Up | Lost | Down

definition redis_eval :: "net \<Rightarrow> (job_redis \<Rightarrow> 'a option \<times> job_redis) \<Rightarrow> job_redis \<Rightarrow> 'a option \<times> job_redis" where
  "redis_eval net script r = (case net of Up \<Rightarrow> script r | Lost \<Rightarrow> (None, snd (script r)) | Down \<Rightarrow> (None, r))"

datatype submission_error = SubmissionUnavailable | SubmissionConflict

subsection \<open>Submissions\<close>

definition SUBMISSION_TTL :: rat where
  "SUBMISSION_TTL = 604800"

definition submission_claim :: "string \<Rightarrow> string \<Rightarrow> string \<Rightarrow> time \<Rightarrow> json" where
  "submission_claim job_id owner payload created =
     JObj [(''version'', JInt 1), (''job_id'', JStr job_id), (''owner_id'', JStr owner), (''payload_hash'', JStr payload),
       (''created_at'', JFloat created)]"

text \<open>\<open>str(x)\<close> of the fields, which are texts.\<close>

definition find_submission ::
    "net \<Rightarrow> time \<Rightarrow> string \<Rightarrow> string \<Rightarrow> string \<Rightarrow> job_redis \<Rightarrow> submission_error + string option" where
  "find_submission net clock key owner payload r =
     (if net \<noteq> Up then Inl SubmissionUnavailable
      else
        (case kv_get clock key (jr_subs r) of
           None \<Rightarrow> Inr None
         | Some claim \<Rightarrow>
             (case (lua_str (lua_get claim ''job_id''), lua_str (lua_get claim ''owner_id''), lua_str (lua_get claim ''payload_hash'')) of
                (Some job, Some o', Some p) \<Rightarrow> if o' \<noteq> owner \<or> p \<noteq> payload then Inl SubmissionConflict else Inr (Some job)
              | _ \<Rightarrow> Inl SubmissionUnavailable)))"

text \<open>The script of \<open>reserve_submission_with_job\<close>: both keys are set when they are absent, whatever became of the other.\<close>

datatype reserve_reply = BothNew | Refused0 | ConflictReply | Existing string

definition reserve_script ::
    "time \<Rightarrow> string \<Rightarrow> string \<Rightarrow> string \<Rightarrow> string \<Rightarrow> json \<Rightarrow> json \<Rightarrow> job_redis \<Rightarrow> reserve_reply option \<times> job_redis" where
  "reserve_script clock key job_id owner payload claim envelope r =
     (case kv_set_nx clock key claim SUBMISSION_TTL (jr_subs r) of
        (sub_created, subs) \<Rightarrow>
          (case kv_set_nx clock job_id envelope SUBMISSION_TTL (jr_jobs r) of
             (env_created, jobs) \<Rightarrow>
               (let r' = r\<lparr>jr_subs := subs, jr_jobs := jobs\<rparr> in
                if sub_created \<and> env_created then (Some BothNew, r')
                else if sub_created then (Some Refused0, r'\<lparr>jr_subs := AList.delete key subs\<rparr>)
                else
                  (case kv_get clock key subs of
                     None \<Rightarrow> (Some Refused0, r')
                   | Some old \<Rightarrow>
                       if lua_get old ''owner_id'' \<noteq> Some (JStr owner) \<or> lua_get old ''payload_hash'' \<noteq> Some (JStr payload)
                       then (Some ConflictReply, r')
                       else
                         (case lua_str (lua_get old ''job_id'') of
                            None \<Rightarrow> (Some Refused0, r')
                          | Some job \<Rightarrow> (Some (Existing job), r'))))))"

text \<open>Three tries, each with its own state of the network; a conflict is retried like a refusal.\<close>

fun reserve_tries ::
    "net list \<Rightarrow> time \<Rightarrow> string \<Rightarrow> string \<Rightarrow> string \<Rightarrow> string \<Rightarrow> json \<Rightarrow> json \<Rightarrow> job_redis
      \<Rightarrow> (submission_error + string \<times> bool) \<times> job_redis" where
  "reserve_tries [] clock key job_id owner payload claim envelope r = (Inl SubmissionUnavailable, r)"
| "reserve_tries (net # nets) clock key job_id owner payload claim envelope r =
     (case redis_eval net (reserve_script clock key job_id owner payload claim envelope) r of
        (None, r') \<Rightarrow> (Inl SubmissionUnavailable, r')
      | (Some BothNew, r') \<Rightarrow> (Inr (job_id, True), r')
      | (Some (Existing job), r') \<Rightarrow>
          if job \<noteq> [] then (Inr (job, False), r')
          else reserve_tries nets clock key job_id owner payload claim envelope r'
      | (Some _, r') \<Rightarrow> reserve_tries nets clock key job_id owner payload claim envelope r')"

definition reserve_submission_with_job ::
    "net \<times> net \<times> net \<Rightarrow> time \<Rightarrow> time \<Rightarrow> string \<Rightarrow> string \<Rightarrow> string \<Rightarrow> string \<Rightarrow> json \<Rightarrow> job_redis
      \<Rightarrow> (submission_error + string \<times> bool) \<times> job_redis" where
  "reserve_submission_with_job nets clock now key job_id owner payload envelope r =
     (case nets of (a, b, c) \<Rightarrow>
        reserve_tries [a, b, c] clock key job_id owner payload (submission_claim job_id owner payload now) envelope r)"

subsection \<open>The scripts of an execution\<close>

definition TERMINAL_STATUSES :: "string list" where
  "TERMINAL_STATUSES = [''completed'', ''failed'', ''cancelled'', ''ambiguous'']"

definition env_status :: "json \<Rightarrow> string option" where
  "env_status env = lua_str (lua_get env ''status'')"

definition is_terminal :: "json \<Rightarrow> bool" where
  "is_terminal env \<longleftrightarrow> (case env_status env of Some s \<Rightarrow> s \<in> set TERMINAL_STATUSES | None \<Rightarrow> False)"

definition put_job :: "time \<Rightarrow> string \<Rightarrow> json \<Rightarrow> rat \<Rightarrow> job_redis \<Rightarrow> job_redis" where
  "put_job clock job_id env ttl r = r\<lparr>jr_jobs := kv_set clock job_id env ttl (jr_jobs r)\<rparr>"

text \<open>The end of a claim or heartbeat: the envelope, the lease and the processing set.\<close>

definition lease_job :: "time \<Rightarrow> time \<Rightarrow> rat \<Rightarrow> string \<Rightarrow> string \<Rightarrow> json \<Rightarrow> job_redis \<Rightarrow> bool option \<times> job_redis" where
  "lease_job clock now ttl token job_id env r =
     (let r' = (put_job clock job_id env 86400 r)\<lparr>jr_leases := kv_set clock job_id token ttl (jr_leases r)\<rparr> in
      case lua_str (lua_get env ''job_id'') of
        None \<Rightarrow> (None, r')
      | Some member \<Rightarrow> (Some True, r'\<lparr>jr_processing := zadd member now (jr_processing r)\<rparr>))"

definition renewed :: "time \<Rightarrow> rat \<Rightarrow> json \<Rightarrow> json" where
  "renewed now ttl env = lua_set ''last_heartbeat'' (JFloat now) (lua_set ''lease_expiry'' (JFloat (now + ttl)) env)"

definition taken :: "time \<Rightarrow> rat \<Rightarrow> string \<Rightarrow> json \<Rightarrow> json" where
  "taken now ttl token env =
     lua_set ''claimed_at'' (JFloat now)
       (renewed now ttl (lua_set ''worker_token'' (JStr token) (lua_set ''status'' (JStr ''processing'') env)))"

definition claim_script :: "time \<Rightarrow> time \<Rightarrow> rat \<Rightarrow> string \<Rightarrow> string \<Rightarrow> job_redis \<Rightarrow> bool option \<times> job_redis" where
  "claim_script clock now ttl token job_id r =
     (case kv_get clock job_id (jr_jobs r) of
        None \<Rightarrow> (Some False, r)
      | Some env \<Rightarrow>
          (let processing = (env_status env = Some ''processing''); expiry = lua_get env ''lease_expiry'';
               take_it = lease_job clock now ttl token job_id (taken now ttl token env) r in
           if is_terminal env then (Some False, r)
           else if processing \<and> lua_true (lua_get env ''cancel_requested'') then (Some False, r)
           else if processing \<and> lua_get env ''worker_token'' = Some (JStr token) then
             lease_job clock now ttl token job_id (renewed now ttl env) r
           else if processing \<and> lua_true expiry then
             (case lua_num expiry of
                None \<Rightarrow> (None, r)
              | Some e \<Rightarrow> if now \<le> e then (Some False, r) else take_it)
           else take_it))"

definition heartbeat_script :: "time \<Rightarrow> time \<Rightarrow> rat \<Rightarrow> string \<Rightarrow> string \<Rightarrow> job_redis \<Rightarrow> bool option \<times> job_redis" where
  "heartbeat_script clock now ttl token job_id r =
     (case kv_get clock job_id (jr_jobs r) of
        None \<Rightarrow> (Some False, r)
      | Some env \<Rightarrow>
          if env_status env \<noteq> Some ''processing'' \<or> lua_get env ''worker_token'' \<noteq> Some (JStr token) then (Some False, r)
          else if \<not> lua_true (lua_get env ''lease_expiry'') then (Some False, r)
          else
            (case lua_num (lua_get env ''lease_expiry'') of
               None \<Rightarrow> (None, r)
             | Some e \<Rightarrow> if e < now then (Some False, r) else lease_job clock now ttl token job_id (renewed now ttl env) r))"

text \<open>The end of a job: the envelope is kept for a week, the job leaves the processing set for another one.\<close>

definition end_job :: "time \<Rightarrow> time \<Rightarrow> string \<Rightarrow> string \<Rightarrow> bool \<Rightarrow> json \<Rightarrow> job_redis \<Rightarrow> job_redis" where
  "end_job clock now job_id member completed env r =
     (let r' = (put_job clock job_id env 604800 r)\<lparr>jr_processing := zrem member (jr_processing r),
                                                    jr_leases := AList.delete job_id (jr_leases r)\<rparr> in
      if completed then r'\<lparr>jr_completed := zadd member now (jr_completed r')\<rparr>
      else r'\<lparr>jr_dead := zadd member now (jr_dead r')\<rparr>)"

definition cancelled_waiting :: "time \<Rightarrow> json \<Rightarrow> json" where
  "cancelled_waiting now env =
     lua_set ''locally_interrupted'' (JBool False) (lua_set ''remote_outcome'' (JStr ''not_started'')
       (lua_set ''exit_code'' (JInt (- 1)) (lua_set ''finished_at'' (JFloat now)
         (lua_set ''status'' (JStr ''cancelled'') (lua_set ''cancel_requested'' (JBool True) env)))))"

text \<open>The answer is the status; the empty text for a job that is not there.\<close>

definition cancel_script :: "time \<Rightarrow> time \<Rightarrow> string \<Rightarrow> job_redis \<Rightarrow> string option \<times> job_redis" where
  "cancel_script clock now job_id r =
     (case kv_get clock job_id (jr_jobs r) of
        None \<Rightarrow> (Some [], r)
      | Some env \<Rightarrow>
          if is_terminal env then (env_status env, r)
          else if env_status env = Some ''pending'' then
            (case lua_str (lua_get env ''job_id'') of
               None \<Rightarrow> (None, put_job clock job_id (cancelled_waiting now env) 604800 r)
             | Some member \<Rightarrow> (Some ''cancelled'', end_job clock now job_id member False (cancelled_waiting now env) r))
          else if env_status env = Some ''processing'' then
            (Some ''cancelling'', put_job clock job_id (lua_set ''cancel_requested'' (JBool True) env) 86400 r)
          else (Some [], r))"

definition check_cancel_script :: "time \<Rightarrow> string \<Rightarrow> string \<Rightarrow> job_redis \<Rightarrow> bool option \<times> job_redis" where
  "check_cancel_script clock token job_id r =
     (case kv_get clock job_id (jr_jobs r) of
        None \<Rightarrow> (Some False, r)
      | Some env \<Rightarrow>
          if env_status env \<noteq> Some ''processing'' \<or> lua_get env ''worker_token'' \<noteq> Some (JStr token) then (Some False, r)
          else (Some (lua_true (lua_get env ''cancel_requested'')), r))"

text \<open>What a worker reports: the exit code and the error may be missing.\<close>

record job_outcome =
  oc_status :: string
  oc_stdout :: string
  oc_stderr :: string
  oc_exit_code :: "int option"
  oc_error :: string

definition finished_env :: "time \<Rightarrow> job_outcome \<Rightarrow> json \<Rightarrow> json" where
  "finished_env now out env =
     (let env = lua_set ''stderr'' (JStr (oc_stderr out)) (lua_set ''stdout'' (JStr (oc_stdout out))
            (lua_set ''finished_at'' (JFloat now) (lua_set ''status'' (JStr (oc_status out)) env)));
          env = (if oc_status out = ''ambiguous'' then
                   lua_set ''locally_interrupted'' (JBool True) (lua_set ''remote_outcome'' (JStr ''ambiguous'') env) else env);
          env = (case oc_exit_code out of None \<Rightarrow> env | Some c \<Rightarrow> lua_set ''exit_code'' (JInt c) env) in
      if oc_error out \<noteq> [] then lua_set ''error'' (JStr (oc_error out)) env else env)"

definition finish_script :: "time \<Rightarrow> time \<Rightarrow> string \<Rightarrow> job_outcome \<Rightarrow> string \<Rightarrow> job_redis \<Rightarrow> bool option \<times> job_redis" where
  "finish_script clock now token out job_id r =
     (case kv_get clock job_id (jr_jobs r) of
        None \<Rightarrow> (Some False, r)
      | Some env \<Rightarrow>
          if env_status env \<noteq> Some ''processing'' \<or> lua_get env ''worker_token'' \<noteq> Some (JStr token) then (Some False, r)
          else
            (case lua_str (lua_get env ''job_id'') of
               None \<Rightarrow> (None, put_job clock job_id (finished_env now out env) 604800 r)
             | Some member \<Rightarrow>
                 (Some True, end_job clock now job_id member (oc_status out = ''completed'') (finished_env now out env) r)))"

text \<open>The loop over the candidates of \<open>reconcile_expired_cancelled_processing\<close>; \<open>exit_code\<close> is only set where it is missing.\<close>

definition expired_env :: "time \<Rightarrow> json \<Rightarrow> bool option" where
  "expired_env now env =
     (if \<not> lua_true (lua_get env ''lease_expiry'') then Some False
      else map_option (\<lambda>e. e < now) (lua_num (lua_get env ''lease_expiry'')))"

definition ambiguous_env :: "time \<Rightarrow> json \<Rightarrow> json" where
  "ambiguous_env now env =
     (let env = lua_set ''locally_interrupted'' (JBool True) (lua_set ''remote_outcome'' (JStr ''ambiguous'')
            (lua_set ''finished_at'' (JFloat now) (lua_set ''status'' (JStr ''ambiguous'') env))) in
      if lua_get env ''exit_code'' = None then lua_set ''exit_code'' (JInt (- 1)) env else env)"

fun reconcile_loop :: "time \<Rightarrow> time \<Rightarrow> string list \<Rightarrow> string list \<Rightarrow> job_redis \<Rightarrow> string list option \<times> job_redis" where
  "reconcile_loop clock now [] acc r = (Some acc, r)"
| "reconcile_loop clock now (jid # jids) acc r =
     (case kv_get clock jid (jr_jobs r) of
        None \<Rightarrow> reconcile_loop clock now jids acc r
      | Some env \<Rightarrow>
          if env_status env = Some ''processing'' \<and> lua_true (lua_get env ''cancel_requested'') then
            (case expired_env now env of
               None \<Rightarrow> (None, r)
             | Some False \<Rightarrow> reconcile_loop clock now jids acc r
             | Some True \<Rightarrow> reconcile_loop clock now jids (acc @ [jid]) (end_job clock now jid jid False (ambiguous_env now env) r))
          else reconcile_loop clock now jids acc r)"

definition reconcile_script :: "time \<Rightarrow> time \<Rightarrow> job_redis \<Rightarrow> string list option \<times> job_redis" where
  "reconcile_script clock now r = reconcile_loop clock now (zrange_by_score 0 now (jr_processing r)) [] r"

subsection \<open>Recovery\<close>

text \<open>The two scripts of \<open>list_recoverable_durable_jobs\<close>; \<open>SCAN\<close> gives the keys of the claims in some order.\<close>

fun expired_jobs :: "time \<Rightarrow> time \<Rightarrow> json keys \<Rightarrow> string list \<Rightarrow> string list option" where
  "expired_jobs clock now jobs [] = Some []"
| "expired_jobs clock now jobs (jid # jids) =
     (case kv_get clock jid jobs of
        None \<Rightarrow> expired_jobs clock now jobs jids
      | Some env \<Rightarrow>
          if env_status env = Some ''processing'' \<and> \<not> lua_true (lua_get env ''cancel_requested'') then
            (case expired_env now env of
               None \<Rightarrow> None
             | Some e \<Rightarrow> map_option (\<lambda>js. if e then jid # js else js) (expired_jobs clock now jobs jids))
          else expired_jobs clock now jobs jids)"

definition waiting_job :: "time \<Rightarrow> job_redis \<Rightarrow> string \<Rightarrow> string option" where
  "waiting_job clock r key =
     (case kv_get clock key (jr_subs r) of
        None \<Rightarrow> None
      | Some claim \<Rightarrow>
          (case lua_str (lua_get claim ''job_id'') of
             None \<Rightarrow> None
           | Some jid \<Rightarrow>
               (case kv_get clock jid (jr_jobs r) of
                  None \<Rightarrow> None
                | Some env \<Rightarrow> if env_status env = Some ''pending'' then Some jid else None)))"

definition list_recoverable_durable_jobs :: "net \<Rightarrow> net \<Rightarrow> time \<Rightarrow> time \<Rightarrow> string list \<Rightarrow> job_redis \<Rightarrow> string list" where
  "list_recoverable_durable_jobs net1 net2 clock now scan r =
     (case (if net1 = Up then expired_jobs clock now (jr_jobs r) (zrange_by_score 0 now (jr_processing r)) else None) of
        None \<Rightarrow> []
      | Some expired \<Rightarrow>
          expired @ (if net2 = Up then dedup_by id expired (List.map_filter (waiting_job clock r) scan) else []))"

definition recover_durable_job :: "net \<Rightarrow> time \<Rightarrow> string \<Rightarrow> job_redis \<Rightarrow> json option" where
  "recover_durable_job net clock job_id r = (if net = Up then kv_get clock job_id (jr_jobs r) else None)"

subsection \<open>The calls of the worker\<close>

definition claim_durable_execution ::
    "net \<Rightarrow> time \<Rightarrow> time \<Rightarrow> rat \<Rightarrow> string \<Rightarrow> string \<Rightarrow> job_redis \<Rightarrow> (submission_error + bool) \<times> job_redis" where
  "claim_durable_execution net clock now ttl token job_id r =
     map_prod (\<lambda>a. case a of None \<Rightarrow> Inl SubmissionUnavailable | Some b \<Rightarrow> Inr b) id
       (redis_eval net (claim_script clock now ttl token job_id) r)"

definition heartbeat_durable_execution ::
    "net \<Rightarrow> time \<Rightarrow> time \<Rightarrow> rat \<Rightarrow> string \<Rightarrow> string \<Rightarrow> job_redis \<Rightarrow> bool \<times> job_redis" where
  "heartbeat_durable_execution net clock now ttl token job_id r =
     map_prod (\<lambda>a. a = Some True) id (redis_eval net (heartbeat_script clock now ttl token job_id) r)"

definition request_durable_cancellation ::
    "net \<Rightarrow> time \<Rightarrow> time \<Rightarrow> string \<Rightarrow> job_redis \<Rightarrow> (submission_error + string option) \<times> job_redis" where
  "request_durable_cancellation net clock now job_id r =
     map_prod (\<lambda>a. case a of None \<Rightarrow> Inl SubmissionUnavailable | Some s \<Rightarrow> Inr (if s = [] then None else Some s)) id
       (redis_eval net (cancel_script clock now job_id) r)"

definition is_durable_cancellation_requested :: "net \<Rightarrow> time \<Rightarrow> string \<Rightarrow> string \<Rightarrow> job_redis \<Rightarrow> bool" where
  "is_durable_cancellation_requested net clock token job_id r =
     (fst (redis_eval net (check_cancel_script clock token job_id) r) = Some True)"

definition FINISH_TERMINAL_MAX_ATTEMPTS :: nat where
  "FINISH_TERMINAL_MAX_ATTEMPTS = 3"

text \<open>The retries after a \<open>RedisError\<close>; the time of the report is read once.\<close>

fun finish_attempts ::
    "net list \<Rightarrow> time \<Rightarrow> time \<Rightarrow> string \<Rightarrow> job_outcome \<Rightarrow> string \<Rightarrow> job_redis \<Rightarrow> bool \<times> job_redis" where
  "finish_attempts [] clock now token out job_id r = (False, r)"
| "finish_attempts (net # nets) clock now token out job_id r =
     (case redis_eval net (finish_script clock now token out job_id) r of
        (Some b, r') \<Rightarrow> (b, r')
      | (None, r') \<Rightarrow> finish_attempts nets clock now token out job_id r')"

text \<open>\<open>None\<close> is the \<open>ValueError\<close> for a status that is not terminal.\<close>

definition finish_durable_execution ::
    "(nat \<Rightarrow> net) \<Rightarrow> time \<Rightarrow> time \<Rightarrow> string \<Rightarrow> job_outcome \<Rightarrow> string \<Rightarrow> job_redis \<Rightarrow> bool option \<times> job_redis" where
  "finish_durable_execution nets clock now token out job_id r =
     (if oc_status out \<notin> set TERMINAL_STATUSES then (None, r)
      else map_prod Some id (finish_attempts (map nets [0..<FINISH_TERMINAL_MAX_ATTEMPTS]) clock now token out job_id r))"

definition reconcile_expired_cancelled_processing :: "net \<Rightarrow> time \<Rightarrow> time \<Rightarrow> job_redis \<Rightarrow> string list \<times> job_redis" where
  "reconcile_expired_cancelled_processing net clock now r =
     map_prod (\<lambda>a. case a of None \<Rightarrow> [] | Some js \<Rightarrow> js) id (redis_eval net (reconcile_script clock now) r)"

subsection \<open>Which job a submission became\<close>

record binding =
  bd_job_id :: string
  bd_owner_id :: string
  bd_payload_hash :: string

definition is_hex :: "char \<Rightarrow> bool" where
  "is_hex c \<longleftrightarrow> c \<in> set ''0123456789abcdef''"

text \<open>\<open>x == 1\<close>\<close>

definition is_one :: "json \<Rightarrow> bool" where
  "is_one v \<longleftrightarrow> v \<in> {JInt 1, JFloat 1, JBool True}"

text \<open>The checks of the fields that a claim and an envelope share.\<close>

definition binding_of :: "json \<Rightarrow> binding option" where
  "binding_of j =
     (case (jget j ''job_id'', jget j ''owner_id'', jget j ''payload_hash'') of
        (JStr job, JStr owner, JStr payload) \<Rightarrow>
          if \<not> is_one (jget j ''version'') \<or> strip job = [] \<or> length payload \<noteq> 64 \<or> \<not> list_all is_hex (lower payload) then None
          else Some \<lparr>bd_job_id = strip job, bd_owner_id = owner, bd_payload_hash = payload\<rparr>
      | _ \<Rightarrow> None)"

text \<open>The index over the envelopes: an entry is a binding or the reason why there is none.\<close>

datatype index_error = EnvelopeInvalid | StorageInconsistent | IdentityAmbiguous

type_synonym envelope_index = "(string \<times> (index_error + binding)) list"

definition index_envelope :: "string \<Rightarrow> json \<Rightarrow> envelope_index \<Rightarrow> envelope_index" where
  "index_envelope storage_key env index =
     (case jget env ''submission_key'' of
        JStr key \<Rightarrow>
          if \<not> startswith key ''task:'' then index
          else
            (case binding_of env of
               None \<Rightarrow> AList.update key (Inl EnvelopeInvalid) index
             | Some b \<Rightarrow>
                 if storage_key \<noteq> bd_job_id b then AList.update key (Inl StorageInconsistent) index
                 else if map_of index key \<noteq> None then AList.update key (Inl IdentityAmbiguous) index
                 else AList.update key (Inr b) index)
      | _ \<Rightarrow> index)"

text \<open>\<open>SCAN\<close> may give a key more than once.\<close>

definition build_submission_envelope_index :: "net \<Rightarrow> time \<Rightarrow> string list \<Rightarrow> job_redis \<Rightarrow> submission_error + envelope_index" where
  "build_submission_envelope_index net clock scan r =
     (if net \<noteq> Up then Inl SubmissionUnavailable
      else Inr (fold (\<lambda>key index. case kv_get clock key (jr_jobs r) of None \<Rightarrow> index | Some env \<Rightarrow> index_envelope key env index)
                  (dedup_by id [] scan) []))"

text \<open>The index is kept for thirty seconds by the clock of the process.\<close>

definition ENVELOPE_INDEX_TTL :: rat where
  "ENVELOPE_INDEX_TTL = 30"

type_synonym index_cache = "(envelope_index \<times> time) option"

definition get_submission_envelope_index ::
    "time \<Rightarrow> submission_error + envelope_index \<Rightarrow> index_cache \<Rightarrow> (submission_error + envelope_index) \<times> index_cache" where
  "get_submission_envelope_index now built cache =
     (case cache of
        Some (index, loaded) \<Rightarrow>
          if now - loaded < ENVELOPE_INDEX_TTL then (Inr index, cache)
          else (case built of Inl e \<Rightarrow> (Inl e, cache) | Inr new \<Rightarrow> (Inr new, Some (new, now)))
      | None \<Rightarrow> (case built of Inl e \<Rightarrow> (Inl e, cache) | Inr new \<Rightarrow> (Inr new, Some (new, now))))"

definition resolve_submission_envelope_claim ::
    "time \<Rightarrow> submission_error + envelope_index \<Rightarrow> string \<Rightarrow> index_cache \<Rightarrow> (submission_error + binding option) \<times> index_cache" where
  "resolve_submission_envelope_claim now built key cache =
     (if \<not> startswith key ''task:'' then (Inr None, cache)
      else
        map_prod (\<lambda>res. case res of
            Inl e \<Rightarrow> Inl e
          | Inr index \<Rightarrow> (case map_of index key of None \<Rightarrow> Inr None | Some (Inl _) \<Rightarrow> Inl SubmissionUnavailable | Some (Inr b) \<Rightarrow> Inr (Some b)))
          id (get_submission_envelope_index now built cache))"

text \<open>The one retained attempt of a task.\<close>

fun family_match ::
    "string \<Rightarrow> envelope_index \<Rightarrow> binding option \<Rightarrow> submission_error + binding option" where
  "family_match prefix [] found = Inr found"
| "family_match prefix ((key, candidate) # index) found =
     (if \<not> startswith key prefix then family_match prefix index found
      else
        (let attempt = drop (length prefix) key in
         if length attempt \<noteq> 32 \<or> \<not> list_all is_hex attempt then Inl SubmissionUnavailable
         else
           (case candidate of
              Inl e \<Rightarrow> Inl SubmissionUnavailable
            | Inr b \<Rightarrow> if found \<noteq> None then Inl SubmissionUnavailable else family_match prefix index (Some b))))"

definition resolve_submission_family_claim ::
    "time \<Rightarrow> submission_error + envelope_index \<Rightarrow> string \<Rightarrow> index_cache \<Rightarrow> (submission_error + binding option) \<times> index_cache" where
  "resolve_submission_family_claim now built prefix cache =
     (if \<not> startswith prefix ''task:'' \<or> \<not> endswith prefix '':attempt:'' then (Inr None, cache)
      else
        map_prod (\<lambda>res. case res of Inl e \<Rightarrow> Inl e | Inr index \<Rightarrow> family_match prefix index None) id
          (get_submission_envelope_index now built cache))"

text \<open>The exact claim, compared with the envelope where that still exists; \<open>str(x)\<close> of a field that is no text is no match.\<close>

definition field_agrees :: "json \<Rightarrow> string \<Rightarrow> bool" where
  "field_agrees v s \<longleftrightarrow> v = JNull \<or> v = JStr s"

definition resolve_submission_claim ::
    "net \<Rightarrow> time \<Rightarrow> (string \<Rightarrow> string) \<Rightarrow> time \<Rightarrow> submission_error + envelope_index \<Rightarrow> string \<Rightarrow> job_redis \<Rightarrow> index_cache
      \<Rightarrow> (submission_error + binding option) \<times> index_cache" where
  "resolve_submission_claim net clock digest now built key r cache =
     (if net \<noteq> Up then (Inl SubmissionUnavailable, cache)
      else
        (case kv_get clock (digest key) (jr_subs r) of
           None \<Rightarrow> resolve_submission_envelope_claim now built key cache
         | Some claim \<Rightarrow>
             ((case (if is_obj claim then binding_of claim else None) of
                 None \<Rightarrow> Inl SubmissionUnavailable
               | Some b \<Rightarrow>
                   (case kv_get clock (bd_job_id b) (jr_jobs r) of
                      None \<Rightarrow> Inr (Some b)
                    | Some env \<Rightarrow>
                        if is_obj env
                          \<and> field_agrees (jget_default env ''job_id'' (jget env ''id'')) (bd_job_id b)
                          \<and> field_agrees (jget env ''owner_id'') (bd_owner_id b)
                          \<and> field_agrees (jget env ''submission_key'') key
                          \<and> field_agrees (jget env ''payload_hash'') (bd_payload_hash b)
                        then Inr (Some b) else Inl SubmissionUnavailable)), cache)))"

subsection \<open>Finished jobs and the pull queue\<close>

text \<open>\<open>save_terminal_job\<close> writes without looking at what is stored.\<close>

definition terminal_snapshot ::
    "string \<Rightarrow> string \<Rightarrow> string \<Rightarrow> string \<Rightarrow> time \<Rightarrow> job_outcome \<Rightarrow> json \<Rightarrow> json" where
  "terminal_snapshot job_id session_id command owner now out redact =
     JObj [(''id'', JStr job_id), (''session_id'', JStr session_id), (''command'', JStr command),
       (''status'', JStr (oc_status out)), (''owner_id'', JStr owner), (''completed_at'', JFloat now),
       (''stdout'', JStr (oc_stdout out)), (''stderr'', JStr (oc_stderr out)),
       (''exit_code'', (case oc_exit_code out of None \<Rightarrow> JNull | Some c \<Rightarrow> JInt c)),
       (''error'', (if oc_error out = [] then JNull else JStr (oc_error out))), (''redact_path_prefix'', redact)]"

definition save_terminal_job :: "time \<Rightarrow> time \<Rightarrow> string \<Rightarrow> json \<Rightarrow> bool \<Rightarrow> job_redis \<Rightarrow> job_redis" where
  "save_terminal_job clock now job_id job_data is_failure r =
     (let r' = put_job clock job_id job_data (if is_failure then 604800 else 86400) r in
      if is_failure then r'\<lparr>jr_dead := zadd job_id now (jr_dead r')\<rparr>
      else r'\<lparr>jr_completed := zadd job_id now (jr_completed r')\<rparr>)"

definition queued_job ::
    "string \<Rightarrow> string \<Rightarrow> string \<Rightarrow> int \<Rightarrow> int \<Rightarrow> int \<Rightarrow> string \<Rightarrow> time \<Rightarrow> json" where
  "queued_job job_id session_id command priority max_retries timeout owner now =
     JObj [(''id'', JStr job_id), (''session_id'', JStr session_id), (''command'', JStr command), (''status'', JStr ''pending''),
       (''priority'', JInt priority), (''max_retries'', JInt max_retries), (''retry_count'', JInt 0), (''timeout'', JInt timeout),
       (''owner_id'', JStr owner), (''created_at'', JFloat now), (''started_at'', JNull), (''completed_at'', JNull),
       (''stdout'', JStr []), (''stderr'', JStr []), (''exit_code'', JNull), (''error'', JNull)]"

definition enqueue_job :: "time \<Rightarrow> string \<Rightarrow> json \<Rightarrow> int \<Rightarrow> job_redis \<Rightarrow> job_redis" where
  "enqueue_job clock job_id job_data priority r =
     (put_job clock job_id job_data 86400 r)\<lparr>jr_queue := zadd job_id (of_int priority) (jr_queue r)\<rparr>"

definition get_queued_job :: "time \<Rightarrow> string \<Rightarrow> job_redis \<Rightarrow> json option" where
  "get_queued_job clock job_id r =
     (case kv_get clock job_id (jr_jobs r) of Some d \<Rightarrow> if falsy d then None else Some d | None \<Rightarrow> None)"

text \<open>A job whose data is gone is dropped from the queue.\<close>

definition dequeue :: "time \<Rightarrow> time \<Rightarrow> rat \<Rightarrow> job_redis \<Rightarrow> json option \<times> job_redis" where
  "dequeue clock now lease_ttl r =
     (case zsorted (jr_queue r) of
        [] \<Rightarrow> (None, r)
      | (job_id, score) # _ \<Rightarrow>
          (let r' = r\<lparr>jr_queue := zrem job_id (jr_queue r)\<rparr> in
           case get_queued_job clock job_id r of
             None \<Rightarrow> (None, r')
           | Some d \<Rightarrow>
               (let d' = lua_set ''started_at'' (JFloat now) (lua_set ''status'' (JStr ''running'') d) in
                (Some d', (put_job clock job_id d' 86400 r')\<lparr>jr_processing := zadd job_id now (jr_processing r),
                             jr_leases := kv_set clock job_id ''1'' lease_ttl (jr_leases r)\<rparr>))))"

definition heartbeat :: "time \<Rightarrow> time \<Rightarrow> rat \<Rightarrow> string \<Rightarrow> job_redis \<Rightarrow> bool \<times> job_redis" where
  "heartbeat clock now lease_ttl job_id r =
     (if map_of (jr_processing r) job_id = None then (False, r)
      else
        (True, r\<lparr>jr_processing := zadd job_id now (jr_processing r),
                 jr_leases := (case kv_get clock job_id (jr_leases r) of
                     None \<Rightarrow> jr_leases r | Some v \<Rightarrow> kv_set clock job_id v lease_ttl (jr_leases r))\<rparr>))"

text \<open>The job leaves the processing set and its lease.\<close>

definition release_job :: "string \<Rightarrow> job_redis \<Rightarrow> job_redis" where
  "release_job job_id r = r\<lparr>jr_processing := zrem job_id (jr_processing r), jr_leases := AList.delete job_id (jr_leases r)\<rparr>"

definition complete_job :: "time \<Rightarrow> time \<Rightarrow> string \<Rightarrow> string \<Rightarrow> string \<Rightarrow> int \<Rightarrow> json \<Rightarrow> job_redis \<Rightarrow> job_redis" where
  "complete_job clock now job_id stdout stderr exit_code error r =
     (case get_queued_job clock job_id r of
        None \<Rightarrow> r
      | Some d \<Rightarrow>
          (let d' = lua_set ''error'' error (lua_set ''exit_code'' (JInt exit_code) (lua_set ''stderr'' (JStr stderr)
                 (lua_set ''stdout'' (JStr stdout) (lua_set ''completed_at'' (JFloat now)
                   (lua_set ''status'' (JStr (if exit_code = 0 then ''completed'' else ''failed'')) d)))));
               r' = release_job job_id (put_job clock job_id d' 86400 r) in
           r'\<lparr>jr_completed := zadd job_id now (jr_completed r')\<rparr>))"

text \<open>\<open>None\<close> is the \<open>KeyError\<close> for data without counters.\<close>

definition retry_job :: "time \<Rightarrow> time \<Rightarrow> string \<Rightarrow> string \<Rightarrow> job_redis \<Rightarrow> bool option \<times> job_redis" where
  "retry_job clock now job_id error r =
     (case get_queued_job clock job_id r of
        None \<Rightarrow> (Some False, r)
      | Some d \<Rightarrow>
          (case (lua_get d ''retry_count'', lua_get d ''max_retries'', lua_get d ''priority'') of
             (Some (JInt n), Some (JInt limit), Some (JInt priority)) \<Rightarrow>
               (let d = lua_set ''error'' (JStr error) (lua_set ''retry_count'' (JInt (n + 1)) d) in
                if limit \<le> n + 1 then
                  (let r' = release_job job_id (put_job clock job_id (lua_set ''status'' (JStr ''dead'') d) 604800 r) in
                   (Some False, r'\<lparr>jr_dead := zadd job_id now (jr_dead r')\<rparr>))
                else
                  (let d = lua_set ''started_at'' JNull (lua_set ''status'' (JStr ''pending'') d);
                       r' = release_job job_id (put_job clock job_id d 86400 r) in
                   (Some True, r'\<lparr>jr_queue := zadd job_id (of_int priority) (jr_queue r')\<rparr>)))
           | _ \<Rightarrow> (None, r)))"

fun recover_each :: "time \<Rightarrow> string list \<Rightarrow> nat \<Rightarrow> job_redis \<Rightarrow> nat option \<times> job_redis" where
  "recover_each clock [] n r = (Some n, r)"
| "recover_each clock (job_id # ids) n r =
     (case get_queued_job clock job_id r of
        None \<Rightarrow> recover_each clock ids n (release_job job_id r)
      | Some d \<Rightarrow>
          (case lua_get d ''priority'' of
             Some (JInt priority) \<Rightarrow>
               (let d = lua_set ''started_at'' JNull (lua_set ''status'' (JStr ''pending'') d);
                    r' = release_job job_id (put_job clock job_id d 86400 r) in
                recover_each clock ids (n + 1) (r'\<lparr>jr_queue := zadd job_id (of_int priority) (jr_queue r')\<rparr>))
           | _ \<Rightarrow> (None, r)))"

definition recover_orphans :: "time \<Rightarrow> time \<Rightarrow> rat \<Rightarrow> job_redis \<Rightarrow> nat option \<times> job_redis" where
  "recover_orphans clock now lease_ttl r = recover_each clock (zrange_by_score 0 (now - lease_ttl) (jr_processing r)) 0 r"

definition cleanup_old_jobs :: "time \<Rightarrow> rat \<Rightarrow> job_redis \<Rightarrow> job_redis" where
  "cleanup_old_jobs now max_age r =
     (let old = zrange_by_score 0 (now - max_age) (jr_completed r); dead = zrange_by_score 0 (now - max_age * 7) (jr_dead r) in
      r\<lparr>jr_jobs := fold AList.delete (old @ dead) (jr_jobs r), jr_completed := fold AList.delete old (jr_completed r),
        jr_dead := fold AList.delete dead (jr_dead r)\<rparr>)"

record queue_stats =
  qs_pending :: nat
  qs_processing :: nat
  qs_completed :: nat
  qs_dead_letter :: nat

definition get_queue_stats :: "job_redis \<Rightarrow> queue_stats" where
  "get_queue_stats r =
     \<lparr>qs_pending = length (jr_queue r), qs_processing = length (jr_processing r), qs_completed = length (jr_completed r),
      qs_dead_letter = length (jr_dead r)\<rparr>"

text \<open>The last index \<open>limit - 1\<close> is \<open>-1\<close> for a limit of zero, which means all.\<close>

definition get_dead_letter_jobs :: "time \<Rightarrow> nat \<Rightarrow> job_redis \<Rightarrow> json list" where
  "get_dead_letter_jobs clock limit r =
     List.map_filter (\<lambda>(m, s). get_queued_job clock m r)
       ((if limit = 0 then id else take limit) (rev (zsorted (jr_dead r))))"

end
