(* ===== verification/DurableJobs.thy ===== *)
theory DurableJobs
  imports JobQueue
begin

text \<open>
  What the scripts of \<open>redis_queue.py\<close> promise: the life of a durable job as an automaton, and the histories of the
  server under any number of gateways, with keys that expire or are evicted and clocks that disagree.
\<close>

subsection \<open>The specification\<close>

datatype phase =
    Unknown
  | Waiting
  | Working string rat bool
  | Ended string

datatype job_event =
    Stored
  | Taken string rat rat
  | Renewed string rat rat
  | CancelledWaiting
  | CancelAsked
  | Reported string string
  | GivenUp rat

text \<open>
  A working job has a worker, the end of its lease and possibly a request to cancel. Another worker may take it only when
  the lease is over and nobody asked to cancel; only its worker renews the lease, while it lasts, and reports the end.
\<close>

fun next_phase :: "phase \<Rightarrow> job_event \<Rightarrow> phase option" where
  "next_phase Unknown Stored = Some Waiting"
| "next_phase Waiting (Taken t now ttl) = Some (Working t (now + ttl) False)"
| "next_phase Waiting CancelledWaiting = Some (Ended ''cancelled'')"
| "next_phase (Working t e c) (Taken t' now ttl) =
     (if \<not> c \<and> (t' = t \<or> e < now) then Some (Working t' (now + ttl) False) else None)"
| "next_phase (Working t e c) (Renewed t' now ttl) = (if t' = t \<and> now \<le> e then Some (Working t (now + ttl) c) else None)"
| "next_phase (Working t e c) CancelAsked = Some (Working t e True)"
| "next_phase (Working t e c) (Reported t' s) = (if t' = t then Some (Ended s) else None)"
| "next_phase (Working t e c) (GivenUp now) = (if c \<and> e < now then Some (Ended ''ambiguous'') else None)"
| "next_phase p ev = None"

fun run_phases :: "phase \<Rightarrow> job_event list \<Rightarrow> phase option" where
  "run_phases p [] = Some p"
| "run_phases p (e # es) = (case next_phase p e of None \<Rightarrow> None | Some q \<Rightarrow> run_phases q es)"

lemma run_phases_append: "run_phases p (xs @ ys) = (case run_phases p xs of None \<Rightarrow> None | Some q \<Rightarrow> run_phases q ys)"
  by (induction xs arbitrary: p) (auto split: option.split)

text \<open>What the automaton allows.\<close>

fun taken_by :: "job_event list \<Rightarrow> string option" where
  "taken_by [] = None"
| "taken_by (e # es) = (case taken_by es of Some t \<Rightarrow> Some t | None \<Rightarrow> (case e of Taken t now ttl \<Rightarrow> Some t | _ \<Rightarrow> None))"

definition ends :: "job_event \<Rightarrow> bool" where
  "ends e \<longleftrightarrow> (case e of CancelledWaiting \<Rightarrow> True | Reported _ _ \<Rightarrow> True | GivenUp _ \<Rightarrow> True | _ \<Rightarrow> False)"

lemma run_Ended: "run_phases (Ended s) es = Some q \<Longrightarrow> es = []"
  by (cases es) auto

lemma next_ends: "next_phase p e = Some q \<Longrightarrow> ends e \<Longrightarrow> \<exists>s. q = Ended s"
  by (cases "(p, e)" rule: next_phase.cases) (auto simp: ends_def split: if_splits)

lemma run_after_end: "run_phases p (xs @ e # ys) = Some q \<Longrightarrow> ends e \<Longrightarrow> ys = []"
  by (auto simp: run_phases_append split: option.splits dest!: next_ends run_Ended)

text \<open>The worker of a working job is the one that took it last, and a job that waits was never taken.\<close>

definition worker_of :: "phase \<Rightarrow> string option" where
  "worker_of p = (case p of Working t e c \<Rightarrow> Some t | _ \<Rightarrow> None)"

lemma taken_by_snoc: "taken_by (xs @ [e]) = (case e of Taken t now ttl \<Rightarrow> Some t | _ \<Rightarrow> taken_by xs)"
  by (induction xs) (auto split: job_event.splits option.splits)

lemma run_worker:
  "run_phases Unknown es = Some p \<Longrightarrow>
     (case p of Unknown \<Rightarrow> es = [] | Waiting \<Rightarrow> taken_by es = None | Working t e c \<Rightarrow> taken_by es = Some t | Ended s \<Rightarrow> True)"
proof (induction es arbitrary: p rule: rev_induct)
  case (snoc e es)
  then obtain q where "run_phases Unknown es = Some q" "next_phase q e = Some p"
    by (auto simp: run_phases_append split: option.splits)
  then show ?case
    using snoc.IH [of q] by (cases "(q, e)" rule: next_phase.cases) (auto simp: taken_by_snoc split: if_splits)
qed simp

lemma run_reported:
  assumes "run_phases Unknown (xs @ Reported t s # ys) = Some p"
  shows "ys = [] \<and> p = Ended s \<and> taken_by xs = Some t"
proof -
  have ys: "ys = []" using run_after_end [OF assms] by (simp add: ends_def)
  obtain q where q: "run_phases Unknown xs = Some q" "next_phase q (Reported t s) = Some p"
    using assms ys by (auto simp: run_phases_append split: option.splits)
  then show ?thesis using ys run_worker [OF q(1)] by (cases q) (auto split: if_splits)
qed

lemma run_cancelled_waiting:
  assumes "run_phases Unknown (xs @ CancelledWaiting # ys) = Some p"
  shows "ys = [] \<and> taken_by (xs @ CancelledWaiting # ys) = None"
proof -
  have ys: "ys = []" using run_after_end [OF assms] by (simp add: ends_def)
  obtain q where q: "run_phases Unknown xs = Some q" "next_phase q CancelledWaiting = Some p"
    using assms ys by (auto simp: run_phases_append split: option.splits)
  then have "q = Waiting" by (cases q) auto
  then show ?thesis using ys run_worker [OF q(1)] by (simp add: taken_by_snoc)
qed

subsection \<open>Keys and envelopes\<close>

lemma kv_get_set [simp]:
  "kv_get clock k (kv_set clock' k' v ttl t) = (if k = k' then if clock < clock' + ttl then Some v else None else kv_get clock k t)"
  by (simp add: kv_get_def kv_set_def)

lemma kv_get_delete [simp]: "kv_get clock k (AList.delete k' t) = (if k = k' then None else kv_get clock k t)"
  by (simp add: kv_get_def)

lemma kv_get_Nil [simp]: "kv_get clock k [] = None"
  by (simp add: kv_get_def)

lemma kv_get_earlier: "kv_get clock' k t = Some v \<Longrightarrow> clock \<le> clock' \<Longrightarrow> kv_get clock k t = Some v"
  by (auto simp: kv_get_def split: option.splits if_splits)

lemma lua_get_set [simp]: "is_obj env \<Longrightarrow> lua_get (lua_set k v env) k' = (if k' = k then Some v else lua_get env k')"
  by (cases env) auto

lemma is_obj_set [simp]: "is_obj (lua_set k v env) = is_obj env"
  by (cases env) auto

lemma lua_str_simps [simp]: "lua_str (Some (JStr s)) = Some s" "lua_str x = Some s \<longleftrightarrow> x = Some (JStr s)"
  by (auto simp: lua_str_def split: option.splits json.splits)

lemma lua_num_float [simp]: "lua_num (Some (JFloat x)) = Some x"
  by (simp add: lua_num_def)

lemma lua_true_simps [simp]: "lua_true (Some (JFloat x))" "lua_true (Some (JBool b)) = b" "\<not> lua_true None"
  by (auto simp: lua_true_def)

text \<open>The envelope of a durable job, and its phase.\<close>

definition env_phase :: "json \<Rightarrow> phase" where
  "env_phase env =
     (if env_status env = Some ''pending'' then Waiting
      else if env_status env = Some ''processing'' then
        Working (the (lua_str (lua_get env ''worker_token''))) (the (lua_num (lua_get env ''lease_expiry'')))
          (lua_true (lua_get env ''cancel_requested''))
      else Ended (the (env_status env)))"

definition env_ok :: "string \<Rightarrow> json \<Rightarrow> bool" where
  "env_ok jid env \<longleftrightarrow>
     is_obj env \<and> lua_get env ''job_id'' = Some (JStr jid)
     \<and> (env_status env = Some ''pending'' \<and> \<not> lua_true (lua_get env ''cancel_requested'')
        \<or> env_status env = Some ''processing'' \<and> (\<exists>t e. lua_get env ''worker_token'' = Some (JStr t) \<and> lua_get env ''lease_expiry'' = Some (JFloat e))
        \<or> is_terminal env)"

lemma terminal_status: "is_terminal env \<longleftrightarrow> (\<exists>s \<in> set TERMINAL_STATUSES. env_status env = Some s)"
  by (auto simp: is_terminal_def split: option.splits)

lemma env_ok_cases:
  assumes "env_ok jid env"
  obtains (waiting) "env_status env = Some ''pending''" "\<not> is_terminal env" "env_phase env = Waiting" "\<not> lua_true (lua_get env ''cancel_requested'')"
  | (working) t e where "env_status env = Some ''processing''" "\<not> is_terminal env" "lua_get env ''worker_token'' = Some (JStr t)"
      "lua_get env ''lease_expiry'' = Some (JFloat e)" "env_phase env = Working t e (lua_true (lua_get env ''cancel_requested''))"
  | (ended) s where "is_terminal env" "env_status env = Some s" "s \<in> set TERMINAL_STATUSES" "env_phase env = Ended s"
proof -
  have "env_status env = Some ''pending'' \<or> env_status env = Some ''processing'' \<Longrightarrow> \<not> is_terminal env"
    by (auto simp: is_terminal_def TERMINAL_STATUSES_def)
  moreover have "is_terminal env \<Longrightarrow> env_status env \<noteq> Some ''pending'' \<and> env_status env \<noteq> Some ''processing''"
    by (auto simp: is_terminal_def TERMINAL_STATUSES_def)
  ultimately show thesis
    using assms that unfolding env_ok_def env_phase_def terminal_status by (elim conjE disjE) auto
qed

subsection \<open>Every script makes a step of the automaton\<close>

text \<open>
  One job changes as the event says, all others stay. The score of a job in the processing set is the time of its last
  claim or heartbeat, which is not after the end of its lease.
\<close>

definition scored :: "json \<Rightarrow> rat \<Rightarrow> bool" where
  "scored env s \<longleftrightarrow> (\<forall>t e c. env_phase env = Working t e c \<longrightarrow> 0 \<le> s \<and> s \<le> e)"

definition job_step :: "time \<Rightarrow> job_redis \<Rightarrow> string \<Rightarrow> job_event \<Rightarrow> job_redis \<Rightarrow> bool" where
  "job_step clock r jid e r' \<longleftrightarrow>
     (\<forall>k. k \<noteq> jid \<longrightarrow> map_of (jr_jobs r') k = map_of (jr_jobs r) k \<and> map_of (jr_processing r') k = map_of (jr_processing r) k)
     \<and> (\<exists>env env'. kv_get clock jid (jr_jobs r) = Some env \<and> \<not> is_terminal env \<and> kv_get clock jid (jr_jobs r') = Some env'
          \<and> env_ok jid env' \<and> next_phase (env_phase env) e = Some (env_phase env')
          \<and> (\<forall>s. map_of (jr_processing r') jid = Some s \<longrightarrow> scored env' s \<or> map_of (jr_processing r) jid = Some s \<and> (scored env s \<longrightarrow> scored env' s)))"

lemma job_stepI:
  assumes "kv_get clock jid (jr_jobs r) = Some env" "\<not> is_terminal env" "jr_jobs r' = kv_set clock jid env' ttl (jr_jobs r)" "0 < ttl"
    and "env_ok jid env'" "next_phase (env_phase env) e = Some (env_phase env')"
    and "\<And>k. k \<noteq> jid \<Longrightarrow> map_of (jr_processing r') k = map_of (jr_processing r) k"
    and "\<And>s. map_of (jr_processing r') jid = Some s \<Longrightarrow> scored env' s \<or> map_of (jr_processing r) jid = Some s \<and> (scored env s \<longrightarrow> scored env' s)"
  shows "job_step clock r jid e r'"
proof -
  have "map_of (jr_jobs r') k = map_of (jr_jobs r) k" if "k \<noteq> jid" for k using assms(3) that by (simp add: kv_set_def)
  moreover have "kv_get clock jid (jr_jobs r') = Some env'" using assms(3,4) by simp
  ultimately show ?thesis unfolding job_step_def using assms(1,2,5-8) by blast
qed

text \<open>What the scripts look at, and what they write.\<close>

lemmas env_writes = taken_def renewed_def cancelled_waiting_def finished_env_def ambiguous_env_def Let_def

lemma env_status_set [simp]:
  "is_obj env \<Longrightarrow> env_status (lua_set k v env) = (if k = ''status'' then lua_str (Some v) else env_status env)"
  by (simp add: env_status_def del: lua_str_simps)

lemma env_okD:
  assumes "env_ok jid env"
  shows "is_obj env" "lua_get env ''job_id'' = Some (JStr jid)"
  using assms by (simp_all add: env_ok_def)

lemma taken_env:
  assumes "env_ok jid env" "\<not> lua_true (lua_get env ''cancel_requested'')"
  shows "env_ok jid (taken now ttl token env) \<and> env_phase (taken now ttl token env) = Working token (now + ttl) False"
  using env_okD [OF assms(1)] assms(2) by (simp add: env_ok_def env_phase_def env_writes)

lemma renewed_env:
  assumes "env_ok jid env" "env_phase env = Working t e c" "\<not> is_terminal env" "env_status env = Some ''processing''"
  shows "env_ok jid (renewed now ttl env) \<and> env_phase (renewed now ttl env) = Working t (now + ttl) c"
proof -
  from assms(1) have "lua_get env ''worker_token'' = Some (JStr t) \<and> lua_true (lua_get env ''cancel_requested'') = c"
    by (cases rule: env_ok_cases) (use assms in simp_all)
  then show ?thesis using env_okD [OF assms(1)] assms(4) by (simp add: env_ok_def env_phase_def env_writes)
qed

lemma lease_job_step:
  assumes "lease_job clock now ttl token jid env' r = (a, r')" "env_ok jid env'" "env_phase env' = Working token (now + ttl) c"
    "0 \<le> now" "0 \<le> ttl"
    and "kv_get clock jid (jr_jobs r) = Some env" "\<not> is_terminal env" "next_phase (env_phase env) e = Some (env_phase env')"
  shows "a = Some True \<and> job_step clock r jid e r'"
proof -
  have r': "a = Some True" "jr_jobs r' = kv_set clock jid env' 86400 (jr_jobs r)" "jr_processing r' = zadd jid now (jr_processing r)"
    using assms(1) env_okD [OF assms(2)] by (auto simp: lease_job_def Let_def put_job_def)
  have "scored env' now" using assms(3-5) by (simp add: scored_def)
  then have "job_step clock r jid e r'"
    using r' by (intro job_stepI [OF assms(6,7) r'(2) _ assms(2,8)]) (auto simp: zadd_def)
  then show ?thesis using r'(1) by simp
qed

lemma claim_step:
  assumes "claim_script clock now ttl token jid r = (a, r')" "\<forall>env. kv_get clock jid (jr_jobs r) = Some env \<longrightarrow> is_terminal env \<or> env_ok jid env"
    "0 \<le> now" "0 \<le> ttl"
  shows "a = Some True \<and> job_step clock r jid (Taken token now ttl) r' \<or> a = Some False \<and> r' = r"
proof (cases "kv_get clock jid (jr_jobs r)")
  case None
  then show ?thesis using assms(1) by (simp add: claim_script_def)
next
  case (Some env)
  show ?thesis
  proof (cases "is_terminal env")
    case True
    then show ?thesis using assms(1) Some by (simp add: claim_script_def)
  next
    case False
    then have ok: "env_ok jid env" using assms(2) Some by blast
    from ok False show ?thesis
    proof (cases rule: env_ok_cases)
      case waiting
      note new = taken_env [OF ok waiting(4), of now ttl token]
      have run: "lease_job clock now ttl token jid (taken now ttl token env) r = (a, r')"
        using assms(1) Some False waiting(1) by (simp add: claim_script_def Let_def)
      show ?thesis using lease_job_step [OF run _ _ assms(3,4) Some False, where e = "Taken token now ttl" and c = False] new waiting(3) by simp
    next
      case (working t e)
      let ?c = "lua_true (lua_get env ''cancel_requested'')"
      consider "?c \<or> t \<noteq> token \<and> now \<le> e" | "\<not> ?c" "t = token" | "\<not> ?c" "t \<noteq> token" "e < now" by fastforce
      then show ?thesis
      proof cases
        case 1
        then show ?thesis using assms(1) Some False working(1,3,4) by (auto simp: claim_script_def Let_def split: if_splits)
      next
        case 2
        note new = renewed_env [OF ok working(5) False working(1), of now ttl]
        have run: "lease_job clock now ttl token jid (renewed now ttl env) r = (a, r')"
          using assms(1) Some False working 2 by (simp add: claim_script_def Let_def)
        show ?thesis using lease_job_step [OF run _ _ assms(3,4) Some False, where e = "Taken token now ttl" and c = False] new working(5) 2 by simp
      next
        case 3
        note new = taken_env [OF ok 3(1), of now ttl token]
        have run: "lease_job clock now ttl token jid (taken now ttl token env) r = (a, r')"
          using assms(1) Some False working 3 by (simp add: claim_script_def Let_def)
        show ?thesis using lease_job_step [OF run _ _ assms(3,4) Some False, where e = "Taken token now ttl" and c = False] new working(5) 3 by simp
      qed
    next
      case (ended s)
      then show ?thesis using False by simp
    qed
  qed
qed

lemma heartbeat_step:
  assumes "heartbeat_script clock now ttl token jid r = (a, r')" "\<forall>env. kv_get clock jid (jr_jobs r) = Some env \<longrightarrow> is_terminal env \<or> env_ok jid env"
    "0 \<le> now" "0 \<le> ttl"
  shows "a = Some True \<and> job_step clock r jid (Renewed token now ttl) r' \<or> a = Some False \<and> r' = r"
proof (cases "\<exists>env. kv_get clock jid (jr_jobs r) = Some env \<and> env_status env = Some ''processing''
    \<and> lua_get env ''worker_token'' = Some (JStr token)")
  case False
  then show ?thesis using assms(1) by (auto simp: heartbeat_script_def split: option.splits)
next
  case True
  then obtain env where env: "kv_get clock jid (jr_jobs r) = Some env" "env_status env = Some ''processing''"
      "lua_get env ''worker_token'' = Some (JStr token)" by blast
  then have live: "\<not> is_terminal env" by (auto simp: is_terminal_def TERMINAL_STATUSES_def)
  then have ok: "env_ok jid env" using assms(2) env by blast
  then obtain e where e: "lua_get env ''lease_expiry'' = Some (JFloat e)" using env(2) live by (auto simp: env_ok_def)
  then have phase: "env_phase env = Working token e (lua_true (lua_get env ''cancel_requested''))"
    using env by (simp add: env_phase_def)
  show ?thesis
  proof (cases "e < now")
    case True
    then show ?thesis using assms(1) env e by (simp add: heartbeat_script_def)
  next
    case False
    note new = renewed_env [OF ok phase live env(2), of now ttl]
    have run: "lease_job clock now ttl token jid (renewed now ttl env) r = (a, r')"
      using assms(1) env e False by (simp add: heartbeat_script_def)
    show ?thesis using lease_job_step [OF run _ _ assms(3,4) env(1) live, where e = "Renewed token now ttl"] new phase False by simp
  qed
qed

text \<open>The ends of a job.\<close>

lemma ended_env:
  assumes "is_obj env" "lua_get env ''job_id'' = Some (JStr jid)" "env_status env = Some st" "st \<in> set TERMINAL_STATUSES"
  shows "env_ok jid env \<and> env_phase env = Ended st"
proof -
  have "is_terminal env" using assms(3,4) by (simp add: is_terminal_def)
  moreover have "st \<noteq> ''pending''" "st \<noteq> ''processing''" using assms(4) by (auto simp: TERMINAL_STATUSES_def)
  ultimately show ?thesis using assms by (simp add: env_ok_def env_phase_def)
qed

lemma end_job_step:
  assumes "kv_get clock jid (jr_jobs r) = Some env" "\<not> is_terminal env" "env_ok jid env'" "env_phase env' = Ended st"
    "next_phase (env_phase env) e = Some (Ended st)"
  shows "job_step clock r jid e (end_job clock now jid jid done_ok env' r)"
  using assms by (intro job_stepI [OF assms(1,2), where env' = env' and ttl = 604800])
    (auto simp: end_job_def put_job_def Let_def zrem_def split: if_splits)

text \<open>What a cancellation does to the job it finds.\<close>

definition cancel_event :: "string \<Rightarrow> time \<Rightarrow> job_redis \<Rightarrow> (string \<times> job_event) list" where
  "cancel_event jid clock r =
     (case kv_get clock jid (jr_jobs r) of
        None \<Rightarrow> []
      | Some env \<Rightarrow>
          if env_status env = Some ''pending'' then [(jid, CancelledWaiting)]
          else if env_status env = Some ''processing'' then [(jid, CancelAsked)] else [])"

lemma cancel_step:
  assumes "cancel_script clock now jid r = (a, r')" "\<forall>env. kv_get clock jid (jr_jobs r) = Some env \<longrightarrow> is_terminal env \<or> env_ok jid env"
  shows "a = Some ''cancelled'' \<and> job_step clock r jid CancelledWaiting r' \<or> a = Some ''cancelling'' \<and> job_step clock r jid CancelAsked r'
    \<or> r' = r \<and> (\<exists>s. a = Some s \<and> (s = [] \<or> s \<in> set TERMINAL_STATUSES)) \<and> cancel_event jid clock r = []"
proof (cases "kv_get clock jid (jr_jobs r)")
  case None
  then show ?thesis using assms(1) by (auto simp: cancel_script_def cancel_event_def)
next
  case (Some env)
  show ?thesis
  proof (cases "is_terminal env")
    case True
    then show ?thesis using assms(1) Some
      by (auto simp: cancel_script_def cancel_event_def terminal_status TERMINAL_STATUSES_def)
  next
    case False
    then have ok: "env_ok jid env" using assms(2) Some by blast
    note obj = env_okD [OF ok]
    from ok False show ?thesis
    proof (cases rule: env_ok_cases)
      case waiting
      have new: "env_ok jid (cancelled_waiting now env) \<and> env_phase (cancelled_waiting now env) = Ended ''cancelled''"
        by (rule ended_env) (use obj in \<open>simp_all add: cancelled_waiting_def TERMINAL_STATUSES_def\<close>)
      have run: "a = Some ''cancelled''" "r' = end_job clock now jid jid False (cancelled_waiting now env) r"
        using assms(1) Some False waiting(1) obj(2) by (simp_all add: cancel_script_def)
      have "job_step clock r jid CancelledWaiting r'"
        unfolding run(2) by (rule end_job_step [OF Some False]) (use new waiting(3) in simp_all)
      then show ?thesis using run(1) by simp
    next
      case (working t e)
      let ?env = "lua_set ''cancel_requested'' (JBool True) env"
      have run: "a = Some ''cancelling''" "r' = put_job clock jid ?env 86400 r"
        using assms(1) Some False working(1) by (simp_all add: cancel_script_def)
      have new: "env_ok jid ?env" "env_phase ?env = Working t e True"
        using ok obj working by (simp_all add: env_ok_def env_phase_def)
      have "job_step clock r jid CancelAsked r'"
        unfolding run(2) using new working(5)
        by (intro job_stepI [OF Some False, where env' = ?env and ttl = 86400]) (auto simp: put_job_def scored_def)
      then show ?thesis using run(1) by simp
    next
      case (ended s)
      then show ?thesis using False by simp
    qed
  qed
qed

lemma finished_env_fields:
  assumes "is_obj env"
  shows "is_obj (finished_env now out env)" "lua_get (finished_env now out env) ''job_id'' = lua_get env ''job_id''"
    "env_status (finished_env now out env) = Some (oc_status out)"
  using assms by (simp_all add: finished_env_def Let_def split: option.split)

lemma finish_step:
  assumes "finish_script clock now token out jid r = (a, r')" "\<forall>env. kv_get clock jid (jr_jobs r) = Some env \<longrightarrow> is_terminal env \<or> env_ok jid env"
    "oc_status out \<in> set TERMINAL_STATUSES"
  shows "a = Some True \<and> job_step clock r jid (Reported token (oc_status out)) r' \<or> a = Some False \<and> r' = r"
proof (cases "\<exists>env. kv_get clock jid (jr_jobs r) = Some env \<and> env_status env = Some ''processing''
    \<and> lua_get env ''worker_token'' = Some (JStr token)")
  case False
  then show ?thesis using assms(1) by (auto simp: finish_script_def split: option.splits)
next
  case True
  then obtain env where env: "kv_get clock jid (jr_jobs r) = Some env" "env_status env = Some ''processing''"
      "lua_get env ''worker_token'' = Some (JStr token)" by blast
  then have live: "\<not> is_terminal env" by (auto simp: is_terminal_def TERMINAL_STATUSES_def)
  then have ok: "env_ok jid env" using assms(2) env by blast
  note obj = env_okD [OF ok]
  have phase: "\<exists>e c. env_phase env = Working token e c" using env by (simp add: env_phase_def)
  have new: "env_ok jid (finished_env now out env) \<and> env_phase (finished_env now out env) = Ended (oc_status out)"
    by (rule ended_env) (use obj assms(3) finished_env_fields [OF obj(1)] in simp_all)
  have run: "a = Some True" "r' = end_job clock now jid jid (oc_status out = ''completed'') (finished_env now out env) r"
    using assms(1) env obj(2) by (simp_all add: finish_script_def)
  have "job_step clock r jid (Reported token (oc_status out)) r'"
    unfolding run(2) by (rule end_job_step [OF env(1) live]) (use new phase in auto)
  then show ?thesis using run(1) by simp
qed

lemma ambiguous_env_fields:
  assumes "is_obj env"
  shows "is_obj (ambiguous_env now env)" "lua_get (ambiguous_env now env) ''job_id'' = lua_get env ''job_id''"
    "env_status (ambiguous_env now env) = Some ''ambiguous''"
  using assms by (simp_all add: ambiguous_env_def Let_def)

lemma give_up_step:
  assumes "kv_get clock jid (jr_jobs r) = Some env" "env_ok jid env" "env_status env = Some ''processing''"
    "lua_true (lua_get env ''cancel_requested'')"
  shows "\<exists>b. expired_env now env = Some b \<and> (b \<longrightarrow> job_step clock r jid (GivenUp now) (end_job clock now jid jid False (ambiguous_env now env) r))"
proof -
  have live: "\<not> is_terminal env" using assms(3) by (auto simp: is_terminal_def TERMINAL_STATUSES_def)
  then obtain t e where env: "lua_get env ''worker_token'' = Some (JStr t)" "lua_get env ''lease_expiry'' = Some (JFloat e)"
    using assms(2,3) by (auto simp: env_ok_def)
  then have phase: "env_phase env = Working t e True" using assms(3,4) by (simp add: env_phase_def)
  note obj = env_okD [OF assms(2)]
  have new: "env_ok jid (ambiguous_env now env) \<and> env_phase (ambiguous_env now env) = Ended ''ambiguous''"
    by (rule ended_env) (use obj ambiguous_env_fields [OF obj(1)] in \<open>simp_all add: TERMINAL_STATUSES_def\<close>)
  have "job_step clock r jid (GivenUp now) (end_job clock now jid jid False (ambiguous_env now env) r)" if "e < now"
    by (rule end_job_step [OF assms(1) live]) (use new phase that in simp_all)
  then show ?thesis using env(2) by (simp add: expired_env_def)
qed

subsection \<open>Histories\<close>

text \<open>The envelope that \<open>create_job\<close> of \<open>job_manager.py\<close> reserves with a submission key.\<close>

definition job_envelope ::
    "string \<Rightarrow> string \<Rightarrow> string \<Rightarrow> string \<Rightarrow> string \<Rightarrow> int \<Rightarrow> string \<Rightarrow> json \<Rightarrow> string \<Rightarrow> time \<Rightarrow> json" where
  "job_envelope job_id key session_id command stdin_b64 timeout owner redact payload now =
     JObj [(''version'', JInt 1), (''job_id'', JStr job_id), (''submission_key'', JStr key), (''session_id'', JStr session_id),
       (''command'', JStr command), (''stdin_b64'', JStr stdin_b64), (''timeout'', JInt timeout), (''owner_id'', JStr owner),
       (''redact_path_prefix'', redact), (''payload_hash'', JStr payload), (''status'', JStr ''pending''),
       (''created_at'', JFloat now), (''queued_at'', JFloat now), (''started_at'', JNull), (''claimed_at'', JNull),
       (''finished_at'', JNull), (''worker_token'', JNull), (''lease_expiry'', JNull), (''last_heartbeat'', JNull),
       (''stdout'', JStr []), (''stderr'', JStr []), (''exit_code'', JNull), (''error'', JNull), (''cancel_requested'', JBool False)]"

text \<open>What a reservation stores in the table of the jobs.\<close>

lemma reserve_script_jobs:
  "jr_jobs (snd (reserve_script clock key jid owner payload claim env r))
     = (if kv_get clock jid (jr_jobs r) = None then kv_set clock jid env SUBMISSION_TTL (jr_jobs r) else jr_jobs r)"
  "jr_processing (snd (reserve_script clock key jid owner payload claim env r)) = jr_processing r"
  by (auto simp: reserve_script_def kv_set_nx_def Let_def split: option.split)

lemma redis_eval_cases: "snd (redis_eval net f r) = r \<or> snd (redis_eval net f r) = snd (f r)"
  by (cases net) (auto simp: redis_eval_def)

lemma reserve_tries_jobs:
  "reserve_tries nets clock key jid owner payload claim env r = (res, r') \<Longrightarrow> kv_get clock jid (jr_jobs r) \<in> {None, Some env} \<Longrightarrow>
     jr_processing r' = jr_processing r \<and>
     (jr_jobs r' = jr_jobs r \<or> kv_get clock jid (jr_jobs r) = None \<and> jr_jobs r' = kv_set clock jid env SUBMISSION_TTL (jr_jobs r))"
proof (induction nets arbitrary: r)
  case (Cons net nets)
  let ?script = "reserve_script clock key jid owner payload claim env"
  obtain a g where run: "redis_eval net ?script r = (a, g)" by fastforce
  have g: "jr_processing g = jr_processing r"
      "jr_jobs g = jr_jobs r \<or> kv_get clock jid (jr_jobs r) = None \<and> jr_jobs g = kv_set clock jid env SUBMISSION_TTL (jr_jobs r)"
    using redis_eval_cases [of net ?script r] run reserve_script_jobs [of clock key jid owner payload claim env r]
    by (auto split: if_splits)
  then have "kv_get clock jid (jr_jobs g) \<in> {None, Some env}" using Cons.prems(2) by (auto simp: SUBMISSION_TTL_def)
  moreover have "r' = g \<or> reserve_tries nets clock key jid owner payload claim env g = (res, r')"
    using Cons.prems(1) run by (auto split: option.splits reserve_reply.splits if_splits)
  moreover have "kv_get clock jid (jr_jobs g) \<noteq> None" if "jr_jobs g \<noteq> jr_jobs r" using g(2) that by (auto simp: SUBMISSION_TTL_def)
  ultimately show ?case using g Cons.IH [of g] by (auto simp: SUBMISSION_TTL_def)
qed simp

text \<open>
  The histories: the log holds what the server has done to durable jobs. Identifiers are fresh. Keys other than those of the
  jobs and the processing set may change in every way.
\<close>

definition events :: "string \<Rightarrow> (string \<times> job_event) list \<Rightarrow> job_event list" where
  "events jid hist = map snd (filter (\<lambda>(k, e). k = jid) hist)"

inductive job_history :: "(string \<times> job_event) list \<Rightarrow> time \<Rightarrow> job_redis \<Rightarrow> bool" where
  start: "job_history [] clock no_jobs"
| tick: "job_history hist clock r \<Longrightarrow> clock \<le> clock' \<Longrightarrow> job_history hist clock' r"
| evict: "job_history hist clock r \<Longrightarrow> job_history hist clock (r\<lparr>jr_jobs := AList.delete k (jr_jobs r)\<rparr>)"
| elsewhere: "job_history hist clock r \<Longrightarrow> jr_jobs r' = jr_jobs r \<Longrightarrow> jr_processing r' = jr_processing r \<Longrightarrow> job_history hist clock r'"
| reserve: "job_history hist clock r \<Longrightarrow> jid \<notin> fst ` set hist \<Longrightarrow> map_of (jr_jobs r) jid = None
    \<Longrightarrow> reserve_submission_with_job nets clock now key jid owner payload
          (job_envelope jid skey session_id command stdin_b64 timeout owner redact payload now) r = (res, r')
    \<Longrightarrow> job_history (hist @ (if map_of (jr_jobs r') jid = None then [] else [(jid, Stored)])) clock r'"
| claim: "job_history hist clock r \<Longrightarrow> 0 \<le> now \<Longrightarrow> 0 \<le> ttl \<Longrightarrow> claim_script clock now ttl token jid r = (a, r')
    \<Longrightarrow> job_history (hist @ (if a = Some True then [(jid, Taken token now ttl)] else [])) clock r'"
| heartbeat: "job_history hist clock r \<Longrightarrow> 0 \<le> now \<Longrightarrow> 0 \<le> ttl \<Longrightarrow> heartbeat_script clock now ttl token jid r = (a, r')
    \<Longrightarrow> job_history (hist @ (if a = Some True then [(jid, Renewed token now ttl)] else [])) clock r'"
| cancel: "job_history hist clock r \<Longrightarrow> cancel_script clock now jid r = (s, r')
    \<Longrightarrow> job_history (hist @ cancel_event jid clock r) clock r'"
| finish: "job_history hist clock r \<Longrightarrow> oc_status out \<in> set TERMINAL_STATUSES \<Longrightarrow> finish_script clock now token out jid r = (a, r')
    \<Longrightarrow> job_history (hist @ (if a = Some True then [(jid, Reported token (oc_status out))] else [])) clock r'"
| reconcile: "job_history hist clock r \<Longrightarrow> reconcile_script clock now r = (js, r')
    \<Longrightarrow> job_history (hist @ (case js of None \<Rightarrow> [] | Some ids \<Rightarrow> map (\<lambda>j. (j, GivenUp now)) ids)) clock r'"
| snapshot: "job_history hist clock r \<Longrightarrow> jid \<notin> fst ` set hist \<Longrightarrow> is_terminal data
    \<Longrightarrow> job_history hist clock (save_terminal_job clock now jid data failed r)"

text \<open>The abstract phase of each job, as long as its key exists.\<close>

definition durable_ok :: "(string \<times> job_event) list \<Rightarrow> time \<Rightarrow> job_redis \<Rightarrow> bool" where
  "durable_ok hist clock r \<longleftrightarrow>
     (\<forall>jid. \<exists>p. run_phases Unknown (events jid hist) = Some p
        \<and> (\<forall>env. kv_get clock jid (jr_jobs r) = Some env \<longrightarrow>
             (if events jid hist = [] then is_terminal env else env_ok jid env \<and> env_phase env = p)
             \<and> (\<forall>s. map_of (jr_processing r) jid = Some s \<longrightarrow> scored env s)))"

lemma events_append [simp]: "events jid (xs @ ys) = events jid xs @ events jid ys"
  by (simp add: events_def)

lemma events_one [simp]: "events jid [(k, e)] = (if k = jid then [e] else [])" "events jid [] = []"
  by (simp_all add: events_def)

lemma events_None: "jid \<notin> fst ` set hist \<Longrightarrow> events jid hist = []"
  by (force simp: events_def filter_empty_conv)

lemma durable_ok_envs: "durable_ok hist clock r \<Longrightarrow> \<forall>env. kv_get clock jid (jr_jobs r) = Some env \<longrightarrow> is_terminal env \<or> env_ok jid env"
  unfolding durable_ok_def by (metis (mono_tags, lifting))

lemma kv_get_cong: "map_of t k = map_of t' k \<Longrightarrow> kv_get clock k t = kv_get clock k t'"
  by (simp add: kv_get_def)

lemma durable_ok_step:
  assumes "durable_ok hist clock r" "job_step clock r jid e r'"
  shows "durable_ok (hist @ [(jid, e)]) clock r'"
  unfolding durable_ok_def
proof
  fix k
  from assms(1) obtain p where p: "run_phases Unknown (events k hist) = Some p"
      "\<And>env. kv_get clock k (jr_jobs r) = Some env \<Longrightarrow> (if events k hist = [] then is_terminal env else env_ok k env \<and> env_phase env = p)
         \<and> (\<forall>s. map_of (jr_processing r) k = Some s \<longrightarrow> scored env s)"
    unfolding durable_ok_def by blast
  show "\<exists>p. run_phases Unknown (events k (hist @ [(jid, e)])) = Some p
        \<and> (\<forall>env. kv_get clock k (jr_jobs r') = Some env \<longrightarrow>
             (if events k (hist @ [(jid, e)]) = [] then is_terminal env else env_ok k env \<and> env_phase env = p)
             \<and> (\<forall>s. map_of (jr_processing r') k = Some s \<longrightarrow> scored env s))"
  proof (cases "k = jid")
    case False
    then have "map_of (jr_jobs r') k = map_of (jr_jobs r) k" "map_of (jr_processing r') k = map_of (jr_processing r) k"
      using assms(2) by (auto simp: job_step_def)
    then show ?thesis using p False kv_get_cong [of "jr_jobs r'" k "jr_jobs r"] by auto
  next
    case True
    from assms(2) obtain env env' where env: "kv_get clock jid (jr_jobs r) = Some env" "\<not> is_terminal env"
        "kv_get clock jid (jr_jobs r') = Some env'" "env_ok jid env'" "next_phase (env_phase env) e = Some (env_phase env')"
        "\<And>s. map_of (jr_processing r') jid = Some s \<Longrightarrow> scored env' s \<or> map_of (jr_processing r) jid = Some s \<and> (scored env s \<longrightarrow> scored env' s)"
      unfolding job_step_def by blast
    have "env_phase env = p" using p(2) [of env] env(1,2) True by (auto split: if_splits)
    then have "run_phases Unknown (events k hist @ [e]) = Some (env_phase env')"
      using p(1) env(5) by (simp add: run_phases_append)
    moreover have "map_of (jr_processing r') k = Some s \<Longrightarrow> scored env' s" for s
      using env(6) [of s] p(2) [of env] env(1) True by auto
    ultimately show ?thesis using env(3,4) True by auto
  qed
qed

text \<open>Changes that lose keys.\<close>

lemma durable_ok_less:
  assumes "durable_ok hist clock r" "\<And>k v. kv_get clock' k (jr_jobs r') = Some v \<Longrightarrow> kv_get clock k (jr_jobs r) = Some v"
    "jr_processing r' = jr_processing r"
  shows "durable_ok hist clock' r'"
  using assms unfolding durable_ok_def by metis

lemma durable_ok_new:
  assumes "durable_ok hist clock r" "events jid hist = []" "jr_jobs r' = kv_set clock jid env ttl (jr_jobs r)" "jr_processing r' = jr_processing r"
    and "es = [] \<and> is_terminal env \<or> es = [(jid, Stored)] \<and> env_ok jid env \<and> env_phase env = Waiting"
  shows "durable_ok (hist @ es) clock r'"
  unfolding durable_ok_def
proof
  fix k
  from assms(1) obtain p where p: "run_phases Unknown (events k hist) = Some p"
      "\<And>env. kv_get clock k (jr_jobs r) = Some env \<Longrightarrow> (if events k hist = [] then is_terminal env else env_ok k env \<and> env_phase env = p)
         \<and> (\<forall>s. map_of (jr_processing r) k = Some s \<longrightarrow> scored env s)"
    unfolding durable_ok_def by blast
  show "\<exists>p. run_phases Unknown (events k (hist @ es)) = Some p
        \<and> (\<forall>env. kv_get clock k (jr_jobs r') = Some env \<longrightarrow>
             (if events k (hist @ es) = [] then is_terminal env else env_ok k env \<and> env_phase env = p)
             \<and> (\<forall>s. map_of (jr_processing r') k = Some s \<longrightarrow> scored env s))"
  proof (cases "k = jid")
    case False
    then have "events k es = []" using assms(5) by auto
    then show ?thesis using False p assms(3,4) by auto
  next
    case True
    have "scored env s" for s
      using assms(5) by (auto simp: scored_def env_phase_def is_terminal_def TERMINAL_STATUSES_def)
    then show ?thesis using True assms(2-5) by auto
  qed
qed

lemma reconcile_ok:
  "reconcile_loop clock now jids acc r = (res, r') \<Longrightarrow> durable_ok hist clock r
    \<Longrightarrow> \<exists>js. res = Some (acc @ js) \<and> durable_ok (hist @ map (\<lambda>j. (j, GivenUp now)) js) clock r'"
proof (induction jids arbitrary: acc r hist)
  case Nil
  then show ?case by (auto intro!: exI [of _ "[]"])
next
  case (Cons jid jids)
  show ?case
  proof (cases "kv_get clock jid (jr_jobs r)")
    case None
    then show ?thesis using Cons.IH [of acc r hist] Cons.prems by simp
  next
    case (Some env)
    show ?thesis
    proof (cases "env_status env = Some ''processing'' \<and> lua_true (lua_get env ''cancel_requested'')")
      case False
      then show ?thesis using Cons.IH [of acc r hist] Cons.prems Some by auto
    next
      case True
      then have "\<not> is_terminal env" by (auto simp: is_terminal_def TERMINAL_STATUSES_def)
      then have "env_ok jid env" using durable_ok_envs [OF Cons.prems(2)] Some by blast
      with True obtain b where b: "expired_env now env = Some b"
          "b \<Longrightarrow> job_step clock r jid (GivenUp now) (end_job clock now jid jid False (ambiguous_env now env) r)"
        using give_up_step [OF Some] by blast
      show ?thesis
      proof (cases b)
        case False
        then show ?thesis using Cons.IH [of acc r hist] Cons.prems Some True b(1) by simp
      next
        case yes: True
        let ?g = "end_job clock now jid jid False (ambiguous_env now env) r"
        have "durable_ok (hist @ [(jid, GivenUp now)]) clock ?g" using durable_ok_step [OF Cons.prems(2) b(2) [OF yes]] .
        moreover have "reconcile_loop clock now jids (acc @ [jid]) ?g = (res, r')" using Cons.prems(1) Some True b(1) yes by simp
        ultimately show ?thesis using Cons.IH [of "acc @ [jid]" ?g "hist @ [(jid, GivenUp now)]"]
          by (metis append_Cons append_Nil append_assoc list.simps(9))
      qed
    qed
  qed
qed

lemma job_envelope_ok:
  "env_ok jid (job_envelope jid skey session_id command stdin_b64 timeout owner redact payload now)"
  "env_phase (job_envelope jid skey session_id command stdin_b64 timeout owner redact payload now) = Waiting"
  by (simp_all add: env_ok_def job_envelope_def env_status_def env_phase_def lua_true_def)

lemma job_history_ok: "job_history hist clock r \<Longrightarrow> durable_ok hist clock r"
proof (induction rule: job_history.induct)
  case (start clock)
  then show ?case by (simp add: durable_ok_def no_jobs_def)
next
  case (tick hist clock r clock')
  show ?case by (rule durable_ok_less [OF tick.IH]) (use kv_get_earlier tick.hyps in auto)
next
  case (evict hist clock r k)
  show ?case by (rule durable_ok_less [OF evict.IH]) (auto split: if_splits)
next
  case (elsewhere hist clock r r')
  show ?case by (rule durable_ok_less [OF elsewhere.IH]) (use elsewhere.hyps in auto)
next
  case (reserve hist clock r jid nets now key owner payload skey session_id command stdin_b64 timeout redact res r')
  let ?env = "job_envelope jid skey session_id command stdin_b64 timeout owner redact payload now"
  have none: "kv_get clock jid (jr_jobs r) = None" using reserve.hyps(3) by (simp add: kv_get_def)
  have stored: "jr_processing r' = jr_processing r"
      "jr_jobs r' = jr_jobs r \<or> jr_jobs r' = kv_set clock jid ?env SUBMISSION_TTL (jr_jobs r)"
    using reserve.hyps(4) none reserve_tries_jobs [of _ clock key jid owner payload "submission_claim jid owner payload now" ?env r res r']
    by (auto simp: reserve_submission_with_job_def simp del: reserve_tries.simps split: prod.splits)
  show ?case
  proof (cases "map_of (jr_jobs r') jid = None")
    case True
    then have "jr_jobs r' = jr_jobs r" using stored(2) by (auto simp: kv_set_def)
    then show ?thesis using True stored(1) durable_ok_less [OF reserve.IH, of clock r'] by simp
  next
    case False
    then have "jr_jobs r' = kv_set clock jid ?env SUBMISSION_TTL (jr_jobs r)" using stored(2) reserve.hyps(3) by auto
    from durable_ok_new [OF reserve.IH events_None [OF reserve.hyps(2)] this stored(1), of "[(jid, Stored)]"] False
    show ?thesis by (auto simp: job_envelope_ok)
  qed
next
  case (claim hist clock r now ttl token jid a r')
  then show ?case using claim_step [OF claim.hyps(4) durable_ok_envs] durable_ok_step by fastforce
next
  case (heartbeat hist clock r now ttl token jid a r')
  then show ?case using heartbeat_step [OF heartbeat.hyps(4) durable_ok_envs] durable_ok_step by fastforce
next
  case (cancel hist clock r now jid s r')
  note ok = cancel.IH
  show ?case
    using cancel_step [OF cancel.hyps(2) durable_ok_envs [OF ok]]
  proof (elim disjE conjE)
    assume "job_step clock r jid CancelledWaiting r'"
    moreover from this have "cancel_event jid clock r = [(jid, CancelledWaiting)]"
      by (auto simp: job_step_def cancel_event_def env_phase_def split: if_splits)
    ultimately show ?thesis using durable_ok_step [OF ok] by simp
  next
    assume "job_step clock r jid CancelAsked r'"
    moreover from this have "cancel_event jid clock r = [(jid, CancelAsked)]"
      by (auto simp: job_step_def cancel_event_def env_phase_def split: if_splits)
    ultimately show ?thesis using durable_ok_step [OF ok] by simp
  next
    assume "r' = r" "cancel_event jid clock r = []"
    then show ?thesis using ok by simp
  qed
next
  case (finish hist clock r out now token jid a r')
  then show ?case using finish_step [OF finish.hyps(3) durable_ok_envs] durable_ok_step by fastforce
next
  case (reconcile hist clock r now js r')
  have run: "reconcile_loop clock now (zrange_by_score 0 now (jr_processing r)) [] r = (js, r')"
    using reconcile.hyps(2) by (simp add: reconcile_script_def)
  from reconcile_ok [OF run reconcile.IH] show ?case by auto
next
  case (snapshot hist clock r jid data now failed)
  have "jr_jobs (save_terminal_job clock now jid data failed r) = kv_set clock jid data (if failed then 604800 else 86400) (jr_jobs r)"
      "jr_processing (save_terminal_job clock now jid data failed r) = jr_processing r"
    by (simp_all add: save_terminal_job_def put_job_def Let_def)
  from durable_ok_new [OF snapshot.IH events_None [OF snapshot.hyps(2)] this, of "[]"] snapshot.hyps(3)
  show ?case by simp
qed

text \<open>C27: The scripts implement the life of a durable job: in every history of the server, with any number of gateways whose
  clocks disagree, keys that expire or are evicted and terminal snapshots of jobs that have no envelope, what was done to a job
  is a run of the automaton, and the stored envelope, as long as there is one, is in the phase the run has reached. A
  snapshot over the envelope of a durable job, which a forced cleanup writes without a token, is not a step of these
  histories: it breaks the fencing (\<open>snapshot_overwrites_running_job\<close>).\<close>

theorem durable_job_lifecycle:
  assumes "job_history hist clock r"
  shows "\<exists>p. run_phases Unknown (events jid hist) = Some p
    \<and> (\<forall>env. events jid hist \<noteq> [] \<and> kv_get clock jid (jr_jobs r) = Some env \<longrightarrow> env_phase env = p)"
  using job_history_ok [OF assms] unfolding durable_ok_def by metis

text \<open>C28: A durable job ends once, and its end is reported by its worker: after a report, a cancellation before the start or
  the verdict that the outcome is ambiguous nothing more happens to the job; a report is accepted only from the worker
  that took the job last; a job that is cancelled as not started was never taken by any worker. The histories are those of
  the life cycle above, without snapshots over the envelopes of durable jobs.\<close>

theorem durable_job_ends_once:
  assumes "job_history hist clock r" "events jid hist = xs @ e # ys" "ends e"
  shows "ys = [] \<and> (\<forall>t s. e = Reported t s \<longrightarrow> taken_by xs = Some t) \<and> (e = CancelledWaiting \<longrightarrow> taken_by xs = None)"
proof -
  obtain p where p: "run_phases Unknown (xs @ e # ys) = Some p"
    using job_history_ok [OF assms(1)] assms(2) unfolding durable_ok_def by metis
  have "ys = []" using run_after_end [OF p assms(3)] .
  moreover have "taken_by xs = Some t" if "e = Reported t s" for t s using run_reported p that by blast
  moreover have "taken_by xs = None" if "e = CancelledWaiting"
  proof -
    have "taken_by (xs @ CancelledWaiting # ys) = None" using run_cancelled_waiting p that by blast
    then show ?thesis using \<open>ys = []\<close> by (simp add: taken_by_snoc)
  qed
  ultimately show ?thesis by blast
qed

text \<open>The calls of a worker and the log: what is acknowledged was done by the server.\<close>

lemma claim_acknowledged:
  assumes "job_history hist clock r" "0 \<le> now" "0 \<le> ttl" "claim_durable_execution net clock now ttl token jid r = (Inr True, r')"
  shows "job_history (hist @ [(jid, Taken token now ttl)]) clock r'"
proof -
  have "claim_script clock now ttl token jid r = (Some True, r')"
    using assms(4) by (cases net) (auto simp: claim_durable_execution_def redis_eval_def map_prod_def split: option.splits prod.splits)
  from claim [OF assms(1-3) this] show ?thesis by simp
qed

lemma ended_job_refused:
  assumes "job_step clock r jid e g" "ends e"
  shows "finish_script clock now token out jid g = (Some False, g)"
proof -
  from assms obtain env st where env: "kv_get clock jid (jr_jobs g) = Some env" "env_phase env = Ended st"
    unfolding job_step_def by (metis next_ends)
  then have "env_status env \<noteq> Some ''processing''" by (auto simp: env_phase_def)
  then show ?thesis using env(1) by (simp add: finish_script_def)
qed

lemma finish_attempts_refused:
  "finish_script clock now token out jid r = (Some False, r) \<Longrightarrow> finish_attempts nets clock now token out jid r = (False, r)"
proof (induction nets)
  case (Cons net nets)
  then show ?case by (cases net) (simp_all add: redis_eval_def)
qed simp

lemma finish_attempts_acknowledged:
  assumes "finish_attempts nets clock now token out jid r = (True, r')"
    "\<forall>env. kv_get clock jid (jr_jobs r) = Some env \<longrightarrow> is_terminal env \<or> env_ok jid env" "oc_status out \<in> set TERMINAL_STATUSES"
  shows "finish_script clock now token out jid r = (Some True, r')"
  using assms(1)
proof (induction nets)
  case (Cons net nets)
  obtain a g where run: "finish_script clock now token out jid r = (a, g)" by fastforce
  note step = finish_step [OF run assms(2,3)]
  show ?case
  proof (cases net)
    case Up
    then show ?thesis using Cons.prems run step by (auto simp: redis_eval_def)
  next
    case Lost
    then have rest: "finish_attempts nets clock now token out jid g = (True, r')"
      using Cons.prems run by (simp add: redis_eval_def)
    have "finish_script clock now token out jid g = (Some False, g)" if "job_step clock r jid (Reported token (oc_status out)) g"
      using ended_job_refused [OF that] by (simp add: ends_def)
    then have "\<not> job_step clock r jid (Reported token (oc_status out)) g" using rest finish_attempts_refused by fastforce
    then have "g = r" using step by blast
    then show ?thesis using rest Cons.IH by blast
  next
    case Down
    then show ?thesis using Cons.prems Cons.IH by (simp add: redis_eval_def)
  qed
qed simp

lemma finish_acknowledged:
  assumes "job_history hist clock r" "finish_durable_execution nets clock now token out jid r = (Some True, r')"
  shows "job_history (hist @ [(jid, Reported token (oc_status out))]) clock r'"
proof -
  have "oc_status out \<in> set TERMINAL_STATUSES"
      "finish_attempts (map nets [0..<FINISH_TERMINAL_MAX_ATTEMPTS]) clock now token out jid r = (True, r')"
    using assms(2) by (auto simp: finish_durable_execution_def map_prod_def split: if_splits prod.splits)
  moreover from finish_attempts_acknowledged [OF this(2) durable_ok_envs [OF job_history_ok [OF assms(1)]] this(1)]
  have "finish_script clock now token out jid r = (Some True, r')" .
  ultimately show ?thesis using finish [OF assms(1)] by fastforce
qed

text \<open>A report whose answer is lost is tried again, refused by its own first success, and told as not stored.\<close>

lemma lost_report_denied:
  assumes "job_history hist clock r" "finish_script clock now token out jid r = (Some True, g)" "oc_status out \<in> set TERMINAL_STATUSES"
    "nets 0 = Lost"
  shows "finish_durable_execution nets clock now token out jid r = (Some False, g)"
proof -
  have "job_step clock r jid (Reported token (oc_status out)) g"
    using finish_step [OF assms(2) durable_ok_envs [OF job_history_ok [OF assms(1)]] assms(3)] by simp
  then have "finish_script clock now token out jid g = (Some False, g)"
    using ended_job_refused by (simp add: ends_def)
  moreover have "map nets [0..<FINISH_TERMINAL_MAX_ATTEMPTS] = Lost # map nets [1..<3]"
    using assms(4) by (simp add: FINISH_TERMINAL_MAX_ATTEMPTS_def upt_rec)
  ultimately show ?thesis
    using assms(2,3) by (simp add: finish_durable_execution_def redis_eval_def finish_attempts_refused)
qed

subsection \<open>Recovery\<close>

lemma zsorted_set [simp]: "set (zsorted z) = set z"
  by (simp add: zsorted_def)

lemma zrange_mem: "map_of z jid = Some s \<Longrightarrow> lo \<le> s \<Longrightarrow> s \<le> hi \<Longrightarrow> jid \<in> set (zrange_by_score lo hi z)"
  by (force simp: zrange_by_score_def dest: map_of_SomeD)

lemma expired_env_ok: "env_ok jid env \<Longrightarrow> env_status env = Some ''processing'' \<Longrightarrow> \<exists>b. expired_env now env = Some b"
  by (auto simp: env_ok_def expired_env_def is_terminal_def TERMINAL_STATUSES_def)

lemma expired_jobs_listed:
  assumes "durable_ok hist clock r"
  shows "\<exists>js. expired_jobs clock now (jr_jobs r) jids = Some js
    \<and> (\<forall>jid \<in> set jids. \<forall>env t e. kv_get clock jid (jr_jobs r) = Some env \<and> env_ok jid env \<and> env_phase env = Working t e False \<and> e < now
         \<longrightarrow> jid \<in> set js)"
proof (induction jids)
  case (Cons k jids)
  then obtain js where js: "expired_jobs clock now (jr_jobs r) jids = Some js"
      "\<forall>jid \<in> set jids. \<forall>env t e. kv_get clock jid (jr_jobs r) = Some env \<and> env_ok jid env \<and> env_phase env = Working t e False \<and> e < now
         \<longrightarrow> jid \<in> set js" by blast
  show ?case
  proof (cases "kv_get clock k (jr_jobs r)")
    case None
    then show ?thesis using js by auto
  next
    case (Some env)
    show ?thesis
    proof (cases "env_status env = Some ''processing'' \<and> \<not> lua_true (lua_get env ''cancel_requested'')")
      case False
      then have "env_phase env \<noteq> Working t e False" for t e by (auto simp: env_phase_def)
      then show ?thesis using js Some False by auto
    next
      case True
      then have "\<not> is_terminal env" by (auto simp: is_terminal_def TERMINAL_STATUSES_def)
      then have ok: "env_ok k env" using durable_ok_envs [OF assms] Some by blast
      then obtain b where b: "expired_env now env = Some b" using expired_env_ok True by blast
      have "b" if "env_phase env = Working t e False" "e < now" for t e
        using ok True b that by (auto simp: env_ok_def env_phase_def expired_env_def is_terminal_def TERMINAL_STATUSES_def)
      then show ?thesis using js Some True b by auto
    qed
  qed
qed simp

lemma reconcile_marks:
  "reconcile_loop clock now jids acc r = (res, r') \<Longrightarrow> durable_ok hist clock r \<Longrightarrow> jid \<in> set jids
    \<Longrightarrow> kv_get clock jid (jr_jobs r) = Some env \<Longrightarrow> env_ok jid env \<Longrightarrow> env_phase env = Working t e True \<Longrightarrow> e < now
    \<Longrightarrow> \<exists>js. res = Some js \<and> jid \<in> set js"
proof (induction jids arbitrary: acc r hist)
  case (Cons k jids)
  note env = Cons.prems(4-7)
  have status: "env_status env = Some ''processing''" "lua_true (lua_get env ''cancel_requested'')"
    using env(3) by (auto simp: env_phase_def split: if_splits)
  have expired: "expired_env now env = Some True"
    using env(2-4) status by (auto simp: env_ok_def env_phase_def expired_env_def is_terminal_def TERMINAL_STATUSES_def)
  show ?case
  proof (cases "k = jid")
    case True
    let ?g = "end_job clock now jid jid False (ambiguous_env now env) r"
    have "job_step clock r jid (GivenUp now) ?g"
      using give_up_step [OF env(1,2) status, of now] expired by auto
    from durable_ok_step [OF Cons.prems(2) this]
    have "durable_ok (hist @ [(jid, GivenUp now)]) clock ?g" .
    moreover have "reconcile_loop clock now jids (acc @ [jid]) ?g = (res, r')"
      using Cons.prems(1) True env(1) status expired by simp
    ultimately obtain js where "res = Some ((acc @ [jid]) @ js)" using reconcile_ok by blast
    then show ?thesis by simp
  next
    case other: False
    then have jid: "jid \<in> set jids" using Cons.prems(3) by simp
    show ?thesis
    proof (cases "\<exists>env'. kv_get clock k (jr_jobs r) = Some env' \<and> env_status env' = Some ''processing'' \<and> lua_true (lua_get env' ''cancel_requested'')")
      case False
      then have "reconcile_loop clock now jids acc r = (res, r')" using Cons.prems(1) by (auto split: option.splits)
      then show ?thesis using Cons.IH [OF _ Cons.prems(2) jid env] by blast
    next
      case True
      then obtain env' where env': "kv_get clock k (jr_jobs r) = Some env'" "env_status env' = Some ''processing''"
          "lua_true (lua_get env' ''cancel_requested'')" by blast
      then have "\<not> is_terminal env'" by (auto simp: is_terminal_def TERMINAL_STATUSES_def)
      then have "env_ok k env'" using durable_ok_envs [OF Cons.prems(2)] env'(1) by blast
      then obtain b where b: "expired_env now env' = Some b"
          "b \<Longrightarrow> job_step clock r k (GivenUp now) (end_job clock now k k False (ambiguous_env now env') r)"
        using give_up_step [OF env'(1) _ env'(2,3)] by blast
      show ?thesis
      proof (cases b)
        case False
        then have "reconcile_loop clock now jids acc r = (res, r')" using Cons.prems(1) env' b(1) by simp
        then show ?thesis using Cons.IH [OF _ Cons.prems(2) jid env] by blast
      next
        case yes: True
        let ?g = "end_job clock now k k False (ambiguous_env now env') r"
        note step = b(2) [OF yes]
        have "map_of (jr_jobs ?g) jid = map_of (jr_jobs r) jid" using step other by (simp add: job_step_def)
        then have "kv_get clock jid (jr_jobs ?g) = Some env" using env(1) kv_get_cong [of "jr_jobs ?g" jid "jr_jobs r"] by simp
        moreover have "reconcile_loop clock now jids (acc @ [k]) ?g = (res, r')" using Cons.prems(1) env' b(1) yes by simp
        ultimately show ?thesis using Cons.IH [OF _ durable_ok_step [OF Cons.prems(2) step] jid _ env(2-4)] by blast
      qed
    qed
  qed
qed simp

text \<open>No job of a lost worker is stuck: when the lease of a durable job is over in any history, and neither its envelope nor its
  entry in the processing set was evicted, the next start of a gateway finds it: if nobody asked to cancel it is
  listed for recovery, and whoever claims it first takes it; otherwise it is marked as ambiguous and not
  executed again.\<close>

theorem lost_job_recovered:
  assumes "job_history hist clock r" "events jid hist \<noteq> []" "kv_get clock jid (jr_jobs r) = Some env"
    "env_phase env = Working t e c" "e < now" "map_of (jr_processing r) jid \<noteq> None" "0 \<le> ttl"
  shows "if c then jid \<in> set (fst (reconcile_expired_cancelled_processing Up clock now r))
    else jid \<in> set (list_recoverable_durable_jobs Up net clock now scan r)
      \<and> fst (claim_durable_execution Up clock now ttl token jid r) = Inr True"
proof -
  have ok: "durable_ok hist clock r" using job_history_ok [OF assms(1)] .
  obtain s where s: "map_of (jr_processing r) jid = Some s" using assms(6) by blast
  have env: "env_ok jid env" "scored env s" using ok assms(2,3) s unfolding durable_ok_def by (metis (full_types))+
  then have "0 \<le> s" "s \<le> now" using assms(4,5) by (auto simp: scored_def)
  then have cand: "jid \<in> set (zrange_by_score 0 now (jr_processing r))" and now: "0 \<le> now" using zrange_mem [OF s] by simp_all
  show ?thesis
  proof (cases c)
    case True
    obtain res r' where run: "reconcile_script clock now r = (res, r')" by fastforce
    then have "\<exists>js. res = Some js \<and> jid \<in> set js"
      using reconcile_marks [OF _ ok cand assms(3) env(1) _ assms(5)] assms(4) True by (simp add: reconcile_script_def)
    then show ?thesis using True run by (auto simp: reconcile_expired_cancelled_processing_def redis_eval_def)
  next
    case False
    have "jid \<in> set (list_recoverable_durable_jobs Up net clock now scan r)"
      using expired_jobs_listed [OF ok, of now "zrange_by_score 0 now (jr_processing r)"] cand assms(3-5) env(1) False
      by (auto simp: list_recoverable_durable_jobs_def)
    moreover obtain a r' where run: "claim_script clock now ttl token jid r = (a, r')" by fastforce
    moreover have "a = Some True"
      using env(1)
    proof (cases rule: env_ok_cases)
      case (working t' e')
      then have "t' = t" "e' = e" "\<not> lua_true (lua_get env ''cancel_requested'')" using assms(4) False by simp_all
      then show ?thesis
        using run working(1-4) assms(3,5) env_okD [OF env(1)]
        by (auto simp: claim_script_def lease_job_def taken_def renewed_def Let_def split: if_splits)
    qed (use assms(4) in simp_all)
    ultimately show ?thesis using False run by (simp add: claim_durable_execution_def redis_eval_def)
  qed
qed

subsection \<open>Submissions\<close>

text \<open>Calls with one key, one after the other: each with its network, clocks, fresh identifier, owner, payload and envelope.\<close>

type_synonym reserve_call = "(net \<times> net \<times> net) \<times> time \<times> time \<times> string \<times> string \<times> string \<times> json"

fun reserve_calls :: "string \<Rightarrow> reserve_call list \<Rightarrow> job_redis \<Rightarrow> (submission_error + string \<times> bool) list" where
  "reserve_calls key [] r = []"
| "reserve_calls key ((nets, clock, now, jid, owner, payload, env) # calls) r =
     (case reserve_submission_with_job nets clock now key jid owner payload env r of
        (res, r') \<Rightarrow> res # reserve_calls key calls r')"

text \<open>The claim of a key, which says for which job it was made.\<close>

definition claimed_for :: "time \<Rightarrow> string \<Rightarrow> job_redis \<Rightarrow> string \<Rightarrow> bool" where
  "claimed_for clock key r job \<longleftrightarrow> (\<exists>owner payload now. kv_get clock key (jr_subs r) = Some (submission_claim job owner payload now))"

lemma submission_claim_fields:
  "lua_get (submission_claim job owner payload now) ''job_id'' = Some (JStr job)"
  "lua_get (submission_claim job owner payload now) ''owner_id'' = Some (JStr owner)"
  "lua_get (submission_claim job owner payload now) ''payload_hash'' = Some (JStr payload)"
  by (simp_all add: submission_claim_def)

lemma reserve_script_claimed:
  assumes "kv_get clock key (jr_subs r) = Some (submission_claim job owner' payload' now')"
  shows "reserve_script clock key jid owner payload claim env r =
    (Some (if owner' = owner \<and> payload' = payload then Existing job else ConflictReply),
     r\<lparr>jr_jobs := if kv_get clock jid (jr_jobs r) = None then kv_set clock jid env SUBMISSION_TTL (jr_jobs r) else jr_jobs r\<rparr>)"
  using assms by (auto simp: reserve_script_def kv_set_nx_def submission_claim_fields Let_def)

lemma reserve_tries_claimed:
  "reserve_tries nets clock key jid owner payload claim env r = (res, r') \<Longrightarrow>
     kv_get clock key (jr_subs r) = Some (submission_claim job owner' payload' now') \<Longrightarrow>
     jr_subs r' = jr_subs r \<and> (case res of Inl e \<Rightarrow> True | Inr (j, created) \<Rightarrow> j = job \<and> \<not> created \<and> owner = owner' \<and> payload = payload')"
proof (induction nets arbitrary: r)
  case (Cons net nets)
  note run = reserve_script_claimed [OF Cons.prems(2), of jid owner payload claim env]
  let ?g = "r\<lparr>jr_jobs := if kv_get clock jid (jr_jobs r) = None then kv_set clock jid env SUBMISSION_TTL (jr_jobs r) else jr_jobs r\<rparr>"
  have IH: "reserve_tries nets clock key jid owner payload claim env ?g = (res, r') \<Longrightarrow>
      jr_subs r' = jr_subs r \<and> (case res of Inl e \<Rightarrow> True | Inr (j, created) \<Rightarrow> j = job \<and> \<not> created \<and> owner = owner' \<and> payload = payload')"
    using Cons.IH [of ?g] Cons.prems(2) by simp
  show ?case
  proof (cases net)
    case Up
    then show ?thesis using Cons.prems(1) IH run by (auto simp: redis_eval_def split: if_splits)
  next
    case Lost
    then show ?thesis using Cons.prems(1) run by (auto simp: redis_eval_def)
  next
    case Down
    then show ?thesis using Cons.prems(1) by (auto simp: redis_eval_def)
  qed
qed auto

lemma reserve_tries_free:
  assumes "reserve_tries nets clock key jid owner payload (submission_claim jid owner payload now) env r = (res, r')"
    "kv_get clock key (jr_subs r) = None" "kv_get clock jid (jr_jobs r) = None"
  shows "(\<exists>e. res = Inl e) \<and> jr_subs r' = jr_subs r
    \<or> map_of (jr_subs r') key = Some (submission_claim jid owner payload now, clock + SUBMISSION_TTL)
      \<and> (res = Inr (jid, True) \<or> (\<exists>e. res = Inl e))"
proof (cases nets)
  case Nil
  then show ?thesis using assms(1) by auto
next
  case (Cons net rest)
  let ?claim = "submission_claim jid owner payload now"
  have run: "reserve_script clock key jid owner payload ?claim env r =
      (Some BothNew, r\<lparr>jr_subs := kv_set clock key ?claim SUBMISSION_TTL (jr_subs r),
                       jr_jobs := kv_set clock jid env SUBMISSION_TTL (jr_jobs r)\<rparr>)"
    using assms(2,3) by (simp add: reserve_script_def kv_set_nx_def Let_def)
  show ?thesis using assms(1) Cons run by (cases net) (auto simp: redis_eval_def kv_set_def)
qed

lemma reserve_calls_claimed:
  "map_of (jr_subs r) key = Some (submission_claim job owner' payload' now', ex) \<Longrightarrow> \<forall>(nets, clock, rest) \<in> set calls. clock < ex
    \<Longrightarrow> Inr (j, created) \<in> set (reserve_calls key calls r) \<Longrightarrow> j = job \<and> \<not> created"
proof (induction key calls r rule: reserve_calls.induct)
  case (2 key nets clock now jid owner payload env calls r)
  obtain res r' where run: "reserve_submission_with_job nets clock now key jid owner payload env r = (res, r')" by fastforce
  have "kv_get clock key (jr_subs r) = Some (submission_claim job owner' payload' now')"
    using 2(2,3) by (simp add: kv_get_def)
  then have res: "jr_subs r' = jr_subs r" "\<And>j created. res = Inr (j, created) \<Longrightarrow> j = job \<and> \<not> created"
    using run by (auto simp: reserve_submission_with_job_def simp del: reserve_tries.simps split: prod.splits dest!: reserve_tries_claimed)
  show ?case using 2(1) [OF run [symmetric]] 2(2-4) run res by auto
qed simp

text \<open>C29: A submission key stands for one job: as long as its claim is kept (a week from the first call, unless it is
  evicted), of all calls with the key, in any order, from any caller and over any network, at most one is told that it
  created a job, and all that succeed get the identifier of the same job, so that a call whose answer was lost can be
  repeated.\<close>

theorem submission_made_once:
  assumes "kv_get c key (jr_subs r) = None" "\<forall>(nets, clock, rest) \<in> set calls. c \<le> clock \<and> clock < c + SUBMISSION_TTL"
    and "distinct (map (\<lambda>(nets, clock, now, jid, rest). jid) calls)"
    and "\<forall>(nets, clock, now, jid, rest) \<in> set calls. map_of (jr_jobs r) jid = None"
  shows "(\<exists>job. \<forall>j created. Inr (j, created) \<in> set (reserve_calls key calls r) \<longrightarrow> j = job)
    \<and> length (filter (\<lambda>res. \<exists>j. res = Inr (j, True)) (reserve_calls key calls r)) \<le> 1"
  using assms
proof (induction key calls r rule: reserve_calls.induct)
  case (2 key nets clock now jid owner payload env calls r)
  obtain res r' where run: "reserve_submission_with_job nets clock now key jid owner payload env r = (res, r')" by fastforce
  have clock: "c \<le> clock" "clock < c + SUBMISSION_TTL" using 2(3) by auto
  have free: "kv_get clock key (jr_subs r) = None" "kv_get clock jid (jr_jobs r) = None"
    using 2(2,5) clock(1) kv_get_earlier [of clock key "jr_subs r" _ c] by (auto simp: kv_get_def split: option.splits)
  obtain n1 n2 n3 where tries: "reserve_tries [n1, n2, n3] clock key jid owner payload (submission_claim jid owner payload now) env r = (res, r')"
    using run by (cases nets) (simp add: reserve_submission_with_job_def del: reserve_tries.simps)
  have jobs: "map_of (jr_jobs r') k = map_of (jr_jobs r) k" if "k \<noteq> jid" for k
    using reserve_tries_jobs [OF tries] free(2) that by (auto simp: kv_set_def)
  from reserve_tries_free [OF tries free]
  consider (failed) "\<exists>e. res = Inl e" "jr_subs r' = jr_subs r"
    | (made) "map_of (jr_subs r') key = Some (submission_claim jid owner payload now, clock + SUBMISSION_TTL)"
        "res = Inr (jid, True) \<or> (\<exists>e. res = Inl e)" by blast
  then show ?case
  proof cases
    case res: failed
    have fresh: "jid \<noteq> k" if "(n, cl, w, k, rest) \<in> set calls" for n cl w k rest using 2(4) that by force
    have "map_of (jr_jobs r') k = None" if "(n, cl, w, k, rest) \<in> set calls" for n cl w k rest
      using jobs fresh [OF that] 2(5) that by fastforce
    then have none: "\<forall>(nets, clock, now, jid, rest) \<in> set calls. map_of (jr_jobs r') jid = None" by blast
    have "(\<exists>job. \<forall>j created. Inr (j, created) \<in> set (reserve_calls key calls r') \<longrightarrow> j = job)
        \<and> length (filter (\<lambda>res. \<exists>j. res = Inr (j, True)) (reserve_calls key calls r')) \<le> 1"
      by (rule 2(1) [OF run [symmetric] _ _ _ none]) (use 2(2-4) res(2) in simp_all)
    then show ?thesis using res(1) run by auto
  next
    case stored: made
    have "\<forall>(nets, k, rest) \<in> set calls. k < clock + SUBMISSION_TTL" using 2(3) clock(1) by auto
    note rest = reserve_calls_claimed [OF stored(1) this]
    have "filter (\<lambda>res. \<exists>j. res = Inr (j, True)) (reserve_calls key calls r') = []"
      using rest by (auto simp: filter_empty_conv)
    then show ?thesis using rest stored(2) run by auto
  qed
qed simp

text \<open>
  The documentation promises a conflict error for a key that is bound to another request; the answer of the script is
  retried and reported as unavailable, and each such call leaves an envelope behind.
\<close>

lemma reserve_tries_error: "reserve_tries nets clock key jid owner payload claim env r = (Inl e, r') \<Longrightarrow> e = SubmissionUnavailable"
  by (induction nets arbitrary: r) (auto split: prod.splits option.splits reserve_reply.splits if_splits)

lemma conflict_reported_unavailable:
  assumes "kv_get clock key (jr_subs r) = Some (submission_claim job owner' payload' now')" "payload \<noteq> payload'"
  shows "\<exists>r'. reserve_submission_with_job nets clock now key jid owner payload env r = (Inl SubmissionUnavailable, r')"
proof -
  obtain n1 n2 n3 where nets: "nets = (n1, n2, n3)" by (cases nets)
  obtain res r' where tries: "reserve_tries [n1, n2, n3] clock key jid owner payload (submission_claim jid owner payload now) env r = (res, r')"
    by fastforce
  have "res = Inl SubmissionUnavailable"
  proof (cases res)
    case (Inl e)
    then show "res = Inl SubmissionUnavailable" using reserve_tries_error tries by blast
  next
    case (Inr p)
    then show "res = Inl SubmissionUnavailable" using reserve_tries_claimed [OF tries assms(1)] assms(2) by (cases p) simp
  qed
  then show ?thesis using tries nets by (simp add: reserve_submission_with_job_def del: reserve_tries.simps)
qed

subsection \<open>Concrete histories\<close>

definition demo_envelope :: "string \<Rightarrow> json" where
  "demo_envelope jid = job_envelope jid ''task:1'' ''s'' ''ls'' [] 60 ''o'' JNull ''p'' 0"

text \<open>The job of a submission, taken by a worker whose lease is over, taken by another one and reported.\<close>

definition demo_store :: "nat \<Rightarrow> job_redis" where
  "demo_store n =
     (let r1 = snd (reserve_submission_with_job (Up, Up, Up) 0 0 ''k'' ''j'' ''o'' ''p'' (demo_envelope ''j'') no_jobs);
          r2 = snd (claim_script 1 1 60 ''a'' ''j'' r1);
          r3 = snd (claim_script 100 100 60 ''b'' ''j'' r2);
          r4 = snd (finish_script 101 101 ''b'' \<lparr>oc_status = ''completed'', oc_stdout = ''x'', oc_stderr = [], oc_exit_code = Some 0, oc_error = []\<rparr> ''j'' r3)
      in [r1, r2, r3, r4] ! n)"

definition demo_outcome :: job_outcome where
  "demo_outcome = \<lparr>oc_status = ''completed'', oc_stdout = ''x'', oc_stderr = [], oc_exit_code = Some 0, oc_error = []\<rparr>"

lemma demo_steps:
  "reserve_submission_with_job (Up, Up, Up) 0 0 ''k'' ''j'' ''o'' ''p'' (demo_envelope ''j'') no_jobs = (Inr (''j'', True), demo_store 0)"
  "claim_script 1 1 60 ''a'' ''j'' (demo_store 0) = (Some True, demo_store 1)"
  "claim_script 100 100 60 ''b'' ''j'' (demo_store 1) = (Some True, demo_store 2)"
  "finish_script 101 101 ''b'' demo_outcome ''j'' (demo_store 2) = (Some True, demo_store 3)"
  by code_simp+

lemma demo_durable_history:
  "job_history [(''j'', Stored)] 0 (demo_store 0)"
  "job_history [(''j'', Stored), (''j'', Taken ''a'' 1 60)] 1 (demo_store 1)"
  "job_history [(''j'', Stored), (''j'', Taken ''a'' 1 60), (''j'', Taken ''b'' 100 60)] 100 (demo_store 2)"
  "job_history [(''j'', Stored), (''j'', Taken ''a'' 1 60), (''j'', Taken ''b'' 100 60), (''j'', Reported ''b'' ''completed'')] 101 (demo_store 3)"
proof -
  have "map_of (jr_jobs (demo_store 0)) ''j'' \<noteq> None" by code_simp
  then show h0: "job_history [(''j'', Stored)] 0 (demo_store 0)"
    using reserve [OF start _ _ demo_steps(1) [unfolded demo_envelope_def]] by (auto simp: no_jobs_def)
  show h1: "job_history [(''j'', Stored), (''j'', Taken ''a'' 1 60)] 1 (demo_store 1)"
    using claim [OF tick [OF h0, of 1] _ _ demo_steps(2)] by simp
  show h2: "job_history [(''j'', Stored), (''j'', Taken ''a'' 1 60), (''j'', Taken ''b'' 100 60)] 100 (demo_store 2)"
    using claim [OF tick [OF h1, of 100] _ _ demo_steps(3)] by simp
  show "job_history [(''j'', Stored), (''j'', Taken ''a'' 1 60), (''j'', Taken ''b'' 100 60), (''j'', Reported ''b'' ''completed'')] 101 (demo_store 3)"
    using finish [OF tick [OF h2, of 101] _ demo_steps(4)] by (simp add: demo_outcome_def TERMINAL_STATUSES_def)
qed

lemma durable_job_lifecycle_witness:
  "run_phases Unknown [Stored, Taken ''a'' 1 60, Taken ''b'' 100 60] = Some (Working ''b'' 160 False)
    \<and> map_option env_phase (kv_get 100 ''j'' (jr_jobs (demo_store 2))) = Some (Working ''b'' 160 False)"
proof -
  have "kv_get 100 ''j'' (jr_jobs (demo_store 2)) \<noteq> None" by code_simp
  then obtain env where "kv_get 100 ''j'' (jr_jobs (demo_store 2)) = Some env" by blast
  then show ?thesis using durable_job_lifecycle [OF demo_durable_history(3), of "''j''"] by (simp add: events_def)
qed

text \<open>The job was taken over by the second worker: its report is the one that was accepted, that of the first is refused.\<close>

lemma durable_job_ends_once_witness:
  "taken_by [Stored, Taken ''a'' 1 60, Taken ''b'' 100 60] = Some ''b''
    \<and> fst (finish_script 100 100 ''a'' demo_outcome ''j'' (demo_store 2)) = Some False"
proof -
  have "fst (finish_script 100 100 ''a'' demo_outcome ''j'' (demo_store 2)) = Some False" by code_simp
  then show ?thesis
    using durable_job_ends_once [OF demo_durable_history(4), of "''j''" "[Stored, Taken ''a'' 1 60, Taken ''b'' 100 60]" "Reported ''b'' ''completed''" "[]"]
    by (simp add: events_def ends_def)
qed

lemma lost_job_recovered_witness:
  "''j'' \<in> set (list_recoverable_durable_jobs Up Down 100 100 [] (demo_store 1))"
proof -
  obtain env where env: "kv_get 100 ''j'' (jr_jobs (demo_store 1)) = Some env" "env_phase env = Working ''a'' 61 False"
  proof -
    have "map_option env_phase (kv_get 100 ''j'' (jr_jobs (demo_store 1))) = Some (Working ''a'' 61 False)" by code_simp
    then show thesis using that by auto
  qed
  have "map_of (jr_processing (demo_store 1)) ''j'' \<noteq> None" by code_simp
  from lost_job_recovered [OF tick [OF demo_durable_history(2), of 100] _ env _ this, of 100 60 Down "[]" "''b''"]
  show ?thesis by (simp add: events_def)
qed

text \<open>Two callers with one key.\<close>

lemma submission_made_once_witness:
  "reserve_calls ''k'' [((Lost, Up, Up), 0, 0, ''a'', ''o'', ''p'', demo_envelope ''a''), ((Up, Up, Up), 5, 5, ''b'', ''o'', ''p'', demo_envelope ''b'')] no_jobs
     = [Inl SubmissionUnavailable, Inr (''a'', False)]
   \<and> (\<exists>job. \<forall>j created. Inr (j, created) \<in> set [Inl SubmissionUnavailable, Inr (''a'', False)] \<longrightarrow> j = job)"
proof -
  let ?calls = "[((Lost, Up, Up), 0, 0, ''a'', ''o'', ''p'', demo_envelope ''a''), ((Up, Up, Up), 5, 5, ''b'', ''o'', ''p'', demo_envelope ''b'')] :: reserve_call list"
  have run: "reserve_calls ''k'' ?calls no_jobs = [Inl SubmissionUnavailable, Inr (''a'', False)]" by code_simp
  have "\<exists>job. \<forall>j created. Inr (j, created) \<in> set (reserve_calls ''k'' ?calls no_jobs) \<longrightarrow> j = job"
    using submission_made_once [of 0 "''k''" no_jobs ?calls] by (simp add: no_jobs_def SUBMISSION_TTL_def del: reserve_calls.simps)
  then show ?thesis using run by simp
qed

text \<open>
  The call that lost the race has left its envelope behind: the two envelopes make the submission ambiguous for
  every later look-up in the index.
\<close>

definition demo_race :: job_redis where
  "demo_race = snd (reserve_submission_with_job (Up, Up, Up) 1 1 ''k'' ''b'' ''o'' ''p'' (demo_envelope ''b'') (demo_store 0))"

lemma duplicate_leaves_orphan:
  "fst (reserve_submission_with_job (Up, Up, Up) 1 1 ''k'' ''b'' ''o'' ''p'' (demo_envelope ''b'') (demo_store 0)) = Inr (''j'', False)"
  "map_option env_status (kv_get 1 ''b'' (jr_jobs demo_race)) = Some (Some ''pending'')"
  by code_simp+

lemma two_envelopes_ambiguous:
  assumes "binding_of env = Some b" "binding_of env' = Some b'" "kv_get clock (bd_job_id b) (jr_jobs r) = Some env"
    "kv_get clock (bd_job_id b') (jr_jobs r) = Some env'" "bd_job_id b \<noteq> bd_job_id b'"
    "jget env ''submission_key'' = JStr key" "jget env' ''submission_key'' = JStr key" "startswith key ''task:''"
  shows "build_submission_envelope_index Up clock [bd_job_id b, bd_job_id b'] r = Inr [(key, Inl IdentityAmbiguous)]"
  using assms by (simp add: build_submission_envelope_index_def index_envelope_def)

text \<open>A snapshot that is not fenced takes a running job from its worker.\<close>

lemma snapshot_overwrites_running_job:
  "fst (finish_script 105 105 ''b'' demo_outcome ''j''
     (save_terminal_job 104 104 ''j'' (terminal_snapshot ''j'' ''s'' ''ls'' ''o'' 104 (demo_outcome\<lparr>oc_status := ''cancelled''\<rparr>) JNull) True (demo_store 2)))
   = Some False"
  by code_simp

text \<open>A null survives the script: the exit code of a job that is given up stays null.\<close>

lemma null_exit_code_kept:
  "is_obj env \<Longrightarrow> lua_get env ''exit_code'' = Some JNull \<Longrightarrow> lua_get (ambiguous_env now env) ''exit_code'' = Some JNull"
  by (simp add: ambiguous_env_def Let_def)

end
