(* ===== verification/JobManager.thy ===== *)
theory JobManager
  imports DurableJobs "HOL-Library.Multiset"
begin

text \<open>
  \<open>app/job_manager.py\<close>: the jobs of one gateway. A step runs from one \<open>await\<close> to the next; what the awaited calls answer
  (Redis, the SSH manager, the policy, the stream of the command) is an argument. The job objects are kept by
  identifier (\<open>jm_records\<close>), apart from the table \<open>_jobs\<close>, since a task holds its job after it left the table.
  Time, fresh identifiers and SHA-256 are arguments; events for observers are left out.
\<close>

datatype job_status = Pending | Running | Cancelling | Completed | Failed | Cancelled | Ambiguous

definition TERMINAL_STATES :: "job_status list" where
  "TERMINAL_STATES = [Completed, Failed, Cancelled, Ambiguous]"

definition ACTIVE_STATES :: "job_status list" where
  "ACTIVE_STATES = [Pending, Running, Cancelling]"

fun status_name :: "job_status \<Rightarrow> string" where
  "status_name Pending = ''pending''"
| "status_name Running = ''running''"
| "status_name Cancelling = ''cancelling''"
| "status_name Completed = ''completed''"
| "status_name Failed = ''failed''"
| "status_name Cancelled = ''cancelled''"
| "status_name Ambiguous = ''ambiguous''"

definition MAX_STDOUT_SIZE :: nat where
  "MAX_STDOUT_SIZE = 10 * 1024 * 1024"

definition DURABLE_LEASE_TTL_SECONDS :: rat where
  "DURABLE_LEASE_TTL_SECONDS = 60"

definition durable_heartbeat_interval :: "rat \<Rightarrow> rat" where
  "durable_heartbeat_interval lease_ttl = max (1 / 10) (lease_ttl / 3)"

definition submission_payload_hash :: "(string \<Rightarrow> string) \<Rightarrow> string \<Rightarrow> string \<Rightarrow> string \<Rightarrow> nat \<Rightarrow> string" where
  "submission_payload_hash sha session_id command stdin timeout =
     sha (session_id @ CHR 0x00 # command @ CHR 0x00 # stdin @ CHR 0x00 # nat_str timeout)"

record job =
  jb_session_id :: string
  jb_command :: string
  jb_status :: job_status
  jb_stdout :: string
  jb_stderr :: string
  jb_exit_code :: "int option"
  jb_started_at :: "time option"
  jb_completed_at :: "time option"
  jb_owner_id :: string
  jb_error :: "string option"
  jb_redact :: json
  jb_stdin :: string
  jb_timeout :: nat
  jb_durable :: bool
  jb_submission_key :: "string option"
  jb_stale_since :: "time option"
  jb_stale :: bool
  jb_attempt_id :: "string option"
  jb_last_heartbeat :: "time option"
  jb_heartbeat_seq :: nat
  jb_persisted :: "bool option"
  jb_interrupted :: bool
  jb_cancel_event :: bool
  jb_completed_event :: bool

definition new_job ::
    "string \<Rightarrow> string \<Rightarrow> string \<Rightarrow> json \<Rightarrow> string \<Rightarrow> nat \<Rightarrow> string option \<Rightarrow> job" where
  "new_job session_id command owner redact stdin timeout key =
     \<lparr>jb_session_id = session_id, jb_command = command, jb_status = Pending, jb_stdout = [], jb_stderr = [],
      jb_exit_code = None, jb_started_at = None, jb_completed_at = None, jb_owner_id = owner, jb_error = None,
      jb_redact = redact, jb_stdin = stdin, jb_timeout = timeout, jb_durable = (key \<noteq> None), jb_submission_key = key,
      jb_stale_since = None, jb_stale = False, jb_attempt_id = None, jb_last_heartbeat = None, jb_heartbeat_seq = 0,
      jb_persisted = (if key \<noteq> None then Some False else None), jb_interrupted = False, jb_cancel_event = False,
      jb_completed_event = False\<rparr>"

text \<open>
  Where the task of a job is: not yet run; waiting for the answer of the claim, or of the look for a cancellation; started;
  in the stream of the command; past it; waiting for the answer of the report, which an execution or a cancellation
  before it ended. The token is that of a durable job.
\<close>

datatype task_state =
    Scheduled
  | Claiming string
  | Checking string
  | Starting "string option"
  | Streaming "string option"
  | Closing "string option"
  | Reporting bool

text \<open>
  \<open>jm_pins\<close> are the operation leases that the SSH manager holds, by session. \<open>jm_cancels\<close> are the calls of
  \<open>cancel_job\<close> that wait for Redis. \<open>jm_claimed\<close>, \<open>jm_streamed\<close> and \<open>jm_saved\<close> record the claims that were
  acknowledged, the jobs whose command was started and the snapshots that were handed to Redis.
\<close>

record job_manager =
  jm_records :: "(string \<times> job) list"
  jm_jobs :: "string list"
  jm_tasks :: "(string \<times> task_state) list"
  jm_leases :: "(string \<times> string) list"
  jm_pins :: "string list"
  jm_cancels :: "string list"
  jm_claimed :: "(string \<times> string) list"
  jm_streamed :: "string list"
  jm_saved :: "(string \<times> job) list"
  jm_max_jobs :: nat
  jm_redis :: bool

definition new_job_manager :: "nat \<Rightarrow> bool \<Rightarrow> job_manager" where
  "new_job_manager max_jobs redis =
     \<lparr>jm_records = [], jm_jobs = [], jm_tasks = [], jm_leases = [], jm_pins = [], jm_cancels = [], jm_claimed = [], jm_streamed = [],
      jm_saved = [], jm_max_jobs = max_jobs, jm_redis = redis\<rparr>"

abbreviation record_of :: "string \<Rightarrow> job_manager \<Rightarrow> job option" where
  "record_of jid jm \<equiv> map_of (jm_records jm) jid"

definition job_of :: "string \<Rightarrow> job_manager \<Rightarrow> job option" where
  "job_of jid jm = (if jid \<in> set (jm_jobs jm) then map_of (jm_records jm) jid else None)"

definition upd_job :: "string \<Rightarrow> (job \<Rightarrow> job) \<Rightarrow> job_manager \<Rightarrow> job_manager" where
  "upd_job jid f jm =
     (case map_of (jm_records jm) jid of
        None \<Rightarrow> jm
      | Some j \<Rightarrow> jm\<lparr>jm_records := AList.update jid (f j) (jm_records jm)\<rparr>)"

definition set_task :: "string \<Rightarrow> task_state \<Rightarrow> job_manager \<Rightarrow> job_manager" where
  "set_task jid t jm = jm\<lparr>jm_tasks := AList.update jid t (jm_tasks jm)\<rparr>"

definition task_of :: "string \<Rightarrow> job_manager \<Rightarrow> task_state option" where
  "task_of jid jm = map_of (jm_tasks jm) jid"

subsection \<open>Leases of sessions\<close>

text \<open>\<open>_release_job_session_lease\<close>: at most once per job.\<close>

definition release_job_session_lease :: "string \<Rightarrow> job_manager \<Rightarrow> job_manager" where
  "release_job_session_lease jid jm =
     (case map_of (jm_leases jm) jid of
        None \<Rightarrow> jm
      | Some session \<Rightarrow> jm\<lparr>jm_leases := AList.delete jid (jm_leases jm), jm_pins := remove1 session (jm_pins jm)\<rparr>)"

text \<open>The end of \<open>_run_job\<close>, however it comes about.\<close>

definition end_task :: "string \<Rightarrow> job_manager \<Rightarrow> job_manager" where
  "end_task jid jm = release_job_session_lease jid (jm\<lparr>jm_tasks := AList.delete jid (jm_tasks jm)\<rparr>)"

subsection \<open>Creating a job\<close>

datatype job_error =
    Submission submission_error
  | TooManyJobs
  | SessionMissing
  | JobMissing
  | NotCancellable job_status
  | NoLongerCancellable
  | WrongOwner

definition active_jobs :: "job_manager \<Rightarrow> nat" where
  "active_jobs jm =
     length (filter (\<lambda>jid. case map_of (jm_records jm) jid of None \<Rightarrow> False | Some j \<Rightarrow> jb_status j \<in> set ACTIVE_STATES) (jm_jobs jm))"

definition accept_job :: "string \<Rightarrow> job \<Rightarrow> job_manager \<Rightarrow> job_manager" where
  "accept_job jid j jm =
     jm\<lparr>jm_records := AList.update jid j (jm_records jm), jm_jobs := jm_jobs jm @ [jid],
        jm_leases := AList.update jid (jb_session_id j) (jm_leases jm), jm_tasks := AList.update jid Scheduled (jm_tasks jm)\<rparr>"

text \<open>
  The two answers of \<open>find_submission\<close>, whether the session can be pinned, and the answer of the reservation. The pin is
  taken before the reservation and released again when no new job comes of it.
\<close>

definition create_job ::
    "submission_error + string option \<Rightarrow> submission_error + string option \<Rightarrow> bool \<Rightarrow> submission_error + string \<times> bool
      \<Rightarrow> string \<Rightarrow> job \<Rightarrow> job_manager \<Rightarrow> (job_error + string) \<times> job_manager" where
  "create_job found found_again pinned reserved fresh j jm =
     (let keyed = jb_durable j;
          session = jb_session_id j;
          jm_pin = jm\<lparr>jm_pins := session # jm_pins jm\<rparr>;
          unpinned = (\<lambda>m. m\<lparr>jm_pins := remove1 session (jm_pins m)\<rparr>) in
      case (if keyed then if jm_redis jm then found else Inl SubmissionUnavailable else Inr None) of
        Inl e \<Rightarrow> (Inl (Submission e), jm)
      | Inr (Some existing) \<Rightarrow> (Inr existing, jm)
      | Inr None \<Rightarrow>
          if jm_max_jobs jm \<le> active_jobs jm then
            (case (if keyed then found_again else Inr None) of
               Inl e \<Rightarrow> (Inl (Submission e), jm)
             | Inr (Some existing) \<Rightarrow> (Inr existing, jm)
             | Inr None \<Rightarrow> (Inl TooManyJobs, jm))
          else if \<not> pinned then (Inl SessionMissing, jm)
          else if \<not> keyed then (Inr fresh, accept_job fresh j jm_pin)
          else
            (case reserved of
               Inl e \<Rightarrow> (Inl (Submission e), unpinned jm_pin)
             | Inr (existing, False) \<Rightarrow> (Inr existing, unpinned jm_pin)
             | Inr (jid, True) \<Rightarrow> (Inr jid, accept_job jid j jm_pin)))"

text \<open>
  \<open>recover_job\<close>: the job of an envelope; \<open>session_up\<close> is the look for the restored session, \<open>pinned\<close> the lease.
  \<open>decode\<close> is Base64. An envelope with the wrong shape is skipped.
\<close>

definition envelope_job :: "(string \<Rightarrow> string) \<Rightarrow> json \<Rightarrow> (string \<times> job) option" where
  "envelope_job decode env =
     (case (jget env ''job_id'', jget env ''session_id'', jget env ''command'', jget_default env ''timeout'' (JInt 3600)) of
        (JStr jid, JStr session, JStr command, JInt timeout) \<Rightarrow>
          Some (jid,
            (new_job session command (case jget env ''owner_id'' of JStr o' \<Rightarrow> o' | _ \<Rightarrow> []) (jget env ''redact_path_prefix'')
               (case jget env ''stdin_b64'' of JStr s \<Rightarrow> decode s | _ \<Rightarrow> []) (nat timeout)
               (case jget env ''submission_key'' of JStr k \<Rightarrow> if strip k = [] then None else Some (strip k) | _ \<Rightarrow> None))
             \<lparr>jb_durable := True, jb_persisted := Some False\<rparr>)
      | _ \<Rightarrow> None)"

definition recoverable :: "time \<Rightarrow> json \<Rightarrow> bool" where
  "recoverable now env \<longleftrightarrow>
     jget env ''status'' = JStr ''pending''
     \<or> jget env ''status'' = JStr ''processing'' \<and> falsy (jget env ''cancel_requested'')
        \<and> (case lua_num (Some (jget env ''lease_expiry'')) of None \<Rightarrow> True | Some e \<Rightarrow> e < now)"

definition recover_job ::
    "(string \<Rightarrow> string) \<Rightarrow> time \<Rightarrow> bool \<Rightarrow> bool \<Rightarrow> json \<Rightarrow> job_manager \<Rightarrow> string option \<times> job_manager" where
  "recover_job decode now session_up pinned env jm =
     (case envelope_job decode env of
        None \<Rightarrow> (None, jm)
      | Some (jid, j) \<Rightarrow>
          if \<not> recoverable now env \<or> \<not> session_up \<or> jid \<in> set (jm_jobs jm) \<or> \<not> pinned then (None, jm)
          else (Some jid, accept_job jid j (jm\<lparr>jm_pins := jb_session_id j # jm_pins jm\<rparr>)))"

subsection \<open>One execution\<close>

text \<open>\<open>_persist_terminal_job\<close>: the snapshot goes to Redis as the job is then; a failure there is swallowed.\<close>

definition persist_terminal_job :: "string \<Rightarrow> job_manager \<Rightarrow> job_manager" where
  "persist_terminal_job jid jm =
     (case record_of jid jm of
        None \<Rightarrow> jm
      | Some j \<Rightarrow>
          if jm_redis jm \<and> jb_status j \<in> set TERMINAL_STATES then jm\<lparr>jm_saved := jm_saved jm @ [(jid, j)]\<rparr> else jm)"

text \<open>\<open>job.completed_at or time.time()\<close>\<close>

definition or_now :: "time \<Rightarrow> time option \<Rightarrow> time option" where
  "or_now now t = (if t = None \<or> t = Some 0 then Some now else t)"

definition cancel_unstarted :: "time \<Rightarrow> job \<Rightarrow> job" where
  "cancel_unstarted now j = j\<lparr>jb_status := Cancelled, jb_completed_at := or_now now (jb_completed_at j), jb_completed_event := True\<rparr>"

definition start_job :: "time \<Rightarrow> string \<Rightarrow> job \<Rightarrow> job" where
  "start_job now attempt j =
     j\<lparr>jb_status := Running, jb_started_at := Some now, jb_attempt_id := Some attempt, jb_last_heartbeat := Some now,
       jb_stale := False, jb_heartbeat_seq := 0\<rparr>"

definition begin_run :: "time \<Rightarrow> string \<Rightarrow> string option \<Rightarrow> string \<Rightarrow> job_manager \<Rightarrow> job_manager" where
  "begin_run now attempt token jid jm = set_task jid (Starting token) (upd_job jid (start_job now attempt) jm)"

definition run_start :: "time \<Rightarrow> string \<Rightarrow> string \<Rightarrow> string \<Rightarrow> job_manager \<Rightarrow> job_manager" where
  "run_start now attempt token jid jm =
     (if task_of jid jm \<noteq> Some Scheduled then jm
      else
        (case job_of jid jm of
           None \<Rightarrow> end_task jid jm
         | Some j \<Rightarrow>
             if jb_cancel_event j then
               (let jm' = upd_job jid (cancel_unstarted now) jm in
                end_task jid (if jb_durable j then jm' else persist_terminal_job jid jm'))
             else if jb_durable j \<and> jm_redis jm then set_task jid (Claiming token) jm
             else begin_run now attempt None jid jm))"

text \<open>An error of the claim leaves the coroutine at once: the job stays in the table as it is.\<close>

definition run_claimed :: "submission_error + bool \<Rightarrow> string \<Rightarrow> job_manager \<Rightarrow> job_manager" where
  "run_claimed answer jid jm =
     (case task_of jid jm of
        Some (Claiming token) \<Rightarrow>
          (case answer of
             Inl e \<Rightarrow> end_task jid jm
           | Inr False \<Rightarrow>
               end_task jid ((upd_job jid (jb_completed_event_update (\<lambda>_. True)) jm)\<lparr>jm_jobs := remove1 jid (jm_jobs jm)\<rparr>)
           | Inr True \<Rightarrow> set_task jid (Checking token) (jm\<lparr>jm_claimed := (jid, token) # jm_claimed jm\<rparr>))
      | _ \<Rightarrow> jm)"

definition cancel_claimed :: "time \<Rightarrow> job \<Rightarrow> job" where
  "cancel_claimed now j =
     j\<lparr>jb_cancel_event := True, jb_status := Cancelled, jb_exit_code := Some (- 1), jb_completed_at := Some now,
       jb_completed_event := True\<rparr>"

definition run_checked :: "time \<Rightarrow> string \<Rightarrow> bool \<Rightarrow> string \<Rightarrow> job_manager \<Rightarrow> job_manager" where
  "run_checked now attempt requested jid jm =
     (case task_of jid jm of
        Some (Checking token) \<Rightarrow>
          if requested then set_task jid (Reporting False) (upd_job jid (cancel_claimed now) jm)
          else begin_run now attempt (Some token) jid jm
      | _ \<Rightarrow> jm)"

definition deny_job :: "time \<Rightarrow> string \<Rightarrow> job \<Rightarrow> job" where
  "deny_job now reason j =
     j\<lparr>jb_status := Failed, jb_error := Some (''Command denied by policy: '' @ reason), jb_completed_at := Some now,
       jb_completed_event := True\<rparr>"

text \<open>The decision of the policy; \<open>None\<close> allows the command, which starts here.\<close>

definition run_policy :: "time \<Rightarrow> string option \<Rightarrow> string \<Rightarrow> job_manager \<Rightarrow> job_manager" where
  "run_policy now denied jid jm =
     (case task_of jid jm of
        Some (Starting token) \<Rightarrow>
          (case denied of
             Some reason \<Rightarrow> set_task jid (Closing token) (upd_job jid (deny_job now reason) jm)
           | None \<Rightarrow> set_task jid (Streaming token) (jm\<lparr>jm_streamed := jid # jm_streamed jm\<rparr>))
      | _ \<Rightarrow> jm)"

text \<open>A message of the stream. A character of the model is one of Python here.\<close>

datatype stream_item = StdoutChunk string | StderrChunk string | ExitStatus int

definition TRUNCATED :: string where
  "TRUNCATED = CHR 0x0A # ''... [output truncated, exceeded 10MB]''"

definition append_output :: "string \<Rightarrow> string \<Rightarrow> string" where
  "append_output out data =
     (let remaining = MAX_STDOUT_SIZE - length out in
      if remaining = 0 then out
      else
        (let out' = out @ take remaining data in
         if remaining < length data \<and> \<not> str_in ''[truncated]'' out' then out' @ TRUNCATED else out'))"

fun take_item :: "stream_item \<Rightarrow> job \<Rightarrow> job" where
  "take_item (StdoutChunk data) j = j\<lparr>jb_stdout := append_output (jb_stdout j) data\<rparr>"
| "take_item (StderrChunk data) j = j\<lparr>jb_stderr := append_output (jb_stderr j) data\<rparr>"
| "take_item (ExitStatus code) j = j\<lparr>jb_exit_code := Some code\<rparr>"

definition run_item :: "stream_item \<Rightarrow> string \<Rightarrow> job_manager \<Rightarrow> job_manager" where
  "run_item item jid jm = (case task_of jid jm of Some (Streaming token) \<Rightarrow> upd_job jid (take_item item) jm | _ \<Rightarrow> jm)"

definition exit_text :: "int option \<Rightarrow> string" where
  "exit_text code =
     ''Exit code: '' @ (case code of None \<Rightarrow> ''None'' | Some n \<Rightarrow> if n < 0 then CHR ''-'' # nat_str (nat (- n)) else nat_str (nat n))"

definition AMBIGUOUS_ERROR :: string where
  "AMBIGUOUS_ERROR = ''Local SSH channel interrupted after cancellation; remote command outcome is unproven''"

definition finish_job :: "int option \<Rightarrow> job \<Rightarrow> job" where
  "finish_job code j =
     (if code = Some 0 then j\<lparr>jb_status := Completed\<rparr> else j\<lparr>jb_status := Failed, jb_error := Some (exit_text code)\<rparr>)"

definition classify_cancelled_stream_outcome :: "job \<Rightarrow> job" where
  "classify_cancelled_stream_outcome j =
     (case jb_exit_code j of
        Some n \<Rightarrow>
          if 0 \<le> n then finish_job (Some n) j
          else j\<lparr>jb_status := Ambiguous, jb_error := Some AMBIGUOUS_ERROR, jb_interrupted := True\<rparr>
      | None \<Rightarrow>
          j\<lparr>jb_exit_code := Some (- 1), jb_status := Ambiguous, jb_error := Some AMBIGUOUS_ERROR, jb_interrupted := True\<rparr>)"

text \<open>How the stream ended: by itself, or by an exception with a message.\<close>

definition stream_outcome :: "string option \<Rightarrow> job \<Rightarrow> job" where
  "stream_outcome failure j =
     (case failure of
        Some msg \<Rightarrow> j\<lparr>jb_status := Failed, jb_error := Some msg\<rparr>
      | None \<Rightarrow> if jb_cancel_event j then classify_cancelled_stream_outcome j else finish_job (jb_exit_code j) j)"

definition run_stream_end :: "string option \<Rightarrow> string \<Rightarrow> job_manager \<Rightarrow> job_manager" where
  "run_stream_end failure jid jm =
     (case task_of jid jm of
        Some (Streaming token) \<Rightarrow> set_task jid (Closing token) (upd_job jid (stream_outcome failure) jm)
      | _ \<Rightarrow> jm)"

definition close_job :: "time \<Rightarrow> job \<Rightarrow> job" where
  "close_job now j =
     (if jb_status j \<in> set TERMINAL_STATES then j\<lparr>jb_completed_at := Some now, jb_completed_event := True\<rparr> else j)"

text \<open>The \<open>finally\<close> block: a durable job is reported, another one is saved; what is not terminal is left as it is.\<close>

definition run_close :: "time \<Rightarrow> string \<Rightarrow> job_manager \<Rightarrow> job_manager" where
  "run_close now jid jm =
     (case (task_of jid jm, record_of jid jm) of
        (Some (Closing token), Some j) \<Rightarrow>
          if token \<noteq> None \<and> jb_status j \<in> set TERMINAL_STATES then set_task jid (Reporting True) jm
          else end_task jid (upd_job jid (close_job now) (persist_terminal_job jid jm))
      | _ \<Rightarrow> jm)"

text \<open>The answer of \<open>finish_durable_execution\<close>.\<close>

definition run_reported :: "time \<Rightarrow> bool \<Rightarrow> string \<Rightarrow> job_manager \<Rightarrow> job_manager" where
  "run_reported now persisted jid jm =
     (case task_of jid jm of
        Some (Reporting executed) \<Rightarrow>
          end_task jid
            (upd_job jid (\<lambda>j. (if executed then close_job now else id) (j\<lparr>jb_persisted := Some persisted\<rparr>)) jm)
      | _ \<Rightarrow> jm)"

subsection \<open>Heartbeats and the supervisor\<close>

text \<open>One tick of \<open>_heartbeat_loop\<close>: the answers of the renewal and of the look for a cancellation.\<close>

definition heartbeat_tick :: "time \<Rightarrow> bool \<Rightarrow> bool \<Rightarrow> job \<Rightarrow> job" where
  "heartbeat_tick now ok requested j =
     (if \<not> ok then j\<lparr>jb_cancel_event := True\<rparr>
      else
        j\<lparr>jb_last_heartbeat := Some now, jb_heartbeat_seq := jb_heartbeat_seq j + 1,
          jb_cancel_event := (jb_cancel_event j \<or> requested)\<rparr>)"

definition nondurable_heartbeat_tick :: "time \<Rightarrow> job \<Rightarrow> job" where
  "nondurable_heartbeat_tick now j =
     (if jb_status j = Running then j\<lparr>jb_last_heartbeat := Some now, jb_heartbeat_seq := jb_heartbeat_seq j + 1\<rparr> else j)"

definition run_heartbeat :: "time \<Rightarrow> bool \<Rightarrow> bool \<Rightarrow> string \<Rightarrow> job_manager \<Rightarrow> job_manager" where
  "run_heartbeat now ok requested jid jm =
     (case task_of jid jm of
        Some (Starting token) \<Rightarrow>
          upd_job jid (if token = None then nondurable_heartbeat_tick now else heartbeat_tick now ok requested) jm
      | Some (Streaming token) \<Rightarrow>
          upd_job jid (if token = None then nondurable_heartbeat_tick now else heartbeat_tick now ok requested) jm
      | _ \<Rightarrow> jm)"

text \<open>One sweep of \<open>_stale_detection_loop\<close> over one job.\<close>

definition sweep_job :: "time \<Rightarrow> rat \<Rightarrow> job \<Rightarrow> job" where
  "sweep_job now threshold j =
     (if jb_status j \<noteq> Running then j
      else
        (case jb_last_heartbeat j of
           None \<Rightarrow> j
         | Some t \<Rightarrow>
             if now - t \<le> threshold then if jb_stale j then j\<lparr>jb_stale := False, jb_stale_since := None\<rparr> else j
             else if jb_stale j then j else j\<lparr>jb_stale := True, jb_stale_since := Some now\<rparr>))"

definition sweep :: "time \<Rightarrow> rat \<Rightarrow> job_manager \<Rightarrow> job_manager" where
  "sweep now threshold jm = fold (\<lambda>jid. upd_job jid (sweep_job now threshold)) (jm_jobs jm) jm"

subsection \<open>Cancellation and clean-up\<close>

text \<open>\<open>cancel_job\<close> up to the request to Redis, which only a durable job makes, and from its answer on.\<close>

definition cancel_check :: "string \<Rightarrow> job_manager \<Rightarrow> job_error + job" where
  "cancel_check jid jm =
     (case job_of jid jm of
        None \<Rightarrow> Inl JobMissing
      | Some j \<Rightarrow>
          if jb_status j \<notin> set ACTIVE_STATES then Inl (NotCancellable (jb_status j))
          else if jb_durable j \<and> \<not> jm_redis jm then Inl (Submission SubmissionUnavailable)
          else Inr j)"

definition cancel_now :: "time \<Rightarrow> job \<Rightarrow> job" where
  "cancel_now now j = j\<lparr>jb_cancel_event := True, jb_status := Cancelled, jb_completed_at := Some now, jb_completed_event := True\<rparr>"

definition cancel_local_job :: "time \<Rightarrow> job \<Rightarrow> job" where
  "cancel_local_job now j =
     (if jb_status j = Pending then cancel_now now j else j\<lparr>jb_cancel_event := True, jb_status := Cancelling\<rparr>)"

definition cancel_local :: "time \<Rightarrow> string \<Rightarrow> job_manager \<Rightarrow> (job_error + job_status) \<times> job_manager" where
  "cancel_local now jid jm =
     (let jm' = upd_job jid (cancel_local_job now) jm in
      (case record_of jid jm' of None \<Rightarrow> Inl JobMissing | Some j \<Rightarrow> Inr (jb_status j), jm'))"

definition cancel_job :: "time \<Rightarrow> string \<Rightarrow> job_manager \<Rightarrow> (job_error + job_status) option \<times> job_manager" where
  "cancel_job now jid jm =
     (case cancel_check jid jm of
        Inl e \<Rightarrow> (Some (Inl e), jm)
      | Inr j \<Rightarrow>
          if jb_durable j then (None, jm\<lparr>jm_cancels := jid # jm_cancels jm\<rparr>) else map_prod Some id (cancel_local now jid jm))"

definition cancel_answered ::
    "time \<Rightarrow> submission_error + string option \<Rightarrow> string \<Rightarrow> job_manager \<Rightarrow> (job_error + job_status) \<times> job_manager" where
  "cancel_answered now answer jid jm =
     (let jm' = jm\<lparr>jm_cancels := remove1 jid (jm_cancels jm)\<rparr> in
      case answer of
        Inl e \<Rightarrow> (Inl (Submission e), jm')
      | Inr s \<Rightarrow>
          if s = Some ''cancelled'' then (Inr Cancelled, upd_job jid (cancel_now now) jm')
          else if s \<noteq> Some ''cancelling'' then (Inl NoLongerCancellable, jm')
          else cancel_local now jid jm')"

text \<open>\<open>cleanup_old_jobs\<close>\<close>

definition is_old :: "time \<Rightarrow> job_manager \<Rightarrow> string \<Rightarrow> bool" where
  "is_old now jm jid =
     (case record_of jid jm of
        Some j \<Rightarrow> (case jb_completed_at j of Some t \<Rightarrow> t \<noteq> 0 \<and> t < now - 3600 | None \<Rightarrow> False)
      | None \<Rightarrow> False)"

definition cleanup_jobs :: "time \<Rightarrow> job_manager \<Rightarrow> nat \<times> job_manager" where
  "cleanup_jobs now jm =
     (length (filter (is_old now jm) (jm_jobs jm)), jm\<lparr>jm_jobs := filter (\<lambda>jid. \<not> is_old now jm jid) (jm_jobs jm)\<rparr>)"

text \<open>
  \<open>force_cleanup\<close>. A cancelled task runs its \<open>finally\<close> blocks: where the job is started and its status terminal, the
  report is still made. Tasks in \<open>unjoined\<close> swallow the cancellation and go on.
\<close>

definition force_job :: "time \<Rightarrow> job \<Rightarrow> job" where
  "force_job now j =
     (let j' = j\<lparr>jb_cancel_event := True\<rparr> in
      if jb_status j = Pending then cancel_unstarted now j'
      else if jb_status j \<in> {Running, Cancelling} then j'\<lparr>jb_status := Cancelling\<rparr>
      else j')"

definition cancel_task :: "string \<Rightarrow> job_manager \<Rightarrow> job_manager" where
  "cancel_task jid jm =
     (case (task_of jid jm, record_of jid jm) of
        (Some (Starting token), Some j) \<Rightarrow>
          if jb_status j \<in> set TERMINAL_STATES then set_task jid (Closing token) jm else end_task jid jm
      | (Some (Streaming token), Some j) \<Rightarrow>
          if jb_status j \<in> set TERMINAL_STATES then set_task jid (Closing token) jm else end_task jid jm
      | _ \<Rightarrow> end_task jid jm)"

definition proven_terminal :: "job_manager \<Rightarrow> string list" where
  "proven_terminal jm =
     filter (\<lambda>jid. case record_of jid jm of Some j \<Rightarrow> jb_status j \<in> set TERMINAL_STATES | None \<Rightarrow> False) (jm_jobs jm)"

definition force_cleanup :: "time \<Rightarrow> string list \<Rightarrow> job_manager \<Rightarrow> nat \<times> job_manager" where
  "force_cleanup now unjoined jm =
     (let forced = fold (\<lambda>jid. upd_job jid (force_job now)) (jm_jobs jm) jm;
          saved = proven_terminal forced;
          tasks = filter (\<lambda>jid. jid \<notin> set unjoined) (map fst (jm_tasks jm));
          stopped = fold cancel_task tasks (forced\<lparr>jm_jobs := []\<rparr>);
          released = fold release_job_session_lease (jm_jobs jm) stopped in
      (length (jm_jobs jm), fold persist_terminal_job saved released))"

subsection \<open>Queries\<close>

definition get_job_status :: "string \<Rightarrow> job_manager \<Rightarrow> job_error + string" where
  "get_job_status jid jm = (case job_of jid jm of None \<Rightarrow> Inl SessionMissing | Some j \<Rightarrow> Inr (status_name (jb_status j)))"

definition list_jobs :: "string \<Rightarrow> string \<Rightarrow> job_manager \<Rightarrow> job list" where
  "list_jobs session status jm =
     filter (\<lambda>j. (session = [] \<or> jb_session_id j = session) \<and> (status = [] \<or> status_name (jb_status j) = status))
       (List.map_filter (\<lambda>jid. record_of jid jm) (jm_jobs jm))"

text \<open>\<open>wait_for_completion\<close>: what it answers at once, and whether a waiter is woken.\<close>

definition wait_for_completion :: "string \<Rightarrow> string \<Rightarrow> job_manager \<Rightarrow> job_error + job option" where
  "wait_for_completion jid identity jm =
     (case job_of jid jm of
        None \<Rightarrow> Inl JobMissing
      | Some j \<Rightarrow>
          if jb_owner_id j \<noteq> identity then Inl WrongOwner
          else if jb_status j \<in> set TERMINAL_STATES \<or> jb_completed_event j then Inr (Some j)
          else Inr None)"

definition wait_for_all_jobs_done :: "job_manager \<Rightarrow> bool" where
  "wait_for_all_jobs_done jm \<longleftrightarrow> active_jobs jm = 0"

text \<open>\<open>resolve_submission_claim_in_memory\<close>\<close>

fun match_jobs :: "(string \<Rightarrow> string) \<Rightarrow> string \<Rightarrow> bool \<Rightarrow> (string \<times> job) list \<Rightarrow> binding option \<Rightarrow> submission_error + binding option" where
  "match_jobs sha key family [] found = Inr found"
| "match_jobs sha key family ((jid, j) # jobs) found =
     (let go_on =
        (let candidate = \<lparr>bd_job_id = jid, bd_owner_id = jb_owner_id j,
               bd_payload_hash = submission_payload_hash sha (jb_session_id j) (jb_command j) (jb_stdin j) (jb_timeout j)\<rparr> in
         if found \<noteq> None \<and> found \<noteq> Some candidate then Inl SubmissionUnavailable
         else match_jobs sha key family jobs (Some candidate)) in
      case jb_submission_key j of
        None \<Rightarrow> match_jobs sha key family jobs found
      | Some k \<Rightarrow>
          if k = [] then match_jobs sha key family jobs found
          else if family then
            if \<not> startswith k key then match_jobs sha key family jobs found
            else if length (drop (length key) k) \<noteq> 32 \<or> \<not> list_all is_hex (drop (length key) k) then Inl SubmissionUnavailable
            else go_on
          else if k \<noteq> key then match_jobs sha key family jobs found
          else go_on)"

definition resolve_submission_claim_in_memory ::
    "(string \<Rightarrow> string) \<Rightarrow> string \<Rightarrow> bool \<Rightarrow> job_manager \<Rightarrow> submission_error + binding option" where
  "resolve_submission_claim_in_memory sha key family jm =
     (if key = [] \<or> family \<and> (\<not> startswith key ''task:'' \<or> \<not> endswith key '':attempt:'') then Inr None
      else match_jobs sha key family (List.map_filter (\<lambda>jid. map_option (Pair jid) (record_of jid jm)) (jm_jobs jm)) None)"

subsection \<open>Listeners\<close>

text \<open>\<open>notify_listeners\<close> on one queue: a full queue drops output, and its oldest event for a control event.\<close>

definition SSE_LISTENER_QUEUE_SIZE :: nat where
  "SSE_LISTENER_QUEUE_SIZE = 256"

definition offer_event :: "('e \<Rightarrow> bool) \<Rightarrow> 'e \<Rightarrow> 'e list \<Rightarrow> 'e list" where
  "offer_event is_output event queue =
     (if length queue < SSE_LISTENER_QUEUE_SIZE then queue @ [event]
      else if is_output event then queue
      else tl queue @ [event])"

definition notify_listeners :: "('e \<Rightarrow> bool) \<Rightarrow> 'e \<Rightarrow> 'e list list \<Rightarrow> 'e list list" where
  "notify_listeners is_output event queues = map (offer_event is_output event) queues"

end
