(* ===== verification/JobRuns.thy ===== *)
theory JobRuns
  imports JobManager
begin

text \<open>
  What holds of the jobs of one gateway whatever the awaited calls answer and in whatever order the tasks go on: the
  leases of the sessions, the life of a job that is not durable, the claim before the command of one that is.
\<close>

subsection \<open>The steps of a gateway\<close>

text \<open>Jobs are recovered at the start, so a job of an envelope is new or still in the table.\<close>

inductive gateway_step :: "job_manager \<Rightarrow> job_manager \<Rightarrow> bool" where
  created: "record_of fresh jm = None \<Longrightarrow> (\<forall>jid. reserved = Inr (jid, True) \<longrightarrow> jid = fresh) \<Longrightarrow>
     gateway_step jm
       (snd (create_job found found_again pinned reserved fresh (new_job session command owner redact stdin timeout key) jm))"
| recovered: "jm_redis jm \<Longrightarrow>
     (\<forall>jid j. envelope_job decode env = Some (jid, j) \<longrightarrow> jid \<in> set (jm_jobs jm) \<or> record_of jid jm = None) \<Longrightarrow>
     gateway_step jm (snd (recover_job decode now session_up pinned env jm))"
| started: "gateway_step jm (run_start now attempt token jid jm)"
| claim_answered: "gateway_step jm (run_claimed answer jid jm)"
| checked: "gateway_step jm (run_checked now attempt requested jid jm)"
| decided: "gateway_step jm (run_policy now denied jid jm)"
| streamed: "gateway_step jm (run_item item jid jm)"
| stream_ended: "gateway_step jm (run_stream_end failure jid jm)"
| closed: "gateway_step jm (run_close now jid jm)"
| reported: "gateway_step jm (run_reported now persisted jid jm)"
| beaten: "gateway_step jm (run_heartbeat now ok requested jid jm)"
| swept: "gateway_step jm (sweep now threshold jm)"
| cancelled: "gateway_step jm (snd (cancel_job now jid jm))"
| cancel_replied: "jid \<in> set (jm_cancels jm) \<Longrightarrow> gateway_step jm (snd (cancel_answered now reply jid jm))"
| cleaned: "gateway_step jm (snd (cleanup_jobs now jm))"
| forced: "gateway_step jm (snd (force_cleanup now unjoined jm))"

inductive gateway_run :: "nat \<Rightarrow> bool \<Rightarrow> job_manager \<Rightarrow> bool" for max_jobs redis where
  run_new: "gateway_run max_jobs redis (new_job_manager max_jobs redis)"
| run_step: "gateway_run max_jobs redis jm \<Longrightarrow> gateway_step jm jm' \<Longrightarrow> gateway_run max_jobs redis jm'"

subsection \<open>What the operations touch\<close>

lemma record_upd [simp]:
  "record_of k (upd_job jid f jm) = (if k = jid then map_option f (record_of jid jm) else record_of k jm)"
  by (auto simp: upd_job_def  split: option.split)

lemma upd_job_fields [simp]:
  "jm_jobs (upd_job jid f jm) = jm_jobs jm" "jm_tasks (upd_job jid f jm) = jm_tasks jm"
  "jm_leases (upd_job jid f jm) = jm_leases jm" "jm_pins (upd_job jid f jm) = jm_pins jm"
  "jm_cancels (upd_job jid f jm) = jm_cancels jm" "jm_claimed (upd_job jid f jm) = jm_claimed jm"
  "jm_streamed (upd_job jid f jm) = jm_streamed jm" "jm_saved (upd_job jid f jm) = jm_saved jm"
  "jm_max_jobs (upd_job jid f jm) = jm_max_jobs jm" "jm_redis (upd_job jid f jm) = jm_redis jm"
  "task_of k (upd_job jid f jm) = task_of k jm"
  by (auto simp: upd_job_def task_of_def split: option.split)

lemma release_fields [simp]:
  "jm_records (release_job_session_lease jid jm) = jm_records jm" "jm_jobs (release_job_session_lease jid jm) = jm_jobs jm"
  "jm_tasks (release_job_session_lease jid jm) = jm_tasks jm" "jm_cancels (release_job_session_lease jid jm) = jm_cancels jm"
  "jm_claimed (release_job_session_lease jid jm) = jm_claimed jm"
  "jm_streamed (release_job_session_lease jid jm) = jm_streamed jm" "jm_saved (release_job_session_lease jid jm) = jm_saved jm"
  "jm_max_jobs (release_job_session_lease jid jm) = jm_max_jobs jm" "jm_redis (release_job_session_lease jid jm) = jm_redis jm"
  "task_of k (release_job_session_lease jid jm) = task_of k jm"
  by (auto simp: release_job_session_lease_def task_of_def split: option.split)

lemma set_task_fields [simp]:
  "jm_records (set_task jid t jm) = jm_records jm" "jm_jobs (set_task jid t jm) = jm_jobs jm"
  "jm_leases (set_task jid t jm) = jm_leases jm" "jm_pins (set_task jid t jm) = jm_pins jm"
  "jm_cancels (set_task jid t jm) = jm_cancels jm" "jm_claimed (set_task jid t jm) = jm_claimed jm"
  "jm_streamed (set_task jid t jm) = jm_streamed jm" "jm_saved (set_task jid t jm) = jm_saved jm"
  "jm_max_jobs (set_task jid t jm) = jm_max_jobs jm" "jm_redis (set_task jid t jm) = jm_redis jm"
  "task_of k (set_task jid t jm) = (if k = jid then Some t else task_of k jm)"
  by (auto simp: set_task_def task_of_def )

lemma end_task_fields [simp]:
  "jm_records (end_task jid jm) = jm_records jm" "jm_jobs (end_task jid jm) = jm_jobs jm"
  "jm_cancels (end_task jid jm) = jm_cancels jm" "jm_claimed (end_task jid jm) = jm_claimed jm"
  "jm_streamed (end_task jid jm) = jm_streamed jm" "jm_saved (end_task jid jm) = jm_saved jm"
  "jm_max_jobs (end_task jid jm) = jm_max_jobs jm" "jm_redis (end_task jid jm) = jm_redis jm"
  "task_of k (end_task jid jm) = (if k = jid then None else task_of k jm)"
  by (auto simp: end_task_def) (auto simp: task_of_def dict_get_delete)

lemma persist_fields [simp]:
  "jm_records (persist_terminal_job jid jm) = jm_records jm" "jm_jobs (persist_terminal_job jid jm) = jm_jobs jm"
  "jm_tasks (persist_terminal_job jid jm) = jm_tasks jm" "jm_leases (persist_terminal_job jid jm) = jm_leases jm"
  "jm_pins (persist_terminal_job jid jm) = jm_pins jm" "jm_cancels (persist_terminal_job jid jm) = jm_cancels jm"
  "jm_claimed (persist_terminal_job jid jm) = jm_claimed jm" "jm_streamed (persist_terminal_job jid jm) = jm_streamed jm"
  "jm_max_jobs (persist_terminal_job jid jm) = jm_max_jobs jm" "jm_redis (persist_terminal_job jid jm) = jm_redis jm"
  "task_of k (persist_terminal_job jid jm) = task_of k jm"
  by (auto simp: persist_terminal_job_def task_of_def split: option.split)

lemma task_of_fields [simp]:
  "task_of k (jm\<lparr>jm_jobs := js\<rparr>) = task_of k jm" "task_of k (jm\<lparr>jm_claimed := cs\<rparr>) = task_of k jm"
  "task_of k (jm\<lparr>jm_streamed := ss\<rparr>) = task_of k jm" "task_of k (jm\<lparr>jm_cancels := qs\<rparr>) = task_of k jm"
  "task_of k (jm\<lparr>jm_pins := ps\<rparr>) = task_of k jm"
  by (auto simp: task_of_def)

lemma accept_fields [simp]:
  "record_of k (accept_job jid j jm) = (if k = jid then Some j else record_of k jm)"
  "task_of k (accept_job jid j jm) = (if k = jid then Some Scheduled else task_of k jm)"
  "jm_jobs (accept_job jid j jm) = jm_jobs jm @ [jid]" "jm_streamed (accept_job jid j jm) = jm_streamed jm"
  "jm_claimed (accept_job jid j jm) = jm_claimed jm" "jm_pins (accept_job jid j jm) = jm_pins jm"
  "jm_leases (accept_job jid j jm) = AList.update jid (jb_session_id j) (jm_leases jm)"
  "jm_max_jobs (accept_job jid j jm) = jm_max_jobs jm" "jm_redis (accept_job jid j jm) = jm_redis jm"
  by (auto simp: accept_job_def task_of_def )

subsection \<open>Leases\<close>

text \<open>Each lease of a job pins its session once, and belongs to a task that still runs.\<close>

definition leases_ok :: "job_manager \<Rightarrow> bool" where
  "leases_ok jm \<longleftrightarrow>
     dict_ok (jm_leases jm) \<and> mset (jm_pins jm) = mset (map snd (jm_leases jm))
     \<and> (\<forall>k. map_of (jm_leases jm) k \<noteq> None \<longrightarrow> task_of k jm \<noteq> None)"

lemma mset_delete:
  "dict_ok d \<Longrightarrow> map_of d k = Some v \<Longrightarrow>
     image_mset snd (mset d) = add_mset v (image_mset snd (mset (AList.delete k d)))"
proof (induction d)
  case (Cons e d)
  obtain k' v' where e: "e = (k', v')" by (cases e)
  have d: "dict_ok d" "k' \<notin> fst ` set d" using Cons.prems(1) e by (auto simp: dict_ok_def)
  show ?case
  proof (cases "k' = k")
    case True
    then have "AList.delete k d = d" using d(2) by simp
    then show ?thesis using Cons.prems(2) True e by simp
  next
    case False
    then have "image_mset snd (mset d) = add_mset v (image_mset snd (mset (AList.delete k d)))"
      using Cons.prems(2) Cons.IH [OF d(1)] e by simp
    then show ?thesis using False e by simp
  qed
qed simp

lemma mset_update_new:
  "map_of d k = None \<Longrightarrow> image_mset snd (mset (AList.update k v d)) = add_mset v (image_mset snd (mset d))"
  by (induction d) (auto simp: add_mset_commute split: if_splits)

lemma leases_ok_release: "leases_ok jm \<Longrightarrow> leases_ok (release_job_session_lease jid jm)"
  by (auto simp: leases_ok_def release_job_session_lease_def task_of_def dict_get_delete mset_delete split: option.split)

lemma map_of_leases_release:
  "map_of (jm_leases (release_job_session_lease jid jm)) k = (if k = jid then None else map_of (jm_leases jm) k)"
  by (auto simp: release_job_session_lease_def dict_get_delete split: option.split)

lemma leases_ok_end: "leases_ok jm \<Longrightarrow> leases_ok (end_task jid jm)"
proof -
  assume ok: "leases_ok jm"
  have "leases_ok (release_job_session_lease jid jm)" by (rule leases_ok_release [OF ok])
  moreover have "jm_leases (end_task jid jm) = jm_leases (release_job_session_lease jid jm)"
    "jm_pins (end_task jid jm) = jm_pins (release_job_session_lease jid jm)"
    by (auto simp: end_task_def release_job_session_lease_def split: option.split)
  ultimately show ?thesis by (auto simp: leases_ok_def map_of_leases_release split: if_splits)
qed

lemma leases_ok_set_task [simp, intro]: "leases_ok jm \<Longrightarrow> leases_ok (set_task jid t jm)"
  by (auto simp: leases_ok_def)

lemma leases_ok_upd [simp]: "leases_ok (upd_job jid f jm) = leases_ok jm"
  by (auto simp: leases_ok_def)

lemma leases_ok_fields [simp]:
  "leases_ok (persist_terminal_job jid jm) = leases_ok jm" "leases_ok (jm\<lparr>jm_jobs := js\<rparr>) = leases_ok jm"
  "leases_ok (jm\<lparr>jm_claimed := cs\<rparr>) = leases_ok jm" "leases_ok (jm\<lparr>jm_streamed := ss\<rparr>) = leases_ok jm"
  "leases_ok (jm\<lparr>jm_cancels := qs\<rparr>) = leases_ok jm"
  by (auto simp: leases_ok_def)

lemma leases_ok_accept:
  "leases_ok jm \<Longrightarrow> task_of jid jm = None \<Longrightarrow>
     leases_ok (accept_job jid j (jm\<lparr>jm_pins := jb_session_id j # jm_pins jm\<rparr>))"
proof -
  assume ok: "leases_ok jm" "task_of jid jm = None"
  then have "map_of (jm_leases jm) jid = None" by (auto simp: leases_ok_def)
  then show ?thesis using ok mset_update_new [of "jm_leases jm" jid "jb_session_id j"] by (auto simp: leases_ok_def)
qed

subsection \<open>One job\<close>

abbreviation terminal :: "job \<Rightarrow> bool" where
  "terminal j \<equiv> jb_status j \<in> set TERMINAL_STATES"

definition OUTPUT_BOUND :: nat where
  "OUTPUT_BOUND = MAX_STDOUT_SIZE + length TRUNCATED"

text \<open>The state of a job that is not durable, by the state of its task.\<close>

definition plain_ok :: "task_state option \<Rightarrow> bool \<Rightarrow> bool \<Rightarrow> job \<Rightarrow> bool" where
  "plain_ok t live s j \<longleftrightarrow>
     (jb_status j = Cancelled \<longrightarrow> \<not> s) \<and> (jb_completed_event j \<or> jb_completed_at j \<noteq> None \<longrightarrow> terminal j)
     \<and> (jb_status j \<in> {Pending, Running} \<longrightarrow> live)
     \<and> (case t of
          None \<Rightarrow> jb_status j \<notin> {Pending, Running}
        | Some Scheduled \<Rightarrow> (jb_status j = Pending \<or> jb_status j = Cancelled \<and> jb_cancel_event j) \<and> \<not> s
        | Some (Starting token) \<Rightarrow> token = None \<and> jb_status j \<in> {Running, Cancelling}
        | Some (Streaming token) \<Rightarrow> token = None \<and> jb_status j \<in> {Running, Cancelling}
        | Some (Closing token) \<Rightarrow> token = None \<and> jb_status j \<in> {Completed, Failed, Ambiguous}
        | _ \<Rightarrow> False)"

definition claimed_ok :: "task_state option \<Rightarrow> bool \<Rightarrow> string set \<Rightarrow> bool" where
  "claimed_ok t s c \<longleftrightarrow>
     (s \<longrightarrow> c \<noteq> {})
     \<and> (case t of
          Some (Checking token) \<Rightarrow> token \<in> c
        | Some (Starting token) \<Rightarrow> token \<in> Some ` c
        | Some (Streaming token) \<Rightarrow> token \<in> Some ` c
        | Some (Closing token) \<Rightarrow> token \<in> Some ` c
        | _ \<Rightarrow> True)"

definition view_ok :: "bool \<Rightarrow> task_state option \<Rightarrow> bool \<Rightarrow> bool \<Rightarrow> string set \<Rightarrow> job option \<Rightarrow> bool" where
  "view_ok redis t live s c r \<longleftrightarrow>
     (case r of
        None \<Rightarrow> t = None \<and> \<not> live \<and> \<not> s
      | Some j \<Rightarrow>
          length (jb_stdout j) \<le> OUTPUT_BOUND \<and> length (jb_stderr j) \<le> OUTPUT_BOUND
          \<and> (if jb_durable j then redis \<and> claimed_ok t s c else plain_ok t live s j))"

definition tokens_of :: "string \<Rightarrow> job_manager \<Rightarrow> string set" where
  "tokens_of k jm = {t. (k, t) \<in> set (jm_claimed jm)}"

definition job_ok :: "job_manager \<Rightarrow> string \<Rightarrow> bool" where
  "job_ok jm k =
     view_ok (jm_redis jm) (task_of k jm) (k \<in> set (jm_jobs jm)) (k \<in> set (jm_streamed jm)) (tokens_of k jm) (record_of k jm)"

definition manager_ok :: "job_manager \<Rightarrow> bool" where
  "manager_ok jm \<longleftrightarrow> (\<forall>k. job_ok jm k) \<and> leases_ok jm \<and> distinct (jm_jobs jm)"

text \<open>A job stays durable or not, and one that is not keeps a terminal status.\<close>

definition keeps_job :: "job \<Rightarrow> job \<Rightarrow> bool" where
  "keeps_job j j' \<longleftrightarrow> jb_durable j' = jb_durable j \<and> (\<not> jb_durable j \<and> terminal j \<longrightarrow> jb_status j' = jb_status j)"

definition keeps :: "job_manager \<Rightarrow> job_manager \<Rightarrow> bool" where
  "keeps jm jm' \<longleftrightarrow>
     (\<forall>k j. record_of k jm = Some j \<longrightarrow> (\<exists>j'. record_of k jm' = Some j' \<and> keeps_job j j'))"

lemma keeps_job_refl [simp]: "keeps_job j j"
  by (simp add: keeps_job_def)

lemma keeps_job_trans: "keeps_job a b \<Longrightarrow> keeps_job b c \<Longrightarrow> keeps_job a c"
  by (auto simp: keeps_job_def)

lemma keeps_refl [simp]: "keeps jm jm"
  by (simp add: keeps_def)

lemma keeps_trans: "keeps a b \<Longrightarrow> keeps b c \<Longrightarrow> keeps a c"
  unfolding keeps_def using keeps_job_trans by metis

text \<open>A step that changes one job is judged by that job.\<close>

definition good :: "job_manager \<Rightarrow> job_manager \<Rightarrow> bool" where
  "good jm jm' \<longleftrightarrow> manager_ok jm' \<and> keeps jm jm' \<and> set (jm_cancels jm') \<subseteq> set (jm_cancels jm)"

lemma good_refl: "manager_ok jm \<Longrightarrow> good jm jm"
  by (simp add: good_def)

lemma good_trans: "good a b \<Longrightarrow> good b c \<Longrightarrow> good a c"
  unfolding good_def using keeps_trans by blast

definition same_but :: "string \<Rightarrow> job_manager \<Rightarrow> job_manager \<Rightarrow> bool" where
  "same_but jid jm jm' \<longleftrightarrow>
     jm_redis jm' = jm_redis jm \<and> jm_cancels jm' = jm_cancels jm
     \<and> (\<forall>k. k \<noteq> jid \<longrightarrow>
          record_of k jm' = record_of k jm \<and> task_of k jm' = task_of k jm \<and> (k \<in> set (jm_jobs jm') \<longleftrightarrow> k \<in> set (jm_jobs jm))
          \<and> (k \<in> set (jm_streamed jm') \<longleftrightarrow> k \<in> set (jm_streamed jm)) \<and> tokens_of k jm' = tokens_of k jm)"

lemma good_local:
  assumes "manager_ok jm" "same_but jid jm jm'" "leases_ok jm'" "distinct (jm_jobs jm')" "job_ok jm' jid"
    "\<And>j. record_of jid jm = Some j \<Longrightarrow> \<exists>j'. record_of jid jm' = Some j' \<and> keeps_job j j'"
  shows "good jm jm'"
proof -
  have "job_ok jm' k" for k
    using assms(1,2,5) by (cases "k = jid") (auto simp: manager_ok_def same_but_def job_ok_def)
  moreover have "keeps jm jm'"
    unfolding keeps_def
  proof (intro allI impI)
    fix k j
    assume j: "record_of k jm = Some j"
    show "\<exists>j'. record_of k jm' = Some j' \<and> keeps_job j j'"
      using j assms(2,6) by (cases "k = jid") (auto simp: same_but_def)
  qed
  moreover have "jm_cancels jm' = jm_cancels jm" using assms(2) by (simp add: same_but_def)
  ultimately show ?thesis using assms(3,4) by (simp add: good_def manager_ok_def)
qed

lemma same_but_simps [simp]:
  "same_but jid jm (end_task jid jm') = same_but jid jm jm'" "same_but jid jm (set_task jid t jm') = same_but jid jm jm'"
  "same_but jid jm (upd_job jid f jm') = same_but jid jm jm'"
  "same_but jid jm (persist_terminal_job jid jm') = same_but jid jm jm'" "same_but jid jm jm"
  "same_but jid jm (jm\<lparr>jm_streamed := jid # jm_streamed jm\<rparr>)"
  "same_but jid jm (jm\<lparr>jm_claimed := (jid, token) # jm_claimed jm\<rparr>)"
  by (auto simp: same_but_def tokens_of_def)

lemma tokens_of_simps [simp]:
  "tokens_of k (end_task jid jm) = tokens_of k jm" "tokens_of k (set_task jid t jm) = tokens_of k jm"
  "tokens_of k (upd_job jid f jm) = tokens_of k jm" "tokens_of k (persist_terminal_job jid jm) = tokens_of k jm"
  "tokens_of k (jm\<lparr>jm_streamed := ss\<rparr>) = tokens_of k jm" "tokens_of k (jm\<lparr>jm_jobs := js\<rparr>) = tokens_of k jm"
  "tokens_of k (jm\<lparr>jm_claimed := (jid, token) # cs\<rparr>) =
     (if k = jid then insert token (tokens_of k (jm\<lparr>jm_claimed := cs\<rparr>)) else tokens_of k (jm\<lparr>jm_claimed := cs\<rparr>))"
  "tokens_of k (jm\<lparr>jm_claimed := jm_claimed jm\<rparr>) = tokens_of k jm"
  by (auto simp: tokens_of_def)

lemma manager_ok_job: "manager_ok jm \<Longrightarrow> job_ok jm k"
  by (simp add: manager_ok_def)

lemma manager_ok_leases: "manager_ok jm \<Longrightarrow> leases_ok jm"
  by (simp add: manager_ok_def)

lemma manager_ok_distinct: "manager_ok jm \<Longrightarrow> distinct (jm_jobs jm)"
  by (simp add: manager_ok_def)

lemmas manager_ok_facts = manager_ok_leases manager_ok_distinct leases_ok_end leases_ok_set_task

lemma terminal_simps [simp]:
  "Completed \<in> set TERMINAL_STATES" "Failed \<in> set TERMINAL_STATES" "Cancelled \<in> set TERMINAL_STATES"
  "Ambiguous \<in> set TERMINAL_STATES" "Pending \<notin> set TERMINAL_STATES" "Running \<notin> set TERMINAL_STATES"
  "Cancelling \<notin> set TERMINAL_STATES"
  by (simp_all add: TERMINAL_STATES_def)

lemma not_terminal: "s \<notin> set TERMINAL_STATES \<longleftrightarrow> s = Pending \<or> s = Running \<or> s = Cancelling"
  by (cases s) auto

lemmas job_ok_defs = job_ok_def view_ok_def plain_ok_def claimed_ok_def

lemma persist_ok [simp]:
  "manager_ok (persist_terminal_job jid jm) = manager_ok jm" "keeps jm' (persist_terminal_job jid jm) = keeps jm' jm"
  "good jm' (persist_terminal_job jid jm) = good jm' jm"
  by (auto simp: manager_ok_def job_ok_def keeps_def good_def)

lemma job_ok_Some: "job_ok jm jid \<Longrightarrow> t = task_of jid jm \<Longrightarrow> t \<noteq> None \<Longrightarrow> record_of jid jm \<noteq> None"
  by (auto simp: job_ok_def view_ok_def split: option.splits)

text \<open>The view of a job after its record and its task changed.\<close>

definition view_moved :: "job_manager \<Rightarrow> string \<Rightarrow> task_state option \<Rightarrow> job \<Rightarrow> job \<Rightarrow> bool" where
  "view_moved jm jid t j j' \<longleftrightarrow>
     view_ok (jm_redis jm) t (jid \<in> set (jm_jobs jm)) (jid \<in> set (jm_streamed jm)) (tokens_of jid jm) (Some j')
     \<and> keeps_job j j'"

lemma good_upd:
  assumes "manager_ok jm" "\<And>j. record_of jid jm = Some j \<Longrightarrow> view_moved jm jid (task_of jid jm) j (f j)"
  shows "good jm (upd_job jid f jm)"
proof (cases "record_of jid jm")
  case None
  then show ?thesis using assms(1) by (simp add: upd_job_def good_refl)
next
  case (Some j)
  then show ?thesis
    using assms(2) [OF Some]
    by (intro good_local [OF assms(1), where jid = jid]) (auto simp: view_moved_def job_ok_def intro: manager_ok_facts assms(1))
qed

lemma good_set_upd:
  assumes "manager_ok jm" "record_of jid jm = Some j" "view_moved jm jid (Some t) j (f j)"
  shows "good jm (set_task jid t (upd_job jid f jm))"
proof (rule good_local [OF assms(1), where jid = jid])
  show "leases_ok (set_task jid t (upd_job jid f jm))"
    using manager_ok_leases [OF assms(1)] by (intro leases_ok_set_task) simp
qed (use assms(2,3) manager_ok_distinct [OF assms(1)] in \<open>auto simp: view_moved_def job_ok_def\<close>)

lemma good_set:
  assumes "manager_ok jm" "record_of jid jm = Some j" "view_moved jm jid (Some t) j j"
  shows "good jm (set_task jid t jm)"
proof (rule good_local [OF assms(1), where jid = jid])
  show "leases_ok (set_task jid t jm)"
    by (intro leases_ok_set_task manager_ok_leases [OF assms(1)])
qed (use assms(2,3) manager_ok_distinct [OF assms(1)] in \<open>auto simp: view_moved_def job_ok_def\<close>)

lemma good_end:
  assumes "manager_ok jm" "\<And>j. record_of jid jm = Some j \<Longrightarrow> view_moved jm jid None j j"
  shows "good jm (end_task jid jm)"
proof -
  have "job_ok (end_task jid jm) jid"
    using assms(2) manager_ok_job [OF assms(1), of jid]
    by (cases "record_of jid jm") (auto simp: view_moved_def job_ok_def view_ok_def)
  then show ?thesis
    by (intro good_local [OF assms(1), where jid = jid])
       (auto intro!: leases_ok_end intro: manager_ok_leases [OF assms(1)] manager_ok_distinct [OF assms(1)])
qed

lemma good_manager_ok: "good jm jm' \<Longrightarrow> manager_ok jm'"
  by (simp add: good_def)

lemma good_then: "good jm jm1 \<Longrightarrow> (manager_ok jm1 \<Longrightarrow> good jm1 jm2) \<Longrightarrow> good jm jm2"
  using good_trans good_manager_ok by blast

lemma good_end_persist:
  assumes "manager_ok jm" "\<And>j. record_of jid jm = Some j \<Longrightarrow> view_moved jm jid None j j"
  shows "good jm (end_task jid (persist_terminal_job jid jm))"
proof (rule good_then [where ?jm1.0 = "persist_terminal_job jid jm"])
  show "good jm (persist_terminal_job jid jm)" using assms(1) by (simp add: good_refl)
next
  assume "manager_ok (persist_terminal_job jid jm)"
  then show "good (persist_terminal_job jid jm) (end_task jid (persist_terminal_job jid jm))"
    by (rule good_end) (use assms(2) in \<open>auto simp: view_moved_def\<close>)
qed

lemma task_view:
  assumes "manager_ok jm" "task_of jid jm = Some t"
  obtains j where "record_of jid jm = Some j"
    "view_ok (jm_redis jm) (Some t) (jid \<in> set (jm_jobs jm)) (jid \<in> set (jm_streamed jm)) (tokens_of jid jm) (Some j)"
  using job_ok_Some [OF manager_ok_job [OF assms(1), of jid] refl] manager_ok_job [OF assms(1), of jid] assms(2)
  by (auto simp: job_ok_def)

text \<open>\<open>moves\<close> unfolds what a move of one job has to show.\<close>

lemmas moves = view_moved_def keeps_job_def view_ok_def plain_ok_def claimed_ok_def

lemma good_start:
  assumes "manager_ok jm"
  shows "good jm (run_start now attempt token jid jm)"
proof (cases "task_of jid jm = Some Scheduled")
  case True
  obtain j where j: "record_of jid jm = Some j" and view: "view_ok (jm_redis jm) (Some Scheduled) (jid \<in> set (jm_jobs jm))
      (jid \<in> set (jm_streamed jm)) (tokens_of jid jm) (Some j)"
    by (rule task_view [OF assms True])
  consider "jid \<notin> set (jm_jobs jm)" | "jid \<in> set (jm_jobs jm)" "jb_cancel_event j"
    | "jid \<in> set (jm_jobs jm)" "\<not> jb_cancel_event j" by blast
  then show ?thesis
  proof cases
    case 1
    then have "good jm (end_task jid jm)" using view j by (intro good_end [OF assms]) (auto simp: moves)
    then show ?thesis using True 1 by (simp add: run_start_def job_of_def)
  next
    case 2
    let ?jm = "upd_job jid (cancel_unstarted now) jm"
    have u: "good jm ?jm"
      using view j True 2 by (intro good_upd [OF assms]) (auto simp: moves cancel_unstarted_def)
    have v: "record_of jid ?jm = Some j' \<Longrightarrow> view_moved ?jm jid None j' j'" for j'
      using j view by (auto simp: moves cancel_unstarted_def)
    have "good jm (end_task jid ?jm)" "good jm (end_task jid (persist_terminal_job jid ?jm))"
      by (rule good_then [OF u], erule good_end, rule v, assumption)
        (rule good_then [OF u], erule good_end_persist, rule v, assumption)
    then show ?thesis using True 2 j by (simp add: run_start_def job_of_def Let_def)
  next
    case 3
    then show ?thesis
      using True j view
      by (auto simp: run_start_def job_of_def begin_run_def moves start_job_def
          intro!: good_set [OF assms j] good_set_upd [OF assms j])
  qed
qed (use assms in \<open>simp add: run_start_def good_refl\<close>)

lemma good_checked:
  assumes "manager_ok jm"
  shows "good jm (run_checked now attempt requested jid jm)"
proof (cases "\<exists>token. task_of jid jm = Some (Checking token)")
  case True
  then obtain token where t: "task_of jid jm = Some (Checking token)" by auto
  obtain j where j: "record_of jid jm = Some j" and view: "view_ok (jm_redis jm) (Some (Checking token)) (jid \<in> set (jm_jobs jm))
      (jid \<in> set (jm_streamed jm)) (tokens_of jid jm) (Some j)"
    by (rule task_view [OF assms t])
  show ?thesis
    using j t view
    by (auto simp: run_checked_def begin_run_def moves start_job_def cancel_claimed_def intro!: good_set_upd [OF assms j] split: if_splits)
qed (use assms in \<open>auto simp: run_checked_def good_refl split: option.split task_state.split\<close>)

lemma good_policy:
  assumes "manager_ok jm"
  shows "good jm (run_policy now denied jid jm)"
proof (cases "\<exists>token. task_of jid jm = Some (Starting token)")
  case True
  then obtain token where t: "task_of jid jm = Some (Starting token)" by auto
  obtain j where j: "record_of jid jm = Some j" and view: "view_ok (jm_redis jm) (Some (Starting token)) (jid \<in> set (jm_jobs jm))
      (jid \<in> set (jm_streamed jm)) (tokens_of jid jm) (Some j)"
    by (rule task_view [OF assms t])
  show ?thesis
  proof (cases denied)
    case None
    have "good jm (set_task jid (Streaming token) (jm\<lparr>jm_streamed := jid # jm_streamed jm\<rparr>))"
    proof (rule good_local [OF assms, where jid = jid])
      show "leases_ok (set_task jid (Streaming token) (jm\<lparr>jm_streamed := jid # jm_streamed jm\<rparr>))"
        using manager_ok_leases [OF assms] by (intro leases_ok_set_task) simp
    qed (use j view manager_ok_distinct [OF assms] in \<open>auto simp: job_ok_def moves\<close>)
    then show ?thesis using t None by (simp add: run_policy_def)
  next
    case (Some reason)
    then show ?thesis
      using j t view by (auto simp: run_policy_def moves deny_job_def intro!: good_set_upd [OF assms j] split: if_splits)
  qed
qed (use assms in \<open>auto simp: run_policy_def good_refl split: option.split task_state.split\<close>)

lemma append_output_bound: "length out \<le> OUTPUT_BOUND \<Longrightarrow> length (append_output out data) \<le> OUTPUT_BOUND"
  by (auto simp: append_output_def OUTPUT_BOUND_def Let_def)

lemma good_item:
  assumes "manager_ok jm"
  shows "good jm (run_item item jid jm)"
proof (cases "\<exists>token. task_of jid jm = Some (Streaming token)")
  case True
  then obtain token where t: "task_of jid jm = Some (Streaming token)" by auto
  obtain j where j: "record_of jid jm = Some j" and view: "view_ok (jm_redis jm) (Some (Streaming token)) (jid \<in> set (jm_jobs jm))
      (jid \<in> set (jm_streamed jm)) (tokens_of jid jm) (Some j)"
    by (rule task_view [OF assms t])
  have "view_moved jm jid (task_of jid jm) j (take_item item j)"
    using view t by (cases item) (auto simp: moves append_output_bound)
  then have "good jm (upd_job jid (take_item item) jm)" using j by (intro good_upd [OF assms]) auto
  then show ?thesis using t by (simp add: run_item_def)
qed (use assms in \<open>auto simp: run_item_def good_refl split: option.split task_state.split\<close>)

lemma stream_outcome_status:
  "jb_durable (stream_outcome failure j) = jb_durable j" "jb_stdout (stream_outcome failure j) = jb_stdout j"
  "jb_stderr (stream_outcome failure j) = jb_stderr j" "jb_status (stream_outcome failure j) \<in> {Completed, Failed, Ambiguous}"
  by (auto simp: stream_outcome_def classify_cancelled_stream_outcome_def finish_job_def split: option.split)

lemma good_stream_end:
  assumes "manager_ok jm"
  shows "good jm (run_stream_end failure jid jm)"
proof (cases "\<exists>token. task_of jid jm = Some (Streaming token)")
  case True
  then obtain token where t: "task_of jid jm = Some (Streaming token)" by auto
  obtain j where j: "record_of jid jm = Some j" and view: "view_ok (jm_redis jm) (Some (Streaming token)) (jid \<in> set (jm_jobs jm))
      (jid \<in> set (jm_streamed jm)) (tokens_of jid jm) (Some j)"
    by (rule task_view [OF assms t])
  have "view_moved jm jid (Some (Closing token)) j (stream_outcome failure j)"
    using view stream_outcome_status [of failure j] by (auto simp: moves)
  then have "good jm (set_task jid (Closing token) (upd_job jid (stream_outcome failure) jm))"
    using j by (intro good_set_upd [OF assms]) auto
  then show ?thesis using t by (simp add: run_stream_end_def)
qed (use assms in \<open>auto simp: run_stream_end_def good_refl split: option.split task_state.split\<close>)

lemma good_claimed:
  assumes "manager_ok jm"
  shows "good jm (run_claimed answer jid jm)"
proof (cases "\<exists>token. task_of jid jm = Some (Claiming token)")
  case True
  then obtain token where t: "task_of jid jm = Some (Claiming token)" by auto
  obtain j where j: "record_of jid jm = Some j" and view: "view_ok (jm_redis jm) (Some (Claiming token)) (jid \<in> set (jm_jobs jm))
      (jid \<in> set (jm_streamed jm)) (tokens_of jid jm) (Some j)"
    by (rule task_view [OF assms t])
  note ok = manager_ok_leases [OF assms] manager_ok_distinct [OF assms]
  consider e where "answer = Inl e" | "answer = Inr False" | "answer = Inr True" by (cases answer) auto
  then show ?thesis
  proof cases
    case 1
    have "good jm (end_task jid jm)" using j view by (intro good_end [OF assms]) (auto simp: moves split: if_splits)
    then show ?thesis using t 1 by (simp add: run_claimed_def)
  next
    case 2
    let ?jm = "(upd_job jid (jb_completed_event_update (\<lambda>_. True)) jm)\<lparr>jm_jobs := remove1 jid (jm_jobs jm)\<rparr>"
    have "good jm (end_task jid ?jm)"
    proof (rule good_local [OF assms, where jid = jid])
      show "leases_ok (end_task jid ?jm)" using ok(1) by (intro leases_ok_end) simp
      show "job_ok (end_task jid ?jm) jid" using j view ok(2) by (auto simp: job_ok_def moves split: if_splits)
    qed (use j view ok(2) in \<open>auto simp: same_but_def moves split: if_splits\<close>)
    then show ?thesis using t 2 by (simp add: run_claimed_def)
  next
    case 3
    let ?jm = "jm\<lparr>jm_claimed := (jid, token) # jm_claimed jm\<rparr>"
    have "good jm (set_task jid (Checking token) ?jm)"
    proof (rule good_local [OF assms, where jid = jid])
      show "leases_ok (set_task jid (Checking token) ?jm)" using ok(1) by (intro leases_ok_set_task) simp
    qed (use j view ok(2) in \<open>auto simp: job_ok_def moves split: if_splits\<close>)
    then show ?thesis using t 3 by (simp add: run_claimed_def)
  qed
qed (use assms in \<open>auto simp: run_claimed_def good_refl split: option.split task_state.split\<close>)

lemma good_close:
  assumes "manager_ok jm"
  shows "good jm (run_close now jid jm)"
proof (cases "\<exists>token. task_of jid jm = Some (Closing token)")
  case True
  then obtain token where t: "task_of jid jm = Some (Closing token)" by auto
  obtain j where j: "record_of jid jm = Some j" and view: "view_ok (jm_redis jm) (Some (Closing token)) (jid \<in> set (jm_jobs jm))
      (jid \<in> set (jm_streamed jm)) (tokens_of jid jm) (Some j)"
    by (rule task_view [OF assms t])
  let ?saved = "persist_terminal_job jid jm"
  have s: "good jm ?saved" using assms by (simp add: good_refl)
  have u: "good ?saved (upd_job jid (close_job now) ?saved)"
    using view j t by (intro good_upd [OF good_manager_ok [OF s]]) (auto simp: moves close_job_def tokens_of_def)
  have "good jm (end_task jid (upd_job jid (close_job now) ?saved))"
    by (rule good_then [OF good_trans [OF s u]], erule good_end)
      (use view j in \<open>auto simp: moves close_job_def tokens_of_def split: if_splits\<close>)
  moreover have "token \<noteq> None \<Longrightarrow> good jm (set_task jid (Reporting True) jm)"
    using view j by (intro good_set [OF assms j]) (auto simp: moves split: if_splits)
  ultimately show ?thesis using t j by (auto simp: run_close_def)
qed (use assms in \<open>auto simp: run_close_def good_refl split: option.split task_state.split\<close>)

lemma good_reported:
  assumes "manager_ok jm"
  shows "good jm (run_reported now persisted jid jm)"
proof (cases "\<exists>executed. task_of jid jm = Some (Reporting executed)")
  case True
  then obtain executed where t: "task_of jid jm = Some (Reporting executed)" by auto
  obtain j where j: "record_of jid jm = Some j" and view: "view_ok (jm_redis jm) (Some (Reporting executed)) (jid \<in> set (jm_jobs jm))
      (jid \<in> set (jm_streamed jm)) (tokens_of jid jm) (Some j)"
    by (rule task_view [OF assms t])
  let ?f = "\<lambda>j. (if executed then close_job now else id) (j\<lparr>jb_persisted := Some persisted\<rparr>)"
  have d: "jb_durable j" using view by (auto simp: moves split: if_splits)
  have u: "good jm (upd_job jid ?f jm)"
    using view j t d by (intro good_upd [OF assms]) (auto simp: moves close_job_def)
  have "good jm (end_task jid (upd_job jid ?f jm))"
    by (rule good_then [OF u], erule good_end) (use view j d in \<open>auto simp: moves close_job_def\<close>)
  then show ?thesis using t by (simp add: run_reported_def)
qed (use assms in \<open>auto simp: run_reported_def good_refl split: option.split task_state.split\<close>)

text \<open>A change that leaves a job that is not durable as it is, but for its cancellation event and its heartbeat.\<close>

definition mild :: "job \<Rightarrow> job \<Rightarrow> bool" where
  "mild j j' \<longleftrightarrow>
     jb_durable j' = jb_durable j \<and> jb_status j' = jb_status j \<and> jb_stdout j' = jb_stdout j \<and> jb_stderr j' = jb_stderr j
     \<and> jb_completed_at j' = jb_completed_at j \<and> jb_completed_event j' = jb_completed_event j
     \<and> (jb_cancel_event j \<longrightarrow> jb_cancel_event j')"

lemma view_mild: "mild j j' \<Longrightarrow> view_ok r t l s c (Some j) \<Longrightarrow> view_ok r t l s c (Some j')"
  by (auto simp: mild_def view_ok_def plain_ok_def split: option.splits task_state.splits)

lemma good_mild:
  assumes "manager_ok jm" "\<And>j. mild j (f j)"
  shows "good jm (upd_job jid f jm)"
proof (rule good_upd [OF assms(1)])
  fix j
  assume "record_of jid jm = Some j"
  then show "view_moved jm jid (task_of jid jm) j (f j)"
    using manager_ok_job [OF assms(1), of jid] view_mild [OF assms(2) [of j]] assms(2) [of j]
    by (auto simp: view_moved_def keeps_job_def job_ok_def mild_def)
qed

lemma good_heartbeat: "manager_ok jm \<Longrightarrow> good jm (run_heartbeat now ok requested jid jm)"
  by (auto simp: run_heartbeat_def good_refl mild_def heartbeat_tick_def nondurable_heartbeat_tick_def
      split: option.split task_state.split intro!: good_mild)

lemma good_fold:
  assumes "\<And>x jm. manager_ok jm \<Longrightarrow> good jm (f x jm)" "manager_ok jm"
  shows "good jm (fold f xs jm)"
  using assms(2)
proof (induction xs arbitrary: jm)
  case (Cons x xs)
  show ?case
    unfolding fold_Cons comp_apply by (rule good_then [OF assms(1) [OF Cons.prems]]) (rule Cons.IH)
qed (simp add: good_refl)

lemma good_sweep: "manager_ok jm \<Longrightarrow> good jm (sweep now threshold jm)"
  unfolding sweep_def
  by (rule good_fold) (auto simp: mild_def sweep_job_def split: option.split intro!: good_mild)

lemma view_cancel_now:
  assumes "view_ok r t l s c (Some j)" "jb_durable j \<or> jb_status j = Pending"
  shows "view_ok r t l s c (Some (cancel_now now j))"
  using assms by (auto simp: moves cancel_now_def split: option.splits task_state.splits if_splits)

lemma good_cancels: "manager_ok jm \<Longrightarrow> set qs \<subseteq> set (jm_cancels jm) \<Longrightarrow> good jm (jm\<lparr>jm_cancels := qs\<rparr>)"
  by (auto simp: good_def manager_ok_def job_ok_def keeps_def tokens_of_def)

lemma good_cancel_local:
  assumes "manager_ok jm" "\<And>j. record_of jid jm = Some j \<Longrightarrow> jb_durable j \<or> jb_status j \<in> set ACTIVE_STATES"
  shows "good jm (snd (cancel_local now jid jm))"
proof -
  have "good jm (upd_job jid (cancel_local_job now) jm)"
  proof (rule good_upd [OF assms(1)])
    fix j
    assume j: "record_of jid jm = Some j"
    have v: "view_ok (jm_redis jm) (task_of jid jm) (jid \<in> set (jm_jobs jm)) (jid \<in> set (jm_streamed jm)) (tokens_of jid jm) (Some j)"
      using manager_ok_job [OF assms(1), of jid] j by (simp add: job_ok_def)
    show "view_moved jm jid (task_of jid jm) j (cancel_local_job now j)"
      using v assms(2) [OF j] view_cancel_now [OF v, of now]
      by (auto simp: view_moved_def keeps_job_def cancel_local_job_def ACTIVE_STATES_def cancel_now_def)
        (auto simp: moves split: option.splits task_state.splits if_splits)
  qed
  then show ?thesis by (simp add: cancel_local_def Let_def)
qed

definition cancels_ok :: "job_manager \<Rightarrow> bool" where
  "cancels_ok jm \<longleftrightarrow> (\<forall>k \<in> set (jm_cancels jm). \<exists>j. record_of k jm = Some j \<and> jb_durable j)"

lemma good_cancels_ok:
  assumes "good jm jm'" "cancels_ok jm"
  shows "cancels_ok jm'"
  unfolding cancels_ok_def
proof
  fix k
  assume "k \<in> set (jm_cancels jm')"
  then have "k \<in> set (jm_cancels jm)" using assms(1) by (auto simp: good_def)
  then obtain j where "record_of k jm = Some j" "jb_durable j" using assms(2) by (auto simp: cancels_ok_def)
  then show "\<exists>j. record_of k jm' = Some j \<and> jb_durable j"
    using assms(1) by (fastforce simp: good_def keeps_def keeps_job_def)
qed

lemma good_answered:
  assumes "manager_ok jm" "cancels_ok jm" "jid \<in> set (jm_cancels jm)"
  shows "good jm (snd (cancel_answered now reply jid jm))"
proof -
  let ?jm = "jm\<lparr>jm_cancels := remove1 jid (jm_cancels jm)\<rparr>"
  have q: "good jm ?jm" using assms(1) by (intro good_cancels) (auto dest: notin_set_remove1 simp: set_remove1_subset)
  obtain j where j: "record_of jid jm = Some j" "jb_durable j" using assms(2,3) by (auto simp: cancels_ok_def)
  have "good ?jm (upd_job jid (cancel_now now) ?jm)"
  proof (rule good_upd [OF good_manager_ok [OF q]])
    fix j'
    assume j': "record_of jid ?jm = Some j'"
    then have "view_ok (jm_redis ?jm) (task_of jid ?jm) (jid \<in> set (jm_jobs ?jm)) (jid \<in> set (jm_streamed ?jm)) (tokens_of jid ?jm) (Some j')"
      using manager_ok_job [OF good_manager_ok [OF q], of jid] by (simp add: job_ok_def)
    then show "view_moved ?jm jid (task_of jid ?jm) j' (cancel_now now j')"
      using view_cancel_now j' j by (auto simp: view_moved_def keeps_job_def cancel_now_def)
  qed
  moreover have "good ?jm (snd (cancel_local now jid ?jm))"
    using j by (intro good_cancel_local [OF good_manager_ok [OF q]]) simp
  ultimately show ?thesis
    using q good_trans [OF q] by (auto simp: cancel_answered_def Let_def split: sum.split)
qed

lemma cancel_job_ok:
  assumes "manager_ok jm" "cancels_ok jm"
  shows "manager_ok (snd (cancel_job now jid jm)) \<and> keeps jm (snd (cancel_job now jid jm)) \<and> cancels_ok (snd (cancel_job now jid jm))"
proof (cases "cancel_check jid jm")
  case (Inl e)
  then show ?thesis using assms by (simp add: cancel_job_def)
next
  case (Inr j)
  then have j: "record_of jid jm = Some j" "jb_status j \<in> set ACTIVE_STATES"
    by (auto simp: cancel_check_def job_of_def split: option.splits if_splits)
  show ?thesis
  proof (cases "jb_durable j")
    case True
    then show ?thesis
      using Inr j assms
      by (auto simp: cancel_job_def manager_ok_def job_ok_def keeps_def tokens_of_def cancels_ok_def)
  next
    case False
    have g: "good jm (snd (cancel_local now jid jm))" using j by (intro good_cancel_local [OF assms(1)]) auto
    then show ?thesis
      using Inr False good_cancels_ok [OF g assms(2)]
      by (simp add: cancel_job_def good_def split_beta)
  qed
qed

lemma good_cleanup:
  assumes "manager_ok jm"
  shows "good jm (snd (cleanup_jobs now jm))"
proof -
  have "job_ok (jm\<lparr>jm_jobs := filter (\<lambda>jid. \<not> is_old now jm jid) (jm_jobs jm)\<rparr>) k" for k
    using manager_ok_job [OF assms, of k]
    by (auto simp: job_ok_def moves is_old_def not_terminal split: option.splits task_state.splits if_splits)
  then show ?thesis
    using assms by (auto simp: cleanup_jobs_def good_def manager_ok_def keeps_def)
qed

text \<open>A new job.\<close>

lemma good_accept:
  assumes "manager_ok jm" "record_of jid jm = None" "jb_status j = Pending" "\<not> jb_completed_event j" "jb_completed_at j = None"
    "jb_stdout j = []" "jb_stderr j = []" "jb_durable j \<longrightarrow> jm_redis jm"
  shows "good jm (accept_job jid j (jm\<lparr>jm_pins := jb_session_id j # jm_pins jm\<rparr>))"
proof (rule good_local [OF assms(1), where jid = jid])
  have v: "task_of jid jm = None" "jid \<notin> set (jm_jobs jm)" "jid \<notin> set (jm_streamed jm)"
    using manager_ok_job [OF assms(1), of jid] assms(2) by (auto simp: job_ok_def view_ok_def)
  show "leases_ok (accept_job jid j (jm\<lparr>jm_pins := jb_session_id j # jm_pins jm\<rparr>))"
    by (rule leases_ok_accept [OF manager_ok_leases [OF assms(1)] v(1)])
  show "distinct (jm_jobs (accept_job jid j (jm\<lparr>jm_pins := jb_session_id j # jm_pins jm\<rparr>)))"
    using v manager_ok_distinct [OF assms(1)] by simp
  show "job_ok (accept_job jid j (jm\<lparr>jm_pins := jb_session_id j # jm_pins jm\<rparr>)) jid"
    using v assms by (auto simp: job_ok_def moves)
qed (use assms(2) in \<open>auto simp: same_but_def tokens_of_def accept_job_def task_of_def\<close>)

lemma create_job_cases:
  "snd (create_job found found_again pinned reserved fresh j jm)
     \<in> {jm} \<union> {accept_job jid j (jm\<lparr>jm_pins := jb_session_id j # jm_pins jm\<rparr>) | jid.
          (jb_durable j \<longrightarrow> jm_redis jm) \<and> (jid = fresh \<or> reserved = Inr (jid, True))}"
proof -
  have u: "jm\<lparr>jm_pins := remove1 x (x # jm_pins jm)\<rparr> = jm" for x by simp
  show ?thesis
    unfolding create_job_def Let_def
    by (cases "jb_durable j"; cases "jm_redis jm"; cases found; cases found_again; cases reserved)
       (auto split: option.split bool.split, blast+)
qed

lemma good_create:
  assumes "manager_ok jm" "record_of fresh jm = None" "\<forall>jid. reserved = Inr (jid, True) \<longrightarrow> jid = fresh"
  shows "good jm (snd (create_job found found_again pinned reserved fresh (new_job session command owner redact stdin timeout key) jm))"
proof -
  let ?j = "new_job session command owner redact stdin timeout key"
  have f: "jb_status ?j = Pending" "\<not> jb_completed_event ?j" "jb_completed_at ?j = None" "jb_stdout ?j = []" "jb_stderr ?j = []"
    by (simp_all add: new_job_def)
  consider "snd (create_job found found_again pinned reserved fresh ?j jm) = jm"
    | "snd (create_job found found_again pinned reserved fresh ?j jm) = accept_job fresh ?j (jm\<lparr>jm_pins := jb_session_id ?j # jm_pins jm\<rparr>)"
      "jb_durable ?j \<longrightarrow> jm_redis jm"
    using create_job_cases [of found found_again pinned reserved fresh ?j jm] assms(3) by blast
  then show ?thesis
  proof cases
    case 1
    then show ?thesis using assms(1) by (simp only: good_refl)
  next
    case 2
    show ?thesis unfolding 2(1) by (rule good_accept [OF assms(1,2) f 2(2)])
  qed
qed

lemma envelope_job_fields:
  assumes "envelope_job decode env = Some (jid, j)"
  shows "jb_status j = Pending \<and> \<not> jb_completed_event j \<and> jb_completed_at j = None \<and> jb_stdout j = [] \<and> jb_stderr j = []"
  using assms unfolding envelope_job_def
  by ((cases "jget env ''job_id''"; simp), (cases "jget env ''session_id''"; simp), (cases "jget env ''command''"; simp),
      (cases "jget_default env ''timeout'' (JInt 3600)"; simp add: new_job_def), auto simp: new_job_def)

lemma good_recover:
  assumes "manager_ok jm" "jm_redis jm"
    "\<forall>jid j. envelope_job decode env = Some (jid, j) \<longrightarrow> jid \<in> set (jm_jobs jm) \<or> record_of jid jm = None"
  shows "good jm (snd (recover_job decode now session_up pinned env jm))"
proof (cases "envelope_job decode env")
  case None
  then show ?thesis using assms(1) by (simp add: recover_job_def good_refl)
next
  case (Some p)
  obtain jid j where p: "p = (jid, j)" by (cases p)
  have j: "jb_status j = Pending" "\<not> jb_completed_event j" "jb_completed_at j = None" "jb_stdout j = []" "jb_stderr j = []"
    using envelope_job_fields Some p by blast+
  show ?thesis
  proof (cases "\<not> recoverable now env \<or> \<not> session_up \<or> jid \<in> set (jm_jobs jm) \<or> \<not> pinned")
    case True
    then show ?thesis using assms(1) Some p by (simp add: recover_job_def good_refl)
  next
    case False
    then have "record_of jid jm = None" using assms(3) Some p by blast
    then have "good jm (accept_job jid j (jm\<lparr>jm_pins := jb_session_id j # jm_pins jm\<rparr>))"
      by (rule good_accept [OF assms(1) _ j]) (use assms(2) in simp)
    then show ?thesis using False Some p by (simp add: recover_job_def)
  qed
qed

subsection \<open>The forced clean-up\<close>

lemma good_force_job: "manager_ok jm \<Longrightarrow> good jm (upd_job jid (force_job now) jm)"
proof -
  assume ok: "manager_ok jm"
  show ?thesis
  proof (rule good_upd [OF ok])
    fix j
    assume j: "record_of jid jm = Some j"
    have "view_ok (jm_redis jm) (task_of jid jm) (jid \<in> set (jm_jobs jm)) (jid \<in> set (jm_streamed jm)) (tokens_of jid jm) (Some j)"
      using manager_ok_job [OF ok, of jid] j by (simp add: job_ok_def)
    then show "view_moved jm jid (task_of jid jm) j (force_job now j)"
      by (auto simp: moves force_job_def cancel_unstarted_def Let_def split: option.splits task_state.splits if_splits)
  qed
qed

lemma force_job_status: "jb_status (force_job now j) \<notin> {Pending, Running}"
  by (auto simp: force_job_def cancel_unstarted_def Let_def)

lemma fold_upd_fields [simp]:
  "jm_jobs (fold (\<lambda>jid. upd_job jid f) ids jm) = jm_jobs jm" "jm_leases (fold (\<lambda>jid. upd_job jid f) ids jm) = jm_leases jm"
  "jm_tasks (fold (\<lambda>jid. upd_job jid f) ids jm) = jm_tasks jm"
  "task_of k (fold (\<lambda>jid. upd_job jid f) ids jm) = task_of k jm"
  "jm_max_jobs (fold (\<lambda>jid. upd_job jid f) ids jm) = jm_max_jobs jm"
  by (induction ids arbitrary: jm) auto

lemma fold_upd_record:
  "(\<And>j. P (f j)) \<Longrightarrow> k \<in> set ids \<or> (\<forall>j. record_of k jm = Some j \<longrightarrow> P j) \<Longrightarrow>
     record_of k (fold (\<lambda>jid. upd_job jid f) ids jm) = Some j \<Longrightarrow> P j"
proof (induction ids arbitrary: jm)
  case (Cons jid ids)
  have "k \<in> set ids \<or> (\<forall>j. record_of k (upd_job jid f jm) = Some j \<longrightarrow> P j)"
    using Cons.prems(1,2) by (cases "k = jid") auto
  then show ?case using Cons.IH [of "upd_job jid f jm"] Cons.prems(1,3) by simp
qed simp

lemma good_cancel_task:
  assumes "manager_ok jm" "jm_jobs jm = []"
  shows "good jm (cancel_task jid jm)"
proof (cases "record_of jid jm")
  case None
  then have "good jm (end_task jid jm)" by (intro good_end [OF assms(1)]) simp
  then show ?thesis using None by (auto simp: cancel_task_def split: option.split task_state.split)
next
  case (Some j)
  have v: "view_ok (jm_redis jm) (task_of jid jm) False (jid \<in> set (jm_streamed jm)) (tokens_of jid jm) (Some j)"
    using manager_ok_job [OF assms(1), of jid] Some assms(2) by (simp add: job_ok_def)
  have e: "good jm (end_task jid jm)"
    using Some v assms(2) by (intro good_end [OF assms(1)]) (auto simp: moves split: option.splits task_state.splits if_splits)
  have "good jm (set_task jid (Closing token) jm)"
    if "task_of jid jm = Some (Starting token) \<or> task_of jid jm = Some (Streaming token)" "terminal j" for token
    using Some v assms(2) that by (intro good_set [OF assms(1) Some]) (auto simp: moves split: if_splits)
  then show ?thesis
    using e Some by (auto simp: cancel_task_def split: option.split task_state.split)
qed

lemma cancel_task_jobs [simp]: "jm_jobs (cancel_task jid jm) = jm_jobs jm"
  by (auto simp: cancel_task_def split: option.split task_state.split)

lemma good_fold_stopped:
  "manager_ok jm \<Longrightarrow> jm_jobs jm = [] \<Longrightarrow> good jm (fold cancel_task tasks jm)"
proof (induction tasks arbitrary: jm)
  case (Cons jid tasks)
  show ?case
    unfolding fold_Cons comp_apply
    by (rule good_then [OF good_cancel_task [OF Cons.prems]]) (rule Cons.IH, assumption, simp add: Cons.prems(2))
qed (simp add: good_refl)

lemma good_release: "manager_ok jm \<Longrightarrow> good jm (release_job_session_lease jid jm)"
  using leases_ok_release [of jm jid] by (auto simp: good_def manager_ok_def job_ok_def keeps_def tokens_of_def)

lemma view_dropped: "view_ok r t live s c (Some j) \<Longrightarrow> jb_status j \<notin> {Pending, Running} \<Longrightarrow> view_ok r t False s c (Some j)"
  unfolding view_ok_def plain_ok_def by (cases "jb_durable j") auto

lemma good_no_jobs:
  assumes "manager_ok jm" "\<And>k j. k \<in> set (jm_jobs jm) \<Longrightarrow> record_of k jm = Some j \<Longrightarrow> jb_status j \<notin> {Pending, Running}"
  shows "good jm (jm\<lparr>jm_jobs := []\<rparr>)"
proof -
  have "job_ok (jm\<lparr>jm_jobs := []\<rparr>) k" for k
  proof (cases "k \<in> set (jm_jobs jm)")
    case True
    note ok = manager_ok_job [OF assms(1), of k]
    then obtain j where j: "record_of k jm = Some j" using True by (auto simp: job_ok_def view_ok_def split: option.splits)
    show ?thesis using ok view_dropped [OF _ assms(2) [OF True j]] j by (simp add: job_ok_def)
  next
    case False
    then show ?thesis using manager_ok_job [OF assms(1), of k] by (simp add: job_ok_def)
  qed
  then show ?thesis using assms(1) by (simp add: good_def manager_ok_def keeps_def)
qed

lemma good_force:
  assumes "manager_ok jm"
  shows "good jm (snd (force_cleanup now unjoined jm))"
proof -
  define forced where "forced = fold (\<lambda>jid. upd_job jid (force_job now)) (jm_jobs jm) jm"
  define tasks where "tasks = filter (\<lambda>jid. jid \<notin> set unjoined) (map fst (jm_tasks jm))"
  have f: "good jm forced" unfolding forced_def by (rule good_fold [OF good_force_job assms])
  have n: "good jm (forced\<lparr>jm_jobs := []\<rparr>)"
  proof (rule good_then [OF f], rule good_no_jobs)
    fix k j
    assume "k \<in> set (jm_jobs forced)" "record_of k forced = Some j"
    then show "jb_status j \<notin> {Pending, Running}"
      unfolding forced_def fold_upd_fields
      by (intro fold_upd_record [where P = "\<lambda>j. jb_status j \<notin> {Pending, Running}", OF force_job_status disjI1])
  qed
  have c: "good jm (fold cancel_task tasks (forced\<lparr>jm_jobs := []\<rparr>))"
    by (rule good_then [OF n]) (rule good_fold_stopped, assumption, simp)
  have r: "good jm (fold release_job_session_lease (jm_jobs jm) (fold cancel_task tasks (forced\<lparr>jm_jobs := []\<rparr>)))"
    by (rule good_then [OF c]) (rule good_fold [OF good_release])
  have "good jm (fold persist_terminal_job (proven_terminal forced)
      (fold release_job_session_lease (jm_jobs jm) (fold cancel_task tasks (forced\<lparr>jm_jobs := []\<rparr>))))"
    by (rule good_then [OF r]) (rule good_fold, simp add: good_refl)
  then show ?thesis by (simp add: force_cleanup_def Let_def forced_def tasks_def)
qed

subsection \<open>Every run\<close>

lemmas good_operations =
  good_start good_claimed good_checked good_policy good_item good_stream_end good_close good_reported good_heartbeat good_sweep
  good_cleanup good_force

lemma gateway_step_good:
  assumes "gateway_step jm jm'" "manager_ok jm" "cancels_ok jm"
  shows "manager_ok jm' \<and> keeps jm jm' \<and> cancels_ok jm'"
proof -
  have g: ?thesis if "good jm jm'"
    using that good_cancels_ok [OF that assms(3)] by (simp add: good_def)
  show ?thesis
    using assms(1)
  proof cases
    case created
    show ?thesis unfolding created(1) by (rule g [unfolded created(1)]) (rule good_create [OF assms(2) created(2,3)])
  next
    case recovered
    show ?thesis unfolding recovered(1) by (rule g [unfolded recovered(1)]) (rule good_recover [OF assms(2) recovered(2,3)])
  next
    case cancelled
    show ?thesis unfolding cancelled by (rule cancel_job_ok [OF assms(2,3)])
  next
    case cancel_replied
    show ?thesis unfolding cancel_replied(1)
      by (rule g [unfolded cancel_replied(1)]) (rule good_answered [OF assms(2,3) cancel_replied(2)])
  qed (rule g; simp only:; rule good_operations; rule assms(2))+
qed

lemma new_manager_ok: "manager_ok (new_job_manager max_jobs redis)" "cancels_ok (new_job_manager max_jobs redis)"
  by (auto simp: new_job_manager_def manager_ok_def cancels_ok_def job_ok_def view_ok_def leases_ok_def task_of_def)

lemma gateway_run_ok: "gateway_run max_jobs redis jm \<Longrightarrow> manager_ok jm \<and> cancels_ok jm"
  by (induction rule: gateway_run.induct) (use new_manager_ok gateway_step_good in blast)+

end
