(* ===== verification/JobOutcomes.thy ===== *)
theory JobOutcomes
  imports JobRuns
begin

text \<open>
  What the steps of \<open>JobRuns\<close> give: the properties of every run, one execution from its start to its end against a table
  of outcomes, the look-up of a submission in memory, the queues of listeners, and the runs in which an answer comes late.
\<close>

subsection \<open>Every run\<close>


text \<open>The end of a job that is not durable is final, and a cancelled one never ran: once its status is terminal no step
  of the gateway changes it, and while it is cancelled the command was not and will not be started.\<close>

theorem plain_job_end_final:
  assumes "gateway_run max_jobs redis jm" "gateway_step jm jm'" "record_of jid jm = Some j" "\<not> jb_durable j" "terminal j"
  shows "\<exists>j'. record_of jid jm' = Some j' \<and> jb_status j' = jb_status j
    \<and> (jb_status j = Cancelled \<longrightarrow> jid \<notin> set (jm_streamed jm'))"
proof -
  have ok: "manager_ok jm'" "keeps jm jm'"
    using gateway_step_good [OF assms(2)] gateway_run_ok [OF assms(1)] by blast+
  then obtain j' where j': "record_of jid jm' = Some j'" "keeps_job j j'" using assms(3) by (auto simp: keeps_def)
  then have "\<not> jb_durable j'" "jb_status j' = jb_status j" using assms(4,5) by (auto simp: keeps_job_def)
  then show ?thesis
    using j'(1) manager_ok_job [OF ok(1), of jid] by (auto simp: job_ok_def view_ok_def plain_ok_def)
qed

text \<open>No command without a decision: a command that a gateway has started is that of a job, which is neither waiting nor
  cancelled unless it is durable; a durable job is started only by a gateway with Redis and after the server has
  acknowledged a claim of the job by that gateway.\<close>

theorem started_job_claimed:
  assumes "gateway_run max_jobs redis jm" "jid \<in> set (jm_streamed jm)"
  shows "\<exists>j. record_of jid jm = Some j
    \<and> (if jb_durable j then jm_redis jm \<and> (\<exists>token. (jid, token) \<in> set (jm_claimed jm)) else jb_status j \<notin> {Pending, Cancelled})"
proof -
  have "job_ok jm jid" using gateway_run_ok [OF assms(1)] by (simp add: manager_ok_job)
  then obtain j where j: "record_of jid jm = Some j" and v: "view_ok (jm_redis jm) (task_of jid jm) (jid \<in> set (jm_jobs jm)) True (tokens_of jid jm) (Some j)"
    using assms(2) by (auto simp: job_ok_def view_ok_def split: option.splits)
  show ?thesis
  proof (cases "jb_durable j")
    case True
    then show ?thesis using j v by (auto simp: view_ok_def claimed_ok_def tokens_of_def)
  next
    case False
    then have p: "plain_ok (task_of jid jm) (jid \<in> set (jm_jobs jm)) True j" using v by (simp add: view_ok_def)
    have "jb_status j \<notin> {Pending, Cancelled}"
      using p by (auto simp: plain_ok_def split: option.splits task_state.splits)
    then show ?thesis using j False by simp
  qed
qed

subsection \<open>One execution\<close>








lemma end_task_lease [simp]: "map_of (jm_leases (end_task jid jm)) jid = None"
  by (simp add: end_task_def map_of_leases_release)







subsection \<open>How many jobs\<close>

text \<open>Only the acceptance of a job adds to the table.\<close>

definition shrinks :: "job_manager \<Rightarrow> job_manager \<Rightarrow> bool" where
  "shrinks jm jm' \<longleftrightarrow>
     (\<exists>P. jm_jobs jm' = filter P (jm_jobs jm)) \<and> jm_max_jobs jm' = jm_max_jobs jm \<and> jm_redis jm' = jm_redis jm"

lemma shrinks_same: "jm_jobs jm' = jm_jobs jm \<Longrightarrow> jm_max_jobs jm' = jm_max_jobs jm \<Longrightarrow> jm_redis jm' = jm_redis jm \<Longrightarrow> shrinks jm jm'"
  by (auto simp: shrinks_def intro: exI [of _ "\<lambda>_. True"])

lemma fold_keeps:
  assumes "\<And>x jm. jm_jobs (f x jm) = jm_jobs jm \<and> jm_max_jobs (f x jm) = jm_max_jobs jm \<and> jm_redis (f x jm) = jm_redis jm"
  shows "jm_jobs (fold f xs jm) = jm_jobs jm \<and> jm_max_jobs (fold f xs jm) = jm_max_jobs jm \<and> jm_redis (fold f xs jm) = jm_redis jm"
  using assms by (induction xs arbitrary: jm) simp_all

lemma cancel_task_keeps:
  "jm_jobs (cancel_task jid jm) = jm_jobs jm \<and> jm_max_jobs (cancel_task jid jm) = jm_max_jobs jm \<and> jm_redis (cancel_task jid jm) = jm_redis jm"
  by (auto simp: cancel_task_def split: option.split task_state.split)

lemma force_shrinks: "shrinks jm (snd (force_cleanup now unjoined jm))"
proof -
  define forced where "forced = fold (\<lambda>jid. upd_job jid (force_job now)) (jm_jobs jm) jm"
  have f: "jm_max_jobs forced = jm_max_jobs jm" "jm_redis forced = jm_redis jm"
    using fold_keeps [of "\<lambda>jid. upd_job jid (force_job now)" "jm_jobs jm" jm] by (simp_all add: forced_def)
  show ?thesis
    using f fold_keeps [of cancel_task, OF cancel_task_keeps] fold_keeps [of release_job_session_lease] fold_keeps [of persist_terminal_job]
    by (auto simp: force_cleanup_def Let_def shrinks_def forced_def [symmetric] intro!: exI [of _ "\<lambda>_. False"])
qed

lemma local_shrinks:
  "shrinks jm (run_start now attempt token jid jm)" "shrinks jm (run_checked now attempt requested jid jm)"
  "shrinks jm (run_policy now denied jid jm)" "shrinks jm (run_item item jid jm)" "shrinks jm (run_stream_end failure jid jm)"
  "shrinks jm (run_close now jid jm)" "shrinks jm (run_reported now persisted jid jm)" "shrinks jm (run_heartbeat now ok requested jid jm)"
  by (rule shrinks_same; auto simp: run_start_def Let_def begin_run_def run_checked_def run_policy_def run_item_def run_stream_end_def
      run_close_def run_reported_def run_heartbeat_def split: option.split task_state.split)+

lemma other_shrinks:
  "shrinks jm (sweep now threshold jm)" "shrinks jm (snd (cancel_job now jid jm))" "shrinks jm (snd (cancel_answered now reply jid jm))"
  "shrinks jm (snd (cleanup_jobs now jm))"
proof -
  show "shrinks jm (sweep now threshold jm)"
    using fold_keeps [of "\<lambda>jid. upd_job jid (sweep_job now threshold)" "jm_jobs jm" jm] by (intro shrinks_same) (simp_all add: sweep_def)
  show "shrinks jm (snd (cancel_job now jid jm))" "shrinks jm (snd (cancel_answered now reply jid jm))"
    by (auto intro!: shrinks_same simp: cancel_job_def cancel_answered_def cancel_local_def Let_def map_prod_def split: sum.split)
  show "shrinks jm (snd (cleanup_jobs now jm))" by (auto simp: cleanup_jobs_def shrinks_def)
qed

lemma claimed_shrinks: "distinct (jm_jobs jm) \<Longrightarrow> shrinks jm (run_claimed answer jid jm)"
  by (auto simp: run_claimed_def shrinks_def distinct_remove1_removeAll removeAll_filter_not_eq
      intro: exI [of _ "\<lambda>_. True"] split: option.split task_state.split sum.split bool.split)

lemma active_jobs_shrink:
  assumes "manager_ok jm" "shrinks jm jm'" "keeps jm jm'" "\<not> jm_redis jm"
  shows "active_jobs jm' \<le> active_jobs jm"
proof -
  obtain P where P: "jm_jobs jm' = filter P (jm_jobs jm)" using assms(2) by (auto simp: shrinks_def)
  let ?active = "\<lambda>jm jid. case record_of jid jm of None \<Rightarrow> False | Some j \<Rightarrow> jb_status j \<in> set ACTIVE_STATES"
  have "?active jm k" if k: "k \<in> set (jm_jobs jm)" "?active jm' k" for k
  proof -
    obtain j where j: "record_of k jm = Some j" "\<not> jb_durable j"
      using manager_ok_job [OF assms(1), of k] k(1) assms(4) by (auto simp: job_ok_def view_ok_def split: option.splits if_splits)
    obtain j' where j': "record_of k jm' = Some j'" "keeps_job j j'" using assms(3) j(1) by (auto simp: keeps_def)
    then have "\<not> terminal j" using k(2) j(2) by (auto simp: keeps_job_def ACTIVE_STATES_def TERMINAL_STATES_def)
    then show ?thesis using j(1) by (cases "jb_status j") (auto simp: ACTIVE_STATES_def)
  qed
  then have "filter (?active jm') (jm_jobs jm') = filter (\<lambda>k. ?active jm' k \<and> P k) (filter (?active jm) (jm_jobs jm))"
    unfolding P filter_filter by (intro filter_cong) auto
  then have "length (filter (?active jm') (jm_jobs jm')) \<le> length (filter (?active jm) (jm_jobs jm))"
    by (simp only: length_filter_le)
  then show ?thesis by (simp only: active_jobs_def)
qed

lemma create_active:
  assumes "manager_ok jm" "active_jobs jm \<le> jm_max_jobs jm" "record_of fresh jm = None" "\<forall>jid. reserved = Inr (jid, True) \<longrightarrow> jid = fresh"
  shows "active_jobs (snd (create_job found found_again pinned reserved fresh j jm)) \<le> jm_max_jobs jm
    \<and> jm_max_jobs (snd (create_job found found_again pinned reserved fresh j jm)) = jm_max_jobs jm
    \<and> jm_redis (snd (create_job found found_again pinned reserved fresh j jm)) = jm_redis jm"
proof -
  let ?jm = "accept_job fresh j (jm\<lparr>jm_pins := jb_session_id j # jm_pins jm\<rparr>)"
  let ?new = "snd (create_job found found_again pinned reserved fresh j jm)"
  have c: "?new = jm \<or> ?new = ?jm" using create_job_cases [of found found_again pinned reserved fresh j jm] assms(4) by blast
  have full: "jm_max_jobs jm \<le> active_jobs jm \<Longrightarrow> ?new = jm"
    by (cases "jb_durable j"; cases "jm_redis jm"; cases found; cases found_again)
       (auto simp: create_job_def Let_def split: option.split)
  have "fresh \<notin> set (jm_jobs jm)"
    using manager_ok_job [OF assms(1), of fresh] assms(3) by (simp add: job_ok_def view_ok_def)
  then have "filter (\<lambda>jid. case record_of jid ?jm of None \<Rightarrow> False | Some j \<Rightarrow> jb_status j \<in> set ACTIVE_STATES) (jm_jobs jm)
      = filter (\<lambda>jid. case record_of jid jm of None \<Rightarrow> False | Some j \<Rightarrow> jb_status j \<in> set ACTIVE_STATES) (jm_jobs jm)"
    by (intro filter_cong) auto
  then have "active_jobs ?jm \<le> active_jobs jm + 1" by (simp add: active_jobs_def)
  moreover have "jm_max_jobs ?jm = jm_max_jobs jm" "jm_redis ?jm = jm_redis jm" by simp_all
  ultimately show ?thesis using c full assms(2) by (cases "jm_max_jobs jm \<le> active_jobs jm") auto
qed

lemma step_active:
  assumes "gateway_step jm jm'" "manager_ok jm" "cancels_ok jm" "\<not> jm_redis jm" "active_jobs jm \<le> jm_max_jobs jm"
  shows "active_jobs jm' \<le> jm_max_jobs jm \<and> jm_max_jobs jm' = jm_max_jobs jm \<and> jm_redis jm' = jm_redis jm"
proof -
  have k: "keeps jm jm'" using gateway_step_good [OF assms(1-3)] by blast
  have s: ?thesis if "shrinks jm jm'"
    using active_jobs_shrink [OF assms(2) that k assms(4)] that assms(5) by (simp add: shrinks_def)
  note d = manager_ok_distinct [OF assms(2)]
  show ?thesis
    using assms(1)
  proof cases
    case created
    show ?thesis unfolding created(1) by (rule create_active [OF assms(2,5) created(2,3)])
  next
    case recovered
    then show ?thesis using assms(4) by simp
  qed (rule s; simp only:; rule local_shrinks other_shrinks force_shrinks claimed_shrinks [OF d])+
qed

text \<open>The bounds of a gateway: in every reachable state the output kept of a job is at most ten megabytes and the note
  that it was cut, and a gateway without Redis never has more jobs under way than its maximum.\<close>

theorem job_bounds:
  assumes "gateway_run max_jobs redis jm"
  shows "(\<forall>jid j. record_of jid jm = Some j \<longrightarrow>
      length (jb_stdout j) \<le> MAX_STDOUT_SIZE + length TRUNCATED \<and> length (jb_stderr j) \<le> MAX_STDOUT_SIZE + length TRUNCATED)
    \<and> (\<not> redis \<longrightarrow> active_jobs jm \<le> max_jobs)"
proof -
  have ok: "job_ok jm jid" for jid using gateway_run_ok [OF assms] by (simp add: manager_ok_job)
  have out: "length (jb_stdout j) \<le> OUTPUT_BOUND \<and> length (jb_stderr j) \<le> OUTPUT_BOUND" if "record_of jid jm = Some j" for jid j
    using ok [of jid] that by (simp add: job_ok_def view_ok_def)
  have "jm_max_jobs jm = max_jobs \<and> jm_redis jm = redis \<and> active_jobs jm \<le> max_jobs" if "\<not> redis"
    using assms that
  proof induction
    case run_new
    then show ?case by (simp add: new_job_manager_def active_jobs_def)
  next
    case (run_step jm jm')
    have "manager_ok jm" "cancels_ok jm" using gateway_run_ok [OF run_step.hyps(1)] by blast+
    from step_active [OF run_step.hyps(2) this] show ?case using run_step.IH run_step.prems by simp
  qed
  then show ?thesis using out by (auto simp: OUTPUT_BOUND_def)
qed

subsection \<open>Look-up in memory and listeners\<close>

definition candidate_of :: "(string \<Rightarrow> string) \<Rightarrow> string \<times> job \<Rightarrow> binding" where
  "candidate_of sha e =
     \<lparr>bd_job_id = fst e, bd_owner_id = jb_owner_id (snd e),
      bd_payload_hash = submission_payload_hash sha (jb_session_id (snd e)) (jb_command (snd e)) (jb_stdin (snd e)) (jb_timeout (snd e))\<rparr>"

text \<open>An exact look-up answers the one job with the key, and refuses two.\<close>

definition unanimous :: "binding list \<Rightarrow> submission_error + binding option" where
  "unanimous bs =
     (case bs of [] \<Rightarrow> Inr None | b # rest \<Rightarrow> if list_all (\<lambda>c. c = b) rest then Inr (Some b) else Inl SubmissionUnavailable)"

lemma match_jobs_exact:
  assumes "key \<noteq> []"
  shows "match_jobs sha key False jobs found =
     unanimous ((case found of None \<Rightarrow> [] | Some b \<Rightarrow> [b]) @ map (candidate_of sha) (filter (\<lambda>e. jb_submission_key (snd e) = Some key) jobs))"
proof (induction jobs arbitrary: found)
  case Nil
  then show ?case by (cases found) (simp_all add: unanimous_def)
next
  case (Cons e jobs)
  obtain jid j where e: "e = (jid, j)" by (cases e)
  show ?case
  proof (cases "jb_submission_key j = Some key")
    case True
    then have m: "match_jobs sha key False (e # jobs) found =
        (if found \<noteq> None \<and> found \<noteq> Some (candidate_of sha e) then Inl SubmissionUnavailable
         else match_jobs sha key False jobs (Some (candidate_of sha e)))"
      using assms by (simp add: e candidate_of_def Let_def)
    show ?thesis unfolding m Cons.IH using True by (cases found) (simp_all add: e unanimous_def)
  next
    case False
    then have "match_jobs sha key False (e # jobs) found = match_jobs sha key False jobs found"
      by (cases "jb_submission_key j") (simp_all add: e Let_def)
    then show ?thesis using Cons.IH [of found] False by (simp add: e)
  qed
qed

lemma offer_event_bound: "length queue \<le> SSE_LISTENER_QUEUE_SIZE \<Longrightarrow> length (offer_event is_output event queue) \<le> SSE_LISTENER_QUEUE_SIZE"
  by (simp add: offer_event_def SSE_LISTENER_QUEUE_SIZE_def)

lemma control_event_kept: "\<not> is_output event \<Longrightarrow> last (offer_event is_output event queue) = event"
  by (simp add: offer_event_def)

subsection \<open>Answers that come late\<close>

definition demo_plain :: job where
  "demo_plain = new_job ''s'' ''ls'' ''o'' JNull [] 60 None"

definition demo_keyed :: job where
  "demo_keyed = new_job ''s'' ''ls'' ''o'' JNull [] 60 (Some ''task:1'')"

text \<open>A gateway with one accepted job, and one whose durable job waits for the look for a cancellation, or streams.\<close>

definition demo_plain_gateway :: job_manager where
  "demo_plain_gateway = snd (create_job (Inr None) (Inr None) True (Inr ([], False)) ''j'' demo_plain (new_job_manager 2 False))"

definition demo_checking :: job_manager where
  "demo_checking =
     run_claimed (Inr True) ''j'' (run_start 1 ''a'' ''w'' ''j''
       (snd (create_job (Inr None) (Inr None) True (Inr (''j'', True)) ''j'' demo_keyed (new_job_manager 2 True))))"

definition demo_streaming :: job_manager where
  "demo_streaming = run_item (ExitStatus 0) ''j'' (run_policy 3 None ''j'' (run_checked 2 ''a'' False ''j'' demo_checking))"

text \<open>
  Cancellation is answered while the job waits for the look: the caller is told that the job is cancelled, its waiters
  are woken, and then the command is started.
\<close>

lemma cancelled_durable_job_starts:
  "let asked = snd (cancel_job 2 ''j'' demo_checking);
       (answer, cancelled) = cancel_answered 3 (Inr (Some ''cancelling'')) ''j'' asked;
       started = run_policy 5 None ''j'' (run_checked 4 ''a'' False ''j'' cancelled) in
   answer = Inr Cancelled \<and> wait_for_completion ''j'' ''o'' cancelled \<noteq> Inr None
   \<and> map_option jb_status (record_of ''j'' started) = Some Running \<and> jm_streamed started = [''j'']"
  by code_simp

text \<open>
  Cancellation is answered after the end of the stream: it replaces the outcome, and the job is never reported nor its
  waiters woken.
\<close>

lemma late_cancel_hides_completion:
  "let asked = snd (cancel_job 4 ''j'' demo_streaming);
       ended = run_stream_end None ''j'' asked;
       closed = run_close 6 ''j'' (snd (cancel_answered 5 (Inr (Some ''cancelling'')) ''j'' ended)) in
   map_option jb_status (record_of ''j'' ended) = Some Completed
   \<and> map_option (\<lambda>j. (jb_status j, jb_completed_event j, jb_persisted j)) (record_of ''j'' closed) = Some (Cancelling, False, Some False)
   \<and> task_of ''j'' closed = None"
  by code_simp

text \<open>A claim that fails leaves its job in the table, where it counts as active and cannot be recovered.\<close>

lemma claim_error_blocks_recovery:
  assumes "task_of jid jm = Some (Claiming token)" "jid \<in> set (jm_jobs jm)" "envelope_job decode env = Some (jid, j)"
  shows "jid \<in> set (jm_jobs (run_claimed (Inl e) jid jm)) \<and> record_of jid (run_claimed (Inl e) jid jm) = record_of jid jm
    \<and> recover_job decode now up pinned env (run_claimed (Inl e) jid jm) = (None, run_claimed (Inl e) jid jm)"
  using assms by (simp add: run_claimed_def recover_job_def)

subsection \<open>Witnesses\<close>

lemma demo_runs:
  "gateway_run 2 False demo_plain_gateway"
  "gateway_run 2 True demo_streaming"
proof -
  show "gateway_run 2 False demo_plain_gateway"
    unfolding demo_plain_gateway_def demo_plain_def
    by (rule run_step [OF run_new], rule created) (simp_all add: new_job_manager_def)
  have "gateway_run 2 True (snd (create_job (Inr None) (Inr None) True (Inr (''j'', True)) ''j'' demo_keyed (new_job_manager 2 True)))"
    unfolding demo_keyed_def by (rule run_step [OF run_new], rule created) (simp_all add: new_job_manager_def)
  from run_step [OF run_step [OF run_step [OF run_step [OF run_step [OF this started] claim_answered] checked] decided] streamed]
  show "gateway_run 2 True demo_streaming" unfolding demo_streaming_def demo_checking_def .
qed


lemma plain_job_end_final_witness:
  "let cancelled = snd (cancel_job 1 ''j'' demo_plain_gateway) in
   \<exists>j. record_of ''j'' (run_start 2 ''a'' ''w'' ''j'' cancelled) = Some j \<and> jb_status j = Cancelled"
proof -
  let ?jm = "snd (cancel_job 1 ''j'' demo_plain_gateway)"
  have r: "gateway_run 2 False ?jm" by (rule run_step [OF demo_runs(1)], rule cancelled)
  have "map_option (\<lambda>j. (jb_status j, jb_durable j)) (record_of ''j'' ?jm) = Some (Cancelled, False)" by code_simp
  then obtain j where "record_of ''j'' ?jm = Some j" "jb_status j = Cancelled" "\<not> jb_durable j" by auto
  then show ?thesis using plain_job_end_final [OF r started, of "''j''" j 2 "''a''" "''w''" "''j''"] by auto
qed

lemma started_job_claimed_witness: "(''j'', ''w'') \<in> set (jm_claimed demo_streaming)"
proof -
  have "jm_streamed demo_streaming = [''j'']" "map_option jb_durable (record_of ''j'' demo_streaming) = Some True"
      "jm_claimed demo_streaming = [(''j'', ''w'')]" by code_simp+
  then show ?thesis using started_job_claimed [OF demo_runs(2), of "''j''"] by auto
qed



lemma job_bounds_witness: "active_jobs demo_plain_gateway = 1 \<and> active_jobs demo_plain_gateway \<le> 2"
proof -
  have "active_jobs demo_plain_gateway = 1" by code_simp
  then show ?thesis using job_bounds [OF demo_runs(1)] by simp
qed

end
